(* ===== verification/Prelude.thy ===== *)
theory Prelude
  imports Complex_Main "HOL-Library.Sublist"
begin

text \<open>
  Shared vocabulary of the development.  A Python call that may raise is a value of
  \<open>('e, 'a) result\<close>: \<open>Inl e\<close> for the exception \<open>e\<close>, \<open>Inr x\<close> for the value returned.
  A block of the code that runs inside \<open>transaction.atomic()\<close> returns its new state inside
  \<open>Inr\<close>, so an exception leaves the caller's state as it was (the roll-back).
  A database table is the list of its rows in primary-key order.
  The collections \<open>db_simps\<close> and \<open>result_simps\<close> gather the equations that the component
  proofs use together.
\<close>

named_theorems db_simps \<open>table operations\<close>
named_theorems result_simps \<open>results and their sequencing\<close>

type_synonym ('e, 'a) result = "'e + 'a"
type_synonym timestamp = rat

subsection \<open>Results\<close>

definition rbind :: "('e, 'a) result \<Rightarrow> ('a \<Rightarrow> ('e, 'b) result) \<Rightarrow> ('e, 'b) result" where
  "rbind m f = (case m of Inl e \<Rightarrow> Inl e | Inr x \<Rightarrow> f x)"

lemma rbind_Inl [simp, result_simps]: "rbind (Inl e) f = Inl e"
  by (simp add: rbind_def)

lemma rbind_Inr [simp, result_simps]: "rbind (Inr x) f = f x"
  by (simp add: rbind_def)

lemma rbind_eq_Inr [result_simps]: "rbind m f = Inr y \<longleftrightarrow> (\<exists>x. m = Inr x \<and> f x = Inr y)"
  by (cases m) auto

lemma rbind_eq_Inl [result_simps]:
  "rbind m f = Inl e \<longleftrightarrow> m = Inl e \<or> (\<exists>x. m = Inr x \<and> f x = Inl e)"
  by (cases m) auto

lemma rbind_assoc: "rbind (rbind m f) g = rbind m (\<lambda>x. rbind (f x) g)"
  by (cases m) auto

definition guard_result :: "bool \<Rightarrow> 'e \<Rightarrow> ('e, unit) result" where
  "guard_result b e = (if b then Inr () else Inl e)"

lemma guard_result_Inr [simp, result_simps]: "guard_result b e = Inr u \<longleftrightarrow> b"
  by (simp add: guard_result_def)

lemma guard_result_Inl [simp, result_simps]: "guard_result b e = Inl e' \<longleftrightarrow> \<not> b \<and> e' = e"
  by (auto simp: guard_result_def)

text \<open>A loop whose body may raise: the first exception leaves the loop.\<close>

fun rfold :: "('s \<Rightarrow> 'a \<Rightarrow> ('e, 's) result) \<Rightarrow> 's \<Rightarrow> 'a list \<Rightarrow> ('e, 's) result" where
  "rfold f s [] = Inr s"
| "rfold f s (x # xs) = rbind (f s x) (\<lambda>s'. rfold f s' xs)"

lemma rfold_append: "rfold f s (xs @ ys) = rbind (rfold f s xs) (\<lambda>s'. rfold f s' ys)"
  by (induction xs arbitrary: s) (simp_all add: rbind_assoc)

lemma rfold_invariant:
  assumes "rfold f s xs = Inr s'" and "P s"
    and "\<And>s x s'. P s \<Longrightarrow> x \<in> set xs \<Longrightarrow> f s x = Inr s' \<Longrightarrow> P s'"
  shows "P s'"
  using assms
proof (induction xs arbitrary: s)
  case Nil
  then show ?case by simp
next
  case (Cons x xs)
  from Cons.prems(1) obtain t where t: "f s x = Inr t" and r: "rfold f t xs = Inr s'"
    by (auto simp: result_simps)
  have "P t" by (rule Cons.prems(3) [OF Cons.prems(2) _ t]) simp
  then show ?case
  proof (rule Cons.IH [OF r])
    fix s x s'
    assume "P s" "x \<in> set xs" "f s x = Inr s'"
    then show "P s'" using Cons.prems(3) [of s x s'] by simp
  qed
qed

lemma option_eqI: "(\<And>w. a = Some w \<longleftrightarrow> b = Some w) \<Longrightarrow> a = b"
  by (cases a; cases b) auto

subsection \<open>Tables: rows in primary-key order\<close>

text \<open>
  \<open>first_row\<close> is \<open>queryset.first()\<close>, \<open>update_rows\<close> is \<open>queryset.filter(p).update(..)\<close> and
  \<open>count_rows\<close> the number of rows it reports.
\<close>

definition first_row :: "('a \<Rightarrow> bool) \<Rightarrow> 'a list \<Rightarrow> 'a option" where
  "first_row p rows = List.find p rows"

definition update_rows :: "('a \<Rightarrow> bool) \<Rightarrow> ('a \<Rightarrow> 'a) \<Rightarrow> 'a list \<Rightarrow> 'a list" where
  "update_rows p f rows = map (\<lambda>r. if p r then f r else r) rows"

definition count_rows :: "('a \<Rightarrow> bool) \<Rightarrow> 'a list \<Rightarrow> nat" where
  "count_rows p rows = length (filter p rows)"

lemma first_row_Some: "first_row p rows = Some r \<Longrightarrow> r \<in> set rows \<and> p r"
  by (auto simp: first_row_def find_Some_iff)

lemma first_row_None [db_simps]: "first_row p rows = None \<longleftrightarrow> (\<forall>r\<in>set rows. \<not> p r)"
  by (auto simp: first_row_def find_None_iff)

lemma first_row_Nil [simp]: "first_row p [] = None"
  by (simp add: first_row_def)

lemma first_row_Cons [simp]:
  "first_row p (r # rows) = (if p r then Some r else first_row p rows)"
  by (simp add: first_row_def)

lemma set_update_rows [db_simps]:
  "set (update_rows p f rows) = (\<lambda>r. if p r then f r else r) ` set rows"
  by (simp add: update_rows_def)

lemma update_rows_Nil [simp]: "update_rows p f [] = []"
  by (simp add: update_rows_def)

lemma update_rows_Cons [simp]:
  "update_rows p f (r # rows) = (if p r then f r else r) # update_rows p f rows"
  by (simp add: update_rows_def)

lemma map_update_rows_same:
  "(\<And>r. r \<in> set rows \<Longrightarrow> p r \<Longrightarrow> g (f r) = g r) \<Longrightarrow> map g (update_rows p f rows) = map g rows"
  by (auto simp: update_rows_def)

lemma count_rows_0 [db_simps]: "count_rows p rows = 0 \<longleftrightarrow> (\<forall>r\<in>set rows. \<not> p r)"
  by (simp add: count_rows_def filter_empty_conv)

lemma count_rows_Nil [simp]: "count_rows p [] = 0"
  by (simp add: count_rows_def)

lemma count_rows_Cons [simp]:
  "count_rows p (r # rows) = (if p r then Suc (count_rows p rows) else count_rows p rows)"
  by (simp add: count_rows_def)

lemma distinct_key_eq:
  "distinct (map key rows) \<Longrightarrow> r \<in> set rows \<Longrightarrow> s \<in> set rows \<Longrightarrow> key r = key s \<Longrightarrow> r = s"
  by (induction rows) (auto simp: image_iff)

lemma first_row_key:
  assumes "distinct (map key rows)" and "r \<in> set rows"
  shows "first_row (\<lambda>x. key x = key r) rows = Some r"
  using assms
proof (induction rows)
  case (Cons x xs)
  then show ?case
    by (cases "x = r") (auto simp: image_iff)
qed simp

subsection \<open>Least element of a list\<close>

text \<open>\<open>.order_by(column).first()\<close> on a list of column values.\<close>

definition least_of :: "int list \<Rightarrow> int option" where
  "least_of xs = (case sort xs of [] \<Rightarrow> None | x # _ \<Rightarrow> Some x)"

lemma least_of_None [simp]: "least_of xs = None \<longleftrightarrow> xs = []"
proof -
  have "sort xs = [] \<longleftrightarrow> xs = []" by (metis set_empty set_sort)
  then show ?thesis by (auto simp: least_of_def split: list.splits)
qed

lemma least_of_Some: "least_of xs = Some x \<Longrightarrow> x \<in> set xs \<and> (\<forall>y\<in>set xs. x \<le> y)"
proof -
  assume "least_of xs = Some x"
  then obtain rest where s: "sort xs = x # rest"
    by (auto simp: least_of_def split: list.splits)
  have "sorted (x # rest)" using s by (metis sorted_sort)
  moreover have "set xs = set (x # rest)" using s by (metis set_sort)
  ultimately show ?thesis by auto
qed

subsection \<open>Decimal numerals\<close>

text \<open>\<open>int(text)\<close> of ASCII digits, and \<open>str(n)\<close>.\<close>

definition decimal_value :: "string \<Rightarrow> nat" where
  "decimal_value ds = foldl (\<lambda>n c. 10 * n + (of_char c - 48)) 0 ds"

fun digits :: "nat \<Rightarrow> string" where
  "digits n = (if n < 10 then [char_of (48 + n)] else digits (n div 10) @ [char_of (48 + n mod 10)])"

declare digits.simps [simp del]

lemma of_digit [simp]: "(k :: nat) < 10 \<Longrightarrow> of_char (char_of (48 + k) :: char) = (48 + k :: nat)"
  by (simp add: of_char_of)

lemma digits_value: "decimal_value (digits n) = n"
proof (induction n rule: digits.induct)
  case (1 n)
  show ?case
  proof (cases "n < 10")
    case True
    then show ?thesis by (simp add: digits.simps [of n] decimal_value_def)
  next
    case False
    then have "foldl (\<lambda>n c. 10 * n + (of_char c - 48)) 0 (digits (n div 10)) = n div 10"
      using 1 by (simp add: decimal_value_def)
    then show ?thesis using False by (simp add: digits.simps [of n] decimal_value_def)
  qed
qed

lemma digits_inj: "inj digits"
  using digits_value by (metis injI)

subsection \<open>Transition systems\<close>

text \<open>
  The contract between a component's operations and its invariant: the invariant survives
  every step.  Each component with a state machine interprets this locale on its own step
  relation and gets the statement for every run.
\<close>

locale invariant_system =
  fixes step :: "'s \<Rightarrow> 's \<Rightarrow> bool"
    and inv :: "'s \<Rightarrow> bool"
  assumes inv_step: "inv s \<Longrightarrow> step s t \<Longrightarrow> inv t"
begin

lemma inv_run: "step\<^sup>*\<^sup>* s t \<Longrightarrow> inv s \<Longrightarrow> inv t"
  by (induction rule: rtranclp_induct) (auto intro: inv_step)

lemma inv_run_from:
  assumes "step\<^sup>*\<^sup>* s t" and "inv s" and "\<And>u. inv u \<Longrightarrow> P u"
  shows "P t"
  using inv_run [OF assms(1,2)] assms(3) by blast

end

text \<open>
  A step relation every step of which either leaves what one looks at alone or lowers its rank: what one looks
  at changes at most as often as the rank allows.
\<close>

locale ranked_system = invariant_system +
  fixes look :: "'s \<Rightarrow> 'a"
    and rank :: "'a \<Rightarrow> nat"
  assumes spends: "inv s \<Longrightarrow> step s t \<Longrightarrow> look t = look s \<or> rank (look t) < rank (look s)"
begin

lemma changes_bounded:
  "successively step (s # ss) \<Longrightarrow> inv s \<Longrightarrow> length (remdups_adj (map look (s # ss))) \<le> Suc (rank (look s))"
proof (induction ss arbitrary: s)
  case (Cons t ss)
  then have st: "step s t" and rest: "successively step (t # ss)" by auto
  have "length (remdups_adj (map look (t # ss))) \<le> Suc (rank (look t))"
    using Cons.IH [OF rest] inv_step [OF Cons.prems(2) st] by simp
  then show ?case using spends [OF Cons.prems(2) st] by auto
qed simp

end

text \<open>
  A step relation that also never undoes a fact: what holds of a state still holds after
  any number of steps, as long as the invariant holds.
\<close>

locale monotone_system = invariant_system +
  fixes keeps :: "'s \<Rightarrow> 's \<Rightarrow> bool"
  assumes keeps_refl: "keeps s s"
    and keeps_trans: "keeps s t \<Longrightarrow> keeps t u \<Longrightarrow> keeps s u"
    and keeps_step: "inv s \<Longrightarrow> step s t \<Longrightarrow> keeps s t"
begin

lemma keeps_run: "step\<^sup>*\<^sup>* s t \<Longrightarrow> inv s \<Longrightarrow> keeps s t"
proof (induction rule: rtranclp_induct)
  case base
  show ?case by (rule keeps_refl)
next
  case (step t u)
  have "inv t" using step.hyps(1) step.prems by (rule inv_run)
  then show ?case
    using step.IH step.prems keeps_step [OF _ step.hyps(2)] by (blast intro: keeps_trans)
qed

end

subsection \<open>Dates\<close>

text \<open>
  The dates of the standard library the components share: the lengths of months
  (\<open>calendar.monthrange\<close>) and the ordinal of a date.
\<close>

definition is_leap :: "nat \<Rightarrow> bool" where
  "is_leap y \<longleftrightarrow> y mod 4 = 0 \<and> (y mod 100 \<noteq> 0 \<or> y mod 400 = 0)"

definition days_in_month :: "nat \<Rightarrow> nat \<Rightarrow> nat" where
  "days_in_month y m =
     (if m = 2 then (if is_leap y then 29 else 28) else if m \<in> {4, 6, 9, 11} then 30 else 31)"

text \<open>The ordinal of a date, \<open>datetime.date.toordinal\<close>.\<close>

definition to_ordinal :: "nat \<Rightarrow> nat \<Rightarrow> nat \<Rightarrow> int" where
  "to_ordinal y m d =
     (let p = y - 1
      in int (p * 365 + p div 4 - p div 100 + p div 400 + sum_list (map (days_in_month y) [1..<m]) + d))"

record cdate =
  cd_year :: nat
  cd_month :: nat
  cd_day :: nat

definition ordinal :: "cdate \<Rightarrow> int" where
  "ordinal d = to_ordinal (cd_year d) (cd_month d) (cd_day d)"

end
