(* ===== verification/Circuit_Breaker.thy ===== *)
theory Circuit_Breaker
  imports Prelude
begin

text \<open>
  The circuit breaker of \<^verbatim>\<open>src/waldur_core/logging/circuit_breaker.py\<close>, which guards the
  STOMP connections.  Every method runs under the breaker's lock, so an execution is a
  sequence of the operations below.  \<open>time.time()\<close> is read once or twice in a method; each
  reading is an argument (\<open>now\<close> for the method's own reading, \<open>later\<close> for the reading that
  \<open>_transition_to\<close> makes), a rational number of seconds.
\<close>

datatype circuit_state = CLOSED | OPEN | HALF_OPEN

datatype reason =
    Recovery_timeout_elapsed
  | Success_threshold_reached
  | Failure_during_recovery
  | Failure_threshold_reached
  | Manual_reset

record history_entry =
  h_timestamp :: timestamp
  h_from :: circuit_state
  h_to :: circuit_state
  h_reason :: reason

record breaker =
  failure_threshold :: int
  recovery_timeout :: rat
  success_threshold :: int
  state :: circuit_state
  failure_count :: int
  success_count :: int
  last_failure_time :: "timestamp option"
  last_state_change :: "timestamp option"
  state_history :: "history_entry list"

definition init_breaker :: "int \<Rightarrow> rat \<Rightarrow> int \<Rightarrow> breaker" where
  "init_breaker ft rt st =
     \<lparr>failure_threshold = ft, recovery_timeout = rt, success_threshold = st,
      state = CLOSED, failure_count = 0, success_count = 0,
      last_failure_time = None, last_state_change = None, state_history = []\<rparr>"

definition stomp_circuit_breaker :: breaker where
  "stomp_circuit_breaker = init_breaker 5 60 2"

text \<open>\<open>self._state_history[-50:]\<close>: the last fifty entries.\<close>

definition last_entries :: "nat \<Rightarrow> 'a list \<Rightarrow> 'a list" where
  "last_entries n xs = drop (length xs - n) xs"

definition transition_to :: "circuit_state \<Rightarrow> reason \<Rightarrow> timestamp \<Rightarrow> breaker \<Rightarrow> breaker" where
  "transition_to new_state why t b =
     (let old_state = state b;
          b1 = b\<lparr>state := new_state, last_state_change := Some t\<rparr>;
          b2 = (case new_state of
                  CLOSED \<Rightarrow> b1\<lparr>failure_count := 0, success_count := 0\<rparr>
                | HALF_OPEN \<Rightarrow> b1\<lparr>success_count := 0\<rparr>
                | OPEN \<Rightarrow> b1);
          h = state_history b2 @
                [\<lparr>h_timestamp = t, h_from = old_state, h_to = new_state, h_reason = why\<rparr>]
      in b2\<lparr>state_history := (if length h > 50 then last_entries 50 h else h)\<rparr>)"

definition should_attempt_recovery :: "timestamp \<Rightarrow> breaker \<Rightarrow> bool" where
  "should_attempt_recovery now b =
     (case last_failure_time b of
        None \<Rightarrow> True
      | Some t \<Rightarrow> now - t \<ge> recovery_timeout b)"

definition can_execute :: "timestamp \<Rightarrow> timestamp \<Rightarrow> breaker \<Rightarrow> bool \<times> breaker" where
  "can_execute now later b =
     (case state b of
        CLOSED \<Rightarrow> (True, b)
      | OPEN \<Rightarrow>
          (if should_attempt_recovery now b
           then (True, transition_to HALF_OPEN Recovery_timeout_elapsed later b)
           else (False, b))
      | HALF_OPEN \<Rightarrow> (True, b))"

definition record_success :: "timestamp \<Rightarrow> breaker \<Rightarrow> breaker" where
  "record_success later b =
     (case state b of
        HALF_OPEN \<Rightarrow>
          (let b1 = b\<lparr>success_count := success_count b + 1\<rparr>
           in if success_count b1 \<ge> success_threshold b1
              then transition_to CLOSED Success_threshold_reached later b1
              else b1)
      | CLOSED \<Rightarrow> b\<lparr>failure_count := 0\<rparr>
      | OPEN \<Rightarrow> b)"

definition record_failure :: "timestamp \<Rightarrow> timestamp \<Rightarrow> breaker \<Rightarrow> breaker" where
  "record_failure now later b =
     (let b1 = b\<lparr>failure_count := failure_count b + 1, last_failure_time := Some now\<rparr>
      in case state b1 of
           HALF_OPEN \<Rightarrow> transition_to OPEN Failure_during_recovery later b1
         | CLOSED \<Rightarrow>
             (if failure_count b1 \<ge> failure_threshold b1
              then transition_to OPEN Failure_threshold_reached later b1
              else b1)
         | OPEN \<Rightarrow> b1)"

definition reset :: "timestamp \<Rightarrow> breaker \<Rightarrow> breaker" where
  "reset later b =
     (transition_to CLOSED Manual_reset later b)
       \<lparr>failure_count := 0, success_count := 0, last_failure_time := None\<rparr>"

definition is_open :: "breaker \<Rightarrow> bool" where
  "is_open b \<longleftrightarrow> state b = OPEN"

fun state_value :: "circuit_state \<Rightarrow> string" where
  "state_value CLOSED = ''closed''"
| "state_value OPEN = ''open''"
| "state_value HALF_OPEN = ''half_open''"

definition get_state :: "breaker \<Rightarrow> string" where
  "get_state b = state_value (state b)"

record status =
  st_state :: string
  st_failure_count :: int
  st_success_count :: int
  st_last_failure_time :: "timestamp option"
  st_last_state_change :: "timestamp option"
  st_failure_threshold :: int
  st_recovery_timeout :: rat
  st_success_threshold :: int
  st_state_history :: "history_entry list"

definition get_status :: "breaker \<Rightarrow> status" where
  "get_status b =
     \<lparr>st_state = state_value (state b), st_failure_count = failure_count b,
      st_success_count = success_count b, st_last_failure_time = last_failure_time b,
      st_last_state_change = last_state_change b, st_failure_threshold = failure_threshold b,
      st_recovery_timeout = recovery_timeout b, st_success_threshold = success_threshold b,
      st_state_history = state_history b\<rparr>"

subsection \<open>Executions\<close>

inductive breaker_step :: "breaker \<Rightarrow> breaker \<Rightarrow> bool" where
  ask: "breaker_step b (snd (can_execute now later b))"
| success: "breaker_step b (record_success later b)"
| failure: "breaker_step b (record_failure now later b)"
| manual_reset: "breaker_step b (reset later b)"

inductive_cases breaker_stepE: "breaker_step b b'"

lemmas breaker_defs =
  can_execute_def record_success_def record_failure_def reset_def transition_to_def

subsection \<open>The invariant\<close>

text \<open>
  The configuration is positive; a closed breaker is below its failure threshold and a
  half-open one below its success threshold; an open or half-open breaker has recorded
  the failure that opened it; the history has at most fifty entries, each entry starts
  where the one before ended, and the last one ends in the current state.
\<close>

fun chained :: "history_entry list \<Rightarrow> bool" where
  "chained [] = True"
| "chained [e] = True"
| "chained (e # f # es) = (h_to e = h_from f \<and> chained (f # es))"

definition history_ok :: "breaker \<Rightarrow> bool" where
  "history_ok b \<longleftrightarrow>
     length (state_history b) \<le> 50 \<and> chained (state_history b) \<and>
     (state_history b \<noteq> [] \<longrightarrow> h_to (last (state_history b)) = state b)"

definition counters_ok :: "breaker \<Rightarrow> bool" where
  "counters_ok b \<longleftrightarrow>
     0 < failure_threshold b \<and> 0 < success_threshold b \<and>
     0 \<le> failure_count b \<and> 0 \<le> success_count b \<and>
     (state b = CLOSED \<longrightarrow> failure_count b < failure_threshold b) \<and>
     (state b = HALF_OPEN \<longrightarrow> success_count b < success_threshold b) \<and>
     (state b \<noteq> CLOSED \<longrightarrow> last_failure_time b \<noteq> None)"

definition breaker_inv :: "breaker \<Rightarrow> bool" where
  "breaker_inv b \<longleftrightarrow> counters_ok b \<and> history_ok b"

lemma chained_snoc:
  "chained (es @ [e]) \<longleftrightarrow> chained es \<and> (es \<noteq> [] \<longrightarrow> h_to (last es) = h_from e)"
  by (induction es rule: chained.induct) auto

lemma chained_drop: "chained es \<Longrightarrow> chained (drop n es)"
proof (induction es arbitrary: n rule: chained.induct)
  case (3 e f es)
  then show ?case by (cases n) auto
qed (auto simp: drop_Cons')

lemma transition_to_state [simp]: "state (transition_to s why t b) = s"
  by (cases s) (simp_all add: transition_to_def Let_def)

lemma transition_to_history_ok:
  assumes "history_ok b"
  shows "history_ok (transition_to s why t b)"
proof -
  let ?e = "\<lparr>h_timestamp = t, h_from = state b, h_to = s, h_reason = why\<rparr>"
  let ?h = "state_history b @ [?e]"
  let ?h' = "if length ?h > 50 then last_entries 50 ?h else ?h"
  have eq: "state_history (transition_to s why t b) = ?h'"
    by (cases s) (simp_all add: transition_to_def Let_def)
  have "chained ?h" using assms by (auto simp: chained_snoc history_ok_def)
  then have "chained ?h'" by (auto simp: last_entries_def intro: chained_drop simp del: drop_append)
  moreover have "length ?h' \<le> 50" by (auto simp: last_entries_def)
  moreover have "h_to (last ?h') = s" by (auto simp: last_entries_def)
  ultimately show ?thesis unfolding history_ok_def eq by simp
qed

lemma history_ok_cong:
  "history_ok b \<Longrightarrow> state_history b' = state_history b \<Longrightarrow> state b' = state b \<Longrightarrow> history_ok b'"
  by (simp add: history_ok_def)

lemma step_history_ok: "breaker_step b b' \<Longrightarrow> history_ok b \<Longrightarrow> history_ok b'"
proof (induction rule: breaker_step.induct)
  case (ask b now later)
  then show ?case
    by (auto simp: can_execute_def transition_to_history_ok split: circuit_state.split)
next
  case (success b later)
  let ?b = "b\<lparr>success_count := success_count b + 1\<rparr>"
  have "history_ok ?b" "history_ok (b\<lparr>failure_count := 0\<rparr>)"
    using success by (auto elim: history_ok_cong)
  with success show ?case
    by (auto simp: record_success_def Let_def transition_to_history_ok split: circuit_state.split)
next
  case (failure b now later)
  let ?b = "b\<lparr>failure_count := failure_count b + 1, last_failure_time := Some now\<rparr>"
  have "history_ok ?b" using failure by (auto elim: history_ok_cong)
  then show ?case
    by (auto simp: record_failure_def Let_def transition_to_history_ok split: circuit_state.split)
next
  case (manual_reset b later)
  then have "history_ok (transition_to CLOSED Manual_reset later b)"
    by (rule transition_to_history_ok)
  then show ?case by (auto simp: reset_def elim: history_ok_cong)
qed

lemma step_counters_ok: "breaker_step b b' \<Longrightarrow> counters_ok b \<Longrightarrow> counters_ok b'"
  by (induction rule: breaker_step.induct)
     (auto simp: counters_ok_def breaker_defs Let_def split: circuit_state.splits)

interpretation breaker: invariant_system breaker_step breaker_inv
  by unfold_locales (auto simp: breaker_inv_def step_history_ok step_counters_ok)

lemma init_breaker_inv: "0 < ft \<Longrightarrow> 0 < st \<Longrightarrow> breaker_inv (init_breaker ft rt st)"
  by (simp add: breaker_inv_def counters_ok_def history_ok_def init_breaker_def)

subsection \<open>Properties\<close>

text \<open>
  C39. Every breaker reached from a fresh one with positive thresholds is consistent: closed
  means fewer failures than the threshold, half-open fewer successes than the threshold, and
  the recorded history is a chain of at most fifty transitions that ends in the current state.
\<close>

theorem breaker_always_consistent:
  assumes "0 < ft" and "0 < st" and "breaker_step\<^sup>*\<^sup>* (init_breaker ft rt st) b"
  shows "breaker_inv b"
  using breaker.inv_run [OF assms(3) init_breaker_inv [OF assms(1,2)]] .

lemma breaker_always_consistent_witness:
  "breaker_inv (record_failure 3 3 (snd (can_execute 1 1 stomp_circuit_breaker)))"
proof -
  have "breaker_step stomp_circuit_breaker (snd (can_execute 1 1 stomp_circuit_breaker))"
    by (rule breaker_step.ask)
  moreover have "breaker_step (snd (can_execute 1 1 stomp_circuit_breaker))
      (record_failure 3 3 (snd (can_execute 1 1 stomp_circuit_breaker)))"
    by (rule breaker_step.failure)
  ultimately have "breaker_step\<^sup>*\<^sup>* (init_breaker 5 60 2)
      (record_failure 3 3 (snd (can_execute 1 1 stomp_circuit_breaker)))"
    unfolding stomp_circuit_breaker_def by (meson converse_rtranclp_into_rtranclp rtranclp.rtrancl_refl)
  then show ?thesis by (rule breaker_always_consistent [of 5 2, rotated 2]) simp_all
qed

text \<open>Consecutive failures, each with its two clock readings.\<close>

definition failures :: "(timestamp \<times> timestamp) list \<Rightarrow> breaker \<Rightarrow> breaker" where
  "failures ts b = fold (\<lambda>(now, later). record_failure now later) ts b"

lemma failures_open:
  "state b = OPEN \<Longrightarrow> state (failures ts b) = OPEN"
  unfolding failures_def
  by (induction ts arbitrary: b) (auto simp: record_failure_def Let_def)

lemma failures_closed:
  assumes "state b = CLOSED" "failure_count b < failure_threshold b"
  shows "state (failures ts b) =
    (if failure_count b + int (length ts) < failure_threshold b then CLOSED else OPEN)"
  using assms
proof (induction ts arbitrary: b)
  case Nil
  then show ?case by (simp add: failures_def)
next
  case (Cons t ts)
  obtain now later where t: "t = (now, later)" by (cases t)
  let ?b = "record_failure now later b"
  have f: "failures (t # ts) b = failures ts ?b" by (simp add: failures_def t)
  show ?case
  proof (cases "failure_count b + 1 < failure_threshold b")
    case True
    then have "state ?b = CLOSED" "failure_count ?b = failure_count b + 1"
        "failure_threshold ?b = failure_threshold b"
      using Cons.prems by (simp_all add: record_failure_def)
    then show ?thesis using Cons.IH [of ?b] True f by simp
  next
    case False
    then have "state ?b = OPEN" using Cons.prems by (simp add: record_failure_def)
    then show ?thesis using failures_open False f by auto
  qed
qed

text \<open>
  The breaker opens exactly at the threshold: after a success in the closed state (or a
  reset), \<open>k\<close> consecutive failures leave it closed when \<open>k\<close> is below the failure threshold and
  open otherwise, whatever the clock said.
\<close>

theorem opens_after_threshold_failures:
  assumes "state b = CLOSED" and "0 < failure_threshold b"
  shows "state (failures ts (record_success later b)) =
    (if int (length ts) < failure_threshold b then CLOSED else OPEN)"
  using failures_closed [of "record_success later b" ts] assms by (simp add: record_success_def)

lemma opens_after_threshold_failures_witness:
  "state (failures [(1, 1), (2, 2), (3, 3), (4, 4), (5, 5)] (record_success 0 stomp_circuit_breaker)) = OPEN"
  using opens_after_threshold_failures [of stomp_circuit_breaker "[(1, 1), (2, 2), (3, 3), (4, 4), (5, 5)]" 0]
  by (simp add: stomp_circuit_breaker_def init_breaker_def)

definition successes :: "timestamp list \<Rightarrow> breaker \<Rightarrow> breaker" where
  "successes ts b = fold record_success ts b"

lemma successes_half_open:
  assumes "state b = HALF_OPEN" "success_count b < success_threshold b"
    and "success_count b + int (length ts) = success_threshold b"
  shows "state (successes ts b) = CLOSED \<and> failure_count (successes ts b) = 0"
  using assms
proof (induction ts arbitrary: b)
  case (Cons t ts)
  let ?b = "record_success t b"
  show ?case
  proof (cases "success_count b + 1 < success_threshold b")
    case True
    then have "state ?b = HALF_OPEN" "success_count ?b = success_count b + 1"
        "success_threshold ?b = success_threshold b"
      using Cons.prems by (simp_all add: record_success_def Let_def)
    then show ?thesis using Cons.IH [of ?b] Cons.prems True by (simp add: successes_def)
  next
    case False
    then have "ts = []" using Cons.prems by (cases ts) auto
    moreover have "state ?b = CLOSED" "failure_count ?b = 0"
      using Cons.prems False by (simp_all add: record_success_def Let_def transition_to_def)
    ultimately show ?thesis by (simp add: successes_def)
  qed
qed simp

text \<open>
  C40. Fail fast, then recover.  An open breaker whose last failure is less than the recovery
  timeout old refuses and does not change; once the timeout has passed it lets a request
  through, and \<open>success_threshold\<close> successes in a row close it with a clean failure count.
\<close>

theorem open_breaker_recovers:
  assumes "state b = OPEN" and "last_failure_time b = Some t" and "0 < success_threshold b"
    and "int (length ts) = success_threshold b"
  shows "(now < t + recovery_timeout b \<longrightarrow> can_execute now later b = (False, b)) \<and>
    (t + recovery_timeout b \<le> now \<longrightarrow> fst (can_execute now later b) \<and>
       state (successes ts (snd (can_execute now later b))) = CLOSED \<and>
       failure_count (successes ts (snd (can_execute now later b))) = 0)"
proof (intro conjI impI)
  assume "now < t + recovery_timeout b"
  then show "can_execute now later b = (False, b)"
    using assms by (simp add: can_execute_def should_attempt_recovery_def)
next
  let ?b = "transition_to HALF_OPEN Recovery_timeout_elapsed later b"
  assume "t + recovery_timeout b \<le> now"
  then have c: "can_execute now later b = (True, ?b)"
    using assms by (simp add: can_execute_def should_attempt_recovery_def)
  have "state ?b = HALF_OPEN" "success_count ?b = 0" "success_threshold ?b = success_threshold b"
    by (simp_all add: transition_to_def Let_def)
  then have "state (successes ts ?b) = CLOSED \<and> failure_count (successes ts ?b) = 0"
    using assms by (intro successes_half_open) simp_all
  then show "fst (can_execute now later b)" "state (successes ts (snd (can_execute now later b))) = CLOSED"
    "failure_count (successes ts (snd (can_execute now later b))) = 0" by (simp_all add: c)
qed

lemma open_breaker_recovers_witness:
  "state (successes [70, 71] (snd (can_execute 65 65
      (failures [(1, 1), (2, 2), (3, 3), (4, 4), (5, 5)] stomp_circuit_breaker)))) = CLOSED"
proof -
  let ?b = "failures [(1, 1), (2, 2), (3, 3), (4, 4), (5, 5)] stomp_circuit_breaker"
  have b: "state ?b = OPEN" "last_failure_time ?b = Some 5" "success_threshold ?b = 2" "recovery_timeout ?b = 60"
    by (simp_all add: failures_def record_failure_def transition_to_def stomp_circuit_breaker_def init_breaker_def)
  from open_breaker_recovers [OF b(1,2), of "[70, 71]" 65 65] show ?thesis
    unfolding b(3,4) by simp
qed

end
