(* ===== verification/Posix_Model.thy ===== *)
theory Posix_Model
  imports Prelude
begin

text \<open>
  The tables behind POSIX identifier allocation: \<open>PosixIdPool\<close>, \<open>PosixIdentity\<close> and
  \<open>ServiceProviderProjectGroup\<close> of \<^verbatim>\<open>src/waldur_mastermind/marketplace/models.py\<close>, with the
  database constraints that \<open>save()\<close> is checked against, and the queries of
  \<^verbatim>\<open>marketplace/posix_ids.py\<close> that read them.  Primary keys are natural numbers; POSIX ids
  are unbounded integers (the database columns are 64-bit and every managed range lies
  below \<open>2 ^ 32 - 1\<close>).
\<close>

subsection \<open>Namespaces and ranges\<close>

datatype namespace = UID | GID

datatype range_name = Own namespace | GROUP_GID

definition NAMESPACES :: "namespace list" where
  "NAMESPACES = [UID, GID]"

definition RANGES :: "range_name list" where
  "RANGES = [Own UID, Own GID, GROUP_GID]"

fun column :: "range_name \<Rightarrow> namespace" where
  "column GROUP_GID = GID"
| "column (Own ns) = ns"

lemma set_RANGES [simp]: "set RANGES = UNIV"
proof -
  have "r \<in> set RANGES" for r
  proof (cases r)
    case (Own ns)
    then show ?thesis by (cases ns) (simp_all add: RANGES_def)
  qed (simp add: RANGES_def)
  then show ?thesis by auto
qed

lemma set_NAMESPACES [simp]: "set NAMESPACES = UNIV"
proof -
  have "ns \<in> set NAMESPACES" for ns by (cases ns) (simp_all add: NAMESPACES_def)
  then show ?thesis by auto
qed

subsection \<open>Pools\<close>

record pool =
  pool_pk :: nat
  service_provider :: "nat option"
  pool_offering :: "nat option"
  min_uid :: "int option"
  max_uid :: "int option"
  next_uid :: "int option"
  min_gid :: "int option"
  max_gid :: "int option"
  next_gid :: "int option"
  min_group_gid :: "int option"
  max_group_gid :: "int option"
  next_group_gid :: "int option"

text \<open>\<open>getattr(pool, f"min_{ns}")\<close> and its companions.\<close>

fun pool_min :: "range_name \<Rightarrow> pool \<Rightarrow> int option" where
  "pool_min (Own UID) p = min_uid p"
| "pool_min (Own GID) p = min_gid p"
| "pool_min GROUP_GID p = min_group_gid p"

fun pool_max :: "range_name \<Rightarrow> pool \<Rightarrow> int option" where
  "pool_max (Own UID) p = max_uid p"
| "pool_max (Own GID) p = max_gid p"
| "pool_max GROUP_GID p = max_group_gid p"

fun pool_next :: "range_name \<Rightarrow> pool \<Rightarrow> int option" where
  "pool_next (Own UID) p = next_uid p"
| "pool_next (Own GID) p = next_gid p"
| "pool_next GROUP_GID p = next_group_gid p"

fun set_next :: "range_name \<Rightarrow> int option \<Rightarrow> pool \<Rightarrow> pool" where
  "set_next (Own UID) v p = p\<lparr>next_uid := v\<rparr>"
| "set_next (Own GID) v p = p\<lparr>next_gid := v\<rparr>"
| "set_next GROUP_GID v p = p\<lparr>next_group_gid := v\<rparr>"

definition MIN_ID :: int where "MIN_ID = 1000"
definition MAX_ID :: int where "MAX_ID = 2 ^ 32 - 2"

definition manages :: "range_name \<Rightarrow> pool \<Rightarrow> bool" where
  "manages r p \<longleftrightarrow> pool_min r p \<noteq> None"

text \<open>The check constraints of the pool table for one range.\<close>

definition range_ok :: "range_name \<Rightarrow> pool \<Rightarrow> bool" where
  "range_ok r p \<longleftrightarrow>
     (case (pool_min r p, pool_max r p, pool_next r p) of
        (None, None, None) \<Rightarrow> True
      | (Some mn, Some mx, Some nx) \<Rightarrow>
          MIN_ID \<le> mn \<and> mn \<le> mx \<and> mx \<le> MAX_ID \<and> mn \<le> nx \<and> nx \<le> mx + 1
      | _ \<Rightarrow> False)"

definition pool_constraints :: "pool \<Rightarrow> bool" where
  "pool_constraints p \<longleftrightarrow>
     (service_provider p \<noteq> None) \<noteq> (pool_offering p \<noteq> None) \<and>
     list_all (\<lambda>r. range_ok r p) RANGES \<and>
     (manages (Own UID) p \<or> manages (Own GID) p)"

definition in_range :: "range_name \<Rightarrow> pool \<Rightarrow> int \<Rightarrow> bool" where
  "in_range r p v \<longleftrightarrow>
     (case (pool_min r p, pool_max r p) of
        (Some mn, Some mx) \<Rightarrow> mn \<le> v \<and> v \<le> mx
      | _ \<Rightarrow> False)"

lemma pool_set_next [simp]:
  "pool_pk (set_next r v p) = pool_pk p"
  "service_provider (set_next r v p) = service_provider p"
  "pool_offering (set_next r v p) = pool_offering p"
  "pool_min s (set_next r v p) = pool_min s p"
  "pool_max s (set_next r v p) = pool_max s p"
  "pool_next s (set_next r v p) = (if s = r then v else pool_next s p)"
  by (induction r v p rule: set_next.induct; cases "(s, p)" rule: pool_min.cases; simp)+

lemma set_next_derived [simp]:
  "manages s (set_next r v p) = manages s p"
  "in_range s (set_next r v p) w = in_range s p w"
  by (simp_all add: manages_def in_range_def)

lemma range_ok_managed:
  assumes "range_ok r p" and "manages r p"
  obtains mn mx nx where "pool_min r p = Some mn" "pool_max r p = Some mx"
    "pool_next r p = Some nx" "MIN_ID \<le> mn" "mn \<le> mx" "mx \<le> MAX_ID" "mn \<le> nx" "nx \<le> mx + 1"
  using assms by (auto simp: range_ok_def manages_def split: option.splits)

subsection \<open>Identities\<close>

datatype content_type =
    CT_offering_user
  | CT_service_provider_account
  | CT_robot_account
  | CT_offering_user_group
  | CT_offering_role_group
  | CT_project_group

record identity =
  ident_pk :: nat
  ident_pool :: nat
  ident_uid :: "int option"
  ident_gid :: "int option"
  ident_user :: "nat option"
  ident_content_type :: "content_type option"
  ident_object_id :: "nat option"
  ident_offering :: "nat option"
  released_at :: "timestamp option"
  recyclable :: bool
  ident_created :: timestamp

fun ident_value :: "namespace \<Rightarrow> identity \<Rightarrow> int option" where
  "ident_value UID i = ident_uid i"
| "ident_value GID i = ident_gid i"

fun set_ident_value :: "namespace \<Rightarrow> int option \<Rightarrow> identity \<Rightarrow> identity" where
  "set_ident_value UID v i = i\<lparr>ident_uid := v\<rparr>"
| "set_ident_value GID v i = i\<lparr>ident_gid := v\<rparr>"

definition active :: "identity \<Rightarrow> bool" where
  "active i \<longleftrightarrow> released_at i = None"

text \<open>The principal that owns an identity: a user, or one consumer row.\<close>

datatype principal = User_principal nat | Row_principal content_type nat

definition owned_by :: "principal \<Rightarrow> identity \<Rightarrow> bool" where
  "owned_by pr i \<longleftrightarrow>
     (case pr of
        User_principal u \<Rightarrow> ident_user i = Some u
      | Row_principal ct pk \<Rightarrow> ident_content_type i = Some ct \<and> ident_object_id i = Some pk)"

definition exactly_one_principal :: "identity \<Rightarrow> bool" where
  "exactly_one_principal i \<longleftrightarrow>
     (ident_user i \<noteq> None \<and> ident_content_type i = None \<and> ident_object_id i = None) \<or>
     (ident_user i = None \<and> ident_content_type i \<noteq> None \<and> ident_object_id i \<noteq> None)"

text \<open>
  The four conditional unique constraints of the table, for two different rows: among active
  rows of a pool, the UID, the GID, the consumer row and the user are unique.
\<close>

definition ident_clash :: "identity \<Rightarrow> identity \<Rightarrow> bool" where
  "ident_clash i j \<longleftrightarrow>
     ident_pk i \<noteq> ident_pk j \<and> active i \<and> active j \<and> ident_pool i = ident_pool j \<and>
     (ident_uid i \<noteq> None \<and> ident_uid i = ident_uid j \<or>
      ident_gid i \<noteq> None \<and> ident_gid i = ident_gid j \<or>
      ident_content_type i \<noteq> None \<and> ident_content_type i = ident_content_type j \<and>
        ident_object_id i \<noteq> None \<and> ident_object_id i = ident_object_id j \<or>
      ident_user i \<noteq> None \<and> ident_user i = ident_user j)"

lemma ident_clash_sym: "ident_clash i j \<Longrightarrow> ident_clash j i"
  unfolding ident_clash_def by metis

lemma ident_clash_iff:
  "ident_clash i j \<longleftrightarrow>
     ident_pk i \<noteq> ident_pk j \<and> active i \<and> active j \<and> ident_pool i = ident_pool j \<and>
     ((\<exists>ns v. ident_value ns i = Some v \<and> ident_value ns j = Some v) \<or>
      (\<exists>pr. owned_by pr i \<and> owned_by pr j))"
proof -
  have "(\<exists>ns v. ident_value ns i = Some v \<and> ident_value ns j = Some v) \<longleftrightarrow>
      ident_uid i \<noteq> None \<and> ident_uid i = ident_uid j \<or>
      ident_gid i \<noteq> None \<and> ident_gid i = ident_gid j"
    by (metis (full_types) ident_value.simps namespace.exhaust not_None_eq)
  moreover have "(\<exists>pr. owned_by pr i \<and> owned_by pr j) \<longleftrightarrow>
      ident_content_type i \<noteq> None \<and> ident_content_type i = ident_content_type j \<and>
        ident_object_id i \<noteq> None \<and> ident_object_id i = ident_object_id j \<or>
      ident_user i \<noteq> None \<and> ident_user i = ident_user j" (is "?l \<longleftrightarrow> ?r")
  proof
    assume ?l
    then obtain pr where "owned_by pr i" "owned_by pr j" by blast
    then show ?r by (cases pr) (auto simp: owned_by_def)
  next
    assume ?r
    then show ?l
    proof
      assume c: "ident_content_type i \<noteq> None \<and> ident_content_type i = ident_content_type j \<and>
        ident_object_id i \<noteq> None \<and> ident_object_id i = ident_object_id j"
      then obtain ct pk where k: "ident_content_type i = Some ct" "ident_object_id i = Some pk"
        by blast
      then have "owned_by (Row_principal ct pk) i" "owned_by (Row_principal ct pk) j"
        using c by (simp_all add: owned_by_def)
      then show ?l by blast
    next
      assume c: "ident_user i \<noteq> None \<and> ident_user i = ident_user j"
      then obtain u where "ident_user i = Some u" by blast
      then have "owned_by (User_principal u) i" "owned_by (User_principal u) j"
        using c by (simp_all add: owned_by_def)
      then show ?l by blast
    qed
  qed
  ultimately show ?thesis by (simp only: ident_clash_def) blast
qed

lemma ident_value_set [simp]:
  "ident_value ns (set_ident_value ms v i) = (if ns = ms then v else ident_value ns i)"
  by (cases ns; cases ms) simp_all

lemma set_ident_value_frame [simp]:
  "ident_pk (set_ident_value ns v i) = ident_pk i"
  "ident_pool (set_ident_value ns v i) = ident_pool i"
  "ident_user (set_ident_value ns v i) = ident_user i"
  "ident_content_type (set_ident_value ns v i) = ident_content_type i"
  "ident_object_id (set_ident_value ns v i) = ident_object_id i"
  "ident_offering (set_ident_value ns v i) = ident_offering i"
  "released_at (set_ident_value ns v i) = released_at i"
  "recyclable (set_ident_value ns v i) = recyclable i"
  "active (set_ident_value ns v i) = active i"
  "owned_by pr (set_ident_value ns v i) = owned_by pr i"
  "exactly_one_principal (set_ident_value ns v i) = exactly_one_principal i"
  by (cases ns; simp add: active_def owned_by_def exactly_one_principal_def
        split: principal.splits)+

end
