(* ===== verification/Posix_Store.thy ===== *)
theory Posix_Store
  imports Posix_Model
begin

text \<open>
  The database the allocator works on: the pool, identity, offering-user, provider-account
  and project-group tables, row creation and row update with the constraint checks of
  \<open>Posix_Model\<close>, and pool resolution (\<open>PosixIdPool.resolve\<close>, \<open>_provider_pools\<close>,
  \<open>provider_pool\<close>).  \<open>table_ok\<close> is what the database guarantees; the lemmas at the end show
  that row creation and row update keep it.
\<close>

datatype posix_error =
    ValidationError
  | PosixIdPoolExhausted
  | PosixIdValueConflict
  | IntegrityError
  | DoesNotExist
  | MultipleObjectsReturned
  | QueryValueError
  | ValueError

record plugin_options =
  enable_posix_account :: "bool option"
  uid_source :: "string option"
  gid_source :: "string option"

record offering =
  off_pk :: nat
  off_customer :: nat
  off_plugin_options :: plugin_options

record offering_user =
  ou_pk :: nat
  ou_user :: nat
  ou_offering :: nat
  ou_uidnumber :: "int option"
  ou_primarygroup :: "int option"

record provider_account =
  pa_pk :: nat
  pa_user :: nat
  pa_provider :: nat

record project_group =
  pg_pk :: nat
  pg_provider :: nat
  pg_gid :: "int option"

record posix_db =
  pools :: "pool list"
  identities :: "identity list"
  next_ident :: nat
  offering_users :: "offering_user list"
  provider_accounts :: "provider_account list"
  project_groups :: "project_group list"
  offering_row :: "nat \<Rightarrow> offering"
  sp_customer :: "nat \<Rightarrow> nat"

subsection \<open>Pool queries\<close>

definition get_pool :: "posix_db \<Rightarrow> nat \<Rightarrow> (posix_error, pool) result" where
  "get_pool db pk =
     (case first_row (\<lambda>p. pool_pk p = pk) (pools db) of
        None \<Rightarrow> Inl DoesNotExist
      | Some p \<Rightarrow> Inr p)"

definition save_pool :: "posix_db \<Rightarrow> nat \<Rightarrow> (pool \<Rightarrow> pool) \<Rightarrow> posix_db" where
  "save_pool db pk f = db\<lparr>pools := update_rows (\<lambda>p. pool_pk p = pk) f (pools db)\<rparr>"

text \<open>\<open>pool.customer.id\<close>; \<open>None\<close> where both scopes are null and the code would raise.\<close>

definition pool_customer :: "posix_db \<Rightarrow> pool \<Rightarrow> nat option" where
  "pool_customer db p =
     (case service_provider p of
        Some sp \<Rightarrow> Some (sp_customer db sp)
      | None \<Rightarrow> map_option (\<lambda>oid. off_customer (offering_row db oid)) (pool_offering p))"

definition provider_pools :: "posix_db \<Rightarrow> nat \<Rightarrow> pool list" where
  "provider_pools db customer_id =
     filter (\<lambda>p.
       (case service_provider p of Some sp \<Rightarrow> sp_customer db sp = customer_id | None \<Rightarrow> False) \<or>
       (case pool_offering p of
          Some oid \<Rightarrow> off_customer (offering_row db oid) = customer_id
        | None \<Rightarrow> False)) (pools db)"

definition resolve :: "posix_db \<Rightarrow> offering \<Rightarrow> pool option" where
  "resolve db off =
     (case first_row (\<lambda>p. pool_offering p = Some (off_pk off)) (pools db) of
        Some p \<Rightarrow> Some p
      | None \<Rightarrow>
          first_row (\<lambda>p. case service_provider p of
              Some sp \<Rightarrow> sp_customer db sp = off_customer off
            | None \<Rightarrow> False) (pools db))"

definition provider_pool :: "posix_db \<Rightarrow> nat \<Rightarrow> pool option" where
  "provider_pool db sp = first_row (\<lambda>p. service_provider p = Some sp) (pools db)"

definition group_range :: "pool option \<Rightarrow> range_name option" where
  "group_range po =
     (case po of
        None \<Rightarrow> None
      | Some p \<Rightarrow>
          (if manages GROUP_GID p then Some GROUP_GID
           else if manages (Own GID) p then Some (Own GID) else None))"

subsection \<open>Identity rows\<close>

definition integrity_ok :: "identity \<Rightarrow> identity list \<Rightarrow> bool" where
  "integrity_ok i rows \<longleftrightarrow> exactly_one_principal i \<and> list_all (\<lambda>j. \<not> ident_clash i j) rows"

definition create_identity ::
    "posix_db \<Rightarrow> identity \<Rightarrow> (posix_error, identity \<times> posix_db) result" where
  "create_identity db i =
     (let i' = i\<lparr>ident_pk := next_ident db\<rparr>
      in if integrity_ok i' (identities db)
         then Inr (i', db\<lparr>identities := identities db @ [i'], next_ident := Suc (next_ident db)\<rparr>)
         else Inl IntegrityError)"

definition save_identity :: "posix_db \<Rightarrow> identity \<Rightarrow> (posix_error, posix_db) result" where
  "save_identity db i =
     (if integrity_ok i (identities db)
      then Inr (db\<lparr>identities :=
             update_rows (\<lambda>j. ident_pk j = ident_pk i) (\<lambda>_. i) (identities db)\<rparr>)
      else Inl IntegrityError)"

definition update_identities ::
    "posix_db \<Rightarrow> (identity \<Rightarrow> bool) \<Rightarrow> (identity \<Rightarrow> identity) \<Rightarrow> nat \<times> posix_db" where
  "update_identities db q f =
     (count_rows q (identities db), db\<lparr>identities := update_rows q f (identities db)\<rparr>)"

text \<open>A row with neither value, as \<open>get_or_create\<close> and the model constructor make it.\<close>

definition blank_identity :: "nat \<Rightarrow> principal \<Rightarrow> nat option \<Rightarrow> timestamp \<Rightarrow> identity" where
  "blank_identity pk pr oid now =
     \<lparr>ident_pk = 0, ident_pool = pk, ident_uid = None, ident_gid = None,
      ident_user = (case pr of User_principal u \<Rightarrow> Some u | Row_principal _ _ \<Rightarrow> None),
      ident_content_type = (case pr of User_principal _ \<Rightarrow> None | Row_principal ct _ \<Rightarrow> Some ct),
      ident_object_id = (case pr of User_principal _ \<Rightarrow> None | Row_principal _ k \<Rightarrow> Some k),
      ident_offering = oid, released_at = None, recyclable = True, ident_created = now\<rparr>"

lemma blank_identity_simps [simp]:
  "ident_pool (blank_identity pk pr oid now) = pk"
  "ident_value ns (blank_identity pk pr oid now) = None"
  "active (blank_identity pk pr oid now)"
  "exactly_one_principal (blank_identity pk pr oid now)"
  "owned_by pr' (blank_identity pk pr oid now) \<longleftrightarrow> pr' = pr"
  by (cases ns; cases pr; cases pr';
      auto simp: blank_identity_def active_def exactly_one_principal_def owned_by_def)+

subsection \<open>What the database guarantees\<close>

definition identities_ok :: "identity list \<Rightarrow> nat \<Rightarrow> bool" where
  "identities_ok rows nxt \<longleftrightarrow>
     distinct (map ident_pk rows) \<and> (\<forall>i\<in>set rows. ident_pk i < nxt) \<and>
     (\<forall>i\<in>set rows. exactly_one_principal i) \<and>
     (\<forall>i\<in>set rows. \<forall>j\<in>set rows. \<not> ident_clash i j)"

definition pools_ok :: "pool list \<Rightarrow> bool" where
  "pools_ok ps \<longleftrightarrow>
     distinct (map pool_pk ps) \<and> (\<forall>p\<in>set ps. pool_constraints p) \<and>
     (\<forall>p\<in>set ps. \<forall>q\<in>set ps. service_provider p \<noteq> None \<longrightarrow>
        service_provider p = service_provider q \<longrightarrow> p = q) \<and>
     (\<forall>p\<in>set ps. \<forall>q\<in>set ps. pool_offering p \<noteq> None \<longrightarrow>
        pool_offering p = pool_offering q \<longrightarrow> p = q)"

definition table_ok :: "posix_db \<Rightarrow> bool" where
  "table_ok db \<longleftrightarrow>
     identities_ok (identities db) (next_ident db) \<and> pools_ok (pools db) \<and>
     (\<forall>i\<in>set (identities db). ident_pool i \<in> pool_pk ` set (pools db))"

lemma table_ok_no_clash:
  "table_ok db \<Longrightarrow> i \<in> set (identities db) \<Longrightarrow> j \<in> set (identities db) \<Longrightarrow> \<not> ident_clash i j"
  by (simp add: table_ok_def identities_ok_def)

lemma table_ok_same_value:
  assumes "table_ok db" "i \<in> set (identities db)" "j \<in> set (identities db)"
    and "active i" "active j" "ident_pool i = ident_pool j"
    and "ident_value ns i = Some v" "ident_value ns j = Some v"
  shows "i = j"
proof -
  have "\<not> ident_clash i j" using assms(1-3) by (rule table_ok_no_clash)
  then have "ident_pk i = ident_pk j" using assms(4-8) unfolding ident_clash_iff by blast
  then show ?thesis
    using assms(1-3) distinct_key_eq [of ident_pk] by (auto simp: table_ok_def identities_ok_def)
qed

lemma table_ok_same_owner:
  assumes "table_ok db" "i \<in> set (identities db)" "j \<in> set (identities db)"
    and "active i" "active j" "ident_pool i = ident_pool j" "owned_by pr i" "owned_by pr j"
  shows "i = j"
proof -
  have "\<not> ident_clash i j" using assms(1-3) by (rule table_ok_no_clash)
  then have "ident_pk i = ident_pk j" using assms(4-8) unfolding ident_clash_iff by blast
  then show ?thesis
    using assms(1-3) distinct_key_eq [of ident_pk] by (auto simp: table_ok_def identities_ok_def)
qed

lemma ident_clash_irrefl [simp]: "\<not> ident_clash i i"
  by (simp add: ident_clash_def)

lemma create_identity_ok:
  assumes "create_identity db i = Inr (i', db')" and "table_ok db"
    and "ident_pool i \<in> pool_pk ` set (pools db)"
  shows "table_ok db'"
proof -
  from assms(1) have db': "db' = db\<lparr>identities := identities db @ [i'], next_ident := Suc (next_ident db)\<rparr>"
    and i': "i' = i\<lparr>ident_pk := next_ident db\<rparr>" and ok: "integrity_ok i' (identities db)"
    by (auto simp: create_identity_def Let_def split: if_splits)
  have old: "identities_ok (identities db) (next_ident db)"
    using assms(2) by (simp add: table_ok_def)
  have "identities_ok (identities db @ [i']) (Suc (next_ident db))"
    unfolding identities_ok_def
  proof (intro conjI ballI)
    show "distinct (map ident_pk (identities db @ [i']))"
      using old by (auto simp: identities_ok_def i')
  next
    fix a assume "a \<in> set (identities db @ [i'])"
    then show "ident_pk a < Suc (next_ident db)" and "exactly_one_principal a"
      using old ok by (auto simp: identities_ok_def i' integrity_ok_def)
  next
    fix a b assume "a \<in> set (identities db @ [i'])" "b \<in> set (identities db @ [i'])"
    then show "\<not> ident_clash a b"
      using old ok ident_clash_sym by (auto simp: identities_ok_def integrity_ok_def list_all_iff)
  qed
  moreover have "ident_pool i' = ident_pool i" by (simp add: i')
  ultimately show ?thesis using assms(2,3) by (simp add: table_ok_def db')
qed

lemma save_identity_ok:
  assumes "save_identity db i = Inr db'" and "table_ok db"
    and "ident_pool i \<in> pool_pk ` set (pools db)"
  shows "table_ok db'"
proof -
  let ?rows = "update_rows (\<lambda>j. ident_pk j = ident_pk i) (\<lambda>_. i) (identities db)"
  from assms(1) have db': "db' = db\<lparr>identities := ?rows\<rparr>" and ok: "integrity_ok i (identities db)"
    by (auto simp: save_identity_def split: if_splits)
  have old: "identities_ok (identities db) (next_ident db)"
    using assms(2) by (simp add: table_ok_def)
  have row: "a \<in> set ?rows \<Longrightarrow> a = i \<or> a \<in> set (identities db)" for a
    by (auto simp: db_simps split: if_splits)
  have "map ident_pk ?rows = map ident_pk (identities db)"
    by (rule map_update_rows_same) simp
  then have "distinct (map ident_pk ?rows)" and
      "\<forall>a\<in>set ?rows. ident_pk a < next_ident db"
    using old by (auto simp: identities_ok_def db_simps)
  moreover have "exactly_one_principal a" if "a \<in> set ?rows" for a
    using row [OF that] old ok by (auto simp: identities_ok_def integrity_ok_def)
  moreover have "\<not> ident_clash a b" if "a \<in> set ?rows" "b \<in> set ?rows" for a b
    using row [OF that(1)] row [OF that(2)] old ok ident_clash_sym
    by (auto simp: identities_ok_def integrity_ok_def list_all_iff)
  ultimately have "identities_ok ?rows (next_ident db)" by (simp add: identities_ok_def)
  then show ?thesis using assms(2,3) row by (auto simp: table_ok_def db')
qed

text \<open>Releasing rows never violates a constraint: only active rows are constrained.\<close>

definition releases :: "(identity \<Rightarrow> identity) \<Rightarrow> bool" where
  "releases f \<longleftrightarrow> (\<forall>i. \<not> active (f i) \<and> ident_pk (f i) = ident_pk i \<and> ident_pool (f i) = ident_pool i \<and>
     exactly_one_principal (f i) = exactly_one_principal i)"

lemma ident_clash_inactive: "\<not> active i \<or> \<not> active j \<Longrightarrow> \<not> ident_clash i j"
  by (auto simp: ident_clash_def)

lemma release_rows_ok:
  assumes "table_ok db" and "releases f"
  shows "table_ok (db\<lparr>identities := update_rows q f (identities db)\<rparr>)"
proof -
  have keys: "map ident_pk (update_rows q f (identities db)) = map ident_pk (identities db)"
    using assms(2) by (intro map_update_rows_same) (simp add: releases_def)
  have "identities_ok (update_rows q f (identities db)) (next_ident db)"
    unfolding identities_ok_def
  proof (intro conjI ballI)
    show "distinct (map ident_pk (update_rows q f (identities db)))"
      using assms(1) by (simp add: keys table_ok_def identities_ok_def)
  next
    fix a assume "a \<in> set (update_rows q f (identities db))"
    then show "ident_pk a < next_ident db" and "exactly_one_principal a"
      using assms by (auto simp: db_simps table_ok_def identities_ok_def releases_def)
  next
    fix a b
    assume "a \<in> set (update_rows q f (identities db))" "b \<in> set (update_rows q f (identities db))"
    then show "\<not> ident_clash a b"
      using assms by (auto simp: db_simps table_ok_def identities_ok_def releases_def
          ident_clash_inactive split: if_splits)
  qed
  then show ?thesis
    using assms by (auto simp: table_ok_def db_simps releases_def)
qed

end
