(* ===== verification/Posix_Alloc.thy ===== *)
theory Posix_Alloc
  imports Posix_Store
begin

text \<open>
  The allocator of \<^verbatim>\<open>src/waldur_mastermind/marketplace/posix_ids.py\<close>: choosing the next value
  of a range, allocating it for a principal, pinning a value by hand.  A function that may
  raise returns a \<open>result\<close>; \<open>now\<close> is \<open>timezone.now()\<close>.  Each function is one transaction under
  the pool's row lock, so it reads and writes one state of the database; the unlocked check
  that precedes the transaction is modelled on its own in \<open>Posix_Concurrency\<close>.
\<close>

subsection \<open>Consumers and principals\<close>

datatype consumer =
    OfferingUser nat nat              \<comment> \<open>primary key, user\<close>
  | ServiceProviderAccount nat nat    \<comment> \<open>primary key, user\<close>
  | RobotAccount nat
  | OfferingUserGroup nat
  | OfferingRoleGroup nat
  | ServiceProviderProjectGroup nat

fun content_type_of :: "consumer \<Rightarrow> content_type" where
  "content_type_of (OfferingUser _ _) = CT_offering_user"
| "content_type_of (ServiceProviderAccount _ _) = CT_service_provider_account"
| "content_type_of (RobotAccount _) = CT_robot_account"
| "content_type_of (OfferingUserGroup _) = CT_offering_user_group"
| "content_type_of (OfferingRoleGroup _) = CT_offering_role_group"
| "content_type_of (ServiceProviderProjectGroup _) = CT_project_group"

fun consumer_pk :: "consumer \<Rightarrow> nat" where
  "consumer_pk (OfferingUser pk _) = pk"
| "consumer_pk (ServiceProviderAccount pk _) = pk"
| "consumer_pk (RobotAccount pk) = pk"
| "consumer_pk (OfferingUserGroup pk) = pk"
| "consumer_pk (OfferingRoleGroup pk) = pk"
| "consumer_pk (ServiceProviderProjectGroup pk) = pk"

text \<open>\<open>isinstance(consumer, models.BaseAccount)\<close>, with the account's user.\<close>

fun base_account_user :: "consumer \<Rightarrow> nat option" where
  "base_account_user (OfferingUser _ u) = Some u"
| "base_account_user (ServiceProviderAccount _ u) = Some u"
| "base_account_user _ = None"

definition principal_filter :: "consumer \<Rightarrow> principal" where
  "principal_filter c =
     (case base_account_user c of
        Some u \<Rightarrow> User_principal u
      | None \<Rightarrow> Row_principal (content_type_of c) (consumer_pk c))"

subsection \<open>Choosing a value\<close>

definition active_identity :: "posix_db \<Rightarrow> pool \<Rightarrow> principal \<Rightarrow> identity option" where
  "active_identity db p pr =
     first_row (\<lambda>i. ident_pool i = pool_pk p \<and> active i \<and> owned_by pr i) (identities db)"

definition get_or_create_active_identity ::
    "posix_db \<Rightarrow> principal \<Rightarrow> pool \<Rightarrow> nat option \<Rightarrow> timestamp
     \<Rightarrow> (posix_error, identity \<times> posix_db) result" where
  "get_or_create_active_identity db pr p oid now =
     (case filter (\<lambda>i. ident_pool i = pool_pk p \<and> active i \<and> owned_by pr i) (identities db) of
        [] \<Rightarrow> create_identity db (blank_identity (pool_pk p) pr oid now)
      | [i] \<Rightarrow> Inr (i, db)
      | _ \<Rightarrow> Inl MultipleObjectsReturned)"

definition active_rows :: "posix_db \<Rightarrow> pool \<Rightarrow> namespace \<Rightarrow> identity list" where
  "active_rows db p ns =
     filter (\<lambda>i. ident_pool i = pool_pk p \<and> active i \<and> ident_value ns i \<noteq> None) (identities db)"

definition withheld_rows :: "posix_db \<Rightarrow> pool \<Rightarrow> identity list" where
  "withheld_rows db p =
     filter (\<lambda>i. ident_pool i = pool_pk p \<and> \<not> active i \<and> \<not> recyclable i) (identities db)"

text \<open>\<open>values_list(namespace, flat=True)\<close>; a null never passes the comparisons it is used in.\<close>

definition column_values :: "namespace \<Rightarrow> identity list \<Rightarrow> int list" where
  "column_values ns rows = List.map_filter (ident_value ns) rows"

definition recycle_candidates :: "posix_db \<Rightarrow> pool \<Rightarrow> namespace \<Rightarrow> int \<Rightarrow> int \<Rightarrow> int list" where
  "recycle_candidates db p ns mn mx =
     (let released = filter (\<lambda>i. ident_pool i = pool_pk p \<and> \<not> active i \<and> recyclable i)
                       (identities db);
          held = column_values ns (active_rows db p ns);
          withheld = column_values ns (withheld_rows db p)
      in filter (\<lambda>v. mn \<le> v \<and> v \<le> mx \<and> v \<notin> set held \<and> v \<notin> set withheld)
           (column_values ns released))"

text \<open>\<open>while value in taken: value += 1\<close>\<close>

function skip_taken :: "int list \<Rightarrow> int \<Rightarrow> int" where
  "skip_taken taken v = (if v \<in> set taken then skip_taken taken (v + 1) else v)"
  by pat_completeness auto
termination
proof (relation "measure (\<lambda>(taken, v). card {x \<in> set taken. v \<le> x})", goal_cases)
  case 1
  show ?case by simp
next
  case (2 taken v)
  have "v \<in> {x \<in> set taken. v \<le> x}" "v \<notin> {x \<in> set taken. v + 1 \<le> x}" using 2 by auto
  moreover have "{x \<in> set taken. v + 1 \<le> x} \<subseteq> {x \<in> set taken. v \<le> x}" by auto
  ultimately have "{x \<in> set taken. v + 1 \<le> x} \<subset> {x \<in> set taken. v \<le> x}" by blast
  then show ?case by (simp add: psubset_card_mono)
qed

declare skip_taken.simps [simp del]

definition candidate_value ::
    "posix_db \<Rightarrow> pool \<Rightarrow> range_name \<Rightarrow> bool \<Rightarrow> (posix_error, int option \<times> bool) result" where
  "candidate_value db p r recycle =
     (case (pool_min r p, pool_max r p, pool_next r p) of
        (Some mn, Some mx, Some start) \<Rightarrow>
          (let ns = column r;
               recycled = (if recycle then least_of (recycle_candidates db p ns mn mx) else None)
           in case recycled of
                Some v \<Rightarrow> Inr (Some v, False)
              | None \<Rightarrow>
                  (let window = (\<lambda>v. start \<le> v \<and> v \<le> mx);
                       taken = filter window (column_values ns (active_rows db p ns)) @
                               filter window (column_values ns (withheld_rows db p));
                       v = skip_taken taken start
                   in if v > mx then Inr (None, False) else Inr (Some v, True)))
      | _ \<Rightarrow> Inl QueryValueError)"

definition next_value ::
    "posix_db \<Rightarrow> pool \<Rightarrow> range_name \<Rightarrow> bool \<Rightarrow> (posix_error, int option \<times> posix_db) result" where
  "next_value db p r recycle =
     rbind (candidate_value db p r recycle) (\<lambda>(value, from_counter).
       (case value of
          Some v \<Rightarrow>
            (if from_counter
             then Inr (Some v, save_pool db (pool_pk p) (set_next r (Some (v + 1))))
             else Inr (Some v, db))
        | None \<Rightarrow> Inr (None, db)))"

definition peek_next_value ::
    "posix_db \<Rightarrow> pool option \<Rightarrow> range_name \<Rightarrow> (posix_error, int option) result" where
  "peek_next_value db po r =
     (case po of
        None \<Rightarrow> Inr None
      | Some p \<Rightarrow>
          (if \<not> manages r p then Inr None
           else rbind (candidate_value db p r True) (\<lambda>(value, _). Inr value)))"

subsection \<open>Allocation\<close>

text \<open>The block of \<open>_allocate_in_pool\<close> that holds the pool's row lock.\<close>

definition allocate_locked ::
    "posix_db \<Rightarrow> nat \<Rightarrow> range_name \<Rightarrow> principal \<Rightarrow> nat option \<Rightarrow> bool \<Rightarrow> timestamp
     \<Rightarrow> (posix_error, int \<times> posix_db) result" where
  "allocate_locked db pk r pr oid recycle now =
     (let ns = column r
      in rbind (get_pool db pk) (\<lambda>p.
         rbind (get_or_create_active_identity db pr p oid now) (\<lambda>(i, db1).
           (case ident_value ns i of
              Some v \<Rightarrow> Inr (v, db1)
            | None \<Rightarrow>
                rbind (next_value db1 p r recycle) (\<lambda>(value, db2).
                  (case value of
                     None \<Rightarrow> Inl PosixIdPoolExhausted
                   | Some v \<Rightarrow>
                       rbind (save_identity db2 (set_ident_value ns (Some v) i)) (\<lambda>db3.
                         Inr (v, db3))))))))"

text \<open>The unlocked check that precedes it.\<close>

definition held_value :: "posix_db \<Rightarrow> pool \<Rightarrow> range_name \<Rightarrow> principal \<Rightarrow> int option" where
  "held_value db p r pr =
     (case active_identity db p pr of
        None \<Rightarrow> None
      | Some i \<Rightarrow> ident_value (column r) i)"

definition allocate_in_pool ::
    "posix_db \<Rightarrow> pool \<Rightarrow> range_name \<Rightarrow> principal \<Rightarrow> nat option \<Rightarrow> bool \<Rightarrow> timestamp
     \<Rightarrow> (posix_error, int \<times> posix_db) result" where
  "allocate_in_pool db p r pr oid recycle now =
     (case held_value db p r pr of
        Some v \<Rightarrow> Inr (v, db)
      | None \<Rightarrow> allocate_locked db (pool_pk p) r pr oid recycle now)"

fun source_option :: "namespace \<Rightarrow> plugin_options \<Rightarrow> string option" where
  "source_option UID o' = uid_source o'"
| "source_option GID o' = gid_source o'"

definition pool_sourced_namespaces :: "offering \<Rightarrow> namespace list" where
  "pool_sourced_namespaces off =
     (let o' = off_plugin_options off
      in if \<not> (case enable_posix_account o' of None \<Rightarrow> True | Some b \<Rightarrow> b) then []
         else filter (\<lambda>ns. case source_option ns o' of None \<Rightarrow> True | Some s \<Rightarrow> s = ''pool'')
                NAMESPACES)"

definition allocate ::
    "posix_db \<Rightarrow> offering \<Rightarrow> namespace \<Rightarrow> consumer \<Rightarrow> timestamp
     \<Rightarrow> (posix_error, int option \<times> posix_db) result" where
  "allocate db off ns c now =
     (if base_account_user c \<noteq> None \<and> ns \<notin> set (pool_sourced_namespaces off)
      then Inr (None, db)
      else case resolve db off of
             None \<Rightarrow> Inr (None, db)
           | Some p \<Rightarrow>
               (if \<not> manages (Own ns) p then Inr (None, db)
                else rbind (allocate_in_pool db p (Own ns) (principal_filter c)
                              (Some (off_pk off)) True now)
                       (\<lambda>(v, db'). Inr (Some v, db'))))"

definition allocate_project_group_gid ::
    "posix_db \<Rightarrow> project_group \<Rightarrow> timestamp \<Rightarrow> (posix_error, int option \<times> posix_db) result" where
  "allocate_project_group_gid db g now =
     (case provider_pool db (pg_provider g) of
        None \<Rightarrow> Inr (None, db)
      | Some p \<Rightarrow>
          (case group_range (Some p) of
             None \<Rightarrow> Inr (None, db)
           | Some r \<Rightarrow>
               rbind (allocate_in_pool db p r
                        (principal_filter (ServiceProviderProjectGroup (pg_pk g))) None False now)
                 (\<lambda>(v, db'). Inr (Some v, db'))))"

text \<open>\<open>project_groups.allocate_gid\<close>: also stores the GID on the group row, unless it has one.\<close>

definition allocate_gid ::
    "posix_db \<Rightarrow> project_group \<Rightarrow> timestamp \<Rightarrow> (posix_error, int option \<times> posix_db) result" where
  "allocate_gid db g now =
     (if pg_gid g \<noteq> None then Inr (pg_gid g, db)
      else case allocate_project_group_gid db g now of
             Inl PosixIdPoolExhausted \<Rightarrow> Inr (None, db)
           | Inl e \<Rightarrow> Inl e
           | Inr (None, db') \<Rightarrow> Inr (None, db')
           | Inr (Some v, db') \<Rightarrow>
               (let free = (\<lambda>h. pg_pk h = pg_pk g \<and> pg_gid h = None)
                in if count_rows free (project_groups db') > 0
                   then Inr (Some v, db'\<lparr>project_groups :=
                          update_rows free (\<lambda>h. h\<lparr>pg_gid := Some v\<rparr>) (project_groups db')\<rparr>)
                   else case first_row (\<lambda>h. pg_pk h = pg_pk g) (project_groups db') of
                          None \<Rightarrow> Inl DoesNotExist
                        | Some h \<Rightarrow> Inr (pg_gid h, db')))"

subsection \<open>Pinning a value\<close>

definition set_value ::
    "posix_db \<Rightarrow> consumer \<Rightarrow> namespace \<Rightarrow> int \<Rightarrow> offering \<Rightarrow> timestamp
     \<Rightarrow> (posix_error, posix_db) result" where
  "set_value db c ns value off now =
     (case resolve db off of
        None \<Rightarrow> Inl ValidationError
      | Some p0 \<Rightarrow>
          (if \<not> manages (Own ns) p0 then Inl ValidationError
           else if \<not> in_range (Own ns) p0 value then Inl ValidationError
           else rbind (get_pool db (pool_pk p0)) (\<lambda>p.
             rbind (get_or_create_active_identity db (principal_filter c) p
                      (Some (off_pk off)) now) (\<lambda>(i, db1).
               if ident_value ns i = Some value then Inr db1
               else case save_identity db1 (set_ident_value ns (Some value) i) of
                      Inl _ \<Rightarrow> Inl PosixIdValueConflict
                    | Inr db2 \<Rightarrow> Inr db2))))"

end
