(* ===== verification/Posix_Alloc_Facts.thy ===== *)
theory Posix_Alloc_Facts
  imports Posix_Alloc
begin

text \<open>
  What the allocator guarantees within one pool.  \<open>entries db\<close> is the set of values in use,
  \<open>(identity, pool, column, value)\<close>; every lemma about an operation says how it changes that
  set, so that the provider-wide theorems need no other view of the table.
\<close>

subsection \<open>The search for a free value\<close>

lemma skip_taken_spec:
  "skip_taken taken v \<notin> set taken \<and> v \<le> skip_taken taken v \<and>
   (\<forall>x. v \<le> x \<longrightarrow> x < skip_taken taken v \<longrightarrow> x \<in> set taken)"
proof (induction taken v rule: skip_taken.induct)
  case (1 taken v)
  show ?case
  proof (cases "v \<in> set taken")
    case True
    have s: "skip_taken taken v = skip_taken taken (v + 1)"
      using True by (simp add: skip_taken.simps [of taken v])
    note IH = "1.IH" [OF True]
    have "x \<in> set taken" if "v \<le> x" "x < skip_taken taken v" for x
      using IH that True s by (cases "x = v") auto
    then show ?thesis using IH s by auto
  next
    case False
    then show ?thesis by (simp add: skip_taken.simps [of taken v])
  qed
qed

lemma set_column_values: "set (column_values ns rows) = {v. \<exists>i\<in>set rows. ident_value ns i = Some v}"
  by (auto simp: column_values_def map_filter_def image_iff intro!: exI bexI)

definition entries :: "posix_db \<Rightarrow> (nat \<times> nat \<times> namespace \<times> int) set" where
  "entries db =
     {(ident_pk i, ident_pool i, ns, v) | i ns v.
        i \<in> set (identities db) \<and> active i \<and> ident_value ns i = Some v}"

definition in_use :: "posix_db \<Rightarrow> nat \<Rightarrow> namespace \<Rightarrow> int set" where
  "in_use db pk ns = {v. \<exists>k. (k, pk, ns, v) \<in> entries db}"

definition withheld :: "posix_db \<Rightarrow> nat \<Rightarrow> namespace \<Rightarrow> int set" where
  "withheld db pk ns =
     {v. \<exists>i\<in>set (identities db). ident_pool i = pk \<and> \<not> active i \<and> \<not> recyclable i \<and>
           ident_value ns i = Some v}"

definition recyclable_values :: "posix_db \<Rightarrow> nat \<Rightarrow> namespace \<Rightarrow> int set" where
  "recyclable_values db pk ns =
     {v. \<exists>i\<in>set (identities db). ident_pool i = pk \<and> \<not> active i \<and> recyclable i \<and>
           ident_value ns i = Some v} - in_use db pk ns - withheld db pk ns"

lemma in_use_iff:
  "v \<in> in_use db pk ns \<longleftrightarrow>
     (\<exists>i\<in>set (identities db). active i \<and> ident_pool i = pk \<and> ident_value ns i = Some v)"
  unfolding in_use_def entries_def by blast

lemma set_active_column:
  "set (column_values ns (active_rows db p ns)) = in_use db (pool_pk p) ns"
  unfolding set_column_values active_rows_def by (fastforce simp: in_use_iff)

lemma set_withheld_column:
  "set (column_values ns (withheld_rows db p)) = withheld db (pool_pk p) ns"
  by (auto simp: set_column_values withheld_rows_def withheld_def)

lemma set_recycle_candidates:
  "set (recycle_candidates db p ns mn mx) =
     {v \<in> recyclable_values db (pool_pk p) ns. mn \<le> v \<and> v \<le> mx}"
proof -
  let ?released = "filter (\<lambda>i. ident_pool i = pool_pk p \<and> \<not> active i \<and> recyclable i) (identities db)"
  have "set (column_values ns ?released) =
      {v. \<exists>i\<in>set (identities db). ident_pool i = pool_pk p \<and> \<not> active i \<and> recyclable i \<and>
            ident_value ns i = Some v}"
    by (auto simp: set_column_values)
  then show ?thesis
    by (auto simp: recycle_candidates_def Let_def set_active_column set_withheld_column
        recyclable_values_def)
qed

text \<open>What \<open>candidate_value\<close> returns for a managed range, in terms of those sets.\<close>

definition blocked :: "posix_db \<Rightarrow> nat \<Rightarrow> namespace \<Rightarrow> int set" where
  "blocked db pk ns = in_use db pk ns \<union> withheld db pk ns"

definition free_above :: "posix_db \<Rightarrow> pool \<Rightarrow> range_name \<Rightarrow> int set" where
  "free_above db p r =
     {v. the (pool_next r p) \<le> v \<and> v \<le> the (pool_max r p)} - blocked db (pool_pk p) (column r)"

definition recycled_values :: "posix_db \<Rightarrow> pool \<Rightarrow> range_name \<Rightarrow> int set" where
  "recycled_values db p r =
     {v \<in> recyclable_values db (pool_pk p) (column r). in_range r p v}"

lemma candidate_value_cases:
  assumes "range_ok r p" and "manages r p"
  obtains
    (recycled) v where "recycle" "candidate_value db p r recycle = Inr (Some v, False)"
      "v \<in> recycled_values db p r" "\<And>w. w \<in> recycled_values db p r \<Longrightarrow> v \<le> w"
  | (counter) v where "candidate_value db p r recycle = Inr (Some v, True)"
      "recycle \<Longrightarrow> recycled_values db p r = {}"
      "v \<in> free_above db p r" "\<And>w. w \<in> free_above db p r \<Longrightarrow> v \<le> w"
  | (exhausted) "candidate_value db p r recycle = Inr (None, False)"
      "recycle \<Longrightarrow> recycled_values db p r = {}" "free_above db p r = {}"
proof -
  obtain mn mx nx where b: "pool_min r p = Some mn" "pool_max r p = Some mx" "pool_next r p = Some nx"
    using assms by (rule range_ok_managed) (rule that)
  let ?ns = "column r"
  let ?cands = "recycle_candidates db p ?ns mn mx"
  let ?rec = "if recycle then least_of ?cands else None"
  let ?win = "\<lambda>v. nx \<le> v \<and> v \<le> mx"
  let ?taken = "filter ?win (column_values ?ns (active_rows db p ?ns)) @
                filter ?win (column_values ?ns (withheld_rows db p))"
  let ?v = "skip_taken ?taken nx"
  have rec: "set ?cands = recycled_values db p r"
    by (auto simp: set_recycle_candidates recycled_values_def in_range_def b)
  have taken: "set ?taken = {v \<in> blocked db (pool_pk p) ?ns. nx \<le> v \<and> v \<le> mx}"
    by (auto simp: set_active_column set_withheld_column blocked_def)
  have free: "free_above db p r = {v. nx \<le> v \<and> v \<le> mx \<and> v \<notin> set ?taken}"
    unfolding taken free_above_def by (auto simp: b)
  have spec: "?v \<notin> set ?taken" "nx \<le> ?v" "\<And>x. nx \<le> x \<Longrightarrow> x < ?v \<Longrightarrow> x \<in> set ?taken"
    using skip_taken_spec [of ?taken nx] by blast+
  show ?thesis
  proof (cases ?rec)
    case (Some v)
    then have r: recycle and l: "least_of ?cands = Some v" by (auto split: if_splits)
    have "candidate_value db p r recycle = Inr (Some v, False)"
      using r l by (simp add: candidate_value_def b Let_def)
    then show ?thesis using r least_of_Some [OF l] rec by (intro recycled) auto
  next
    case None
    have norec: "recycle \<Longrightarrow> recycled_values db p r = {}"
      using None rec by (auto split: if_splits)
    show ?thesis
    proof (cases "?v > mx")
      case True
      have "candidate_value db p r recycle = Inr (None, False)"
        using None True by (simp add: candidate_value_def b Let_def)
      moreover have "free_above db p r = {}"
        using True spec(3) unfolding free by fastforce
      ultimately show ?thesis using norec by (intro exhausted)
    next
      case False
      have "candidate_value db p r recycle = Inr (Some ?v, True)"
        using None False by (simp add: candidate_value_def b Let_def)
      moreover have "?v \<in> free_above db p r"
        using False spec(1,2) unfolding free by simp
      moreover have "?v \<le> w" if "w \<in> free_above db p r" for w
      proof (rule ccontr)
        assume "\<not> ?v \<le> w"
        then have "w \<in> set ?taken" using spec(3) [of w] that unfolding free by simp
        then show False using that unfolding free by blast
      qed
      ultimately show ?thesis using norec by (intro counter)
    qed
  qed
qed

lemma candidate_value_free:
  assumes "range_ok r p" "manages r p" "candidate_value db p r recycle = Inr (Some v, fc)"
  shows "in_range r p v" and "v \<notin> in_use db (pool_pk p) (column r)"
    and "v \<notin> withheld db (pool_pk p) (column r)"
    and "fc \<Longrightarrow> the (pool_next r p) \<le> v" and "\<not> recycle \<Longrightarrow> fc"
proof -
  obtain mn mx nx where b: "pool_min r p = Some mn" "pool_max r p = Some mx"
      "pool_next r p = Some nx" "mn \<le> nx"
    using assms(1,2) by (rule range_ok_managed) (rule that)
  have "in_range r p v \<and> v \<notin> in_use db (pool_pk p) (column r) \<and>
      v \<notin> withheld db (pool_pk p) (column r) \<and> (fc \<longrightarrow> the (pool_next r p) \<le> v) \<and> (\<not> recycle \<longrightarrow> fc)"
    using assms(1,2)
  proof (cases rule: candidate_value_cases [of r p recycle db])
    case (recycled w)
    then show ?thesis using assms(3) by (auto simp: recycled_values_def recyclable_values_def)
  next
    case (counter w)
    then show ?thesis using assms(3) b by (auto simp: free_above_def blocked_def in_range_def)
  next
    case exhausted
    then show ?thesis using assms(3) by simp
  qed
  then show "in_range r p v" and "v \<notin> in_use db (pool_pk p) (column r)"
    and "v \<notin> withheld db (pool_pk p) (column r)"
    and "fc \<Longrightarrow> the (pool_next r p) \<le> v" and "\<not> recycle \<Longrightarrow> fc"
    by auto
qed

subsection \<open>Pool rows: only the counters ever move\<close>

text \<open>
  \<open>static p\<close> is the pool without its counters: scope and bounds.  \<open>pools_frame\<close> relates two
  databases whose pools differ in their counters only.
\<close>

definition static :: "pool \<Rightarrow> pool" where
  "static p = p\<lparr>next_uid := None, next_gid := None, next_group_gid := None\<rparr>"

lemma static_set_next [simp]: "static (set_next r v p) = static p"
  by (induction r v p rule: set_next.induct) (simp_all add: static_def)

lemma static_fields [simp]:
  "pool_pk (static p) = pool_pk p" "service_provider (static p) = service_provider p"
  "pool_offering (static p) = pool_offering p"
  "pool_min r (static p) = pool_min r p" "pool_max r (static p) = pool_max r p"
  by (simp_all add: static_def) (induction r p rule: pool_min.induct; simp)+

lemma static_simps [simp]:
  "manages r (static p) = manages r p" "in_range r (static p) v = in_range r p v"
  by (simp_all add: manages_def in_range_def)

lemma static_eqD:
  assumes "static p = static q"
  shows "pool_pk p = pool_pk q" "service_provider p = service_provider q"
    "pool_offering p = pool_offering q" "pool_min r p = pool_min r q" "pool_max r p = pool_max r q"
    "manages r p = manages r q" "in_range r p v = in_range r q v"
  using assms by (metis static_fields static_simps)+

definition pools_frame :: "posix_db \<Rightarrow> posix_db \<Rightarrow> bool" where
  "pools_frame db db' \<longleftrightarrow>
     map static (pools db') = map static (pools db) \<and>
     offering_row db' = offering_row db \<and> sp_customer db' = sp_customer db"

lemma pools_frame_refl [simp]: "pools_frame db db"
  by (simp add: pools_frame_def)

lemma pools_frame_trans: "pools_frame a b \<Longrightarrow> pools_frame b c \<Longrightarrow> pools_frame a c"
  by (simp add: pools_frame_def)

lemma pools_frame_sym: "pools_frame a b \<Longrightarrow> pools_frame b a"
  by (simp add: pools_frame_def)

lemma pools_frame_row:
  assumes "pools_frame db db'" and "q \<in> set (pools db')"
  obtains p where "p \<in> set (pools db)" "static q = static p"
proof -
  have "static q \<in> static ` set (pools db)"
    using assms by (metis image_eqI list.set_map pools_frame_def)
  then show ?thesis using that by auto
qed

lemma pools_frame_pks: "pools_frame db db' \<Longrightarrow> map pool_pk (pools db') = map pool_pk (pools db)"
proof -
  assume "pools_frame db db'"
  then have "map pool_pk (map static (pools db')) = map pool_pk (map static (pools db))"
    by (simp add: pools_frame_def)
  then show ?thesis by (simp add: comp_def)
qed

lemma pool_customer_static:
  "pools_frame db db' \<Longrightarrow> static q = static p \<Longrightarrow> pool_customer db' q = pool_customer db p"
  using static_eqD [of q p] by (auto simp: pool_customer_def pools_frame_def split: option.splits)

lemma save_pool_frame:
  "(\<And>p. static (f p) = static p) \<Longrightarrow> pools_frame db (save_pool db pk f)"
  by (simp add: pools_frame_def save_pool_def update_rows_def)

lemma save_pool_simps [simp]:
  "identities (save_pool db pk f) = identities db" "next_ident (save_pool db pk f) = next_ident db"
  "entries (save_pool db pk f) = entries db"
  by (simp_all add: save_pool_def entries_def)

lemma candidate_value_total:
  "range_ok r p \<Longrightarrow> manages r p \<Longrightarrow> \<exists>x fc. candidate_value db p r recycle = Inr (x, fc)"
  by (rule candidate_value_cases [of r p recycle db]) auto

subsection \<open>Rows created and updated\<close>

lemma table_ok_pk_inj:
  "table_ok db \<Longrightarrow> i \<in> set (identities db) \<Longrightarrow> j \<in> set (identities db) \<Longrightarrow>
   ident_pk i = ident_pk j \<Longrightarrow> i = j"
  using distinct_key_eq [of ident_pk] by (auto simp: table_ok_def identities_ok_def)

text \<open>Two databases that differ in the identity table only.\<close>

definition only_identities :: "posix_db \<Rightarrow> posix_db \<Rightarrow> bool" where
  "only_identities db db' \<longleftrightarrow>
     pools db' = pools db \<and> offering_users db' = offering_users db \<and>
     provider_accounts db' = provider_accounts db \<and> project_groups db' = project_groups db \<and>
     offering_row db' = offering_row db \<and> sp_customer db' = sp_customer db"

lemma only_identities_frame: "only_identities db db' \<Longrightarrow> pools_frame db db'"
  by (simp add: only_identities_def pools_frame_def)

text \<open>What \<open>get_or_create\<close> returns: the principal's one active row, fresh or found.\<close>

definition got_row :: "posix_db \<Rightarrow> posix_db \<Rightarrow> pool \<Rightarrow> principal \<Rightarrow> identity \<Rightarrow> bool" where
  "got_row db db1 p pr i \<longleftrightarrow>
     table_ok db1 \<and> i \<in> set (identities db1) \<and> active i \<and> ident_pool i = pool_pk p \<and>
     owned_by pr i \<and> entries db1 = entries db \<and>
     only_identities db db1 \<and>
     (identities db1 = identities db \<or>
      identities db1 = identities db @ [i] \<and> (\<forall>ns. ident_value ns i = None))"

lemma get_or_create_total:
  assumes "table_ok db" and "p \<in> set (pools db)"
  obtains i db1 where "get_or_create_active_identity db pr p oid now = Inr (i, db1)"
    and "got_row db db1 p pr i"
proof -
  let ?q = "\<lambda>i. ident_pool i = pool_pk p \<and> active i \<and> owned_by pr i"
  have one: "x = y" if "x \<in> set (filter ?q (identities db))" "y \<in> set (filter ?q (identities db))" for x y
    using that table_ok_same_owner [OF assms(1), of x y pr] by auto
  have dist: "distinct (filter ?q (identities db))"
    using assms(1) by (simp add: table_ok_def identities_ok_def distinct_map)
  show thesis
  proof (cases "filter ?q (identities db)")
    case Nil
    let ?b = "(blank_identity (pool_pk p) pr oid now)\<lparr>ident_pk := next_ident db\<rparr>"
    let ?db1 = "db\<lparr>identities := identities db @ [?b], next_ident := Suc (next_ident db)\<rparr>"
    have vals: "ident_value ns ?b = None" for ns
      by (cases ns) (simp_all add: blank_identity_def)
    have own: "owned_by pr' ?b \<longleftrightarrow> pr' = pr" for pr'
      by (auto simp: blank_identity_def owned_by_def split: principal.splits)
    have act: "active ?b" "ident_pool ?b = pool_pk p" "exactly_one_principal ?b"
      by (auto simp: blank_identity_def active_def exactly_one_principal_def split: principal.splits)
    have "\<not> ident_clash ?b j" if "j \<in> set (identities db)" for j
      using Nil that vals own act unfolding ident_clash_iff by (auto simp: filter_empty_conv)
    then have ok: "integrity_ok ?b (identities db)"
      using act by (simp add: integrity_ok_def list_all_iff)
    have c: "create_identity db (blank_identity (pool_pk p) pr oid now) = Inr (?b, ?db1)"
      using ok by (simp add: create_identity_def Let_def)
    have tok: "table_ok ?db1"
      using create_identity_ok [OF c assms(1)] assms(2) by simp
    have ent: "entries ?db1 = entries db"
      using vals by (auto simp: entries_def)
    have only: "only_identities db ?db1" by (simp add: only_identities_def)
    have "got_row db ?db1 p pr ?b"
      unfolding got_row_def using tok ent only vals own act by (intro conjI) simp_all
    moreover have "get_or_create_active_identity db pr p oid now = Inr (?b, ?db1)"
      unfolding get_or_create_active_identity_def Nil using c by simp
    ultimately show thesis by (intro that)
  next
    case (Cons i rest)
    have "rest = []"
    proof (rule ccontr)
      assume "rest \<noteq> []"
      then obtain j where "j \<in> set rest" by (cases rest) auto
      then show False using one [of i j] Cons dist by (metis distinct.simps(2) list.set_intros)
    qed
    moreover have "i \<in> set (filter ?q (identities db))" unfolding Cons by simp
    then have "?q i" "i \<in> set (identities db)" by auto
    ultimately show thesis
      using Cons assms(1) by (intro that [of i db]) (simp_all add: get_or_create_active_identity_def got_row_def only_identities_def)
  qed
qed

definition without :: "nat \<Rightarrow> namespace \<Rightarrow> (nat \<times> nat \<times> namespace \<times> int) set \<Rightarrow>
    (nat \<times> nat \<times> namespace \<times> int) set" where
  "without k ns E = {e \<in> E. fst e \<noteq> k \<or> fst (snd (snd e)) \<noteq> ns}"

lemma save_value_effect:
  assumes "table_ok db" and "i \<in> set (identities db)" and "active i"
    and "save_identity db (set_ident_value ns (Some v) i) = Inr db'"
  shows "table_ok db'"
    and "entries db' = insert (ident_pk i, ident_pool i, ns, v) (without (ident_pk i) ns (entries db))"
    and "only_identities db db'"
    and "set_ident_value ns (Some v) i \<in> set (identities db')"
    and "filter (\<lambda>j. \<not> active j) (identities db') = filter (\<lambda>j. \<not> active j) (identities db)"
proof -
  let ?i' = "set_ident_value ns (Some v) i"
  let ?rows = "update_rows (\<lambda>j. ident_pk j = ident_pk i) (\<lambda>_. ?i') (identities db)"
  from assms(4) have db': "db' = db\<lparr>identities := ?rows\<rparr>"
    by (auto simp: save_identity_def split: if_splits)
  show "table_ok db'"
    using assms(1,2,4) by (intro save_identity_ok [OF assms(4)]) (auto simp: table_ok_def)
  show "only_identities db db'" by (simp add: db' only_identities_def)
  have rows: "set ?rows = insert ?i' (set (identities db) - {i})"
  proof -
    have "j = i" if "j \<in> set (identities db)" "ident_pk j = ident_pk i" for j
      using table_ok_pk_inj [OF assms(1) that(1) assms(2) that(2)] .
    then show ?thesis using assms(2) by (auto simp: db_simps)
  qed
  then show "?i' \<in> set (identities db')" by (simp add: db')
  have "entries db' = {(ident_pk j, ident_pool j, m, w) | j m w.
      j \<in> insert ?i' (set (identities db) - {i}) \<and> active j \<and> ident_value m j = Some w}"
    by (simp add: entries_def db' rows)
  also have "\<dots> = insert (ident_pk i, ident_pool i, ns, v) (without (ident_pk i) ns (entries db))"
    (is "?A = ?B")
  proof (intro set_eqI iffI)
    fix e assume "e \<in> ?A"
    then obtain j m w where e: "e = (ident_pk j, ident_pool j, m, w)" "active j"
        "ident_value m j = Some w" "j = ?i' \<or> j \<in> set (identities db) \<and> j \<noteq> i" by auto
    from e(4) show "e \<in> ?B"
    proof
      assume j: "j = ?i'"
      show ?thesis
      proof (cases "m = ns")
        case True
        then show ?thesis using e j by simp
      next
        case False
        then have "ident_value m i = Some w" using e j by simp
        then have "e \<in> entries db" using e(1) j assms(2,3) by (auto simp: entries_def)
        then show ?thesis using False e(1) by (simp add: without_def)
      qed
    next
      assume j: "j \<in> set (identities db) \<and> j \<noteq> i"
      then have "ident_pk j \<noteq> ident_pk i" using table_ok_pk_inj [OF assms(1)] assms(2) by blast
      moreover have "e \<in> entries db" using e j by (auto simp: entries_def)
      ultimately show ?thesis using e(1) by (simp add: without_def)
    qed
  next
    fix e assume "e \<in> ?B"
    then consider "e = (ident_pk i, ident_pool i, ns, v)" | "e \<in> without (ident_pk i) ns (entries db)"
      by blast
    then show "e \<in> ?A"
    proof cases
      case 1
      then show ?thesis using assms(3) by (intro CollectI exI [of _ ?i'] exI [of _ ns] exI [of _ v]) simp
    next
      case 2
      then obtain j m w where e: "e = (ident_pk j, ident_pool j, m, w)" "j \<in> set (identities db)"
          "active j" "ident_value m j = Some w" "ident_pk j \<noteq> ident_pk i \<or> m \<noteq> ns"
        by (auto simp: without_def entries_def)
      show ?thesis
      proof (cases "j = i")
        case True
        then have "m \<noteq> ns" "ident_value m ?i' = Some w" using e by auto
        then show ?thesis using e True by (intro CollectI exI [of _ ?i'] exI [of _ m] exI [of _ w]) simp
      next
        case False
        then show ?thesis using e by auto
      qed
    qed
  qed
  finally show "entries db' = insert (ident_pk i, ident_pool i, ns, v) (without (ident_pk i) ns (entries db))" .
  have "filter (\<lambda>j. \<not> active j) (update_rows (\<lambda>j. ident_pk j = ident_pk i) (\<lambda>_. ?i') rs) =
      filter (\<lambda>j. \<not> active j) rs" if "\<And>j. j \<in> set rs \<Longrightarrow> ident_pk j = ident_pk i \<Longrightarrow> active j" for rs
    using that assms(3) by (induction rs) auto
  then show "filter (\<lambda>j. \<not> active j) (identities db') = filter (\<lambda>j. \<not> active j) (identities db)"
    using assms(3) table_ok_pk_inj [OF assms(1) _ assms(2)] by (auto simp: db')
qed

lemma save_value_total:
  assumes "table_ok db" and "i \<in> set (identities db)" and "active i"
    and "v \<notin> in_use db (ident_pool i) ns"
  obtains db' where "save_identity db (set_ident_value ns (Some v) i) = Inr db'"
proof -
  let ?i' = "set_ident_value ns (Some v) i"
  have "\<not> ident_clash ?i' j" if j: "j \<in> set (identities db)" for j
  proof
    assume c: "ident_clash ?i' j"
    then have o: "ident_pk i \<noteq> ident_pk j" "active j" "ident_pool i = ident_pool j"
      by (auto simp: ident_clash_iff)
    from c consider (val) m w where "ident_value m ?i' = Some w" "ident_value m j = Some w"
      | (own) pr where "owned_by pr i" "owned_by pr j" by (auto simp: ident_clash_iff)
    then show False
    proof cases
      case val
      show ?thesis
      proof (cases "m = ns")
        case True
        then show ?thesis using val assms(4) j o by (auto simp: in_use_iff)
      next
        case False
        then show ?thesis using val o assms(1-3) j table_ok_same_value [of db i j m w] by auto
      qed
    next
      case own
      then show ?thesis using o assms(1-3) j table_ok_same_owner [of db i j pr] by auto
    qed
  qed
  moreover have "exactly_one_principal ?i'"
    using assms(1,2) by (simp add: table_ok_def identities_ok_def)
  ultimately have "integrity_ok ?i' (identities db)" by (simp add: integrity_ok_def list_all_iff)
  then show ?thesis using that by (simp add: save_identity_def)
qed

end
