(* ===== verification/Id_Registry.thy ===== *)
theory Id_Registry
  imports Prelude
begin

text \<open>
  The contract of an idempotent identifier registry, as the callers of the POSIX allocator rely
  on it: \<open>lookup\<close> is what a key holds, \<open>acquire\<close> gives the key a value unless it has one.  The
  lemmas prove what a caller that acquires for many keys in a row gets.
\<close>

locale id_registry =
  fixes ok :: "'s \<Rightarrow> bool"
    and lookup :: "'s \<Rightarrow> 'k \<Rightarrow> 'v option"
    and acquire :: "'s \<Rightarrow> 'k \<Rightarrow> ('e, 'v \<times> 's) result"
  assumes acquire_ok: "ok s \<Longrightarrow> acquire s k = Inr (v, s') \<Longrightarrow> ok s'"
    and acquire_lookup: "ok s \<Longrightarrow> acquire s k = Inr (v, s') \<Longrightarrow> lookup s' k = Some v"
    and acquire_other: "ok s \<Longrightarrow> acquire s k = Inr (v, s') \<Longrightarrow> k' \<noteq> k \<Longrightarrow> lookup s' k' = lookup s k'"
    and acquire_held: "ok s \<Longrightarrow> lookup s k = Some v \<Longrightarrow> acquire s k = Inr (v, s)"
    and lookup_unshared: "ok s \<Longrightarrow> lookup s k = Some v \<Longrightarrow> lookup s k' = Some v \<Longrightarrow> k = k'"
begin

lemma acquire_keeps:
  assumes "ok s" "acquire s k = Inr (v, s')" "lookup s k' = Some w"
  shows "lookup s' k' = Some w"
  using assms acquire_held [OF assms(1), of k w] acquire_other [OF assms(1,2)] by (cases "k' = k") auto

lemma acquire_twice:
  assumes "ok s" "acquire s k = Inr (v, s')"
  shows "acquire s' k = Inr (v, s')"
  using acquire_ok [OF assms] acquire_lookup [OF assms] by (rule acquire_held)

lemma acquire_distinct:
  assumes "ok s" "acquire s k = Inr (v, s')" "acquire s' k' = Inr (v', s'')" "k \<noteq> k'"
  shows "v \<noteq> v'"
proof
  assume "v = v'"
  have ok': "ok s'" "ok s''" using assms acquire_ok by blast+
  have "lookup s'' k = Some v"
    using ok'(1) assms(3) acquire_lookup [OF assms(1,2)] by (rule acquire_keeps)
  moreover have "lookup s'' k' = Some v" using acquire_lookup [OF ok'(1) assms(3)] \<open>v = v'\<close> by simp
  ultimately show False using lookup_unshared [OF ok'(2)] assms(4) by blast
qed

text \<open>Acquiring for a list of keys in turn, collecting the values.\<close>

definition acquire_one :: "'v list \<times> 's \<Rightarrow> 'k \<Rightarrow> ('e, 'v list \<times> 's) result" where
  "acquire_one acc k = rbind (acquire (snd acc) k) (\<lambda>(v, s'). Inr (fst acc @ [v], s'))"

lemma acquire_many:
  assumes "ok s" "rfold acquire_one ([], s) ks = Inr (vs, s')"
  shows "ok s' \<and> length vs = length ks \<and> (\<forall>n<length ks. lookup s' (ks ! n) = Some (vs ! n))"
proof -
  have "ok t \<and> length ws = length js \<and> (\<forall>n<length js. lookup t (js ! n) = Some (ws ! n)) \<Longrightarrow>
      rfold acquire_one (ws, t) ks = Inr (vs, s') \<Longrightarrow>
      ok s' \<and> length vs = length (js @ ks) \<and>
      (\<forall>n<length (js @ ks). lookup s' ((js @ ks) ! n) = Some (vs ! n))" for t ws js
  proof (induction ks arbitrary: t ws js)
    case Nil
    then show ?case by simp
  next
    case (Cons k ks)
    obtain v u where a: "acquire t k = Inr (v, u)" and r: "rfold acquire_one (ws @ [v], u) ks = Inr (vs, s')"
      using Cons.prems(2) by (auto simp: acquire_one_def [of "(ws, t)" k] result_simps)
    have t: "ok t" using Cons.prems(1) by simp
    have "lookup u ((js @ [k]) ! n) = Some ((ws @ [v]) ! n)" if "n < length (js @ [k])" for n
      using that Cons.prems(1) acquire_keeps [OF t a] acquire_lookup [OF t a]
      by (auto simp: nth_append less_Suc_eq)
    then have "ok s' \<and> length vs = length ((js @ [k]) @ ks) \<and>
      (\<forall>n<length ((js @ [k]) @ ks). lookup s' (((js @ [k]) @ ks) ! n) = Some (vs ! n))"
      using Cons.IH [of u "ws @ [v]" "js @ [k]"] r acquire_ok [OF t a] Cons.prems(1) by simp
    then show ?case by simp
  qed
  from this [of s "[]" "[]"] show ?thesis using assms by simp
qed

lemma acquire_many_distinct:
  assumes "ok s" "rfold acquire_one ([], s) ks = Inr (vs, s')" "distinct ks"
  shows "distinct vs"
proof -
  note m = acquire_many [OF assms(1,2)]
  have "vs ! i \<noteq> vs ! j" if "i < length vs" "j < length vs" "i \<noteq> j" for i j
  proof
    assume "vs ! i = vs ! j"
    then have "ks ! i = ks ! j" using m that lookup_unshared [of s' "ks ! i" "vs ! i" "ks ! j"] by simp
    then show False using assms(3) that m by (simp add: nth_eq_iff_index_eq)
  qed
  then show ?thesis by (simp add: distinct_conv_nth)
qed

end

end
