(* ===== verification/Posix_Alloc_Spec.thy ===== *)
theory Posix_Alloc_Spec
  imports Posix_Alloc_Facts Id_Registry
begin

text \<open>
  Total correctness of one allocation and of one pin, against the set of values in use, and
  the allocator as an instance of the \<open>id_registry\<close> interface its callers rely on.
\<close>

lemma get_pool_row:
  "table_ok db \<Longrightarrow> p \<in> set (pools db) \<Longrightarrow> get_pool db (pool_pk p) = Inr p"
  using first_row_key [of pool_pk "pools db" p]
  by (simp add: get_pool_def table_ok_def pools_ok_def)

lemma table_ok_range: "table_ok db \<Longrightarrow> p \<in> set (pools db) \<Longrightarrow> range_ok r p"
  by (auto simp: table_ok_def pools_ok_def pool_constraints_def list_all_iff)

lemma same_inactive:
  assumes "filter (\<lambda>j. \<not> active j) (identities db') = filter (\<lambda>j. \<not> active j) (identities db)"
  shows "withheld db' pk ns = withheld db pk ns"
proof -
  have "{j \<in> set (identities db'). \<not> active j} = {j \<in> set (identities db). \<not> active j}"
    using assms by (metis set_filter)
  then show ?thesis unfolding withheld_def by blast
qed

subsection \<open>The counter\<close>

lemma range_ok_advance:
  assumes "range_ok s p" "in_range r p v" "the (pool_next r p) \<le> v" "range_ok r p"
  shows "range_ok s (set_next r (Some (v + 1)) p)"
  using assms by (cases "s = r") (auto simp: range_ok_def in_range_def split: option.splits)

lemma pool_constraints_advance:
  assumes "pool_constraints p" "in_range r p v" "the (pool_next r p) \<le> v"
  shows "pool_constraints (set_next r (Some (v + 1)) p)"
  using assms range_ok_advance [of _ p r v]
  by (auto simp: pool_constraints_def list_all_iff)

text \<open>Rewriting one pool row, its scope unchanged.\<close>

definition same_scope :: "pool \<Rightarrow> pool \<Rightarrow> bool" where
  "same_scope p q \<longleftrightarrow> pool_pk p = pool_pk q \<and> service_provider p = service_provider q \<and>
     pool_offering p = pool_offering q"

lemma same_scope_static: "static p = static q \<Longrightarrow> same_scope p q"
  using static_eqD [of p q] by (simp add: same_scope_def)

lemma save_pool_table_ok:
  assumes "table_ok db" and "p \<in> set (pools db)" and "pool_constraints (f p)"
    and "same_scope (f p) p"
  shows "table_ok (save_pool db (pool_pk p) f)"
proof -
  let ?g = "\<lambda>q. if pool_pk q = pool_pk p then f q else q"
  have ps: "pools (save_pool db (pool_pk p) f) = map ?g (pools db)"
    by (simp add: save_pool_def update_rows_def)
  have old: "pools_ok (pools db)" using assms(1) by (simp add: table_ok_def)
  have uniq: "q \<in> set (pools db) \<Longrightarrow> pool_pk q = pool_pk p \<Longrightarrow> q = p" for q
    using old assms(2) distinct_key_eq [of pool_pk] by (auto simp: pools_ok_def)
  have g: "pool_pk (?g q) = pool_pk q" "service_provider (?g q) = service_provider q"
      "pool_offering (?g q) = pool_offering q" if "q \<in> set (pools db)" for q
    using uniq [OF that] assms(4) by (auto simp: same_scope_def)
  have pks: "map pool_pk (map ?g (pools db)) = map pool_pk (pools db)"
    using g(1) by (simp add: comp_def)
  have "pools_ok (map ?g (pools db))"
    unfolding pools_ok_def
  proof (intro conjI ballI impI)
    show "distinct (map pool_pk (map ?g (pools db)))"
      unfolding pks using old by (simp add: pools_ok_def)
  next
    fix q assume "q \<in> set (map ?g (pools db))"
    then show "pool_constraints q" using old uniq assms(3) by (auto simp: pools_ok_def)
  next
    fix q q' assume m: "q \<in> set (map ?g (pools db))" "q' \<in> set (map ?g (pools db))"
    obtain a where a: "q = ?g a" "a \<in> set (pools db)" using m(1) unfolding set_map by (rule imageE)
    obtain b where b: "q' = ?g b" "b \<in> set (pools db)" using m(2) unfolding set_map by (rule imageE)
    have eqs: "service_provider q = service_provider a" "service_provider q' = service_provider b"
        "pool_offering q = pool_offering a" "pool_offering q' = pool_offering b"
      unfolding a(1) b(1) using g [OF a(2)] g [OF b(2)] by blast+
    {
      assume "service_provider q \<noteq> None" "service_provider q = service_provider q'"
      then have "a = b" using old a(2) b(2) unfolding pools_ok_def eqs by blast
      then show "q = q'" using a(1) b(1) by simp
    next
      assume "pool_offering q \<noteq> None" "pool_offering q = pool_offering q'"
      then have "a = b" using old a(2) b(2) unfolding pools_ok_def eqs by blast
      then show "q = q'" using a(1) b(1) by simp
    }
  qed
  moreover have "pool_pk ` set (map ?g (pools db)) = pool_pk ` set (pools db)"
    using arg_cong [OF pks, of set] by (simp only: set_map)
  ultimately show ?thesis using assms(1) by (simp add: table_ok_def ps)
qed

lemma next_value_cases:
  assumes "table_ok db" and "p \<in> set (pools db)" and "manages r p"
  obtains
    (taken) v db' where "next_value db p r recycle = Inr (Some v, db')"
      "table_ok db'" "pools_frame db db'" "identities db' = identities db"
      "in_range r p v" "v \<notin> in_use db (pool_pk p) (column r)"
      "v \<notin> withheld db (pool_pk p) (column r)"
  | (none) "next_value db p r recycle = Inr (None, db)" "free_above db p r = {}"
      "recycle \<Longrightarrow> recycled_values db p r = {}"
proof -
  have ok: "range_ok r p" "pool_constraints p"
    using assms(1,2) by (auto simp: table_ok_range table_ok_def pools_ok_def)
  obtain x fc where c: "candidate_value db p r recycle = Inr (x, fc)"
    using candidate_value_total [OF ok(1) assms(3)] by blast
  show thesis
  proof (cases x)
    case (Some v)
    note free = candidate_value_free [OF ok(1) assms(3) c [unfolded Some]]
    let ?f = "set_next r (Some (v + 1))"
    show ?thesis
    proof (cases fc)
      case True
      have "table_ok (save_pool db (pool_pk p) ?f)"
        using assms(1,2) pool_constraints_advance [OF ok(2) free(1) free(4) [OF True]]
        by (rule save_pool_table_ok) (simp add: same_scope_static)
      moreover have "pools_frame db (save_pool db (pool_pk p) ?f)"
        by (rule save_pool_frame) simp
      ultimately show ?thesis
        using c Some True free
        by (intro taken [of v "save_pool db (pool_pk p) ?f"]) (simp_all add: next_value_def)
    next
      case False
      then show ?thesis using c Some free assms(1) by (intro taken [of v db]) (simp_all add: next_value_def)
    qed
  next
    case None
    have "free_above db p r = {} \<and> (recycle \<longrightarrow> recycled_values db p r = {})"
      using ok(1) assms(3)
      by (cases rule: candidate_value_cases [of r p recycle db]) (use c None in auto)
    then show ?thesis using c None by (intro none) (simp_all add: next_value_def)
  qed
qed

subsection \<open>One allocation\<close>

text \<open>
  The outcome of an allocation: the principal holds the value; either it held it already and
  the values in use are the same, or the value was in nobody's use, inside the range and not
  withheld, and exactly one entry is added.
\<close>

definition holds :: "posix_db \<Rightarrow> nat \<Rightarrow> namespace \<Rightarrow> principal \<Rightarrow> int \<Rightarrow> bool" where
  "holds db pk ns pr v \<longleftrightarrow>
     (\<exists>i\<in>set (identities db). active i \<and> ident_pool i = pk \<and> owned_by pr i \<and>
        ident_value ns i = Some v)"

definition allocated ::
    "posix_db \<Rightarrow> pool \<Rightarrow> range_name \<Rightarrow> principal \<Rightarrow> int \<Rightarrow> posix_db \<Rightarrow> bool" where
  "allocated db p r pr v db' \<longleftrightarrow>
     table_ok db' \<and> pools_frame db db' \<and> holds db' (pool_pk p) (column r) pr v \<and>
     (if \<exists>w. holds db (pool_pk p) (column r) pr w
      then entries db' = entries db
      else in_range r p v \<and> v \<notin> in_use db (pool_pk p) (column r) \<and>
           v \<notin> withheld db (pool_pk p) (column r) \<and>
           (\<exists>k. entries db' = insert (k, pool_pk p, column r, v) (entries db))) \<and>
     (\<forall>pk ns. withheld db' pk ns = withheld db pk ns) \<and>
     (\<forall>i\<in>set (identities db). \<not> (ident_pool i = pool_pk p \<and> active i \<and> owned_by pr i) \<longrightarrow>
        i \<in> set (identities db'))"

lemma holds_unique:
  "table_ok db \<Longrightarrow> holds db pk ns pr v \<Longrightarrow> holds db pk ns pr w \<Longrightarrow> v = w"
  using table_ok_same_owner unfolding holds_def by (metis option.inject)

lemma holds_injective:
  "table_ok db \<Longrightarrow> holds db pk ns pr v \<Longrightarrow> holds db pk ns pr' v \<Longrightarrow>
   \<exists>i\<in>set (identities db). owned_by pr i \<and> owned_by pr' i"
  using table_ok_same_value unfolding holds_def by metis

lemma owned_by_one_principal:
  "exactly_one_principal i \<Longrightarrow> owned_by pr i \<Longrightarrow> owned_by pr' i \<Longrightarrow> pr = pr'"
  by (auto simp: exactly_one_principal_def owned_by_def split: principal.splits)

lemma holds_injective':
  assumes "table_ok db" "holds db pk ns pr v" "holds db pk ns pr' v"
  shows "pr = pr'"
proof -
  obtain i where "i \<in> set (identities db)" "owned_by pr i" "owned_by pr' i"
    using holds_injective [OF assms] by blast
  moreover have "exactly_one_principal i"
    using assms(1) \<open>i \<in> set (identities db)\<close> by (simp add: table_ok_def identities_ok_def)
  ultimately show ?thesis using owned_by_one_principal by blast
qed

lemma held_value_iff:
  assumes "table_ok db"
  shows "held_value db p r pr = Some v \<longleftrightarrow> holds db (pool_pk p) (column r) pr v"
proof
  assume "held_value db p r pr = Some v"
  then obtain i where i: "active_identity db p pr = Some i" "ident_value (column r) i = Some v"
    by (auto simp: held_value_def split: option.splits)
  then show "holds db (pool_pk p) (column r) pr v"
    using first_row_Some [OF i(1) [unfolded active_identity_def]] by (auto simp: holds_def)
next
  assume "holds db (pool_pk p) (column r) pr v"
  then obtain i where i: "i \<in> set (identities db)" "active i" "ident_pool i = pool_pk p"
      "owned_by pr i" "ident_value (column r) i = Some v" by (auto simp: holds_def)
  then obtain j where j: "active_identity db p pr = Some j"
    by (cases "active_identity db p pr") (auto simp: active_identity_def db_simps)
  have "j = i"
    using first_row_Some [OF j [unfolded active_identity_def]] i
      table_ok_same_owner [OF assms, of j i pr] by auto
  then show "held_value db p r pr = Some v" using i j by (simp add: held_value_def)
qed

lemma allocate_locked_total:
  assumes "table_ok db" and "p \<in> set (pools db)" and "manages r p"
  obtains
    (granted) v db' where "allocate_locked db (pool_pk p) r pr oid recycle now = Inr (v, db')"
      "allocated db p r pr v db'"
  | (exhausted) "allocate_locked db (pool_pk p) r pr oid recycle now = Inl PosixIdPoolExhausted"
      "free_above db p r = {}" "recycle \<Longrightarrow> recycled_values db p r = {}"
      "\<nexists>w. holds db (pool_pk p) (column r) pr w"
proof -
  let ?ns = "column r"
  note g = get_pool_row [OF assms(1,2)]
  obtain i db1 where c: "get_or_create_active_identity db pr p oid now = Inr (i, db1)"
      and got: "got_row db db1 p pr i"
    using assms(1,2) by (rule get_or_create_total)
  from got have row: "table_ok db1" "i \<in> set (identities db1)" "active i"
      "ident_pool i = pool_pk p" "owned_by pr i" "entries db1 = entries db"
      "only_identities db db1"
    by (simp_all add: got_row_def)
  have p1: "pools db1 = pools db" "pools_frame db db1"
    using row(7) by (simp_all add: only_identities_def only_identities_frame)
  have inact1: "filter (\<lambda>j. \<not> active j) (identities db1) = filter (\<lambda>j. \<not> active j) (identities db)"
    using got by (auto simp: got_row_def)
  have mono1: "set (identities db) \<subseteq> set (identities db1)"
    using got by (auto simp: got_row_def)
  have holds1: "holds db1 (pool_pk p) ?ns pr w \<longleftrightarrow> holds db (pool_pk p) ?ns pr w" for w
    using got by (auto simp: got_row_def holds_def)
  have in_use1: "in_use db1 pk ns = in_use db pk ns" for pk ns by (simp add: in_use_def row(6))
  have held: "holds db1 (pool_pk p) ?ns pr w \<longleftrightarrow> ident_value ?ns i = Some w" for w
    using row table_ok_same_owner [OF row(1) _ row(2)] unfolding holds_def by (metis)
  show thesis
  proof (cases "ident_value ?ns i")
    case (Some v)
    have "allocate_locked db (pool_pk p) r pr oid recycle now = Inr (v, db1)"
      using Some by (simp add: allocate_locked_def g c)
    moreover have "allocated db p r pr v db1"
      unfolding allocated_def
      using row p1 Some held holds1 same_inactive [OF inact1] mono1 by auto
    ultimately show ?thesis by (rule granted)
  next
    case None
    have nohold: "\<nexists>w. holds db (pool_pk p) ?ns pr w" using held holds1 None by simp
    have p_in: "p \<in> set (pools db1)" using assms(2) p1 by simp
    from row(1) p_in assms(3) show ?thesis
    proof (cases rule: next_value_cases [of db1 p r recycle])
      case (taken v db2)
      have i2: "i \<in> set (identities db2)" using taken row by simp
      have "v \<notin> in_use db2 (ident_pool i) ?ns"
        using taken row(4) by (simp add: in_use_iff)
      then obtain db3 where s: "save_identity db2 (set_ident_value ?ns (Some v) i) = Inr db3"
        using save_value_total [OF taken(2) i2 row(3)] by blast
      note e = save_value_effect [OF taken(2) i2 row(3) s]
      have a: "allocate_locked db (pool_pk p) r pr oid recycle now = Inr (v, db3)"
        using None by (simp add: allocate_locked_def g c taken(1) s)
      have ent2: "entries db2 = entries db" using taken(4) row(6) by (simp add: entries_def)
      have "without (ident_pk i) ?ns (entries db) = entries db"
      proof -
        have "\<not> (fst x = ident_pk i \<and> fst (snd (snd x)) = ?ns)" if x: "x \<in> entries db2" for x
        proof
          assume k: "fst x = ident_pk i \<and> fst (snd (snd x)) = ?ns"
          obtain j m w where j: "x = (ident_pk j, ident_pool j, m, w)" "j \<in> set (identities db2)"
              "ident_value m j = Some w" using x by (auto simp: entries_def)
          then have "j = i" using k table_ok_pk_inj [OF taken(2) _ i2] by auto
          then show False using j k None by simp
        qed
        then show ?thesis unfolding ent2 [symmetric] by (auto simp: without_def)
      qed
      then have ent3: "entries db3 = insert (ident_pk i, pool_pk p, ?ns, v) (entries db)"
        using e(2) ent2 row(4) by simp
      have "holds db3 (pool_pk p) ?ns pr v"
        using e(4) row unfolding holds_def by (intro bexI [of _ "set_ident_value ?ns (Some v) i"]) auto
      moreover have "pools_frame db db3"
      proof -
        have "pools_frame db1 db2" by (rule taken(3))
        moreover have "pools_frame db2 db3" using e(3) by (rule only_identities_frame)
        ultimately show ?thesis using p1(2) pools_frame_trans by blast
      qed
      moreover have "withheld db3 pk ns = withheld db pk ns" for pk ns
        using e(5) taken(4) inact1 by (intro same_inactive) simp
      moreover have "j \<in> set (identities db3)"
        if "j \<in> set (identities db)" "\<not> (ident_pool j = pool_pk p \<and> active j \<and> owned_by pr j)" for j
      proof -
        have "j \<in> set (identities db2)" "j \<noteq> i" using that mono1 taken(4) row by auto
        then have "ident_pk j \<noteq> ident_pk i" using table_ok_pk_inj [OF taken(2) _ i2] by blast
        then show ?thesis using \<open>j \<in> set (identities db2)\<close> s
          by (auto simp: save_identity_def db_simps split: if_splits)
      qed
      moreover have "v \<notin> withheld db (pool_pk p) ?ns"
        using taken(7) same_inactive [OF inact1] by simp
      ultimately have "allocated db p r pr v db3"
        using nohold e(1) ent3 taken(5,6) in_use1 by (auto simp: allocated_def)
      with a show ?thesis by (rule granted)
    next
      case none
      have "free_above db1 p r = free_above db p r" "recycled_values db1 p r \<subseteq> recycled_values db p r
          \<and> recycled_values db p r \<subseteq> recycled_values db1 p r"
      proof -
        have w: "withheld db1 pk ns = withheld db pk ns" for pk ns by (rule same_inactive [OF inact1])
        have "{j \<in> set (identities db1). \<not> active j} = {j \<in> set (identities db). \<not> active j}"
          using inact1 by (metis set_filter)
        then have "recyclable_values db1 pk ns = recyclable_values db pk ns" for pk ns
          unfolding recyclable_values_def w in_use1 by blast
        then show "recycled_values db1 p r \<subseteq> recycled_values db p r
          \<and> recycled_values db p r \<subseteq> recycled_values db1 p r"
          by (simp add: recycled_values_def)
        show "free_above db1 p r = free_above db p r"
          by (simp add: free_above_def blocked_def w in_use1)
      qed
      then show ?thesis
        using none None nohold by (intro exhausted) (auto simp: allocate_locked_def g c)
    qed
  qed
qed

text \<open>The entry point: the unlocked check, then the locked block.\<close>

lemma allocate_in_pool_total:
  assumes "table_ok db" and "p \<in> set (pools db)" and "manages r p"
  obtains
    (held) v where "allocate_in_pool db p r pr oid recycle now = Inr (v, db)"
      "holds db (pool_pk p) (column r) pr v"
  | (granted) v db' where "allocate_in_pool db p r pr oid recycle now = Inr (v, db')"
      "allocated db p r pr v db'" "\<nexists>w. holds db (pool_pk p) (column r) pr w"
  | (exhausted) "allocate_in_pool db p r pr oid recycle now = Inl PosixIdPoolExhausted"
      "free_above db p r = {}" "recycle \<Longrightarrow> recycled_values db p r = {}"
      "\<nexists>w. holds db (pool_pk p) (column r) pr w"
proof (cases "held_value db p r pr")
  case (Some v)
  then have "holds db (pool_pk p) (column r) pr v" using held_value_iff [OF assms(1)] by simp
  moreover have "allocate_in_pool db p r pr oid recycle now = Inr (v, db)"
    using Some by (simp add: allocate_in_pool_def)
  ultimately show ?thesis by (intro held)
next
  case None
  then have n: "\<nexists>w. holds db (pool_pk p) (column r) pr w"
    using held_value_iff [OF assms(1), of p r pr] by auto
  show ?thesis
    using assms
    by (cases rule: allocate_locked_total [of db p r pr oid recycle now])
      (use None n in \<open>auto simp: allocate_in_pool_def intro: granted exhausted\<close>)
qed

lemma allocated_holds_other:
  assumes "allocated db p r pr v db'" "table_ok db" "pr' \<noteq> pr"
  shows "holds db' (pool_pk p) (column r) pr' w \<longleftrightarrow> holds db (pool_pk p) (column r) pr' w"
proof
  assume h: "holds db (pool_pk p) (column r) pr' w"
  then obtain i where i: "i \<in> set (identities db)" "active i" "ident_pool i = pool_pk p" "owned_by pr' i"
      "ident_value (column r) i = Some w" by (auto simp: holds_def)
  have "exactly_one_principal i" using assms(2) i(1) by (simp add: table_ok_def identities_ok_def)
  then have "\<not> owned_by pr i" using i(4) assms(3) owned_by_one_principal by blast
  then have "i \<in> set (identities db')" using assms(1) i(1) unfolding allocated_def by blast
  then show "holds db' (pool_pk p) (column r) pr' w" using i unfolding holds_def by blast
next
  assume h: "holds db' (pool_pk p) (column r) pr' w"
  have t: "table_ok db'" "holds db' (pool_pk p) (column r) pr v"
    using assms(1) by (simp_all add: allocated_def)
  then have "w \<noteq> v" using holds_injective' [OF t(1) h] assms(3) by blast
  obtain i where i: "i \<in> set (identities db')" "active i" "ident_pool i = pool_pk p" "owned_by pr' i"
      "ident_value (column r) i = Some w" using h by (auto simp: holds_def)
  then have "(ident_pk i, pool_pk p, column r, w) \<in> entries db'" by (auto simp: entries_def)
  then have "(ident_pk i, pool_pk p, column r, w) \<in> entries db"
    using assms(1) \<open>w \<noteq> v\<close> by (auto simp: allocated_def split: if_splits)
  then obtain j where j: "j \<in> set (identities db)" "ident_pk j = ident_pk i" "active j"
      "ident_pool j = pool_pk p" "ident_value (column r) j = Some w" by (auto simp: entries_def)
  show "holds db (pool_pk p) (column r) pr' w"
  proof (cases "owned_by pr j")
    case True
    then have "holds db (pool_pk p) (column r) pr w" using j by (auto simp: holds_def)
    then have "\<exists>w. holds db (pool_pk p) (column r) pr w" by blast
    then have "entries db' = entries db" using assms(1) by (simp add: allocated_def)
    moreover obtain k where k: "k \<in> set (identities db')" "active k" "ident_pool k = pool_pk p" "owned_by pr k"
        "ident_value (column r) k = Some v" using t(2) by (auto simp: holds_def)
    moreover have "(ident_pk k, pool_pk p, column r, v) \<in> entries db'" using k by (auto simp: entries_def)
    ultimately have "(ident_pk k, pool_pk p, column r, v) \<in> entries db" by simp
    then obtain l where l: "l \<in> set (identities db)" "ident_pk l = ident_pk k" "active l"
      "ident_pool l = pool_pk p" "ident_value (column r) l = Some v" by (auto simp: entries_def)
    show ?thesis
    proof (cases "owned_by pr l")
      case True
      then have "l = j" using table_ok_same_owner [OF assms(2) l(1) j(1)] l j \<open>owned_by pr j\<close> by simp
      then show ?thesis using l j \<open>w \<noteq> v\<close> by simp
    next
      case False
      then have "l \<in> set (identities db')" using assms(1) l(1) unfolding allocated_def by blast
      then have "l = k" using table_ok_pk_inj [OF t(1) _ k(1)] l(2) by blast
      then show ?thesis using False k(4) by simp
    qed
  next
    case False
    then have "j \<in> set (identities db')" using assms(1) j(1) unfolding allocated_def by blast
    then have "j = i" using table_ok_pk_inj [OF t(1) _ i(1)] j(2) by blast
    then show ?thesis using i j by (auto simp: holds_def)
  qed
qed

text \<open>The allocator of one range, as the registry its callers see.\<close>

definition registry_ok :: "nat \<Rightarrow> range_name \<Rightarrow> posix_db \<Rightarrow> bool" where
  "registry_ok pk r db \<longleftrightarrow> table_ok db \<and> list_ex (\<lambda>p. pool_pk p = pk \<and> manages r p) (pools db)"

definition registry_lookup :: "pool \<Rightarrow> range_name \<Rightarrow> posix_db \<Rightarrow> principal \<Rightarrow> int option" where
  "registry_lookup p r db pr = held_value db p r pr"

definition registry_acquire ::
    "pool \<Rightarrow> range_name \<Rightarrow> nat option \<Rightarrow> bool \<Rightarrow> timestamp \<Rightarrow> posix_db \<Rightarrow> principal
     \<Rightarrow> (posix_error, int \<times> posix_db) result" where
  "registry_acquire p r oid recycle now db pr = allocate_in_pool db p r pr oid recycle now"

lemma same_pk_pool:
  assumes "pool_pk p = pool_pk q"
  shows "held_value db p = held_value db q"
    and "allocate_in_pool db p r pr oid recycle now = allocate_in_pool db q r pr oid recycle now"
proof -
  show h: "held_value db p = held_value db q"
    using assms by (intro ext) (simp add: held_value_def active_identity_def)
  show "allocate_in_pool db p r pr oid recycle now = allocate_in_pool db q r pr oid recycle now"
    unfolding allocate_in_pool_def h assms ..
qed

lemma registry_acquire_cases:
  assumes "registry_ok (pool_pk p) r db" "registry_acquire p r oid recycle now db pr = Inr (v, db')"
  obtains "registry_ok (pool_pk p) r db'" "holds db' (pool_pk p) (column r) pr v"
    "\<And>pr' w. pr' \<noteq> pr \<Longrightarrow> holds db' (pool_pk p) (column r) pr' w \<longleftrightarrow> holds db (pool_pk p) (column r) pr' w"
proof -
  obtain q where q: "q \<in> set (pools db)" "pool_pk q = pool_pk p" "manages r q"
    using assms(1) by (auto simp: registry_ok_def list_ex_iff)
  have tab: "table_ok db" using assms(1) by (simp add: registry_ok_def)
  have a: "allocate_in_pool db q r pr oid recycle now = Inr (v, db')"
    using assms(2) same_pk_pool(2) [of p q] q(2) by (simp add: registry_acquire_def)
  consider "db' = db" "holds db (pool_pk q) (column r) pr v" | "allocated db q r pr v db'"
    using tab q(1,3)
  proof (cases rule: allocate_in_pool_total [of db q r pr oid recycle now])
    case (held w)
    then show ?thesis using a that(1) by simp
  next
    case (granted w db'')
    then show ?thesis using a that(2) by simp
  next
    case exhausted
    then show ?thesis using a by simp
  qed
  then show thesis
  proof cases
    case 1
    then show thesis using that assms(1) q(2) by simp
  next
    case 2
    then have f: "pools_frame db db'" "table_ok db'" by (simp_all add: allocated_def)
    obtain q' where "q' \<in> set (pools db')" "static q = static q'"
      using pools_frame_row [OF pools_frame_sym [OF f(1)] q(1)] by blast
    then have "registry_ok (pool_pk p) r db'"
      using f(2) q(2,3) static_eqD [of q q'] by (auto simp: registry_ok_def list_ex_iff)
    moreover have "holds db' (pool_pk p) (column r) pr v" using 2 q(2) by (simp add: allocated_def)
    ultimately show thesis using that allocated_holds_other [OF 2 tab] q(2) by simp
  qed
qed

interpretation allocator: id_registry "registry_ok (pool_pk p) r" "registry_lookup p r"
    "registry_acquire p r oid recycle now" for p r oid recycle now
proof unfold_locales
  fix db pr v db'
  assume ok: "registry_ok (pool_pk p) r db" and a: "registry_acquire p r oid recycle now db pr = Inr (v, db')"
  have tab: "table_ok db" using ok by (simp add: registry_ok_def)
  show "registry_ok (pool_pk p) r db'" using ok a by (rule registry_acquire_cases)
  then have tab': "table_ok db'" by (simp add: registry_ok_def)
  show "registry_lookup p r db' pr = Some v"
    using ok a by (rule registry_acquire_cases) (simp add: registry_lookup_def held_value_iff [OF tab'])
  fix pr' assume ne: "pr' \<noteq> pr"
  have "holds db' (pool_pk p) (column r) pr' w \<longleftrightarrow> holds db (pool_pk p) (column r) pr' w" for w
    using ok a by (rule registry_acquire_cases) (simp only: ne not_False_eq_True)
  then have "held_value db' p r pr' = Some w \<longleftrightarrow> held_value db p r pr' = Some w" for w
    by (simp add: held_value_iff [OF tab'] held_value_iff [OF tab])
  then show "registry_lookup p r db' pr' = registry_lookup p r db pr'"
    unfolding registry_lookup_def by (rule option_eqI)
next
  fix db pr v
  assume "registry_ok (pool_pk p) r db" "registry_lookup p r db pr = Some v"
  then show "registry_acquire p r oid recycle now db pr = Inr (v, db)"
    by (simp add: registry_lookup_def registry_acquire_def allocate_in_pool_def)
next
  fix db pr v pr'
  assume "registry_ok (pool_pk p) r db" "registry_lookup p r db pr = Some v" "registry_lookup p r db pr' = Some v"
  then show "pr = pr'"
    using holds_injective' [of db "pool_pk p" "column r" pr v pr'] held_value_iff [of db p r]
    by (auto simp: registry_ok_def registry_lookup_def)
qed

end
