(* ===== verification/Posix_Ops.thy ===== *)
theory Posix_Ops
  imports Posix_Alloc_Spec
begin

text \<open>
  The other operations on the POSIX tables: validation, creation and update of a pool
  (\<open>validate_pool\<close>, the pool serializer), pinning and releasing a project group's GID,
  releasing the identities of deleted accounts, pool statistics, and the registration of the
  GIDs that groups already carry when a pool is created.
\<close>

subsection \<open>Validation of a pool\<close>

definition check_bounds :: "pool \<Rightarrow> range_name \<Rightarrow> (posix_error, bool) result" where
  "check_bounds p r =
     (case (pool_min r p, pool_max r p) of
        (None, None) \<Rightarrow> Inr False
      | (Some mn, Some mx) \<Rightarrow>
          (if \<not> (MIN_ID \<le> mn \<and> mn \<le> mx \<and> mx \<le> MAX_ID) then Inl ValidationError
           else case pool_next r p of
                  None \<Rightarrow> Inr True
                | Some nx \<Rightarrow>
                    (if \<not> (mn \<le> nx \<and> nx \<le> mx + 1) then Inl ValidationError else Inr True))
      | _ \<Rightarrow> Inl ValidationError)"

fun managed_ranges :: "pool \<Rightarrow> range_name list \<Rightarrow> (posix_error, range_name list) result" where
  "managed_ranges p [] = Inr []"
| "managed_ranges p (r # rs) =
     rbind (check_bounds p r) (\<lambda>b.
       rbind (managed_ranges p rs) (\<lambda>ms. Inr (if b then r # ms else ms)))"

definition overlaps :: "pool \<Rightarrow> range_name \<Rightarrow> pool \<Rightarrow> range_name \<Rightarrow> bool" where
  "overlaps p r q s \<longleftrightarrow>
     (case (pool_min r p, pool_max r p, pool_min s q, pool_max s q) of
        (Some mn, Some mx, Some mn', Some mx') \<Rightarrow> mn' \<le> mx \<and> mn \<le> mx'
      | _ \<Rightarrow> False)"

definition held_by_siblings :: "posix_db \<Rightarrow> pool \<Rightarrow> range_name \<Rightarrow> pool list \<Rightarrow> identity list" where
  "held_by_siblings db p r siblings =
     filter (\<lambda>i. ident_pool i \<in> set (map pool_pk siblings) \<and> active i \<and>
               (case ident_value (column r) i of None \<Rightarrow> False | Some v \<Rightarrow> in_range r p v))
       (identities db)"

definition check_foreign_identities ::
    "posix_db \<Rightarrow> pool \<Rightarrow> range_name list \<Rightarrow> pool list \<Rightarrow> (posix_error, unit) result" where
  "check_foreign_identities db p managed siblings =
     guard_result (list_all (\<lambda>r. held_by_siblings db p r siblings = []) managed) ValidationError"

text \<open>\<open>self_pk\<close> is \<open>pool.pk\<close>, \<open>None\<close> for a pool that has not been saved.\<close>

definition validate_pool :: "posix_db \<Rightarrow> nat option \<Rightarrow> pool \<Rightarrow> (posix_error, unit) result" where
  "validate_pool db self_pk p =
     rbind (guard_result ((service_provider p \<noteq> None) \<noteq> (pool_offering p \<noteq> None)) ValidationError) (\<lambda>_.
     rbind (managed_ranges p RANGES) (\<lambda>managed.
     rbind (guard_result (list_ex (\<lambda>ns. Own ns \<in> set managed) NAMESPACES) ValidationError) (\<lambda>_.
     rbind (guard_result (\<not> (GROUP_GID \<in> set managed \<and> pool_offering p \<noteq> None)) ValidationError) (\<lambda>_.
     rbind (guard_result (\<not> (Own GID \<in> set managed \<and> GROUP_GID \<in> set managed \<and>
                overlaps p GROUP_GID p (Own GID))) ValidationError) (\<lambda>_.
     (case pool_customer db p of
        None \<Rightarrow> Inl ValueError
      | Some customer_id \<Rightarrow>
          (let siblings = filter (\<lambda>q. self_pk \<noteq> Some (pool_pk q)) (provider_pools db customer_id)
           in rbind (guard_result
                (list_all (\<lambda>r. list_all (\<lambda>other. column other \<noteq> column r \<or>
                     first_row (\<lambda>q. overlaps p r q other) siblings = None) RANGES) managed)
                ValidationError) (\<lambda>_.
              check_foreign_identities db p managed siblings))))))))"

subsection \<open>Creating and updating a pool\<close>

text \<open>
  \<open>attrs\<close> of the serializer: a bound absent from the request is \<open>None\<close>, a bound set to null
  is \<open>Some None\<close>.
\<close>

record pool_attrs =
  attr_min :: "range_name \<Rightarrow> int option option"
  attr_max :: "range_name \<Rightarrow> int option option"

definition attr_field :: "'a option option \<Rightarrow> 'a option \<Rightarrow> 'a option" where
  "attr_field attr current = (case attr of Some v \<Rightarrow> v | None \<Rightarrow> current)"

definition clamp_next :: "int option \<Rightarrow> int option \<Rightarrow> int option \<Rightarrow> int option" where
  "clamp_next new_min new_max current =
     (case (new_min, new_max) of
        (Some mn, Some mx) \<Rightarrow>
          (let base = (case current of Some c \<Rightarrow> c | None \<Rightarrow> mn)
           in Some (min (max base mn) (mx + 1)))
      | _ \<Rightarrow> None)"

definition candidate_pool :: "pool \<Rightarrow> pool_attrs \<Rightarrow> pool" where
  "candidate_pool p a =
     (let mn = (\<lambda>r. attr_field (attr_min a r) (pool_min r p));
          mx = (\<lambda>r. attr_field (attr_max a r) (pool_max r p));
          nx = (\<lambda>r. clamp_next (mn r) (mx r) (pool_next r p))
      in p\<lparr>min_uid := mn (Own UID), max_uid := mx (Own UID), next_uid := nx (Own UID),
           min_gid := mn (Own GID), max_gid := mx (Own GID), next_gid := nx (Own GID),
           min_group_gid := mn GROUP_GID, max_group_gid := mx GROUP_GID,
           next_group_gid := nx GROUP_GID\<rparr>)"

text \<open>Values of \<open>ns\<close> that the old bounds of the pool contained and the new ones leave out.\<close>

definition pushed_out :: "posix_db \<Rightarrow> pool \<Rightarrow> pool \<Rightarrow> namespace \<Rightarrow> identity list" where
  "pushed_out db old new ns =
     (let ranges = filter (\<lambda>r. column r = ns) RANGES
      in filter (\<lambda>i. case ident_value ns i of
             None \<Rightarrow> False
           | Some v \<Rightarrow> list_ex (\<lambda>r. in_range r old v) ranges \<and>
                       \<not> list_ex (\<lambda>r. in_range r new v) ranges)
           (active_rows db old ns))"

definition check_allocated_values ::
    "posix_db \<Rightarrow> pool \<Rightarrow> pool \<Rightarrow> (posix_error, unit) result" where
  "check_allocated_values db old new =
     guard_result (list_all (\<lambda>ns. pushed_out db old new ns = []) NAMESPACES) ValidationError"

definition scope_taken :: "posix_db \<Rightarrow> pool \<Rightarrow> bool" where
  "scope_taken db p \<longleftrightarrow>
     (case service_provider p of
        Some sp \<Rightarrow> first_row (\<lambda>q. service_provider q = Some sp) (pools db) \<noteq> None
      | None \<Rightarrow> first_row (\<lambda>q. pool_offering q = pool_offering p) (pools db) \<noteq> None)"

text \<open>
  Creation: the counters start at the lower bounds.  \<open>pk\<close> is the primary key the database
  assigns; a key that is in use is an integrity error.
\<close>

definition create_pool :: "posix_db \<Rightarrow> nat \<Rightarrow> pool \<Rightarrow> (posix_error, posix_db) result" where
  "create_pool db pk p =
     rbind (guard_result ((service_provider p \<noteq> None) \<noteq> (pool_offering p \<noteq> None)) ValidationError) (\<lambda>_.
     rbind (guard_result (\<not> scope_taken db p) ValidationError) (\<lambda>_.
     (let new = p\<lparr>pool_pk := pk, next_uid := min_uid p, next_gid := min_gid p,
                  next_group_gid := min_group_gid p\<rparr>
      in rbind (validate_pool db None new) (\<lambda>_.
           if pool_constraints new \<and> pk \<notin> set (map pool_pk (pools db))
           then Inr (db\<lparr>pools := pools db @ [new]\<rparr>)
           else Inl IntegrityError))))"

text \<open>
  Update: \<open>inst\<close> is the row as the request loaded it, so its counters and bounds may be stale;
  the checks and the write happen under the provider's and the pool's locks.
\<close>

definition update_pool :: "posix_db \<Rightarrow> pool \<Rightarrow> pool_attrs \<Rightarrow> (posix_error, posix_db) result" where
  "update_pool db inst a =
     (let new = candidate_pool inst a
      in rbind (validate_pool db (Some (pool_pk inst)) new) (\<lambda>_.
         rbind (get_pool db (pool_pk inst)) (\<lambda>_.
         rbind (check_allocated_values db inst new) (\<lambda>_.
           if pool_constraints new
           then Inr (save_pool db (pool_pk inst) (\<lambda>_. new))
           else Inl IntegrityError))))"

subsection \<open>Project groups\<close>

definition group_row :: "project_group \<Rightarrow> principal" where
  "group_row g = Row_principal CT_project_group (pg_pk g)"

definition save_group_gid :: "posix_db \<Rightarrow> project_group \<Rightarrow> int \<Rightarrow> posix_db" where
  "save_group_gid db g v =
     db\<lparr>project_groups :=
          update_rows (\<lambda>h. pg_pk h = pg_pk g) (\<lambda>h. h\<lparr>pg_gid := Some v\<rparr>) (project_groups db)\<rparr>"

text \<open>Write \<open>value\<close> on the group's row: on \<open>i\<close> when there is one, else on a new row.\<close>

definition write_group_identity ::
    "posix_db \<Rightarrow> pool \<Rightarrow> project_group \<Rightarrow> identity option \<Rightarrow> int \<Rightarrow> timestamp
     \<Rightarrow> (posix_error, posix_db) result" where
  "write_group_identity db p g io v now =
     (case io of
        Some i \<Rightarrow> save_identity db (set_ident_value GID (Some v) i)
      | None \<Rightarrow>
          rbind (create_identity db
                   (set_ident_value GID (Some v) (blank_identity (pool_pk p) (group_row g) None now)))
            (\<lambda>(_, db'). Inr db'))"

definition release_row :: "timestamp \<Rightarrow> identity \<Rightarrow> identity" where
  "release_row now i = i\<lparr>released_at := Some now, recyclable := False\<rparr>"

text \<open>
  The pin itself, under the pool's lock.  \<open>displace_gid\<close> retires the GID the group held before:
  the old row is released, or a released row is recorded for a GID that had no row; it returns
  the row that is left to carry the new value.
\<close>

definition group_holder :: "posix_db \<Rightarrow> project_group \<Rightarrow> int \<Rightarrow> identity option" where
  "group_holder db g v =
     (let pks = map pool_pk (provider_pools db (sp_customer db (pg_provider g)))
      in first_row (\<lambda>i. ident_pool i \<in> set pks \<and> active i \<and> ident_gid i = Some v \<and>
             \<not> owned_by (group_row g) i) (identities db))"

definition previous_gid :: "project_group \<Rightarrow> identity option \<Rightarrow> int option" where
  "previous_gid g io =
     (case io of
        Some i \<Rightarrow> (if ident_gid i \<noteq> None then ident_gid i else pg_gid g)
      | None \<Rightarrow> pg_gid g)"

definition displace_gid ::
    "posix_db \<Rightarrow> pool \<Rightarrow> project_group \<Rightarrow> identity option \<Rightarrow> timestamp
     \<Rightarrow> (posix_error, identity option \<times> posix_db) result" where
  "displace_gid db p g io now =
     (if (case io of None \<Rightarrow> False | Some i \<Rightarrow> ident_gid i \<noteq> None)
      then rbind (save_identity db (release_row now (the io))) (\<lambda>db1. Inr (None, db1))
      else case previous_gid g io of
             None \<Rightarrow> Inr (io, db)
           | Some w \<Rightarrow>
               rbind (create_identity db (release_row now (set_ident_value GID (Some w)
                        (blank_identity (pool_pk p) (group_row g) None now))))
                 (\<lambda>(_, db1). Inr (io, db1)))"

definition pin_group_gid ::
    "posix_db \<Rightarrow> pool \<Rightarrow> project_group \<Rightarrow> int \<Rightarrow> timestamp
     \<Rightarrow> (posix_error, int option \<times> posix_db) result" where
  "pin_group_gid db p g v now =
     rbind (guard_result (group_holder db g v = None) PosixIdValueConflict) (\<lambda>_.
       (let io = active_identity db p (group_row g);
            previous = previous_gid g io
        in if previous = Some v
           then (if io = None
                 then rbind (write_group_identity db p g None v now) (\<lambda>db1. Inr (previous, db1))
                 else Inr (previous, db))
           else rbind (displace_gid db p g io now) (\<lambda>(io', db1).
                  (case write_group_identity db1 p g io' v now of
                     Inl _ \<Rightarrow> Inl PosixIdValueConflict
                   | Inr db2 \<Rightarrow> Inr (previous, save_group_gid db2 g v)))))"

definition set_project_group_gid ::
    "posix_db \<Rightarrow> project_group \<Rightarrow> int \<Rightarrow> bool \<Rightarrow> timestamp
     \<Rightarrow> (posix_error, int option \<times> posix_db) result" where
  "set_project_group_gid db g v allow_outside_range now =
     (let po = provider_pool db (pg_provider g)
      in case (po, group_range po) of
           (Some p0, Some r) \<Rightarrow>
             rbind (guard_result (allow_outside_range \<or> in_range r p0 v) ValidationError) (\<lambda>_.
             rbind (guard_result
                      (list_all (\<lambda>s. first_row (\<lambda>q. in_range s q v)
                           (filter (\<lambda>q. pool_pk q \<noteq> pool_pk p0)
                              (provider_pools db (sp_customer db (pg_provider g)))) = None)
                         [Own GID, GROUP_GID]) ValidationError) (\<lambda>_.
             rbind (get_pool db (pool_pk p0)) (\<lambda>p. pin_group_gid db p g v now)))
         | _ \<Rightarrow> Inl ValidationError)"

definition release_project_group_gid :: "posix_db \<Rightarrow> project_group \<Rightarrow> timestamp \<Rightarrow> nat \<times> posix_db" where
  "release_project_group_gid db g now =
     update_identities db (\<lambda>i. owned_by (group_row g) i \<and> active i) (release_row now)"

definition register_gid ::
    "pool \<Rightarrow> timestamp \<Rightarrow> nat \<times> posix_db \<Rightarrow> project_group \<Rightarrow> (posix_error, nat \<times> posix_db) result" where
  "register_gid p now acc g =
     (case pg_gid g of
        None \<Rightarrow> Inr acc
      | Some v \<Rightarrow>
          (let held = (\<lambda>q. first_row (\<lambda>i. ident_pool i = pool_pk p \<and> active i \<and> q i)
                             (identities (snd acc)) \<noteq> None)
           in if held (owned_by (group_row g)) then Inr acc
              else if held (\<lambda>i. ident_gid i = Some v) then Inr acc
              else rbind (create_identity (snd acc) (set_ident_value GID (Some v)
                            (blank_identity (pool_pk p) (group_row g) None now)))
                     (\<lambda>(_, db'). Inr (fst acc + 1, db'))))"

definition register_existing_gids ::
    "posix_db \<Rightarrow> pool \<Rightarrow> timestamp \<Rightarrow> (posix_error, nat \<times> posix_db) result" where
  "register_existing_gids db p now =
     (case service_provider p of
        None \<Rightarrow> Inr (0, db)
      | Some sp \<Rightarrow>
          rfold (register_gid p now) (0, db)
            (filter (\<lambda>g. pg_provider g = sp \<and> pg_gid g \<noteq> None) (project_groups db)))"

text \<open>
  Creating a pool through the API: the \<open>post_save\<close> handler of the new row registers the GIDs
  of the provider's groups in the same transaction.
\<close>

definition create_pool_and_register ::
    "posix_db \<Rightarrow> nat \<Rightarrow> pool \<Rightarrow> timestamp \<Rightarrow> (posix_error, nat \<times> posix_db) result" where
  "create_pool_and_register db pk p now =
     rbind (create_pool db pk p) (\<lambda>db1.
       rbind (get_pool db1 pk) (\<lambda>new. register_existing_gids db1 new now))"

text \<open>
  A pool with active identities is not deleted (so none that holds a project group's GID is
  either); deleting one takes its released rows with it.
\<close>

definition delete_pool :: "posix_db \<Rightarrow> pool \<Rightarrow> (posix_error, posix_db) result" where
  "delete_pool db p =
     (if first_row (\<lambda>i. ident_pool i = pool_pk p \<and> active i) (identities db) \<noteq> None
      then Inl ValidationError
      else Inr (db\<lparr>pools := filter (\<lambda>q. pool_pk q \<noteq> pool_pk p) (pools db),
                   identities := filter (\<lambda>i. ident_pool i \<noteq> pool_pk p) (identities db)\<rparr>))"

subsection \<open>Releasing the identities of deleted accounts\<close>

definition pool_ids_still_in_use_by :: "posix_db \<Rightarrow> nat \<Rightarrow> nat list" where
  "pool_ids_still_in_use_by db user_id =
     List.map_filter (\<lambda>ou.
         (let off = offering_row db (ou_offering ou)
          in map_option pool_pk
               (if pool_sourced_namespaces off \<noteq> [] then resolve db off else None)))
       (filter (\<lambda>ou. ou_user ou = user_id) (offering_users db)) @
     List.map_filter (\<lambda>pa. map_option pool_pk (provider_pool db (pa_provider pa)))
       (filter (\<lambda>pa. pa_user pa = user_id) (provider_accounts db))"

definition release_user_allocations ::
    "posix_db \<Rightarrow> nat option \<Rightarrow> bool \<Rightarrow> timestamp \<Rightarrow> nat \<times> posix_db" where
  "release_user_allocations db user_id recyc now =
     (case user_id of
        None \<Rightarrow> (0, db)
      | Some u \<Rightarrow>
          (if first_row (\<lambda>i. ident_user i = Some u \<and> active i) (identities db) = None then (0, db)
           else (let keep = pool_ids_still_in_use_by db u
                 in update_identities db
                      (\<lambda>i. ident_user i = Some u \<and> active i \<and> ident_pool i \<notin> set keep)
                      (\<lambda>i. i\<lparr>released_at := Some now, recyclable := recyc\<rparr>))))"

definition release_posix_allocations :: "posix_db \<Rightarrow> consumer \<Rightarrow> timestamp \<Rightarrow> nat \<times> posix_db" where
  "release_posix_allocations db c now =
     (let (count, db1) = update_identities db
            (\<lambda>i. owned_by (Row_principal (content_type_of c) (consumer_pk c)) i \<and> active i)
            (\<lambda>i. i\<lparr>released_at := Some now\<rparr>)
      in case base_account_user c of
           None \<Rightarrow> (count, db1)
         | Some u \<Rightarrow>
             (let (more, db2) = release_user_allocations db1 (Some u) True now
              in (count + more, db2)))"

subsection \<open>Statistics and advisories\<close>

record range_stats =
  st_min :: int
  st_max :: int
  st_next :: int
  st_capacity :: int
  st_used :: nat

definition get_pool_stats :: "posix_db \<Rightarrow> pool \<Rightarrow> range_name \<Rightarrow> range_stats option" where
  "get_pool_stats db p r =
     (case (pool_min r p, pool_max r p, pool_next r p) of
        (Some mn, Some mx, Some nx) \<Rightarrow>
          Some \<lparr>st_min = mn, st_max = mx, st_next = nx, st_capacity = mx - mn + 1,
                st_used = count_rows (\<lambda>i. ident_pool i = pool_pk p \<and> active i \<and>
                    (case ident_value (column r) i of None \<Rightarrow> False | Some v \<Rightarrow> mn \<le> v \<and> v \<le> mx))
                  (identities db)\<rparr>
      | _ \<Rightarrow> None)"

datatype advisory = Reserved_id | Above_signed_int32

definition NOBODY_ID :: int where "NOBODY_ID = 65534"
definition INT16_MINUS_ONE :: int where "INT16_MINUS_ONE = 65535"
definition SIGNED_INT32_MAX :: int where "SIGNED_INT32_MAX = 2 ^ 31 - 1"

definition posix_value_advisories :: "int \<Rightarrow> advisory list" where
  "posix_value_advisories v =
     (if v = NOBODY_ID \<or> v = INT16_MINUS_ONE then [Reserved_id]
      else if v > SIGNED_INT32_MAX then [Above_signed_int32]
      else [])"

end
