(* ===== verification/Posix_Maintenance.thy ===== *)
theory Posix_Maintenance
  imports Posix_Ops "HOL-Library.Product_Lexorder"
begin

text \<open>
  Operator-driven maintenance, \<^verbatim>\<open>src/waldur_mastermind/marketplace/posix_maintenance.py\<close>, and
  the account projection it keeps in step with the identity table: \<open>backend_metadata\<close> of an
  offering user holds a copy of the UID (\<open>ou_uidnumber\<close>) and of the primary GID
  (\<open>ou_primarygroup\<close>).  Collapse gives every user one identity per pool; re-point moves the
  accounts of an offering onto the offering's own pool.
\<close>

subsection \<open>The projection of an identity into the accounts\<close>

fun meta_value :: "namespace \<Rightarrow> offering_user \<Rightarrow> int option" where
  "meta_value UID ou = ou_uidnumber ou"
| "meta_value GID ou = ou_primarygroup ou"

fun set_meta :: "namespace \<Rightarrow> int \<Rightarrow> offering_user \<Rightarrow> offering_user" where
  "set_meta UID v ou = ou\<lparr>ou_uidnumber := Some v\<rparr>"
| "set_meta GID v ou = ou\<lparr>ou_primarygroup := Some v\<rparr>"

record change =
  ch_offering_user :: nat
  ch_namespace :: namespace
  ch_old_value :: "int option"
  ch_new_value :: int

fun target_value :: "int option \<Rightarrow> int option \<Rightarrow> namespace \<Rightarrow> int option" where
  "target_value uid gid UID = uid"
| "target_value uid gid GID = gid"

definition metadata_change ::
    "posix_db \<Rightarrow> offering_user \<Rightarrow> int option \<Rightarrow> int option \<Rightarrow> namespace \<Rightarrow> change option" where
  "metadata_change db ou uid gid ns =
     (case target_value uid gid ns of
        None \<Rightarrow> None
      | Some new_value \<Rightarrow>
          (if ns \<notin> set (pool_sourced_namespaces (offering_row db (ou_offering ou))) then None
           else if meta_value ns ou = Some new_value then None
           else Some \<lparr>ch_offering_user = ou_pk ou, ch_namespace = ns,
                      ch_old_value = meta_value ns ou, ch_new_value = new_value\<rparr>))"

definition metadata_changes ::
    "posix_db \<Rightarrow> offering_user \<Rightarrow> int option \<Rightarrow> int option \<Rightarrow> change list" where
  "metadata_changes db ou uid gid = List.map_filter (metadata_change db ou uid gid) NAMESPACES"

definition changed_metadata :: "offering_user \<Rightarrow> change list \<Rightarrow> offering_user" where
  "changed_metadata ou changes =
     fold (\<lambda>c. set_meta (ch_namespace c) (ch_new_value c)) changes ou"

text \<open>\<open>save(update_fields=["backend_metadata"])\<close>: only that column of the row is written.\<close>

definition apply_metadata_changes :: "posix_db \<Rightarrow> offering_user \<Rightarrow> change list \<Rightarrow> posix_db" where
  "apply_metadata_changes db ou changes =
     (let ou' = changed_metadata ou changes
      in db\<lparr>offering_users :=
             update_rows (\<lambda>o'. ou_pk o' = ou_pk ou)
               (\<lambda>o'. o'\<lparr>ou_uidnumber := ou_uidnumber ou', ou_primarygroup := ou_primarygroup ou'\<rparr>)
               (offering_users db)\<rparr>)"

definition offering_users_in_pool :: "posix_db \<Rightarrow> nat \<Rightarrow> pool \<Rightarrow> offering_user list" where
  "offering_users_in_pool db user_id p =
     filter (\<lambda>ou. ou_user ou = user_id \<and>
               pool_sourced_namespaces (offering_row db (ou_offering ou)) \<noteq> [] \<and>
               (case resolve db (offering_row db (ou_offering ou)) of
                  None \<Rightarrow> False
                | Some q \<Rightarrow> pool_pk q = pool_pk p))
       (offering_users db)"

definition project_one ::
    "int option \<Rightarrow> int option \<Rightarrow> offering_user \<Rightarrow> change list \<times> posix_db \<Rightarrow> change list \<times> posix_db" where
  "project_one uid gid ou acc =
     (let (chs, db) = acc; new = metadata_changes db ou uid gid
      in if new = [] then (chs, db) else (chs @ new, apply_metadata_changes db ou new))"

definition project_shared_values ::
    "posix_db \<Rightarrow> offering_user \<Rightarrow> pool \<Rightarrow> change list \<times> posix_db" where
  "project_shared_values db ou p =
     (case active_identity db p (principal_filter (OfferingUser (ou_pk ou) (ou_user ou))) of
        None \<Rightarrow> ([], db)
      | Some i \<Rightarrow>
          fold (project_one (ident_uid i) (ident_gid i))
            (filter (\<lambda>s. ou_pk s \<noteq> ou_pk ou) (offering_users_in_pool db (ou_user ou) p))
            ([], db))"

subsection \<open>Collapse\<close>

definition looks_pinned :: "pool \<Rightarrow> identity \<Rightarrow> bool" where
  "looks_pinned p i =
     list_ex (\<lambda>ns. case (ident_value ns i, pool_next (Own ns) p) of
                     (Some v, Some nx) \<Rightarrow> v \<ge> nx
                   | _ \<Rightarrow> False) NAMESPACES"

text \<open>The user an active identity stands for; \<open>None\<close> for robot accounts and groups.\<close>

definition owner_of :: "posix_db \<Rightarrow> identity \<Rightarrow> nat option" where
  "owner_of db i =
     (case ident_user i of
        Some u \<Rightarrow> Some u
      | None \<Rightarrow>
          (if ident_content_type i \<noteq> Some CT_offering_user then None
           else map_option ou_user
                  (first_row (\<lambda>ou. Some (ou_pk ou) = ident_object_id i) (offering_users db))))"

record collapse_group =
  cg_pool :: pool
  cg_user :: nat
  cg_canonical :: identity
  cg_superseded :: "identity list"
  cg_changes :: "change list"
  cg_review :: bool   \<comment> \<open>more than one identity looks pinned\<close>

definition rows_of_user :: "posix_db \<Rightarrow> pool \<Rightarrow> nat \<Rightarrow> identity list" where
  "rows_of_user db p u =
     sort_key (\<lambda>i. (ident_created i, ident_pk i))
       (filter (\<lambda>i. ident_pool i = pool_pk p \<and> active i \<and> owner_of db i = Some u) (identities db))"

definition plan_user :: "posix_db \<Rightarrow> pool \<Rightarrow> nat \<Rightarrow> collapse_group option" where
  "plan_user db p u =
     (case rows_of_user db p u of
        [] \<Rightarrow> None
      | first # rest \<Rightarrow>
          (let rows = first # rest;
               pinned = filter (looks_pinned p) rows;
               canonical = (case pinned of i # _ \<Rightarrow> i | [] \<Rightarrow> first);
               superseded = filter (\<lambda>i. ident_pk i \<noteq> ident_pk canonical) rows;
               changes = concat (map (\<lambda>ou. metadata_changes db ou (ident_uid canonical) (ident_gid canonical))
                           (offering_users_in_pool db u p))
           in if superseded = [] \<and> changes = [] \<and> ident_user canonical \<noteq> None then None
              else Some \<lparr>cg_pool = p, cg_user = u, cg_canonical = canonical,
                         cg_superseded = superseded, cg_changes = changes,
                         cg_review = length pinned > 1\<rparr>))"

definition users_of_pool :: "posix_db \<Rightarrow> pool \<Rightarrow> nat list" where
  "users_of_pool db p =
     remdups (List.map_filter (\<lambda>i. if ident_pool i = pool_pk p \<and> active i then owner_of db i else None)
       (identities db))"

definition plan_collapse :: "posix_db \<Rightarrow> pool list \<Rightarrow> collapse_group list" where
  "plan_collapse db ps =
     concat (map (\<lambda>p. List.map_filter (plan_user db p) (users_of_pool db p)) ps)"

definition apply_change_rows :: "change list \<Rightarrow> nat \<Rightarrow> posix_db \<Rightarrow> posix_db" where
  "apply_change_rows changes k db =
     (case first_row (\<lambda>ou. ou_pk ou = k) (offering_users db) of
        None \<Rightarrow> db
      | Some ou \<Rightarrow> apply_metadata_changes db ou (filter (\<lambda>c. ch_offering_user c = k) changes))"

definition claim_for_user :: "posix_db \<Rightarrow> identity \<Rightarrow> nat \<Rightarrow> (posix_error, posix_db) result" where
  "claim_for_user db canonical u =
     (if ident_user canonical \<noteq> None then Inr db
      else case first_row (\<lambda>i. ident_pk i = ident_pk canonical) (identities db) of
             None \<Rightarrow> Inl DoesNotExist
           | Some i \<Rightarrow>
               save_identity db
                 (i\<lparr>ident_user := Some u, ident_content_type := None, ident_object_id := None\<rparr>))"

definition apply_group :: "posix_db \<Rightarrow> collapse_group \<Rightarrow> timestamp \<Rightarrow> (posix_error, posix_db) result" where
  "apply_group db g now =
     (let (_, db1) = update_identities db
            (\<lambda>i. ident_pk i \<in> set (map ident_pk (cg_superseded g))) (release_row now)
      in rbind (claim_for_user db1 (cg_canonical g) (cg_user g)) (\<lambda>db2.
           Inr (fold (apply_change_rows (cg_changes g))
                  (remdups (map ch_offering_user (cg_changes g))) db2)))"

text \<open>Each group is a transaction of its own: an error stops the run after the groups done.\<close>

fun apply_collapse ::
    "posix_db \<Rightarrow> collapse_group list \<Rightarrow> timestamp \<Rightarrow> posix_error option \<times> posix_db" where
  "apply_collapse db [] now = (None, db)"
| "apply_collapse db (g # gs) now =
     (case apply_group db g now of
        Inl e \<Rightarrow> (Some e, db)
      | Inr db' \<Rightarrow> apply_collapse db' gs now)"

subsection \<open>Re-point\<close>

definition holds_a_namespace_outside :: "posix_db \<Rightarrow> nat \<Rightarrow> pool \<Rightarrow> bool" where
  "holds_a_namespace_outside db u p =
     (let unmanaged = filter (\<lambda>ns. \<not> manages (Own ns) p) NAMESPACES
      in list_ex (\<lambda>i. ident_user i = Some u \<and> active i \<and> ident_pool i \<noteq> pool_pk p \<and>
                    list_ex (\<lambda>ns. ident_value ns i \<noteq> None) unmanaged) (identities db))"

definition consumers_left_behind :: "posix_db \<Rightarrow> nat \<Rightarrow> pool \<Rightarrow> (content_type \<times> identity) list" where
  "consumers_left_behind db off p =
     concat (map (\<lambda>ct. map (\<lambda>i. (ct, i))
         (filter (\<lambda>i. ident_content_type i = Some ct \<and> active i \<and> ident_offering i = Some off \<and>
                      ident_pool i \<noteq> pool_pk p) (identities db)))
       [CT_robot_account, CT_offering_user_group, CT_offering_role_group])"

text \<open>One account: allocate in both namespaces, then rewrite the account's projection.\<close>

definition repoint_account ::
    "offering \<Rightarrow> timestamp \<Rightarrow> change list \<times> posix_db \<Rightarrow> offering_user
     \<Rightarrow> (posix_error, change list \<times> posix_db) result" where
  "repoint_account off now acc ou =
     (let (chs, db) = acc; c = OfferingUser (ou_pk ou) (ou_user ou)
      in rbind (allocate db off UID c now) (\<lambda>(uid, db1).
         rbind (allocate db1 off GID c now) (\<lambda>(gid, db2).
           (let new = metadata_changes db2 ou uid gid
            in if new = [] then Inr (chs, db2)
               else Inr (chs @ new, apply_metadata_changes db2 ou new)))))"

definition release_left :: "pool \<Rightarrow> timestamp \<Rightarrow> nat \<Rightarrow> nat \<times> nat \<times> posix_db \<Rightarrow> nat \<times> nat \<times> posix_db" where
  "release_left p now u acc =
     (let (released, retained, db) = acc
      in if holds_a_namespace_outside db u p then (released, Suc retained, db)
         else let (n, db1) = release_user_allocations db (Some u) False now
              in (released + n, retained, db1))"

record repoint_result =
  rp_changes :: "change list"
  rp_released :: nat
  rp_retained :: nat
  rp_other_consumers :: "(content_type \<times> identity) list"

definition repoint :: "posix_db \<Rightarrow> pool \<Rightarrow> timestamp \<Rightarrow> (posix_error, repoint_result \<times> posix_db) result" where
  "repoint db p now =
     (case pool_offering p of
        None \<Rightarrow> Inl ValueError
      | Some o' \<Rightarrow>
          (let accounts = filter (\<lambda>ou. ou_offering ou = o') (offering_users db)
           in rbind (rfold (repoint_account (offering_row db o') now) ([], db) accounts) (\<lambda>(chs, db1).
                (let (released, retained, db2) =
                       fold (release_left p now) (remdups (map ou_user accounts)) (0, 0, db1)
                 in Inr (\<lparr>rp_changes = chs, rp_released = released, rp_retained = retained,
                          rp_other_consumers = consumers_left_behind db2 o' p\<rparr>, db2)))))"

text \<open>The preview runs the move and rolls it back.\<close>

definition plan_repoint :: "posix_db \<Rightarrow> pool \<Rightarrow> timestamp \<Rightarrow> (posix_error, repoint_result) result \<times> posix_db" where
  "plan_repoint db p now =
     (case repoint db p now of
        Inl e \<Rightarrow> (Inl e, db)
      | Inr (res, _) \<Rightarrow> (Inr res, db))"

definition apply_repoint ::
    "posix_db \<Rightarrow> pool \<Rightarrow> timestamp \<Rightarrow> (posix_error, repoint_result) result \<times> posix_db" where
  "apply_repoint db p now =
     (case repoint db p now of
        Inl e \<Rightarrow> (Inl e, db)
      | Inr (res, db') \<Rightarrow> (Inr res, db'))"

end
