(* ===== verification/Posix_Provider.thy ===== *)
theory Posix_Provider
  imports Posix_Maintenance
begin

text \<open>
  The guarantee of the allocator across all pools of one service provider.  \<open>claims db p ns\<close> is
  every number pool \<open>p\<close> has in use, or may still hand out, in a column; the invariant says that
  two pools of one provider never claim the same number.  \<open>posix_step\<close> collects the operations
  of \<open>Posix_Alloc\<close>, \<open>Posix_Ops\<close> and \<open>Posix_Maintenance\<close>, and every run of them keeps it.
\<close>

subsection \<open>The invariant\<close>

definition range_values :: "pool \<Rightarrow> namespace \<Rightarrow> int set" where
  "range_values p ns = {v. \<exists>r. column r = ns \<and> in_range r p v}"

definition claims :: "posix_db \<Rightarrow> pool \<Rightarrow> namespace \<Rightarrow> int set" where
  "claims db p ns = range_values p ns \<union> in_use db (pool_pk p) ns"

definition is_group_row :: "identity \<Rightarrow> bool" where
  "is_group_row i \<longleftrightarrow> active i \<and> ident_content_type i = Some CT_project_group"

definition group_pools :: "posix_db \<Rightarrow> nat set" where
  "group_pools db = ident_pool ` {i \<in> set (identities db). is_group_row i}"

definition siblings :: "posix_db \<Rightarrow> pool \<Rightarrow> pool \<Rightarrow> bool" where
  "siblings db p q \<longleftrightarrow> pool_pk p \<noteq> pool_pk q \<and> pool_customer db p = pool_customer db q"

definition provider_inv :: "posix_db \<Rightarrow> bool" where
  "provider_inv db \<longleftrightarrow>
     table_ok db \<and> inj (sp_customer db) \<and>
     (\<forall>p\<in>set (pools db). \<forall>q\<in>set (pools db). siblings db p q \<longrightarrow>
        (\<forall>ns. claims db p ns \<inter> claims db q ns = {})) \<and>
     (\<forall>p\<in>set (pools db). pool_pk p \<in> group_pools db \<longrightarrow> service_provider p \<noteq> None)"

lemma provider_invD:
  assumes "provider_inv db"
  shows "table_ok db" "inj (sp_customer db)"
    "\<And>p q ns. p \<in> set (pools db) \<Longrightarrow> q \<in> set (pools db) \<Longrightarrow> siblings db p q \<Longrightarrow>
       claims db p ns \<inter> claims db q ns = {}"
    "\<And>p. p \<in> set (pools db) \<Longrightarrow> pool_pk p \<in> group_pools db \<Longrightarrow> service_provider p \<noteq> None"
  using assms unfolding provider_inv_def by blast+

lemma range_values_static: "static p = static q \<Longrightarrow> range_values p ns = range_values q ns"
  unfolding range_values_def using static_eqD(7) by blast

lemma pool_scope:
  assumes "table_ok db" "p \<in> set (pools db)"
  shows "(service_provider p \<noteq> None) \<noteq> (pool_offering p \<noteq> None)"
  using assms by (auto simp: table_ok_def pools_ok_def pool_constraints_def)

text \<open>The pools of a provider, as \<open>_provider_pools\<close> lists them.\<close>

lemma provider_pools_iff:
  assumes "table_ok db" "p \<in> set (pools db)"
  shows "p \<in> set (provider_pools db c) \<longleftrightarrow> pool_customer db p = Some c"
  using pool_scope [OF assms] assms(2)
  by (auto simp: provider_pools_def pool_customer_def split: option.splits)

text \<open>A provider has one pool of its own: its customer has one provider profile.\<close>

lemma one_default_pool:
  assumes "provider_inv db" "p \<in> set (pools db)" "q \<in> set (pools db)"
    and "service_provider p \<noteq> None" "service_provider q \<noteq> None"
    and "pool_customer db p = pool_customer db q"
  shows "p = q"
proof -
  obtain sp sq where s: "service_provider p = Some sp" "service_provider q = Some sq"
    using assms(4,5) by blast
  then have "sp_customer db sp = sp_customer db sq"
    using assms(6) by (simp add: pool_customer_def)
  then have "sp = sq" using provider_invD(2) [OF assms(1)] by (simp add: inj_eq)
  then have "service_provider p = service_provider q" using s by simp
  moreover have "pools_ok (pools db)" using provider_invD(1) [OF assms(1)] by (simp add: table_ok_def)
  ultimately show ?thesis using assms(2-4) unfolding pools_ok_def by blast
qed

text \<open>
  The shape every operation on identities has: pool rows keep their scope and bounds, the values
  added are among \<open>V\<close>, in column \<open>ns\<close> of pool \<open>p\<close>, and group rows appear in provider pools only.
\<close>

definition adds_at_most :: "posix_db \<Rightarrow> pool \<Rightarrow> namespace \<Rightarrow> int set \<Rightarrow> posix_db \<Rightarrow> bool" where
  "adds_at_most db p ns V db' \<longleftrightarrow>
     table_ok db' \<and> pools_frame db db' \<and>
     (\<forall>pk m. in_use db' pk m \<subseteq>
        (if pk = pool_pk p \<and> m = ns then V \<union> in_use db pk m else in_use db pk m)) \<and>
     group_pools db' \<subseteq> group_pools db \<union> (if service_provider p = None then {} else {pool_pk p})"

lemma siblings_frame:
  assumes "pools_frame db db'" "static p' = static p" "static q' = static q"
  shows "siblings db' p' q' \<longleftrightarrow> siblings db p q"
  using assms pool_customer_static [OF assms(1)] static_eqD(1) [OF assms(2)] static_eqD(1) [OF assms(3)]
  by (simp add: siblings_def)

lemma siblings_sym: "siblings db p q \<Longrightarrow> siblings db q p"
  by (auto simp: siblings_def)

lemma provider_inv_add:
  assumes inv: "provider_inv db" and p: "p \<in> set (pools db)"
    and add: "adds_at_most db p ns V db'"
    and free: "\<And>q. q \<in> set (pools db) \<Longrightarrow> siblings db p q \<Longrightarrow> V \<inter> claims db q ns = {}"
  shows "provider_inv db'"
  unfolding provider_inv_def
proof (intro conjI ballI impI allI)
  have frame: "pools_frame db db'" and grow: "\<And>pk m. in_use db' pk m \<subseteq>
        (if pk = pool_pk p \<and> m = ns then V \<union> in_use db pk m else in_use db pk m)"
    using add by (auto simp: adds_at_most_def)
  have pk_inj: "a = b" if "a \<in> set (pools db)" "b \<in> set (pools db)" "pool_pk a = pool_pk b" for a b
    using that distinct_key_eq [of pool_pk "pools db"] provider_invD(1) [OF inv]
    by (auto simp: table_ok_def pools_ok_def)
  show "table_ok db'" using add by (simp add: adds_at_most_def)
  show "inj (sp_customer db')" using frame provider_invD(2) [OF inv] by (simp add: pools_frame_def)
  {
    fix a' b' m
    assume ab: "a' \<in> set (pools db')" "b' \<in> set (pools db')" "siblings db' a' b'"
    obtain a where a: "a \<in> set (pools db)" "static a' = static a" using frame ab(1) by (rule pools_frame_row)
    obtain b where b: "b \<in> set (pools db)" "static b' = static b" using frame ab(2) by (rule pools_frame_row)
    have sib: "siblings db a b" using ab(3) siblings_frame [OF frame a(2) b(2)] by simp
    have old: "claims db a m \<inter> claims db b m = {}" using inv a(1) b(1) sib by (rule provider_invD(3))
    have grown: "claims db' c' m \<subseteq> (if c = p \<and> m = ns then V \<union> claims db c m else claims db c m)"
      if "c \<in> set (pools db)" "static c' = static c" for c c'
      using that grow [of "pool_pk c" m] range_values_static [OF that(2)] static_eqD(1) [OF that(2)]
        pk_inj [OF that(1) p] by (auto simp: claims_def split: if_splits)
    have "V \<inter> claims db b ns = {}" if "a = p" using free b(1) sib that by blast
    moreover have "V \<inter> claims db a ns = {}" if "b = p" using free a(1) siblings_sym [OF sib] that by blast
    moreover have "a \<noteq> b" using sib by (auto simp: siblings_def)
    ultimately show "claims db' a' m \<inter> claims db' b' m = {}"
      using grown [OF a] grown [OF b] old by (auto split: if_splits)
  }
  {
    fix a' assume a': "a' \<in> set (pools db')" "pool_pk a' \<in> group_pools db'"
    obtain a where a: "a \<in> set (pools db)" "static a' = static a" using frame a'(1) by (rule pools_frame_row)
    have "pool_pk a \<in> group_pools db \<or> a = p \<and> service_provider p \<noteq> None"
      using a'(2) add static_eqD(1) [OF a(2)] pk_inj [OF a(1) p]
      by (auto simp: adds_at_most_def split: if_splits)
    then show "service_provider a' \<noteq> None"
      using provider_invD(4) [OF inv a(1)] static_eqD(2) [OF a(2)] by auto
  }
qed

text \<open>A value the pool claims already is claimed by no sibling.\<close>

lemma provider_inv_add_claimed:
  assumes "provider_inv db" "p \<in> set (pools db)" "adds_at_most db p ns {v} db'" "v \<in> claims db p ns"
  shows "provider_inv db'"
  using assms(1-3)
proof (rule provider_inv_add)
  fix q assume "q \<in> set (pools db)" "siblings db p q"
  then show "{v} \<inter> claims db q ns = {}" using provider_invD(3) [OF assms(1,2), of q ns] assms(4) by blast
qed

lemma in_range_claims: "in_range r p v \<Longrightarrow> v \<in> claims db p (column r)"
  by (auto simp: claims_def range_values_def)

subsection \<open>Rows an operation writes belong to one principal\<close>

definition rows_of ::  "nat \<Rightarrow> principal \<Rightarrow> posix_db \<Rightarrow> posix_db \<Rightarrow> bool" where
  "rows_of pk pr db db' \<longleftrightarrow>
     (\<forall>i\<in>set (identities db'). i \<in> set (identities db) \<or> ident_pool i = pk \<and> owned_by pr i)"

lemma rows_of_refl [simp]: "rows_of pk pr db db"
  by (simp add: rows_of_def)

lemma rows_of_trans: "rows_of pk pr a b \<Longrightarrow> rows_of pk pr b c \<Longrightarrow> rows_of pk pr a c"
  by (auto simp: rows_of_def)

lemma rows_of_create:
  assumes "create_identity db i = Inr (i', db')" "ident_pool i = pk" "owned_by pr i"
  shows "rows_of pk pr db db'"
proof -
  have "owned_by pr (i\<lparr>ident_pk := n\<rparr>)" for n
    using assms(3) by (simp add: owned_by_def split: principal.splits)
  then show ?thesis
    using assms by (auto simp: create_identity_def Let_def rows_of_def split: if_splits)
qed

lemma rows_of_save:
  assumes "save_identity db i = Inr db'" "ident_pool i = pk" "owned_by pr i"
  shows "rows_of pk pr db db'"
proof -
  have "identities db' = update_rows (\<lambda>j. ident_pk j = ident_pk i) (\<lambda>_. i) (identities db)"
    using assms(1) by (auto simp: save_identity_def split: if_splits)
  then show ?thesis using assms(2,3) by (auto simp: rows_of_def db_simps)
qed

lemma rows_of_got: "got_row db db1 p pr i \<Longrightarrow> rows_of (pool_pk p) pr db db1"
  by (auto simp: got_row_def rows_of_def)

lemma next_value_identities:
  "next_value db p r recycle = Inr (x, db') \<Longrightarrow> identities db' = identities db"
  unfolding next_value_def
  by (cases "candidate_value db p r recycle") (auto split: option.splits if_splits prod.splits)

lemma rows_of_allocate_locked:
  assumes "table_ok db" "p \<in> set (pools db)"
    and "allocate_locked db (pool_pk p) r pr oid recycle now = Inr (v, db')"
  shows "rows_of (pool_pk p) pr db db'"
proof -
  note g = get_pool_row [OF assms(1,2)]
  obtain i db1 where c: "get_or_create_active_identity db pr p oid now = Inr (i, db1)"
      and got: "got_row db db1 p pr i"
    using assms(1,2) by (rule get_or_create_total)
  have 1: "rows_of (pool_pk p) pr db db1" using got by (rule rows_of_got)
  show ?thesis
  proof (cases "ident_value (column r) i")
    case (Some w)
    then show ?thesis using assms(3) 1 by (simp add: allocate_locked_def g c)
  next
    case None
    then obtain w db2 where n: "next_value db1 p r recycle = Inr (Some w, db2)"
        and s: "save_identity db2 (set_ident_value (column r) (Some w) i) = Inr db'"
      using assms(3) by (auto simp: allocate_locked_def g c result_simps split: option.splits)
    have "rows_of (pool_pk p) pr db2 db'"
      using got by (intro rows_of_save [OF s]) (simp_all add: got_row_def)
    then show ?thesis using 1 next_value_identities [OF n] by (auto simp: rows_of_def)
  qed
qed

lemma owned_by_content_type:
  assumes "exactly_one_principal i" "owned_by pr i"
  shows "ident_content_type i = (case pr of User_principal _ \<Rightarrow> None | Row_principal ct _ \<Rightarrow> Some ct)"
  using assms by (auto simp: exactly_one_principal_def owned_by_def split: principal.splits)

lemma group_pools_rows_of:
  assumes "rows_of pk pr db db'" "table_ok db'"
  shows "group_pools db' \<subseteq> group_pools db \<union>
    (case pr of User_principal _ \<Rightarrow> {}
     | Row_principal ct _ \<Rightarrow> if ct = CT_project_group then {pk} else {})"
proof
  fix k assume "k \<in> group_pools db'"
  then obtain i where i: "i \<in> set (identities db')" "is_group_row i" "k = ident_pool i"
    by (auto simp: group_pools_def)
  have ex: "exactly_one_principal i" using assms(2) i(1) by (simp add: table_ok_def identities_ok_def)
  show "k \<in> group_pools db \<union> (case pr of User_principal _ \<Rightarrow> {}
     | Row_principal ct _ \<Rightarrow> if ct = CT_project_group then {pk} else {})"
  proof (cases "i \<in> set (identities db)")
    case True
    then show ?thesis using i by (auto simp: group_pools_def)
  next
    case False
    then have "ident_pool i = pk" "owned_by pr i" using assms(1) i(1) by (auto simp: rows_of_def)
    then show ?thesis
      using i owned_by_content_type [OF ex] by (auto simp: is_group_row_def split: principal.splits)
  qed
qed

text \<open>The principals that may hold a value in pool \<open>p\<close>: a project group only in a provider's own pool.\<close>

definition may_hold :: "pool \<Rightarrow> principal \<Rightarrow> bool" where
  "may_hold p pr \<longleftrightarrow>
     (case pr of User_principal _ \<Rightarrow> True
      | Row_principal ct _ \<Rightarrow> ct = CT_project_group \<longrightarrow> service_provider p \<noteq> None)"

lemma group_pools_may_hold:
  assumes "rows_of (pool_pk p) pr db db'" "table_ok db'" "may_hold p pr"
  shows "group_pools db' \<subseteq> group_pools db \<union> (if service_provider p = None then {} else {pool_pk p})"
  using group_pools_rows_of [OF assms(1,2)] assms(3)
  by (auto simp: may_hold_def split: principal.splits if_splits)

lemma in_use_insert:
  assumes "entries db' \<subseteq> insert (k, pk', ns, v) (entries db)"
  shows "in_use db' pk m \<subseteq> (if pk = pk' \<and> m = ns then {v} \<union> in_use db pk m else in_use db pk m)"
  using assms by (auto simp: in_use_def)

lemma in_use_subset: "entries db' \<subseteq> entries db \<Longrightarrow> in_use db' pk m \<subseteq> in_use db pk m"
  by (auto simp: in_use_def)

subsection \<open>Allocation and pinning keep the invariant\<close>

lemma allocate_in_pool_inv:
  assumes "provider_inv db" "p \<in> set (pools db)" "manages r p" "may_hold p pr"
    and "allocate_in_pool db p r pr oid recycle now = Inr (v, db')"
  shows "provider_inv db'"
proof (cases "held_value db p r pr")
  case (Some w)
  then show ?thesis using assms by (simp add: allocate_in_pool_def)
next
  case None
  then have l: "allocate_locked db (pool_pk p) r pr oid recycle now = Inr (v, db')"
    using assms(5) by (simp add: allocate_in_pool_def)
  have tab: "table_ok db" using assms(1) by (rule provider_invD)
  have nohold: "\<nexists>w. holds db (pool_pk p) (column r) pr w" using None held_value_iff [OF tab, of p r pr] by auto
  have al: "allocated db p r pr v db'"
    using tab assms(2,3) by (cases rule: allocate_locked_total [of db p r pr oid recycle now]) (use l in auto)
  then obtain k where e: "entries db' = insert (k, pool_pk p, column r, v) (entries db)"
    and v: "in_range r p v" and t: "table_ok db'" "pools_frame db db'"
    using nohold by (auto simp: allocated_def)
  have "adds_at_most db p (column r) {v} db'"
    unfolding adds_at_most_def
    using t in_use_insert [of db' k "pool_pk p" "column r" v db] e
      group_pools_may_hold [OF rows_of_allocate_locked [OF tab assms(2) l] t(1) assms(4)]
    by auto
  then show ?thesis
    using in_range_claims [OF v] by (intro provider_inv_add_claimed [OF assms(1,2)])
qed

lemma resolve_pool: "resolve db off = Some p \<Longrightarrow> p \<in> set (pools db)"
  by (auto simp: resolve_def dest: first_row_Some split: option.splits)

definition is_group_consumer :: "consumer \<Rightarrow> bool" where
  "is_group_consumer c \<longleftrightarrow> content_type_of c = CT_project_group"

lemma may_hold_consumer: "\<not> is_group_consumer c \<Longrightarrow> may_hold p (principal_filter c)"
  by (cases c) (simp_all add: is_group_consumer_def may_hold_def principal_filter_def)

lemma allocate_inv:
  assumes "provider_inv db" "\<not> is_group_consumer c" "allocate db off ns c now = Inr (x, db')"
  shows "provider_inv db'"
proof -
  consider "db' = db"
    | p v where "resolve db off = Some p" "manages (Own ns) p"
        "allocate_in_pool db p (Own ns) (principal_filter c) (Some (off_pk off)) True now = Inr (v, db')"
    using assms(3) by (auto simp: allocate_def result_simps split: if_splits option.splits)
  then show ?thesis
  proof cases
    case 1
    then show ?thesis using assms(1) by simp
  next
    case 2
    then show ?thesis
      using allocate_in_pool_inv [OF assms(1) resolve_pool] may_hold_consumer [OF assms(2)] by blast
  qed
qed

lemma set_value_inv:
  assumes "provider_inv db" "\<not> is_group_consumer c" "set_value db c ns v off now = Inr db'"
  shows "provider_inv db'"
proof -
  have tab: "table_ok db" using assms(1) by (rule provider_invD)
  from assms(3) obtain p where p: "resolve db off = Some p" "in_range (Own ns) p v"
    by (auto simp: set_value_def split: option.splits if_splits)
  note mem = resolve_pool [OF p(1)]
  note g = get_pool_row [OF tab mem]
  obtain i db1 where c: "get_or_create_active_identity db (principal_filter c) p (Some (off_pk off)) now
      = Inr (i, db1)" and got: "got_row db db1 p (principal_filter c) i"
    using tab mem by (rule get_or_create_total)
  from got have row: "table_ok db1" "i \<in> set (identities db1)" "active i" "ident_pool i = pool_pk p"
      "owned_by (principal_filter c) i" "entries db1 = entries db" "pools_frame db db1"
    by (simp_all add: got_row_def only_identities_frame)
  note 1 = rows_of_got [OF got]
  note mh = may_hold_consumer [OF assms(2), of p]
  show ?thesis
  proof (cases "ident_value ns i = Some v")
    case True
    then have "db' = db1" using assms(3) p by (simp add: set_value_def g c split: if_splits)
    then have "adds_at_most db p ns {v} db'"
      unfolding adds_at_most_def
      using row in_use_subset [of db1 db] group_pools_may_hold [OF 1 row(1) mh] by auto
    then show ?thesis
      using in_range_claims [OF p(2)] by (intro provider_inv_add_claimed [OF assms(1) mem]) simp_all
  next
    case False
    then have s: "save_identity db1 (set_ident_value ns (Some v) i) = Inr db'"
      using assms(3) p by (auto simp: set_value_def g c split: if_splits sum.splits)
    note e = save_value_effect [OF row(1,2,3) s]
    have 2: "rows_of (pool_pk p) (principal_filter c) db db'"
      using 1 row by (intro rows_of_trans [OF _ rows_of_save [OF s]]) simp_all
    have "entries db' \<subseteq> insert (ident_pk i, pool_pk p, ns, v) (entries db)"
      using e(2) row by (auto simp: without_def)
    moreover have "pools_frame db db'" using row(7) only_identities_frame [OF e(3)] by (rule pools_frame_trans)
    ultimately have "adds_at_most db p ns {v} db'"
      unfolding adds_at_most_def
      using e(1) in_use_insert [of db' "ident_pk i" "pool_pk p" ns v db]
        group_pools_may_hold [OF 2 e(1) mh] by auto
    then show ?thesis
      using in_range_claims [OF p(2)] by (intro provider_inv_add_claimed [OF assms(1) mem]) simp_all
  qed
qed

subsection \<open>Releasing rows, and tables the invariant does not read\<close>

definition row_entries :: "identity \<Rightarrow> (nat \<times> nat \<times> namespace \<times> int) set" where
  "row_entries i =
     (if active i then {(ident_pk i, ident_pool i, ns, v) | ns v. ident_value ns i = Some v} else {})"

lemma entries_rows: "entries db = (\<Union>i\<in>set (identities db). row_entries i)"
  by (auto simp: entries_def row_entries_def split: if_splits)

lemma entries_insert_row:
  "set (identities db') \<subseteq> insert i (set (identities db)) \<Longrightarrow> entries db' \<subseteq> row_entries i \<union> entries db"
  unfolding entries_rows by blast

lemma group_pools_insert_row:
  "set (identities db') \<subseteq> insert i (set (identities db)) \<Longrightarrow>
   group_pools db' \<subseteq> group_pools db \<union> (if is_group_row i then {ident_pool i} else {})"
  unfolding group_pools_def by (auto split: if_splits)

lemma provider_inv_shrink:
  assumes "provider_inv db" "table_ok db'" "pools_frame db db'"
    and "entries db' \<subseteq> entries db" "group_pools db' \<subseteq> group_pools db"
  shows "provider_inv db'"
proof (cases "pools db")
  case Nil
  then have "pools db' = []" using assms(3) by (simp add: pools_frame_def)
  then show ?thesis using assms(2,3) provider_invD(2) [OF assms(1)]
    by (simp add: provider_inv_def pools_frame_def)
next
  case (Cons p ps)
  then have p: "p \<in> set (pools db)" by simp
  have "adds_at_most db p UID {} db'"
    unfolding adds_at_most_def using assms(2-5) in_use_subset [OF assms(4)] by auto
  then show ?thesis by (rule provider_inv_add [OF assms(1) p]) simp
qed

lemma provider_inv_other_tables [simp]:
  "provider_inv (db\<lparr>project_groups := x\<rparr>) = provider_inv db"
  "provider_inv (db\<lparr>offering_users := y\<rparr>) = provider_inv db"
  "provider_inv (db\<lparr>provider_accounts := z\<rparr>) = provider_inv db"
  by (simp_all add: provider_inv_def table_ok_def siblings_def pool_customer_def claims_def
      in_use_def entries_def group_pools_def cong: option.case_cong)

lemma release_inv:
  assumes "provider_inv db" "releases f"
  shows "provider_inv (snd (update_identities db q f))"
proof -
  let ?db' = "db\<lparr>identities := update_rows q f (identities db)\<rparr>"
  have tab: "table_ok ?db'" using provider_invD(1) [OF assms(1)] assms(2) by (rule release_rows_ok)
  have f: "\<not> active (f i)" for i using assms(2) by (simp add: releases_def)
  have "entries ?db' \<subseteq> entries db"
    unfolding entries_rows using f by (auto simp: db_simps row_entries_def split: if_splits)
  moreover have "group_pools ?db' \<subseteq> group_pools db"
    using f by (auto simp: group_pools_def db_simps is_group_row_def split: if_splits)
  ultimately have "provider_inv ?db'"
    using tab by (intro provider_inv_shrink [OF assms(1)]) (simp_all add: pools_frame_def)
  then show ?thesis by (simp add: update_identities_def)
qed

lemma releases_at: "releases (\<lambda>i. i\<lparr>released_at := Some now\<rparr>)"
  "releases (\<lambda>i. i\<lparr>released_at := Some now, recyclable := b\<rparr>)" "releases (release_row now)"
  by (simp_all add: releases_def active_def exactly_one_principal_def release_row_def)

lemma release_user_allocations_inv:
  "provider_inv db \<Longrightarrow> provider_inv (snd (release_user_allocations db u recyc now))"
  by (auto simp: release_user_allocations_def Let_def release_inv [OF _ releases_at(2)] split: option.splits)

lemma release_posix_allocations_inv:
  assumes "provider_inv db"
  shows "provider_inv (snd (release_posix_allocations db c now))"
proof -
  let ?r = "update_identities db
            (\<lambda>i. owned_by (Row_principal (content_type_of c) (consumer_pk c)) i \<and> active i)
            (\<lambda>i. i\<lparr>released_at := Some now\<rparr>)"
  have 1: "provider_inv (snd ?r)" using assms releases_at(1) by (rule release_inv)
  show ?thesis
  proof (cases "base_account_user c")
    case None
    then show ?thesis using 1 by (simp add: release_posix_allocations_def Let_def case_prod_beta)
  next
    case (Some u)
    then show ?thesis
      using release_user_allocations_inv [OF 1, of "Some u" True now]
      by (simp add: release_posix_allocations_def Let_def case_prod_beta)
  qed
qed

lemma release_project_group_gid_inv:
  "provider_inv db \<Longrightarrow> provider_inv (snd (release_project_group_gid db g now))"
  unfolding release_project_group_gid_def by (rule release_inv [OF _ releases_at(3)])

subsection \<open>Project groups\<close>

lemma provider_pool_row:
  "provider_pool db sp = Some p \<Longrightarrow> p \<in> set (pools db) \<and> service_provider p = Some sp"
  by (auto simp: provider_pool_def dest: first_row_Some)

lemma group_range_manages: "group_range (Some p) = Some r \<Longrightarrow> manages r p \<and> column r = GID"
  by (auto simp: group_range_def split: if_splits)

lemma allocate_project_group_gid_inv:
  assumes "provider_inv db" "allocate_project_group_gid db g now = Inr (x, db')"
  shows "provider_inv db'"
proof -
  consider "db' = db"
    | p r v where "provider_pool db (pg_provider g) = Some p" "group_range (Some p) = Some r"
        "allocate_in_pool db p r (principal_filter (ServiceProviderProjectGroup (pg_pk g))) None False now
           = Inr (v, db')"
    using assms(2) by (auto simp: allocate_project_group_gid_def result_simps split: option.splits)
  then show ?thesis
  proof cases
    case 1
    then show ?thesis using assms(1) by simp
  next
    case 2
    note p = provider_pool_row [OF 2(1)]
    have "may_hold p (principal_filter (ServiceProviderProjectGroup (pg_pk g)))"
      using p by (simp add: may_hold_def principal_filter_def)
    then show ?thesis
      using allocate_in_pool_inv [OF assms(1)] p group_range_manages [OF 2(2)] 2(3) by blast
  qed
qed

lemma allocate_gid_inv:
  assumes "provider_inv db" "allocate_gid db g now = Inr (x, db')"
  shows "provider_inv db'"
proof -
  consider "db' = db"
    | y db1 rows where "allocate_project_group_gid db g now = Inr (y, db1)"
        "db' = db1 \<or> db' = db1\<lparr>project_groups := rows\<rparr>"
    using assms(2)
    by (auto simp: allocate_gid_def Let_def split: if_splits sum.splits posix_error.splits
        option.splits prod.splits)
  then show ?thesis
    using assms(1) allocate_project_group_gid_inv [OF assms(1)] by cases auto
qed

lemma adds_at_most_trans:
  assumes "adds_at_most a p ns V b" "adds_at_most b p ns V c"
  shows "adds_at_most a p ns V c"
proof -
  have ab: "in_use b pk m \<subseteq> (if pk = pool_pk p \<and> m = ns then V \<union> in_use a pk m else in_use a pk m)"
    and bc: "in_use c pk m \<subseteq> (if pk = pool_pk p \<and> m = ns then V \<union> in_use b pk m else in_use b pk m)" for pk m
    using assms unfolding adds_at_most_def by blast+
  have "in_use c pk m \<subseteq> (if pk = pool_pk p \<and> m = ns then V \<union> in_use a pk m else in_use a pk m)" for pk m
    using ab [of pk m] bc [of pk m] by (auto split: if_splits)
  moreover have "pools_frame a c"
    using assms pools_frame_trans [of a b c] unfolding adds_at_most_def by blast
  moreover have "group_pools c \<subseteq> group_pools a \<union> (if service_provider p = None then {} else {pool_pk p})"
    using assms unfolding adds_at_most_def by blast
  ultimately show ?thesis using assms(2) unfolding adds_at_most_def by blast
qed

lemma adds_at_most_refl: "table_ok db \<Longrightarrow> adds_at_most db p ns V db"
  by (auto simp: adds_at_most_def)

text \<open>Writing one row of a project group into the provider's pool.\<close>

lemma write_row_adds:
  assumes "table_ok db'" "only_identities db db'" "service_provider p \<noteq> None"
    and "set (identities db') \<subseteq> insert i (set (identities db))" "ident_pool i = pool_pk p"
    and "\<And>m w. active i \<Longrightarrow> ident_value m i = Some w \<Longrightarrow>
           m = ns \<and> w \<in> V \<or> w \<in> in_use db (pool_pk p) m"
  shows "adds_at_most db p ns V db'"
  unfolding adds_at_most_def
proof (intro conjI allI)
  show "table_ok db'" "pools_frame db db'" using assms(1,2) by (simp_all add: only_identities_frame)
  fix pk m
  show "in_use db' pk m \<subseteq> (if pk = pool_pk p \<and> m = ns then V \<union> in_use db pk m else in_use db pk m)"
  proof
    fix w assume "w \<in> in_use db' pk m"
    then obtain j where j: "j \<in> set (identities db')" "active j" "ident_pool j = pk" "ident_value m j = Some w"
      by (auto simp: in_use_iff)
    then have "j = i \<or> w \<in> in_use db pk m" using assms(4) by (auto simp: in_use_iff)
    then show "w \<in> (if pk = pool_pk p \<and> m = ns then V \<union> in_use db pk m else in_use db pk m)"
      using assms(5) assms(6) [of m w] j by auto
  qed
next
  show "group_pools db' \<subseteq> group_pools db \<union> (if service_provider p = None then {} else {pool_pk p})"
    using group_pools_insert_row [OF assms(4)] assms(3,5) by (auto split: if_splits)
qed

lemma create_identity_rows:
  assumes "create_identity db i = Inr (i', db')"
  shows "set (identities db') \<subseteq> insert i' (set (identities db))" "only_identities db db'"
    "i' = i\<lparr>ident_pk := next_ident db\<rparr>" "set (identities db) \<subseteq> set (identities db')"
  using assms by (auto simp: create_identity_def Let_def only_identities_def split: if_splits)

lemma save_identity_rows:
  assumes "save_identity db i = Inr db'"
  shows "set (identities db') \<subseteq> insert i (set (identities db))" "only_identities db db'"
  using assms by (auto simp: save_identity_def Let_def only_identities_def db_simps split: if_splits)

lemma ident_value_pk [simp]: "ident_value ns (i\<lparr>ident_pk := k\<rparr>) = ident_value ns i"
  "active (i\<lparr>ident_pk := k\<rparr>) = active i"
  by (cases ns; simp add: active_def)+

lemma release_row_simps [simp]: "\<not> active (release_row now i)" "ident_pool (release_row now i) = ident_pool i"
  by (simp_all add: release_row_def active_def)

lemma displace_gid_adds:
  assumes "table_ok db" "p \<in> set (pools db)" "service_provider p \<noteq> None"
    and io: "io = active_identity db p (group_row g)"
    and "displace_gid db p g io now = Inr (io', db1)"
  shows "adds_at_most db p GID V db1" and "pools db1 = pools db"
    and "\<And>i. io' = Some i \<Longrightarrow> i \<in> set (identities db1) \<and> active i \<and> ident_pool i = pool_pk p
           \<and> ident_gid i = None \<and> owned_by (group_row g) i"
proof -
  have i: "i \<in> set (identities db) \<and> active i \<and> ident_pool i = pool_pk p \<and> owned_by (group_row g) i"
    if "io = Some i" for i
    using that io first_row_Some
      [of "\<lambda>i. ident_pool i = pool_pk p \<and> active i \<and> owned_by (group_row g) i" "identities db" i]
    by (simp add: active_identity_def)
  have pk: "pool_pk p \<in> pool_pk ` set (pools db)" using assms(2) by simp
  consider (row) j where "io = Some j" "save_identity db (release_row now j) = Inr db1" "io' = None"
    | (none) "db1 = db" "io' = io" "\<And>j. io = Some j \<Longrightarrow> ident_gid j = None"
    | (imported) w r where "io' = io" "\<And>j. io = Some j \<Longrightarrow> ident_gid j = None"
        "create_identity db (release_row now (set_ident_value GID (Some w)
           (blank_identity (pool_pk p) (group_row g) None now))) = Inr (r, db1)"
    using assms(5) by (fastforce simp: displace_gid_def result_simps split: option.splits if_splits)
  then have "adds_at_most db p GID V db1 \<and> pools db1 = pools db \<and>
      (\<forall>i. io' = Some i \<longrightarrow> i \<in> set (identities db1) \<and> active i \<and> ident_pool i = pool_pk p
           \<and> ident_gid i = None \<and> owned_by (group_row g) i)"
  proof cases
    case row
    note s = save_identity_rows [OF row(2)]
    have "table_ok db1" using save_identity_ok [OF row(2) assms(1)] i [OF row(1)] pk by simp
    then have "adds_at_most db p GID V db1"
      using s assms(3) i [OF row(1)] by (intro write_row_adds [where i = "release_row now j"]) simp_all
    then show ?thesis using s row by (simp add: only_identities_def)
  next
    case none
    then show ?thesis using adds_at_most_refl [OF assms(1)] i by simp
  next
    case imported
    note c = create_identity_rows [OF imported(3)]
    have "table_ok db1" using create_identity_ok [OF imported(3) assms(1)] pk by simp
    then have "adds_at_most db p GID V db1"
      using c assms(3) by (intro write_row_adds [where i = r]) (simp_all del: set_ident_value.simps)
    then show ?thesis using c(2,4) imported(1,2) i by (auto simp: only_identities_def)
  qed
  then show "adds_at_most db p GID V db1" and "pools db1 = pools db"
    and "\<And>i. io' = Some i \<Longrightarrow> i \<in> set (identities db1) \<and> active i \<and> ident_pool i = pool_pk p
           \<and> ident_gid i = None \<and> owned_by (group_row g) i"
    by blast+
qed

lemma write_group_identity_adds:
  assumes "table_ok db" "p \<in> set (pools db)" "service_provider p \<noteq> None"
    and io: "\<And>i. io = Some i \<Longrightarrow> i \<in> set (identities db) \<and> active i \<and> ident_pool i = pool_pk p"
    and "write_group_identity db p g io v now = Inr db'"
  shows "adds_at_most db p GID {v} db'"
proof (cases io)
  case None
  let ?b = "set_ident_value GID (Some v) (blank_identity (pool_pk p) (group_row g) None now)"
  obtain r where c: "create_identity db ?b = Inr (r, db')"
    using assms(5) None by (auto simp: write_group_identity_def result_simps)
  note s = create_identity_rows [OF c]
  have "table_ok db'" using create_identity_ok [OF c assms(1)] assms(2) by simp
  then show ?thesis using s assms(3)
    by (intro write_row_adds [where i = r]) (simp_all del: set_ident_value.simps split: if_splits)
next
  case (Some i)
  let ?i = "set_ident_value GID (Some v) i"
  have c: "save_identity db ?i = Inr db'" using assms(5) Some by (simp add: write_group_identity_def)
  note s = save_identity_rows [OF c]
  have "table_ok db'" using save_identity_ok [OF c assms(1)] assms(2) io [OF Some] by simp
  then show ?thesis
  proof (rule write_row_adds [OF _ s(2) assms(3) s(1)])
    show "ident_pool ?i = pool_pk p" using io [OF Some] by (simp del: set_ident_value.simps)
    fix m w assume "active ?i" "ident_value m ?i = Some w"
    then show "m = GID \<and> w \<in> {v} \<or> w \<in> in_use db (pool_pk p) m"
      using io [OF Some] by (cases "m = GID") (auto simp: in_use_iff simp del: set_ident_value.simps)
  qed
qed

lemma pin_group_gid_cases:
  assumes "pin_group_gid db p g v now = Inr (prev, db')"
  obtains
    (unchanged) "db' = db" "group_holder db g v = None" "prev = Some v"
  | (recorded) "write_group_identity db p g None v now = Inr db'" "group_holder db g v = None" "prev = Some v"
  | (moved) io' db1 db2 where "displace_gid db p g (active_identity db p (group_row g)) now = Inr (io', db1)"
      "write_group_identity db1 p g io' v now = Inr db2" "db' = save_group_gid db2 g v"
      "prev = previous_gid g (active_identity db p (group_row g))" "group_holder db g v = None"
proof -
  let ?io = "active_identity db p (group_row g)"
  have none: "group_holder db g v = None"
    using assms by (auto simp: pin_group_gid_def result_simps)
  show thesis
  proof (cases "previous_gid g ?io = Some v")
    case True
    then show thesis
      using assms none unchanged recorded
      by (auto simp: pin_group_gid_def Let_def result_simps guard_result_def split: if_splits)
  next
    case False
    then obtain io' db1 where d: "displace_gid db p g ?io now = Inr (io', db1)"
        and w: "(case write_group_identity db1 p g io' v now of
                     Inl _ \<Rightarrow> Inl PosixIdValueConflict
                   | Inr db2 \<Rightarrow> Inr (previous_gid g ?io, save_group_gid db2 g v)) = Inr (prev, db')"
      using assms none by (auto simp: pin_group_gid_def Let_def result_simps guard_result_def)
    then show thesis using moved none by (auto split: sum.splits)
  qed
qed

lemma pin_group_gid_adds:
  assumes "table_ok db" "p \<in> set (pools db)" "service_provider p \<noteq> None"
    and "pin_group_gid db p g v now = Inr (prev, db')"
  obtains rows db2 where "db' = db2 \<or> db' = db2\<lparr>project_groups := rows\<rparr>"
    "adds_at_most db p GID {v} db2" "group_holder db g v = None"
  using assms(4)
proof (cases rule: pin_group_gid_cases)
  case unchanged
  then show thesis using that [of db] adds_at_most_refl [OF assms(1)] by simp
next
  case recorded
  then show thesis using that [of db'] write_group_identity_adds [OF assms(1-3) _ recorded(1)] by simp
next
  case (moved io' db1 db2)
  note d = displace_gid_adds [OF assms(1-3) refl moved(1)]
  have "table_ok db1" using d(1) [of "{}"] by (simp add: adds_at_most_def)
  then have "adds_at_most db1 p GID {v} db2"
    using assms(2,3) d(2,3) by (intro write_group_identity_adds [OF _ _ _ _ moved(2)]) simp_all
  then have "adds_at_most db p GID {v} db2" using d(1) adds_at_most_trans by blast
  then show thesis using that [of db2] moved(3,5) by (simp add: save_group_gid_def) blast
qed

lemma group_row_is_group: "owned_by (group_row g) i \<Longrightarrow> active i \<Longrightarrow> is_group_row i"
  by (simp add: group_row_def owned_by_def is_group_row_def)

lemma set_project_group_gid_inv:
  assumes "provider_inv db" "set_project_group_gid db g v allow now = Inr (prev, db')"
  shows "provider_inv db'"
proof -
  have tab: "table_ok db" using assms(1) by (rule provider_invD)
  let ?c = "sp_customer db (pg_provider g)"
  obtain p where p: "provider_pool db (pg_provider g) = Some p"
    using assms(2) by (auto simp: set_project_group_gid_def Let_def split: option.splits)
  note mem = provider_pool_row [OF p]
  have others: "\<not> in_range s q v"
    if "q \<in> set (provider_pools db ?c)" "pool_pk q \<noteq> pool_pk p" "column s = GID" for q s
    using assms(2) that p
    by (cases s) (auto simp: set_project_group_gid_def Let_def result_simps db_simps split: option.splits)
  have pin: "pin_group_gid db p g v now = Inr (prev, db')"
    using assms(2) p get_pool_row [OF tab] mem
    by (auto simp: set_project_group_gid_def Let_def result_simps split: option.splits)
  obtain rows db2 where d: "db' = db2 \<or> db' = db2\<lparr>project_groups := rows\<rparr>"
      "adds_at_most db p GID {v} db2" "group_holder db g v = None"
    using tab _ _ pin by (rule pin_group_gid_adds) (use mem in auto)
  have "provider_inv db2"
    using assms(1) _ d(2)
  proof (rule provider_inv_add)
    show "p \<in> set (pools db)" using mem by simp
    fix q assume q: "q \<in> set (pools db)" "siblings db p q"
    have pc: "pool_customer db p = Some ?c" using mem by (simp add: pool_customer_def)
    then have qp: "q \<in> set (provider_pools db ?c)"
      using q provider_pools_iff [OF tab q(1)] by (simp add: siblings_def)
    have "v \<notin> in_use db (pool_pk q) GID"
    proof
      assume "v \<in> in_use db (pool_pk q) GID"
      then obtain i where i: "i \<in> set (identities db)" "active i" "ident_pool i = pool_pk q" "ident_gid i = Some v"
        by (auto simp: in_use_iff)
      then have "owned_by (group_row g) i"
        using d(3) qp by (auto simp: group_holder_def Let_def db_simps)
      then have "pool_pk q \<in> group_pools db"
        using group_row_is_group [of g i] i by (auto simp: group_pools_def image_iff)
      then have "service_provider q \<noteq> None" using provider_invD(4) [OF assms(1) q(1)] by simp
      then have "p = q" using one_default_pool [OF assms(1) _ q(1)] mem q by (auto simp: siblings_def)
      then show False using q by (simp add: siblings_def)
    qed
    then show "{v} \<inter> claims db q GID = {}"
      using others [OF qp] q(2) by (auto simp: claims_def range_values_def siblings_def)
  qed
  then show ?thesis using d(1) by auto
qed

end
