(* ===== verification/Posix_Steps.thy ===== *)
theory Posix_Steps
  imports Posix_Provider
begin

text \<open>
  Pool creation, update and deletion, registration of existing GIDs, collapse and re-point
  keep the provider-wide invariant; \<open>posix_step\<close> is the transition relation of the whole
  component, an instance of \<open>invariant_system\<close>.
\<close>

subsection \<open>What validation establishes\<close>

lemma managed_ranges_in:
  "managed_ranges p rs = Inr ms \<Longrightarrow> set ms = {r \<in> set rs. check_bounds p r = Inr True}"
  by (induction rs arbitrary: ms) (auto simp: result_simps split: if_splits)

lemma check_bounds_True:
  assumes "check_bounds p r = Inr b" "in_range r p v"
  shows "b"
  using assms by (auto simp: check_bounds_def in_range_def split: option.splits if_splits)

lemma managed_ranges_total:
  "managed_ranges p rs = Inr ms \<Longrightarrow> r \<in> set rs \<Longrightarrow> \<exists>b. check_bounds p r = Inr b"
  by (induction rs arbitrary: ms) (auto simp: result_simps)

lemma overlaps_in_range: "in_range r p v \<Longrightarrow> in_range s q v \<Longrightarrow> overlaps p r q s"
  by (auto simp: in_range_def overlaps_def split: option.splits)

lemma validate_pool_claims:
  assumes "validate_pool db self p = Inr u" "pool_customer db p = Some c"
    and "q \<in> set (provider_pools db c)" "self \<noteq> Some (pool_pk q)"
  shows "range_values p ns \<inter> claims db q ns = {}"
proof -
  let ?sib = "filter (\<lambda>q. self \<noteq> Some (pool_pk q)) (provider_pools db c)"
  obtain ms where ms: "managed_ranges p RANGES = Inr ms"
    and apart: "\<And>r s. r \<in> set ms \<Longrightarrow> column s = column r \<Longrightarrow>
       first_row (\<lambda>q. overlaps p r q s) ?sib = None"
    and foreign: "check_foreign_identities db p ms ?sib = Inr ()"
    using assms(1,2) by (auto simp: validate_pool_def result_simps list_all_iff Let_def)
  have q: "q \<in> set ?sib" using assms(3,4) by auto
  have managed: "r \<in> set ms" if "in_range r p v" for r v
    using managed_ranges_in [OF ms] managed_ranges_total [OF ms, of r] check_bounds_True [OF _ that] by auto
  show ?thesis
  proof (rule ccontr)
    assume "range_values p ns \<inter> claims db q ns \<noteq> {}"
    then obtain v r where r: "column r = ns" "in_range r p v" and "v \<in> claims db q ns"
      by (auto simp: range_values_def)
    then consider s where "column s = ns" "in_range s q v" | "v \<in> in_use db (pool_pk q) ns"
      by (auto simp: claims_def range_values_def)
    then show False
    proof cases
      case 1
      then have "overlaps p r q s" using r overlaps_in_range by blast
      then show False using apart [OF managed [OF r(2)], of s] 1 r q by (auto simp: db_simps)
    next
      case 2
      then obtain i where i: "i \<in> set (identities db)" "active i" "ident_pool i = pool_pk q"
          "ident_value ns i = Some v" by (auto simp: in_use_iff)
      have "held_by_siblings db p r ?sib = []"
        using foreign managed [OF r(2)] by (simp add: check_foreign_identities_def list_all_iff)
      then show False
        using i r q by (auto simp: held_by_siblings_def filter_empty_conv)
    qed
  qed
qed

text \<open>A pool row is added or replaced; everything else stays.\<close>

lemma provider_inv_new_pool:
  assumes inv: "provider_inv db" and tab: "table_ok db'"
    and same: "identities db' = identities db" "offering_row db' = offering_row db"
      "sp_customer db' = sp_customer db"
    and rows: "\<And>q. q \<in> set (pools db') \<Longrightarrow> q = new \<or> q \<in> set (pools db) \<and> pool_pk q \<noteq> pool_pk new"
    and sib: "\<And>q ns. q \<in> set (pools db) \<Longrightarrow> siblings db new q \<Longrightarrow> claims db new ns \<inter> claims db q ns = {}"
    and grp: "pool_pk new \<in> group_pools db \<Longrightarrow> service_provider new \<noteq> None"
  shows "provider_inv db'"
  unfolding provider_inv_def
proof (intro conjI ballI impI allI)
  have cl: "claims db' = claims db"
    by (intro ext) (simp add: claims_def in_use_def entries_def same)
  have "pool_customer db' p = pool_customer db p" for p
    by (simp add: pool_customer_def same split: option.split)
  then have sb: "siblings db' = siblings db"
    by (intro ext) (simp add: siblings_def)
  show "table_ok db'" by (rule tab)
  show "inj (sp_customer db')" using provider_invD(2) [OF inv] same by simp
  {
    fix a b ns
    assume ab: "a \<in> set (pools db')" "b \<in> set (pools db')" "siblings db' a b"
    then have s: "siblings db a b" "siblings db b a" using siblings_sym by (auto simp: sb)
    from rows [OF ab(1)] rows [OF ab(2)] consider "a = new" "b = new" | "a = new" "b \<in> set (pools db)"
      | "b = new" "a \<in> set (pools db)" | "a \<in> set (pools db)" "b \<in> set (pools db)" by blast
    then have "claims db a ns \<inter> claims db b ns = {}"
    proof cases
      case 1
      then show ?thesis using s by (simp add: siblings_def)
    next
      case 2
      then show ?thesis using sib s by blast
    next
      case 3
      then show ?thesis using sib s by blast
    next
      case 4
      then show ?thesis using provider_invD(3) [OF inv] s by blast
    qed
    then show "claims db' a ns \<inter> claims db' b ns = {}" by (simp add: cl)
  }
  fix a assume "a \<in> set (pools db')" "pool_pk a \<in> group_pools db'"
  then show "service_provider a \<noteq> None"
    using rows [of a] grp provider_invD(4) [OF inv, of a] by (auto simp: group_pools_def same)
qed

subsection \<open>Creating a pool\<close>

lemma validate_pool_customer: "validate_pool db self p = Inr u \<Longrightarrow> \<exists>c. pool_customer db p = Some c"
  by (auto simp: validate_pool_def result_simps split: option.splits)

lemma siblings_provider_pools:
  assumes "table_ok db" "q \<in> set (pools db)" "pool_customer db p = Some c" "siblings db p q"
  shows "q \<in> set (provider_pools db c)"
  using assms provider_pools_iff [OF assms(1,2), of c] by (simp add: siblings_def)

lemma create_pool_row:
  assumes "create_pool db pk p = Inr db'"
  obtains new where "db' = db\<lparr>pools := pools db @ [new]\<rparr>" "pool_pk new = pk"
    "service_provider new = service_provider p" "pool_offering new = pool_offering p"
    "validate_pool db None new = Inr ()" "pool_constraints new" "pk \<notin> pool_pk ` set (pools db)"
    "\<not> scope_taken db p" "(service_provider p \<noteq> None) \<noteq> (pool_offering p \<noteq> None)"
proof -
  let ?new = "p\<lparr>pool_pk := pk, next_uid := min_uid p, next_gid := min_gid p, next_group_gid := min_group_gid p\<rparr>"
  show thesis
    using assms by (intro that [of ?new]) (auto simp: create_pool_def Let_def result_simps split: if_splits)
qed

lemma create_pool_inv:
  assumes "provider_inv db" "create_pool db pk p = Inr db'"
  shows "provider_inv db'"
proof -
  have tab: "table_ok db" using assms(1) by (rule provider_invD)
  obtain new where n: "db' = db\<lparr>pools := pools db @ [new]\<rparr>" "pool_pk new = pk"
    "service_provider new = service_provider p" "pool_offering new = pool_offering p"
    "validate_pool db None new = Inr ()" "pool_constraints new" "pk \<notin> pool_pk ` set (pools db)"
    "\<not> scope_taken db p" "(service_provider p \<noteq> None) \<noteq> (pool_offering p \<noteq> None)"
    using assms(2) by (rule create_pool_row)
  have scope: "service_provider q \<noteq> service_provider new \<or> service_provider new = None"
      "pool_offering q \<noteq> pool_offering new \<or> pool_offering new = None"
    if "q \<in> set (pools db)" for q
    using n(3,4,8,9) that by (auto simp: scope_taken_def db_simps split: option.splits)
  have "pools_ok (pools db @ [new])"
    using tab n(2,6,7) scope unfolding table_ok_def pools_ok_def by (auto simp: image_iff)
  then have tab': "table_ok db'" using tab by (auto simp: table_ok_def n(1))
  have empty: "in_use db pk ns = {}" "pk \<notin> group_pools db" for ns
    using tab n(7) by (auto simp: in_use_iff group_pools_def table_ok_def)
  obtain c where c: "pool_customer db new = Some c" using validate_pool_customer [OF n(5)] by blast
  show ?thesis
  proof (rule provider_inv_new_pool [OF assms(1) tab', of new])
    fix q ns assume q: "q \<in> set (pools db)" "siblings db new q"
    have "range_values new ns \<inter> claims db q ns = {}"
      using siblings_provider_pools [OF tab q(1) c q(2)]
      by (intro validate_pool_claims [OF n(5) c]) simp_all
    then show "claims db new ns \<inter> claims db q ns = {}" using empty n(2) by (simp add: claims_def [of db new])
  next
    fix q assume "q \<in> set (pools db')"
    moreover have "pool_pk q \<noteq> pk" if "q \<in> set (pools db)" for q using n(7) that by auto
    ultimately show "q = new \<or> q \<in> set (pools db) \<and> pool_pk q \<noteq> pool_pk new"
      using n(1,2) by auto
  qed (use n(1,2) empty in simp_all)
qed

text \<open>
  Registering the GIDs the provider's groups already carry keeps the invariant when no other
  pool of the provider claims one of them.  The code does not check that.
\<close>

definition gids_unclaimed :: "posix_db \<Rightarrow> pool \<Rightarrow> bool" where
  "gids_unclaimed db p \<longleftrightarrow>
     (\<forall>g\<in>set (project_groups db). service_provider p = Some (pg_provider g) \<longrightarrow>
        (\<forall>q\<in>set (pools db). siblings db p q \<longrightarrow>
           (case pg_gid g of None \<Rightarrow> True | Some v \<Rightarrow> v \<notin> claims db q GID)))"

lemma siblings_only_identities: "only_identities db db' \<Longrightarrow> siblings db' p q = siblings db p q"
  by (simp add: only_identities_def siblings_def pool_customer_def split: option.split)

lemma register_existing_gids_inv:
  assumes inv: "provider_inv db" and p: "p \<in> set (pools db)" and free: "gids_unclaimed db p"
    and run: "register_existing_gids db p now = Inr (n, db')"
  shows "provider_inv db'"
proof (cases "service_provider p")
  case None
  then show ?thesis using run inv by (simp add: register_existing_gids_def)
next
  case (Some sp)
  let ?groups = "filter (\<lambda>g. pg_provider g = sp \<and> pg_gid g \<noteq> None) (project_groups db)"
  let ?P = "\<lambda>(m::nat, d). provider_inv d \<and> only_identities db d \<and>
     (\<forall>q\<in>set (pools db). siblings db p q \<longrightarrow> in_use d (pool_pk q) GID = in_use db (pool_pk q) GID)"
  note run' = run [unfolded register_existing_gids_def Some option.case]
  have "?P (n, db')"
  proof (rule rfold_invariant [OF run', where P = ?P])
    show "?P (0, db)" using inv by (simp add: only_identities_def)
  next
    fix acc g acc'
    assume acc: "?P acc" and g: "g \<in> set ?groups"
    obtain m d where a: "acc = (m, d)" by (cases acc)
    obtain v where v: "pg_gid g = Some v" using g by auto
    let ?b = "set_ident_value GID (Some v) (blank_identity (pool_pk p) (group_row g) None now)"
    assume step: "register_gid p now acc g = Inr acc'"
    then consider "acc' = acc" | r d' where "create_identity d ?b = Inr (r, d')" "acc' = (m + 1, d')"
      by (auto simp: register_gid_def Let_def a v result_simps simp del: set_ident_value.simps split: if_splits)
    then show "?P acc'"
    proof cases
      case 1
      then show ?thesis using acc by simp
    next
      case 2
      note c = create_identity_rows [OF 2(1)]
      have d: "provider_inv d" "only_identities db d" "p \<in> set (pools d)"
        using acc p by (auto simp: a only_identities_def)
      have "table_ok d'"
        using create_identity_ok [OF 2(1) provider_invD(1) [OF d(1)]] d(3) by simp
      then have add: "adds_at_most d p GID {v} d'"
        using c Some by (intro write_row_adds [where i = r]) (simp_all del: set_ident_value.simps split: if_splits)
      have "{v} \<inter> claims d q GID = {}" if q: "q \<in> set (pools d)" "siblings d p q" for q
      proof -
        have "q \<in> set (pools db)" "siblings db p q"
          using q d(2) siblings_only_identities [OF d(2)] by (auto simp: only_identities_def)
        then show ?thesis
          using free g v Some acc by (auto simp: gids_unclaimed_def a claims_def)
      qed
      then have "provider_inv d'" by (rule provider_inv_add [OF d(1,3) add])
      moreover have "in_use d' (pool_pk q) GID = in_use d (pool_pk q) GID" if "siblings db p q" for q
      proof
        show "in_use d' (pool_pk q) GID \<subseteq> in_use d (pool_pk q) GID"
          using add that by (fastforce simp: adds_at_most_def siblings_def)
        show "in_use d (pool_pk q) GID \<subseteq> in_use d' (pool_pk q) GID"
          using c(4) unfolding in_use_iff subset_iff by blast
      qed
      ultimately show ?thesis using acc 2(2) c(2) by (auto simp: a only_identities_def)
    qed
  qed
  then show ?thesis by simp
qed

subsection \<open>Updating and deleting a pool\<close>

definition loaded_row :: "posix_db \<Rightarrow> pool \<Rightarrow> bool" where
  "loaded_row db inst \<longleftrightarrow> list_ex (same_scope inst) (pools db)"

lemma candidate_scope: "same_scope (candidate_pool p a) p"
  by (simp add: same_scope_def candidate_pool_def Let_def)

lemma update_pool_inv:
  assumes "provider_inv db" "loaded_row db inst" "update_pool db inst a = Inr db'"
  shows "provider_inv db'"
proof -
  have tab: "table_ok db" using assms(1) by (rule provider_invD)
  let ?new = "candidate_pool inst a"
  obtain p where p: "p \<in> set (pools db)" "same_scope inst p" using assms(2) by (auto simp: loaded_row_def list_ex_iff)
  have sc: "same_scope ?new p" using p(2) candidate_scope [of inst a] by (simp add: same_scope_def)
  have pk: "pool_pk inst = pool_pk p" using p(2) by (simp add: same_scope_def)
  have v: "validate_pool db (Some (pool_pk p)) ?new = Inr ()" and ok: "pool_constraints ?new"
    and db': "db' = save_pool db (pool_pk p) (\<lambda>_. ?new)"
    using assms(3) by (auto simp: update_pool_def Let_def pk result_simps split: if_splits)
  have tab': "table_ok db'" unfolding db' using tab p(1) ok sc by (rule save_pool_table_ok)
  obtain c where c: "pool_customer db ?new = Some c" using validate_pool_customer [OF v] by blast
  have sib: "siblings db ?new q = siblings db p q" for q
    using sc by (simp add: siblings_def same_scope_def pool_customer_def cong: option.case_cong)
  have use: "in_use db (pool_pk ?new) ns \<subseteq> claims db p ns" for ns
    using sc by (auto simp: same_scope_def claims_def)
  show ?thesis
  proof (rule provider_inv_new_pool [OF assms(1) tab', of ?new])
    fix q ns assume q: "q \<in> set (pools db)" "siblings db ?new q"
    have "range_values ?new ns \<inter> claims db q ns = {}"
      using siblings_provider_pools [OF tab q(1) c q(2)] q(2) sc
      by (intro validate_pool_claims [OF v c]) (auto simp: siblings_def same_scope_def)
    moreover have "claims db p ns \<inter> claims db q ns = {}"
      using provider_invD(3) [OF assms(1) p(1) q(1)] q(2) sib by blast
    ultimately show "claims db ?new ns \<inter> claims db q ns = {}"
      using use [of ns] unfolding claims_def [of db ?new] by blast
  next
    show "pool_pk ?new \<in> group_pools db \<Longrightarrow> service_provider ?new \<noteq> None"
      using provider_invD(4) [OF assms(1) p(1)] sc by (simp add: same_scope_def)
  next
    fix q assume "q \<in> set (pools db')"
    then show "q = ?new \<or> q \<in> set (pools db) \<and> pool_pk q \<noteq> pool_pk ?new"
      using sc by (auto simp: db' save_pool_def db_simps same_scope_def split: if_splits)
  qed (simp_all add: db' save_pool_def)
qed

lemma delete_pool_inv:
  assumes "provider_inv db" "delete_pool db p = Inr db'"
  shows "provider_inv db'"
proof -
  let ?ids = "filter (\<lambda>i. ident_pool i \<noteq> pool_pk p) (identities db)"
  let ?ps = "filter (\<lambda>q. pool_pk q \<noteq> pool_pk p) (pools db)"
  have db': "db' = db\<lparr>pools := ?ps, identities := ?ids\<rparr>"
    using assms(2) by (auto simp: delete_pool_def split: if_splits)
  have tab: "table_ok db" using assms(1) by (rule provider_invD)
  have "identities_ok ?ids (next_ident db)"
    using tab by (auto simp: table_ok_def identities_ok_def distinct_map inj_on_def)
  moreover have "pools_ok ?ps"
    using tab by (auto simp: table_ok_def pools_ok_def distinct_map inj_on_def)
  ultimately have tab': "table_ok db'" using tab by (auto simp: table_ok_def db')
  have sub: "claims db' q ns \<subseteq> claims db q ns" for q ns
    by (auto simp: claims_def in_use_iff db')
  have sib: "siblings db' = siblings db"
    by (intro ext) (simp add: siblings_def pool_customer_def db' split: option.split)
  show ?thesis
    unfolding provider_inv_def
  proof (intro conjI ballI impI allI)
    fix a b ns assume "a \<in> set (pools db')" "b \<in> set (pools db')" "siblings db' a b"
    then have "claims db a ns \<inter> claims db b ns = {}"
      using provider_invD(3) [OF assms(1), of a b] unfolding sib by (simp add: db')
    then show "claims db' a ns \<inter> claims db' b ns = {}" using sub by blast
  next
    fix a assume "a \<in> set (pools db')" "pool_pk a \<in> group_pools db'"
    then show "service_provider a \<noteq> None"
      using provider_invD(4) [OF assms(1), of a] by (auto simp: db' group_pools_def)
  next
    show "inj (sp_customer db')" using provider_invD(2) [OF assms(1)] by (simp add: db')
  qed (rule tab')
qed

subsection \<open>Maintenance\<close>

lemma apply_metadata_changes_inv [simp]:
  "provider_inv (apply_metadata_changes db ou chs) = provider_inv db"
  by (simp add: apply_metadata_changes_def Let_def)

lemma project_shared_values_inv:
  "provider_inv db \<Longrightarrow> provider_inv (snd (project_shared_values db ou p))"
proof -
  have "provider_inv (snd acc) \<Longrightarrow> provider_inv (snd (fold (project_one u g) ous acc))" for acc ous u g
    by (induction ous arbitrary: acc) (simp_all add: project_one_def Let_def case_prod_beta)
  then show "provider_inv db \<Longrightarrow> provider_inv (snd (project_shared_values db ou p))"
    by (simp add: project_shared_values_def split: option.split)
qed

lemma claim_for_user_inv:
  assumes "provider_inv db" "claim_for_user db c u = Inr db'"
  shows "provider_inv db'"
proof (cases "ident_user c = None")
  case False
  then show ?thesis using assms by (simp add: claim_for_user_def)
next
  case True
  then obtain i where i: "i \<in> set (identities db)"
    and s: "save_identity db (i\<lparr>ident_user := Some u, ident_content_type := None, ident_object_id := None\<rparr>)
       = Inr db'" (is "save_identity db ?i = _")
    using assms(2) by (auto simp: claim_for_user_def dest: first_row_Some split: option.splits)
  note r = save_identity_rows [OF s]
  have same: "ident_value ns ?i = ident_value ns i" "active ?i = active i" "\<not> is_group_row ?i" for ns
    by (cases ns; simp add: active_def is_group_row_def)+
  have "table_ok db'"
    using save_identity_ok [OF s provider_invD(1) [OF assms(1)]] provider_invD(1) [OF assms(1)] i
    by (simp add: table_ok_def)
  moreover have "entries db' \<subseteq> entries db"
  proof -
    have "row_entries ?i = row_entries i" using same(1,2) by (simp add: row_entries_def)
    moreover have "row_entries i \<subseteq> entries db" using i unfolding entries_rows by blast
    ultimately show ?thesis using entries_insert_row [OF r(1)] by blast
  qed
  moreover have "group_pools db' \<subseteq> group_pools db"
    using group_pools_insert_row [OF r(1)] same(3) by simp
  ultimately show ?thesis
    using only_identities_frame [OF r(2)] by (intro provider_inv_shrink [OF assms(1)])
qed

lemma apply_group_inv:
  assumes "provider_inv db" "apply_group db g now = Inr db'"
  shows "provider_inv db'"
proof -
  let ?q = "\<lambda>i. ident_pk i \<in> set (map ident_pk (cg_superseded g))"
  have 1: "provider_inv (snd (update_identities db ?q (release_row now)))"
    using assms(1) releases_at(3) by (rule release_inv)
  obtain db2 where c: "claim_for_user (snd (update_identities db ?q (release_row now)))
        (cg_canonical g) (cg_user g) = Inr db2"
    and db': "db' = fold (apply_change_rows (cg_changes g)) (remdups (map ch_offering_user (cg_changes g))) db2"
    using assms(2) by (auto simp: apply_group_def Let_def case_prod_beta result_simps)
  have step: "provider_inv d \<Longrightarrow> provider_inv (apply_change_rows chs k d)" for chs k d
    by (simp add: apply_change_rows_def split: option.split)
  have "provider_inv d \<Longrightarrow> provider_inv (fold (apply_change_rows chs) ks d)" for chs ks d
    using step by (induction ks arbitrary: d) simp_all
  then show ?thesis using claim_for_user_inv [OF 1 c] db' by simp
qed

lemma apply_collapse_inv:
  "provider_inv db \<Longrightarrow> provider_inv (snd (apply_collapse db gs now))"
  by (induction db gs now rule: apply_collapse.induct) (auto split: sum.split dest: apply_group_inv)

lemma repoint_account_inv:
  assumes "provider_inv (snd acc)" "repoint_account off now acc ou = Inr acc'"
  shows "provider_inv (snd acc')"
proof -
  let ?c = "OfferingUser (ou_pk ou) (ou_user ou)"
  have c: "\<not> is_group_consumer ?c" by (simp add: is_group_consumer_def)
  obtain uid db1 where a1: "allocate (snd acc) off UID ?c now = Inr (uid, db1)"
    using assms(2) by (auto simp: repoint_account_def Let_def case_prod_beta result_simps)
  obtain gid db2 where a2: "allocate db1 off GID ?c now = Inr (gid, db2)"
    using assms(2) a1 by (auto simp: repoint_account_def Let_def case_prod_beta result_simps)
  have acc': "snd acc' = (if metadata_changes db2 ou uid gid = [] then db2
                     else apply_metadata_changes db2 ou (metadata_changes db2 ou uid gid))"
    using assms(2) a1 a2 by (auto simp: repoint_account_def Let_def case_prod_beta split: if_splits)
  have "provider_inv db2" using c a2 by (rule allocate_inv [OF allocate_inv [OF assms(1) c a1]])
  then show ?thesis using acc' by simp
qed

lemma repoint_inv:
  assumes "provider_inv db" "repoint db p now = Inr (res, db')"
  shows "provider_inv db'"
proof -
  obtain off where off: "pool_offering p = Some off"
    using assms(2) by (auto simp: repoint_def split: option.splits)
  define ous where "ous = filter (\<lambda>ou. ou_offering ou = off) (offering_users db)"
  obtain acc where r: "rfold (repoint_account (offering_row db off) now) ([], db) ous = Inr acc"
    and db': "db' = snd (snd (fold (release_left p now) (remdups (map ou_user ous)) (0, 0, snd acc)))"
    using assms(2) by (auto simp: repoint_def off Let_def ous_def [symmetric] case_prod_beta result_simps)
  have "provider_inv (snd acc)"
    using r by (rule rfold_invariant [where P = "\<lambda>a. provider_inv (snd a)"])
      (auto intro: assms(1) repoint_account_inv)
  moreover have "provider_inv (snd (snd a)) \<Longrightarrow> provider_inv (snd (snd (fold (release_left p now) us a)))" for us a
    by (induction us arbitrary: a)
      (simp_all add: release_left_def Let_def case_prod_beta release_user_allocations_inv)
  ultimately show ?thesis using db' by simp
qed

subsection \<open>The transition relation\<close>

text \<open>
  One step of the component: an operation that succeeded.  An operation that raises leaves the
  state as it was.  \<open>Accounts_changed\<close> covers what the rest of the system does to the account and
  group tables.  \<open>Pool_updated\<close> takes any earlier version of the row, since the request loads it
  before it takes the locks.
\<close>

inductive posix_step :: "posix_db \<Rightarrow> posix_db \<Rightarrow> bool" where
  Allocated: "allocate db off ns c now = Inr (x, db') \<Longrightarrow> \<not> is_group_consumer c \<Longrightarrow> posix_step db db'"
| Pinned: "set_value db c ns v off now = Inr db' \<Longrightarrow> \<not> is_group_consumer c \<Longrightarrow> posix_step db db'"
| Group_allocated: "allocate_gid db g now = Inr (x, db') \<Longrightarrow> posix_step db db'"
| Group_pinned: "set_project_group_gid db g v allow now = Inr (prev, db') \<Longrightarrow> posix_step db db'"
| Group_released: "release_project_group_gid db g now = (n, db') \<Longrightarrow> posix_step db db'"
| Consumer_released: "release_posix_allocations db c now = (n, db') \<Longrightarrow> posix_step db db'"
| Pool_created:
    "create_pool db pk p = Inr db1 \<Longrightarrow> get_pool db1 pk = Inr new \<Longrightarrow> gids_unclaimed db1 new \<Longrightarrow>
     register_existing_gids db1 new now = Inr (n, db') \<Longrightarrow> posix_step db db'"
| Pool_updated: "update_pool db inst a = Inr db' \<Longrightarrow> loaded_row db inst \<Longrightarrow> posix_step db db'"
| Pool_deleted: "delete_pool db p = Inr db' \<Longrightarrow> posix_step db db'"
| Shared_values_projected: "project_shared_values db ou p = (chs, db') \<Longrightarrow> posix_step db db'"
| Collapsed: "apply_collapse db gs now = (e, db') \<Longrightarrow> posix_step db db'"
| Repointed: "apply_repoint db p now = (res, db') \<Longrightarrow> posix_step db db'"
| Accounts_changed:
    "posix_step db (db\<lparr>offering_users := ous, provider_accounts := pas, project_groups := pgs\<rparr>)"

inductive_cases posix_stepE: "posix_step db db'"

lemma get_pool_member: "get_pool db pk = Inr p \<Longrightarrow> p \<in> set (pools db)"
  by (auto simp: get_pool_def dest: first_row_Some split: option.splits)

lemma posix_step_inv:
  assumes "posix_step db db'" "provider_inv db"
  shows "provider_inv db'"
  using assms
proof (induction rule: posix_step.induct)
  case (Group_released db g now n db')
  then show ?case using release_project_group_gid_inv [of db g now] by simp
next
  case (Consumer_released db c now n db')
  then show ?case using release_posix_allocations_inv [of db c now] by simp
next
  case (Pool_created db pk p db1 new now n db')
  note inv1 = create_pool_inv [OF Pool_created.prems Pool_created.hyps(1)]
  show ?case
    using inv1 get_pool_member [OF Pool_created.hyps(2)] Pool_created.hyps(3,4)
    by (rule register_existing_gids_inv)
next
  case (Shared_values_projected db ou p chs db')
  then show ?case using project_shared_values_inv [of db ou p] by simp
next
  case (Collapsed db gs now e db')
  then show ?case using apply_collapse_inv [of db gs now] by simp
next
  case (Repointed db p now res db')
  then show ?case
    using repoint_inv by (auto simp: apply_repoint_def split: sum.splits prod.splits)
next
  case (Accounts_changed db pgs pas ous)
  have "provider_inv (db\<lparr>project_groups := pgs, provider_accounts := pas, offering_users := ous\<rparr>)"
    using Accounts_changed by (simp only: provider_inv_other_tables)
  moreover have "db\<lparr>project_groups := pgs, provider_accounts := pas, offering_users := ous\<rparr> =
      db\<lparr>offering_users := ous, provider_accounts := pas, project_groups := pgs\<rparr>" by simp
  ultimately show ?case by (simp only:)
qed (blast intro: allocate_inv set_value_inv allocate_gid_inv set_project_group_gid_inv
      update_pool_inv delete_pool_inv)+

interpretation posix: invariant_system posix_step provider_inv
  by unfold_locales (rule posix_step_inv)

text \<open>What the invariant means for two active rows of one provider.\<close>

lemma provider_inv_unique:
  assumes inv: "provider_inv db" and "p \<in> set (pools db)" "q \<in> set (pools db)"
    and "pool_customer db p = pool_customer db q"
    and "i \<in> set (identities db)" "j \<in> set (identities db)" "active i" "active j"
    and "ident_pool i = pool_pk p" "ident_pool j = pool_pk q"
    and "ident_value ns i = Some v" "ident_value ns j = Some v"
  shows "i = j"
proof (cases "pool_pk p = pool_pk q")
  case True
  then show ?thesis
    using table_ok_same_value [OF provider_invD(1) [OF inv]] assms(5-12) by simp
next
  case False
  then have "siblings db p q" using assms(4) by (simp add: siblings_def)
  then have "claims db p ns \<inter> claims db q ns = {}" using provider_invD(3) [OF inv assms(2,3)] by blast
  moreover have "v \<in> claims db p ns" "v \<in> claims db q ns"
    using assms(5-12) by (auto simp: claims_def in_use_iff)
  ultimately show ?thesis by blast
qed

lemma provider_inv_no_pools:
  "pools db = [] \<Longrightarrow> identities db = [] \<Longrightarrow> inj (sp_customer db) \<Longrightarrow> provider_inv db"
  by (simp add: provider_inv_def table_ok_def identities_ok_def pools_ok_def)

end
