(* ===== verification/Posix_Withheld.thy ===== *)
theory Posix_Withheld
  imports Posix_Steps
begin

text \<open>
  Withheld values: those of released rows with \<open>recyclable = False\<close>.  No operation short of
  deleting the pool takes a value out of that set, so the relation \<open>keeps_withheld\<close> makes the
  component a \<open>monotone_system\<close>.
\<close>

definition keeps_withheld :: "posix_db \<Rightarrow> posix_db \<Rightarrow> bool" where
  "keeps_withheld db db' \<longleftrightarrow> (\<forall>pk ns. withheld db pk ns \<subseteq> withheld db' pk ns)"

lemma keeps_withheld_refl [simp]: "keeps_withheld db db"
  by (simp add: keeps_withheld_def)

lemma keeps_withheld_trans: "keeps_withheld a b \<Longrightarrow> keeps_withheld b c \<Longrightarrow> keeps_withheld a c"
  unfolding keeps_withheld_def by blast

lemma keeps_same_identities: "identities db' = identities db \<Longrightarrow> keeps_withheld db db'"
  by (simp add: keeps_withheld_def withheld_def)

text \<open>The rows that matter, and what a rewritten row has to keep.\<close>

definition still_withheld :: "identity \<Rightarrow> identity \<Rightarrow> bool" where
  "still_withheld i j \<longleftrightarrow>
     (\<not> active i \<and> \<not> recyclable i \<longrightarrow>
        \<not> active j \<and> \<not> recyclable j \<and> ident_pool j = ident_pool i \<and>
        (\<forall>ns. ident_value ns j = ident_value ns i))"

lemma keeps_withheldI:
  assumes "\<And>i. i \<in> set (identities db) \<Longrightarrow> \<exists>j\<in>set (identities db'). still_withheld i j"
  shows "keeps_withheld db db'"
  unfolding keeps_withheld_def
proof (intro allI subsetI)
  fix pk ns v assume "v \<in> withheld db pk ns"
  then obtain i where i: "i \<in> set (identities db)" "ident_pool i = pk" "\<not> active i" "\<not> recyclable i"
      "ident_value ns i = Some v" by (auto simp: withheld_def)
  then obtain j where "j \<in> set (identities db')" "still_withheld i j" using assms by blast
  then show "v \<in> withheld db' pk ns" using i by (auto simp: withheld_def still_withheld_def)
qed

lemma still_withheld_refl [simp]: "still_withheld i i"
  by (simp add: still_withheld_def)

lemma still_withheld_active: "active i \<Longrightarrow> still_withheld i j"
  by (simp add: still_withheld_def)

lemma keeps_update:
  assumes "\<And>i. i \<in> set (identities db) \<Longrightarrow> q i \<Longrightarrow> still_withheld i (f i)"
  shows "keeps_withheld db (snd (update_identities db q f))"
proof (rule keeps_withheldI)
  fix i assume i: "i \<in> set (identities db)"
  then have "(if q i then f i else i) \<in> set (identities (snd (update_identities db q f)))"
    by (simp add: update_identities_def db_simps)
  moreover have "still_withheld i (if q i then f i else i)" using assms [OF i] by simp
  ultimately show "\<exists>j\<in>set (identities (snd (update_identities db q f))). still_withheld i j" by blast
qed

lemma keeps_create: "create_identity db i = Inr (i', db') \<Longrightarrow> keeps_withheld db db'"
  using create_identity_rows(4) [of db i i' db'] by (intro keeps_withheldI) (metis still_withheld_refl subsetD)

lemma keeps_save:
  assumes "save_identity db i = Inr db'" "table_ok db" "j \<in> set (identities db)"
    and "ident_pk i = ident_pk j" "still_withheld j i"
  shows "keeps_withheld db db'"
proof (rule keeps_withheldI)
  fix k assume k: "k \<in> set (identities db)"
  have rows: "identities db' = update_rows (\<lambda>j. ident_pk j = ident_pk i) (\<lambda>_. i) (identities db)"
    using assms(1) by (auto simp: save_identity_def split: if_splits)
  show "\<exists>l\<in>set (identities db'). still_withheld k l"
  proof (cases "ident_pk k = ident_pk i")
    case True
    then have "k = j" using table_ok_pk_inj [OF assms(2) k assms(3)] assms(4) by simp
    moreover have "i \<in> set (identities db')" using k True by (auto simp: rows db_simps image_iff)
    ultimately show ?thesis using assms(5) by blast
  next
    case False
    then have "k \<in> set (identities db')" using k by (auto simp: rows db_simps image_iff)
    then show ?thesis by (intro bexI [of _ k]) simp_all
  qed
qed

subsection \<open>Allocation and pinning\<close>

lemma keeps_same_inactive:
  assumes "filter (\<lambda>j. \<not> active j) (identities db') = filter (\<lambda>j. \<not> active j) (identities db)"
  shows "keeps_withheld db db'"
proof -
  have "withheld db' pk ns = withheld db pk ns" for pk ns using assms by (rule same_inactive)
  then show ?thesis by (simp add: keeps_withheld_def)
qed

lemma keeps_got: "got_row db db1 p pr i \<Longrightarrow> keeps_withheld db db1"
  unfolding got_row_def by (rule keeps_same_inactive, elim conjE disjE) simp_all

lemma keeps_allocate_in_pool:
  assumes "table_ok db" "p \<in> set (pools db)" "manages r p"
    and "allocate_in_pool db p r pr oid recycle now = Inr (v, db')"
  shows "keeps_withheld db db'"
  using assms(1-3)
proof (cases rule: allocate_in_pool_total [of db p r pr oid recycle now])
  case (granted w d)
  then have "d = db'" using assms(4) by simp
  then show ?thesis using granted by (simp add: allocated_def keeps_withheld_def)
qed (use assms(4) in simp_all)

lemma keeps_allocate:
  assumes "table_ok db" "allocate db off ns c now = Inr (x, db')"
  shows "keeps_withheld db db'"
proof -
  consider "db' = db" | p v where "resolve db off = Some p" "manages (Own ns) p"
        "allocate_in_pool db p (Own ns) (principal_filter c) (Some (off_pk off)) True now = Inr (v, db')"
    using assms(2) by (auto simp: allocate_def result_simps split: if_splits option.splits)
  then show ?thesis
    by cases (auto dest: keeps_allocate_in_pool [OF assms(1) resolve_pool])
qed

lemma keeps_allocate_gid:
  assumes "table_ok db" "allocate_gid db g now = Inr (x, db')"
  shows "keeps_withheld db db'"
proof -
  consider "db' = db"
    | y db1 rows where "allocate_project_group_gid db g now = Inr (y, db1)"
        "db' = db1 \<or> db' = db1\<lparr>project_groups := rows\<rparr>"
    using assms(2)
    by (auto simp: allocate_gid_def Let_def split: if_splits sum.splits posix_error.splits
        option.splits prod.splits)
  then show ?thesis
  proof cases
    case 1
    then show ?thesis by simp
  next
    case 2
    then consider "db1 = db"
      | p r v where "provider_pool db (pg_provider g) = Some p" "group_range (Some p) = Some r"
        "allocate_in_pool db p r (principal_filter (ServiceProviderProjectGroup (pg_pk g))) None False now
           = Inr (v, db1)"
      by (auto simp: allocate_project_group_gid_def result_simps split: option.splits)
    then have "keeps_withheld db db1"
      by cases (auto dest: keeps_allocate_in_pool [OF assms(1)] provider_pool_row group_range_manages)
    then show ?thesis using 2(2) keeps_same_identities [of db' db1] keeps_withheld_trans by auto
  qed
qed

lemma keeps_set_value:
  assumes "table_ok db" "set_value db c ns v off now = Inr db'"
  shows "keeps_withheld db db'"
proof -
  from assms(2) obtain p where p: "resolve db off = Some p" by (auto simp: set_value_def split: option.splits)
  note mem = resolve_pool [OF p]
  obtain i db1 where c: "get_or_create_active_identity db (principal_filter c) p (Some (off_pk off)) now
      = Inr (i, db1)" and got: "got_row db db1 p (principal_filter c) i"
    using assms(1) mem by (rule get_or_create_total)
  have row: "table_ok db1" "i \<in> set (identities db1)" "active i" using got by (simp_all add: got_row_def)
  have "db' = db1 \<or> save_identity db1 (set_ident_value ns (Some v) i) = Inr db'"
    using assms(2) p by (auto simp: set_value_def get_pool_row [OF assms(1) mem] c split: if_splits sum.splits)
  then have "keeps_withheld db1 db'"
    using keeps_save [OF _ row(1,2)] still_withheld_active [OF row(3)] by fastforce
  then show ?thesis using keeps_got [OF got] keeps_withheld_trans by blast
qed

lemma keeps_displace:
  assumes "table_ok db" "p \<in> set (pools db)" "io = active_identity db p (group_row g)"
    and "displace_gid db p g io now = Inr (io', db1)"
  shows "keeps_withheld db db1"
proof -
  have i: "i \<in> set (identities db) \<and> active i" if "io = Some i" for i
    using that assms(3) first_row_Some
      [of "\<lambda>i. ident_pool i = pool_pk p \<and> active i \<and> owned_by (group_row g) i" "identities db" i]
    by (simp add: active_identity_def)
  consider j where "io = Some j" "save_identity db (release_row now j) = Inr db1"
    | "db1 = db" | r b where "create_identity db b = Inr (r, db1)"
    using assms(4) by (fastforce simp: displace_gid_def result_simps split: option.splits if_splits)
  then show ?thesis
  proof cases
    case 1
    then show ?thesis
      using keeps_save [OF 1(2) assms(1)] i still_withheld_active by (auto simp: release_row_def)
  next
    case 2
    then show ?thesis by simp
  next
    case 3
    then show ?thesis by (rule keeps_create)
  qed
qed

lemma keeps_write:
  assumes "table_ok db" "\<And>i. io = Some i \<Longrightarrow> i \<in> set (identities db) \<and> active i"
    and "write_group_identity db p g io v now = Inr db'"
  shows "keeps_withheld db db'"
proof (cases io)
  case None
  then show ?thesis using assms(3) keeps_create by (auto simp: write_group_identity_def result_simps)
next
  case (Some i)
  then have s: "save_identity db (set_ident_value GID (Some v) i) = Inr db'"
    using assms(3) by (simp add: write_group_identity_def)
  show ?thesis
    using keeps_save [OF s assms(1)] assms(2) [OF Some] still_withheld_active by auto
qed

lemma keeps_set_project_group_gid:
  assumes "table_ok db" "set_project_group_gid db g v allow now = Inr (prev, db')"
  shows "keeps_withheld db db'"
proof -
  obtain p where p: "provider_pool db (pg_provider g) = Some p"
    using assms(2) by (auto simp: set_project_group_gid_def Let_def split: option.splits)
  note mem = provider_pool_row [OF p]
  let ?io = "active_identity db p (group_row g)"
  have "pin_group_gid db p g v now = Inr (prev, db')"
    using assms(2) p get_pool_row [OF assms(1)] mem
    by (auto simp: set_project_group_gid_def Let_def result_simps split: option.splits)
  then show ?thesis
  proof (cases rule: pin_group_gid_cases)
    case unchanged
    then show ?thesis by simp
  next
    case recorded
    then show ?thesis using keeps_write [OF assms(1) _ recorded(1)] by simp
  next
    case (moved io' db1 db2)
    have sp: "p \<in> set (pools db)" "service_provider p \<noteq> None" using mem by simp_all
    note d = displace_gid_adds [OF assms(1) sp refl moved(1)]
    have "table_ok db1" using d(1) [of "{}"] by (simp add: adds_at_most_def)
    then have "keeps_withheld db1 db2" using d(3) by (intro keeps_write [OF _ _ moved(2)]) blast+
    moreover have "keeps_withheld db db1" using assms(1) sp(1) refl moved(1) by (rule keeps_displace)
    moreover have "keeps_withheld db2 db'" by (rule keeps_same_identities) (simp add: moved(3) save_group_gid_def)
    ultimately show ?thesis using keeps_withheld_trans by blast
  qed
qed

subsection \<open>Releases, registration and maintenance\<close>

lemma keeps_release_user: "keeps_withheld db (snd (release_user_allocations db u recyc now))"
  by (auto simp: release_user_allocations_def Let_def split: option.split
      intro!: keeps_update still_withheld_active)

lemma keeps_release_posix: "keeps_withheld db (snd (release_posix_allocations db c now))"
proof -
  let ?r = "update_identities db
            (\<lambda>i. owned_by (Row_principal (content_type_of c) (consumer_pk c)) i \<and> active i)
            (\<lambda>i. i\<lparr>released_at := Some now\<rparr>)"
  have 1: "keeps_withheld db (snd ?r)" by (rule keeps_update) (simp add: still_withheld_active)
  then have "keeps_withheld db (snd (release_user_allocations (snd ?r) u True now))" for u
    using keeps_release_user keeps_withheld_trans by blast
  with 1 show ?thesis
    by (simp add: release_posix_allocations_def Let_def case_prod_beta split: option.split)
qed

lemma keeps_release_group: "keeps_withheld db (snd (release_project_group_gid db g now))"
  unfolding release_project_group_gid_def by (rule keeps_update) (simp add: still_withheld_active)

lemma keeps_register: "register_existing_gids db p now = Inr (n, db') \<Longrightarrow> keeps_withheld db db'"
proof (cases "service_provider p")
  case (Some sp)
  assume "register_existing_gids db p now = Inr (n, db')"
  note run = this [unfolded register_existing_gids_def Some option.case]
  have "keeps_withheld db (snd (n, db'))"
  proof (rule rfold_invariant [OF run, where P = "\<lambda>a. keeps_withheld db (snd a)"])
    fix a g a' assume a: "keeps_withheld db (snd a)" and "register_gid p now a g = Inr a'"
    then have "a' = a \<or> (\<exists>b r. create_identity (snd a) b = Inr (r, snd a'))"
      by (fastforce simp: register_gid_def Let_def result_simps split: option.splits if_splits)
    then show "keeps_withheld db (snd a')" using a keeps_create keeps_withheld_trans by blast
  qed simp
  then show ?thesis by simp
qed (simp add: register_existing_gids_def)

lemma keeps_apply_metadata [simp]: "keeps_withheld db (apply_metadata_changes d ou chs) = keeps_withheld db d"
  by (simp add: apply_metadata_changes_def Let_def keeps_withheld_def withheld_def)

lemma keeps_project_shared: "keeps_withheld db (snd (project_shared_values db ou p))"
proof -
  have "keeps_withheld db (snd acc) \<Longrightarrow> keeps_withheld db (snd (fold (project_one u g) ous acc))" for acc ous u g
    by (induction ous arbitrary: acc) (simp_all add: project_one_def Let_def case_prod_beta)
  then show ?thesis by (simp add: project_shared_values_def split: option.split)
qed

lemma release_row_still: "still_withheld i (release_row now i)"
proof -
  have "ident_value ns (release_row now i) = ident_value ns i" for ns
    by (cases ns) (simp_all add: release_row_def)
  then show ?thesis by (simp add: still_withheld_def release_row_def active_def)
qed

lemma keeps_apply_group:
  assumes "table_ok db" "apply_group db g now = Inr db'"
  shows "keeps_withheld db db'"
proof -
  let ?q = "\<lambda>i. ident_pk i \<in> set (map ident_pk (cg_superseded g))"
  let ?d = "snd (update_identities db ?q (release_row now))"
  have 1: "keeps_withheld db ?d" by (rule keeps_update) (rule release_row_still)
  have tab: "table_ok ?d"
    using release_rows_ok [OF assms(1) releases_at(3)] by (simp add: update_identities_def)
  obtain db2 where c: "claim_for_user ?d (cg_canonical g) (cg_user g) = Inr db2"
    and db': "db' = fold (apply_change_rows (cg_changes g)) (remdups (map ch_offering_user (cg_changes g))) db2"
    using assms(2) by (auto simp: apply_group_def Let_def case_prod_beta result_simps)
  have "keeps_withheld ?d db2"
  proof (cases "db2 = ?d")
    case False
    then obtain i where i: "i \<in> set (identities ?d)"
      "save_identity ?d (i\<lparr>ident_user := Some (cg_user g), ident_content_type := None, ident_object_id := None\<rparr>)
         = Inr db2" (is "save_identity _ ?i = _")
      using c by (auto simp: claim_for_user_def dest: first_row_Some split: option.splits if_splits)
    have "ident_value ns ?i = ident_value ns i" for ns by (cases ns) simp_all
    then have "still_withheld i ?i" by (simp add: still_withheld_def active_def)
    then show ?thesis using keeps_save [OF i(2) tab i(1)] by simp
  qed simp
  moreover have "keeps_withheld x d \<Longrightarrow> keeps_withheld x (apply_change_rows chs k d)" for x chs k d
    by (simp add: apply_change_rows_def split: option.split)
  then have "keeps_withheld x d \<Longrightarrow> keeps_withheld x (fold (apply_change_rows chs) ks d)" for x chs ks d
    by (induction ks arbitrary: d) simp_all
  ultimately show ?thesis using 1 db' keeps_withheld_trans by blast
qed

lemma keeps_apply_collapse:
  "provider_inv db \<Longrightarrow> keeps_withheld db (snd (apply_collapse db gs now))"
proof (induction db gs now rule: apply_collapse.induct)
  case (2 db g gs now)
  then show ?case
    using keeps_apply_group [OF provider_invD(1)] apply_group_inv keeps_withheld_trans
    by (fastforce split: sum.split)
qed simp

lemma keeps_repoint:
  assumes "provider_inv db" "repoint db p now = Inr (res, db')"
  shows "keeps_withheld db db'"
proof -
  obtain off where off: "pool_offering p = Some off"
    using assms(2) by (auto simp: repoint_def split: option.splits)
  define ous where "ous = filter (\<lambda>ou. ou_offering ou = off) (offering_users db)"
  obtain acc where r: "rfold (repoint_account (offering_row db off) now) ([], db) ous = Inr acc"
    and db': "db' = snd (snd (fold (release_left p now) (remdups (map ou_user ous)) (0, 0, snd acc)))"
    using assms(2) by (auto simp: repoint_def off Let_def ous_def [symmetric] case_prod_beta result_simps)
  have "provider_inv (snd acc) \<and> keeps_withheld db (snd acc)"
    using r
  proof (rule rfold_invariant [where P = "\<lambda>a. provider_inv (snd a) \<and> keeps_withheld db (snd a)"])
    fix a ou a' assume a: "provider_inv (snd a) \<and> keeps_withheld db (snd a)"
      and s: "repoint_account (offering_row db off) now a ou = Inr a'"
    let ?c = "OfferingUser (ou_pk ou) (ou_user ou)" and ?off = "offering_row db off"
    have nc: "\<not> is_group_consumer ?c" by (simp add: is_group_consumer_def)
    obtain uid db1 where a1: "allocate (snd a) ?off UID ?c now = Inr (uid, db1)"
      using s by (auto simp: repoint_account_def Let_def case_prod_beta result_simps)
    obtain gid db2 where a2: "allocate db1 ?off GID ?c now = Inr (gid, db2)"
      using s a1 by (auto simp: repoint_account_def Let_def case_prod_beta result_simps)
    have acc': "snd a' = (if metadata_changes db2 ou uid gid = [] then db2
                     else apply_metadata_changes db2 ou (metadata_changes db2 ou uid gid))"
      using s a1 a2 by (auto simp: repoint_account_def Let_def case_prod_beta split: if_splits)
    have "provider_inv db1" using a allocate_inv [OF _ nc a1] by blast
    then have "keeps_withheld (snd a) db2"
      using keeps_allocate [OF _ a1] keeps_allocate [OF _ a2] provider_invD(1) a keeps_withheld_trans by blast
    then have "keeps_withheld db (snd a')" using a acc' keeps_withheld_trans by auto
    then show "provider_inv (snd a') \<and> keeps_withheld db (snd a')"
      using repoint_account_inv [OF _ s] a by blast
  qed (use assms(1) in simp)
  moreover have "keeps_withheld x (snd (snd a)) \<Longrightarrow>
      keeps_withheld x (snd (snd (fold (release_left p now) us a)))" for x us a
  proof (induction us arbitrary: a)
    case (Cons u us)
    have "keeps_withheld x (snd (snd (release_left p now u a)))"
      using Cons.prems keeps_release_user keeps_withheld_trans
      by (auto simp: release_left_def Let_def case_prod_beta)
    then show ?case using Cons.IH by simp
  qed simp
  ultimately show ?thesis unfolding db' by simp
qed

subsection \<open>Runs that delete no pool\<close>

definition kept_step :: "posix_db \<Rightarrow> posix_db \<Rightarrow> bool" where
  "kept_step db db' \<longleftrightarrow> posix_step db db' \<and> pool_pk ` set (pools db) \<subseteq> pool_pk ` set (pools db')"

lemma keeps_delete_pool:
  assumes "table_ok db" "delete_pool db p = Inr db'" "pool_pk ` set (pools db) \<subseteq> pool_pk ` set (pools db')"
  shows "keeps_withheld db db'"
proof -
  have db': "pools db' = filter (\<lambda>q. pool_pk q \<noteq> pool_pk p) (pools db)"
      "identities db' = filter (\<lambda>i. ident_pool i \<noteq> pool_pk p) (identities db)"
    using assms(2) by (auto simp: delete_pool_def split: if_splits)
  have "pool_pk p \<notin> pool_pk ` set (pools db')" by (auto simp: db')
  then have "pool_pk p \<notin> pool_pk ` set (pools db)" using assms(3) by blast
  then have "i \<in> set (identities db) \<Longrightarrow> ident_pool i \<noteq> pool_pk p" for i
    using assms(1) unfolding table_ok_def by metis
  then have "identities db' = identities db" by (simp add: db' filter_id_conv)
  then show ?thesis by (rule keeps_same_identities)
qed

lemma kept_step_keeps:
  assumes "provider_inv db" "kept_step db db'"
  shows "keeps_withheld db db'"
proof -
  have "posix_step db db'" "pool_pk ` set (pools db) \<subseteq> pool_pk ` set (pools db')"
    using assms(2) by (simp_all add: kept_step_def)
  then show ?thesis
    using assms(1)
  proof (induction rule: posix_step.induct)
    case (Group_released db g now n db')
    then show ?case using keeps_release_group [of db g now] by simp
  next
    case (Consumer_released db c now n db')
    then show ?case using keeps_release_posix [of db c now] by simp
  next
    case (Pool_created db pk p db1 new now n db')
    have "keeps_withheld db db1"
      using Pool_created.hyps(1) by (rule create_pool_row) (simp add: keeps_same_identities)
    then show ?case using keeps_register [OF Pool_created.hyps(4)] keeps_withheld_trans by blast
  next
    case (Pool_updated db inst a db')
    then show ?case
      by (intro keeps_same_identities) (auto simp: update_pool_def Let_def result_simps split: if_splits)
  next
    case (Pool_deleted db p db')
    then show ?case using keeps_delete_pool provider_invD(1) by blast
  next
    case (Shared_values_projected db ou p chs db')
    then show ?case using keeps_project_shared [of db ou p] by simp
  next
    case (Collapsed db gs now e db')
    then show ?case using keeps_apply_collapse [of db gs now] by simp
  next
    case (Repointed db p now res db')
    then show ?case
      using keeps_repoint by (auto simp: apply_repoint_def split: sum.splits prod.splits)
  next
    case (Accounts_changed db pgs pas ous)
    then show ?case by (intro keeps_same_identities) simp
  qed (blast intro: keeps_allocate keeps_set_value keeps_allocate_gid keeps_set_project_group_gid
      provider_invD(1))+
qed

interpretation withheld_values: monotone_system kept_step provider_inv keeps_withheld
proof unfold_locales
  fix s t u assume "keeps_withheld s t" "keeps_withheld t u"
  then show "keeps_withheld s u" by (rule keeps_withheld_trans)
next
  fix s t assume "provider_inv s" "kept_step s t"
  then show "provider_inv t" using posix_step_inv by (auto simp: kept_step_def)
qed (simp_all add: kept_step_keeps)

end
