(* ===== verification/Posix_Concurrency.thy ===== *)
theory Posix_Concurrency
  imports Posix_Alloc_Spec
begin

text \<open>
  Concurrent calls of \<open>_allocate_in_pool\<close> on one range.  The first read of the function runs
  without a lock, so a call is two atomic actions: the unlocked check, and the block that runs
  under the pool's row lock.  \<open>alloc_step\<close> interleaves the actions of any number of calls; the
  theorems hold for every interleaving.
\<close>

datatype phase =
    Called
  | Found_nothing                        \<comment> \<open>the unlocked check found no value; waits for the lock\<close>
  | Returned "(posix_error, int) result"

record call =
  by_principal :: principal
  for_offering :: "nat option"
  call_time :: timestamp
  call_phase :: phase

type_synonym alloc_state = "posix_db \<times> call list"

definition unlocked_check :: "pool \<Rightarrow> range_name \<Rightarrow> posix_db \<Rightarrow> call \<Rightarrow> call" where
  "unlocked_check p r db c =
     c\<lparr>call_phase := (case held_value db p r (by_principal c) of
                        Some v \<Rightarrow> Returned (Inr v)
                      | None \<Rightarrow> Found_nothing)\<rparr>"

definition locked_block :: "pool \<Rightarrow> range_name \<Rightarrow> bool \<Rightarrow> posix_db \<Rightarrow> call \<Rightarrow> posix_db \<times> call" where
  "locked_block p r recycle db c =
     (case allocate_locked db (pool_pk p) r (by_principal c) (for_offering c) recycle (call_time c) of
        Inl e \<Rightarrow> (db, c\<lparr>call_phase := Returned (Inl e)\<rparr>)
      | Inr (v, db') \<Rightarrow> (db', c\<lparr>call_phase := Returned (Inr v)\<rparr>))"

inductive alloc_step :: "pool \<Rightarrow> range_name \<Rightarrow> bool \<Rightarrow> alloc_state \<Rightarrow> alloc_state \<Rightarrow> bool"
  for p r recycle where
  Checks: "n < length calls \<Longrightarrow> call_phase (calls ! n) = Called \<Longrightarrow>
     alloc_step p r recycle (db, calls) (db, calls[n := unlocked_check p r db (calls ! n)])"
| Locks: "n < length calls \<Longrightarrow> call_phase (calls ! n) = Found_nothing \<Longrightarrow>
     locked_block p r recycle db (calls ! n) = (db', c) \<Longrightarrow>
     alloc_step p r recycle (db, calls) (db', calls[n := c])"

text \<open>Every call that has returned a value, holds that value.\<close>

definition calls_inv :: "pool \<Rightarrow> range_name \<Rightarrow> alloc_state \<Rightarrow> bool" where
  "calls_inv p r st \<longleftrightarrow> registry_ok (pool_pk p) r (fst st) \<and>
     (\<forall>c\<in>set (snd st). \<forall>v. call_phase c = Returned (Inr v) \<longrightarrow>
        registry_lookup p r (fst st) (by_principal c) = Some v)"

lemma allocate_locked_held:
  assumes "table_ok db" "p \<in> set (pools db)" "manages r p" "held_value db p r pr = Some w"
    and "allocate_locked db (pool_pk p) r pr oid recycle now = Inr (v, db')"
  shows "v = w \<and> allocated db p r pr v db'"
proof -
  have h: "holds db (pool_pk p) (column r) pr w" using assms(4) held_value_iff [OF assms(1)] by simp
  have a: "allocated db p r pr v db'"
    using assms(1-3)
    by (cases rule: allocate_locked_total [of db p r pr oid recycle now]) (use assms(5) in auto)
  then have t: "table_ok db'" "holds db' (pool_pk p) (column r) pr v" by (simp_all add: allocated_def)
  have e: "entries db' = entries db"
  proof -
    have "\<exists>w. holds db (pool_pk p) (column r) pr w" using h by blast
    then show ?thesis using a by (simp add: allocated_def)
  qed
  obtain i where i: "i \<in> set (identities db')" "active i" "ident_pool i = pool_pk p" "owned_by pr i"
      "ident_value (column r) i = Some v" using t(2) by (auto simp: holds_def)
  obtain j where j: "j \<in> set (identities db)" "active j" "ident_pool j = pool_pk p" "owned_by pr j"
      "ident_value (column r) j = Some w" using h by (auto simp: holds_def)
  have "(ident_pk i, pool_pk p, column r, v) \<in> entries db'" using i by (auto simp: entries_def)
  then have "(ident_pk i, pool_pk p, column r, v) \<in> entries db" by (simp add: e)
  then obtain k where k: "k \<in> set (identities db)" "active k" "ident_pool k = pool_pk p"
      "ident_pk k = ident_pk i" "ident_value (column r) k = Some v" by (auto simp: entries_def)
  have "k = j"
  proof (cases "owned_by pr k")
    case True
    then show ?thesis using table_ok_same_owner [OF assms(1) k(1) j(1)] k j by simp
  next
    case False
    then have "k \<in> set (identities db')" using a k(1) unfolding allocated_def by blast
    then have "k = i" using table_ok_pk_inj [OF t(1) _ i(1)] k(4) by blast
    then show ?thesis using False i by simp
  qed
  then show ?thesis using k j a by simp
qed

text \<open>The locked block alone already is an acquisition: its second check makes it idempotent.\<close>

lemma allocate_locked_acquires:
  assumes "registry_ok (pool_pk p) r db"
    and "allocate_locked db (pool_pk p) r pr oid recycle now = Inr (v, db')"
  shows "registry_ok (pool_pk p) r db' \<and> registry_lookup p r db' pr = Some v \<and>
    (\<forall>pr' w. registry_lookup p r db pr' = Some w \<longrightarrow> registry_lookup p r db' pr' = Some w)"
proof -
  have tab: "table_ok db" using assms(1) by (simp add: registry_ok_def)
  obtain q where q: "q \<in> set (pools db)" "pool_pk q = pool_pk p" "manages r q"
    using assms(1) by (auto simp: registry_ok_def list_ex_iff)
  have a: "allocated db q r pr v db'"
    using tab q(1,3)
    by (cases rule: allocate_locked_total [of db q r pr oid recycle now]) (use assms(2) q(2) in auto)
  then have f: "pools_frame db db'" "table_ok db'" "holds db' (pool_pk p) (column r) pr v"
    using q(2) by (simp_all add: allocated_def)
  obtain q' where "q' \<in> set (pools db')" "static q = static q'"
    using pools_frame_row [OF pools_frame_sym [OF f(1)] q(1)] by blast
  then have ok: "registry_ok (pool_pk p) r db'"
    using f(2) q(2,3) static_eqD [of q q'] by (auto simp: registry_ok_def list_ex_iff)
  have l: "registry_lookup p r db' pr = Some v"
    using f held_value_iff [OF f(2)] by (simp add: registry_lookup_def)
  have "registry_lookup p r db' pr' = Some w" if w: "registry_lookup p r db pr' = Some w" for pr' w
  proof (cases "pr' = pr")
    case True
    have "held_value db q r pr = Some w"
      using w True same_pk_pool(1) [OF q(2)] by (simp add: registry_lookup_def)
    then have "v = w" using allocate_locked_held [OF tab q(1,3)] assms(2) q(2) by simp
    then show ?thesis using l True by simp
  next
    case False
    have "holds db (pool_pk p) (column r) pr' w"
      using w held_value_iff [OF tab] by (simp add: registry_lookup_def)
    then have "holds db' (pool_pk p) (column r) pr' w"
      using allocated_holds_other [OF a tab False] q(2) by simp
    then show ?thesis using held_value_iff [OF f(2)] by (simp add: registry_lookup_def)
  qed
  then show ?thesis using ok l by blast
qed

lemma calls_inv_step:
  assumes "calls_inv p r s" "alloc_step p r recycle s t"
  shows "calls_inv p r t"
  using assms(2,1)
proof (induction rule: alloc_step.induct)
  case (Checks n calls db)
  let ?c = "unlocked_check p r db (calls ! n)"
  have "registry_lookup p r db (by_principal ?c) = Some v" if "call_phase ?c = Returned (Inr v)" for v
    using that by (simp add: unlocked_check_def registry_lookup_def split: option.splits)
  then show ?case
    using Checks set_update_subset_insert [of calls n ?c] by (auto simp: calls_inv_def)
next
  case (Locks n calls db db' c)
  let ?c = "calls ! n"
  show ?case
  proof (cases "allocate_locked db (pool_pk p) r (by_principal ?c) (for_offering ?c) recycle (call_time ?c)")
    case (Inl e)
    then show ?thesis
      using Locks set_update_subset_insert [of calls n c] by (auto simp: calls_inv_def locked_block_def)
  next
    case (Inr x)
    obtain v d where x: "x = (v, d)" by (cases x)
    have c: "db' = d" "c = ?c\<lparr>call_phase := Returned (Inr v)\<rparr>"
      using Locks(3) Inr x by (simp_all add: locked_block_def)
    have ok: "registry_ok (pool_pk p) r db" using Locks.prems by (simp add: calls_inv_def)
    note a = allocate_locked_acquires [OF ok Inr [unfolded x]]
    show ?thesis
      unfolding calls_inv_def
    proof (intro conjI ballI allI impI)
      show "registry_ok (pool_pk p) r (fst (db', calls[n := c]))" using a c by simp
      fix b w assume b: "b \<in> set (snd (db', calls[n := c]))" "call_phase b = Returned (Inr w)"
      then consider "b = c" | "b \<in> set calls"
        using set_update_subset_insert [of calls n c] by auto
      then show "registry_lookup p r (fst (db', calls[n := c])) (by_principal b) = Some w"
      proof cases
        case 1
        then show ?thesis using a b c by simp
      next
        case 2
        then have "registry_lookup p r db (by_principal b) = Some w"
          using Locks.prems b(2) by (auto simp: calls_inv_def)
        then show ?thesis using a c by simp
      qed
    qed
  qed
qed

interpretation calls: invariant_system "alloc_step p r recycle" "calls_inv p r" for p r recycle
  by unfold_locales (rule calls_inv_step)

lemma calls_inv_start:
  "registry_ok (pool_pk p) r db \<Longrightarrow> list_all (\<lambda>c. call_phase c = Called) calls \<Longrightarrow> calls_inv p r (db, calls)"
  by (auto simp: calls_inv_def list_all_iff)

lemma calls_inv_values:
  assumes "calls_inv p r (db, calls)" "c \<in> set calls" "c' \<in> set calls"
    and "call_phase c = Returned (Inr v)" "call_phase c' = Returned (Inr v')"
  shows "by_principal c = by_principal c' \<longleftrightarrow> v = v'"
proof -
  have l: "registry_lookup p r db (by_principal c) = Some v"
      "registry_lookup p r db (by_principal c') = Some v'" "registry_ok (pool_pk p) r db"
    using assms by (auto simp: calls_inv_def)
  show ?thesis
    using l(1,2) allocator.lookup_unshared [OF l(3), of "by_principal c" v "by_principal c'"] by auto
qed

end
