(* ===== verification/Posix_Examples.thy ===== *)
theory Posix_Examples
  imports Posix_Withheld Posix_Concurrency
begin

text \<open>
  Concrete databases on which the theorems of \<open>Posix_Properties\<close> are instantiated: a provider
  with its own pool and an offering with a pool of its own, accounts of two users, and released
  rows of both kinds.
\<close>

definition demo_pool :: pool where
  "demo_pool = \<lparr>pool_pk = 11, service_provider = Some 3, pool_offering = None,
     min_uid = Some 2000, max_uid = Some 2004, next_uid = Some 2003,
     min_gid = Some 2000, max_gid = Some 2001, next_gid = Some 2001,
     min_group_gid = Some 5000, max_group_gid = Some 5002, next_group_gid = Some 5000\<rparr>"

definition demo_override :: pool where
  "demo_override = \<lparr>pool_pk = 12, service_provider = None, pool_offering = Some 20,
     min_uid = Some 3000, max_uid = Some 3001, next_uid = Some 3000,
     min_gid = None, max_gid = None, next_gid = None,
     min_group_gid = None, max_group_gid = None, next_group_gid = None\<rparr>"

definition demo_identity :: "nat \<Rightarrow> nat \<Rightarrow> int \<Rightarrow> int option \<Rightarrow> nat \<Rightarrow> identity" where
  "demo_identity k pk u g user =
     \<lparr>ident_pk = k, ident_pool = pk, ident_uid = Some u, ident_gid = g, ident_user = Some user,
      ident_content_type = None, ident_object_id = None, ident_offering = Some 10,
      released_at = None, recyclable = True, ident_created = 0\<rparr>"

definition demo_options :: plugin_options where
  "demo_options = \<lparr>enable_posix_account = None, uid_source = None, gid_source = None\<rparr>"

definition demo_offering :: "nat \<Rightarrow> offering" where
  "demo_offering k = \<lparr>off_pk = k, off_customer = 3, off_plugin_options = demo_options\<rparr>"

definition demo_group :: project_group where
  "demo_group = \<lparr>pg_pk = 50, pg_provider = 3, pg_gid = None\<rparr>"

text \<open>UID 2000 in use, 2001 released, 2002 released and withheld, 3000 in use in the override.\<close>

definition demo_db :: posix_db where
  "demo_db = \<lparr>pools = [demo_pool, demo_override],
     identities =
       [demo_identity 40 11 2000 (Some 2000) 100,
        (demo_identity 41 11 2001 None 101)\<lparr>released_at := Some 5\<rparr>,
        (demo_identity 42 11 2002 None 102)\<lparr>released_at := Some 6, recyclable := False\<rparr>,
        demo_identity 43 12 3000 None 100],
     next_ident = 44,
     offering_users =
       [\<lparr>ou_pk = 30, ou_user = 100, ou_offering = 10, ou_uidnumber = Some 2000, ou_primarygroup = Some 2000\<rparr>,
        \<lparr>ou_pk = 31, ou_user = 100, ou_offering = 20, ou_uidnumber = Some 3000, ou_primarygroup = None\<rparr>],
     provider_accounts = [], project_groups = [demo_group],
     offering_row = demo_offering, sp_customer = (\<lambda>k. k)\<rparr>"

lemmas demo_defs = demo_db_def demo_pool_def demo_override_def demo_identity_def demo_offering_def
  demo_options_def demo_group_def

lemma all_namespaces: "(\<forall>ns. P ns) \<longleftrightarrow> P UID \<and> P GID"
  by (metis (full_types) namespace.exhaust)

lemma ex_ranges: "(\<exists>r. P r) \<longleftrightarrow> P (Own UID) \<or> P (Own GID) \<or> P GROUP_GID"
  by (metis (full_types) column.cases namespace.exhaust)

lemma demo_table_ok: "table_ok demo_db"
  by (simp add: table_ok_def identities_ok_def pools_ok_def demo_defs exactly_one_principal_def
      ident_clash_def active_def pool_constraints_def RANGES_def range_ok_def manages_def
      MIN_ID_def MAX_ID_def)

lemma demo_provider_inv: "provider_inv demo_db"
proof -
  have u: "in_use demo_db 11 UID = {2000}" "in_use demo_db 12 UID = {3000}"
      "in_use demo_db 11 GID = {2000}" "in_use demo_db 12 GID = {}"
    by (auto simp: in_use_iff demo_defs active_def)
  have "group_pools demo_db = {}" by (auto simp: group_pools_def is_group_row_def demo_defs)
  moreover have "claims demo_db demo_pool ns \<inter> claims demo_db demo_override ns = {}" for ns
  proof (cases ns)
    case UID
    then show ?thesis
      by (auto simp: claims_def range_values_def ex_ranges in_range_def demo_pool_def demo_override_def u)
  next
    case GID
    then show ?thesis
      by (auto simp: claims_def range_values_def ex_ranges in_range_def demo_pool_def demo_override_def u)
  qed
  moreover have "inj (sp_customer demo_db)" by (simp add: demo_db_def inj_def)
  moreover have "set (pools demo_db) = {demo_pool, demo_override}" by (simp add: demo_db_def)
  ultimately show ?thesis
    unfolding provider_inv_def using demo_table_ok by (auto simp: siblings_def)
qed

definition demo_allocation :: "(posix_error, int option \<times> posix_db) result" where
  "demo_allocation = allocate demo_db (demo_offering 10) UID (OfferingUser 32 103) 7"

lemma demo_allocation_value:
  "case demo_allocation of Inl _ \<Rightarrow> False | Inr (x, _) \<Rightarrow> x = Some 2001"
  by code_simp

end
