(* ===== verification/Posix_Properties.thy ===== *)
theory Posix_Properties
  imports Posix_Examples
begin

text \<open>
  The guarantees of POSIX identifier allocation, each with an instance on the databases of
  \<open>Posix_Examples\<close>.
\<close>

subsection \<open>No number twice within a provider\<close>







subsection \<open>One allocation\<close>

text \<open>
  C7. Total correctness of \<open>_allocate_in_pool\<close> on a valid table: it never raises an integrity
  error.  Either the principal ends up holding the value returned (the one it held before, or
  one inside the range that nobody used and that is not withheld, with exactly one entry added
  and every other row untouched), or it raises \<open>PosixIdPoolExhausted\<close>, and then the principal
  held nothing, no number from the counter up is free and nothing could be recycled.
\<close>

theorem allocate_in_pool_correct:
  assumes "table_ok db" and "p \<in> set (pools db)" and "manages r p"
  shows "case allocate_in_pool db p r pr oid recycle now of
      Inr (v, db') \<Rightarrow> allocated db p r pr v db'
    | Inl e \<Rightarrow> e = PosixIdPoolExhausted \<and> held_value db p r pr = None \<and> free_above db p r = {} \<and>
        (recycle \<longrightarrow> recycled_values db p r = {})"
  using assms
proof (cases rule: allocate_in_pool_total [of db p r pr oid recycle now])
  case (held v)
  then have "\<exists>w. holds db (pool_pk p) (column r) pr w" by blast
  then show ?thesis using held assms(1) by (simp add: allocated_def)
next
  case (granted v db')
  then show ?thesis by simp
next
  case exhausted
  then have "held_value db p r pr = None"
    using held_value_iff [OF assms(1), of p r pr] by (cases "held_value db p r pr") auto
  then show ?thesis using exhausted by simp
qed

lemma allocate_in_pool_correct_witness:
  "\<exists>v db'. allocate_in_pool demo_db demo_pool (Own GID) (User_principal 104) None True 7 = Inr (v, db') \<and>
     v = 2001 \<and> allocated demo_db demo_pool (Own GID) (User_principal 104) v db'"
proof -
  let ?a = "allocate_in_pool demo_db demo_pool (Own GID) (User_principal 104) None True 7"
  have "case ?a of Inl _ \<Rightarrow> False | Inr (v, _) \<Rightarrow> v = 2001" by code_simp
  then obtain db' where a: "?a = Inr (2001, db')" by (auto split: sum.splits)
  have "demo_pool \<in> set (pools demo_db)" "manages (Own GID) demo_pool"
    by (simp_all add: demo_db_def demo_pool_def manages_def)
  from allocate_in_pool_correct [OF demo_table_ok this, where pr = "User_principal 104" and oid = None and recycle = True and now = 7]
  have "allocated demo_db demo_pool (Own GID) (User_principal 104) 2001 db'" unfolding a by simp
  then show ?thesis using a by blast
qed

text \<open>
  An account of the same user on another offering of the provider that resolves to the same
  pool gets the number the first account got, and nothing is written.  In particular a retried
  allocation is idempotent.
\<close>

lemma first_row_map: "first_row P (map f xs) = map_option f (first_row (P \<circ> f) xs)"
  by (induction xs) simp_all

lemma resolve_frame:
  assumes "pools_frame db db'"
  shows "map_option pool_pk (resolve db' off) = map_option pool_pk (resolve db off)"
proof -
  have st: "map static (pools db') = map static (pools db)" "sp_customer db' = sp_customer db"
    using assms by (simp_all add: pools_frame_def)
  have eq: "map_option static (first_row P (pools db')) = map_option static (first_row P (pools db))"
    if "\<And>p. P (static p) = P p" for P
    using st(1) first_row_map [of P static "pools db'"] first_row_map [of P static "pools db"] that
    by (simp add: comp_def)
  have 1: "map_option static (first_row (\<lambda>p. pool_offering p = Some (off_pk off)) (pools db')) =
      map_option static (first_row (\<lambda>p. pool_offering p = Some (off_pk off)) (pools db))"
    by (rule eq) simp
  have 2: "map_option static (first_row (\<lambda>p. case service_provider p of
              Some sp \<Rightarrow> sp_customer db sp = off_customer off | None \<Rightarrow> False) (pools db')) =
      map_option static (first_row (\<lambda>p. case service_provider p of
              Some sp \<Rightarrow> sp_customer db sp = off_customer off | None \<Rightarrow> False) (pools db))"
    by (rule eq) simp
  have "map_option static (resolve db' off) = map_option static (resolve db off)"
    using 1 2 by (auto simp: resolve_def st(2) split: option.splits)
  then have "map_option pool_pk (map_option static (resolve db' off)) =
      map_option pool_pk (map_option static (resolve db off))" by simp
  then show ?thesis by (simp add: option.map_comp comp_def)
qed

lemma resolve_manages:
  assumes "pools_frame db db'" "resolve db' off = Some q" "resolve db off = Some p" "table_ok db"
  shows "manages r q = manages r p"
proof -
  have "pool_pk q = pool_pk p" using resolve_frame [OF assms(1), of off] assms(2,3) by simp
  moreover obtain p' where p': "p' \<in> set (pools db)" "static q = static p'"
    using assms(1) resolve_pool [OF assms(2)] by (rule pools_frame_row)
  ultimately have "pool_pk p' = pool_pk p" using static_eqD(1) [OF p'(2)] by simp
  then have "p' = p"
    using distinct_key_eq [of pool_pk "pools db"] p'(1) resolve_pool [OF assms(3)] assms(4)
    by (auto simp: table_ok_def pools_ok_def)
  then show ?thesis using static_eqD(6) [OF p'(2)] by simp
qed

lemma allocate_frame:
  assumes "table_ok db" "allocate db off ns c now = Inr (x, db')"
  shows "pools_frame db db' \<and> table_ok db'"
proof -
  consider "db' = db" | p v where "resolve db off = Some p" "manages (Own ns) p"
        "allocate_in_pool db p (Own ns) (principal_filter c) (Some (off_pk off)) True now = Inr (v, db')"
    using assms(2) by (auto simp: allocate_def result_simps split: if_splits option.splits)
  then show ?thesis
  proof cases
    case 1
    then show ?thesis using assms(1) by simp
  next
    case 2
    show ?thesis
      using allocate_in_pool_total [OF assms(1) resolve_pool [OF 2(1)] 2(2), of "principal_filter c"
          "Some (off_pk off)" True now] 2(3) assms(1)
      by (metis (no_types, lifting) Inl_Inr_False Inr_inject Pair_inject allocated_def pools_frame_refl)
  qed
qed

theorem user_shares_one_value:
  assumes "table_ok db" and "allocate db off ns (OfferingUser k u) now = Inr (Some v, db')"
    and "map_option pool_pk (resolve db off') = map_option pool_pk (resolve db off)"
    and "ns \<in> set (pool_sourced_namespaces off')"
  shows "allocate db' off' ns (OfferingUser k' u) now' = Inr (Some v, db')"
proof -
  let ?pr = "User_principal u"
  obtain p where p: "resolve db off = Some p" "manages (Own ns) p"
    and a: "allocate_in_pool db p (Own ns) ?pr (Some (off_pk off)) True now = Inr (v, db')"
    using assms(2) by (auto simp: allocate_def principal_filter_def result_simps split: if_splits option.splits)
  note f = allocate_frame [OF assms(1,2)]
  obtain q where q: "resolve db off' = Some q" "pool_pk q = pool_pk p" using assms(3) p(1) by auto
  have "q = p"
    using distinct_key_eq [of pool_pk "pools db"] q resolve_pool p(1) assms(1)
    by (auto simp: table_ok_def pools_ok_def)
  then obtain q' where q': "resolve db' off' = Some q'" "pool_pk q' = pool_pk p"
    using resolve_frame [of db db' off'] f q by auto
  have m: "manages (Own ns) q'" using resolve_manages f q'(1) q(1) assms(1) p(2) \<open>q = p\<close> by blast
  have "registry_ok (pool_pk p) (Own ns) db"
    using assms(1) p resolve_pool by (auto simp: registry_ok_def list_ex_iff)
  then have "allocate_in_pool db' p (Own ns) ?pr (Some (off_pk off)) True now = Inr (v, db')"
    using allocator.acquire_twice [of p "Own ns" db "Some (off_pk off)" True now ?pr v db'] a
    by (simp add: registry_acquire_def)
  moreover have "held_value db' p (Own ns) ?pr = Some v"
    using allocator.acquire_lookup [OF \<open>registry_ok _ _ db\<close>, of "Some (off_pk off)" True now ?pr v db'] a
    by (simp add: registry_acquire_def registry_lookup_def)
  ultimately have "allocate_in_pool db' q' (Own ns) ?pr (Some (off_pk off')) True now' = Inr (v, db')"
    using same_pk_pool(1) [OF q'(2)] by (simp add: allocate_in_pool_def)
  then show ?thesis using assms(4) q'(1) m by (simp add: allocate_def principal_filter_def)
qed

lemma user_shares_one_value_witness:
  "case demo_allocation of Inl _ \<Rightarrow> False
   | Inr (x, db') \<Rightarrow> allocate db' (demo_offering 11) UID (OfferingUser 33 103) 9 = Inr (Some 2001, db')"
proof -
  obtain x db' where a: "demo_allocation = Inr (x, db')" "x = Some 2001"
    using demo_allocation_value by (auto split: sum.splits)
  have "allocate db' (demo_offering 11) UID (OfferingUser 33 103) 9 = Inr (Some 2001, db')"
    by (rule user_shares_one_value [OF demo_table_ok, of "demo_offering 10" UID 32 103 7])
      (use a in \<open>simp_all add: demo_allocation_def resolve_def demo_defs pool_sourced_namespaces_def
        NAMESPACES_def\<close>)
  then show ?thesis unfolding a(1) by simp
qed

end
