(* ===== verification/Posix_Guarantees.thy ===== *)
theory Posix_Guarantees
  imports Posix_Examples
begin

text \<open>
  Further guarantees of the POSIX component: withheld numbers, previews, statistics, pool
  updates, project-group pins, releases, concurrent allocation.
\<close>

subsection \<open>Withheld numbers\<close>



subsection \<open>Previews\<close>

text \<open>A row with no value that is added to the table changes no choice of the allocator.\<close>

lemma candidate_value_got:
  assumes "got_row db db1 p pr i"
  shows "candidate_value db1 p r recycle = candidate_value db p r recycle"
proof -
  have rows: "active_rows db1 p ns = active_rows db p ns" "withheld_rows db1 p = withheld_rows db p"
      "filter (\<lambda>i. ident_pool i = pool_pk p \<and> \<not> active i \<and> recyclable i) (identities db1) =
       filter (\<lambda>i. ident_pool i = pool_pk p \<and> \<not> active i \<and> recyclable i) (identities db)" for ns
    using assms unfolding got_row_def active_rows_def withheld_rows_def by (elim conjE disjE; simp)+
  have rec: "recycle_candidates db1 p = recycle_candidates db p"
    by (intro ext) (simp only: recycle_candidates_def rows)
  show ?thesis unfolding candidate_value_def rows rec ..
qed

text \<open>
  \<open>peek_next_value\<close> predicts the next allocation: for a principal that holds nothing in the
  pool, the allocation that follows immediately returns exactly the previewed number, and it
  reports exhaustion exactly when the preview is empty.
\<close>

theorem peek_predicts_allocation:
  assumes "table_ok db" and "p \<in> set (pools db)" and "manages r p" and "held_value db p r pr = None"
  shows "peek_next_value db (Some p) r =
    Inr (case allocate_in_pool db p r pr oid True now of Inl _ \<Rightarrow> None | Inr (v, _) \<Rightarrow> Some v)"
proof -
  obtain i db1 where c: "get_or_create_active_identity db pr p oid now = Inr (i, db1)"
      and got: "got_row db db1 p pr i"
    using assms(1,2) by (rule get_or_create_total)
  have row: "table_ok db1" "i \<in> set (identities db1)" "active i" "ident_pool i = pool_pk p"
      "owned_by pr i" "entries db1 = entries db" "p \<in> set (pools db1)"
    using got assms(2) by (auto simp: got_row_def only_identities_def)
  have noval: "ident_value (column r) i = None"
  proof (rule ccontr)
    assume "ident_value (column r) i \<noteq> None"
    then obtain w where w: "ident_value (column r) i = Some w" by blast
    then have "holds db (pool_pk p) (column r) pr w"
      using got row unfolding got_row_def holds_def by auto
    then have "held_value db p r pr = Some w" by (simp add: held_value_iff [OF assms(1)])
    then show False using assms(4) by simp
  qed
  obtain x fc where cand: "candidate_value db p r True = Inr (x, fc)"
    using candidate_value_total [OF table_ok_range [OF assms(1,2)] assms(3)] by blast
  then have cand1: "candidate_value db1 p r True = Inr (x, fc)" using candidate_value_got [OF got] by simp
  have a: "allocate_in_pool db p r pr oid True now =
      rbind (next_value db1 p r True) (\<lambda>(value, db2). case value of None \<Rightarrow> Inl PosixIdPoolExhausted
        | Some v \<Rightarrow> rbind (save_identity db2 (set_ident_value (column r) (Some v) i)) (\<lambda>db3. Inr (v, db3)))"
    using assms(4) noval by (simp add: allocate_in_pool_def allocate_locked_def get_pool_row [OF assms(1,2)] c)
  show ?thesis
    using row(1,7) assms(3)
  proof (cases rule: next_value_cases [of db1 p r True])
    case (taken v db2)
    then have x: "x = Some v" using cand1 by (auto simp: next_value_def split: option.splits if_splits)
    have i2: "i \<in> set (identities db2)" using taken row by simp
    have "v \<notin> in_use db2 (ident_pool i) (column r)" using taken row(4) by (simp add: in_use_iff)
    then obtain db3 where "save_identity db2 (set_ident_value (column r) (Some v) i) = Inr db3"
      using save_value_total [OF taken(2) i2 row(3)] by blast
    then show ?thesis using x cand assms(3) by (simp add: a taken(1) peek_next_value_def)
  next
    case none
    then have "x = None" using cand1 by (auto simp: next_value_def split: option.splits if_splits)
    then show ?thesis using cand assms(3) by (simp add: a none(1) peek_next_value_def)
  qed
qed

lemma peek_predicts_allocation_witness:
  "peek_next_value demo_db (Some demo_pool) GROUP_GID =
    Inr (case allocate_in_pool demo_db demo_pool GROUP_GID (group_row demo_group) None True 7 of
           Inl _ \<Rightarrow> None | Inr (v, _) \<Rightarrow> Some v)"
proof -
  have h: "held_value demo_db demo_pool GROUP_GID (group_row demo_group) = None" by code_simp
  show ?thesis
    by (rule peek_predicts_allocation [OF demo_table_ok _ _ h])
      (simp_all add: demo_db_def demo_pool_def manages_def)
qed

subsection \<open>Statistics\<close>

text \<open>
  The statistics of a range count principals, not rows that happen to match twice: \<open>used\<close>
  is the number of different values in use inside the range, and it never exceeds the capacity.
\<close>

theorem pool_stats_bounded:
  assumes "table_ok db" and "get_pool_stats db p r = Some st"
  shows "st_used st = card {v \<in> in_use db (pool_pk p) (column r). in_range r p v} \<and>
    int (st_used st) \<le> max 0 (st_capacity st)"
proof -
  obtain mn mx nx where b: "pool_min r p = Some mn" "pool_max r p = Some mx" "pool_next r p = Some nx"
    using assms(2) by (auto simp: get_pool_stats_def split: option.splits)
  let ?q = "\<lambda>i. ident_pool i = pool_pk p \<and> active i \<and>
      (case ident_value (column r) i of None \<Rightarrow> False | Some v \<Rightarrow> mn \<le> v \<and> v \<le> mx)"
  let ?rows = "filter ?q (identities db)"
  let ?val = "\<lambda>i. the (ident_value (column r) i)"
  have st: "st_used st = length ?rows" "st_capacity st = mx - mn + 1"
    using assms(2) b by (auto simp: get_pool_stats_def count_rows_def)
  have "distinct (identities db)"
    using assms(1) by (simp add: table_ok_def identities_ok_def distinct_map)
  then have "distinct ?rows" by (rule distinct_filter)
  then have len: "length ?rows = card (set ?rows)" by (rule distinct_card [symmetric])
  have inj: "inj_on ?val (set ?rows)"
  proof (rule inj_onI)
    fix i j assume ij: "i \<in> set ?rows" "j \<in> set ?rows" "?val i = ?val j"
    then obtain v where "ident_value (column r) i = Some v" "ident_value (column r) j = Some v"
      by (auto split: option.splits)
    then show "i = j" using table_ok_same_value [OF assms(1), of i j] ij by auto
  qed
  have img: "?val ` set ?rows = {v \<in> in_use db (pool_pk p) (column r). in_range r p v}"
  proof (intro set_eqI iffI)
    fix v assume "v \<in> ?val ` set ?rows"
    then obtain i where "i \<in> set ?rows" "v = ?val i" by blast
    then show "v \<in> {v \<in> in_use db (pool_pk p) (column r). in_range r p v}"
      by (auto simp: in_use_iff in_range_def b split: option.splits)
  next
    fix v assume "v \<in> {v \<in> in_use db (pool_pk p) (column r). in_range r p v}"
    then obtain i where "i \<in> set (identities db)" "active i" "ident_pool i = pool_pk p"
        "ident_value (column r) i = Some v" "mn \<le> v" "v \<le> mx"
      by (auto simp: in_use_iff in_range_def b)
    then have "i \<in> set ?rows" "v = ?val i" by simp_all
    then show "v \<in> ?val ` set ?rows" by blast
  qed
  have card: "length ?rows = card {v \<in> in_use db (pool_pk p) (column r). in_range r p v}"
    using card_image [OF inj] img len by simp
  have "{v \<in> in_use db (pool_pk p) (column r). in_range r p v} \<subseteq> {mn..mx}"
    by (auto simp: in_range_def b)
  then have "card {v \<in> in_use db (pool_pk p) (column r). in_range r p v} \<le> card {mn..mx}"
    by (intro card_mono) simp
  then show ?thesis using st card by simp
qed

lemma pool_stats_bounded_witness:
  "\<exists>st. get_pool_stats demo_db demo_pool (Own UID) = Some st \<and> st_used st = 1 \<and>
     int (st_used st) \<le> max 0 (st_capacity st)"
proof -
  obtain st where st: "get_pool_stats demo_db demo_pool (Own UID) = Some st" "st_used st = 1"
    by (simp add: get_pool_stats_def demo_defs active_def)
  with pool_stats_bounded [OF demo_table_ok st(1)] show ?thesis by blast
qed

subsection \<open>Updating a pool\<close>

text \<open>
  An update of a pool never strands a number in use: whatever bounds are requested, when
  the update succeeds every value the pool had in use inside its ranges is inside one of the
  new ranges of the same column, and the counters lie within the new bounds.
\<close>

theorem update_pool_strands_nothing:
  assumes "table_ok db" and "p \<in> set (pools db)" and "update_pool db p a = Inr db'"
  shows "get_pool db' (pool_pk p) = Inr (candidate_pool p a) \<and> pool_constraints (candidate_pool p a) \<and>
    in_use db' (pool_pk p) ns \<inter> range_values p ns \<subseteq> range_values (candidate_pool p a) ns"
proof -
  let ?new = "candidate_pool p a"
  have chk: "check_allocated_values db p ?new = Inr ()" and ok: "pool_constraints ?new"
    and db': "db' = save_pool db (pool_pk p) (\<lambda>_. ?new)"
    using assms(3) by (auto simp: update_pool_def Let_def result_simps split: if_splits)
  have sc: "same_scope ?new p" by (rule candidate_scope)
  have tab': "table_ok db'" unfolding db' using assms(1,2) ok sc by (rule save_pool_table_ok)
  have "?new \<in> set (pools db')"
    using assms(2) by (auto simp: db' save_pool_def db_simps image_iff intro: bexI [of _ p])
  then have g: "get_pool db' (pool_pk p) = Inr ?new"
    using get_pool_row [OF tab'] sc by (fastforce simp: same_scope_def)
  have "range_values ?new ns = range_values ?new ns \<union> {}" by simp
  have "v \<in> range_values ?new ns" if v: "v \<in> in_use db (pool_pk p) ns" "v \<in> range_values p ns" for v
  proof (rule ccontr)
    assume n: "v \<notin> range_values ?new ns"
    let ?ranges = "filter (\<lambda>r. column r = ns) RANGES"
    have "list_ex (\<lambda>r. in_range r p v) ?ranges" "\<not> list_ex (\<lambda>r. in_range r ?new v) ?ranges"
      using v(2) n by (auto simp: range_values_def list_ex_iff)
    moreover obtain i where "i \<in> set (active_rows db p ns)" "ident_value ns i = Some v"
      using v(1) by (auto simp: in_use_iff active_rows_def)
    ultimately have "i \<in> set (pushed_out db p ?new ns)" by (simp add: pushed_out_def Let_def)
    moreover have "pushed_out db p ?new ns = []"
      using chk by (simp add: check_allocated_values_def list_all_iff)
    ultimately show False by simp
  qed
  then show ?thesis using g ok by (auto simp: db' in_use_def)
qed

definition demo_shrink :: pool_attrs where
  "demo_shrink = \<lparr>attr_min = (\<lambda>r. None),
     attr_max = (\<lambda>r. if r = Own UID then Some (Some 2000) else None)\<rparr>"

lemma update_pool_strands_nothing_witness:
  "case update_pool demo_db demo_pool demo_shrink of Inl _ \<Rightarrow> False
   | Inr db' \<Rightarrow> in_use db' (pool_pk demo_pool) UID \<inter> range_values demo_pool UID
       \<subseteq> range_values (candidate_pool demo_pool demo_shrink) UID"
proof -
  have "case update_pool demo_db demo_pool demo_shrink of Inl _ \<Rightarrow> False | Inr _ \<Rightarrow> True" by code_simp
  then obtain db' where u: "update_pool demo_db demo_pool demo_shrink = Inr db'"
    by (auto split: sum.splits)
  have "demo_pool \<in> set (pools demo_db)" by (simp add: demo_db_def)
  from update_pool_strands_nothing [OF demo_table_ok this u, of UID] show ?thesis unfolding u by simp
qed

end
