(* ===== verification/Posix_Lifecycle.thy ===== *)
theory Posix_Lifecycle
  imports Posix_Examples
begin

text \<open>
  Guarantees about the life of a number: pinning a project group's GID, releasing the
  identities of deleted accounts, collapsing duplicate identities, concurrent allocation, and
  the one operation that can break uniqueness across pools.
\<close>

subsection \<open>Project-group pins\<close>

text \<open>
  Pinning a project group's GID moves it completely: the group holds the new GID in the
  provider's own pool, the group row stores it, and the GID it held before is withheld from
  every later allocation, whether it had an identity row or was only stored on the group.
\<close>

lemma holds_after_write:
  assumes "table_ok db" "p \<in> set (pools db)" "service_provider p \<noteq> None"
    and io: "\<And>i. io = Some i \<Longrightarrow> i \<in> set (identities db) \<and> active i \<and> ident_pool i = pool_pk p
           \<and> owned_by (group_row g) i"
    and w: "write_group_identity db p g io v now = Inr db'"
  shows "holds db' (pool_pk p) GID (group_row g) v"
proof (cases io)
  case None
  let ?b = "set_ident_value GID (Some v) (blank_identity (pool_pk p) (group_row g) None now)"
  obtain r where c: "create_identity db ?b = Inr (r, db')"
    using w None by (auto simp: write_group_identity_def result_simps)
  have "r \<in> set (identities db')" "r = ?b\<lparr>ident_pk := next_ident db\<rparr>"
    using c by (auto simp: create_identity_def Let_def split: if_splits)
  moreover have "owned_by (group_row g) (?b\<lparr>ident_pk := next_ident db\<rparr>)"
    by (simp add: owned_by_def group_row_def blank_identity_def)
  ultimately show ?thesis
    unfolding holds_def by (intro bexI [of _ r]) (simp_all del: set_ident_value.simps)
next
  case (Some i)
  have s: "save_identity db (set_ident_value GID (Some v) i) = Inr db'"
    using w Some by (simp add: write_group_identity_def)
  note e = save_value_effect [OF assms(1) _ _ s]
  have "set_ident_value GID (Some v) i \<in> set (identities db')" using e(4) io [OF Some] by blast
  then show ?thesis
    using io [OF Some] unfolding holds_def
    by (intro bexI [of _ "set_ident_value GID (Some v) i"]) (simp_all del: set_ident_value.simps)
qed

lemma displaced_withheld:
  assumes "table_ok db" "p \<in> set (pools db)" "io = active_identity db p (group_row g)"
    and "displace_gid db p g io now = Inr (io', db1)" "previous_gid g io = Some w"
  shows "w \<in> withheld db1 (pool_pk p) GID"
proof -
  have i: "i \<in> set (identities db) \<and> active i \<and> ident_pool i = pool_pk p" if "io = Some i" for i
    using that assms(3) first_row_Some
      [of "\<lambda>i. ident_pool i = pool_pk p \<and> active i \<and> owned_by (group_row g) i" "identities db" i]
    by (simp add: active_identity_def)
  show ?thesis
  proof (cases "\<exists>j. io = Some j \<and> ident_gid j \<noteq> None")
    case True
    then obtain j where j: "io = Some j" "ident_gid j \<noteq> None" by blast
    then have "ident_gid j = Some w" using assms(5) by (simp add: previous_gid_def)
    moreover have s: "save_identity db (release_row now j) = Inr db1"
      using assms(4) j by (auto simp: displace_gid_def result_simps)
    have "release_row now j \<in> set (identities db1)"
      using s i [OF j(1)]
      by (auto simp: save_identity_def db_simps release_row_def image_iff split: if_splits intro: bexI [of _ j])
    ultimately show ?thesis
      using i [OF j(1)]
      by (auto simp: withheld_def release_row_def active_def intro!: bexI [of _ "release_row now j"])
  next
    case False
    let ?b = "release_row now (set_ident_value GID (Some w) (blank_identity (pool_pk p) (group_row g) None now))"
    obtain r where c: "create_identity db ?b = Inr (r, db1)"
      using assms(4,5) False by (auto simp: displace_gid_def result_simps split: option.splits)
    have "r \<in> set (identities db1)" "r = ?b\<lparr>ident_pk := next_ident db\<rparr>"
      using c by (auto simp: create_identity_def Let_def split: if_splits)
    then show ?thesis
      by (auto simp: withheld_def release_row_def active_def blank_identity_def intro!: bexI [of _ r])
  qed
qed

theorem pin_moves_group_gid:
  assumes "provider_inv db" and "g \<in> set (project_groups db)"
    and "set_project_group_gid db g v allow now = Inr (prev, db')" and "prev \<noteq> Some v"
  shows "\<exists>p. provider_pool db (pg_provider g) = Some p \<and>
    holds db' (pool_pk p) GID (group_row g) v \<and>
    (case prev of None \<Rightarrow> True | Some w \<Rightarrow> w \<in> withheld db' (pool_pk p) GID) \<and>
    list_ex (\<lambda>h. pg_pk h = pg_pk g \<and> pg_gid h = Some v) (project_groups db')"
proof -
  have tab: "table_ok db" using assms(1) by (rule provider_invD)
  obtain p where p: "provider_pool db (pg_provider g) = Some p"
    using assms(3) by (auto simp: set_project_group_gid_def Let_def split: option.splits)
  note mem = provider_pool_row [OF p]
  let ?io = "active_identity db p (group_row g)"
  have pin: "pin_group_gid db p g v now = Inr (prev, db')"
    using assms(3) p get_pool_row [OF tab] mem
    by (auto simp: set_project_group_gid_def Let_def result_simps split: option.splits)
  obtain io' db1 db2 where d: "displace_gid db p g ?io now = Inr (io', db1)"
      and w: "write_group_identity db1 p g io' v now = Inr db2"
      and db': "db' = save_group_gid db2 g v" and prev: "previous_gid g ?io = prev"
    using pin by (cases rule: pin_group_gid_cases) (use assms(4) in auto)
  have sp: "p \<in> set (pools db)" "service_provider p \<noteq> None" using mem by simp_all
  note da = displace_gid_adds [OF tab sp refl d]
  have tab1: "table_ok db1" using da(1) [of "{}"] by (simp add: adds_at_most_def)
  have sp1: "p \<in> set (pools db1)" using sp da(2) by simp
  have "holds db2 (pool_pk p) GID (group_row g) v"
    using tab1 sp1 sp(2) _ w by (rule holds_after_write) (use da(3) in blast)
  then have "holds db' (pool_pk p) GID (group_row g) v" by (simp add: db' save_group_gid_def holds_def)
  moreover have "w' \<in> withheld db' (pool_pk p) GID" if "prev = Some w'" for w'
  proof -
    have "w' \<in> withheld db1 (pool_pk p) GID"
      using displaced_withheld [OF tab sp(1) refl d] prev that by simp
    moreover have "keeps_withheld db1 db2" using da(3) by (intro keeps_write [OF tab1 _ w]) blast
    moreover have "withheld db' pk ns = withheld db2 pk ns" for pk ns
      by (simp add: db' save_group_gid_def withheld_def)
    ultimately show ?thesis by (auto simp: keeps_withheld_def)
  qed
  moreover have "project_groups db2 = project_groups db"
  proof -
    have "project_groups db1 = project_groups db"
      using d by (auto simp: displace_gid_def create_identity_def save_identity_def Let_def result_simps
          split: if_splits option.splits)
    moreover have "project_groups db2 = project_groups db1"
      using w by (auto simp: write_group_identity_def create_identity_def save_identity_def Let_def
          result_simps split: if_splits option.splits)
    ultimately show ?thesis by simp
  qed
  then have "list_ex (\<lambda>h. pg_pk h = pg_pk g \<and> pg_gid h = Some v) (project_groups db')"
    using assms(2)
    by (auto simp: db' save_group_gid_def list_ex_iff db_simps intro!: bexI [of _ "g\<lparr>pg_gid := Some v\<rparr>"])
  ultimately show ?thesis using p by (auto split: option.split)
qed

definition demo_numbered :: posix_db where
  "demo_numbered = demo_db\<lparr>project_groups := [demo_group\<lparr>pg_gid := Some 5001\<rparr>]\<rparr>"

lemma pin_moves_group_gid_witness:
  "case set_project_group_gid demo_numbered (demo_group\<lparr>pg_gid := Some 5001\<rparr>) 7000 True 9 of
     Inl _ \<Rightarrow> False
   | Inr (prev, db') \<Rightarrow> prev = Some 5001 \<and> 5001 \<in> withheld db' 11 GID"
proof -
  let ?g = "demo_group\<lparr>pg_gid := Some 5001\<rparr>"
  have "case set_project_group_gid demo_numbered ?g 7000 True 9 of
      Inl _ \<Rightarrow> False | Inr (prev, _) \<Rightarrow> prev = Some 5001" by code_simp
  then obtain db' where s: "set_project_group_gid demo_numbered ?g 7000 True 9 = Inr (Some 5001, db')"
    by (auto split: sum.splits)
  have inv: "provider_inv demo_numbered" using demo_provider_inv by (simp add: demo_numbered_def)
  have pp: "provider_pool demo_numbered (pg_provider demo_group) = Some demo_pool"
    by (simp add: provider_pool_def demo_numbered_def demo_defs)
  have "?g \<in> set (project_groups demo_numbered)" by (simp add: demo_numbered_def)
  from pin_moves_group_gid [OF inv this s] obtain p where "provider_pool demo_numbered (pg_provider ?g) = Some p"
      "5001 \<in> withheld db' (pool_pk p) GID" by auto
  then have "5001 \<in> withheld db' (pool_pk demo_pool) GID" using pp by simp
  then show ?thesis unfolding s by (simp add: demo_pool_def)
qed

subsection \<open>Releases\<close>

text \<open>
  Deleting one account of a user releases nothing the user still needs: an active identity
  of the user stays untouched exactly when another account of the user (offering account or
  provider account) still resolves to its pool; otherwise its row is released, with the
  recycling flag the caller chose.  Rows of other principals are never touched.
\<close>

theorem release_keeps_shared_identity:
  assumes "i \<in> set (identities db)"
  shows "(if ident_user i = Some u \<and> active i \<and> ident_pool i \<notin> set (pool_ids_still_in_use_by db u)
          then i\<lparr>released_at := Some now, recyclable := recyc\<rparr> else i)
         \<in> set (identities (snd (release_user_allocations db (Some u) recyc now)))"
proof (cases "first_row (\<lambda>i. ident_user i = Some u \<and> active i) (identities db) = None")
  case True
  then have "\<not> (ident_user i = Some u \<and> active i)" using assms by (simp add: db_simps)
  then show ?thesis using assms True by (auto simp: release_user_allocations_def)
next
  case False
  then show ?thesis
    using assms
    by (auto simp: release_user_allocations_def Let_def update_identities_def db_simps image_iff
        intro!: bexI [of _ i])
qed

lemma release_keeps_shared_identity_witness:
  "demo_identity 40 11 2000 (Some 2000) 100
     \<in> set (identities (snd (release_user_allocations demo_db (Some 100) True 9)))"
proof -
  have u: "11 \<in> set (pool_ids_still_in_use_by demo_db 100)" by code_simp
  have "demo_identity 40 11 2000 (Some 2000) 100 \<in> set (identities demo_db)" by (simp add: demo_db_def)
  from release_keeps_shared_identity [OF this, of 100 True 9] show ?thesis
    using u by (simp add: demo_identity_def)
qed

subsection \<open>Concurrent allocation\<close>

text \<open>
  C31. Under every interleaving of any number of concurrent allocations on one range, with the
  unlocked check of each call separated from its locked block, two calls that return values
  return the same value exactly when they allocate for the same principal.
\<close>

theorem concurrent_allocations_agree:
  assumes "registry_ok (pool_pk p) r db" and "list_all (\<lambda>c. call_phase c = Called) cs"
    and "(alloc_step p r recycle)\<^sup>*\<^sup>* (db, cs) (db', cs')"
    and "c \<in> set cs'" and "c' \<in> set cs'"
    and "call_phase c = Returned (Inr v)" and "call_phase c' = Returned (Inr v')"
  shows "by_principal c = by_principal c' \<longleftrightarrow> v = v'"
proof -
  have "calls_inv p r (db, cs)" using assms(1,2) by (rule calls_inv_start)
  then have "calls_inv p r (db', cs')" by (rule calls.inv_run [OF assms(3)])
  then show ?thesis using assms(4-7) by (rule calls_inv_values)
qed

definition demo_call :: call where
  "demo_call = \<lparr>by_principal = User_principal 104, for_offering = None, call_time = 7, call_phase = Called\<rparr>"

text \<open>Two calls for one user: both check before either takes the lock.\<close>

lemma concurrent_allocations_agree_witness:
  "\<exists>db' c c' v v'. (alloc_step demo_pool (Own UID) True)\<^sup>*\<^sup>* (demo_db, [demo_call, demo_call]) (db', [c, c']) \<and>
     call_phase c = Returned (Inr v) \<and> call_phase c' = Returned (Inr v') \<and> v = v'"
proof -
  let ?S = "alloc_step demo_pool (Own UID) True"
  let ?w = "demo_call\<lparr>call_phase := Found_nothing\<rparr>"
  have none: "held_value demo_db demo_pool (Own UID) (by_principal demo_call) = None" by code_simp
  then have chk: "unlocked_check demo_pool (Own UID) demo_db demo_call = ?w" by (simp add: unlocked_check_def)
  have "case locked_block demo_pool (Own UID) True demo_db ?w of (_, c) \<Rightarrow>
      (case call_phase c of Returned (Inr v) \<Rightarrow> True | _ \<Rightarrow> False) \<and> by_principal c = User_principal 104"
    by code_simp
  then obtain db1 c v where l1: "locked_block demo_pool (Own UID) True demo_db ?w = (db1, c)"
      "call_phase c = Returned (Inr v)" "by_principal c = User_principal 104"
    by (auto split: prod.splits phase.splits sum.splits)
  have "case locked_block demo_pool (Own UID) True (fst (locked_block demo_pool (Own UID) True demo_db ?w)) ?w of
      (_, c) \<Rightarrow> (case call_phase c of Returned (Inr v) \<Rightarrow> True | _ \<Rightarrow> False) \<and> by_principal c = User_principal 104"
    by code_simp
  then obtain db2 c' v' where l2: "locked_block demo_pool (Own UID) True db1 ?w = (db2, c')"
      "call_phase c' = Returned (Inr v')" "by_principal c' = User_principal 104"
    by (auto simp: l1(1) split: prod.splits phase.splits sum.splits)
  have s1: "?S (demo_db, [demo_call, demo_call]) (demo_db, [?w, demo_call])"
    using alloc_step.Checks [of 0 "[demo_call, demo_call]" demo_pool "Own UID" True demo_db] chk
    by (simp add: demo_call_def)
  have s2: "?S (demo_db, [?w, demo_call]) (demo_db, [?w, ?w])"
    using alloc_step.Checks [of 1 "[?w, demo_call]" demo_pool "Own UID" True demo_db] chk
    by (simp add: demo_call_def)
  have s3: "?S (demo_db, [?w, ?w]) (db1, [c, ?w])"
    using alloc_step.Locks [of 0 "[?w, ?w]" demo_pool "Own UID" True demo_db db1 c] l1 by simp
  have s4: "?S (db1, [c, ?w]) (db2, [c, c'])"
    using alloc_step.Locks [of 1 "[c, ?w]" demo_pool "Own UID" True db1 db2 c'] l2 by simp
  have run: "?S\<^sup>*\<^sup>* (demo_db, [demo_call, demo_call]) (db2, [c, c'])"
    using s1 s2 s3 s4 by (meson converse_rtranclp_into_rtranclp rtranclp.rtrancl_refl)
  have ok: "registry_ok (pool_pk demo_pool) (Own UID) demo_db"
    using demo_table_ok by (simp add: registry_ok_def demo_db_def demo_pool_def manages_def)
  have "by_principal c = by_principal c' \<longleftrightarrow> v = v'"
    by (rule concurrent_allocations_agree [OF ok _ run _ _ l1(2) l2(2)]) (simp_all add: demo_call_def)
  then show ?thesis using run l1 l2 by auto
qed

subsection \<open>Registering existing GIDs\<close>

text \<open>
  The exception to uniqueness.  A provider whose only pool is an offering's own pool can
  have a project group that carries GID 3000 from an earlier pool; the override hands 3000 to a
  user, and creating the provider's pool then succeeds and registers 3000 for the group as
  well: two active identities of one provider hold the same GID.  The registration consults the
  new pool only, not the provider's other pools.
\<close>

definition demo_gid_override :: pool where
  "demo_gid_override = demo_override\<lparr>min_gid := Some 3000, max_gid := Some 3001, next_gid := Some 3001\<rparr>"

definition demo_before_pool :: posix_db where
  "demo_before_pool = demo_db\<lparr>pools := [demo_gid_override],
     identities := [(demo_identity 43 12 3000 (Some 3000) 100)],
     project_groups := [demo_group\<lparr>pg_gid := Some 3000\<rparr>]\<rparr>"

theorem registration_can_duplicate_gid:
  "case create_pool_and_register demo_before_pool 13 (demo_pool\<lparr>pool_pk := 0\<rparr>) 9 of
     Inl _ \<Rightarrow> False
   | Inr (n, db') \<Rightarrow> n = 1 \<and>
       map (\<lambda>i. (ident_pool i, ident_gid i, active i)) (identities db') =
         [(12, Some 3000, True), (13, Some 3000, True)] \<and>
       map (pool_customer db') (pools db') = [Some 3, Some 3]"
  by code_simp

end
