(* ===== verification/Posix_Collapse.thy ===== *)
theory Posix_Collapse
  imports Posix_Examples
begin

text \<open>
  The retrofit: what planning and applying the collapse of one user's identities in one pool
  achieves.
\<close>

lemma owner_of_accounts:
  assumes "map (\<lambda>ou. (ou_pk ou, ou_user ou)) (offering_users db') =
           map (\<lambda>ou. (ou_pk ou, ou_user ou)) (offering_users db)"
  shows "owner_of db' = owner_of db"
proof -
  have eq: "map_option ou_user (first_row (\<lambda>ou. Some (ou_pk ou) = k) xs) =
      map_option snd (first_row (\<lambda>x. Some (fst x) = k) (map (\<lambda>ou. (ou_pk ou, ou_user ou)) xs))" for k xs
    by (induction xs) simp_all
  show ?thesis unfolding owner_of_def eq assms ..
qed

lemma apply_change_rows_frame:
  "identities (fold (apply_change_rows chs) ks db) = identities db \<and>
   owner_of (fold (apply_change_rows chs) ks db) = owner_of db"
proof (induction ks arbitrary: db)
  case (Cons k ks)
  have "identities (apply_change_rows chs k db) = identities db"
    by (simp add: apply_change_rows_def apply_metadata_changes_def Let_def split: option.split)
  moreover have "owner_of (apply_change_rows chs k db) = owner_of db"
    by (rule owner_of_accounts)
      (simp add: apply_change_rows_def apply_metadata_changes_def Let_def update_rows_def split: option.split)
  ultimately show ?case using Cons.IH by simp
qed simp

lemma set_rows_of_user:
  "set (rows_of_user db p u) =
     {i \<in> set (identities db). ident_pool i = pool_pk p \<and> active i \<and> owner_of db i = Some u}"
  by (auto simp: rows_of_user_def)

lemma plan_user_facts:
  assumes "plan_user db p u = Some g"
  shows "cg_pool g = p" "cg_user g = u" "cg_canonical g \<in> set (rows_of_user db p u)"
    "set (cg_superseded g) = {i \<in> set (rows_of_user db p u). ident_pk i \<noteq> ident_pk (cg_canonical g)}"
proof -
  have "rows_of_user db p u \<noteq> []" using assms by (auto simp: plan_user_def)
  then obtain f rest where rows: "rows_of_user db p u = f # rest" by (cases "rows_of_user db p u") simp_all
  define c where "c = (case filter (looks_pinned p) (f # rest) of i # _ \<Rightarrow> i | [] \<Rightarrow> f)"
  have "c \<in> set (f # rest)"
  proof (cases "filter (looks_pinned p) (f # rest)")
    case (Cons a as)
    have "a \<in> set (filter (looks_pinned p) (f # rest))" unfolding Cons by simp
    then have "a \<in> set (f # rest)" by (simp only: set_filter mem_Collect_eq)
    then show ?thesis unfolding c_def Cons by simp
  qed (simp add: c_def)
  moreover have "cg_pool g = p \<and> cg_user g = u \<and> cg_canonical g = c \<and>
      cg_superseded g = filter (\<lambda>i. ident_pk i \<noteq> ident_pk c) (f # rest)"
    using assms unfolding plan_user_def rows list.case Let_def c_def [symmetric]
    by (simp only: split: if_splits) (auto simp only: option.inject collapse_group.simps)
  ultimately show "cg_pool g = p" "cg_user g = u" "cg_canonical g \<in> set (rows_of_user db p u)"
    "set (cg_superseded g) = {i \<in> set (rows_of_user db p u). ident_pk i \<noteq> ident_pk (cg_canonical g)}"
    unfolding rows by (simp_all only: set_filter)
qed

definition owned_row :: "identity \<Rightarrow> nat \<Rightarrow> identity" where
  "owned_row i u = i\<lparr>ident_user := Some u, ident_content_type := None, ident_object_id := None\<rparr>"

lemma owned_row_simps [simp]:
  "ident_pk (owned_row i u) = ident_pk i" "ident_pool (owned_row i u) = ident_pool i"
  "active (owned_row i u) = active i" "exactly_one_principal (owned_row i u)"
  "ident_value ns (owned_row i u) = ident_value ns i" "owner_of db (owned_row i u) = Some u"
  by (cases ns; simp add: owned_row_def active_def exactly_one_principal_def owner_of_def)+

lemma owned_row_same: "exactly_one_principal i \<Longrightarrow> ident_user i = Some u \<Longrightarrow> owned_row i u = i"
  by (simp add: owned_row_def exactly_one_principal_def)

lemma apply_group_rows:
  assumes tab: "table_ok db" and plan: "plan_user db p u = Some g"
  obtains db' where "apply_group db g now = Inr db'" "owner_of db' = owner_of db"
    "set (identities db') =
       release_row now ` set (cg_superseded g) \<union> {owned_row (cg_canonical g) u} \<union>
       (set (identities db) - set (rows_of_user db p u))"
proof -
  note f = plan_user_facts [OF plan]
  let ?c = "cg_canonical g" and ?rows = "set (rows_of_user db p u)"
  let ?q = "\<lambda>i. ident_pk i \<in> set (map ident_pk (cg_superseded g))"
  let ?d = "db\<lparr>identities := update_rows ?q (release_row now) (identities db)\<rparr>"
  have c: "?c \<in> set (identities db)" "active ?c" "ident_pool ?c = pool_pk p" "owner_of db ?c = Some u"
    using f(3) by (auto simp: set_rows_of_user)
  have pk: "i = j" if "i \<in> set (identities db)" "j \<in> set (identities db)" "ident_pk i = ident_pk j" for i j
    using table_ok_pk_inj [OF tab] that by blast
  have q: "?q i \<longleftrightarrow> i \<in> ?rows \<and> i \<noteq> ?c" if i: "i \<in> set (identities db)" for i
  proof -
    have "?q i \<longleftrightarrow> (\<exists>j\<in>?rows. ident_pk j \<noteq> ident_pk ?c \<and> ident_pk i = ident_pk j)"
      using f(4) by auto
    then show ?thesis using pk [OF i] c(1) i f(3) by (auto simp: set_rows_of_user)
  qed
  have rows1: "set (identities ?d) =
      release_row now ` set (cg_superseded g) \<union> {?c} \<union> (set (identities db) - ?rows)"
  proof -
    have "set (cg_superseded g) = {i \<in> set (identities db). ?q i}"
      using f(4) q pk c(1) by (auto simp: set_rows_of_user)
    moreover have "{i \<in> set (identities db). \<not> ?q i} = {?c} \<union> (set (identities db) - ?rows)"
      using q c(1) by blast
    ultimately show ?thesis by (auto simp: db_simps)
  qed
  have tab1: "table_ok ?d" using release_rows_ok [OF tab releases_at(3)] .
  have "\<exists>db2. claim_for_user ?d ?c u = Inr db2 \<and> offering_users db2 = offering_users db \<and>
      set (identities db2) = release_row now ` set (cg_superseded g) \<union> {owned_row ?c u} \<union>
        (set (identities db) - ?rows)"
  proof (cases "ident_user ?c")
    case (Some w)
    then have "w = u" using c(4) by (simp add: owner_of_def)
    moreover have "exactly_one_principal ?c" using tab c(1) by (simp add: table_ok_def identities_ok_def)
    ultimately have "owned_row ?c u = ?c" using Some owned_row_same by blast
    then show ?thesis using Some rows1 by (simp add: claim_for_user_def)
  next
    case None
    have inj1: "distinct (map ident_pk (identities ?d))" using tab1 by (simp add: table_ok_def identities_ok_def)
    have c1: "?c \<in> set (identities ?d)" using rows1 by blast
    have fr: "first_row (\<lambda>i. ident_pk i = ident_pk ?c) (identities ?d) = Some ?c"
      using inj1 c1 by (rule first_row_key)
    have "\<not> ident_clash (owned_row ?c u) j" if j: "j \<in> set (identities ?d)" for j
    proof
      assume clash: "ident_clash (owned_row ?c u) j"
      then have jc: "ident_pk ?c \<noteq> ident_pk j" "active j" "ident_pool j = pool_pk p"
        using c by (auto simp: ident_clash_iff)
      have jdb: "j \<in> set (identities db)" "j \<notin> ?rows"
        using j jc rows1 by auto
      from clash consider ns v where "ident_value ns ?c = Some v" "ident_value ns j = Some v"
        | pr where "owned_by pr (owned_row ?c u)" "owned_by pr j" by (auto simp: ident_clash_iff)
      then show False
      proof cases
        case 1
        then have "?c = j"
          using table_ok_same_value [OF tab c(1) jdb(1) c(2) jc(2)] c(3) jc(3) by simp
        then show False using jc(1) by simp
      next
        case 2
        then have "ident_user j = Some u"
          by (auto simp: owned_by_def owned_row_def split: principal.splits)
        then have "owner_of db j = Some u" by (simp add: owner_of_def)
        then show False using jdb jc by (simp add: set_rows_of_user)
      qed
    qed
    then have "integrity_ok (owned_row ?c u) (identities ?d)" by (simp add: integrity_ok_def list_all_iff)
    then have cl: "claim_for_user ?d ?c u = Inr (?d\<lparr>identities :=
        update_rows (\<lambda>j. ident_pk j = ident_pk ?c) (\<lambda>_. owned_row ?c u) (identities ?d)\<rparr>)"
      using None fr by (simp add: claim_for_user_def save_identity_def owned_row_def)
    have "set (update_rows (\<lambda>j. ident_pk j = ident_pk ?c) (\<lambda>_. owned_row ?c u) (identities ?d)) =
        insert (owned_row ?c u) (set (identities ?d) - {?c})"
      using distinct_key_eq [OF inj1 _ c1] c1 by (auto simp: db_simps simp del: select_convs)
    moreover have "?c \<notin> release_row now ` set (cg_superseded g)"
    proof
      assume "?c \<in> release_row now ` set (cg_superseded g)"
      then have "\<not> active ?c" by auto
      then show False using c(2) by blast
    qed
    ultimately show ?thesis using cl rows1 f(3) by auto
  qed
  then obtain db2 where db2: "claim_for_user ?d ?c u = Inr db2" "offering_users db2 = offering_users db"
      "set (identities db2) = release_row now ` set (cg_superseded g) \<union> {owned_row ?c u} \<union>
        (set (identities db) - ?rows)" by blast
  let ?db' = "fold (apply_change_rows (cg_changes g)) (remdups (map ch_offering_user (cg_changes g))) db2"
  have "apply_group db g now = Inr ?db'"
    using db2(1) f(2) by (simp add: apply_group_def update_identities_def)
  moreover have "owner_of ?db' = owner_of db" "identities ?db' = identities db2"
    using apply_change_rows_frame owner_of_accounts [of db2 db] db2(2) by simp_all
  ultimately show thesis using that db2(3) by simp
qed

text \<open>
  Collapsing the identities of one user in one pool succeeds (no unique constraint is
  violated), leaves the user exactly one active identity there, which is the canonical one and
  now belongs to the user, and withholds every number of the superseded identities.  Active
  identities of everybody else are unchanged.
\<close>

theorem collapse_leaves_one_identity:
  assumes "table_ok db" and "plan_user db p u = Some g"
  shows "\<exists>db'. apply_group db g now = Inr db' \<and>
    {i \<in> set (identities db'). ident_pool i = pool_pk p \<and> active i \<and> owner_of db' i = Some u} =
      {owned_row (cg_canonical g) u} \<and>
    (\<forall>i\<in>set (cg_superseded g). \<forall>ns v. ident_value ns i = Some v \<longrightarrow> v \<in> withheld db' (pool_pk p) ns) \<and>
    {i \<in> set (identities db'). active i} - {owned_row (cg_canonical g) u} =
      {i \<in> set (identities db). active i} - set (rows_of_user db p u) - {owned_row (cg_canonical g) u}"
proof -
  obtain db' where a: "apply_group db g now = Inr db'" "owner_of db' = owner_of db"
    "set (identities db') =
       release_row now ` set (cg_superseded g) \<union> {owned_row (cg_canonical g) u} \<union>
       (set (identities db) - set (rows_of_user db p u))"
    using assms by (rule apply_group_rows)
  note f = plan_user_facts [OF assms(2)]
  have c: "active (cg_canonical g)" "ident_pool (cg_canonical g) = pool_pk p"
    using f(3) by (auto simp: set_rows_of_user)
  have sup: "ident_pool i = pool_pk p" if "i \<in> set (cg_superseded g)" for i
    using that f(4) by (auto simp: set_rows_of_user)
  have "{i \<in> set (identities db'). ident_pool i = pool_pk p \<and> active i \<and> owner_of db' i = Some u} =
      {owned_row (cg_canonical g) u}"
    using c by (auto simp: a(2,3) set_rows_of_user)
  moreover have "v \<in> withheld db' (pool_pk p) ns"
    if "i \<in> set (cg_superseded g)" "ident_value ns i = Some v" for i ns v
  proof -
    have "release_row now i \<in> set (identities db')" using that(1) a(3) by blast
    moreover have "ident_value ns (release_row now i) = Some v"
      using that(2) by (cases ns) (simp_all add: release_row_def)
    moreover have "\<not> recyclable (release_row now i)" by (simp add: release_row_def)
    ultimately show ?thesis
      using sup [OF that(1)] unfolding withheld_def
      by (intro CollectI bexI [of _ "release_row now i"]) simp_all
  qed
  moreover have "{i \<in> set (identities db'). active i} - {owned_row (cg_canonical g) u} =
      {i \<in> set (identities db). active i} - set (rows_of_user db p u) - {owned_row (cg_canonical g) u}"
    by (auto simp: a(3))
  ultimately show ?thesis using a(1) by blast
qed

text \<open>User 100 also has an identity keyed on the offering account 30 from before the retrofit.\<close>

definition demo_duplicates :: posix_db where
  "demo_duplicates = demo_db\<lparr>identities := identities demo_db @
     [(demo_identity 44 11 2003 (Some 2001) 0)\<lparr>ident_user := None,
        ident_content_type := Some CT_offering_user, ident_object_id := Some 30, ident_created := 1\<rparr>],
     next_ident := 45\<rparr>"

lemma demo_duplicates_ok: "table_ok demo_duplicates"
  by (simp add: table_ok_def identities_ok_def pools_ok_def demo_duplicates_def demo_defs
      exactly_one_principal_def ident_clash_def active_def pool_constraints_def RANGES_def
      range_ok_def manages_def MIN_ID_def MAX_ID_def)

lemma collapse_leaves_one_identity_witness:
  "\<exists>g db'. plan_user demo_duplicates demo_pool 100 = Some g \<and> apply_group demo_duplicates g 9 = Inr db' \<and>
     {i \<in> set (identities db'). ident_pool i = 11 \<and> active i \<and> owner_of db' i = Some 100} =
       {owned_row (cg_canonical g) 100}"
proof -
  have "plan_user demo_duplicates demo_pool 100 \<noteq> None" by code_simp
  then obtain g where g: "plan_user demo_duplicates demo_pool 100 = Some g" by blast
  have "pool_pk demo_pool = 11" by (simp add: demo_pool_def)
  moreover obtain db' where "apply_group demo_duplicates g 9 = Inr db'"
      "{i \<in> set (identities db'). ident_pool i = pool_pk demo_pool \<and> active i \<and> owner_of db' i = Some 100} =
       {owned_row (cg_canonical g) 100}"
    using collapse_leaves_one_identity [OF demo_duplicates_ok g, of 9] by blast
  ultimately show ?thesis using g by (intro exI [of _ g] exI [of _ db'] conjI) (simp_all only:)
qed

end
