(* ===== verification/Effects.thy ===== *)
theory Effects
  imports Prelude
begin

text \<open>
  Handlers that change the database step by step.  An \<open>eff\<close> reads and writes a state and either
  returns or raises; unlike a \<open>result\<close> with a state inside, a raise keeps the writes made before
  it, which is what Python does outside a transaction.  \<open>atomic\<close> is \<open>transaction.atomic()\<close>: an
  exception that leaves the block undoes its writes.  Python dictionaries are association lists
  compared by \<open>dict_eq\<close>.
\<close>

named_theorems eff_simps \<open>effects and their sequencing\<close>

type_synonym ('e, 's, 'a) eff = "'s \<Rightarrow> ('e, 'a) result \<times> 's"

definition ereturn :: "'a \<Rightarrow> ('e, 's, 'a) eff" where
  "ereturn x = (\<lambda>s. (Inr x, s))"

definition eraise :: "'e \<Rightarrow> ('e, 's, 'a) eff" where
  "eraise e = (\<lambda>s. (Inl e, s))"

definition ebind :: "('e, 's, 'a) eff \<Rightarrow> ('a \<Rightarrow> ('e, 's, 'b) eff) \<Rightarrow> ('e, 's, 'b) eff" where
  "ebind m f = (\<lambda>s. case m s of (Inl e, t) \<Rightarrow> (Inl e, t) | (Inr x, t) \<Rightarrow> f x t)"

definition ethen :: "('e, 's, 'a) eff \<Rightarrow> ('e, 's, 'b) eff \<Rightarrow> ('e, 's, 'b) eff" where
  "ethen m n = ebind m (\<lambda>_. n)"

definition eread :: "('s \<Rightarrow> 'a) \<Rightarrow> ('e, 's, 'a) eff" where
  "eread f = (\<lambda>s. (Inr (f s), s))"

definition ewrite :: "('s \<Rightarrow> 's) \<Rightarrow> ('e, 's, unit) eff" where
  "ewrite f = (\<lambda>s. (Inr (), f s))"

definition ewhen :: "bool \<Rightarrow> ('e, 's, unit) eff \<Rightarrow> ('e, 's, unit) eff" where
  "ewhen b m = (if b then m else ereturn ())"

definition elift :: "('e, 'a) result \<Rightarrow> ('e, 's, 'a) eff" where
  "elift r = (\<lambda>s. (r, s))"

definition atomic :: "('e, 's, 'a) eff \<Rightarrow> ('e, 's, 'a) eff" where
  "atomic m = (\<lambda>s. case m s of (Inl e, _) \<Rightarrow> (Inl e, s) | (Inr x, t) \<Rightarrow> (Inr x, t))"

text \<open>An operation that either raises before its first write or returns the new state.\<close>

definition estep :: "('s \<Rightarrow> ('e, 's) result) \<Rightarrow> ('e, 's, unit) eff" where
  "estep f = (\<lambda>s. case f s of Inl e \<Rightarrow> (Inl e, s) | Inr t \<Rightarrow> (Inr (), t))"

fun eiter :: "('a \<Rightarrow> ('e, 's, unit) eff) \<Rightarrow> 'a list \<Rightarrow> ('e, 's, unit) eff" where
  "eiter f [] = ereturn ()"
| "eiter f (x # xs) = ethen (f x) (eiter f xs)"

lemmas eff_defs = ereturn_def eraise_def ebind_def ethen_def eread_def ewrite_def ewhen_def elift_def

lemma eff_run [simp, eff_simps]:
  "ereturn x s = (Inr x, s)" "eraise e s = (Inl e, s)" "eread f s = (Inr (f s), s)"
  "ewrite g s = (Inr (), g s)" "elift r s = (r, s)"
  "ewhen b m s = (if b then m s else (Inr (), s))"
  by (simp_all add: eff_defs)

lemma ebind_run [eff_simps]:
  "ebind m f s = (case m s of (Inl e, t) \<Rightarrow> (Inl e, t) | (Inr x, t) \<Rightarrow> f x t)"
  by (simp add: ebind_def)

lemma ethen_run [eff_simps]:
  "ethen m n s = (case m s of (Inl e, t) \<Rightarrow> (Inl e, t) | (Inr x, t) \<Rightarrow> n t)"
  by (simp add: ethen_def ebind_def)

lemma ebind_Inr: "m s = (Inr x, t) \<Longrightarrow> ebind m f s = f x t"
  by (simp add: ebind_def)

lemma ebind_Inl: "m s = (Inl e, t) \<Longrightarrow> ebind m f s = (Inl e, t)"
  by (simp add: ebind_def)

lemma ethen_Inr: "m s = (Inr x, t) \<Longrightarrow> ethen m n s = n t"
  by (simp add: ethen_def ebind_def)

lemma ebind_returned:
  assumes "ebind m f s = (Inr y, u)"
  obtains x t where "m s = (Inr x, t)" "f x t = (Inr y, u)"
  using assms by (auto simp: ebind_def split: prod.splits sum.splits)

lemma ethen_returned:
  assumes "ethen m n s = (Inr y, u)"
  obtains x t where "m s = (Inr x, t)" "n t = (Inr y, u)"
  using assms unfolding ethen_def by (rule ebind_returned)

lemma atomic_raised: "atomic m s = (Inl e, t) \<Longrightarrow> t = s"
  by (auto simp: atomic_def split: prod.splits sum.splits)

lemma atomic_returned: "atomic m s = (Inr x, t) \<longleftrightarrow> m s = (Inr x, t)"
  by (auto simp: atomic_def split: prod.splits sum.splits)

text \<open>A relation between states that every primitive effect respects holds for the composite.\<close>

definition stays :: "('s \<Rightarrow> 's \<Rightarrow> bool) \<Rightarrow> ('e, 's, 'a) eff \<Rightarrow> bool" where
  "stays R m \<longleftrightarrow> (\<forall>s. R s (snd (m s)))"

lemma staysD: "stays R m \<Longrightarrow> m s = (r, t) \<Longrightarrow> R s t"
  unfolding stays_def by (metis snd_conv)

locale state_order =
  fixes R :: "'s \<Rightarrow> 's \<Rightarrow> bool"
  assumes refl: "R s s"
    and trans: "R s t \<Longrightarrow> R t u \<Longrightarrow> R s u"
begin

lemma stays_return: "stays R (ereturn x)" and stays_raise: "stays R (eraise e)"
  and stays_read: "stays R (eread f)" and stays_lift: "stays R (elift r)"
  by (simp_all add: stays_def refl)

lemma stays_write: "(\<And>s. R s (g s)) \<Longrightarrow> stays R (ewrite g)"
  by (simp add: stays_def)

lemma stays_step: "(\<And>s t. f s = Inr t \<Longrightarrow> R s t) \<Longrightarrow> stays R (estep f)"
  by (simp add: stays_def estep_def refl split: sum.split)

lemma stays_bind: "stays R m \<Longrightarrow> (\<And>x. stays R (f x)) \<Longrightarrow> stays R (ebind m f)"
proof -
  assume m: "stays R m" and f: "\<And>x. stays R (f x)"
  have "R s (snd (ebind m f s))" for s
  proof (cases "m s")
    case (Pair r t)
    have st: "R s t" using staysD [OF m Pair] .
    show ?thesis
    proof (cases r)
      case (Inl e)
      then show ?thesis using Pair st by (simp add: ebind_def)
    next
      case (Inr x)
      have "R t (snd (f x t))" using f [of x] by (simp add: stays_def)
      then show ?thesis using Pair Inr trans [OF st] by (simp add: ebind_def)
    qed
  qed
  then show ?thesis by (simp add: stays_def)
qed

lemma stays_then: "stays R m \<Longrightarrow> stays R n \<Longrightarrow> stays R (ethen m n)"
  unfolding ethen_def by (rule stays_bind)

lemma stays_when: "(b \<Longrightarrow> stays R m) \<Longrightarrow> stays R (ewhen b m)"
  by (simp add: ewhen_def stays_return)

lemma stays_atomic: "stays R m \<Longrightarrow> stays R (atomic m)"
proof -
  assume m: "stays R m"
  have "R s (snd (atomic m s))" for s
  proof (cases "m s")
    case (Pair r t)
    then show ?thesis using staysD [OF m Pair] refl by (cases r) (simp_all add: atomic_def)
  qed
  then show ?thesis by (simp add: stays_def)
qed

lemma stays_iter: "(\<And>x. x \<in> set xs \<Longrightarrow> stays R (f x)) \<Longrightarrow> stays R (eiter f xs)"
  by (induction xs) (simp_all add: stays_return stays_then)

lemma iter_reaches:
  assumes "\<And>x. x \<in> set xs \<Longrightarrow> stays R (f x)" and "eiter f xs s = (Inr u, t)" and "x \<in> set xs"
  obtains s1 t1 where "R s s1" "f x s1 = (Inr (), t1)" "R t1 t"
proof -
  have "\<exists>s1 t1. R s s1 \<and> f x s1 = (Inr (), t1) \<and> R t1 t"
    using assms
  proof (induction xs arbitrary: s)
    case (Cons y ys)
    from Cons.prems(2) obtain s' where head: "f y s = (Inr (), s')" and tail: "eiter f ys s' = (Inr u, t)"
      by (auto elim: ethen_returned)
    have rest: "stays R (eiter f ys)" by (rule stays_iter) (use Cons.prems(1) in simp)
    show ?case
    proof (cases "x = y")
      case True
      then show ?thesis using head refl staysD [OF rest tail] by blast
    next
      case False
      then obtain s1 t1 where "R s' s1" "f x s1 = (Inr (), t1)" "R t1 t"
        using Cons.IH [OF _ tail] Cons.prems(1,3) by auto
      moreover have "R s s'" using staysD [OF Cons.prems(1) head] by simp
      ultimately show ?thesis using trans by blast
    qed
  qed simp
  with that show thesis by blast
qed

end

subsection \<open>Dictionaries\<close>

type_synonym ('k, 'v) dict = "('k \<times> 'v) list"

definition dict_eq :: "('k, 'v) dict \<Rightarrow> ('k, 'v) dict \<Rightarrow> bool" where
  "dict_eq a b \<longleftrightarrow> list_all (\<lambda>k. map_of a k = map_of b k) (map fst a @ map fst b)"

lemma dict_eq_iff: "dict_eq a b \<longleftrightarrow> map_of a = map_of b"
proof
  assume e: "dict_eq a b"
  have "map_of a k = map_of b k" for k
  proof (cases "k \<in> set (map fst a @ map fst b)")
    case True
    then show ?thesis using e by (auto simp: dict_eq_def list_all_iff)
  next
    case False
    then have "map_of a k = None" "map_of b k = None" by (simp_all add: map_of_eq_None_iff)
    then show ?thesis by simp
  qed
  then show "map_of a = map_of b" by (rule ext)
qed (simp add: dict_eq_def list_all_iff)

text \<open>\<open>d[k] = v\<close> and \<open>d.update(other)\<close>; a new key goes to the end, as in Python.\<close>

fun dict_set :: "'k \<Rightarrow> 'v \<Rightarrow> ('k, 'v) dict \<Rightarrow> ('k, 'v) dict" where
  "dict_set k v [] = [(k, v)]"
| "dict_set k v ((l, w) # d) = (if l = k then (k, v) # d else (l, w) # dict_set k v d)"

definition dict_update :: "('k, 'v) dict \<Rightarrow> ('k, 'v) dict \<Rightarrow> ('k, 'v) dict" where
  "dict_update d e = fold (\<lambda>(k, v). dict_set k v) e d"

lemma map_of_dict_set [simp]: "map_of (dict_set k v d) = (map_of d)(k \<mapsto> v)"
  by (induction k v d rule: dict_set.induct) auto

lemma fst_dict_set: "fst ` set (dict_set k v d) = insert k (fst ` set d)"
  by (induction k v d rule: dict_set.induct) auto

lemma distinct_dict_set: "distinct (map fst d) \<Longrightarrow> distinct (map fst (dict_set k v d))"
  by (induction k v d rule: dict_set.induct) (auto simp: fst_dict_set image_iff)

lemma map_of_dict_update: "map_of (dict_update d e) = foldl (\<lambda>m (k, v). m(k \<mapsto> v)) (map_of d) e"
  unfolding dict_update_def by (induction e arbitrary: d) (auto split: prod.split)

end
