(* ===== verification/Option_Visibility.thy ===== *)
theory Option_Visibility
  imports Effects
begin

text \<open>
  Conditional options, \<^verbatim>\<open>src/waldur_mastermind/common/serializers.py\<close>: an option with a
  \<open>visible_if\<close> rule is shown only when the option it refers to is shown and has one of the
  rule's values.  \<open>is_visible\<close> is the memoised search of \<open>get_hidden_options\<close> with its dictionary
  passed along; \<open>shown\<close> is the reference definition it is proved equal to.  \<open>to_bool\<close> stands for
  \<open>BooleanField().to_internal_value\<close> of the REST framework, \<open>None\<close> where that raises.
\<close>

datatype json = JNull | JBool bool | JStr string | JNum rat | JList "json list" | JObj "(string \<times> json) list"

record option_rule =
  rule_field :: string
  rule_values :: "json list"

record form_option =
  opt_type :: string
  visible_if :: "option_rule option"

type_synonym option_defs = "(string, form_option) dict"

fun is_bool :: "json \<Rightarrow> bool" where
  "is_bool (JBool _) = True"
| "is_bool _ = False"

fun is_str :: "json \<Rightarrow> bool" where
  "is_str (JStr _) = True"
| "is_str _ = False"

text \<open>A missing value is \<open>JNull\<close>, as \<open>values.get(parent)\<close> returns \<open>None\<close>.\<close>

definition option_value_matches :: "(json \<Rightarrow> bool option) \<Rightarrow> form_option \<Rightarrow> json \<Rightarrow> json list \<Rightarrow> bool" where
  "option_value_matches to_bool opt v vals =
     (if opt_type opt = ''boolean''
      then (case to_bool (if v = JNull then JBool False else v) of
              None \<Rightarrow> False
            | Some b \<Rightarrow> list_ex (\<lambda>item. is_bool item \<and> item = JBool b) vals)
      else if v = JNull then False
      else if opt_type opt = ''select_string'' then is_str v \<and> v \<in> set vals
      else if opt_type opt = ''select_string_multi''
      then (case v of
              JStr s \<Rightarrow> JStr s \<in> set vals
            | JList items \<Rightarrow> list_ex (\<lambda>item. is_str item \<and> item \<in> set vals) items
            | _ \<Rightarrow> False)
      else False)"

definition get_value :: "(string, json) dict \<Rightarrow> string \<Rightarrow> json" where
  "get_value vals k = (case map_of vals k of None \<Rightarrow> JNull | Some v \<Rightarrow> v)"

text \<open>The rule of an option: \<open>None\<close> when it has none (or the option is not defined).\<close>

definition rule_of :: "option_defs \<Rightarrow> string \<Rightarrow> option_rule option" where
  "rule_of options name = (case map_of options name of None \<Rightarrow> None | Some opt \<Rightarrow> visible_if opt)"

definition parent_matches ::
    "(json \<Rightarrow> bool option) \<Rightarrow> option_defs \<Rightarrow> (string, json) dict \<Rightarrow> option_rule \<Rightarrow> bool" where
  "parent_matches to_bool options vals rule =
     (case map_of options (rule_field rule) of
        None \<Rightarrow> False
      | Some parent \<Rightarrow>
          option_value_matches to_bool parent (get_value vals (rule_field rule)) (rule_values rule))"

lemma rule_of_defined: "rule_of options name = Some rule \<Longrightarrow> name \<in> set (map fst options)"
  by (auto simp: rule_of_def dest: map_of_SomeD intro: rev_image_eqI split: option.splits)

subsection \<open>The memoised search\<close>

type_synonym visibility = "string \<rightharpoonup> bool"

function is_visible ::
    "(json \<Rightarrow> bool option) \<Rightarrow> option_defs \<Rightarrow> (string, json) dict \<Rightarrow> string \<Rightarrow> string list \<Rightarrow> visibility
     \<Rightarrow> bool \<times> visibility" where
  "is_visible tb options vals name path memo =
     (case memo name of
        Some b \<Rightarrow> (b, memo)
      | None \<Rightarrow>
          (case rule_of options name of
             None \<Rightarrow> (True, memo(name \<mapsto> True))
           | Some rule \<Rightarrow>
               (if rule_field rule \<notin> set (map fst options) \<or> rule_field rule \<in> set path
                then (False, memo(name \<mapsto> False))
                else let (b, memo') = is_visible tb options vals (rule_field rule) (name # path) memo;
                         result = b \<and> parent_matches tb options vals rule
                     in (result, memo'(name \<mapsto> result)))))"
  by pat_completeness auto
termination
proof (relation "measure (\<lambda>(tb, options, vals, name, path, memo).
    2 * card (set (map fst options) - set path) + (if name \<in> set path then 1 else 0))", goal_cases)
  case 1
  show ?case by simp
next
  case (2 tb options vals name path memo rule)
  let ?K = "set (map fst options)"
  have k: "name \<in> ?K" using 2(2) by (rule rule_of_defined)
  have p: "rule_field rule \<notin> set path" using 2(3) by simp
  show ?case
  proof (cases "name \<in> set path")
    case True
    then have "set (name # path) = set path" by auto
    then show ?thesis using True p by (simp add: insert_absorb)
  next
    case False
    then have "?K - set (name # path) \<subset> ?K - set path" using k by auto
    then have "card (?K - set (name # path)) < card (?K - set path)" by (simp add: psubset_card_mono)
    then show ?thesis using False by simp
  qed
qed

declare is_visible.simps [simp del]

fun hidden_loop ::
    "(json \<Rightarrow> bool option) \<Rightarrow> option_defs \<Rightarrow> (string, json) dict \<Rightarrow> string list \<Rightarrow> visibility \<Rightarrow> string list" where
  "hidden_loop tb options vals [] memo = []"
| "hidden_loop tb options vals (name # names) memo =
     (let (b, memo') = is_visible tb options vals name [name] memo;
          rest = hidden_loop tb options vals names memo'
      in if b then rest else name # rest)"

definition get_hidden_options ::
    "(json \<Rightarrow> bool option) \<Rightarrow> option_defs \<Rightarrow> (string, json) dict \<Rightarrow> string list" where
  "get_hidden_options tb options vals = hidden_loop tb options vals (map fst options) Map.empty"

definition strip_hidden_options ::
    "(json \<Rightarrow> bool option) \<Rightarrow> option_defs \<Rightarrow> (string, json) dict \<Rightarrow> (string, json) dict" where
  "strip_hidden_options tb options vals =
     (let hidden = get_hidden_options tb options vals
      in if hidden = [] then vals else filter (\<lambda>(k, _). k \<notin> set hidden) vals)"

subsection \<open>The reference definition\<close>

text \<open>
  An option is shown when its chain of rules ends at an option without a rule and every rule on
  the way is met: the least fixed point, so options on a cycle are hidden.
\<close>

inductive shown :: "(json \<Rightarrow> bool option) \<Rightarrow> option_defs \<Rightarrow> (string, json) dict \<Rightarrow> string \<Rightarrow> bool"
  for tb :: "json \<Rightarrow> bool option" and options :: option_defs and vals :: "(string, json) dict" where
  no_rule: "rule_of options name = None \<Longrightarrow> shown tb options vals name"
| rule_met: "rule_of options name = Some rule \<Longrightarrow> rule_field rule \<in> set (map fst options) \<Longrightarrow>
     shown tb options vals (rule_field rule) \<Longrightarrow> parent_matches tb options vals rule \<Longrightarrow>
     shown tb options vals name"

lemma shown_rule:
  "rule_of options name = Some rule \<Longrightarrow> shown tb options vals name \<longleftrightarrow>
     rule_field rule \<in> set (map fst options) \<and> shown tb options vals (rule_field rule) \<and>
     parent_matches tb options vals rule"
  by (subst shown.simps) simp

inductive_cases shownE: "shown tb options vals name"

text \<open>\<open>leads_to a b\<close>: \<open>b\<close> is reached from \<open>a\<close> along rules; a shown option never leads to itself.\<close>

definition parent_of :: "option_defs \<Rightarrow> string \<Rightarrow> string \<Rightarrow> bool" where
  "parent_of options a b \<longleftrightarrow> (\<exists>rule. rule_of options a = Some rule \<and> rule_field rule = b)"

lemma shown_parent: "shown tb options vals a \<Longrightarrow> parent_of options a b \<Longrightarrow> shown tb options vals b"
  by (erule shownE) (auto simp: parent_of_def)

lemma parent_unique: "parent_of options a b \<Longrightarrow> parent_of options a c \<Longrightarrow> b = c"
  by (auto simp: parent_of_def)

lemma shown_acyclic:
  assumes "shown tb options vals a"
  shows "\<not> (parent_of options)\<^sup>+\<^sup>+ a a"
  using assms
proof (induction rule: shown.induct)
  case (no_rule name)
  then show ?case by (auto simp: parent_of_def elim: converse_tranclpE)
next
  case (rule_met name rule)
  show ?case
  proof
    assume c: "(parent_of options)\<^sup>+\<^sup>+ name name"
    have p: "parent_of options name (rule_field rule)" using rule_met(1) by (auto simp: parent_of_def)
    have "(parent_of options)\<^sup>*\<^sup>* (rule_field rule) name"
      using c by (metis converse_tranclpE parent_unique p rtranclp.rtrancl_refl tranclp_into_rtranclp)
    then have "(parent_of options)\<^sup>+\<^sup>+ (rule_field rule) (rule_field rule)"
      using p by (meson rtranclp_into_tranclp1)
    then show False using rule_met.IH by blast
  qed
qed

text \<open>A memo that only holds right answers, and a path that leads to the option at hand.\<close>

definition memo_ok ::
    "(json \<Rightarrow> bool option) \<Rightarrow> option_defs \<Rightarrow> (string, json) dict \<Rightarrow> visibility \<Rightarrow> bool" where
  "memo_ok tb options vals memo \<longleftrightarrow> (\<forall>n b. memo n = Some b \<longrightarrow> b = shown tb options vals n)"

lemma memo_ok_upd:
  "memo_ok tb options vals memo \<Longrightarrow> b = shown tb options vals n \<Longrightarrow>
   memo_ok tb options vals (memo(n \<mapsto> b))"
  by (simp add: memo_ok_def)

lemma is_visible_shown:
  assumes "memo_ok tb options vals memo"
    and "\<forall>a\<in>set path. (parent_of options)\<^sup>*\<^sup>* a name"
  shows "fst (is_visible tb options vals name path memo) = shown tb options vals name \<and>
    memo_ok tb options vals (snd (is_visible tb options vals name path memo))"
  using assms
proof (induction tb options vals name path memo rule: is_visible.induct)
  case (1 tb options vals name path memo)
  note unfold = is_visible.simps [of tb options vals name path memo]
  show ?case
  proof (cases "memo name")
    case (Some b)
    then show ?thesis using "1.prems"(1) unfold by (auto simp: memo_ok_def)
  next
    case None
    show ?thesis
    proof (cases "rule_of options name")
      case no: None
      then show ?thesis
        using None "1.prems"(1) unfold shown.no_rule [OF no, of tb vals] by (auto simp: memo_ok_def)
    next
      case (Some rule)
      let ?p = "rule_field rule"
      have p: "parent_of options name ?p" using Some by (auto simp: parent_of_def)
      show ?thesis
      proof (cases "?p \<notin> set (map fst options) \<or> ?p \<in> set path")
        case True
        have "\<not> shown tb options vals name"
        proof
          assume s: "shown tb options vals name"
          then have "?p \<in> set (map fst options)" by (simp only: shown_rule [OF Some])
          then have "(parent_of options)\<^sup>*\<^sup>* ?p name" using True "1.prems"(2) by blast
          then have "(parent_of options)\<^sup>+\<^sup>+ name name" using p by (meson rtranclp_into_tranclp2)
          then show False using shown_acyclic [OF s] by blast
        qed
        then show ?thesis using None Some True "1.prems"(1) unfold by (auto simp: memo_ok_def)
      next
        case False
        let ?r = "is_visible tb options vals ?p (name # path) memo"
        have "\<forall>a\<in>set (name # path). (parent_of options)\<^sup>*\<^sup>* a ?p"
          using "1.prems"(2) p by (auto intro: rtranclp.rtrancl_into_rtrancl)
        then have IH: "fst ?r = shown tb options vals ?p" "memo_ok tb options vals (snd ?r)"
          using "1.IH" [OF None Some False "1.prems"(1)] by auto
        have "shown tb options vals name \<longleftrightarrow>
            shown tb options vals ?p \<and> parent_matches tb options vals rule"
          using False by (simp only: shown_rule [OF Some]) blast
        then show ?thesis
          using None Some False IH unfold by (auto simp: memo_ok_def Let_def case_prod_beta)
      qed
    qed
  qed
qed

lemma hidden_loop_set:
  assumes "memo_ok tb options vals memo"
  shows "set (hidden_loop tb options vals names memo) = {n \<in> set names. \<not> shown tb options vals n}"
  using assms
proof (induction names arbitrary: memo)
  case (Cons n names)
  let ?r = "is_visible tb options vals n [n] memo"
  have r: "fst ?r = shown tb options vals n" "memo_ok tb options vals (snd ?r)"
    using is_visible_shown [OF Cons.prems, of "[n]" n] by auto
  show ?case using Cons.IH [OF r(2)] r(1) by (auto simp: Let_def case_prod_beta)
qed simp

text \<open>
  C38. The memoised, path-tracking search computes exactly the declarative meaning: an option is
  hidden if and only if its chain of rules does not lead, every rule met, to an option without
  a rule.  Hence the order in which options are visited and what is memoised on the way cannot
  change the outcome, and hiding cascades down a chain and covers every cycle.
\<close>

theorem hidden_options_exact:
  "set (get_hidden_options tb options vals) =
     {n \<in> set (map fst options). \<not> shown tb options vals n}"
  unfolding get_hidden_options_def by (rule hidden_loop_set) (simp add: memo_ok_def)

subsection \<open>Stripping\<close>

lemma map_of_filter_keys: "map_of (filter (\<lambda>(k, _). P k) d) k = (if P k then map_of d k else None)"
  by (induction d) auto

lemma map_of_strip:
  "map_of (strip_hidden_options tb options vals) k =
     (if k \<in> set (get_hidden_options tb options vals) then None else map_of vals k)"
  by (cases "get_hidden_options tb options vals = []")
    (simp_all add: strip_hidden_options_def map_of_filter_keys [where P = "\<lambda>k. k \<notin> set h" for h])

lemma hidden_iff:
  "n \<in> set (get_hidden_options tb options vals) \<longleftrightarrow>
     n \<in> set (map fst options) \<and> \<not> shown tb options vals n"
  unfolding get_hidden_options_def by (subst hidden_loop_set) (simp_all add: memo_ok_def)

lemma shown_keeps_value:
  "shown tb options vals k \<Longrightarrow> get_value (strip_hidden_options tb options vals) k = get_value vals k"
  by (simp add: get_value_def map_of_strip hidden_iff)

lemma parent_matches_strip:
  "shown tb options vals (rule_field rule) \<Longrightarrow>
   parent_matches tb options (strip_hidden_options tb options vals) rule =
   parent_matches tb options vals rule"
  by (simp add: parent_matches_def shown_keeps_value cong: option.case_cong)

lemma shown_strip:
  "shown tb options (strip_hidden_options tb options vals) n \<longleftrightarrow> shown tb options vals n"
  (is "?l = ?r")
proof
  assume ?r
  then show ?l
  proof (induction rule: shown.induct)
    case (rule_met name rule)
    then show ?case
      using parent_matches_strip [OF rule_met(3)] by (blast intro: shown.rule_met)
  qed (rule shown.no_rule)
next
  assume ?l
  then show ?r
  proof (induction rule: shown.induct)
    case (rule_met name rule)
    then show ?case
      using parent_matches_strip [OF rule_met.IH] by (blast intro: shown.rule_met)
  qed (rule shown.no_rule)
qed

text \<open>
  Stripping the values of hidden options never changes what is hidden: exactly the same
  options are hidden afterwards, no hidden option keeps a value, every other submitted value
  survives, and stripping again changes nothing.  (The values sent for hidden parents are never
  consulted, so removing them cannot reveal or hide a dependant.)
\<close>

theorem strip_hidden_stable:
  "set (get_hidden_options tb options (strip_hidden_options tb options vals)) =
     set (get_hidden_options tb options vals) \<and>
   map_of (strip_hidden_options tb options vals) k =
     (if k \<in> set (get_hidden_options tb options vals) then None else map_of vals k) \<and>
   strip_hidden_options tb options (strip_hidden_options tb options vals) =
     strip_hidden_options tb options vals"
proof (intro conjI)
  let ?s = "strip_hidden_options tb options vals"
  show same: "set (get_hidden_options tb options ?s) = set (get_hidden_options tb options vals)"
    by (auto simp: hidden_iff shown_strip)
  show "map_of ?s k = (if k \<in> set (get_hidden_options tb options vals) then None else map_of vals k)"
    by (rule map_of_strip)
  have "filter (\<lambda>(k, _). k \<notin> set (get_hidden_options tb options vals)) ?s = ?s"
    by (auto simp: strip_hidden_options_def Let_def filter_id_conv case_prod_beta)
  then show "strip_hidden_options tb options ?s = ?s"
    by (simp add: strip_hidden_options_def [of tb options ?s] Let_def same)
qed

end
