(* ===== verification/Plan_Billing.thy ===== *)
theory Plan_Billing
  imports Effects
begin

text \<open>
  How a component is billed under a plan: \<^verbatim>\<open>src/waldur_mastermind/marketplace/billing_mode.py\<close>
  and the price methods of \<open>Plan\<close> in \<^verbatim>\<open>marketplace/models.py\<close>.  An offering is the list of its
  component rows and a plan the list of its prices; the offering of a plan is an argument.
  Decimals are exact rationals.  What the plugin registry answers (\<open>can_update_limits\<close>, the
  component factors) and \<open>dateutil\<close>'s \<open>relativedelta\<close> are arguments of the definitions using them.
\<close>

datatype billing_type = FIXED | USAGE | ONE_TIME | ON_PLAN_SWITCH | LIMIT
datatype billing_mode = MODE_INHERIT | MODE_LIMIT | MODE_USAGE
datatype limit_period = MONTH | QUARTERLY | ANNUAL | TOTAL

record offering_component =
  oc_type :: string
  oc_billing_type :: billing_type
  billed_per_plan :: bool
  oc_is_prepaid :: bool
  oc_limit_period :: limit_period
  oc_measured_unit :: string

record plan_component =
  pc_component :: "offering_component option"
  pc_amount :: nat
  pc_price :: rat

record plan =
  plan_pk :: nat
  plan_name :: string
  plan_billing_mode :: billing_mode
  unit_price :: rat
  plan_components :: "plan_component list"

record offering_data =
  off_pk :: nat
  off_type :: string
  off_components :: "offering_component list"
  off_plans :: "plan list"

definition OPENSTACK_TENANT_OFFERING :: string where
  "OPENSTACK_TENANT_OFFERING = ''OpenStack.Tenant''"

subsection \<open>Resolution\<close>

definition OVERRIDING_BILLING_MODES :: "billing_mode list" where
  "OVERRIDING_BILLING_MODES = [MODE_LIMIT, MODE_USAGE]"

definition OPENSTACK_USAGE_UNITS :: "(string, string) dict" where
  "OPENSTACK_USAGE_UNITS = [(''cores'', ''core-hours'')]"

definition OPENSTACK_LIMIT_UNITS :: "(string, string) dict" where
  "OPENSTACK_LIMIT_UNITS = [(''cores'', ''cores'')]"

definition get_default :: "('k, 'v) dict \<Rightarrow> 'k \<Rightarrow> 'v \<Rightarrow> 'v" where
  "get_default d k v = (case map_of d k of None \<Rightarrow> v | Some w \<Rightarrow> w)"

definition offering_has_builtin_components :: "offering_data \<Rightarrow> bool" where
  "offering_has_builtin_components off = list_ex billed_per_plan (off_components off)"

definition measured_unit_for :: "string \<Rightarrow> string \<Rightarrow> billing_type \<Rightarrow> string \<Rightarrow> string" where
  "measured_unit_for offering_type component_type bt default_unit =
     (if offering_type \<noteq> OPENSTACK_TENANT_OFFERING then default_unit
      else if bt = USAGE then get_default OPENSTACK_USAGE_UNITS component_type ''GB-hours''
      else get_default OPENSTACK_LIMIT_UNITS component_type ''GB'')"

record effective_component =
  ef_component :: offering_component
  ef_billing_type :: billing_type
  ef_is_prepaid :: bool
  ef_limit_period :: limit_period
  ef_measured_unit :: string

definition is_limit_like :: "effective_component \<Rightarrow> bool" where
  "is_limit_like e \<longleftrightarrow> ef_billing_type e = LIMIT \<or> (ef_billing_type e = ONE_TIME \<and> ef_is_prepaid e)"

definition own_values :: "offering_component \<Rightarrow> effective_component" where
  "own_values c = \<lparr>ef_component = c, ef_billing_type = oc_billing_type c, ef_is_prepaid = oc_is_prepaid c,
     ef_limit_period = oc_limit_period c, ef_measured_unit = oc_measured_unit c\<rparr>"

text \<open>
  The resolver reads only the plan's billing mode, so it takes that: \<open>None\<close> without a plan.
  (\<open>PlanModeStub\<close> of the source passes a bare mode in the same way.)
\<close>

definition resolve_component :: "string \<Rightarrow> billing_mode option \<Rightarrow> offering_component \<Rightarrow> effective_component" where
  "resolve_component offering_type mode c =
     (case mode of
        None \<Rightarrow> own_values c
      | Some m \<Rightarrow>
          if m = MODE_INHERIT then own_values c
          else if \<not> billed_per_plan c then own_values c
          else let (bt, period) = (if m = MODE_LIMIT then (LIMIT, MONTH) else (USAGE, oc_limit_period c))
               in \<lparr>ef_component = c, ef_billing_type = bt, ef_is_prepaid = False, ef_limit_period = period,
                   ef_measured_unit = measured_unit_for offering_type (oc_type c) bt (oc_measured_unit c)\<rparr>)"

type_synonym resolved = "(string, effective_component) dict"

definition resolved_plan :: "offering_data \<Rightarrow> billing_mode option \<Rightarrow> resolved" where
  "resolved_plan off mode =
     fold (\<lambda>c. dict_set (oc_type c) (resolve_component (off_type off) mode c)) (off_components off) []"

definition resolve_plan :: "offering_data \<Rightarrow> plan \<Rightarrow> resolved" where
  "resolve_plan off p = resolved_plan off (Some (plan_billing_mode p))"

definition resolve_offering :: "offering_data \<Rightarrow> resolved" where
  "resolve_offering off = resolved_plan off None"

definition usage_types :: "resolved \<Rightarrow> string list" where
  "usage_types r = map (oc_type \<circ> ef_component) (filter (\<lambda>e. ef_billing_type e = USAGE) (map snd r))"

definition limit_types :: "resolved \<Rightarrow> string list" where
  "limit_types r = map (oc_type \<circ> ef_component) (filter (\<lambda>e. ef_billing_type e = LIMIT) (map snd r))"

definition limit_components :: "resolved \<Rightarrow> (string, offering_component) dict" where
  "limit_components r =
     fold (\<lambda>e. dict_set (oc_type (ef_component e)) (ef_component e)) (filter is_limit_like (map snd r)) []"

definition is_usage_based :: "resolved \<Rightarrow> bool" where
  "is_usage_based r \<longleftrightarrow> usage_types r \<noteq> []"

definition is_limit_based :: "bool \<Rightarrow> resolved \<Rightarrow> bool" where
  "is_limit_based can_update_limits r \<longleftrightarrow> (if \<not> can_update_limits then False else limit_types r \<noteq> [])"

subsection \<open>Setting a mode and describing a plan\<close>

text \<open>
  Why \<open>mode\<close> may not be set on a plan of the offering.  \<open>old\<close> is the stored plan being changed, if
  any, and \<open>used\<close> whether a resource has it; the three refusals are numbered as in the source.
\<close>

datatype mode_refusal = NO_BUILTIN_COMPONENTS | CHARGES_UPFRONT | PLAN_IN_USE

definition check_plan_billing_mode ::
    "offering_data \<Rightarrow> billing_mode option \<Rightarrow> plan option \<Rightarrow> bool \<Rightarrow> mode_refusal option" where
  "check_plan_billing_mode off mode old used =
     (let overriding = mode \<noteq> None \<and> mode \<noteq> Some MODE_INHERIT
      in if \<not> overriding \<and> old = None then None
         else if overriding \<and> \<not> offering_has_builtin_components off then Some NO_BUILTIN_COMPONENTS
         else if overriding \<and> list_ex (\<lambda>c. billed_per_plan c \<and> oc_is_prepaid c) (off_components off)
           then Some CHARGES_UPFRONT
         else (case old of
                 None \<Rightarrow> None
               | Some p \<Rightarrow> if mode \<noteq> Some (plan_billing_mode p) \<and> used then Some PLAN_IN_USE else None))"

definition PERIODIC_BILLING_TYPES :: "billing_type list" where
  "PERIODIC_BILLING_TYPES = [FIXED, LIMIT]"

definition billing_period_applies :: "offering_data \<Rightarrow> billing_mode option \<Rightarrow> bool" where
  "billing_period_applies off mode =
     list_ex (\<lambda>e. ef_billing_type e \<in> set PERIODIC_BILLING_TYPES) (map snd (resolved_plan off mode))"

datatype billing_word = BILLING_LIMIT | BILLING_USAGE | BILLING_MIXED | BILLING_FIXED

definition describe_plan_billing :: "offering_data \<Rightarrow> plan option \<Rightarrow> billing_word option" where
  "describe_plan_billing off p =
     (case p of
        None \<Rightarrow> None
      | Some p \<Rightarrow>
          let r = resolve_plan off p;
              has_limit = limit_components r \<noteq> [];
              has_usage = is_usage_based r
          in Some (if has_limit \<and> has_usage then BILLING_MIXED
                   else if has_usage then BILLING_USAGE
                   else if has_limit then BILLING_LIMIT
                   else BILLING_FIXED))"

datatype switch_consequence = NOTHING_CHANGES | USAGE_FROM_NOW | FEE_FROM_NOW

definition describe_switch_consequence ::
    "billing_word option \<Rightarrow> billing_word option \<Rightarrow> switch_consequence" where
  "describe_switch_consequence old new =
     (if old = new then NOTHING_CHANGES
      else if new = Some BILLING_USAGE then USAGE_FROM_NOW
      else if old = Some BILLING_USAGE then FEE_FROM_NOW
      else NOTHING_CHANGES)"

subsection \<open>The queryset approximations\<close>

definition usage_offering_q :: "offering_data \<Rightarrow> bool" where
  "usage_offering_q off \<longleftrightarrow> list_ex (\<lambda>c. oc_billing_type c = USAGE) (off_components off) \<or>
     list_ex (\<lambda>p. plan_billing_mode p = MODE_USAGE) (off_plans off)"

definition usage_resource_q :: "offering_data \<Rightarrow> plan option \<Rightarrow> bool" where
  "usage_resource_q off p \<longleftrightarrow>
     (let mode = map_option plan_billing_mode p
      in mode = Some MODE_USAGE \<or>
         (list_ex (\<lambda>c. oc_billing_type c = USAGE) (off_components off) \<and>
          \<not> (mode \<noteq> None \<and> the mode \<in> set OVERRIDING_BILLING_MODES)))"

definition limit_offering_q :: "offering_data \<Rightarrow> bool" where
  "limit_offering_q off \<longleftrightarrow> list_ex (\<lambda>c. oc_billing_type c = LIMIT) (off_components off) \<or>
     list_ex (\<lambda>p. plan_billing_mode p = MODE_LIMIT) (off_plans off)"

definition limit_resource_q :: "offering_data \<Rightarrow> plan option \<Rightarrow> bool" where
  "limit_resource_q off p \<longleftrightarrow>
     (let mode = map_option plan_billing_mode p
      in mode = Some MODE_LIMIT \<or>
         (list_ex (\<lambda>c. oc_billing_type c = LIMIT) (off_components off) \<and> mode \<noteq> Some MODE_USAGE))"

subsection \<open>Prices\<close>

definition has_plan_mode :: "offering_data \<Rightarrow> billing_mode \<Rightarrow> bool" where
  "has_plan_mode off mode =
     (if \<not> offering_has_builtin_components off then False
      else list_ex (\<lambda>p. plan_billing_mode p = mode) (off_plans off))"

definition dict_setdefault :: "'k \<Rightarrow> 'v \<Rightarrow> ('k, 'v) dict \<Rightarrow> ('k, 'v) dict" where
  "dict_setdefault k v d = (if map_of d k = None then d @ [(k, v)] else d)"

definition get_limit_components :: "offering_data \<Rightarrow> plan option \<Rightarrow> (string, offering_component) dict" where
  "get_limit_components off p =
     (case p of
        Some p \<Rightarrow> limit_components (resolve_plan off p)
      | None \<Rightarrow>
          let result = limit_components (resolve_offering off)
          in if has_plan_mode off MODE_LIMIT
             then fold (\<lambda>c. dict_setdefault (oc_type c) c) (filter billed_per_plan (off_components off)) result
             else result)"

text \<open>
  \<open>calculate_duration_months\<close> rounds a partial month up; \<open>relativedelta end start\<close> is the triple
  (years, months, days).  Dates are day numbers.
\<close>

type_synonym relative_delta = "int \<Rightarrow> int \<Rightarrow> int \<times> int \<times> int"

definition calculate_duration_months :: "relative_delta \<Rightarrow> int \<Rightarrow> int \<Rightarrow> int" where
  "calculate_duration_months relativedelta start_date end_date =
     (let (years, ms, days) = relativedelta end_date start_date;
          months = years * 12 + ms;
          months = (if days > 0 then months + 1 else months)
      in max 1 months)"

record estimate_window =
  ew_start :: "int option"
  ew_end :: "int option"
  ew_months :: "int option"

text \<open>\<open>None\<close> and \<open>0\<close> are both false in \<open>if not months\<close>.\<close>

definition prepaid_months :: "relative_delta \<Rightarrow> estimate_window \<Rightarrow> int option" where
  "prepaid_months relativedelta w =
     (let months = (case ew_months w of Some m \<Rightarrow> if m = 0 then None else Some m | None \<Rightarrow> None)
      in case months of
           Some m \<Rightarrow> Some m
         | None \<Rightarrow> (case (ew_start w, ew_end w) of
               (Some s, Some e) \<Rightarrow>
                 let m = calculate_duration_months relativedelta s e in if m = 0 then None else Some m
             | _ \<Rightarrow> None))"

type_synonym limits = "(string, rat) dict"

datatype pricing_error = AttributeError | DivisionByZero

definition component_prices :: "plan \<Rightarrow> (pricing_error, (string, rat) dict) result" where
  "component_prices p =
     rfold (\<lambda>d pc. case pc_component pc of
              None \<Rightarrow> Inl AttributeError
            | Some c \<Rightarrow> Inr (dict_set (oc_type c) (pc_price pc) d)) [] (plan_components p)"

definition component_charge ::
    "relative_delta \<Rightarrow> estimate_window \<Rightarrow> (string, nat) dict \<Rightarrow> (string, rat) dict \<Rightarrow> resolved \<Rightarrow> limits
     \<Rightarrow> string \<times> offering_component \<Rightarrow> (pricing_error, rat) result" where
  "component_charge relativedelta w factors prices r limits kc =
     (case kc of (key, c) \<Rightarrow>
        let factor = get_default factors key 1
        in if factor = 0 then Inl DivisionByZero
           else let per_unit = get_default prices key 0 * get_default limits key 0 / of_nat factor;
                    prepaid = (case map_of r key of Some e \<Rightarrow> ef_is_prepaid e | None \<Rightarrow> oc_is_prepaid c)
                in Inr (if prepaid
                        then (case prepaid_months relativedelta w of
                                Some m \<Rightarrow> per_unit * of_int m | None \<Rightarrow> per_unit)
                        else per_unit))"

definition get_estimate ::
    "relative_delta \<Rightarrow> (string, nat) dict \<Rightarrow> offering_data \<Rightarrow> plan \<Rightarrow> limits \<Rightarrow> estimate_window
     \<Rightarrow> (pricing_error, rat) result" where
  "get_estimate relativedelta factors off p limits w =
     (if limits = [] then Inr (unit_price p)
      else rbind (component_prices p) (\<lambda>prices.
             rfold (\<lambda>cost kc. rbind (component_charge relativedelta w factors prices (resolve_plan off p) limits kc)
                                (\<lambda>x. Inr (cost + x)))
               (unit_price p) (get_limit_components off (Some p))))"

definition sum_prices :: "plan_component list \<Rightarrow> rat" where
  "sum_prices items = sum_list (map (\<lambda>pc. pc_price pc * of_nat (pc_amount pc)) items)"

definition sum_components :: "plan \<Rightarrow> billing_type \<Rightarrow> rat" where
  "sum_components p bt =
     sum_prices (filter (\<lambda>pc. case pc_component pc of None \<Rightarrow> False | Some c \<Rightarrow> oc_billing_type c = bt)
       (plan_components p))"

definition fixed_price :: "plan \<Rightarrow> rat" where
  "fixed_price p = sum_components p FIXED"

definition init_price :: "plan \<Rightarrow> rat" where
  "init_price p = sum_components p ONE_TIME"

definition switch_price :: "plan \<Rightarrow> rat" where
  "switch_price p = sum_components p ON_PLAN_SWITCH"

definition is_plain_one_time :: "resolved \<Rightarrow> offering_component \<Rightarrow> bool" where
  "is_plain_one_time r c =
     (case map_of r (oc_type c) of
        None \<Rightarrow> oc_billing_type c = ONE_TIME \<and> \<not> oc_is_prepaid c
      | Some e \<Rightarrow> ef_billing_type e = ONE_TIME \<and> \<not> ef_is_prepaid e)"

definition non_prepaid_init_price :: "offering_data \<Rightarrow> plan \<Rightarrow> rat" where
  "non_prepaid_init_price off p =
     sum_prices (filter (\<lambda>pc. case pc_component pc of
         None \<Rightarrow> False | Some c \<Rightarrow> is_plain_one_time (resolve_plan off p) c) (plan_components p))"

subsection \<open>Resolution as a function of the component\<close>

text \<open>The uniqueness constraint on (\<open>type\<close>, \<open>offering\<close>).\<close>

definition types_unique :: "offering_data \<Rightarrow> bool" where
  "types_unique off \<longleftrightarrow> distinct (map oc_type (off_components off))"

lemma dict_set_new: "k \<notin> fst ` set d \<Longrightarrow> dict_set k v d = d @ [(k, v)]"
  by (induction k v d rule: dict_set.induct) auto

lemma fold_dict_set_distinct:
  "distinct (map f xs) \<Longrightarrow> set (map f xs) \<inter> fst ` set d = {} \<Longrightarrow>
   fold (\<lambda>x. dict_set (f x) (g x)) xs d = d @ map (\<lambda>x. (f x, g x)) xs"
proof (induction xs arbitrary: d)
  case (Cons x xs)
  have "dict_set (f x) (g x) d = d @ [(f x, g x)]" using Cons.prems(2) by (intro dict_set_new) auto
  moreover have "fold (\<lambda>x. dict_set (f x) (g x)) xs (d @ [(f x, g x)]) =
      (d @ [(f x, g x)]) @ map (\<lambda>x. (f x, g x)) xs"
    using Cons.prems by (intro Cons.IH) auto
  ultimately show ?case by simp
qed simp

lemma ef_component_resolve [simp]: "ef_component (resolve_component t mode c) = c"
  by (simp add: resolve_component_def own_values_def split: option.split prod.split)

lemma resolved_plan_eq:
  assumes "types_unique off"
  shows "resolved_plan off mode =
    map (\<lambda>c. (oc_type c, resolve_component (off_type off) mode c)) (off_components off)"
  unfolding resolved_plan_def
  using fold_dict_set_distinct [where f = oc_type and g = "resolve_component (off_type off) mode"
      and xs = "off_components off" and d = "[]"] assms
  by (simp add: types_unique_def)

lemma billing_type_resolved:
  "ef_billing_type (resolve_component t mode c) =
     (case mode of
        Some MODE_LIMIT \<Rightarrow> if billed_per_plan c then LIMIT else oc_billing_type c
      | Some MODE_USAGE \<Rightarrow> if billed_per_plan c then USAGE else oc_billing_type c
      | _ \<Rightarrow> oc_billing_type c)"
  by (auto simp: resolve_component_def own_values_def split: option.split billing_mode.split)

lemma prepaid_resolved:
  "ef_is_prepaid (resolve_component t mode c) =
     (oc_is_prepaid c \<and> \<not> (billed_per_plan c \<and> mode \<noteq> None \<and> mode \<noteq> Some MODE_INHERIT))"
  by (auto simp: resolve_component_def own_values_def split: option.split billing_mode.split)

lemma usage_based_iff:
  "types_unique off \<Longrightarrow> is_usage_based (resolved_plan off mode) \<longleftrightarrow>
     (\<exists>c\<in>set (off_components off). ef_billing_type (resolve_component (off_type off) mode c) = USAGE)"
  by (auto simp: is_usage_based_def usage_types_def resolved_plan_eq filter_empty_conv)

lemma limit_types_iff:
  "types_unique off \<Longrightarrow> limit_types (resolved_plan off mode) \<noteq> [] \<longleftrightarrow>
     (\<exists>c\<in>set (off_components off). ef_billing_type (resolve_component (off_type off) mode c) = LIMIT)"
  by (auto simp: limit_types_def resolved_plan_eq filter_empty_conv)

lemma limit_components_eq:
  assumes "types_unique off"
  shows "limit_components (resolved_plan off mode) =
    map (\<lambda>c. (oc_type c, c))
      (filter (\<lambda>c. is_limit_like (resolve_component (off_type off) mode c)) (off_components off))"
proof -
  let ?r = "resolve_component (off_type off) mode"
  let ?xs = "filter (\<lambda>c. is_limit_like (?r c)) (off_components off)"
  have d: "distinct (map oc_type ?xs)"
    using assms unfolding types_unique_def by (induction "off_components off") (auto simp: distinct_map_filter)
  have "filter is_limit_like (map snd (resolved_plan off mode)) = map ?r ?xs"
    by (simp add: resolved_plan_eq [OF assms] filter_map o_def)
  then have "limit_components (resolved_plan off mode) = fold (\<lambda>c. dict_set (oc_type c) c) ?xs []"
    by (simp add: limit_components_def fold_map o_def)
  also have "\<dots> = map (\<lambda>c. (oc_type c, c)) ?xs"
    using fold_dict_set_distinct [where f = oc_type and g = "\<lambda>c. c" and xs = ?xs and d = "[]"] d by simp
  finally show ?thesis .
qed

end
