(* ===== verification/Plan_Billing_Properties.thy ===== *)
theory Plan_Billing_Properties
  imports Plan_Billing
begin

text \<open>
  What the resolution of a plan and its prices promise: the queryset filters against the resolver,
  the estimate against its sum, and each prepaid component charged in one place only.
\<close>

definition plan_mode :: "plan option \<Rightarrow> billing_mode option" where
  "plan_mode p = map_option plan_billing_mode p"

definition demo_component :: "string \<Rightarrow> billing_type \<Rightarrow> bool \<Rightarrow> bool \<Rightarrow> offering_component" where
  "demo_component t bt builtin prepaid = \<lparr>oc_type = t, oc_billing_type = bt, billed_per_plan = builtin,
     oc_is_prepaid = prepaid, oc_limit_period = MONTH, oc_measured_unit = ''unit''\<rparr>"

definition demo_offering :: offering_data where
  "demo_offering = \<lparr>off_pk = 5, off_type = ''Marketplace.Slurm'',
     off_components = [demo_component ''cpu'' LIMIT True False, demo_component ''licence'' ONE_TIME False True,
       demo_component ''support'' USAGE False False],
     off_plans = []\<rparr>"

definition demo_plan :: "billing_mode \<Rightarrow> plan" where
  "demo_plan m = \<lparr>plan_pk = 3, plan_name = ''standard'', plan_billing_mode = m, unit_price = 10,
     plan_components = [\<lparr>pc_component = Some (demo_component ''cpu'' LIMIT True False), pc_amount = 0, pc_price = 2\<rparr>,
       \<lparr>pc_component = Some (demo_component ''licence'' ONE_TIME False True), pc_amount = 0, pc_price = 7\<rparr>]\<rparr>"

lemma demo_types [simp]: "types_unique demo_offering"
  by (simp add: types_unique_def demo_offering_def demo_component_def)

text \<open>
  \<open>usage_resource_q\<close> and \<open>limit_resource_q\<close> against the resolver.  The usage filter is wrong
  about a resource in exactly two cases: it misses a provider's own usage component under a limit
  plan, and it selects a usage plan of an offering nothing of which is billed by usage; the
  limit filter mirrors it.  In particular both filters are exact for every resource without a plan
  or with an inheriting plan.
\<close>

theorem resource_filters_exact:
  assumes "types_unique off"
  shows "((usage_resource_q off p \<longleftrightarrow> is_usage_based (resolved_plan off (plan_mode p))) \<longleftrightarrow>
      \<not> (plan_mode p = Some MODE_LIMIT \<and>
          (\<exists>c\<in>set (off_components off). \<not> billed_per_plan c \<and> oc_billing_type c = USAGE)) \<and>
      \<not> (plan_mode p = Some MODE_USAGE \<and>
          \<not> (\<exists>c\<in>set (off_components off). billed_per_plan c \<or> oc_billing_type c = USAGE))) \<and>
    ((limit_resource_q off p \<longleftrightarrow> limit_types (resolved_plan off (plan_mode p)) \<noteq> []) \<longleftrightarrow>
      \<not> (plan_mode p = Some MODE_USAGE \<and>
          (\<exists>c\<in>set (off_components off). \<not> billed_per_plan c \<and> oc_billing_type c = LIMIT)) \<and>
      \<not> (plan_mode p = Some MODE_LIMIT \<and>
          \<not> (\<exists>c\<in>set (off_components off). billed_per_plan c \<or> oc_billing_type c = LIMIT)))"
proof (intro conjI)
  let ?m = "plan_mode p"
  have u: "usage_resource_q off p \<longleftrightarrow> ?m = Some MODE_USAGE \<or>
      ((\<exists>c\<in>set (off_components off). oc_billing_type c = USAGE) \<and>
       ?m \<noteq> Some MODE_LIMIT \<and> ?m \<noteq> Some MODE_USAGE)"
    by (auto simp: usage_resource_q_def plan_mode_def OVERRIDING_BILLING_MODES_def list_ex_iff Let_def)
  have l: "limit_resource_q off p \<longleftrightarrow> ?m = Some MODE_LIMIT \<or>
      ((\<exists>c\<in>set (off_components off). oc_billing_type c = LIMIT) \<and> ?m \<noteq> Some MODE_USAGE)"
    by (auto simp: limit_resource_q_def plan_mode_def list_ex_iff Let_def)
  have modes: "?m = None \<or> ?m = Some MODE_INHERIT \<or> ?m = Some MODE_LIMIT \<or> ?m = Some MODE_USAGE"
    by (metis billing_mode.exhaust option.exhaust)
  then show "(usage_resource_q off p \<longleftrightarrow> is_usage_based (resolved_plan off ?m)) \<longleftrightarrow>
      \<not> (?m = Some MODE_LIMIT \<and>
          (\<exists>c\<in>set (off_components off). \<not> billed_per_plan c \<and> oc_billing_type c = USAGE)) \<and>
      \<not> (?m = Some MODE_USAGE \<and>
          \<not> (\<exists>c\<in>set (off_components off). billed_per_plan c \<or> oc_billing_type c = USAGE))"
    unfolding u usage_based_iff [OF assms] billing_type_resolved by (elim disjE) auto
  from modes show "(limit_resource_q off p \<longleftrightarrow> limit_types (resolved_plan off ?m) \<noteq> []) \<longleftrightarrow>
      \<not> (?m = Some MODE_USAGE \<and>
          (\<exists>c\<in>set (off_components off). \<not> billed_per_plan c \<and> oc_billing_type c = LIMIT)) \<and>
      \<not> (?m = Some MODE_LIMIT \<and>
          \<not> (\<exists>c\<in>set (off_components off). billed_per_plan c \<or> oc_billing_type c = LIMIT))"
    unfolding l limit_types_iff [OF assms] billing_type_resolved by (elim disjE) auto
qed

lemma resource_filters_exact_witness:
  "\<not> (usage_resource_q demo_offering (Some (demo_plan MODE_LIMIT)) \<longleftrightarrow>
       is_usage_based (resolved_plan demo_offering (plan_mode (Some (demo_plan MODE_LIMIT)))))"
  by (subst conjunct1 [OF resource_filters_exact [OF demo_types]])
    (simp add: plan_mode_def demo_plan_def demo_offering_def demo_component_def)

subsection \<open>Estimates\<close>

text \<open>What one component adds to an estimate, as a formula.\<close>

definition months_factor :: "relative_delta \<Rightarrow> estimate_window \<Rightarrow> bool \<Rightarrow> rat" where
  "months_factor rd w prepaid =
     (if prepaid then (case prepaid_months rd w of None \<Rightarrow> 1 | Some m \<Rightarrow> of_int m) else 1)"

definition charge_formula ::
    "relative_delta \<Rightarrow> estimate_window \<Rightarrow> (string, nat) dict \<Rightarrow> (string, rat) dict \<Rightarrow> limits
     \<Rightarrow> effective_component \<Rightarrow> rat" where
  "charge_formula rd w factors prices limits e =
     (let t = oc_type (ef_component e)
      in get_default prices t 0 * get_default limits t 0 / of_nat (get_default factors t 1)
         * months_factor rd w (ef_is_prepaid e))"

definition factors_ok :: "(string, nat) dict \<Rightarrow> bool" where
  "factors_ok factors \<longleftrightarrow> 0 \<notin> snd ` set factors"

lemma factors_positive: "factors_ok factors \<Longrightarrow> get_default factors k 1 \<noteq> 0"
proof (cases "map_of factors k")
  case (Some n)
  assume "factors_ok factors"
  moreover have "n \<in> snd ` set factors" using map_of_SomeD [OF Some] by force
  ultimately have "n \<noteq> 0" unfolding factors_ok_def by metis
  then show ?thesis using Some by (simp add: get_default_def)
qed (simp add: get_default_def)

lemma component_prices_returns:
  "(\<And>pc. pc \<in> set (plan_components p) \<Longrightarrow> pc_component pc \<noteq> None) \<Longrightarrow>
   \<exists>prices. component_prices p = Inr prices"
proof -
  have "(\<forall>pc\<in>set pcs. pc_component pc \<noteq> None) \<Longrightarrow>
      \<exists>prices. rfold (\<lambda>d pc. case pc_component pc of None \<Rightarrow> Inl AttributeError
        | Some c \<Rightarrow> Inr (dict_set (oc_type c) (pc_price pc) d)) d pcs = Inr prices" for pcs d
    by (induction pcs arbitrary: d) auto
  then show "(\<And>pc. pc \<in> set (plan_components p) \<Longrightarrow> pc_component pc \<noteq> None) \<Longrightarrow> ?thesis"
    unfolding component_prices_def by blast
qed

lemma component_charge_formula:
  assumes "factors_ok factors" and "map_of r (oc_type c) = Some e" and "ef_component e = c"
  shows "component_charge rd w factors prices r limits (oc_type c, c) =
    Inr (charge_formula rd w factors prices limits e)"
  using factors_positive [OF assms(1), of "oc_type c"] assms(2,3)
  by (simp add: component_charge_def charge_formula_def months_factor_def Let_def split: option.split)

lemma rfold_sum:
  "(\<And>x. x \<in> set xs \<Longrightarrow> f x = Inr (g x)) \<Longrightarrow>
   rfold (\<lambda>cost x. rbind (f x) (\<lambda>y. Inr (cost + y))) (c :: rat) xs = Inr (c + sum_list (map g xs))"
  by (induction xs arbitrary: c) (simp_all add: add.assoc)

lemma map_of_resolved:
  assumes "types_unique off" and "c \<in> set (off_components off)"
  shows "map_of (resolved_plan off mode) (oc_type c) = Some (resolve_component (off_type off) mode c)"
  using assms unfolding resolved_plan_eq [OF assms(1)] types_unique_def
  by (induction "off_components off" arbitrary: off) (auto intro!: map_of_is_SomeI simp: o_def)

text \<open>
  The estimate is the plan's unit price plus, for every component that is bought by limit under
  this plan and for no other, price times limit over factor, times the whole months of the
  subscription where the component is prepaid.  (Components a plan bills by usage add nothing
  whatever limit is asked for, and the order of the components does not matter.)
\<close>

theorem estimate_is_sum:
  assumes "types_unique off" and "factors_ok factors" and "limits \<noteq> []"
    and "component_prices p = Inr prices"
  shows "get_estimate rd factors off p limits w =
    Inr (unit_price p + sum_list (map (charge_formula rd w factors prices limits)
      (filter is_limit_like
        (map (resolve_component (off_type off) (Some (plan_billing_mode p))) (off_components off)))))"
proof -
  let ?r = "resolve_component (off_type off) (Some (plan_billing_mode p))"
  let ?xs = "filter (is_limit_like \<circ> ?r) (off_components off)"
  have items: "get_limit_components off (Some p) = map (\<lambda>c. (oc_type c, c)) ?xs"
    by (simp add: get_limit_components_def resolve_plan_def limit_components_eq [OF assms(1)] o_def)
  have one: "component_charge rd w factors prices (resolve_plan off p) limits kc =
      Inr ((charge_formula rd w factors prices limits \<circ> ?r \<circ> snd) kc)"
    if "kc \<in> set (map (\<lambda>c. (oc_type c, c)) ?xs)" for kc
    using that component_charge_formula [OF assms(2) map_of_resolved [OF assms(1)] ef_component_resolve]
    by (auto simp: resolve_plan_def)
  show ?thesis
    using assms(3,4) rfold_sum [OF one, of "map (\<lambda>c. (oc_type c, c)) ?xs" "\<lambda>x. x" "unit_price p"]
    by (simp add: get_estimate_def items filter_map o_def)
qed

lemma estimate_is_sum_witness:
  "get_estimate (\<lambda>_ _. (0, 11, 5)) [] demo_offering (demo_plan MODE_INHERIT) [(''cpu'', 4), (''licence'', 1)]
     \<lparr>ew_start = Some 0, ew_end = Some 340, ew_months = None\<rparr> = Inr (10 + 2 * 4 + 7 * 12)"
  by (subst estimate_is_sum [where prices = "[(''cpu'', 2), (''licence'', 7)]"])
    (simp_all add: types_unique_def factors_ok_def component_prices_def demo_plan_def demo_offering_def demo_component_def
      resolve_component_def own_values_def is_limit_like_def charge_formula_def months_factor_def
      prepaid_months_def calculate_duration_months_def get_default_def)

text \<open>
  A one-time component is charged exactly once: either it is in the activation fee
  (\<open>non_prepaid_init_price\<close>) or, prepaid, in the estimate with its duration multiplier, never in
  both and never in neither; and nothing that is not one-time enters the activation fee.
\<close>

theorem one_time_charged_once:
  fixes p :: plan
  assumes "types_unique off" and "c \<in> set (off_components off)"
  defines "e \<equiv> resolve_component (off_type off) (Some (plan_billing_mode p)) c"
    and "in_fee \<equiv> is_plain_one_time (resolve_plan off p) c"
    and "in_estimate \<equiv> (oc_type c, c) \<in> set (get_limit_components off (Some p))"
  shows "(ef_billing_type e = ONE_TIME \<longrightarrow> in_fee \<noteq> in_estimate) \<and> \<not> (in_fee \<and> in_estimate) \<and>
    (in_fee \<longrightarrow> ef_billing_type e = ONE_TIME)"
proof -
  have fee: "in_fee \<longleftrightarrow> ef_billing_type e = ONE_TIME \<and> \<not> ef_is_prepaid e"
    by (simp add: in_fee_def is_plain_one_time_def resolve_plan_def map_of_resolved [OF assms(1,2)] e_def)
  have est: "in_estimate \<longleftrightarrow> is_limit_like e"
    using assms(2)
    by (auto simp: in_estimate_def get_limit_components_def resolve_plan_def limit_components_eq [OF assms(1)] e_def)
  show ?thesis unfolding fee est is_limit_like_def by auto
qed

lemma one_time_charged_once_witness:
  "\<not> is_plain_one_time (resolve_plan demo_offering (demo_plan MODE_INHERIT))
      (demo_component ''licence'' ONE_TIME False True)"
  using one_time_charged_once [OF demo_types, of "demo_component ''licence'' ONE_TIME False True"
      "demo_plan MODE_INHERIT"]
  by (simp add: demo_offering_def demo_component_def demo_plan_def resolve_component_def own_values_def
      get_limit_components_def resolve_plan_def resolved_plan_def limit_components_def is_limit_like_def
      is_plain_one_time_def)

text \<open>
  A billing mode the check lets through never stops an upfront charge: under the new mode every
  component is prepaid exactly when it was stored as prepaid, a provider's own component keeps all
  its values, and a mode other than inherit governs at least one component.
\<close>

theorem accepted_mode_keeps_prepaid:
  assumes "check_plan_billing_mode off (Some m) old used = None" and "c \<in> set (off_components off)"
  shows "ef_is_prepaid (resolve_component (off_type off) (Some m) c) = oc_is_prepaid c \<and>
    (\<not> billed_per_plan c \<longrightarrow> resolve_component (off_type off) (Some m) c = own_values c) \<and>
    (m \<noteq> MODE_INHERIT \<longrightarrow> (\<exists>b\<in>set (off_components off). billed_per_plan b \<and>
       ef_billing_type (resolve_component (off_type off) (Some m) b) = (if m = MODE_LIMIT then LIMIT else USAGE)))"
proof (cases "m = MODE_INHERIT")
  case True
  then show ?thesis by (simp add: resolve_component_def own_values_def)
next
  case False
  have b: "list_ex billed_per_plan (off_components off)"
    and p: "\<not> list_ex (\<lambda>c. billed_per_plan c \<and> oc_is_prepaid c) (off_components off)"
    using assms(1) False
    by (simp_all add: check_plan_billing_mode_def offering_has_builtin_components_def split: if_splits)
  then obtain d where d: "d \<in> set (off_components off)" "billed_per_plan d" by (auto simp: list_ex_iff)
  have "ef_billing_type (resolve_component (off_type off) (Some m) d) = (if m = MODE_LIMIT then LIMIT else USAGE)"
    using d(2) False by (cases m) (simp_all add: billing_type_resolved)
  moreover have "\<not> (billed_per_plan c \<and> oc_is_prepaid c)" using p assms(2) by (auto simp: list_ex_iff)
  moreover have "\<not> billed_per_plan c \<Longrightarrow> resolve_component (off_type off) (Some m) c = own_values c"
    by (simp add: resolve_component_def)
  ultimately show ?thesis using d by (auto simp: prepaid_resolved)
qed

lemma accepted_mode_keeps_prepaid_witness:
  "ef_is_prepaid (resolve_component ''Marketplace.Slurm'' (Some MODE_USAGE)
     (demo_component ''licence'' ONE_TIME False True))"
  using accepted_mode_keeps_prepaid [of demo_offering MODE_USAGE None False
      "demo_component ''licence'' ONE_TIME False True"]
  by (simp add: check_plan_billing_mode_def offering_has_builtin_components_def demo_offering_def demo_component_def
      own_values_def)

end
