(* ===== verification/Order_Model.thy ===== *)
theory Order_Model
  imports Option_Visibility Plan_Billing
begin

text \<open>
  The rows the order workflow reads and writes, \<^verbatim>\<open>src/waldur_mastermind/marketplace/models.py\<close>
  (\<open>Order\<close>, \<open>Resource\<close>, \<open>ProjectOrderAutoApproval\<close>) and
  \<^verbatim>\<open>src/waldur_core/permissions\<close> (\<open>UserRole\<close>, \<open>has_permission\<close>), their guarded state transitions and
  \<open>save\<close> with the \<open>post_save\<close> handlers of \<^verbatim>\<open>marketplace/handlers.py\<close> that decide states.
  A Python object in hand is a record that may be older than its row; \<open>save\<close> copies the listed
  fields of the object into the row and runs the handlers with the tracker's previous state.
  Tasks queued with \<open>delay\<close> or \<open>on_commit\<close> and events are lists in the state, so a transaction that
  is rolled back also drops what it queued.
\<close>

type_synonym date = int

datatype order_type = CREATE | UPDATE | TERMINATE | RESTORE

datatype order_state = PENDING_CONSUMER | PENDING_PROVIDER | PENDING_PROJECT | PENDING_START_DATE
  | EXECUTING | DONE | ERRED | CANCELED | REJECTED

datatype resource_state = RES_CREATING | RES_OK | RES_ERRED | RES_UPDATING | RES_TERMINATING | RES_TERMINATED

datatype core_state = CREATION_SCHEDULED | CORE_CREATING | UPDATE_SCHEDULED | CORE_UPDATING
  | DELETION_SCHEDULED | DELETING | CORE_OK | CORE_ERRED

definition TERMINAL_STATES :: "order_state list" where
  "TERMINAL_STATES = [DONE, ERRED, CANCELED, REJECTED]"

record order =
  order_pk :: nat
  order_type :: order_type
  order_state :: order_state
  order_resource :: nat
  order_project :: nat
  order_offering :: nat
  order_plan :: "nat option"
  order_limits :: limits
  order_attributes :: "(string, json) dict"
  order_start_date :: "date option"
  completed_at :: "timestamp option"
  created_by :: "nat option"
  consumer_reviewed_by :: "nat option"
  consumer_reviewed_at :: "timestamp option"
  provider_reviewed_by :: "nat option"
  provider_reviewed_at :: "timestamp option"
  order_error_message :: string
  order_error_traceback :: string
  error_updated_at :: "timestamp option"
  consumer_rejection_comment :: string
  provider_rejection_comment :: string
  termination_comment :: "string option"
  placed_automatically :: bool
  has_attachment :: bool
  auto_approved_by_rule :: "nat option"
  auto_approved_cost_limit_snapshot :: "rat option"
  order_modified :: timestamp

text \<open>The backend object behind a resource, as far as the workflow reads it.\<close>

record backend_scope =
  scope_erred :: bool
  scope_error_message :: string
  scope_error_traceback :: string

record resource =
  res_pk :: nat
  res_state :: resource_state
  res_offering :: nat
  res_project :: nat
  res_plan :: "nat option"
  res_limits :: limits
  res_attributes :: "(string, json) dict"
  res_options :: "(string, json) dict"
  res_cost :: "rat option"
  res_end_date :: "date option"
  end_date_requested_by :: "nat option"
  end_date_updated_at :: "timestamp option"
  res_backend_id :: string
  res_backend_metadata :: "(string, json) dict"
  res_error_message :: string
  res_error_traceback :: string
  res_scope :: "backend_scope option"
  downscaled :: bool
  paused :: bool

record market_offering = offering_data +
  off_customer :: "nat option"
  off_shared :: bool
  off_billable :: bool
  off_resource_options :: option_defs
  require_purchase_order_upload :: bool
  disable_autoapprove :: bool
  auto_approve_in_service_provider_projects :: bool
  auto_approve_for_roles :: "string list"
  auto_approve_remote_orders :: bool
  auto_approve_marketplace_script :: bool

record project =
  proj_pk :: nat
  proj_customer :: nat
  proj_start_date :: "date option"

record user =
  user_pk :: nat
  is_staff :: bool
  is_active :: bool

datatype scope = PROJECT nat | CUSTOMER nat | OFFERING nat
datatype permission = APPROVE_ORDER | APPROVE_PRIVATE_ORDER

record user_role =
  ur_user :: nat
  ur_scope :: scope
  ur_role :: string
  ur_template :: "string option"
  ur_active :: bool

record auto_rule =
  rule_pk :: nat
  rule_project :: nat
  rule_enabled :: bool
  monthly_cost_limit :: rat
  rule_created_by :: "nat option"

datatype order_event = MARKETPLACE_ORDER_APPROVED | MARKETPLACE_ORDER_REJECTED | MARKETPLACE_ORDER_COMPLETED
  | MARKETPLACE_ORDER_TERMINATED | MARKETPLACE_ORDER_FAILED

datatype resource_event = CREATE_SUCCEEDED | CREATE_FAILED | CREATE_CANCELED | UPDATE_REQUESTED
  | UPDATE_FAILED | UPDATE_CANCELED | LIMITS_UPDATED | PLAN_SWITCHED | TERMINATE_REQUESTED
  | TERMINATE_SUCCEEDED | TERMINATE_FAILED | TERMINATE_CANCELED | ERRED_ON_BACKEND

text \<open>Event log entries and the signals \<open>resource_creation_succeeded\<close> and \<open>resource_deletion_succeeded\<close>.\<close>

datatype notice = OrderEvent order_event nat | ResourceEvent resource_event nat
  | CreationSignal nat | DeletionSignal nat

datatype task = ProcessOrder nat "nat option" | NotifyProvider nat | NotifyConsumer nat
  | NotifyRejected nat | NotifyPlanSwitch nat | NotifyLimits nat | EvaluatePolicy nat nat
  | TryAutoApproval nat

record market =
  orders :: "order list"
  resources :: "resource list"
  api_keys :: "nat list"
  offerings :: "market_offering list"
  projects :: "project list"
  users :: "user list"
  user_roles :: "user_role list"
  role_permissions :: "(string \<times> permission) list"
  auto_rules :: "auto_rule list"
  slurm_policies :: "(nat \<times> nat) list"
  notices :: "notice list"
  tasks :: "task list"
  skip_side_effects :: bool
  ENABLE_ORDER_START_DATE :: bool
  system_robot :: nat
  today :: date
  now :: timestamp

datatype order_error = TransitionNotAllowed | ValidationError string | IncorrectState | MethodNotAllowed
  | DoesNotExist | NoAttribute | TypeError | KeyError | PricingError pricing_error

type_synonym 'a action = "(order_error, market, 'a) eff"

definition find_order :: "market \<Rightarrow> nat \<Rightarrow> order option" where
  "find_order s pk = first_row (\<lambda>ord. order_pk ord = pk) (orders s)"

definition find_resource :: "market \<Rightarrow> nat \<Rightarrow> resource option" where
  "find_resource s pk = first_row (\<lambda>r. res_pk r = pk) (resources s)"

definition find_offering :: "market \<Rightarrow> nat \<Rightarrow> market_offering option" where
  "find_offering s pk = first_row (\<lambda>f. off_pk f = pk) (offerings s)"

definition find_project :: "market \<Rightarrow> nat \<Rightarrow> project option" where
  "find_project s pk = first_row (\<lambda>p. proj_pk p = pk) (projects s)"

definition find_user :: "market \<Rightarrow> nat \<Rightarrow> user option" where
  "find_user s pk = first_row (\<lambda>u. user_pk u = pk) (users s)"

definition found :: "'a option \<Rightarrow> (order_error, 'a) result" where
  "found x = (case x of None \<Rightarrow> Inl DoesNotExist | Some y \<Rightarrow> Inr y)"

definition get_order :: "nat \<Rightarrow> order action" where
  "get_order pk = (\<lambda>s. (found (find_order s pk), s))"

definition get_resource :: "nat \<Rightarrow> resource action" where
  "get_resource pk = (\<lambda>s. (found (find_resource s pk), s))"

definition get_offering :: "nat \<Rightarrow> market_offering action" where
  "get_offering pk = (\<lambda>s. (found (find_offering s pk), s))"

definition get_project :: "nat \<Rightarrow> project action" where
  "get_project pk = (\<lambda>s. (found (find_project s pk), s))"

definition emit :: "notice \<Rightarrow> unit action" where
  "emit n = ewrite (\<lambda>s. s\<lparr>notices := notices s @ [n]\<rparr>)"

definition queue :: "task \<Rightarrow> unit action" where
  "queue t = ewrite (\<lambda>s. s\<lparr>tasks := tasks s @ [t]\<rparr>)"

subsection \<open>Transitions\<close>

definition resource_set_state_ok :: "resource \<Rightarrow> (order_error, resource) result" where
  "resource_set_state_ok r =
     (if res_state r \<in> {RES_ERRED, RES_CREATING, RES_UPDATING, RES_TERMINATING}
      then Inr (r\<lparr>res_state := RES_OK\<rparr>) else Inl TransitionNotAllowed)"

definition resource_set_state_creating :: "resource \<Rightarrow> (order_error, resource) result" where
  "resource_set_state_creating r =
     (if res_state r \<in> {RES_TERMINATED, RES_ERRED}
      then Inr (r\<lparr>res_state := RES_CREATING\<rparr>) else Inl TransitionNotAllowed)"

definition resource_set_state_erred :: "resource \<Rightarrow> resource" where
  "resource_set_state_erred r = r\<lparr>res_state := RES_ERRED\<rparr>"

definition resource_set_state_updating :: "resource \<Rightarrow> resource" where
  "resource_set_state_updating r = r\<lparr>res_state := RES_UPDATING\<rparr>"

definition resource_set_state_terminating :: "resource \<Rightarrow> resource" where
  "resource_set_state_terminating r = r\<lparr>res_state := RES_TERMINATING\<rparr>"

definition resource_set_state_terminated :: "resource \<Rightarrow> resource" where
  "resource_set_state_terminated r = r\<lparr>res_state := RES_TERMINATED\<rparr>"

text \<open>\<open>resource.save(update_fields=["state"])\<close>: only the state column of the row changes.\<close>

definition update_resource :: "nat \<Rightarrow> (resource \<Rightarrow> resource) \<Rightarrow> unit action" where
  "update_resource pk f = ewrite (\<lambda>s. s\<lparr>resources := update_rows (\<lambda>r. res_pk r = pk) f (resources s)\<rparr>)"

definition save_resource_state :: "resource \<Rightarrow> unit action" where
  "save_resource_state r = update_resource (res_pk r) (res_state_update (\<lambda>_. res_state r))"

text \<open>A full \<open>save\<close> stamps \<open>end_date_updated_at\<close> when the end date differs from the loaded one.\<close>

definition save_resource :: "date option \<Rightarrow> resource \<Rightarrow> unit action" where
  "save_resource loaded_end r = ebind (eread now) (\<lambda>t.
     let r' = (if res_end_date r = loaded_end then r else r\<lparr>end_date_updated_at := Some t\<rparr>)
     in update_resource (res_pk r) (\<lambda>_. r'))"

subsection \<open>Saving an order\<close>

definition ORDER_STATE_HANDLERS :: "(order_state, order_event) dict" where
  "ORDER_STATE_HANDLERS = [(EXECUTING, MARKETPLACE_ORDER_APPROVED), (REJECTED, MARKETPLACE_ORDER_REJECTED),
     (DONE, MARKETPLACE_ORDER_COMPLETED), (CANCELED, MARKETPLACE_ORDER_TERMINATED),
     (ERRED, MARKETPLACE_ORDER_FAILED)]"

definition state_code :: "order_state \<Rightarrow> nat" where
  "state_code st = (case st of PENDING_CONSUMER \<Rightarrow> 1 | EXECUTING \<Rightarrow> 2 | DONE \<Rightarrow> 3 | ERRED \<Rightarrow> 4 | CANCELED \<Rightarrow> 5
     | REJECTED \<Rightarrow> 6 | PENDING_PROVIDER \<Rightarrow> 7 | PENDING_PROJECT \<Rightarrow> 8 | PENDING_START_DATE \<Rightarrow> 9)"

definition type_code :: "order_type \<Rightarrow> nat" where
  "type_code ty = (case ty of CREATE \<Rightarrow> 1 | UPDATE \<Rightarrow> 2 | TERMINATE \<Rightarrow> 3 | RESTORE \<Rightarrow> 4)"

definition RESOURCE_TYPE_HANDLERS :: "(nat, resource_event) dict" where
  "RESOURCE_TYPE_HANDLERS = [(type_code TERMINATE, TERMINATE_REQUESTED), (type_code UPDATE, UPDATE_REQUESTED)]"

text \<open>\<open>previous\<close> is the state the tracker remembers; \<open>None\<close> when the row is being created.\<close>

definition log_order_events :: "order_state option \<Rightarrow> order \<Rightarrow> unit action" where
  "log_order_events previous ord =
     (if previous = None
      then (if order_state ord \<notin> {PENDING_CONSUMER, PENDING_PROVIDER} then ereturn ()
            else case map_of RESOURCE_TYPE_HANDLERS (state_code (order_state ord)) of
                   None \<Rightarrow> ereturn ()
                 | Some ev \<Rightarrow> emit (ResourceEvent ev (order_resource ord)))
      else if previous \<noteq> Some (order_state ord)
      then (case map_of ORDER_STATE_HANDLERS (order_state ord) of
              None \<Rightarrow> ereturn () | Some ev \<Rightarrow> emit (OrderEvent ev (order_pk ord)))
      else ereturn ())"

definition update_resource_state_on_order_rejection_error_or_cancellation ::
    "order_state option \<Rightarrow> order \<Rightarrow> unit action" where
  "update_resource_state_on_order_rejection_error_or_cancellation previous ord =
     (if previous = Some (order_state ord) then ereturn ()
      else ebind (get_resource (order_resource ord)) (\<lambda>r.
        if order_state ord \<in> {REJECTED, CANCELED}
        then (if order_type ord \<in> {CREATE, RESTORE}
              then save_resource_state (resource_set_state_terminated r)
              else if res_state r \<noteq> RES_OK
              then ebind (elift (resource_set_state_ok r)) save_resource_state
              else ereturn ())
        else if order_state ord = ERRED
        then (if res_state r \<noteq> RES_CREATING then ereturn ()
              else save_resource_state
                (if res_backend_id r = [] then resource_set_state_terminated r else resource_set_state_erred r))
        else ereturn ()))"

definition notify_user_about_rejected_order :: "order_state option \<Rightarrow> order \<Rightarrow> unit action" where
  "notify_user_about_rejected_order previous ord =
     (if previous = None then ereturn ()
      else if completed_at ord \<noteq> None then ereturn ()
      else ewhen (previous \<noteq> Some (order_state ord) \<and> order_state ord \<in> set TERMINAL_STATES \<and>
                  order_state ord = REJECTED) (queue (NotifyRejected (order_pk ord))))"

text \<open>The handlers of a saved order that is not being created, in their order of registration.\<close>

definition order_saved :: "order_state option \<Rightarrow> order \<Rightarrow> unit action" where
  "order_saved previous ord =
     ethen (log_order_events previous ord)
      (ethen (update_resource_state_on_order_rejection_error_or_cancellation previous ord)
        (notify_user_about_rejected_order previous ord))"

text \<open>
  \<open>order.save(update_fields=..)\<close>: \<open>copy\<close> writes the listed fields of the object into the row;
  \<open>modified\<close> is always stamped, and the error fields follow when they changed.
\<close>

definition update_order :: "nat \<Rightarrow> (order \<Rightarrow> order) \<Rightarrow> unit action" where
  "update_order pk f = ewrite (\<lambda>s. s\<lparr>orders := update_rows (\<lambda>ord. order_pk ord = pk) f (orders s)\<rparr>)"

definition error_changed :: "order \<Rightarrow> order \<Rightarrow> bool" where
  "error_changed loaded ord \<longleftrightarrow> order_error_message ord \<noteq> order_error_message loaded \<or>
     order_error_traceback ord \<noteq> order_error_traceback loaded"

definition save_order :: "(order \<Rightarrow> order \<Rightarrow> order) \<Rightarrow> order \<Rightarrow> order \<Rightarrow> order action" where
  "save_order copy loaded ord = ebind (eread now) (\<lambda>t.
     let ord' = (if error_changed loaded ord then ord\<lparr>error_updated_at := Some t\<rparr> else ord);
         with_errors = (\<lambda>row. if error_changed loaded ord
           then row\<lparr>order_error_message := order_error_message ord,
                    order_error_traceback := order_error_traceback ord, error_updated_at := Some t\<rparr>
           else row)
     in ethen (update_order (order_pk ord) (\<lambda>row. (with_errors (copy ord' row))\<lparr>order_modified := t\<rparr>))
          (ethen (order_saved (Some (order_state loaded)) ord') (ereturn ord')))"

definition all_fields :: "order \<Rightarrow> order \<Rightarrow> order" where
  "all_fields ord row = ord"

definition only_state :: "order \<Rightarrow> order \<Rightarrow> order" where
  "only_state ord row = row\<lparr>order_state := order_state ord\<rparr>"

subsection \<open>Order transitions\<close>

text \<open>
  The body of a transition runs before the state changes, so \<open>completed_at\<close> is saved (with every
  other field of the object) while the order still has its old state.
\<close>

definition set_completed_at_timestamp :: "order \<Rightarrow> order action" where
  "set_completed_at_timestamp ord = ebind (eread now) (\<lambda>t.
     save_order all_fields ord (ord\<lparr>completed_at := Some t\<rparr>))"

definition complete :: "order \<Rightarrow> order action" where
  "complete ord =
     (if order_state ord \<noteq> EXECUTING then eraise TransitionNotAllowed
      else ebind (set_completed_at_timestamp ord) (\<lambda>saved. ereturn (saved\<lparr>order_state := DONE\<rparr>)))"

definition cancel :: "string option \<Rightarrow> order \<Rightarrow> order action" where
  "cancel comment ord =
     (let o' = (case comment of None \<Rightarrow> ord | Some c \<Rightarrow> if c = [] then ord else ord\<lparr>termination_comment := Some c\<rparr>)
      in ebind (set_completed_at_timestamp o') (\<lambda>saved. ereturn (saved\<lparr>order_state := CANCELED\<rparr>)))"

definition reject :: "order \<Rightarrow> order action" where
  "reject ord =
     (if order_state ord \<notin> {PENDING_CONSUMER, PENDING_PROVIDER} then eraise TransitionNotAllowed
      else ebind (set_completed_at_timestamp ord) (\<lambda>saved. ereturn (saved\<lparr>order_state := REJECTED\<rparr>)))"

definition fail :: "order \<Rightarrow> order action" where
  "fail ord = ebind (set_completed_at_timestamp ord) (\<lambda>saved. ereturn (saved\<lparr>order_state := ERRED\<rparr>))"

definition set_state_executing :: "order \<Rightarrow> order action" where
  "set_state_executing ord =
     (if order_state ord \<notin> {PENDING_CONSUMER, PENDING_PROVIDER, PENDING_PROJECT, PENDING_START_DATE, ERRED}
      then eraise TransitionNotAllowed else ereturn (ord\<lparr>order_state := EXECUTING\<rparr>))"

definition set_state_erred :: "order \<Rightarrow> order action" where
  "set_state_erred ord = ereturn (ord\<lparr>order_state := ERRED\<rparr>)"

definition review_by_consumer :: "nat option \<Rightarrow> order \<Rightarrow> order \<Rightarrow> order action" where
  "review_by_consumer user loaded ord = ebind (eread now) (\<lambda>t.
     save_order all_fields loaded (ord\<lparr>consumer_reviewed_by := user, consumer_reviewed_at := Some t\<rparr>))"

definition review_by_provider :: "nat option \<Rightarrow> order \<Rightarrow> order action" where
  "review_by_provider user ord = ebind (eread now) (\<lambda>t.
     save_order all_fields ord (ord\<lparr>provider_reviewed_by := user, provider_reviewed_at := Some t\<rparr>))"

end
