(* ===== verification/Order_Callbacks.thy ===== *)
theory Order_Callbacks
  imports Order_Model
begin

text \<open>
  Completion of orders, \<^verbatim>\<open>src/waldur_mastermind/marketplace/callbacks.py\<close>: the callbacks that move
  an executing order and its resource to their final states, and the two routers that choose the
  callback.  A callback is given the resource object its caller holds, which may be older than
  the row.  E-mail texts are not modelled; the queued notification is.
\<close>

text \<open>What the code takes from libraries and from the plugin registry.\<close>

record env =
  env_relativedelta :: relative_delta
  env_factors :: "string \<Rightarrow> (string, nat) dict"
  env_to_bool :: "json \<Rightarrow> bool option"

subsection \<open>Dates and numbers in attributes\<close>

definition is_digit :: "char \<Rightarrow> bool" where
  "is_digit c \<longleftrightarrow> of_char c \<ge> (48 :: nat) \<and> of_char c \<le> (57 :: nat)"

text \<open>\<open>strptime(s, "%Y-%m-%d")\<close>: four digits, then one or two digits for month and day.\<close>

definition short_number :: "string \<Rightarrow> nat option" where
  "short_number ds = (if list_all is_digit ds \<and> (length ds = 1 \<or> length ds = 2)
     then Some (decimal_value ds) else None)"

definition day_number :: "string \<Rightarrow> nat option" where
  "day_number ds = (case ds of [c, d] \<Rightarrow> if c = CHR '' '' \<and> is_digit d then short_number [d] else short_number ds
     | _ \<Rightarrow> short_number ds)"

definition strptime_date :: "string \<Rightarrow> date option" where
  "strptime_date s =
     (let y = take 4 s; rest = drop 5 s;
          m = takeWhile (\<lambda>c. c \<noteq> CHR ''-'') rest; d = drop (length m + 1) rest
      in if length s > 5 \<and> list_all is_digit y \<and> s ! 4 = CHR ''-'' \<and> length m < length rest
         then (case (short_number m, day_number d) of
                 (Some mn, Some dn) \<Rightarrow>
                   if 1 \<le> mn \<and> mn \<le> 12 \<and> 1 \<le> decimal_value y \<and> 1 \<le> dn \<and> dn \<le> days_in_month (decimal_value y) mn
                   then Some (to_ordinal (decimal_value y) mn dn) else None
               | _ \<Rightarrow> None)
         else None)"

definition parse_date :: "json \<Rightarrow> (order_error, date option) result" where
  "parse_date v =
     (case v of
        JStr s \<Rightarrow> (case strptime_date s of
                    None \<Rightarrow> Inl (ValidationError ''Invalid date format. Use YYYY-MM-DD.'')
                  | Some d \<Rightarrow> Inr (Some d))
      | _ \<Rightarrow> Inr None)"

text \<open>\<open>int(value or 0)\<close> for the values JSON can hold; \<open>None\<close> where it raises.\<close>

fun digit_groups :: "bool \<Rightarrow> nat \<Rightarrow> string \<Rightarrow> nat option" where
  "digit_groups after_digit n [] = (if after_digit then Some n else None)"
| "digit_groups after_digit n (c # cs) =
     (if is_digit c then digit_groups True (10 * n + (of_char c - 48)) cs
      else if c = CHR ''_'' \<and> after_digit then digit_groups False n cs else None)"

definition is_space :: "char \<Rightarrow> bool" where
  "is_space c \<longleftrightarrow> of_char c \<in> {9, 10, 11, 12, 13, 28, 29, 30, 31, 32, 133, 160 :: nat}"

definition strip_spaces :: "string \<Rightarrow> string" where
  "strip_spaces s = rev (dropWhile is_space (rev (dropWhile is_space s)))"

definition int_of_string :: "string \<Rightarrow> int option" where
  "int_of_string s =
     (case strip_spaces s of
        CHR ''-'' # ds \<Rightarrow> map_option (\<lambda>n. - int n) (digit_groups False 0 ds)
      | CHR ''+'' # ds \<Rightarrow> map_option int (digit_groups False 0 ds)
      | ds \<Rightarrow> map_option int (digit_groups False 0 ds))"

definition truncate_rat :: "rat \<Rightarrow> int" where
  "truncate_rat q = (if q < 0 then \<lceil>q\<rceil> else \<lfloor>q\<rfloor>)"

definition prepaid_duration_months :: "(string, json) dict \<Rightarrow> int option" where
  "prepaid_duration_months attributes =
     (let v = (case get_value attributes ''prepaid_duration_months'' of
                 JNull \<Rightarrow> Some 0
               | JBool b \<Rightarrow> Some (if b then 1 else 0)
               | JNum q \<Rightarrow> Some (truncate_rat q)
               | JStr s \<Rightarrow> (if s = [] then Some 0 else int_of_string s)
               | JList l \<Rightarrow> (if l = [] then Some 0 else None)
               | JObj d \<Rightarrow> (if d = [] then Some 0 else None))
      in case v of None \<Rightarrow> None | Some m \<Rightarrow> if m > 0 then Some m else None)"

subsection \<open>Costs\<close>

definition find_plan :: "market \<Rightarrow> nat \<Rightarrow> (market_offering \<times> plan) option" where
  "find_plan s pk =
     first_row (\<lambda>(f, p). plan_pk p = pk) (concat (map (\<lambda>f. map (Pair f) (off_plans f)) (offerings s)))"

definition plan_estimate ::
    "env \<Rightarrow> market_offering \<Rightarrow> plan \<Rightarrow> limits \<Rightarrow> estimate_window \<Rightarrow> (order_error, rat) result" where
  "plan_estimate env f p limits w =
     (case get_estimate (env_relativedelta env) (env_factors env (off_type f)) (offering_data.truncate f) p limits w of
        Inl e \<Rightarrow> Inl (PricingError e) | Inr c \<Rightarrow> Inr c)"

text \<open>\<open>CostEstimateMixin.init_cost\<close> of a stored resource; its subscription starts today.\<close>

definition resource_init_cost :: "env \<Rightarrow> resource \<Rightarrow> resource action" where
  "resource_init_cost env r =
     (case res_plan r of
        None \<Rightarrow> ereturn r
      | Some pk \<Rightarrow> ebind (\<lambda>s. (found (find_plan s pk), s)) (\<lambda>(f, p).
          ebind (eread today) (\<lambda>d.
            ebind (elift (plan_estimate env f p (res_limits r)
                    \<lparr>ew_start = Some d, ew_end = res_end_date r,
                     ew_months = prepaid_duration_months (res_attributes r)\<rparr>))
              (\<lambda>c. ereturn (r\<lparr>res_cost := Some c\<rparr>)))))"

subsection \<open>The order behind a callback\<close>

definition OrderStateRouter :: "order_state \<Rightarrow> (order \<Rightarrow> order action) option" where
  "OrderStateRouter st =
     (case st of EXECUTING \<Rightarrow> Some set_state_executing | DONE \<Rightarrow> Some complete | ERRED \<Rightarrow> Some set_state_erred
      | CANCELED \<Rightarrow> Some (cancel None) | _ \<Rightarrow> None)"

definition executing_orders :: "market \<Rightarrow> nat \<Rightarrow> order_type \<Rightarrow> order list" where
  "executing_orders s res ty =
     filter (\<lambda>ord. order_resource ord = res \<and> order_type ord = ty \<and> order_state ord = EXECUTING) (orders s)"

definition set_order_state :: "nat \<Rightarrow> order_type \<Rightarrow> order_state \<Rightarrow> bool \<Rightarrow> order option action" where
  "set_order_state res ty new_state validate = ebind (eread (\<lambda>s. executing_orders s res ty)) (\<lambda>found_orders.
     case found_orders of
       [] \<Rightarrow> if validate then eraise (ValidationError ''related order is not found'') else ereturn None
     | [ord] \<Rightarrow>
         (case OrderStateRouter new_state of
            None \<Rightarrow> eraise KeyError
          | Some transition \<Rightarrow>
              ebind (transition ord) (\<lambda>moved. ebind (save_order only_state ord moved) (\<lambda>saved. ereturn (Some saved))))
     | _ \<Rightarrow> if validate then eraise (ValidationError ''multiple related orders are found'') else ereturn None)"

definition copy_error_from_resource_to_order :: "resource \<Rightarrow> order \<Rightarrow> unit action" where
  "copy_error_from_resource_to_order r ord =
     (let (message, traceback) = (case res_scope r of
            None \<Rightarrow> ('''', '''') | Some sc \<Rightarrow> (scope_error_message sc, scope_error_traceback sc));
          changed = ord\<lparr>order_error_message := message, order_error_traceback := traceback\<rparr>
      in if error_changed ord changed
         then ethen (save_order (\<lambda>_ row. row) ord changed) (ereturn ()) else ereturn ())"

definition copy_error :: "resource \<Rightarrow> order option \<Rightarrow> unit action" where
  "copy_error r found_order =
     (case found_order of None \<Rightarrow> ereturn () | Some ord \<Rightarrow> copy_error_from_resource_to_order r ord)"

subsection \<open>Creation and restoration\<close>

definition ok_unless_ok :: "resource \<Rightarrow> unit action" where
  "ok_unless_ok r = ewhen (res_state r \<noteq> RES_OK) (ebind (elift (resource_set_state_ok r)) save_resource_state)"

definition terminated_unless_terminated :: "resource \<Rightarrow> unit action" where
  "terminated_unless_terminated r =
     ewhen (res_state r \<noteq> RES_TERMINATED) (save_resource_state (resource_set_state_terminated r))"

definition resource_creation_succeeded :: "resource \<Rightarrow> bool \<Rightarrow> order option action" where
  "resource_creation_succeeded r validate =
     ebind (set_order_state (res_pk r) CREATE DONE validate) (\<lambda>ord.
       ethen (ok_unless_ok r)
        (ethen (emit (CreationSignal (res_pk r)))
          (ethen (emit (ResourceEvent CREATE_SUCCEEDED (res_pk r))) (ereturn ord))))"

definition resource_creation_failed :: "resource \<Rightarrow> bool \<Rightarrow> order option action" where
  "resource_creation_failed r validate =
     ebind (set_order_state (res_pk r) CREATE ERRED validate) (\<lambda>ord.
       ethen (save_resource_state (resource_set_state_erred r))
        (ethen (copy_error r ord)
          (ethen (emit (ResourceEvent CREATE_FAILED (res_pk r))) (ereturn ord))))"

definition resource_creation_canceled :: "resource \<Rightarrow> bool \<Rightarrow> order option action" where
  "resource_creation_canceled r validate =
     ebind (set_order_state (res_pk r) CREATE CANCELED validate) (\<lambda>ord.
       ethen (terminated_unless_terminated r)
        (ethen (emit (ResourceEvent CREATE_CANCELED (res_pk r))) (ereturn ord)))"

definition resource_restore_succeeded :: "resource \<Rightarrow> bool \<Rightarrow> order option action" where
  "resource_restore_succeeded r validate =
     ebind (set_order_state (res_pk r) RESTORE DONE validate) (\<lambda>ord.
       ethen (ok_unless_ok r)
        (ethen (emit (CreationSignal (res_pk r)))
          (ethen (emit (ResourceEvent CREATE_SUCCEEDED (res_pk r))) (ereturn ord))))"

definition resource_restore_failed :: "resource \<Rightarrow> bool \<Rightarrow> order option action" where
  "resource_restore_failed r validate =
     ebind (set_order_state (res_pk r) RESTORE ERRED validate) (\<lambda>ord.
       ethen (save_resource_state (resource_set_state_erred r))
        (ethen (copy_error r ord)
          (ethen (emit (ResourceEvent CREATE_FAILED (res_pk r))) (ereturn ord))))"

definition resource_restore_canceled :: "resource \<Rightarrow> bool \<Rightarrow> order option action" where
  "resource_restore_canceled r validate =
     ebind (set_order_state (res_pk r) RESTORE CANCELED validate) (\<lambda>ord.
       ethen (terminated_unless_terminated r)
        (ethen (emit (ResourceEvent CREATE_CANCELED (res_pk r))) (ereturn ord)))"

subsection \<open>Updates\<close>

text \<open>Only a dictionary can be merged; \<open>update\<close> raises for anything else that is true.\<close>

definition apply_new_options :: "env \<Rightarrow> option_defs \<Rightarrow> resource \<Rightarrow> (string, json) dict \<Rightarrow> resource" where
  "apply_new_options env definitions r new_options =
     (let current = dict_update (res_options r) new_options;
          current = (if definitions \<noteq> [] then strip_hidden_options (env_to_bool env) definitions current else current)
      in r\<lparr>res_options := current\<rparr>)"

definition json_true :: "json \<Rightarrow> bool" where
  "json_true v = (case v of JNull \<Rightarrow> False | JBool b \<Rightarrow> b | JStr s \<Rightarrow> s \<noteq> [] | JNum q \<Rightarrow> q \<noteq> 0
     | JList l \<Rightarrow> l \<noteq> [] | JObj d \<Rightarrow> d \<noteq> [])"

definition update_options :: "env \<Rightarrow> option_defs \<Rightarrow> order \<Rightarrow> resource \<Rightarrow> (order_error, resource) result" where
  "update_options env definitions ord r =
     (let v = get_value (order_attributes ord) ''new_options''
      in if \<not> json_true v then Inr r
         else (case v of JObj d \<Rightarrow> Inr (apply_new_options env definitions r d) | _ \<Rightarrow> Inl TypeError))"

definition update_end_date :: "order \<Rightarrow> resource \<Rightarrow> (order_error, resource) result" where
  "update_end_date ord r =
     rbind (parse_date (get_value (order_attributes ord) ''new_end_date'')) (\<lambda>new_end.
       Inr (if new_end \<noteq> None \<and> res_end_date r \<noteq> new_end
            then r\<lparr>res_end_date := new_end,
                   end_date_requested_by := (case consumer_reviewed_by ord of
                     None \<Rightarrow> created_by ord | Some u \<Rightarrow> Some u)\<rparr>
            else r))"

definition plan_changed :: "order \<Rightarrow> resource \<Rightarrow> bool" where
  "plan_changed ord r \<longleftrightarrow> order_plan ord \<noteq> None \<and> res_plan r \<noteq> order_plan ord"

definition limits_changed :: "order \<Rightarrow> resource \<Rightarrow> bool" where
  "limits_changed ord r \<longleftrightarrow> order_limits ord \<noteq> [] \<and> \<not> dict_eq (res_limits r) (order_limits ord)"

text \<open>The name of the old plan is read for the e-mail, so a resource without a plan raises here.\<close>

definition switch_plan :: "order \<Rightarrow> resource \<Rightarrow> resource action" where
  "switch_plan ord r =
     (if res_plan r = None then eraise NoAttribute
      else ethen (emit (ResourceEvent PLAN_SWITCHED (res_pk r)))
        (ethen (queue (NotifyPlanSwitch (res_pk r))) (ereturn (r\<lparr>res_plan := order_plan ord\<rparr>))))"

definition switch_limits :: "order \<Rightarrow> resource \<Rightarrow> resource action" where
  "switch_limits ord r =
     ethen (queue (NotifyLimits (res_pk r))) (ereturn (r\<lparr>res_limits := order_limits ord\<rparr>))"

definition apply_update :: "env \<Rightarrow> order \<Rightarrow> resource \<Rightarrow> resource action" where
  "apply_update env ord r =
     (if created_by ord = None then eraise NoAttribute
      else ebind (get_offering (res_offering r)) (\<lambda>f.
        let switched = plan_changed ord r; relimited = limits_changed ord r
        in ebind (elift (update_options env (off_resource_options f) ord r)) (\<lambda>r1.
           ebind (elift (update_end_date ord r1)) (\<lambda>r2.
           ebind (if switched then switch_plan ord r2 else ereturn r2) (\<lambda>r3.
           ebind (if relimited then switch_limits ord r3 else ereturn r3) (\<lambda>r4.
           if switched \<or> relimited then resource_init_cost env r4 else ereturn r4))))))"

definition trigger_slurm_policy_reevaluation :: "nat \<Rightarrow> nat \<Rightarrow> unit action" where
  "trigger_slurm_policy_reevaluation res off = ebind (eread slurm_policies) (\<lambda>ps.
     eiter (\<lambda>(policy, scope). ewhen (scope = off) (queue (EvaluatePolicy res policy))) ps)"

definition resource_update_succeeded :: "env \<Rightarrow> resource \<Rightarrow> bool \<Rightarrow> order option action" where
  "resource_update_succeeded env r validate = atomic (
     ebind (get_resource (res_pk r)) (\<lambda>locked.
     ebind (set_order_state (res_pk locked) UPDATE DONE validate) (\<lambda>found_order.
     ebind (if res_state locked \<noteq> RES_OK then elift (resource_set_state_ok locked) else ereturn locked) (\<lambda>r1.
     ebind (case found_order of None \<Rightarrow> ereturn r1 | Some ord \<Rightarrow> apply_update env ord r1) (\<lambda>r2.
     let relimited = (case found_order of None \<Rightarrow> False | Some ord \<Rightarrow> limits_changed ord locked)
     in ethen (save_resource (res_end_date locked) r2)
         (ethen (ewhen relimited (emit (ResourceEvent LIMITS_UPDATED (res_pk r2))))
           (ethen (ewhen (relimited \<and> (downscaled r2 \<or> paused r2))
                    (trigger_slurm_policy_reevaluation (res_pk r2) (res_offering r2)))
             (ereturn found_order))))))))"

definition resource_update_failed :: "resource \<Rightarrow> bool \<Rightarrow> order option action" where
  "resource_update_failed r validate = atomic (
     ebind (get_resource (res_pk r)) (\<lambda>locked.
     ebind (set_order_state (res_pk locked) UPDATE ERRED validate) (\<lambda>ord.
       ethen (ewhen (res_state locked \<noteq> RES_ERRED) (save_resource_state (resource_set_state_erred locked)))
         (ethen (emit (ResourceEvent UPDATE_FAILED (res_pk locked))) (ereturn ord)))))"

definition resource_update_canceled :: "resource \<Rightarrow> bool \<Rightarrow> order option action" where
  "resource_update_canceled r validate =
     ebind (set_order_state (res_pk r) UPDATE CANCELED validate) (\<lambda>ord.
       ethen (ok_unless_ok r) (ethen (emit (ResourceEvent UPDATE_CANCELED (res_pk r))) (ereturn ord)))"

subsection \<open>Termination\<close>

definition delete_api_keys :: "nat \<Rightarrow> unit action" where
  "delete_api_keys res = ewrite (\<lambda>s. s\<lparr>api_keys := filter (\<lambda>k. k \<noteq> res) (api_keys s)\<rparr>)"

definition resource_deletion_succeeded :: "resource \<Rightarrow> bool \<Rightarrow> order option action" where
  "resource_deletion_succeeded r validate =
     ebind (set_order_state (res_pk r) TERMINATE DONE validate) (\<lambda>ord.
       ethen (terminated_unless_terminated r)
        (ethen (delete_api_keys (res_pk r))
          (ethen (emit (DeletionSignal (res_pk r)))
            (ethen (emit (ResourceEvent TERMINATE_SUCCEEDED (res_pk r))) (ereturn ord)))))"

definition resource_deletion_failed :: "resource \<Rightarrow> bool \<Rightarrow> order option action" where
  "resource_deletion_failed r validate =
     ebind (set_order_state (res_pk r) TERMINATE ERRED validate) (\<lambda>ord.
       ethen (ok_unless_ok r) (ethen (emit (ResourceEvent TERMINATE_FAILED (res_pk r))) (ereturn ord)))"

definition resource_deletion_canceled :: "resource \<Rightarrow> bool \<Rightarrow> order option action" where
  "resource_deletion_canceled r validate =
     ebind (set_order_state (res_pk r) TERMINATE CANCELED validate) (\<lambda>ord.
       ethen (ok_unless_ok r) (ethen (emit (ResourceEvent TERMINATE_CANCELED (res_pk r))) (ereturn ord)))"

definition resource_erred_on_backend :: "resource \<Rightarrow> bool \<Rightarrow> order option action" where
  "resource_erred_on_backend r validate =
     (if res_state r = RES_ERRED then ereturn None
      else ethen (save_resource_state (resource_set_state_erred r))
        (ethen (emit (ResourceEvent ERRED_ON_BACKEND (res_pk r))) (ereturn None)))"

subsection \<open>Routers\<close>

type_synonym callback = "resource \<Rightarrow> bool \<Rightarrow> order option action"

definition StateRouter :: "env \<Rightarrow> core_state \<times> core_state \<Rightarrow> callback option" where
  "StateRouter env key =
     (case key of
        (CORE_CREATING, CORE_OK) \<Rightarrow> Some resource_creation_succeeded
      | (CORE_CREATING, CORE_ERRED) \<Rightarrow> Some resource_creation_failed
      | (CREATION_SCHEDULED, CORE_ERRED) \<Rightarrow> Some resource_creation_failed
      | (CORE_UPDATING, CORE_OK) \<Rightarrow> Some (resource_update_succeeded env)
      | (CORE_UPDATING, CORE_ERRED) \<Rightarrow> Some resource_update_failed
      | (UPDATE_SCHEDULED, CORE_ERRED) \<Rightarrow> Some resource_update_failed
      | (DELETING, CORE_ERRED) \<Rightarrow> Some resource_deletion_failed
      | (DELETION_SCHEDULED, CORE_ERRED) \<Rightarrow> Some resource_deletion_failed
      | (CORE_OK, CORE_ERRED) \<Rightarrow> Some resource_erred_on_backend
      | _ \<Rightarrow> None)"

definition OrderHandlers :: "env \<Rightarrow> order_type \<times> order_state \<Rightarrow> callback option" where
  "OrderHandlers env key =
     (case key of
        (CREATE, DONE) \<Rightarrow> Some resource_creation_succeeded
      | (CREATE, ERRED) \<Rightarrow> Some resource_creation_failed
      | (CREATE, CANCELED) \<Rightarrow> Some resource_creation_canceled
      | (UPDATE, DONE) \<Rightarrow> Some (resource_update_succeeded env)
      | (UPDATE, ERRED) \<Rightarrow> Some resource_update_failed
      | (UPDATE, CANCELED) \<Rightarrow> Some resource_update_canceled
      | (TERMINATE, DONE) \<Rightarrow> Some resource_deletion_succeeded
      | (TERMINATE, ERRED) \<Rightarrow> Some resource_deletion_failed
      | (TERMINATE, CANCELED) \<Rightarrow> Some resource_deletion_canceled
      | (RESTORE, DONE) \<Rightarrow> Some resource_restore_succeeded
      | (RESTORE, ERRED) \<Rightarrow> Some resource_restore_failed
      | (RESTORE, CANCELED) \<Rightarrow> Some resource_restore_canceled
      | _ \<Rightarrow> None)"

definition sync_resource_state :: "env \<Rightarrow> core_state \<Rightarrow> core_state \<Rightarrow> resource \<Rightarrow> unit action" where
  "sync_resource_state env previous current r =
     (case StateRouter env (previous, current) of
        None \<Rightarrow> ereturn () | Some func \<Rightarrow> ethen (func r False) (ereturn ()))"

definition sync_order_state :: "env \<Rightarrow> order \<Rightarrow> order_state \<Rightarrow> unit action" where
  "sync_order_state env ord new_state =
     (case OrderHandlers env (order_type ord, new_state) of
        None \<Rightarrow> ereturn ()
      | Some func \<Rightarrow> ebind (get_resource (order_resource ord)) (\<lambda>r. ethen (func r False) (ereturn ())))"

end
