(* ===== verification/Order_Approval.thy ===== *)
theory Order_Approval
  imports Order_Callbacks
begin

text \<open>
  Who has to approve an order and where an approved order goes:
  \<^verbatim>\<open>src/waldur_mastermind/marketplace/permissions.py\<close> (consumer step), \<open>utils.py\<close> (provider step),
  \<^verbatim>\<open>order_approval.py\<close> (routing and the project auto-approval rules), the creation handlers of
  \<^verbatim>\<open>handlers.py\<close> and the periodic sweeps of \<^verbatim>\<open>tasks.py\<close>.
\<close>

definition BASIC_OFFERING :: string where "BASIC_OFFERING = ''Marketplace.Basic''"
definition SITE_AGENT_OFFERING :: string where "SITE_AGENT_OFFERING = ''Marketplace.Slurm''"
definition REMOTE_OFFERING :: string where "REMOTE_OFFERING = ''Waldur.RemoteOffering''"
definition SCRIPT_OFFERING :: string where "SCRIPT_OFFERING = ''Marketplace.Script''"
definition SUPPORT_OFFERING :: string where "SUPPORT_OFFERING = ''Support.OfferingTemplate''"

subsection \<open>Permissions\<close>

text \<open>\<open>has_permission\<close> for a user object (no personal access token and no role index).\<close>

definition has_permission :: "market \<Rightarrow> user \<Rightarrow> permission \<Rightarrow> scope \<Rightarrow> bool" where
  "has_permission s u perm sc =
     (if \<not> is_active u then False
      else if is_staff u then True
      else list_ex (\<lambda>g. ur_user g = user_pk u \<and> ur_active g \<and> ur_scope g = sc \<and>
                        (ur_role g, perm) \<in> set (role_permissions s)) (user_roles s))"

definition has_project_permission :: "market \<Rightarrow> user \<Rightarrow> permission \<Rightarrow> project \<Rightarrow> bool" where
  "has_project_permission s u perm p \<longleftrightarrow>
     has_permission s u perm (PROJECT (proj_pk p)) \<or> has_permission s u perm (CUSTOMER (proj_customer p))"

text \<open>\<open>has_user(scope, user, role)\<close>; no role asks for any role.  A clone of the role counts.\<close>

definition has_user :: "market \<Rightarrow> scope \<Rightarrow> user \<Rightarrow> string option \<Rightarrow> bool" where
  "has_user s sc u role =
     list_ex (\<lambda>g. ur_active g \<and> ur_user g = user_pk u \<and> ur_scope g = sc \<and>
       (case role of None \<Rightarrow> True | Some n \<Rightarrow> ur_role g = n \<or> ur_template g = Some n)) (user_roles s)"

definition has_owner_access :: "market \<Rightarrow> user \<Rightarrow> nat \<Rightarrow> bool" where
  "has_owner_access s u customer \<longleftrightarrow> is_staff u \<or> has_user s (CUSTOMER customer) u (Some ''CUSTOMER.OWNER'')"

definition has_service_manager_access :: "market \<Rightarrow> user \<Rightarrow> nat \<Rightarrow> bool" where
  "has_service_manager_access s u customer \<longleftrightarrow>
     has_owner_access s u customer \<or> has_user s (CUSTOMER customer) u (Some ''CUSTOMER.MANAGER'')"

definition user_holds_role_in_project_scope :: "market \<Rightarrow> user \<Rightarrow> project \<Rightarrow> string list \<Rightarrow> bool" where
  "user_holds_role_in_project_scope s u p role_names =
     (if role_names = [] then True
      else list_ex (\<lambda>g. ur_active g \<and> ur_user g = user_pk u \<and> ur_role g \<in> set role_names \<and>
             (ur_scope g = PROJECT (proj_pk p) \<or> ur_scope g = CUSTOMER (proj_customer p))) (user_roles s))"

definition order_is_held_for_purchase_order :: "market_offering \<Rightarrow> order \<Rightarrow> bool" where
  "order_is_held_for_purchase_order f ord \<longleftrightarrow>
     order_type ord \<noteq> TERMINATE \<and> require_purchase_order_upload f \<and> \<not> has_attachment ord"

definition order_autoapprove_is_disabled :: "market_offering \<Rightarrow> order \<Rightarrow> bool" where
  "order_autoapprove_is_disabled f ord \<longleftrightarrow> order_type ord \<noteq> TERMINATE \<and> disable_autoapprove f"

definition is_private :: "market_offering \<Rightarrow> bool" where
  "is_private f \<longleftrightarrow> \<not> off_billable f \<and> \<not> off_shared f"

text \<open>The creator's row; \<open>NoAttribute\<close> when the account has been deleted (\<open>SET_NULL\<close>).\<close>

definition user_of :: "market \<Rightarrow> nat option \<Rightarrow> (order_error, user) result" where
  "user_of s u = (case u of None \<Rightarrow> Inl NoAttribute | Some pk \<Rightarrow> found (find_user s pk))"

definition order_should_not_be_reviewed_by_consumer ::
    "market \<Rightarrow> market_offering \<Rightarrow> project \<Rightarrow> order \<Rightarrow> (order_error, bool) result" where
  "order_should_not_be_reviewed_by_consumer s f p ord =
     (if order_is_held_for_purchase_order f ord then Inr False
      else if placed_automatically ord \<and> consumer_reviewed_by ord \<noteq> None then Inr True
      else rbind (user_of s (created_by ord)) (\<lambda>u. Inr (
        if is_staff u then True
        else if order_autoapprove_is_disabled f ord then False
        else if is_private f then has_project_permission s u APPROVE_PRIVATE_ORDER p
        else if off_shared f \<and> off_customer f = Some (proj_customer p) \<and>
                auto_approve_in_service_provider_projects f then True
        else if order_type ord = TERMINATE \<and>
                (case off_customer f of None \<Rightarrow> False | Some c \<Rightarrow> has_owner_access s u c) then True
        else if auto_approve_for_roles f \<noteq> [] \<and>
                user_holds_role_in_project_scope s u p (auto_approve_for_roles f) then True
        else has_project_permission s u APPROVE_ORDER p)))"

definition order_should_not_be_reviewed_by_provider ::
    "market \<Rightarrow> market_offering \<Rightarrow> order \<Rightarrow> (order_error, bool) result" where
  "order_should_not_be_reviewed_by_provider s f ord =
     (let reviewer = (case consumer_reviewed_by ord of None \<Rightarrow> created_by ord | Some u \<Rightarrow> Some u)
      in if off_type f = SITE_AGENT_OFFERING then Inr False
         else if off_type f = BASIC_OFFERING then Inr False
         else if off_type f = REMOTE_OFFERING
         then (case off_customer f of
                 None \<Rightarrow> Inr (auto_approve_remote_orders f)
               | Some c \<Rightarrow> rbind (user_of s reviewer) (\<lambda>u. Inr (
                   auto_approve_remote_orders f \<or> has_owner_access s u c \<or>
                   (has_service_manager_access s u c \<and> has_user s (OFFERING (off_pk f)) u None))))
         else if off_type f = SCRIPT_OFFERING then Inr (auto_approve_marketplace_script f)
         else Inr True)"

definition get_order_processing_user :: "market \<Rightarrow> order \<Rightarrow> nat option" where
  "get_order_processing_user s ord = (if placed_automatically ord then Some (system_robot s) else created_by ord)"

definition provider_review_skipped :: "market_offering \<Rightarrow> order \<Rightarrow> bool action" where
  "provider_review_skipped f ord = (\<lambda>s. (order_should_not_be_reviewed_by_provider s f ord, s))"

definition consumer_review_skipped :: "market_offering \<Rightarrow> project \<Rightarrow> order \<Rightarrow> bool action" where
  "consumer_review_skipped f p ord = (\<lambda>s. (order_should_not_be_reviewed_by_consumer s f p ord, s))"

subsection \<open>Routing\<close>

definition in_future :: "date option \<Rightarrow> market \<Rightarrow> bool" where
  "in_future d s \<longleftrightarrow> (case d of None \<Rightarrow> False | Some x \<Rightarrow> x > today s)"

text \<open>\<open>order.state = st; order.save(update_fields=["state"])\<close>, and the guarded move to \<open>EXECUTING\<close>.\<close>

definition put_state :: "order_state \<Rightarrow> order \<Rightarrow> order action" where
  "put_state st ord = save_order only_state ord (ord\<lparr>order_state := st\<rparr>)"

definition execute :: "order \<Rightarrow> order action" where
  "execute ord = ebind (set_state_executing ord) (save_order only_state ord)"

datatype approval_outcome = Pending_project | Pending_provider | Pending_start_date | Executing

definition transition_order_from_consumer_approval :: "order \<Rightarrow> nat option \<Rightarrow> approval_outcome action" where
  "transition_order_from_consumer_approval ord reviewer =
     ebind (get_project (order_project ord)) (\<lambda>p.
     ebind (eread (in_future (proj_start_date p))) (\<lambda>project_waits.
     if project_waits then ethen (put_state PENDING_PROJECT ord) (ereturn Pending_project)
     else ebind (get_offering (order_offering ord)) (\<lambda>f.
     ebind (provider_review_skipped f ord) (\<lambda>skipped.
     if \<not> skipped
     then ethen (put_state PENDING_PROVIDER ord)
            (ethen (queue (NotifyProvider (order_pk ord))) (ereturn Pending_provider))
     else ebind (eread (\<lambda>s. ENABLE_ORDER_START_DATE s \<and> in_future (order_start_date ord) s)) (\<lambda>order_waits.
     if order_waits then ethen (put_state PENDING_START_DATE ord) (ereturn Pending_start_date)
     else ethen (execute ord)
            (ethen (queue (ProcessOrder (order_pk ord) reviewer)) (ereturn Executing)))))))"

definition confirm_pending_terminate_order :: "order \<Rightarrow> nat option \<Rightarrow> order action" where
  "confirm_pending_terminate_order ord reviewer =
     (if order_type ord \<noteq> TERMINATE then eraise (ValidationError ''Order is not a termination order.'')
      else if order_state ord \<noteq> PENDING_CONSUMER
      then eraise (ValidationError ''Order is not pending consumer review.'')
      else atomic (ebind (get_order (order_pk ord)) (\<lambda>locked.
        ebind (review_by_consumer reviewer locked locked) (\<lambda>reviewed.
        ethen (transition_order_from_consumer_approval reviewed reviewer) (ereturn reviewed)))))"

subsection \<open>Auto-approval rules\<close>

definition order_plan_row :: "market \<Rightarrow> order \<Rightarrow> plan option" where
  "order_plan_row s ord = (case order_plan ord of None \<Rightarrow> None | Some pk \<Rightarrow> map_option snd (find_plan s pk))"

definition estimated_monthly_cost :: "env \<Rightarrow> market \<Rightarrow> order \<Rightarrow> (order_error, rat) result" where
  "estimated_monthly_cost env s ord =
     (if order_type ord = TERMINATE then Inr 0
      else case order_plan ord of
             None \<Rightarrow> Inr 0
           | Some pk \<Rightarrow> rbind (found (find_plan s pk)) (\<lambda>(f, p).
               plan_estimate env f p (order_limits ord) \<lparr>ew_start = None, ew_end = None, ew_months = None\<rparr>))"

text \<open>\<open>resolve_for_order\<close>: the plan of the order, or else the plan of its resource.\<close>

definition resolve_for_order :: "market \<Rightarrow> market_offering \<Rightarrow> order \<Rightarrow> resolved" where
  "resolve_for_order s f ord =
     (let pk = (case order_plan ord of
                  Some p \<Rightarrow> Some p
                | None \<Rightarrow> (case find_resource s (order_resource ord) of None \<Rightarrow> None | Some r \<Rightarrow> res_plan r));
          p = (case pk of None \<Rightarrow> None | Some k \<Rightarrow> map_option snd (find_plan s k))
      in resolved_plan (offering_data.truncate f) (map_option plan_billing_mode p))"

definition has_usage_component :: "market \<Rightarrow> market_offering \<Rightarrow> order \<Rightarrow> bool" where
  "has_usage_component s f ord \<longleftrightarrow> is_usage_based (resolve_for_order s f ord)"

definition rule_creator_can_still_approve :: "market \<Rightarrow> project \<Rightarrow> auto_rule \<Rightarrow> bool" where
  "rule_creator_can_still_approve s p rule =
     (case rule_created_by rule of
        None \<Rightarrow> False
      | Some pk \<Rightarrow> (case find_user s pk of
            None \<Rightarrow> False
          | Some u \<Rightarrow> if \<not> is_active u then False else has_project_permission s u APPROVE_ORDER p))"

definition evaluate_auto_approval :: "env \<Rightarrow> market \<Rightarrow> market_offering \<Rightarrow> order \<Rightarrow> auto_rule option" where
  "evaluate_auto_approval env s f ord =
     (if order_state ord \<noteq> PENDING_CONSUMER then None
      else if order_plan ord = None \<and> order_type ord \<noteq> TERMINATE then None
      else if order_is_held_for_purchase_order f ord then None
      else if order_autoapprove_is_disabled f ord then None
      else (case first_row (\<lambda>rule. rule_project rule = order_project ord \<and> rule_enabled rule) (auto_rules s) of
              None \<Rightarrow> None
            | Some rule \<Rightarrow>
                if has_usage_component s f ord then None
                else (case estimated_monthly_cost env s ord of
                        Inl _ \<Rightarrow> None
                      | Inr monthly \<Rightarrow> if monthly > monthly_cost_limit rule then None else Some rule)))"

definition try_apply_project_auto_approval :: "env \<Rightarrow> nat \<Rightarrow> bool action" where
  "try_apply_project_auto_approval env pk = atomic (\<lambda>s.
     case find_order s pk of
       None \<Rightarrow> (Inr False, s)
     | Some ord \<Rightarrow>
         (if order_state ord \<noteq> PENDING_CONSUMER then (Inr False, s)
          else (ebind (get_offering (order_offering ord)) (\<lambda>f.
            ebind (eread (\<lambda>s. evaluate_auto_approval env s f ord)) (\<lambda>rule.
            case rule of
              None \<Rightarrow> ereturn False
            | Some rule0 \<Rightarrow> ebind (eread (\<lambda>s. first_row (\<lambda>x. rule_pk x = rule_pk rule0 \<and> rule_enabled x) (auto_rules s)))
                (\<lambda>locked. case locked of
                   None \<Rightarrow> ereturn False
                 | Some rule \<Rightarrow> ebind (get_project (rule_project rule)) (\<lambda>p.
                     ebind (eread (\<lambda>s. rule_creator_can_still_approve s p rule)) (\<lambda>allowed.
                     if \<not> allowed then ereturn False
                     else ebind (save_order (\<lambda>o' row. row\<lparr>auto_approved_by_rule := auto_approved_by_rule o',
                                   auto_approved_cost_limit_snapshot := auto_approved_cost_limit_snapshot o'\<rparr>) ord
                                 (ord\<lparr>auto_approved_by_rule := Some (rule_pk rule),
                                      auto_approved_cost_limit_snapshot := Some (monthly_cost_limit rule)\<rparr>)) (\<lambda>o1.
                          ebind (review_by_consumer (rule_created_by rule) o1 o1) (\<lambda>o2.
                          ethen (transition_order_from_consumer_approval o2 (rule_created_by rule))
                            (ereturn True))))))))) s))"

subsection \<open>Creation of an order\<close>

definition notify_approvers_when_order_is_created :: "order \<Rightarrow> order action" where
  "notify_approvers_when_order_is_created ord =
     ebind (eread skip_side_effects) (\<lambda>skip.
     if skip then ereturn ord
     else if order_state ord \<notin> {PENDING_CONSUMER, PENDING_PROVIDER} then ereturn ord
     else ebind (get_offering (order_offering ord)) (\<lambda>f.
     ebind (get_project (order_project ord)) (\<lambda>p.
     ebind (consumer_review_skipped f p ord) (\<lambda>skipped.
     if \<not> skipped then ethen (queue (NotifyConsumer (order_pk ord))) (ereturn ord)
     else ebind (if consumer_reviewed_by ord = None then review_by_consumer (created_by ord) ord ord else ereturn ord)
       (\<lambda>o1. ebind (eread (in_future (proj_start_date p))) (\<lambda>project_waits.
       if project_waits then put_state PENDING_PROJECT o1
       else ebind (provider_review_skipped f o1) (\<lambda>provider_skipped.
       if provider_skipped
       then ebind (set_state_executing o1) (\<lambda>o2. ebind (save_order all_fields o1 o2) (\<lambda>o3.
            ethen (\<lambda>s. queue (ProcessOrder (order_pk o3) (get_order_processing_user s o3)) s) (ereturn o3)))
       else ebind (put_state PENDING_PROVIDER o1) (\<lambda>o2.
            ethen (queue (NotifyProvider (order_pk o2))) (ereturn o2)))))))))"

definition maybe_auto_approve_order_for_project :: "order \<Rightarrow> unit action" where
  "maybe_auto_approve_order_for_project ord =
     ebind (eread skip_side_effects) (\<lambda>skip.
     if skip then ereturn ()
     else ewhen (order_state ord = PENDING_CONSUMER) (queue (TryAutoApproval (order_pk ord))))"

definition update_resource_state_on_order_creation :: "order \<Rightarrow> unit action" where
  "update_resource_state_on_order_creation ord =
     ebind (eread skip_side_effects) (\<lambda>skip.
     if skip then ereturn ()
     else if order_state ord \<in> set TERMINAL_STATES then ereturn ()
     else ebind (get_resource (order_resource ord)) (\<lambda>r.
     if res_state r = RES_ERRED then ereturn ()
     else if order_type ord = UPDATE \<and> res_state r \<noteq> RES_UPDATING
     then save_resource_state (resource_set_state_updating r)
     else ewhen (order_type ord = TERMINATE) (save_resource_state (resource_set_state_terminating r))))"

definition sync_resource_limit_when_order :: "order \<Rightarrow> unit action" where
  "sync_resource_limit_when_order ord =
     (if order_type ord \<noteq> CREATE then ereturn ()
      else ebind (get_resource (order_resource ord)) (\<lambda>r.
        ewhen (res_state r = RES_CREATING)
          (update_resource (order_resource ord) (\<lambda>row. row\<lparr>res_limits := order_limits ord,
             res_attributes := order_attributes ord, res_plan := order_plan ord\<rparr>))))"

text \<open>
  \<open>Order.objects.create(..)\<close>: the row is inserted and its creation handlers run in the order of
  their registration; each sees what the ones before it did to the object.  The resource takes
  the limits, attributes and plan once, in the outermost handler (the tracker of a new order makes
  the nested saves do the same copy earlier, with the same values).
\<close>

definition create_order :: "order \<Rightarrow> order action" where
  "create_order ord =
     ethen (ewrite (\<lambda>s. s\<lparr>orders := orders s @ [ord]\<rparr>))
      (ethen (log_order_events None ord)
        (ebind (notify_approvers_when_order_is_created ord) (\<lambda>moved.
          ethen (maybe_auto_approve_order_for_project moved)
            (ethen (update_resource_state_on_order_creation moved)
              (ethen (update_resource_state_on_order_rejection_error_or_cancellation None moved)
                (ethen (sync_resource_limit_when_order moved) (ereturn moved)))))))"

subsection \<open>Sweeps\<close>

definition process_pending_start_date_orders :: "unit action" where
  "process_pending_start_date_orders =
     ebind (eread (\<lambda>s. filter (\<lambda>ord. order_state ord = PENDING_START_DATE \<and>
        (case order_start_date ord of None \<Rightarrow> False | Some d \<Rightarrow> d \<le> today s)) (orders s))) (\<lambda>due.
     eiter (\<lambda>ord. ethen (execute ord)
       (\<lambda>s. queue (ProcessOrder (order_pk ord) (get_order_processing_user s ord)) s)) due)"

definition continue_order_processing :: "order \<Rightarrow> unit action" where
  "continue_order_processing ord =
     ebind (get_offering (order_offering ord)) (\<lambda>f.
     ebind (provider_review_skipped f ord) (\<lambda>skipped.
     if skipped
     then ebind (eread (in_future (order_start_date ord))) (\<lambda>waits.
          if waits then ethen (put_state PENDING_START_DATE ord) (ereturn ())
          else ethen (execute ord)
            (\<lambda>s. queue (ProcessOrder (order_pk ord) (get_order_processing_user s ord)) s))
     else ethen (put_state PENDING_PROVIDER ord) (queue (NotifyProvider (order_pk ord)))))"

definition process_pending_project_orders :: "unit action" where
  "process_pending_project_orders =
     ebind (eread (\<lambda>s. filter (\<lambda>ord. order_state ord = PENDING_PROJECT \<and>
        (case find_project s (order_project ord) of
           None \<Rightarrow> False
         | Some p \<Rightarrow> (case proj_start_date p of None \<Rightarrow> False | Some d \<Rightarrow> d \<le> today s))) (orders s)))
      (eiter continue_order_processing)"

text \<open>
  The time-out sweep: \<open>interruptible\<close> is the plugin registry's list and two hours are 7200 seconds.
  The handler of the order's save works on the same resource object the sweep then changes.
\<close>

definition mark_stale :: "order \<Rightarrow> unit action" where
  "mark_stale ord =
     ebind (fail ord) (\<lambda>failed.
     ethen (save_order (\<lambda>o' row. row\<lparr>order_state := order_state o', order_error_message := order_error_message o'\<rparr>)
              ord (failed\<lparr>order_error_message := ''Execution has timed out.''\<rparr>))
      (ebind (get_resource (order_resource ord)) (\<lambda>r.
        update_resource (res_pk r) (\<lambda>row. row\<lparr>res_state := RES_ERRED,
          res_backend_metadata := dict_set ''state'' (JStr ''Erred'') (res_backend_metadata r),
          res_scope := map_option (scope_erred_update (\<lambda>_. True)) (res_scope row)\<rparr>))))"

definition mark_resources_as_erred_after_timeout :: "string list \<Rightarrow> unit action" where
  "mark_resources_as_erred_after_timeout interruptible =
     ebind (eread (\<lambda>s. filter (\<lambda>ord. order_state ord = EXECUTING \<and> order_modified ord < now s - 7200 \<and>
        (case find_offering s (order_offering ord) of
           None \<Rightarrow> False | Some f \<Rightarrow> off_type f \<in> set interruptible)) (orders s)))
      (eiter mark_stale)"

end
