(* ===== verification/Order_Actions.thy ===== *)
theory Order_Actions
  imports Order_Approval
begin

text \<open>
  The order endpoints of \<^verbatim>\<open>src/waldur_mastermind/marketplace/views.py\<close> (\<open>OrderViewSet\<close>): approval,
  rejection, cancellation, the state reports of agents and the retry.  A request runs in one
  transaction (\<open>ActionsViewSet.dispatch\<close>), so an error response undoes its writes.  The checks of the
  caller's permission and of blocked organisations come before these handlers and are not modelled;
  the state and offering-type validators are.
\<close>

definition StateValidator :: "order_state list \<Rightarrow> order \<Rightarrow> unit action" where
  "StateValidator states ord = (if order_state ord \<in> set states then ereturn () else eraise IncorrectState)"

definition OfferingTypeValidator :: "string list \<Rightarrow> order \<Rightarrow> unit action" where
  "OfferingTypeValidator types ord = ebind (get_offering (order_offering ord)) (\<lambda>f.
     if off_type f \<in> set types then ereturn () else eraise MethodNotAllowed)"

subsection \<open>Approval\<close>

definition approve_by_consumer :: "nat \<Rightarrow> nat option \<Rightarrow> approval_outcome action" where
  "approve_by_consumer pk user = atomic (
     ebind (get_order pk) (\<lambda>ord.
     ethen (StateValidator [PENDING_CONSUMER] ord)
     (ebind (get_offering (order_offering ord)) (\<lambda>f.
     if order_type ord \<noteq> TERMINATE \<and> require_purchase_order_upload f \<and> \<not> has_attachment ord
     then eraise (ValidationError ''Purchase order is required for approval.'')
     else atomic (ebind (get_order pk) (\<lambda>locked.
       if order_state locked \<noteq> PENDING_CONSUMER
       then eraise (ValidationError ''Order is not pending consumer review.'')
       else ebind (review_by_consumer user locked locked) (\<lambda>reviewed.
         transition_order_from_consumer_approval reviewed user)))))))"

definition lock_order_pending_provider :: "nat \<Rightarrow> order action" where
  "lock_order_pending_provider pk = ebind (get_order pk) (\<lambda>ord.
     if order_state ord \<noteq> PENDING_PROVIDER then eraise IncorrectState else ereturn ord)"

text \<open>What follows once the provider's own attributes, if any, are stored.\<close>

definition finish_provider_approval :: "nat option \<Rightarrow> order \<Rightarrow> approval_outcome action" where
  "finish_provider_approval user ord =
     ebind (review_by_provider user ord) (\<lambda>reviewed.
     ebind (eread (\<lambda>s. ENABLE_ORDER_START_DATE s \<and> in_future (order_start_date reviewed) s)) (\<lambda>order_waits.
     if order_waits then ethen (put_state PENDING_START_DATE reviewed) (ereturn Pending_start_date)
     else ethen (execute reviewed)
            (ethen (queue (ProcessOrder (order_pk reviewed) user)) (ereturn Executing))))"

text \<open>A request that brings no attributes of the provider's own.\<close>

definition approve_by_provider :: "nat \<Rightarrow> nat option \<Rightarrow> approval_outcome action" where
  "approve_by_provider pk user = atomic (ebind (lock_order_pending_provider pk) (finish_provider_approval user))"

subsection \<open>Rejection and cancellation\<close>

record error_details =
  ed_message :: string
  ed_traceback :: string
  ed_comment :: string

definition reject_by_consumer :: "nat \<Rightarrow> nat option \<Rightarrow> error_details \<Rightarrow> unit action" where
  "reject_by_consumer pk user details = atomic (
     ebind (get_order pk) (\<lambda>ord.
     ethen (StateValidator [PENDING_CONSUMER] ord)
     (ebind (get_offering (order_offering ord)) (\<lambda>f.
     ebind (get_project (order_project ord)) (\<lambda>p.
     ebind (consumer_review_skipped f p ord) (\<lambda>skipped.
     if skipped then eraise (ValidationError ''Review of order by consumer is not required.'')
     else if consumer_reviewed_by ord \<noteq> None
     then eraise (ValidationError ''Order is already reviewed by consumer.'')
     else ebind (review_by_consumer user ord (ord\<lparr>order_error_message := ed_message details,
            order_error_traceback := ed_traceback details, consumer_rejection_comment := ed_comment details\<rparr>))
        (\<lambda>reviewed. ebind (reject reviewed) (\<lambda>rejected.
          ethen (save_order all_fields reviewed rejected) (ereturn ())))))))))"

definition reject_by_provider :: "nat \<Rightarrow> nat option \<Rightarrow> string \<Rightarrow> unit action" where
  "reject_by_provider pk user comment = atomic (
     ebind (lock_order_pending_provider pk) (\<lambda>ord.
     ebind (review_by_provider user (ord\<lparr>provider_rejection_comment := comment\<rparr>)) (\<lambda>reviewed.
     ebind (reject reviewed) (\<lambda>rejected. ethen (save_order all_fields reviewed rejected) (ereturn ())))))"

definition cancel_order :: "nat \<Rightarrow> unit action" where
  "cancel_order pk = atomic (
     ebind (get_order pk) (\<lambda>ord.
     ethen (StateValidator [PENDING_CONSUMER, PENDING_PROVIDER, PENDING_START_DATE, EXECUTING] ord)
     (ethen (OfferingTypeValidator [BASIC_OFFERING, SUPPORT_OFFERING] ord)
     (ebind (cancel None ord) (\<lambda>canceled. ethen (save_order only_state ord canceled) (ereturn ()))))))"

subsection \<open>Reports of an agent\<close>

definition report_executing :: "nat \<Rightarrow> unit action" where
  "report_executing pk = atomic (
     ebind (get_order pk) (\<lambda>ord.
     ethen (StateValidator [PENDING_CONSUMER, PENDING_PROVIDER, ERRED] ord)
     (ethen (OfferingTypeValidator [SITE_AGENT_OFFERING] ord)
     (ethen (execute ord) (ereturn ())))))"

definition report_done :: "env \<Rightarrow> nat \<Rightarrow> unit action" where
  "report_done env pk = atomic (
     ebind (get_order pk) (\<lambda>ord.
     ethen (StateValidator [EXECUTING] ord)
     (ethen (OfferingTypeValidator [SITE_AGENT_OFFERING, BASIC_OFFERING, SUPPORT_OFFERING] ord)
     (sync_order_state env ord DONE))))"

definition RESOURCE_FAILURE_EVENTS :: "(order_type, resource_event) dict" where
  "RESOURCE_FAILURE_EVENTS = [(CREATE, CREATE_FAILED), (UPDATE, UPDATE_FAILED), (TERMINATE, TERMINATE_FAILED)]"

definition emit_resource_failure_event :: "order \<Rightarrow> resource \<Rightarrow> unit action" where
  "emit_resource_failure_event ord r =
     (case map_of RESOURCE_FAILURE_EVENTS (order_type ord) of
        None \<Rightarrow> ereturn () | Some ev \<Rightarrow> emit (ResourceEvent ev (res_pk r)))"

definition state_and_errors :: "order \<Rightarrow> order \<Rightarrow> order" where
  "state_and_errors ord row = row\<lparr>order_state := order_state ord,
     order_error_message := order_error_message ord, order_error_traceback := order_error_traceback ord\<rparr>"

definition report_erred :: "nat \<Rightarrow> error_details \<Rightarrow> unit action" where
  "report_erred pk details = atomic (
     ebind (get_order pk) (\<lambda>ord.
     ethen (OfferingTypeValidator [SITE_AGENT_OFFERING] ord)
     (ebind (set_state_erred ord) (\<lambda>erred.
     ebind (save_order state_and_errors ord (erred\<lparr>order_error_message := ed_message details,
              order_error_traceback := ed_traceback details\<rparr>)) (\<lambda>saved.
     ebind (get_resource (order_resource saved)) (\<lambda>r.
     ethen (if order_type saved = TERMINATE then ok_unless_ok r
            else ewhen (res_state r \<notin> {RES_ERRED, RES_TERMINATED})
                   (save_resource_state (resource_set_state_erred r)))
       (emit_resource_failure_event saved r)))))))"

subsection \<open>Retry\<close>

definition retry_resource :: "order \<Rightarrow> resource \<Rightarrow> (order_error, resource) result" where
  "retry_resource ord r =
     (case order_type ord of
        CREATE \<Rightarrow> (case resource_set_state_creating r of
                     Inl _ \<Rightarrow> Inl (ValidationError ''Cannot retry: resource state does not allow transition.'')
                   | Inr r' \<Rightarrow> Inr r')
      | UPDATE \<Rightarrow> Inr (resource_set_state_updating r)
      | TERMINATE \<Rightarrow> Inr (resource_set_state_terminating r)
      | RESTORE \<Rightarrow> Inl (ValidationError ''Retry is not supported for this type of orders.''))"

definition retry :: "string list \<Rightarrow> nat \<Rightarrow> nat option \<Rightarrow> unit action" where
  "retry retryable_types pk user = atomic (
     ebind (get_order pk) (\<lambda>ord.
     ethen (StateValidator [ERRED] ord)
     (ethen (OfferingTypeValidator retryable_types ord)
     (ethen (atomic (
        ebind (get_order pk) (\<lambda>locked.
        if order_state locked \<noteq> ERRED then eraise (ValidationError ''Order must be in erred state to retry.'')
        else ebind (get_resource (order_resource locked)) (\<lambda>r.
          ebind (elift (retry_resource locked r)) (\<lambda>r1.
          ethen (update_resource (res_pk r) (\<lambda>row. row\<lparr>res_state := res_state r1,
                   res_error_message := [], res_error_traceback := []\<rparr>))
          (ebind (set_state_executing locked) (\<lambda>o1.
             save_order (\<lambda>o' row. (state_and_errors o' row)\<lparr>completed_at := completed_at o'\<rparr>) locked
               (o1\<lparr>order_error_message := [], order_error_traceback := [], completed_at := None\<rparr>))))))))
       (queue (ProcessOrder pk user))))))"

end
