(* ===== verification/Order_Facts.thy ===== *)
theory Order_Facts
  imports Order_Actions
begin

text \<open>
  What the building blocks of the order workflow do to the state, as equations: lookups after an
  update, one save, one transition, and the move of the order behind a callback.  Order keys and
  resource keys are unique (\<open>keys_unique\<close>), as primary keys are.
\<close>

named_theorems order_run \<open>effect of one step of the workflow\<close>

definition keys_unique :: "market \<Rightarrow> bool" where
  "keys_unique s \<longleftrightarrow> distinct (map order_pk (orders s)) \<and> distinct (map res_pk (resources s))"

subsection \<open>Lookups\<close>

lemma first_row_update_key:
  assumes "\<And>r. key (f r) = key r"
  shows "first_row (\<lambda>r. key r = k) (update_rows (\<lambda>r. key r = j) f rows) =
    map_option (\<lambda>r. if k = j then f r else r) (first_row (\<lambda>r. key r = k) rows)"
  by (induction rows) (auto simp: assms)

lemma find_order_update:
  assumes "\<And>r. order_pk r = j \<Longrightarrow> order_pk (f r) = j"
  shows "find_order (s\<lparr>orders := update_rows (\<lambda>r. order_pk r = j) f (orders s)\<rparr>) k =
    map_option (\<lambda>r. if k = j then f r else r) (find_order s k)"
proof -
  have "first_row (\<lambda>r. order_pk r = k) (update_rows (\<lambda>r. order_pk r = j) f rows) =
      map_option (\<lambda>r. if k = j then f r else r) (first_row (\<lambda>r. order_pk r = k) rows)" for rows
    by (induction rows) (auto simp: assms)
  then show ?thesis by (simp add: find_order_def)
qed

lemma find_resource_update:
  assumes "\<And>r. res_pk r = j \<Longrightarrow> res_pk (f r) = j"
  shows "find_resource (s\<lparr>resources := update_rows (\<lambda>r. res_pk r = j) f (resources s)\<rparr>) k =
    map_option (\<lambda>r. if k = j then f r else r) (find_resource s k)"
proof -
  have "first_row (\<lambda>r. res_pk r = k) (update_rows (\<lambda>r. res_pk r = j) f rows) =
      map_option (\<lambda>r. if k = j then f r else r) (first_row (\<lambda>r. res_pk r = k) rows)" for rows
    by (induction rows) (auto simp: assms)
  then show ?thesis by (simp add: find_resource_def)
qed

lemma find_resource_pk: "find_resource s k = Some r \<Longrightarrow> res_pk r = k"
  by (auto simp: find_resource_def dest: first_row_Some)

lemma find_order_pk: "find_order s k = Some ord \<Longrightarrow> order_pk ord = k"
  by (auto simp: find_order_def dest: first_row_Some)

lemma find_simps [simp]:
  "find_order (s\<lparr>resources := x\<rparr>) = find_order s" "find_order (s\<lparr>notices := n\<rparr>) = find_order s"
  "find_order (s\<lparr>tasks := q\<rparr>) = find_order s" "find_order (s\<lparr>api_keys := a\<rparr>) = find_order s"
  "find_resource (s\<lparr>orders := y\<rparr>) = find_resource s" "find_resource (s\<lparr>notices := n\<rparr>) = find_resource s"
  "find_resource (s\<lparr>tasks := q\<rparr>) = find_resource s" "find_resource (s\<lparr>api_keys := a\<rparr>) = find_resource s"
  "find_offering (s\<lparr>orders := y\<rparr>) = find_offering s" "find_offering (s\<lparr>resources := x\<rparr>) = find_offering s"
  "find_offering (s\<lparr>notices := n\<rparr>) = find_offering s" "find_offering (s\<lparr>tasks := q\<rparr>) = find_offering s"
  "find_project (s\<lparr>orders := y\<rparr>) = find_project s" "find_project (s\<lparr>resources := x\<rparr>) = find_project s"
  "find_project (s\<lparr>notices := n\<rparr>) = find_project s" "find_project (s\<lparr>tasks := q\<rparr>) = find_project s"
  "find_plan (s\<lparr>orders := y\<rparr>) = find_plan s" "find_plan (s\<lparr>resources := x\<rparr>) = find_plan s"
  "find_plan (s\<lparr>notices := n\<rparr>) = find_plan s" "find_plan (s\<lparr>tasks := q\<rparr>) = find_plan s"
  by (simp_all add: fun_eq_iff find_order_def find_resource_def find_offering_def find_project_def find_plan_def)

lemma update_rows_twice:
  assumes "\<And>r. key r = k \<Longrightarrow> key (g r) = k"
  shows "update_rows (\<lambda>r. key r = k) f (update_rows (\<lambda>r. key r = k) g rows) =
    update_rows (\<lambda>r. key r = k) (\<lambda>r. f (g r)) rows"
  by (induction rows) (auto simp: assms)

lemma get_run [order_run]:
  "get_order pk s = (found (find_order s pk), s)" "get_resource pk s = (found (find_resource s pk), s)"
  "get_offering pk s = (found (find_offering s pk), s)" "get_project pk s = (found (find_project s pk), s)"
  "emit n s = (Inr (), s\<lparr>notices := notices s @ [n]\<rparr>)" "queue t s = (Inr (), s\<lparr>tasks := tasks s @ [t]\<rparr>)"
  "update_resource pk f s = (Inr (), s\<lparr>resources := update_rows (\<lambda>r. res_pk r = pk) f (resources s)\<rparr>)"
  "update_order pk g s = (Inr (), s\<lparr>orders := update_rows (\<lambda>ord. order_pk ord = pk) g (orders s)\<rparr>)"
  by (simp_all add: get_order_def get_resource_def get_offering_def get_project_def emit_def queue_def
      update_resource_def update_order_def)

lemma found_Some [simp]: "found (Some x) = Inr x" and found_None [simp]: "found None = Inl DoesNotExist"
  by (simp_all add: found_def)

lemmas run_simps = order_run ebind_run ethen_run

subsection \<open>Handlers and saves\<close>

text \<open>The resource state the handlers leave when an order moves to a new state.\<close>

definition handler_state :: "order_type \<Rightarrow> order_state \<Rightarrow> resource \<Rightarrow> resource_state option" where
  "handler_state ty st r =
     (if st \<in> {REJECTED, CANCELED}
      then (if ty \<in> {CREATE, RESTORE} then Some RES_TERMINATED
            else if res_state r = RES_TERMINATED then None else Some RES_OK)
      else if st = ERRED \<and> res_state r = RES_CREATING
      then Some (if res_backend_id r = [] then RES_TERMINATED else RES_ERRED)
      else Some (res_state r))"

definition with_res_state :: "nat \<Rightarrow> resource_state \<Rightarrow> market \<Rightarrow> market" where
  "with_res_state pk st s =
     s\<lparr>resources := update_rows (\<lambda>r. res_pk r = pk) (res_state_update (\<lambda>_. st)) (resources s)\<rparr>"

definition with_notice :: "notice \<Rightarrow> market \<Rightarrow> market" where
  "with_notice n s = s\<lparr>notices := notices s @ [n]\<rparr>"

definition order_event_of :: "order_state \<Rightarrow> order_event option" where
  "order_event_of st = map_of ORDER_STATE_HANDLERS st"

definition logged :: "order_state \<Rightarrow> nat \<Rightarrow> market \<Rightarrow> market" where
  "logged st pk s = (case order_event_of st of None \<Rightarrow> s | Some ev \<Rightarrow> with_notice (OrderEvent ev pk) s)"

lemma logged_frame [simp]:
  "orders (logged st pk s) = orders s" "resources (logged st pk s) = resources s"
  "tasks (logged st pk s) = tasks s" "api_keys (logged st pk s) = api_keys s" "now (logged st pk s) = now s"
  "today (logged st pk s) = today s"
  "find_order (logged st pk s) = find_order s" "find_resource (logged st pk s) = find_resource s"
  "find_offering (logged st pk s) = find_offering s" "find_project (logged st pk s) = find_project s"
  by (simp_all add: logged_def with_notice_def split: option.split)

lemma order_saved_same: "order_saved (Some (order_state ord)) ord s = (Inr (), s)"
  by (simp add: order_saved_def log_order_events_def notify_user_about_rejected_order_def
      update_resource_state_on_order_rejection_error_or_cancellation_def ethen_run)

lemma with_res_state_same:
  assumes "distinct (map res_pk (resources s))" and "find_resource s k = Some r"
  shows "with_res_state k (res_state r) s = s"
proof -
  have "update_rows (\<lambda>x. res_pk x = k) (res_state_update (\<lambda>_. res_state r)) (resources s) = resources s"
    unfolding update_rows_def
  proof (rule map_idI)
    fix x assume x: "x \<in> set (resources s)"
    have "r \<in> set (resources s)" "res_pk r = k"
      using assms(2) first_row_Some [of _ "resources s" r] unfolding find_resource_def by blast+
    then have "res_pk x = k \<Longrightarrow> x = r" using distinct_key_eq [OF assms(1) x] by simp
    then show "(if res_pk x = k then x\<lparr>res_state := res_state r\<rparr> else x) = x" by auto
  qed
  then show ?thesis by (simp add: with_res_state_def)
qed

lemma handler_run:
  assumes "find_resource s (order_resource ord) = Some r" and "distinct (map res_pk (resources s))"
    and "previous \<noteq> Some (order_state ord)" and "handler_state (order_type ord) (order_state ord) r = Some st"
  shows "update_resource_state_on_order_rejection_error_or_cancellation previous ord s =
    (Inr (), with_res_state (order_resource ord) st s)"
proof -
  have pk: "res_pk r = order_resource ord" using find_resource_pk [OF assms(1)] .
  have same: "with_res_state (order_resource ord) (res_state r) s = s"
    by (rule with_res_state_same [OF assms(2,1)])
  have save: "save_resource_state (r\<lparr>res_state := x\<rparr>) s = (Inr (), with_res_state (order_resource ord) x s)" for x
    by (simp add: save_resource_state_def get_run pk with_res_state_def)
  show ?thesis
    using assms(1,3,4) same save
    by (cases "res_state r")
      (auto simp: update_resource_state_on_order_rejection_error_or_cancellation_def run_simps handler_state_def
        resource_set_state_ok_def resource_set_state_terminated_def resource_set_state_erred_def
        split: if_splits)
qed

lemma handler_refuses:
  assumes "find_resource s (order_resource ord) = Some r"
    and "previous \<noteq> Some (order_state ord)" and "handler_state (order_type ord) (order_state ord) r = None"
  shows "update_resource_state_on_order_rejection_error_or_cancellation previous ord s = (Inl TransitionNotAllowed, s)"
  using assms
  by (auto simp: update_resource_state_on_order_rejection_error_or_cancellation_def run_simps handler_state_def
      resource_set_state_ok_def split: if_splits)

lemma log_run:
  "previous \<noteq> None \<Longrightarrow> previous \<noteq> Some (order_state ord) \<Longrightarrow>
   log_order_events previous ord s = (Inr (), logged (order_state ord) (order_pk ord) s)"
  by (auto simp: log_order_events_def logged_def order_event_of_def get_run with_notice_def split: option.split)

lemma notify_run:
  "order_state ord \<noteq> REJECTED \<or> completed_at ord \<noteq> None \<Longrightarrow>
   notify_user_about_rejected_order previous ord s = (Inr (), s)"
  by (auto simp: notify_user_about_rejected_order_def)

lemma order_saved_run:
  assumes "find_resource s (order_resource ord) = Some r" and "distinct (map res_pk (resources s))"
    and "previous \<noteq> order_state ord" and "handler_state (order_type ord) (order_state ord) r = Some st"
    and "order_state ord \<noteq> REJECTED \<or> completed_at ord \<noteq> None"
  shows "order_saved (Some previous) ord s =
    (Inr (), with_res_state (order_resource ord) st (logged (order_state ord) (order_pk ord) s))"
  using assms handler_run [of "logged (order_state ord) (order_pk ord) s" ord r "Some previous" st]
  by (simp add: order_saved_def ethen_run log_run notify_run)

lemma save_order_run:
  assumes "\<not> error_changed loaded ord"
    and "order_saved (Some (order_state loaded)) ord
      (s\<lparr>orders := update_rows (\<lambda>x. order_pk x = order_pk ord) (\<lambda>row. (copy ord row)\<lparr>order_modified := now s\<rparr>) (orders s)\<rparr>) =
      (Inr (), t)"
  shows "save_order copy loaded ord s = (Inr ord, t)"
  using assms by (simp add: save_order_def run_simps)

definition put_row :: "order \<Rightarrow> market \<Rightarrow> market" where
  "put_row ord s = s\<lparr>orders := update_rows (\<lambda>x. order_pk x = order_pk ord)
     (\<lambda>_. ord\<lparr>order_modified := now s\<rparr>) (orders s)\<rparr>"

lemma put_row_frame [simp]:
  "resources (put_row ord s) = resources s" "tasks (put_row ord s) = tasks s" "notices (put_row ord s) = notices s"
  "api_keys (put_row ord s) = api_keys s" "now (put_row ord s) = now s" "today (put_row ord s) = today s"
  "find_resource (put_row ord s) = find_resource s" "find_offering (put_row ord s) = find_offering s"
  "find_project (put_row ord s) = find_project s" "find_plan (put_row ord s) = find_plan s"
  by (simp_all add: put_row_def)

lemma put_row_again: "order_pk b = order_pk a \<Longrightarrow> put_row b (put_row a s) = put_row b s"
  by (simp add: put_row_def update_rows_twice [where key = order_pk])

lemma save_same_state:
  assumes "\<not> error_changed loaded ord" and "order_state loaded = order_state ord"
  shows "save_order all_fields loaded ord s = (Inr ord, put_row ord s)"
  using assms by (intro save_order_run) (simp_all add: order_saved_same all_fields_def put_row_def)

lemma completed_run: "set_completed_at_timestamp ord s = (Inr (ord\<lparr>completed_at := Some (now s)\<rparr>),
    put_row (ord\<lparr>completed_at := Some (now s)\<rparr>) s)"
  by (simp add: set_completed_at_timestamp_def run_simps save_same_state error_changed_def)

text \<open>Saving only the state after the object was saved in full is saving it in full.\<close>

lemma put_row_only_state:
  assumes "order_pk b = order_pk a" and "order_state_update (\<lambda>_. order_state b) a = b"
  shows "(put_row a s)\<lparr>orders := update_rows (\<lambda>x. order_pk x = order_pk b)
     (\<lambda>row. (only_state b row)\<lparr>order_modified := now s\<rparr>) (orders (put_row a s))\<rparr> = put_row b s"
  using assms by (simp add: put_row_def update_rows_twice [where key = order_pk] only_state_def)

lemma update_rows_of_row:
  assumes "distinct (map order_pk (orders s))" and "ord \<in> set (orders s)" and "f ord = g ord"
  shows "update_rows (\<lambda>x. order_pk x = order_pk ord) f (orders s) =
    update_rows (\<lambda>x. order_pk x = order_pk ord) g (orders s)"
  unfolding update_rows_def
proof (rule map_cong [OF refl])
  fix x assume x: "x \<in> set (orders s)"
  have "order_pk x = order_pk ord \<Longrightarrow> x = ord" using distinct_key_eq [OF assms(1) x assms(2)] by simp
  then show "(if order_pk x = order_pk ord then f x else x) = (if order_pk x = order_pk ord then g x else x)"
    using assms(3) by auto
qed

lemma put_row_state_of_row:
  assumes "distinct (map order_pk (orders s))" and "ord \<in> set (orders s)"
  shows "s\<lparr>orders := update_rows (\<lambda>x. order_pk x = order_pk ord)
      (\<lambda>row. (only_state (ord\<lparr>order_state := st\<rparr>) row)\<lparr>order_modified := now s\<rparr>) (orders s)\<rparr> =
    put_row (ord\<lparr>order_state := st\<rparr>) s"
  unfolding put_row_def
  using update_rows_of_row [OF assms, where
      f = "\<lambda>row. (only_state (ord\<lparr>order_state := st\<rparr>) row)\<lparr>order_modified := now s\<rparr>" and
      g = "\<lambda>_. ord\<lparr>order_state := st, order_modified := now s\<rparr>"]
  by (simp add: only_state_def)

subsection \<open>The order behind a callback\<close>

definition moved :: "order_state \<Rightarrow> timestamp \<Rightarrow> order \<Rightarrow> order" where
  "moved st t ord = (if st = ERRED then ord\<lparr>order_state := ERRED\<rparr>
     else ord\<lparr>completed_at := Some t, order_state := st\<rparr>)"

lemma moved_simps [simp]:
  "order_pk (moved st t ord) = order_pk ord" "order_type (moved st t ord) = order_type ord"
  "order_resource (moved st t ord) = order_resource ord" "order_plan (moved st t ord) = order_plan ord"
  "order_limits (moved st t ord) = order_limits ord" "order_attributes (moved st t ord) = order_attributes ord"
  "created_by (moved st t ord) = created_by ord"
  "consumer_reviewed_by (moved st t ord) = consumer_reviewed_by ord"
  "order_offering (moved st t ord) = order_offering ord"
  "st \<noteq> ERRED \<Longrightarrow> completed_at (moved st t ord) = Some t" "order_state (moved st t ord) = st"
  "error_changed ord (moved st t ord) = False"
  by (simp_all add: moved_def error_changed_def)

lemma executing_single:
  assumes "executing_orders s res ty = [ord]"
  shows "ord \<in> set (orders s)" "order_resource ord = res" "order_type ord = ty" "order_state ord = EXECUTING"
proof -
  have "ord \<in> set (executing_orders s res ty)" using assms by simp
  then show "ord \<in> set (orders s)" "order_resource ord = res" "order_type ord = ty" "order_state ord = EXECUTING"
    by (simp_all add: executing_orders_def)
qed

lemma transition_run:
  assumes "order_state ord = EXECUTING" and "st \<in> {DONE, ERRED, CANCELED}"
  shows "\<exists>tr. OrderStateRouter st = Some tr \<and> tr ord s = (Inr (moved st (now s) ord),
    if st = ERRED then s else put_row (ord\<lparr>completed_at := Some (now s)\<rparr>) s)"
  using assms
  by (auto simp: OrderStateRouter_def complete_def cancel_def set_state_erred_def run_simps completed_run moved_def)

lemma move_saved:
  assumes k: "keys_unique s" and o: "ord \<in> set (orders s)" "order_state ord = EXECUTING"
    and r: "find_resource s (order_resource ord) = Some r" and st: "st \<in> {DONE, ERRED, CANCELED}"
    and h: "handler_state (order_type ord) st r = Some rs"
  shows "save_order only_state ord (moved st (now s) ord)
      (if st = ERRED then s else put_row (ord\<lparr>completed_at := Some (now s)\<rparr>) s) =
    (Inr (moved st (now s) ord),
     with_res_state (order_resource ord) rs (logged st (order_pk ord) (put_row (moved st (now s) ord) s)))"
proof (rule save_order_run)
  let ?m = "moved st (now s) ord"
  let ?u = "if st = ERRED then s else put_row (ord\<lparr>completed_at := Some (now s)\<rparr>) s"
  show "\<not> error_changed ord ?m" by simp
  have d: "distinct (map order_pk (orders s))" "distinct (map res_pk (resources s))"
    using k by (simp_all add: keys_unique_def)
  have rows: "?u\<lparr>orders := update_rows (\<lambda>x. order_pk x = order_pk ?m)
      (\<lambda>row. (only_state ?m row)\<lparr>order_modified := now ?u\<rparr>) (orders ?u)\<rparr> = put_row ?m s"
  proof (cases "st = ERRED")
    case True
    then show ?thesis using put_row_state_of_row [OF d(1) o(1), of ERRED] by (simp add: moved_def)
  next
    case False
    show ?thesis
      using put_row_only_state [of ?m "ord\<lparr>completed_at := Some (now s)\<rparr>" s] False
      by (simp add: moved_def)
  qed
  have "order_saved (Some (order_state ord)) ?m (put_row ?m s) =
      (Inr (), with_res_state (order_resource ord) rs (logged st (order_pk ord) (put_row ?m s)))"
    using order_saved_run [of "put_row ?m s" ?m r "order_state ord" rs] r d(2) o(2) st h
    by (auto simp: moved_def)
  then show "order_saved (Some (order_state ord)) ?m (?u\<lparr>orders := update_rows (\<lambda>x. order_pk x = order_pk ?m)
      (\<lambda>row. (only_state ?m row)\<lparr>order_modified := now ?u\<rparr>) (orders ?u)\<rparr>) =
      (Inr (), with_res_state (order_resource ord) rs (logged st (order_pk ord) (put_row ?m s)))"
    unfolding rows .
qed

lemma set_order_state_run:
  assumes "keys_unique s" and "executing_orders s res ty = [ord]" and "find_resource s res = Some r"
    and "st \<in> {DONE, ERRED, CANCELED}" and "handler_state ty st r = Some rs"
  shows "set_order_state res ty st v s = (Inr (Some (moved st (now s) ord)),
    with_res_state res rs (logged st (order_pk ord) (put_row (moved st (now s) ord) s)))"
proof -
  note e = executing_single [OF assms(2)]
  obtain tr where tr: "OrderStateRouter st = Some tr" "tr ord s = (Inr (moved st (now s) ord),
      if st = ERRED then s else put_row (ord\<lparr>completed_at := Some (now s)\<rparr>) s)"
    using transition_run [OF e(4) assms(4)] by blast
  have "save_order only_state ord (moved st (now s) ord)
      (if st = ERRED then s else put_row (ord\<lparr>completed_at := Some (now s)\<rparr>) s) =
    (Inr (moved st (now s) ord),
     with_res_state res rs (logged st (order_pk ord) (put_row (moved st (now s) ord) s)))"
    using move_saved [OF assms(1) e(1,4), of r st rs] assms(3-5) e(2,3) by simp
  then show ?thesis
    by (simp add: set_order_state_def run_simps assms(2) tr del: if_split)
qed

text \<open>Without exactly one executing order the call leaves the state alone.\<close>

lemma set_order_state_missing:
  assumes "length (executing_orders s res ty) \<noteq> 1"
  shows "\<exists>e. set_order_state res ty st v s = (if v then (Inl (ValidationError e), s) else (Inr None, s))"
proof (cases "executing_orders s res ty")
  case Nil
  then show ?thesis by (auto simp: set_order_state_def run_simps)
next
  case (Cons a l)
  with assms obtain b m where "l = b # m" by (cases l) auto
  with Cons show ?thesis by (auto simp: set_order_state_def run_simps)
qed

end
