(* ===== verification/Order_Outcome.thy ===== *)
theory Order_Outcome
  imports Order_Facts
begin


text \<open>
  \<open>settles s ord st rs t\<close>: in \<open>t\<close> the order is in state \<open>st\<close>, stamped when it is done or canceled, its
  resource is in state \<open>rs\<close> and otherwise as it was, and no other order or resource differs from \<open>s\<close>.
\<close>

definition settles :: "market \<Rightarrow> order \<Rightarrow> order_state \<Rightarrow> resource_state \<Rightarrow> market \<Rightarrow> bool" where
  "settles s ord st rs t \<longleftrightarrow>
     (\<exists>row. find_order t (order_pk ord) = Some row \<and> order_state row = st \<and>
        (st \<noteq> ERRED \<longrightarrow> completed_at row = Some (now s)) \<and> order_type row = order_type ord \<and>
        order_resource row = order_resource ord) \<and>
     (\<forall>k. k \<noteq> order_pk ord \<longrightarrow> find_order t k = find_order s k) \<and>
     (\<forall>k. find_resource t k = map_option (\<lambda>r. if k = order_resource ord then r\<lparr>res_state := rs\<rparr> else r)
        (find_resource s k))"

lemma find_order_put_row:
  "find_order (put_row ord s) k =
     map_option (\<lambda>r. if k = order_pk ord then ord\<lparr>order_modified := now s\<rparr> else r) (find_order s k)"
  unfolding put_row_def by (subst find_order_update) auto

lemma find_with_res_state [simp]:
  "find_order (with_res_state pk st s) = find_order s"
  "find_resource (with_res_state pk st s) k =
     map_option (\<lambda>r. if k = pk then r\<lparr>res_state := st\<rparr> else r) (find_resource s k)"
  by (simp_all add: with_res_state_def find_resource_update)

lemma row_found:
  assumes "keys_unique s" and "ord \<in> set (orders s)"
  shows "find_order s (order_pk ord) = Some ord"
  using first_row_key [of order_pk "orders s" ord] assms by (simp add: keys_unique_def find_order_def)

lemma settles_move:
  assumes "keys_unique s" and "ord \<in> set (orders s)"
  shows "settles s ord st rs
    (with_res_state (order_resource ord) rs (logged st (order_pk ord) (put_row (moved st (now s) ord) s)))"
  using row_found [OF assms] by (auto simp: settles_def find_order_put_row option.map_ident)

lemma settles_state:
  "settles s ord st rs t \<Longrightarrow> settles s ord st x (with_res_state (order_resource ord) x t)"
  by (auto simp: settles_def option.map_comp o_def intro!: option.map_cong0)

lemma settles_frame:
  assumes "settles s ord st rs t" and "find_order u = find_order t" and "find_resource u = find_resource t"
  shows "settles s ord st rs u"
  using assms by (simp add: settles_def)

lemma save_state_run:
  "save_resource_state (r\<lparr>res_state := x\<rparr>) s = (Inr (), with_res_state (res_pk r) x s)"
  by (simp add: save_resource_state_def get_run with_res_state_def)



lemma erred_run:
  "save_resource_state (resource_set_state_erred r) s = (Inr (), with_res_state (res_pk r) RES_ERRED s)"
  by (simp add: resource_set_state_erred_def save_state_run)

text \<open>Copying the error of the backend object changes nothing but the error fields of that order.\<close>

lemma copy_error_run:
  assumes "settles s ord st rs t" and "order_pk o' = order_pk ord"
  shows "\<exists>u. copy_error r (Some o') t = (Inr (), u) \<and> settles s ord st rs u"
proof -
  obtain m b where sc: "(case res_scope r of None \<Rightarrow> ([], [])
      | Some sc \<Rightarrow> (scope_error_message sc, scope_error_traceback sc)) = (m, b)"
    by (rule prod.exhaust)
  let ?c = "o'\<lparr>order_error_message := m, order_error_traceback := b\<rparr>"
  let ?f = "\<lambda>row. row\<lparr>order_error_message := m, order_error_traceback := b,
    error_updated_at := Some (now t), order_modified := now t\<rparr>"
  let ?u = "t\<lparr>orders := update_rows (\<lambda>x. order_pk x = order_pk o') ?f (orders t)\<rparr>"
  show ?thesis
  proof (cases "error_changed o' ?c")
    case False
    then have "copy_error r (Some o') t = (Inr (), t)"
      by (simp add: copy_error_def copy_error_from_resource_to_order_def sc)
    then show ?thesis using assms(1) by blast
  next
    case True
    have saved: "order_saved (Some (order_state o')) (?c\<lparr>error_updated_at := x\<rparr>) w = (Inr (), w)" for x w
      using order_saved_same [of "?c\<lparr>error_updated_at := x\<rparr>" w] by simp
    have "copy_error r (Some o') t = (Inr (), ?u)"
      using True saved
      by (simp add: copy_error_def copy_error_from_resource_to_order_def sc save_order_def run_simps Let_def)
    moreover have "settles s ord st rs ?u"
    proof -
      have "find_order ?u k = map_option (\<lambda>x. if k = order_pk o' then ?f x else x) (find_order t k)" for k
        by (rule find_order_update) simp
      then show ?thesis using assms unfolding settles_def by (auto simp: option.map_ident)
    qed
    ultimately show ?thesis by blast
  qed
qed

lemmas settle_rules = settles_move settles_state settles_frame


subsection \<open>The other callbacks\<close>





lemma after_erred:
  assumes "settles s ord st rs t" and "res_pk r = order_resource ord" and "order_pk o' = order_pk ord"
  shows "\<exists>u. ethen (save_resource_state (resource_set_state_erred r)) (copy_error r (Some o')) t = (Inr (), u) \<and>
    settles s ord st RES_ERRED u"
  using copy_error_run [OF settles_state [OF assms(1), of RES_ERRED] assms(3), of r] assms(2)
  by (simp add: ethen_run erred_run)



lemma ethen_assoc: "ethen (ethen a b) c = ethen a (ethen b c)"
  by (rule ext) (auto simp: ethen_run split: prod.split sum.split)





end
