(* ===== verification/Order_Update.thy ===== *)
theory Order_Update
  imports Order_Outcome
begin

text \<open>
  The successful update: \<open>resource_update_succeeded\<close> applies the whole order, its plan, limits,
  options and end date, and prices the result, or changes nothing.
\<close>

subsection \<open>The parts of an update\<close>

lemma update_options_parts:
  "update_options env d ord r = Inr r' \<Longrightarrow> r' = r\<lparr>res_options := res_options r'\<rparr>"
  by (auto simp: update_options_def apply_new_options_def Let_def split: if_splits json.splits)

lemma update_end_date_parts:
  assumes "update_end_date ord r = Inr r'"
  shows "\<exists>d. parse_date (get_value (order_attributes ord) ''new_end_date'') = Inr d \<and>
    res_end_date r' = (if d = None then res_end_date r else d) \<and>
    r' = r\<lparr>res_end_date := res_end_date r', end_date_requested_by := end_date_requested_by r'\<rparr>"
proof -
  obtain d where d: "parse_date (get_value (order_attributes ord) ''new_end_date'') = Inr d"
      "(if d \<noteq> None \<and> res_end_date r \<noteq> d
        then r\<lparr>res_end_date := d, end_date_requested_by := (case consumer_reviewed_by ord of
               None \<Rightarrow> created_by ord | Some u \<Rightarrow> Some u)\<rparr> else r) = r'"
    using assms unfolding update_end_date_def rbind_eq_Inr by blast
  show ?thesis
  proof (intro exI conjI)
    show "parse_date (get_value (order_attributes ord) ''new_end_date'') = Inr d" by (rule d(1))
    show "res_end_date r' = (if d = None then res_end_date r else d)" unfolding d(2) [symmetric] by simp
    show "r' = r\<lparr>res_end_date := res_end_date r', end_date_requested_by := end_date_requested_by r'\<rparr>"
      unfolding d(2) [symmetric] by simp
  qed
qed

definition same_rows :: "market \<Rightarrow> market \<Rightarrow> bool" where
  "same_rows s t \<longleftrightarrow> orders t = orders s \<and> resources t = resources s \<and> offerings t = offerings s \<and>
     today t = today s \<and> now t = now s"

lemma same_rows_refl [simp]: "same_rows s s"
  by (simp add: same_rows_def)

lemma same_rows_trans: "same_rows s t \<Longrightarrow> same_rows t u \<Longrightarrow> same_rows s u"
  by (simp add: same_rows_def)

lemma same_rows_find:
  "same_rows s t \<Longrightarrow> find_order t = find_order s \<and> find_resource t = find_resource s \<and> find_plan t = find_plan s"
  by (simp add: same_rows_def fun_eq_iff find_order_def find_resource_def find_plan_def)

interpretation rows: state_order same_rows
  by unfold_locales (simp_all add: same_rows_def)

lemma stays_get: "stays same_rows (get_offering pk)"
  by (simp add: stays_def get_run)

lemma stays_queue: "stays same_rows (queue t)" and stays_emit: "stays same_rows (emit n)"
  by (simp_all add: stays_def get_run same_rows_def)

lemma stays_init_cost: "stays same_rows (resource_init_cost env r)"
  unfolding resource_init_cost_def
  by (auto split: option.split simp: case_prod_beta intro!: rows.stays_return rows.stays_bind rows.stays_read
      rows.stays_lift) (simp add: stays_def)

lemma stays_apply_update: "stays same_rows (apply_update env ord r)"
  unfolding apply_update_def switch_plan_def switch_limits_def Let_def
  by (auto intro!: rows.stays_raise rows.stays_return rows.stays_bind rows.stays_then rows.stays_lift stays_get
      stays_queue stays_emit stays_init_cost)

lemma stays_policies: "stays same_rows (trigger_slurm_policy_reevaluation res off)"
  unfolding trigger_slurm_policy_reevaluation_def
  by (auto intro!: rows.stays_bind rows.stays_read rows.stays_iter rows.stays_when stays_queue simp: case_prod_beta)

lemma init_cost_returned:
  assumes "resource_init_cost env r s = (Inr r', t)"
  shows "r' = r\<lparr>res_cost := res_cost r'\<rparr> \<and>
    (\<forall>pk. res_plan r = Some pk \<longrightarrow> (\<exists>f p c. find_plan s pk = Some (f, p) \<and> res_cost r' = Some c \<and>
       plan_estimate env f p (res_limits r) \<lparr>ew_start = Some (today s), ew_end = res_end_date r,
         ew_months = prepaid_duration_months (res_attributes r)\<rparr> = Inr c)) \<and>
    (res_plan r = None \<longrightarrow> r' = r)"
proof (cases "res_plan r")
  case None
  then show ?thesis using assms by (simp add: resource_init_cost_def)
next
  case (Some pk)
  show ?thesis
  proof (cases "find_plan s pk")
    case None
    then show ?thesis using assms Some by (simp add: resource_init_cost_def ebind_run)
  next
    case plan: (Some fp)
    obtain f p where fp: "fp = (f, p)" by (rule prod.exhaust)
    then show ?thesis
      using assms Some plan
      by (cases "plan_estimate env f p (res_limits r) \<lparr>ew_start = Some (today s), ew_end = res_end_date r,
            ew_months = prepaid_duration_months (res_attributes r)\<rparr>")
        (auto simp: resource_init_cost_def ebind_run)
  qed
qed

text \<open>
  What the update of a resource by an order must give: the plan, limits and end date asked for, the
  price of the result, and every other field but the options as it was.
\<close>

definition updated_by :: "env \<Rightarrow> market \<Rightarrow> order \<Rightarrow> resource \<Rightarrow> resource \<Rightarrow> bool" where
  "updated_by env s ord r r' \<longleftrightarrow>
     res_plan r' = (if order_plan ord = None then res_plan r else order_plan ord) \<and>
     dict_eq (res_limits r') (if order_limits ord = [] then res_limits r else order_limits ord) \<and>
     (\<exists>d. parse_date (get_value (order_attributes ord) ''new_end_date'') = Inr d \<and>
        res_end_date r' = (if d = None then res_end_date r else d)) \<and>
     (if plan_changed ord r \<or> limits_changed ord r
      then (\<forall>pk. res_plan r' = Some pk \<longrightarrow> (\<exists>f p c. find_plan s pk = Some (f, p) \<and> res_cost r' = Some c \<and>
        plan_estimate env f p (res_limits r') \<lparr>ew_start = Some (today s), ew_end = res_end_date r',
          ew_months = prepaid_duration_months (res_attributes r')\<rparr> = Inr c))
      else res_cost r' = res_cost r) \<and>
     r' = r\<lparr>res_plan := res_plan r', res_limits := res_limits r', res_options := res_options r',
            res_end_date := res_end_date r', end_date_requested_by := end_date_requested_by r',
            res_cost := res_cost r'\<rparr>"

lemma dict_eq_refl [simp]: "dict_eq d d"
  by (simp add: dict_eq_iff)

lemma apply_update_returned:
  assumes run: "apply_update env ord r s = (Inr r', t)"
  shows "updated_by env s ord r r'"
proof -
  have c: "created_by ord \<noteq> None"
  proof
    assume "created_by ord = None"
    then show False using run by (simp add: apply_update_def)
  qed
  from run c obtain f s1 where f: "get_offering (res_offering r) s = (Inr f, s1)"
    and rest: "(let switched = plan_changed ord r; relimited = limits_changed ord r
        in ebind (elift (update_options env (off_resource_options f) ord r)) (\<lambda>r1.
           ebind (elift (update_end_date ord r1)) (\<lambda>r2.
           ebind (if switched then switch_plan ord r2 else ereturn r2) (\<lambda>r3.
           ebind (if relimited then switch_limits ord r3 else ereturn r3) (\<lambda>r4.
           if switched \<or> relimited then resource_init_cost env r4 else ereturn r4))))) s1 = (Inr r', t)"
    by (auto simp: apply_update_def elim: ebind_returned)
  have s1: "s1 = s" using f by (simp add: get_run)
  from rest obtain r1 r2 r3 r4 s3 s4 where
    r1: "update_options env (off_resource_options f) ord r = Inr r1" and
    r2: "update_end_date ord r1 = Inr r2" and
    r3: "(if plan_changed ord r then switch_plan ord r2 else ereturn r2) s = (Inr r3, s3)" and
    r4: "(if limits_changed ord r then switch_limits ord r3 else ereturn r3) s3 = (Inr r4, s4)" and
    r5: "(if plan_changed ord r \<or> limits_changed ord r then resource_init_cost env r4 else ereturn r4) s4 = (Inr r', t)"
    unfolding Let_def s1 by (elim ebind_returned) (simp only: eff_run prod.inject)
  have o: "r1 = r\<lparr>res_options := res_options r1\<rparr>" by (rule update_options_parts [OF r1])
  obtain d where d: "parse_date (get_value (order_attributes ord) ''new_end_date'') = Inr d"
      "res_end_date r2 = (if d = None then res_end_date r1 else d)"
      "r2 = r1\<lparr>res_end_date := res_end_date r2, end_date_requested_by := end_date_requested_by r2\<rparr>"
    using update_end_date_parts [OF r2] by blast
  have p: "r3 = r2\<lparr>res_plan := if plan_changed ord r then order_plan ord else res_plan r2\<rparr>" "same_rows s s3"
    using r3 by (auto simp: switch_plan_def run_simps same_rows_def split: if_splits)
  have l: "r4 = r3\<lparr>res_limits := if limits_changed ord r then order_limits ord else res_limits r3\<rparr>" "same_rows s s4"
    using r4 p(2) by (auto simp: switch_limits_def run_simps same_rows_def split: if_splits)
  have r4_eq: "r4 = r\<lparr>res_plan := res_plan r4, res_limits := res_limits r4, res_options := res_options r4,
      res_end_date := res_end_date r4, end_date_requested_by := end_date_requested_by r4\<rparr>"
  proof -
    obtain o1 where o1: "r1 = r\<lparr>res_options := o1\<rparr>" using o by blast
    obtain e u where e: "r2 = r1\<lparr>res_end_date := e, end_date_requested_by := u\<rparr>" using d(3) by blast
    show ?thesis unfolding l(1) p(1) e o1 by simp
  qed
  have end4: "res_end_date r4 = (if d = None then res_end_date r else d)"
  proof -
    have "res_end_date r1 = res_end_date r" by (subst o) simp
    then show ?thesis by (subst l(1), subst p(1)) (simp add: d(2))
  qed
  have plan4: "res_plan r4 = (if plan_changed ord r then order_plan ord else res_plan r)"
    by (subst l(1), subst p(1), simp, subst d(3), simp, subst o, simp)
  have lim4: "res_limits r4 = (if limits_changed ord r then order_limits ord else res_limits r)"
    by (subst l(1), subst p(1), simp, subst d(3), simp, subst o, simp)
  have plan: "res_plan r4 = (if order_plan ord = None then res_plan r else order_plan ord)"
    using plan4 by (auto simp: plan_changed_def)
  have lim: "dict_eq (res_limits r4) (if order_limits ord = [] then res_limits r else order_limits ord)"
    using lim4 by (auto simp: limits_changed_def)
  show ?thesis
  proof (cases "plan_changed ord r \<or> limits_changed ord r")
    case False
    then have "r' = r4" using r5 by simp
    moreover have "res_cost r4 = res_cost r" by (subst r4_eq) simp
    ultimately show ?thesis
      unfolding updated_by_def using False plan lim d(1) end4 r4_eq by simp
  next
    case True
    then have i: "resource_init_cost env r4 s4 = (Inr r', t)" using r5 by simp
    note cost = init_cost_returned [OF i]
    obtain k where k: "r' = r4\<lparr>res_cost := k\<rparr>" using cost by blast
    have fp: "find_plan s4 = find_plan s" and td: "today s4 = today s"
      using same_rows_find [OF l(2)] l(2) by (simp_all add: same_rows_def)
    have est: "\<forall>pk. res_plan r' = Some pk \<longrightarrow> (\<exists>f p c. find_plan s pk = Some (f, p) \<and> res_cost r' = Some c \<and>
        plan_estimate env f p (res_limits r') \<lparr>ew_start = Some (today s), ew_end = res_end_date r',
          ew_months = prepaid_duration_months (res_attributes r')\<rparr> = Inr c)"
      using conjunct1 [OF conjunct2 [OF cost]] unfolding fp td k by simp
    have "r' = r\<lparr>res_plan := res_plan r', res_limits := res_limits r', res_options := res_options r',
        res_end_date := res_end_date r', end_date_requested_by := end_date_requested_by r', res_cost := res_cost r'\<rparr>"
      unfolding k by (subst r4_eq) simp
    then show ?thesis
      unfolding updated_by_def using True plan lim d(1) end4 est k by simp
  qed
qed

subsection \<open>The whole update\<close>

lemma find_plan_frame [simp]:
  "find_plan (with_res_state k st s) = find_plan s" "find_plan (logged ost pk s) = find_plan s"
  "today (with_res_state k st s) = today s" "now (with_res_state k st s) = now s"
  by (simp_all add: with_res_state_def logged_def with_notice_def fun_eq_iff find_plan_def split: option.split)

lemma updated_by_moved:
  "updated_by env s (moved st x ord) r r' \<longleftrightarrow> updated_by env s ord r r'"
  "find_plan t = find_plan s \<Longrightarrow> today t = today s \<Longrightarrow> updated_by env t ord r r' = updated_by env s ord r r'"
  by (simp_all add: updated_by_def plan_changed_def limits_changed_def)

lemma updated_by_keeps:
  assumes "updated_by env s ord r r'"
  shows "res_pk r' = res_pk r" "res_state r' = res_state r" "res_offering r' = res_offering r"
proof -
  obtain a b c d e f where "r' = r\<lparr>res_plan := a, res_limits := b, res_options := c, res_end_date := d,
      end_date_requested_by := e, res_cost := f\<rparr>"
    using assms unfolding updated_by_def by blast
  then show "res_pk r' = res_pk r" "res_state r' = res_state r" "res_offering r' = res_offering r" by simp_all
qed

definition saved_resource :: "date option \<Rightarrow> timestamp \<Rightarrow> resource \<Rightarrow> resource" where
  "saved_resource loaded t r = (if res_end_date r = loaded then r else r\<lparr>end_date_updated_at := Some t\<rparr>)"

lemma save_resource_run:
  "save_resource loaded r s =
     (Inr (), s\<lparr>resources := update_rows (\<lambda>x. res_pk x = res_pk r) (\<lambda>_. saved_resource loaded (now s) r) (resources s)\<rparr>)"
  by (simp add: save_resource_def run_simps saved_resource_def Let_def)

lemma saved_resource_simps [simp]:
  "res_pk (saved_resource l t r) = res_pk r" "res_state (saved_resource l t r) = res_state r"
  by (simp_all add: saved_resource_def)

text \<open>The end of the update, after the row of the resource is written: only events and tasks.\<close>

lemma update_tail:
  assumes "ethen (ewhen a (emit n)) (ethen (ewhen b (trigger_slurm_policy_reevaluation k f)) (ereturn x)) s = (Inr y, t)"
  shows "y = x \<and> same_rows s t"
proof -
  have "stays same_rows (ethen (ewhen a (emit n)) (ethen (ewhen b (trigger_slurm_policy_reevaluation k f)) (ereturn x)))"
    by (intro rows.stays_then rows.stays_when rows.stays_return stays_emit stays_policies)
  then have "same_rows s t" using assms by (rule staysD)
  moreover have "y = x" using assms by (auto elim!: ethen_returned)
  ultimately show ?thesis by blast
qed

lemma update_returned:
  assumes k: "keys_unique s" and e: "executing_orders s (res_pk r0) UPDATE = [ord]"
    and r: "find_resource s (res_pk r0) = Some r"
    and run: "resource_update_succeeded env r0 v s = (Inr x, t)"
  shows "\<exists>r'. updated_by env s ord (r\<lparr>res_state := RES_OK\<rparr>) r' \<and>
    find_resource t (res_pk r0) = Some (saved_resource (res_end_date r) (now s) r') \<and>
    find_order t (order_pk ord) = Some (moved DONE (now s) ord\<lparr>order_modified := now s\<rparr>) \<and>
    (\<forall>i. i \<noteq> order_pk ord \<longrightarrow> find_order t i = find_order s i) \<and>
    (\<forall>i. i \<noteq> res_pk r0 \<longrightarrow> find_resource t i = find_resource s i)"
proof -
  let ?k = "res_pk r0" let ?m = "moved DONE (now s) ord"
  let ?s1 = "with_res_state ?k (res_state r) (logged DONE (order_pk ord) (put_row ?m s))"
  note pk = find_resource_pk [OF r]
  have move: "set_order_state (res_pk r) UPDATE DONE v s = (Inr (Some ?m), ?s1)"
    using set_order_state_run [OF k e r, of DONE "res_state r" v] pk by (simp add: handler_state_def)
  from run have body: "ebind (set_order_state (res_pk r) UPDATE DONE v) (\<lambda>found_order.
     ebind (if res_state r \<noteq> RES_OK then elift (resource_set_state_ok r) else ereturn r) (\<lambda>r1.
     ebind (case found_order of None \<Rightarrow> ereturn r1 | Some ord \<Rightarrow> apply_update env ord r1) (\<lambda>r2.
     let relimited = (case found_order of None \<Rightarrow> False | Some ord \<Rightarrow> limits_changed ord r)
     in ethen (save_resource (res_end_date r) r2)
         (ethen (ewhen relimited (emit (ResourceEvent LIMITS_UPDATED (res_pk r2))))
           (ethen (ewhen (relimited \<and> (downscaled r2 \<or> paused r2))
                    (trigger_slurm_policy_reevaluation (res_pk r2) (res_offering r2)))
             (ereturn found_order)))))) s = (Inr x, t)"
    unfolding resource_update_succeeded_def atomic_returned by (simp only: ebind_Inr [of _ _ r s] get_run r found_Some)
  then obtain r1 r2 s2 s3 where
    r1: "(if res_state r \<noteq> RES_OK then elift (resource_set_state_ok r) else ereturn r) ?s1 = (Inr r1, s2)" and
    r2: "apply_update env ?m r1 s2 = (Inr r2, s3)" and
    tail: "ethen (save_resource (res_end_date r) r2)
         (ethen (ewhen (limits_changed ?m r) (emit (ResourceEvent LIMITS_UPDATED (res_pk r2))))
           (ethen (ewhen (limits_changed ?m r \<and> (downscaled r2 \<or> paused r2))
                    (trigger_slurm_policy_reevaluation (res_pk r2) (res_offering r2)))
             (ereturn (Some ?m)))) s3 = (Inr x, t)"
    unfolding ebind_Inr [where m = "set_order_state (res_pk r) UPDATE DONE v" and s = s, OF move] Let_def by (elim ebind_returned) (simp only: option.case)
  have one: "r1 = r\<lparr>res_state := RES_OK\<rparr>" "s2 = ?s1"
    using r1 by (auto simp: resource_set_state_ok_def split: if_splits)
  have u: "updated_by env s ord (r\<lparr>res_state := RES_OK\<rparr>) r2"
    using apply_update_returned [OF r2] unfolding one updated_by_moved(1)
    by (subst (asm) updated_by_moved(2) [where s = s]) simp_all
  have pk2: "res_pk r2 = ?k" using updated_by_keeps(1) [OF u] pk by simp
  have rows3: "same_rows ?s1 s3" using staysD [OF stays_apply_update r2] one(2) by simp
  let ?s4 = "s3\<lparr>resources := update_rows (\<lambda>x. res_pk x = res_pk r2) (\<lambda>_. saved_resource (res_end_date r) (now s3) r2) (resources s3)\<rparr>"
  have rows4: "same_rows ?s4 t"
    by (rule conjunct2 [OF update_tail [OF tail [unfolded ethen_Inr [OF save_resource_run]]]])
  have n3: "now s3 = now s" using rows3 by (simp add: same_rows_def)
  have res: "find_resource t i = (if i = ?k then Some (saved_resource (res_end_date r) (now s) r2) else find_resource s i)" for i
  proof -
    have "find_resource t i = find_resource ?s4 i" using same_rows_find [OF rows4] by simp
    also have "\<dots> = map_option (\<lambda>x. if i = res_pk r2 then saved_resource (res_end_date r) (now s3) r2 else x)
        (find_resource s3 i)"
      by (rule find_resource_update) simp
    also have "find_resource s3 i = find_resource ?s1 i" using same_rows_find [OF rows3] by simp
    finally show ?thesis using r by (simp add: pk2 n3 option.map_ident)
  qed
  have "find_order t i = find_order ?s1 i" for i
    using same_rows_find [OF rows4] same_rows_find [OF rows3] by simp
  then have ord: "find_order t i = map_option (\<lambda>x. if i = order_pk ord then ?m\<lparr>order_modified := now s\<rparr> else x) (find_order s i)" for i
    by (simp add: find_order_put_row)
  show ?thesis
    using u res ord row_found [OF k executing_single(1) [OF e]] by (intro exI [of _ r2]) (simp add: option.map_ident)
qed

text \<open>
  C30. A successful update applies the whole order or nothing.  If the call raises (a state that does
  not allow it, malformed attributes, a price that cannot be computed), the database is as before.
  If it returns, the order is done, and the resource is OK with the plan, limits and end date the
  order asks for (and the ones it had where the order asks for none), priced for exactly these
  when the plan or the limits changed and with the old price otherwise; every other field but the
  merged options is unchanged, and so is every other order and resource.
\<close>

theorem update_all_or_nothing:
  assumes "keys_unique s" and "executing_orders s (res_pk r0) UPDATE = [ord]"
    and "find_resource s (res_pk r0) = Some r"
  shows "case resource_update_succeeded env r0 v s of
      (Inl _, t) \<Rightarrow> t = s
    | (Inr _, t) \<Rightarrow> \<exists>r'. updated_by env s ord (r\<lparr>res_state := RES_OK\<rparr>) r' \<and>
        find_resource t (res_pk r0) = Some (saved_resource (res_end_date r) (now s) r') \<and>
        find_order t (order_pk ord) = Some (moved DONE (now s) ord\<lparr>order_modified := now s\<rparr>) \<and>
        (\<forall>i. i \<noteq> order_pk ord \<longrightarrow> find_order t i = find_order s i) \<and>
        (\<forall>i. i \<noteq> res_pk r0 \<longrightarrow> find_resource t i = find_resource s i)"
proof (cases "resource_update_succeeded env r0 v s")
  case (Pair out t)
  show ?thesis
  proof (cases out)
    case (Inl e)
    then have "resource_update_succeeded env r0 v s = (Inl e, t)" using Pair by simp
    then have "t = s" unfolding resource_update_succeeded_def by (rule atomic_raised)
    then show ?thesis using Pair Inl by simp
  next
    case (Inr x)
    then have run: "resource_update_succeeded env r0 v s = (Inr x, t)" using Pair by simp
    show ?thesis unfolding run prod.case sum.case by (rule update_returned [OF assms run])
  qed
qed

end
