(* ===== verification/Order_Guarantees.thy ===== *)
theory Order_Guarantees
  imports Order_Update
begin

text \<open>
  Guarantees of the approval workflow: where an approved order goes and when it is executed, what an
  automatic approval presupposes, and that a provider's decision is taken once.
\<close>

subsection \<open>One state change of a pending order\<close>

definition set_row_state :: "nat \<Rightarrow> order_state \<Rightarrow> market \<Rightarrow> market" where
  "set_row_state pk st s = s\<lparr>orders := update_rows (\<lambda>x. order_pk x = pk)
     (\<lambda>row. row\<lparr>order_state := st, order_modified := now s\<rparr>) (orders s)\<rparr>"

lemma set_row_state_frame [simp]:
  "resources (set_row_state pk st s) = resources s" "tasks (set_row_state pk st s) = tasks s"
  "now (set_row_state pk st s) = now s" "today (set_row_state pk st s) = today s"
  "find_resource (set_row_state pk st s) = find_resource s"
  "find_offering (set_row_state pk st s) = find_offering s"
  "find_project (set_row_state pk st s) = find_project s"
  by (simp_all add: set_row_state_def)

lemma find_order_set_row_state:
  "find_order (set_row_state pk st s) k =
     map_option (\<lambda>r. if k = pk then r\<lparr>order_state := st, order_modified := now s\<rparr> else r) (find_order s k)"
  unfolding set_row_state_def by (rule find_order_update) simp

lemma state_saved:
  assumes "keys_unique s" and "find_resource s (order_resource ord) = Some r" and "order_state ord \<noteq> st"
    and "st \<notin> {REJECTED, CANCELED, ERRED}"
  shows "save_order only_state ord (ord\<lparr>order_state := st\<rparr>) s =
    (Inr (ord\<lparr>order_state := st\<rparr>), logged st (order_pk ord) (set_row_state (order_pk ord) st s))"
proof (rule save_order_run)
  let ?o = "ord\<lparr>order_state := st\<rparr>" let ?u = "set_row_state (order_pk ord) st s"
  show "\<not> error_changed ord ?o" by (simp add: error_changed_def)
  have u: "s\<lparr>orders := update_rows (\<lambda>x. order_pk x = order_pk ?o)
      (\<lambda>row. (only_state ?o row)\<lparr>order_modified := now s\<rparr>) (orders s)\<rparr> = ?u"
    by (simp add: set_row_state_def only_state_def)
  have d: "distinct (map res_pk (resources s))" using assms(1) by (simp add: keys_unique_def)
  have h: "handler_state (order_type ord) st r = Some (res_state r)" using assms(4) by (auto simp: handler_state_def)
  have same: "with_res_state (order_resource ord) (res_state r) (logged st (order_pk ord) ?u) = logged st (order_pk ord) ?u"
    by (rule with_res_state_same) (use assms(2) d in simp_all)
  have "order_saved (Some (order_state ord)) ?o ?u =
      (Inr (), with_res_state (order_resource ord) (res_state r) (logged st (order_pk ord) ?u))"
    using order_saved_run [of ?u ?o r "order_state ord" "res_state r"] assms(2-4) d h by simp
  then show "order_saved (Some (order_state ord)) ?o (s\<lparr>orders := update_rows (\<lambda>x. order_pk x = order_pk ?o)
      (\<lambda>row. (only_state ?o row)\<lparr>order_modified := now s\<rparr>) (orders s)\<rparr>) = (Inr (), logged st (order_pk ord) ?u)"
    unfolding u same .
qed

lemma put_state_run:
  assumes "keys_unique s" and "find_resource s (order_resource ord) = Some r" and "order_state ord \<noteq> st"
    and "st \<notin> {REJECTED, CANCELED, ERRED}"
  shows "put_state st ord s =
    (Inr (ord\<lparr>order_state := st\<rparr>), logged st (order_pk ord) (set_row_state (order_pk ord) st s))"
  unfolding put_state_def by (rule state_saved [OF assms])

lemma execute_run:
  assumes "keys_unique s" and "find_resource s (order_resource ord) = Some r"
    and "order_state ord \<in> {PENDING_CONSUMER, PENDING_PROVIDER, PENDING_PROJECT, PENDING_START_DATE, ERRED}"
  shows "execute ord s = (Inr (ord\<lparr>order_state := EXECUTING\<rparr>),
    logged EXECUTING (order_pk ord) (set_row_state (order_pk ord) EXECUTING s))"
proof -
  have "order_state ord \<noteq> EXECUTING" using assms(3) by auto
  then show ?thesis
    using assms(3) state_saved [OF assms(1,2), of EXECUTING]
    by (simp add: execute_def set_state_executing_def ebind_run)
qed

subsection \<open>Routing after the consumer's approval\<close>

definition state_after :: "approval_outcome \<Rightarrow> order_state" where
  "state_after out = (case out of Pending_project \<Rightarrow> PENDING_PROJECT | Pending_provider \<Rightarrow> PENDING_PROVIDER
     | Pending_start_date \<Rightarrow> PENDING_START_DATE | Executing \<Rightarrow> EXECUTING)"

definition tasks_after :: "approval_outcome \<Rightarrow> nat \<Rightarrow> nat option \<Rightarrow> task list" where
  "tasks_after out pk user = (case out of Executing \<Rightarrow> [ProcessOrder pk user] | Pending_provider \<Rightarrow> [NotifyProvider pk]
     | _ \<Rightarrow> [])"

text \<open>The routing rule: the project's start date first, then the provider, then the order's own date.\<close>

definition route :: "market \<Rightarrow> project \<Rightarrow> bool \<Rightarrow> order \<Rightarrow> approval_outcome" where
  "route s p provider_skipped ord =
     (if in_future (proj_start_date p) s then Pending_project
      else if \<not> provider_skipped then Pending_provider
      else if ENABLE_ORDER_START_DATE s \<and> in_future (order_start_date ord) s then Pending_start_date
      else Executing)"

definition routed :: "market \<Rightarrow> order \<Rightarrow> approval_outcome \<Rightarrow> nat option \<Rightarrow> market \<Rightarrow> bool" where
  "routed s ord out user t \<longleftrightarrow>
     t = (logged (state_after out) (order_pk ord) (set_row_state (order_pk ord) (state_after out) s))
       \<lparr>tasks := tasks s @ tasks_after out (order_pk ord) user\<rparr>"

lemma tasks_same: "s\<lparr>tasks := tasks s\<rparr> = s"
  by simp

lemma transition_routes:
  assumes "keys_unique s" and "find_resource s (order_resource ord) = Some r"
    and "find_project s (order_project ord) = Some p" and "find_offering s (order_offering ord) = Some f"
    and "order_state ord = PENDING_CONSUMER"
    and "in_future (proj_start_date p) s \<or> order_should_not_be_reviewed_by_provider s f ord = Inr skipped"
  shows "\<exists>t. transition_order_from_consumer_approval ord user s = (Inr (route s p skipped ord), t) \<and>
    routed s ord (route s p skipped ord) user t"
proof -
  have put: "put_state st ord s = (Inr (ord\<lparr>order_state := st\<rparr>),
      logged st (order_pk ord) (set_row_state (order_pk ord) st s))"
    if "st \<in> {PENDING_PROJECT, PENDING_PROVIDER, PENDING_START_DATE}" for st
    using that put_state_run [OF assms(1,2), of st] assms(5) by auto
  have go: "execute ord s = (Inr (ord\<lparr>order_state := EXECUTING\<rparr>),
      logged EXECUTING (order_pk ord) (set_row_state (order_pk ord) EXECUTING s))"
    using execute_run [OF assms(1,2)] assms(5) by simp
  have q: "tasks (logged st pk (set_row_state pk st s)) = tasks s" for st pk by simp
  show ?thesis
    unfolding transition_order_from_consumer_approval_def route_def routed_def
    using assms(3,4,6) put [of PENDING_PROJECT] put [of PENDING_PROVIDER] put [of PENDING_START_DATE] go
    by (auto simp: run_simps provider_review_skipped_def state_after_def tasks_after_def tasks_same)
qed

text \<open>Recording the review rewrites the row with the reviewer and the time.\<close>

lemma review_run:
  "review_by_consumer user ord ord s =
     (let o' = ord\<lparr>consumer_reviewed_by := user, consumer_reviewed_at := Some (now s)\<rparr> in (Inr o', put_row o' s))"
  by (simp add: review_by_consumer_def run_simps save_same_state error_changed_def Let_def)

lemma put_row_keys:
  assumes "keys_unique s" shows "keys_unique (put_row ord s)"
proof -
  have "map order_pk (orders (put_row ord s)) = map order_pk (orders s)"
    unfolding put_row_def by (simp, rule map_update_rows_same) simp
  then show ?thesis using assms by (simp add: keys_unique_def)
qed

lemma provider_frame:
  assumes "users t = users s" and "user_roles t = user_roles s" and "role_permissions t = role_permissions s"
  shows "order_should_not_be_reviewed_by_provider t f ord = order_should_not_be_reviewed_by_provider s f ord"
  using assms
  by (simp add: order_should_not_be_reviewed_by_provider_def user_of_def find_user_def has_owner_access_def
      has_service_manager_access_def has_user_def cong: option.case_cong)

lemma put_row_config [simp]:
  "users (put_row ord s) = users s" "user_roles (put_row ord s) = user_roles s"
  "role_permissions (put_row ord s) = role_permissions s"
  "ENABLE_ORDER_START_DATE (put_row ord s) = ENABLE_ORDER_START_DATE s"
  "in_future d (put_row ord s) = in_future d s"
  by (simp_all add: put_row_def in_future_def split: option.split)

definition reviewed :: "nat option \<Rightarrow> market \<Rightarrow> order \<Rightarrow> order" where
  "reviewed user s ord = ord\<lparr>consumer_reviewed_by := user, consumer_reviewed_at := Some (now s)\<rparr>"

lemma reviewed_simps [simp]:
  "order_pk (reviewed u s ord) = order_pk ord" "order_resource (reviewed u s ord) = order_resource ord"
  "order_project (reviewed u s ord) = order_project ord" "order_offering (reviewed u s ord) = order_offering ord"
  "order_state (reviewed u s ord) = order_state ord" "order_start_date (reviewed u s ord) = order_start_date ord"
  by (simp_all add: reviewed_def)

text \<open>
  C35. A consumer's approval routes the order by one rule and executes nothing early.  An order that is
  pending the consumer and not held for a purchase order gets the reviewer recorded and goes, in this
  order of precedence, to wait for its project's start, for the provider, or for its own start date
  (where that feature is on); it becomes executing, and its processing is queued, exactly when it has
  to wait for none of them.  Nothing else is queued and no other row changes.
\<close>

theorem consumer_approval_routes:
  assumes "keys_unique s" and "find_order s pk = Some ord" and "order_state ord = PENDING_CONSUMER"
    and "find_resource s (order_resource ord) = Some r" and "find_project s (order_project ord) = Some p"
    and "find_offering s (order_offering ord) = Some f" and "\<not> order_is_held_for_purchase_order f ord"
    and "in_future (proj_start_date p) s \<or>
      order_should_not_be_reviewed_by_provider s f (reviewed user s ord) = Inr skipped"
  shows "\<exists>t. approve_by_consumer pk user s = (Inr (route s p skipped ord), t) \<and>
    (\<forall>k. find_order t k = map_option (\<lambda>x. if k = pk
       then (reviewed user s ord)\<lparr>order_state := state_after (route s p skipped ord), order_modified := now s\<rparr>
       else x) (find_order s k)) \<and>
    resources t = resources s \<and> tasks t = tasks s @ tasks_after (route s p skipped ord) pk user"
proof -
  let ?r = "reviewed user s ord" let ?u = "put_row ?r s"
  have pk: "order_pk ord = pk" by (rule find_order_pk [OF assms(2)])
  have rt: "route ?u p skipped ?r = route s p skipped ord" by (simp add: route_def)
  have "in_future (proj_start_date p) ?u \<or> order_should_not_be_reviewed_by_provider ?u f ?r = Inr skipped"
    using assms(8) provider_frame [of ?u s f ?r] by simp
  then obtain t where t: "transition_order_from_consumer_approval ?r user ?u = (Inr (route s p skipped ord), t)"
      "routed ?u ?r (route s p skipped ord) user t"
    using transition_routes [where s = ?u and ord = ?r and r = r and p = p and f = f and skipped = skipped and user = user,
        OF put_row_keys [OF assms(1)]] assms(3-6) rt by auto
  have rv: "review_by_consumer user ord ord s = (Inr ?r, ?u)" by (simp add: review_run Let_def reviewed_def)
  have "approve_by_consumer pk user s = (Inr (route s p skipped ord), t)"
    using assms(2,3,6,7) rv t(1)
    by (simp add: approve_by_consumer_def atomic_def run_simps StateValidator_def order_is_held_for_purchase_order_def)
  moreover have "find_order t k = map_option (\<lambda>x. if k = pk
       then ?r\<lparr>order_state := state_after (route s p skipped ord), order_modified := now s\<rparr> else x) (find_order s k)" for k
  proof -
    have "find_order t k = find_order (set_row_state pk (state_after (route s p skipped ord)) ?u) k"
      using t(2) pk by (simp add: routed_def)
    then show ?thesis
      by (cases "k = pk") (simp_all add: find_order_set_row_state find_order_put_row pk option.map_comp o_def option.map_ident)
  qed
  moreover have "resources t = resources s" "tasks t = tasks s @ tasks_after (route s p skipped ord) pk user"
    using t(2) pk by (simp_all add: routed_def)
  ultimately show ?thesis by blast
qed

subsection \<open>Automatic approval\<close>

lemma evaluate_accepts:
  assumes "evaluate_auto_approval env s f ord = Some rule"
  shows "order_state ord = PENDING_CONSUMER \<and> rule \<in> set (auto_rules s) \<and> rule_project rule = order_project ord \<and>
    rule_enabled rule \<and> \<not> order_is_held_for_purchase_order f ord \<and> \<not> order_autoapprove_is_disabled f ord \<and>
    \<not> has_usage_component s f ord \<and> (order_plan ord \<noteq> None \<or> order_type ord = TERMINATE) \<and>
    (\<exists>c. estimated_monthly_cost env s ord = Inr c \<and> c \<le> monthly_cost_limit rule)"
proof -
  have basic: "order_state ord = PENDING_CONSUMER" "order_plan ord \<noteq> None \<or> order_type ord = TERMINATE"
    "\<not> order_is_held_for_purchase_order f ord" "\<not> order_autoapprove_is_disabled f ord"
    using assms by (auto simp: evaluate_auto_approval_def split: if_splits)
  then obtain r0 where r0: "first_row (\<lambda>x. rule_project x = order_project ord \<and> rule_enabled x) (auto_rules s) = Some r0"
    using assms by (cases "first_row (\<lambda>x. rule_project x = order_project ord \<and> rule_enabled x) (auto_rules s)")
      (auto simp: evaluate_auto_approval_def)
  have u: "\<not> has_usage_component s f ord"
    using assms basic r0 by (auto simp: evaluate_auto_approval_def split: if_splits)
  then obtain c where c: "estimated_monthly_cost env s ord = Inr c"
    using assms basic r0 by (cases "estimated_monthly_cost env s ord") (auto simp: evaluate_auto_approval_def)
  have "\<not> c > monthly_cost_limit r0" "r0 = rule"
    using assms basic r0 u c by (auto simp: evaluate_auto_approval_def split: if_splits)
  then show ?thesis using basic u c first_row_Some [OF r0] by auto
qed

lemma ereturn_returned: "ereturn x s = (Inr y, t) \<longleftrightarrow> y = x \<and> t = s"
  by auto

lemma if_false_returned:
  "(if \<not> c then ereturn False else m) s = (Inr b, t) \<Longrightarrow> \<not> b \<and> t = s \<or> c \<and> m s = (Inr b, t)"
  by (auto split: if_splits)

lemma always_true:
  "ebind m (\<lambda>x. ebind (n x) (\<lambda>y. ethen (k y) (ereturn True))) s = (Inr b, t) \<Longrightarrow> b"
  by (auto elim!: ebind_returned ethen_returned)

lemma locked_rule:
  assumes "distinct (map rule_pk rs)" and "rule \<in> set rs" and "rule_enabled rule"
  shows "first_row (\<lambda>x. rule_pk x = rule_pk rule \<and> rule_enabled x) rs = Some rule"
proof -
  obtain l where l: "first_row (\<lambda>x. rule_pk x = rule_pk rule \<and> rule_enabled x) rs = Some l"
    using assms(2,3) first_row_None [of "\<lambda>x. rule_pk x = rule_pk rule \<and> rule_enabled x" rs] by fastforce
  then show ?thesis using first_row_Some [OF l] distinct_key_eq [OF assms(1), of l rule] assms(2) by simp
qed

text \<open>
  C33. An automatic approval has everything a reviewer would have checked.  A run that approves does
  so for an order still pending its consumer, by an enabled rule of the order's own project whose
  author is an active user who may still approve there; the offering neither forces manual approval
  nor lacks a purchase order; nothing of the order is billed by usage; and its monthly estimate could
  be computed and is within the rule's limit.  A run that does not approve leaves the database as it
  was.
\<close>

theorem auto_approval_sound:
  assumes "distinct (map rule_pk (auto_rules s))"
    and "try_apply_project_auto_approval env pk s = (Inr b, t)"
  shows "(\<not> b \<and> t = s) \<or>
    (b \<and> (\<exists>ord f rule p c. find_order s pk = Some ord \<and> order_state ord = PENDING_CONSUMER \<and>
       find_offering s (order_offering ord) = Some f \<and> \<not> order_is_held_for_purchase_order f ord \<and>
       \<not> order_autoapprove_is_disabled f ord \<and> \<not> has_usage_component s f ord \<and>
       rule \<in> set (auto_rules s) \<and> rule_enabled rule \<and> rule_project rule = order_project ord \<and>
       find_project s (order_project ord) = Some p \<and> rule_creator_can_still_approve s p rule \<and>
       estimated_monthly_cost env s ord = Inr c \<and> c \<le> monthly_cost_limit rule))"
proof (cases "find_order s pk")
  case None
  then show ?thesis using assms(2) by (simp add: try_apply_project_auto_approval_def atomic_returned)
next
  case (Some ord)
  show ?thesis
  proof (cases "order_state ord = PENDING_CONSUMER")
    case False
    then show ?thesis using assms(2) Some by (simp add: try_apply_project_auto_approval_def atomic_returned)
  next
    case True
    note run0 = assms(2) [unfolded try_apply_project_auto_approval_def atomic_returned Some option.case True,
        simplified if_not_P if_P]
    obtain f where f: "find_offering s (order_offering ord) = Some f"
      using run0 by (cases "find_offering s (order_offering ord)") (simp_all add: ebind_run get_run)
    show ?thesis
    proof (cases "evaluate_auto_approval env s f ord")
      case None
      then show ?thesis using run0 f by (simp add: ebind_run get_run)
    next
      case rule0: (Some rule0)
      note ok = evaluate_accepts [OF rule0]
      have locked: "first_row (\<lambda>x. rule_pk x = rule_pk rule0 \<and> rule_enabled x) (auto_rules s) = Some rule0"
        using locked_rule [OF assms(1)] ok by blast
      show ?thesis
      proof (cases "find_project s (rule_project rule0)")
        case None
        then show ?thesis using run0 f rule0 locked by (simp add: ebind_run get_run)
      next
        case p: (Some p)
        show ?thesis
        proof (cases "rule_creator_can_still_approve s p rule0")
          case False
          then show ?thesis using run0 f rule0 locked p by (simp add: ebind_run get_run)
        next
          case allowed: True
          have b
            using run0 f rule0 locked p allowed
            by (auto simp: ebind_run [of "get_offering q" for q] ebind_run [of "eread q" for q]
                ebind_run [of "get_project q" for q] get_run dest: always_true)
          then show ?thesis using Some True f ok p allowed by metis
        qed
      qed
    qed
  qed
qed

subsection \<open>One decision of the provider\<close>

lemma not_pending_refused:
  assumes "find_order t pk = Some ord" and "order_state ord \<noteq> PENDING_PROVIDER"
  shows "approve_by_provider pk user t = (Inl IncorrectState, t)"
    and "reject_by_provider pk user comment t = (Inl IncorrectState, t)"
  using assms
  by (simp_all add: approve_by_provider_def reject_by_provider_def lock_order_pending_provider_def atomic_def run_simps)

lemma provider_review_run:
  "review_by_provider user ord s =
     (let o' = ord\<lparr>provider_reviewed_by := user, provider_reviewed_at := Some (now s)\<rparr> in (Inr o', put_row o' s))"
  by (simp add: review_by_provider_def run_simps save_same_state error_changed_def Let_def)

lemma approve_by_provider_run:
  assumes "keys_unique s" and "find_order s pk = Some ord" and "order_state ord = PENDING_PROVIDER"
    and "find_resource s (order_resource ord) = Some r"
  shows "\<exists>t. approve_by_provider pk user s =
      (Inr (if ENABLE_ORDER_START_DATE s \<and> in_future (order_start_date ord) s then Pending_start_date else Executing), t) \<and>
    (\<exists>row. find_order t pk = Some row \<and>
      order_state row = (if ENABLE_ORDER_START_DATE s \<and> in_future (order_start_date ord) s then PENDING_START_DATE else EXECUTING)) \<and>
    tasks t = tasks s @ (if ENABLE_ORDER_START_DATE s \<and> in_future (order_start_date ord) s then [] else [ProcessOrder pk user])"
proof -
  let ?r = "ord\<lparr>provider_reviewed_by := user, provider_reviewed_at := Some (now s)\<rparr>" let ?u = "put_row ?r s"
  have pk: "order_pk ord = pk" by (rule find_order_pk [OF assms(2)])
  have k: "keys_unique ?u" by (rule put_row_keys [OF assms(1)])
  have wait: "put_state PENDING_START_DATE ?r ?u = (Inr (?r\<lparr>order_state := PENDING_START_DATE\<rparr>),
      logged PENDING_START_DATE pk (set_row_state pk PENDING_START_DATE ?u))"
    using put_state_run [OF k, of ?r r PENDING_START_DATE] assms(3,4) pk by simp
  have go: "execute ?r ?u = (Inr (?r\<lparr>order_state := EXECUTING\<rparr>), logged EXECUTING pk (set_row_state pk EXECUTING ?u))"
    using execute_run [OF k, of ?r r] assms(3,4) pk by simp
  have row: "find_order (set_row_state pk st ?u) pk = Some (?r\<lparr>order_state := st, order_modified := now s\<rparr>)" for st
    using assms(2) pk by (simp add: find_order_set_row_state find_order_put_row)
  show ?thesis
  proof (cases "ENABLE_ORDER_START_DATE s \<and> in_future (order_start_date ord) s")
    case True
    then show ?thesis
      using assms(2,3) wait row [of PENDING_START_DATE]
      by (simp add: approve_by_provider_def lock_order_pending_provider_def finish_provider_approval_def atomic_def
          run_simps provider_review_run Let_def)
  next
    case False
    show ?thesis
      using assms(2,3) go row [of EXECUTING] pk
      by (simp add: False approve_by_provider_def lock_order_pending_provider_def finish_provider_approval_def atomic_def
          run_simps provider_review_run Let_def)
  qed
qed

lemma reject_by_provider_run:
  assumes "keys_unique s" and "find_order s pk = Some ord" and "order_state ord = PENDING_PROVIDER"
    and "find_resource s (order_resource ord) = Some r" and "handler_state (order_type ord) REJECTED r = Some rs"
  shows "\<exists>t row. reject_by_provider pk user comment s = (Inr (), t) \<and> find_order t pk = Some row \<and>
    order_state row = REJECTED \<and> completed_at row = Some (now s) \<and> provider_rejection_comment row = comment \<and>
    find_resource t (order_resource ord) = Some (r\<lparr>res_state := rs\<rparr>) \<and> tasks t = tasks s"
proof -
  have pk: "order_pk ord = pk" by (rule find_order_pk [OF assms(2)])
  let ?r = "ord\<lparr>provider_rejection_comment := comment, provider_reviewed_by := user, provider_reviewed_at := Some (now s)\<rparr>"
  let ?c = "?r\<lparr>completed_at := Some (now s)\<rparr>" let ?j = "?c\<lparr>order_state := REJECTED\<rparr>"
  have review: "review_by_provider user (ord\<lparr>provider_rejection_comment := comment\<rparr>) s = (Inr ?r, put_row ?r s)"
    by (simp add: provider_review_run Let_def)
  have rejected: "reject ?r (put_row ?r s) = (Inr ?j, put_row ?c s)"
    using assms(3) by (simp add: reject_def ebind_run completed_run put_row_again)
  let ?t = "with_res_state (order_resource ord) rs (logged REJECTED pk (put_row ?j s))"
  have saved: "save_order all_fields ?r ?j (put_row ?c s) = (Inr ?j, ?t)"
  proof (rule save_order_run)
    show "\<not> error_changed ?r ?j" by (simp add: error_changed_def)
    have u: "(put_row ?c s)\<lparr>orders := update_rows (\<lambda>x. order_pk x = order_pk ?j)
        (\<lambda>row. (all_fields ?j row)\<lparr>order_modified := now (put_row ?c s)\<rparr>) (orders (put_row ?c s))\<rparr> = put_row ?j s"
      using put_row_again [of ?j ?c s] by (simp add: all_fields_def put_row_def)
    have "order_saved (Some (order_state ?r)) ?j (put_row ?j s) = (Inr (), ?t)"
      using order_saved_run [of "put_row ?j s" ?j r "order_state ?r" rs] assms(1,3-5) pk
      by (simp add: keys_unique_def)
    then show "order_saved (Some (order_state ?r)) ?j ((put_row ?c s)\<lparr>orders := update_rows (\<lambda>x. order_pk x = order_pk ?j)
        (\<lambda>row. (all_fields ?j row)\<lparr>order_modified := now (put_row ?c s)\<rparr>) (orders (put_row ?c s))\<rparr>) = (Inr (), ?t)"
      unfolding u .
  qed
  have "reject_by_provider pk user comment s = (Inr (), ?t)"
    using assms(2,3)
    by (simp add: reject_by_provider_def lock_order_pending_provider_def atomic_def run_simps review rejected saved)
  moreover have "find_order ?t pk = Some (?j\<lparr>order_modified := now s\<rparr>)"
    using assms(2) pk by (simp add: find_order_put_row)
  moreover have "tasks ?t = tasks s" by (simp add: with_res_state_def)
  ultimately show ?thesis
    using assms(4)
    by (intro exI [where x = ?t] exI [where x = "?j\<lparr>order_modified := now s\<rparr>"] conjI) simp_all
qed

text \<open>
  A provider decides on an order once.  For a pending order, approving succeeds and so does
  rejecting (unless the resource of an update or termination is already gone); after either, both a
  second approval and a second rejection are refused and change nothing, whoever sends them.  A
  rejection completes the order with its comment, releases the resource (terminated if it never came
  up, OK otherwise) and queues no processing.
\<close>

theorem provider_decides_once:
  assumes "keys_unique s" and "find_order s pk = Some ord" and "order_state ord = PENDING_PROVIDER"
    and "find_resource s (order_resource ord) = Some r" and "res_state r \<noteq> RES_TERMINATED"
  shows "(\<exists>out t. approve_by_provider pk user s = (Inr out, t) \<and>
      approve_by_provider pk user2 t = (Inl IncorrectState, t) \<and>
      reject_by_provider pk user2 comment t = (Inl IncorrectState, t)) \<and>
    (\<exists>t row. reject_by_provider pk user comment s = (Inr (), t) \<and> find_order t pk = Some row \<and>
      order_state row = REJECTED \<and> provider_rejection_comment row = comment \<and>
      find_resource t (order_resource ord) = Some (r\<lparr>res_state :=
        (if order_type ord \<in> {CREATE, RESTORE} then RES_TERMINATED else RES_OK)\<rparr>) \<and> tasks t = tasks s \<and>
      approve_by_provider pk user2 t = (Inl IncorrectState, t) \<and>
      reject_by_provider pk user2 comment t = (Inl IncorrectState, t))"
proof
  obtain out t row where "approve_by_provider pk user s = (Inr out, t)" "find_order t pk = Some row"
      "order_state row \<noteq> PENDING_PROVIDER"
    using approve_by_provider_run [OF assms(1-4), of user] by (metis order_state.distinct)
  then show "\<exists>out t. approve_by_provider pk user s = (Inr out, t) \<and>
      approve_by_provider pk user2 t = (Inl IncorrectState, t) \<and>
      reject_by_provider pk user2 comment t = (Inl IncorrectState, t)"
    using not_pending_refused by blast
next
  have "handler_state (order_type ord) REJECTED r =
      Some (if order_type ord \<in> {CREATE, RESTORE} then RES_TERMINATED else RES_OK)"
    using assms(5) by (simp add: handler_state_def)
  from reject_by_provider_run [OF assms(1-4) this, of user comment]
  obtain t row where "reject_by_provider pk user comment s = (Inr (), t)" "find_order t pk = Some row"
      "order_state row = REJECTED" "provider_rejection_comment row = comment"
      "find_resource t (order_resource ord) = Some (r\<lparr>res_state :=
        (if order_type ord \<in> {CREATE, RESTORE} then RES_TERMINATED else RES_OK)\<rparr>)" "tasks t = tasks s"
    by blast
  moreover have "order_state row \<noteq> PENDING_PROVIDER" using calculation(3) by simp
  ultimately show "\<exists>t row. reject_by_provider pk user comment s = (Inr (), t) \<and> find_order t pk = Some row \<and>
      order_state row = REJECTED \<and> provider_rejection_comment row = comment \<and>
      find_resource t (order_resource ord) = Some (r\<lparr>res_state :=
        (if order_type ord \<in> {CREATE, RESTORE} then RES_TERMINATED else RES_OK)\<rparr>) \<and> tasks t = tasks s \<and>
      approve_by_provider pk user2 t = (Inl IncorrectState, t) \<and>
      reject_by_provider pk user2 comment t = (Inl IncorrectState, t)"
    using not_pending_refused by blast
qed

end
