(* ===== verification/Order_Examples.thy ===== *)
theory Order_Examples
  imports Order_Guarantees Plan_Billing_Properties
begin

text \<open>
  A small marketplace the order properties are applied to: one project, a site-agent offering with a
  monthly plan, a scripted offering whose orders need no provider, an order in each situation, and a
  project rule that approves cheap orders.
\<close>

definition market_offering_of :: "nat \<Rightarrow> string \<Rightarrow> plan list \<Rightarrow> market_offering" where
  "market_offering_of pk ty plans = \<lparr>off_pk = pk, off_type = ty,
     off_components = [demo_component ''cpu'' LIMIT True False], off_plans = plans,
     off_customer = Some 30, off_shared = True, off_billable = True, off_resource_options = [],
     require_purchase_order_upload = False, disable_autoapprove = False,
     auto_approve_in_service_provider_projects = False, auto_approve_for_roles = [],
     auto_approve_remote_orders = False, auto_approve_marketplace_script = True\<rparr>"

definition cpu_plan :: "nat \<Rightarrow> rat \<Rightarrow> plan" where
  "cpu_plan pk price = \<lparr>plan_pk = pk, plan_name = ''standard'', plan_billing_mode = MODE_INHERIT, unit_price = 10,
     plan_components = [\<lparr>pc_component = Some (demo_component ''cpu'' LIMIT True False), pc_amount = 0,
       pc_price = price\<rparr>]\<rparr>"

definition demo_order :: "nat \<Rightarrow> order_type \<Rightarrow> order_state \<Rightarrow> nat \<Rightarrow> nat \<Rightarrow> order" where
  "demo_order pk ty st res off = \<lparr>order_pk = pk, order_type = ty, order_state = st, order_resource = res,
     order_project = 20, order_offering = off, order_plan = Some 8, order_limits = [(''cpu'', 4)],
     order_attributes = [], order_start_date = None, completed_at = None, created_by = Some 40,
     consumer_reviewed_by = None, consumer_reviewed_at = None, provider_reviewed_by = None,
     provider_reviewed_at = None, order_error_message = [], order_error_traceback = [],
     error_updated_at = None, consumer_rejection_comment = [], provider_rejection_comment = [],
     termination_comment = None, placed_automatically = False, has_attachment = False,
     auto_approved_by_rule = None, auto_approved_cost_limit_snapshot = None, order_modified = 0\<rparr>"

definition demo_resource :: "nat \<Rightarrow> resource_state \<Rightarrow> nat \<Rightarrow> resource" where
  "demo_resource pk st off = \<lparr>res_pk = pk, res_state = st, res_offering = off, res_project = 20,
     res_plan = Some 7, res_limits = [(''cpu'', 2)], res_attributes = [], res_options = [], res_cost = Some 14,
     res_end_date = None, end_date_requested_by = None, end_date_updated_at = None, res_backend_id = [],
     res_backend_metadata = [], res_error_message = [], res_error_traceback = [], res_scope = None,
     downscaled = False, paused = False\<rparr>"

definition demo_market :: "order list \<Rightarrow> resource list \<Rightarrow> market" where
  "demo_market os rs = \<lparr>orders = os, resources = rs, api_keys = [],
     offerings = [market_offering_of 5 SITE_AGENT_OFFERING [cpu_plan 7 2, cpu_plan 8 3],
       market_offering_of 6 SCRIPT_OFFERING [cpu_plan 9 2]],
     projects = [\<lparr>proj_pk = 20, proj_customer = 30, proj_start_date = None\<rparr>],
     users = [\<lparr>user_pk = 40, is_staff = False, is_active = True\<rparr>, \<lparr>user_pk = 41, is_staff = True, is_active = True\<rparr>],
     user_roles = [\<lparr>ur_user = 40, ur_scope = PROJECT 20, ur_role = ''PROJECT.MANAGER'', ur_template = None,
       ur_active = True\<rparr>],
     role_permissions = [(''PROJECT.MANAGER'', APPROVE_ORDER)],
     auto_rules = [\<lparr>rule_pk = 50, rule_project = 20, rule_enabled = True, monthly_cost_limit = 100,
       rule_created_by = Some 40\<rparr>],
     slurm_policies = [], notices = [], tasks = [], skip_side_effects = False, ENABLE_ORDER_START_DATE = True,
     system_robot = 99, today = 739000, now = 60\<rparr>"

definition demo_env :: env where
  "demo_env = \<lparr>env_relativedelta = (\<lambda>_ _. (0, 1, 0)), env_factors = (\<lambda>_. []),
     env_to_bool = (\<lambda>v. case v of JBool b \<Rightarrow> Some b | _ \<Rightarrow> None)\<rparr>"

lemmas demo_defs = demo_order_def demo_resource_def demo_market_def market_offering_of_def cpu_plan_def
  demo_component_def

subsection \<open>Witnesses\<close>

definition updating_market :: market where
  "updating_market = demo_market [demo_order 100 UPDATE EXECUTING 60 5] [demo_resource 60 RES_UPDATING 5]"


lemma update_all_or_nothing_witness:
  "case resource_update_succeeded demo_env (demo_resource 60 RES_UPDATING 5) False updating_market of
      (Inl _, _) \<Rightarrow> False
    | (Inr _, t) \<Rightarrow> \<exists>r'. updated_by demo_env updating_market (demo_order 100 UPDATE EXECUTING 60 5)
        (demo_resource 60 RES_OK 5) r' \<and> res_plan r' = Some 8"
proof -
  let ?r = "demo_resource 60 RES_UPDATING 5" let ?o = "demo_order 100 UPDATE EXECUTING 60 5"
  have ran: "case resource_update_succeeded demo_env ?r False updating_market of (Inl _, _) \<Rightarrow> False | (Inr _, _) \<Rightarrow> True"
    by code_simp
  have ok: "?r\<lparr>res_state := RES_OK\<rparr> = demo_resource 60 RES_OK 5" by (simp add: demo_resource_def)
  have "keys_unique updating_market" "executing_orders updating_market (res_pk ?r) UPDATE = [?o]"
      "find_resource updating_market (res_pk ?r) = Some ?r" "order_plan ?o = Some 8"
    by (simp_all add: updating_market_def demo_defs keys_unique_def executing_orders_def find_resource_def)
  note facts = this
  obtain x t where run: "resource_update_succeeded demo_env ?r False updating_market = (Inr x, t)"
    using ran by (cases "resource_update_succeeded demo_env ?r False updating_market") (auto split: sum.splits)
  have "\<exists>r'. updated_by demo_env updating_market ?o (?r\<lparr>res_state := RES_OK\<rparr>) r'"
    using update_all_or_nothing [OF facts(1-3), of demo_env False] unfolding run prod.case sum.case by blast
  then obtain r' where "updated_by demo_env updating_market ?o (demo_resource 60 RES_OK 5) r'" unfolding ok ..
  moreover have "res_plan r' = Some 8" using calculation facts(4) by (simp add: updated_by_def)
  ultimately show ?thesis unfolding run prod.case sum.case by blast
qed

definition pending_market :: market where
  "pending_market = demo_market [demo_order 101 CREATE PENDING_CONSUMER 61 6, demo_order 102 CREATE PENDING_PROVIDER 62 5]
     [demo_resource 61 RES_CREATING 6, demo_resource 62 RES_CREATING 5]"

lemma consumer_approval_routes_witness:
  "\<exists>t. approve_by_consumer 101 (Some 40) pending_market = (Inr Executing, t) \<and>
    tasks t = [ProcessOrder 101 (Some 40)]"
  using consumer_approval_routes [of pending_market 101 "demo_order 101 CREATE PENDING_CONSUMER 61 6"
      "demo_resource 61 RES_CREATING 6" "\<lparr>proj_pk = 20, proj_customer = 30, proj_start_date = None\<rparr>"
      "market_offering_of 6 SCRIPT_OFFERING [cpu_plan 9 2]" "Some 40" True]
  by (force simp: pending_market_def demo_defs keys_unique_def find_order_def find_resource_def find_project_def
      find_offering_def order_is_held_for_purchase_order_def order_should_not_be_reviewed_by_provider_def
      SITE_AGENT_OFFERING_def SCRIPT_OFFERING_def BASIC_OFFERING_def REMOTE_OFFERING_def route_def in_future_def
      tasks_after_def)

lemma auto_approval_sound_witness:
  "\<exists>t. try_apply_project_auto_approval demo_env 101 pending_market = (Inr True, t) \<and>
    (\<exists>rule\<in>set (auto_rules pending_market). rule_enabled rule)"
proof -
  have ran: "case try_apply_project_auto_approval demo_env 101 pending_market of
      (Inl _, _) \<Rightarrow> False | (Inr b, _) \<Rightarrow> b"
    by code_simp
  then obtain t where t: "try_apply_project_auto_approval demo_env 101 pending_market = (Inr True, t)"
    by (cases "try_apply_project_auto_approval demo_env 101 pending_market") (auto split: sum.splits)
  have "distinct (map rule_pk (auto_rules pending_market))" by (simp add: pending_market_def demo_market_def)
  from auto_approval_sound [OF this t] show ?thesis using t by blast
qed

lemma provider_decides_once_witness:
  "\<exists>t. reject_by_provider 102 (Some 41) ''no'' pending_market = (Inr (), t) \<and>
    approve_by_provider 102 (Some 41) t = (Inl IncorrectState, t)"
proof -
  have "keys_unique pending_market" "find_order pending_market 102 = Some (demo_order 102 CREATE PENDING_PROVIDER 62 5)"
      "find_resource pending_market 62 = Some (demo_resource 62 RES_CREATING 5)"
    by (simp_all add: pending_market_def demo_defs keys_unique_def find_order_def find_resource_def)
  then show ?thesis
    using provider_decides_once [of pending_market 102 "demo_order 102 CREATE PENDING_PROVIDER 62 5"
        "demo_resource 62 RES_CREATING 5" "Some 41" "Some 41" "''no''"]
    by (auto simp: demo_order_def demo_resource_def)
qed

end
