(* ===== verification/Order_Findings.thy ===== *)
theory Order_Findings
  imports Order_Examples
begin

text \<open>
  Where the order workflow does not do what its names, comments or tests say, each as a theorem
  about the model.
\<close>

text \<open>
  Creating an order never logs that a change was requested.  \<open>log_order_events\<close> looks the state of
  the new order up in a table whose keys are order types: the only states it lets through are 1 and 7,
  the keys are 2 and 3, so the two "requested" events cannot be emitted.
\<close>

theorem requested_events_never_logged:
  "log_order_events None ord s = (Inr (), s)"
  by (cases "order_state ord")
    (simp_all add: log_order_events_def RESOURCE_TYPE_HANDLERS_def state_code_def type_code_def)

text \<open>
  Nobody is told that an order was rejected.  The transition stamps \<open>completed_at\<close> before the state
  is saved, and the handler that would queue the notification returns when that stamp is set; so for
  every order the transition rejects, from whatever state it is saved, nothing is queued.
\<close>

theorem rejection_never_notifies:
  assumes "reject ord s = (Inr rejected, t)"
  shows "order_state rejected = REJECTED \<and> completed_at rejected \<noteq> None \<and>
    notify_user_about_rejected_order previous rejected u = (Inr (), u)"
  using assms
  by (auto simp: reject_def ebind_run completed_run notify_user_about_rejected_order_def split: if_splits)

lemma rejection_never_notifies_witness:
  "\<exists>rejected t. reject (demo_order 102 CREATE PENDING_PROVIDER 62 5) pending_market = (Inr rejected, t) \<and>
    notify_user_about_rejected_order (Some PENDING_PROVIDER) rejected t = (Inr (), t)"
proof -
  obtain rejected t where
    "reject (demo_order 102 CREATE PENDING_PROVIDER 62 5) pending_market = (Inr rejected, t)"
    by (simp add: reject_def ebind_run completed_run demo_order_def)
  then show ?thesis using rejection_never_notifies by blast
qed

text \<open>
  An update whose order has lost its creator can never be completed.  \<open>created_by\<close> becomes null when
  the account is deleted, but the completion reads the creator's name unconditionally: the call raises,
  the transaction is rolled back, and the order stays executing, for every resource and order.
\<close>

theorem deleted_creator_blocks_update:
  assumes "keys_unique s" and "executing_orders s (res_pk r0) UPDATE = [ord]"
    and "find_resource s (res_pk r0) = Some r" and "res_state r \<noteq> RES_TERMINATED" and "created_by ord = None"
  shows "resource_update_succeeded env r0 v s = (Inl NoAttribute, s)"
proof -
  note pk = find_resource_pk [OF assms(3)]
  have move: "\<exists>t. set_order_state (res_pk r) UPDATE DONE v s = (Inr (Some (moved DONE (now s) ord)), t)"
    using set_order_state_run [OF assms(1-3), of DONE "res_state r" v] pk by (simp add: handler_state_def)
  then obtain t where t: "set_order_state (res_pk r) UPDATE DONE v s = (Inr (Some (moved DONE (now s) ord)), t)" ..
  have raise: "apply_update env (moved DONE (now s) ord) x u = (Inl NoAttribute, u)" for x u
    using assms(5) by (simp add: apply_update_def)
  have ok: "\<exists>x. (if res_state r \<noteq> RES_OK then elift (resource_set_state_ok r) else ereturn r) t = (Inr x, t)"
    using assms(4) by (cases "res_state r") (simp_all add: resource_set_state_ok_def)
  then obtain x where x: "(if res_state r \<noteq> RES_OK then elift (resource_set_state_ok r) else ereturn r) t = (Inr x, t)" ..
  show ?thesis
    unfolding resource_update_succeeded_def atomic_def
    by (simp only: ebind_run get_run assms(3) found_Some prod.case sum.case option.case t x raise)
qed

lemma deleted_creator_blocks_update_witness:
  "resource_update_succeeded demo_env (demo_resource 60 RES_UPDATING 5) False
     (demo_market [demo_order 100 UPDATE EXECUTING 60 5\<lparr>created_by := None\<rparr>] [demo_resource 60 RES_UPDATING 5]) =
   (Inl NoAttribute,
     demo_market [demo_order 100 UPDATE EXECUTING 60 5\<lparr>created_by := None\<rparr>] [demo_resource 60 RES_UPDATING 5])"
  by (rule deleted_creator_blocks_update [where ord = "demo_order 100 UPDATE EXECUTING 60 5\<lparr>created_by := None\<rparr>"
        and r = "demo_resource 60 RES_UPDATING 5"])
    (simp_all add: demo_defs keys_unique_def executing_orders_def find_resource_def)

text \<open>
  A rejected order can be executed after all.  The agent's report of an error accepts an order in any
  state, so it turns a rejected order into an erred one, and the retry of an erred order executes it
  and queues its processing: no consumer and no provider has approved it in between.
\<close>

definition rejected_market :: market where
  "rejected_market = demo_market [demo_order 103 CREATE REJECTED 63 5] [demo_resource 63 RES_TERMINATED 5]"

definition order_state_in :: "market \<Rightarrow> nat \<Rightarrow> order_state option" where
  "order_state_in s pk = map_option order_state (find_order s pk)"

definition resource_state_in :: "market \<Rightarrow> nat \<Rightarrow> resource_state option" where
  "resource_state_in s pk = map_option res_state (find_resource s pk)"

definition no_details :: error_details where
  "no_details = \<lparr>ed_message = ''timeout'', ed_traceback = '''', ed_comment = ''''\<rparr>"

theorem rejected_order_can_be_executed:
  "order_state_in rejected_market 103 = Some REJECTED \<and>
   (case ethen (report_erred 103 no_details) (retry [SITE_AGENT_OFFERING] 103 (Some 41)) rejected_market of
      (Inl _, _) \<Rightarrow> False
    | (Inr _, t) \<Rightarrow> order_state_in t 103 = Some EXECUTING \<and> resource_state_in t 63 = Some RES_CREATING \<and>
        tasks t = [ProcessOrder 103 (Some 41)] \<and>
        map_option consumer_reviewed_by (find_order t 103) = Some None \<and>
        map_option provider_reviewed_by (find_order t 103) = Some None)"
  by code_simp

text \<open>
  An order that needs no approval is executed before its start date.  With start dates enabled, the
  same order with a start date ten days ahead waits when a consumer approves it, but is executed, and
  its processing queued, when its creator may skip the approval.
\<close>

definition future_order :: order where
  "future_order = demo_order 104 CREATE PENDING_CONSUMER 64 6\<lparr>order_start_date := Some 739010\<rparr>"

theorem start_date_ignored_without_approval:
  "(case create_order future_order (demo_market [] [demo_resource 64 RES_CREATING 6]) of
      (Inl _, _) \<Rightarrow> False
    | (Inr _, t) \<Rightarrow> order_state_in t 104 = Some EXECUTING \<and> tasks t = [ProcessOrder 104 (Some 40)] \<and>
        ENABLE_ORDER_START_DATE t \<and> today t < 739010) \<and>
   (case approve_by_consumer 104 (Some 40) (demo_market [future_order] [demo_resource 64 RES_CREATING 6]) of
      (Inl _, _) \<Rightarrow> False
    | (Inr _, t) \<Rightarrow> order_state_in t 104 = Some PENDING_START_DATE \<and> tasks t = [])"
  by code_simp

text \<open>
  A failed creation ends in two ways.  For an executing order whose resource never got a backend id
  the agent's report leaves the resource terminated, as its comment says it must; the same failure
  reported through \<open>sync_order_state\<close> overwrites that decision and leaves the resource erred.
\<close>

definition creating_market :: market where
  "creating_market = demo_market [demo_order 105 CREATE EXECUTING 65 5] [demo_resource 65 RES_CREATING 5]"

theorem failed_creation_two_ways:
  "(case report_erred 105 no_details creating_market of
      (Inl _, _) \<Rightarrow> False
    | (Inr _, t) \<Rightarrow> order_state_in t 105 = Some ERRED \<and> resource_state_in t 65 = Some RES_TERMINATED) \<and>
   (case sync_order_state demo_env (demo_order 105 CREATE EXECUTING 65 5) ERRED creating_market of
      (Inl _, _) \<Rightarrow> False
    | (Inr _, t) \<Rightarrow> order_state_in t 105 = Some ERRED \<and> resource_state_in t 65 = Some RES_ERRED)"
  by code_simp

end
