(* ===== verification/Quotas.thy ===== *)
theory Quotas
  imports Effects
begin

text \<open>
  Quotas, \<^verbatim>\<open>src/waldur_core/quotas\<close> (\<open>models.py\<close>, \<open>fields.py\<close>, \<open>handlers.py\<close>): usage is a log of
  deltas that is summed on reading, so that concurrent writers only insert.  A quota belongs to a
  scope, a row of a model identified by content type and id; the quota fields are per model.  Inserting
  or deleting a delta also inserts deltas for the aggregating quotas of the scope's ancestors, and
  creating or deleting counted objects inserts deltas for the counters.

  The optional functions \<open>get_delta\<close> and \<open>get_current_usage\<close> of a counter are defined by no field of
  the repository and \<open>creation_condition\<close> only by one plain field, so they are left out, as are the
  values a 64-bit column cannot hold.  The signal handlers read \<open>quota.scope\<close>, an object freshly loaded
  by the generic foreign key: the flag \<open>_deleting\<close> that \<open>Project.delete\<close> sets on its own instance is
  never set on it, so the test of that flag is always false and does not appear below.
\<close>

type_synonym key = "string \<times> nat"

text \<open>
  The kinds of a quota field: plain, a count of the target models reached by a path, the total of a
  field of the target models, and the aggregation of a quota of descendants.
\<close>

datatype field_kind = PlainField
  | CounterField "string list" string
  | TotalField "string list" string string
  | AggregatorField "string option"

record quota_field =
  qf_name :: string
  qf_kind :: field_kind
  default_limit :: int

text \<open>
  An object that counters count: its model, its id, the scope each path leads to (none once that is
  deleted) and its numeric fields.
\<close>

record target =
  t_model :: string
  t_id :: nat
  t_scopes :: "(string, key) dict"
  t_values :: "(string, int) dict"

text \<open>
  \<open>scopes\<close> lists the existing scope rows with their parents, \<open>None\<close> for a model without
  \<open>get_parents\<close>; \<open>children_of\<close> what \<open>get_children\<close> of an aggregating field returns for a scope.
\<close>

record quota_db =
  classes :: "(string, quota_field list) dict"
  scopes :: "(key, key list option) dict"
  children_of :: "(key \<times> string, key list) dict"
  targets :: "target list"
  quota_limit_rows :: "(key \<times> string, int) dict"
  quota_usage_rows :: "(key \<times> string \<times> int) list"

datatype quota_error = QuotaValidationError "string list"

definition get_quotas_fields :: "quota_db \<Rightarrow> key \<Rightarrow> quota_field list" where
  "get_quotas_fields db k = (case map_of (classes db) (fst k) of None \<Rightarrow> [] | Some fs \<Rightarrow> fs)"

definition get_field :: "quota_db \<Rightarrow> key \<Rightarrow> string \<Rightarrow> quota_field option" where
  "get_field db k n = List.find (\<lambda>f. qf_name f = n) (get_quotas_fields db k)"

subsection \<open>Reading\<close>

definition total :: "(key \<times> string \<times> int) list \<Rightarrow> key \<Rightarrow> string \<Rightarrow> int" where
  "total rows k n = sum_list (map (\<lambda>(_, _, d). d) (filter (\<lambda>(k', n', _). k' = k \<and> n' = n) rows))"

definition get_quota_usage :: "quota_db \<Rightarrow> key \<Rightarrow> string \<Rightarrow> bool \<Rightarrow> int" where
  "get_quota_usage db k n sanitize =
     (let t = total (quota_usage_rows db) k n in if sanitize \<and> t < 0 then 0 else max 0 t)"

definition get_quota_limit :: "quota_db \<Rightarrow> key \<Rightarrow> string \<Rightarrow> int" where
  "get_quota_limit db k n =
     (case map_of (quota_limit_rows db) (k, n) of
        Some v \<Rightarrow> v
      | None \<Rightarrow> (case get_field db k n of Some f \<Rightarrow> default_limit f | None \<Rightarrow> -1))"

definition set_quota_limit :: "quota_db \<Rightarrow> key \<Rightarrow> string \<Rightarrow> int \<Rightarrow> quota_db" where
  "set_quota_limit db k n v = db\<lparr>quota_limit_rows := dict_set (k, n) v (quota_limit_rows db)\<rparr>"

definition usage_names :: "quota_db \<Rightarrow> key \<Rightarrow> string list" where
  "usage_names db k = remdups (map (\<lambda>(_, n, _). n) (filter (\<lambda>(k', _, _). k' = k) (quota_usage_rows db)))"

definition quota_usages :: "quota_db \<Rightarrow> key \<Rightarrow> (string, int) dict" where
  "quota_usages db k = map (\<lambda>n. (n, max 0 (total (quota_usage_rows db) k n))) (usage_names db k)"

definition quota_limits :: "quota_db \<Rightarrow> key \<Rightarrow> (string, int) dict" where
  "quota_limits db k = map (\<lambda>((_, n), v). (n, v)) (filter (\<lambda>((k', _), _). k' = k) (quota_limit_rows db))"

definition quotas :: "quota_db \<Rightarrow> key \<Rightarrow> (string \<times> int \<times> int) list" where
  "quotas db k =
     (let us = quota_usages db k; ls = quota_limits db k
      in map (\<lambda>n. (n, (case map_of us n of None \<Rightarrow> 0 | Some u \<Rightarrow> u), (case map_of ls n of None \<Rightarrow> -1 | Some l \<Rightarrow> l)))
           (remdups (map fst us @ map fst ls)))"

subsection \<open>Ancestors\<close>

definition get_parents :: "quota_db \<Rightarrow> key \<Rightarrow> key list option" where
  "get_parents db k = (case map_of (scopes db) k of None \<Rightarrow> None | Some ps \<Rightarrow> ps)"

definition add_unique :: "key list \<Rightarrow> key list \<Rightarrow> key list" where
  "add_unique new acc = fold (\<lambda>p acc. if p \<in> set acc then acc else acc @ [p]) new acc"

text \<open>The number is \<open>max_depth - current_depth\<close>; at the limit the search returns nothing.\<close>

fun get_ancestors :: "quota_db \<Rightarrow> nat \<Rightarrow> key \<Rightarrow> key list" where
  "get_ancestors db 0 k = []"
| "get_ancestors db (Suc depth) k =
     (case get_parents db k of
        None \<Rightarrow> []
      | Some ancestors \<Rightarrow>
          fold (\<lambda>a. add_unique (get_ancestors db depth a)) (filter (\<lambda>a. get_parents db a \<noteq> None) ancestors) ancestors)"

definition max_depth :: nat where "max_depth = 10"

subsection \<open>Writing\<close>

definition child_quota_name :: "quota_field \<Rightarrow> string option" where
  "child_quota_name f =
     (case qf_kind f of AggregatorField c \<Rightarrow> Some (case c of Some n \<Rightarrow> n | None \<Rightarrow> qf_name f) | _ \<Rightarrow> None)"

definition is_aggregator :: "quota_field \<Rightarrow> bool" where
  "is_aggregator f \<longleftrightarrow> child_quota_name f \<noteq> None"

definition create_row :: "quota_db \<Rightarrow> key \<Rightarrow> string \<Rightarrow> int \<Rightarrow> quota_db" where
  "create_row db k n d = db\<lparr>quota_usage_rows := quota_usage_rows db @ [(k, n, d)]\<rparr>"

text \<open>The aggregating quotas a delta of quota \<open>n\<close> of scope \<open>k\<close> also counts for.\<close>

definition aggregator_quotas :: "quota_db \<Rightarrow> key \<Rightarrow> string \<Rightarrow> (key \<times> quota_field) list" where
  "aggregator_quotas db k n =
     concat (map (\<lambda>a. map (Pair a) (filter (\<lambda>f. child_quota_name f = Some n) (get_quotas_fields db a)))
       (remdups (get_ancestors db max_depth k)))"

text \<open>
  The handler of an inserted row (\<open>delta\<close>) and of a deleted one (\<open>-delta\<close>).  The rows it inserts belong
  to aggregating fields, for which the handler itself returns at once, so they are plain inserts.
\<close>

definition handle_aggregated_quotas :: "quota_db \<Rightarrow> key \<Rightarrow> string \<Rightarrow> int \<Rightarrow> quota_db" where
  "handle_aggregated_quotas db k n d =
     (if map_of (scopes db) k = None then db
      else case get_field db k n of
        None \<Rightarrow> db
      | Some f \<Rightarrow>
          if is_aggregator f then db
          else fold (\<lambda>(a, g) db. if d = 0 then db else create_row db a (qf_name g) d) (aggregator_quotas db k n) db)"

definition create_usage :: "quota_db \<Rightarrow> key \<Rightarrow> string \<Rightarrow> int \<Rightarrow> quota_db" where
  "create_usage db k n d = handle_aggregated_quotas (create_row db k n d) k n d"

definition quota_exceeded :: "quota_db \<Rightarrow> key \<Rightarrow> string \<Rightarrow> int \<Rightarrow> bool" where
  "quota_exceeded db k n d \<longleftrightarrow> d \<noteq> 0 \<and> get_quota_limit db k n \<noteq> -1 \<and>
     get_quota_usage db k n True + d > get_quota_limit db k n"

definition validate_quota_change :: "quota_db \<Rightarrow> key \<Rightarrow> (string, int) dict \<Rightarrow> (quota_error, unit) result" where
  "validate_quota_change db k deltas =
     (let errors = map fst (filter (\<lambda>(n, d). quota_exceeded db k n d) deltas)
      in if errors \<noteq> [] then Inl (QuotaValidationError errors) else Inr ())"

definition add_quota_usage :: "quota_db \<Rightarrow> key \<Rightarrow> string \<Rightarrow> int \<Rightarrow> bool \<Rightarrow> (quota_error, quota_db) result" where
  "add_quota_usage db k n d validate =
     (if d = 0 then Inr db
      else rbind (if validate then validate_quota_change db k [(n, d)] else Inr ()) (\<lambda>_.
        Inr (create_usage db k n d)))"

text \<open>\<open>sanitize=False\<close> is passed here, but the reader clamps the total at zero either way.\<close>

definition set_quota_usage :: "quota_db \<Rightarrow> key \<Rightarrow> string \<Rightarrow> int \<Rightarrow> (quota_error, quota_db) result" where
  "set_quota_usage db k n usage =
     (let current = get_quota_usage db k n False in add_quota_usage db k n (usage - current) False)"

definition apply_quota_usage :: "quota_db \<Rightarrow> key \<Rightarrow> (string, int) dict \<Rightarrow> quota_db" where
  "apply_quota_usage db k deltas = fold (\<lambda>(n, d) db. if d \<noteq> 0 then create_usage db k n d else db) deltas db"

text \<open>\<open>SharedQuotaMixin\<close>: the same deltas for several scopes; a missing scope is skipped.\<close>

definition apply_quota_changes ::
    "quota_db \<Rightarrow> key option list \<Rightarrow> (string, int) dict \<Rightarrow> int \<Rightarrow> bool \<Rightarrow> (quota_error, quota_db) result" where
  "apply_quota_changes db scps deltas mult validate =
     rfold (\<lambda>db (n, d). rfold (\<lambda>db s. case s of None \<Rightarrow> Inr db | Some k \<Rightarrow> add_quota_usage db k n (d * mult) validate)
       db scps) db deltas"

definition increase_backend_quotas_usage ::
    "quota_db \<Rightarrow> key option list \<Rightarrow> (string, int) dict \<Rightarrow> bool \<Rightarrow> (quota_error, quota_db) result" where
  "increase_backend_quotas_usage db scps deltas validate = apply_quota_changes db scps deltas 1 validate"

definition decrease_backend_quotas_usage ::
    "quota_db \<Rightarrow> key option list \<Rightarrow> (string, int) dict \<Rightarrow> (quota_error, quota_db) result" where
  "decrease_backend_quotas_usage db scps deltas = apply_quota_changes db scps deltas (-1) False"

subsection \<open>Counters\<close>

definition field_delta :: "quota_field \<Rightarrow> target \<Rightarrow> int" where
  "field_delta f t = (case qf_kind f of
     TotalField _ _ v \<Rightarrow> (case map_of (t_values t) v of None \<Rightarrow> 0 | Some x \<Rightarrow> x) | _ \<Rightarrow> 1)"

definition counts_target :: "quota_field \<Rightarrow> target \<Rightarrow> bool" where
  "counts_target f t = (case qf_kind f of
     CounterField ms _ \<Rightarrow> t_model t \<in> set ms | TotalField ms _ _ \<Rightarrow> t_model t \<in> set ms | _ \<Rightarrow> False)"

definition path_to_scope :: "quota_field \<Rightarrow> string" where
  "path_to_scope f = (case qf_kind f of CounterField _ p \<Rightarrow> p | TotalField _ p _ \<Rightarrow> p | _ \<Rightarrow> [])"

definition scope_of :: "quota_db \<Rightarrow> quota_field \<Rightarrow> target \<Rightarrow> key option" where
  "scope_of db f t = (case map_of (t_scopes t) (path_to_scope f) of
     None \<Rightarrow> None | Some k \<Rightarrow> if map_of (scopes db) k = None then None else Some k)"

definition add_usage :: "quota_db \<Rightarrow> quota_field \<Rightarrow> target \<Rightarrow> int \<Rightarrow> (quota_error, quota_db) result" where
  "add_usage db f t d =
     (case scope_of db f t of
        None \<Rightarrow> Inr db
      | Some k \<Rightarrow> add_quota_usage db k (qf_name f) (d * field_delta f t) False)"

text \<open>
  The counter fields that watch the model of an object: those of every model with quotas, each for
  the scopes of its own model.
\<close>

definition counter_fields :: "quota_db \<Rightarrow> target \<Rightarrow> (string \<times> quota_field) list" where
  "counter_fields db t =
     concat (map (\<lambda>(c, fs). map (Pair c) (filter (\<lambda>f. counts_target f t) fs)) (classes db))"

definition count_quota_handlers :: "quota_db \<Rightarrow> target \<Rightarrow> int \<Rightarrow> (quota_error, quota_db) result" where
  "count_quota_handlers db t d = rfold (\<lambda>db (c, f). add_usage db f t d) db (counter_fields db t)"

definition target_created :: "quota_db \<Rightarrow> target \<Rightarrow> (quota_error, quota_db) result" where
  "target_created db t = count_quota_handlers (db\<lparr>targets := targets db @ [t]\<rparr>) t 1"

definition target_deleted :: "quota_db \<Rightarrow> target \<Rightarrow> (quota_error, quota_db) result" where
  "target_deleted db t =
     count_quota_handlers (db\<lparr>targets := filter (\<lambda>x. \<not> (t_model x = t_model t \<and> t_id x = t_id t)) (targets db)\<rparr>) t (-1)"

subsection \<open>Recalculation and deletion of a scope\<close>

definition counted_targets :: "quota_db \<Rightarrow> key \<Rightarrow> quota_field \<Rightarrow> target list" where
  "counted_targets db k f =
     filter (\<lambda>t. counts_target f t \<and> map_of (t_scopes t) (path_to_scope f) = Some k) (targets db)"

definition current_usage :: "quota_db \<Rightarrow> key \<Rightarrow> quota_field \<Rightarrow> int" where
  "current_usage db k f =
     (case qf_kind f of
        CounterField _ _ \<Rightarrow> int (length (counted_targets db k f))
      | TotalField _ _ _ \<Rightarrow> sum_list (map (field_delta f) (counted_targets db k f))
      | AggregatorField _ \<Rightarrow>
          sum_list (map (\<lambda>c. get_quota_usage db c (the (child_quota_name f)) True)
            (case map_of (children_of db) (k, qf_name f) of None \<Rightarrow> [] | Some cs \<Rightarrow> cs))
      | PlainField \<Rightarrow> 0)"

definition recalculate :: "quota_db \<Rightarrow> key \<Rightarrow> quota_field \<Rightarrow> (quota_error, quota_db) result" where
  "recalculate db k f =
     (if qf_kind f = PlainField then Inr db else set_quota_usage db k (qf_name f) (current_usage db k f))"

definition is_counter :: "quota_field \<Rightarrow> bool" where
  "is_counter f = (case qf_kind f of CounterField _ _ \<Rightarrow> True | TotalField _ _ _ \<Rightarrow> True | _ \<Rightarrow> False)"

definition projects_customer_has_been_changed :: "quota_db \<Rightarrow> key \<Rightarrow> key \<Rightarrow> (quota_error, quota_db) result" where
  "projects_customer_has_been_changed db old_customer new_customer =
     rfold (\<lambda>db (f, k). recalculate db k f) db
       (concat (map (\<lambda>f. [(f, old_customer), (f, new_customer)]) (filter is_counter (get_quotas_fields db old_customer))) @
        concat (map (\<lambda>f. [(f, old_customer), (f, new_customer)])
          (filter is_aggregator (get_quotas_fields db old_customer))))"

definition update_standard_quotas :: "quota_db \<Rightarrow> (quota_error, quota_db) result" where
  "update_standard_quotas db =
     rfold (\<lambda>db (f, k). recalculate db k f) db
       (concat (map (\<lambda>(c, fs). concat (map (\<lambda>f. map (Pair f) (filter (\<lambda>k. fst k = c) (map fst (scopes db)))) fs))
         (classes db)))"

definition delete_quotas_when_model_is_deleted :: "quota_db \<Rightarrow> key \<Rightarrow> quota_db" where
  "delete_quotas_when_model_is_deleted db k =
     (let own = filter (\<lambda>(k', _, _). k' = k) (quota_usage_rows db);
          db1 = db\<lparr>quota_limit_rows := filter (\<lambda>((k', _), _). k' \<noteq> k) (quota_limit_rows db)\<rparr>;
          db2 = fold (\<lambda>(k', n, d) db. handle_aggregated_quotas db k' n (- d)) own db1
      in db2\<lparr>quota_usage_rows := filter (\<lambda>(k', _, _). k' \<noteq> k) (quota_usage_rows db2)\<rparr>)"

end
