(* ===== verification/Quotas_Facts.thy ===== *)
theory Quotas_Facts
  imports Quotas "HOL-Library.Multiset"
begin

text \<open>
  What a delta adds to the usage log, and what it does to the total of every quota: the facts the
  properties of \<open>Quotas\<close> rest on.
\<close>

named_theorems log_simps \<open>the rows an operation appends to the usage log\<close>

subsection \<open>Totals\<close>

lemma total_Nil [simp]: "total [] k n = 0"
  by (simp add: total_def)

lemma total_Cons [simp]:
  "total ((k', n', d) # rows) k n = (if k' = k \<and> n' = n then d else 0) + total rows k n"
  by (simp add: total_def)

lemma total_append [simp]: "total (xs @ ys) k n = total xs k n + total ys k n"
  by (simp add: total_def)

lemma total_sum_mset:
  "total xs k n = (\<Sum>(k', n', d)\<in>#mset xs. if k' = k \<and> n' = n then d else 0)"
  by (induction xs) auto

lemma total_mset: "mset xs = mset ys \<Longrightarrow> total xs k n = total ys k n"
  by (simp add: total_sum_mset)

lemma total_other_rows: "\<forall>x\<in>set xs. fst x \<noteq> k \<or> fst (snd x) \<noteq> n \<Longrightarrow> total xs k n = 0"
  by (induction xs) auto

lemma total_filter_out: "total (filter (\<lambda>(k', _, _). k' \<noteq> j) rows) k n = (if k = j then 0 else total rows k n)"
  by (induction rows) auto

lemma total_filter_own: "total (filter (\<lambda>(k', _, _). k' = k) rows) k n = total rows k n"
  by (induction rows) auto

lemma usage_clamped: "get_quota_usage db k n sanitize = max 0 (total (quota_usage_rows db) k n)"
  by (simp add: get_quota_usage_def Let_def)

subsection \<open>The configuration is not touched by usage\<close>

lemma get_quotas_fields_rows [simp]:
  "get_quotas_fields (db\<lparr>quota_usage_rows := rows\<rparr>) k = get_quotas_fields db k"
  by (simp add: get_quotas_fields_def)

lemma get_field_rows [simp]: "get_field (db\<lparr>quota_usage_rows := rows\<rparr>) k n = get_field db k n"
  by (simp add: get_field_def)

lemma get_parents_rows [simp]: "get_parents (db\<lparr>quota_usage_rows := rows\<rparr>) k = get_parents db k"
  by (simp add: get_parents_def)

lemma get_ancestors_rows [simp]:
  "get_ancestors (db\<lparr>quota_usage_rows := rows\<rparr>) depth k = get_ancestors db depth k"
  by (induction depth arbitrary: k) (simp_all cong: option.case_cong)

lemma aggregator_quotas_rows [simp]:
  "aggregator_quotas (db\<lparr>quota_usage_rows := rows\<rparr>) k n = aggregator_quotas db k n"
  by (simp add: aggregator_quotas_def)

subsection \<open>The rows a delta adds\<close>

definition aggregate_rows :: "quota_db \<Rightarrow> key \<Rightarrow> string \<Rightarrow> int \<Rightarrow> (key \<times> string \<times> int) list" where
  "aggregate_rows db k n d =
     (if map_of (scopes db) k = None then []
      else case get_field db k n of
        None \<Rightarrow> []
      | Some f \<Rightarrow> if is_aggregator f \<or> d = 0 then [] else map (\<lambda>(a, g). (a, qf_name g, d)) (aggregator_quotas db k n))"

lemma aggregate_rows_rows [simp]:
  "aggregate_rows (db\<lparr>quota_usage_rows := rows\<rparr>) k n d = aggregate_rows db k n d"
  by (simp add: aggregate_rows_def split: option.split)

lemma fold_create_row:
  "fold (\<lambda>(a, g) db. create_row db a (qf_name g) d) xs db =
     db\<lparr>quota_usage_rows := quota_usage_rows db @ map (\<lambda>(a, g). (a, qf_name g, d)) xs\<rparr>"
  by (induction xs arbitrary: db) (auto simp: create_row_def)

lemma fold_nothing: "fold (\<lambda>(a, g) db. db) xs db = db"
  by (induction xs) auto

lemma handle_aggregated_quotas_log [log_simps]:
  "handle_aggregated_quotas db k n d =
     db\<lparr>quota_usage_rows := quota_usage_rows db @ aggregate_rows db k n d\<rparr>"
proof (cases "map_of (scopes db) k = None \<or> get_field db k n = None")
  case True
  then show ?thesis by (auto simp: handle_aggregated_quotas_def aggregate_rows_def)
next
  case False
  then obtain f v where "map_of (scopes db) k = Some v" "get_field db k n = Some f" by auto
  then show ?thesis
    by (cases "d = 0")
      (simp_all add: handle_aggregated_quotas_def aggregate_rows_def fold_create_row fold_nothing)
qed

lemma create_usage_log [log_simps]:
  "create_usage db k n d =
     db\<lparr>quota_usage_rows := quota_usage_rows db @ (k, n, d) # aggregate_rows db k n d\<rparr>"
  by (simp add: create_usage_def create_row_def handle_aggregated_quotas_log)

text \<open>A list of deltas, applied one after the other.\<close>

definition create_usages :: "quota_db \<Rightarrow> (key \<times> string \<times> int) list \<Rightarrow> quota_db" where
  "create_usages db ds = fold (\<lambda>(k, n, d) db. create_usage db k n d) ds db"

definition log_of :: "quota_db \<Rightarrow> (key \<times> string \<times> int) list \<Rightarrow> (key \<times> string \<times> int) list" where
  "log_of db ds = concat (map (\<lambda>(k, n, d). (k, n, d) # aggregate_rows db k n d) ds)"

lemma log_of_rows [simp]: "log_of (db\<lparr>quota_usage_rows := rows\<rparr>) ds = log_of db ds"
  by (simp add: log_of_def)

lemma create_usages_log [log_simps]:
  "create_usages db ds = db\<lparr>quota_usage_rows := quota_usage_rows db @ log_of db ds\<rparr>"
proof (induction ds arbitrary: db)
  case Nil
  then show ?case by (simp add: create_usages_def log_of_def)
next
  case (Cons x ds)
  obtain k n d where x: "x = (k, n, d)" by (cases x)
  have "create_usages db (x # ds) = create_usages (create_usage db k n d) ds"
    by (simp add: create_usages_def x)
  then show ?case by (simp add: Cons.IH log_simps x) (simp add: log_of_def)
qed

lemma add_quota_usage_log [log_simps]:
  "add_quota_usage db k n d False = Inr (create_usages db (if d = 0 then [] else [(k, n, d)]))"
  by (simp add: add_quota_usage_def create_usages_def)

subsection \<open>Well-formed models: one field per name\<close>

definition wf_classes :: "quota_db \<Rightarrow> bool" where
  "wf_classes db \<longleftrightarrow> distinct (map fst (classes db)) \<and>
     (\<forall>(c, fs) \<in> set (classes db). distinct (map qf_name fs))"

lemma wf_classes_rows [simp]: "wf_classes (db\<lparr>quota_usage_rows := rows\<rparr>) = wf_classes db"
  by (simp add: wf_classes_def)

lemma wf_fields_distinct: "wf_classes db \<Longrightarrow> distinct (map qf_name (get_quotas_fields db k))"
  by (auto simp: wf_classes_def get_quotas_fields_def split: option.splits dest!: map_of_SomeD)

lemma get_field_Some: "get_field db k n = Some f \<Longrightarrow> f \<in> set (get_quotas_fields db k) \<and> qf_name f = n"
  by (auto simp: get_field_def find_Some_iff)

lemma get_field_iff:
  assumes "wf_classes db"
  shows "get_field db k n = Some f \<longleftrightarrow> f \<in> set (get_quotas_fields db k) \<and> qf_name f = n"
proof
  assume "f \<in> set (get_quotas_fields db k) \<and> qf_name f = n"
  then show "get_field db k n = Some f"
    using first_row_key [of qf_name "get_quotas_fields db k" f] wf_fields_distinct [OF assms]
    by (simp add: get_field_def first_row_def)
qed (rule get_field_Some)

text \<open>Quota \<open>m\<close> of scope \<open>a\<close> aggregates quota \<open>n\<close> of scope \<open>k\<close>.\<close>

definition counts_for :: "quota_db \<Rightarrow> key \<Rightarrow> string \<Rightarrow> key \<Rightarrow> string \<Rightarrow> bool" where
  "counts_for db a m k n \<longleftrightarrow> map_of (scopes db) k \<noteq> None \<and>
     (\<exists>f. get_field db k n = Some f \<and> \<not> is_aggregator f) \<and> a \<in> set (get_ancestors db max_depth k) \<and>
     (\<exists>g. get_field db a m = Some g \<and> child_quota_name g = Some n)"

lemma total_of_scope:
  assumes "distinct (map qf_name fs)"
  shows "total (map (\<lambda>g. (a, qf_name g, d)) (filter P fs)) a m = (if \<exists>g\<in>set fs. qf_name g = m \<and> P g then d else 0)"
  using assms by (induction fs) (auto split: if_splits)

lemma total_of_scopes:
  assumes "distinct ks"
  shows "total (concat (map (\<lambda>b. map (\<lambda>g. (b, qf_name g, d)) (F b)) ks)) a m =
    (if a \<in> set ks then total (map (\<lambda>g. (a, qf_name g, d)) (F a)) a m else 0)"
  using assms
proof (induction ks)
  case (Cons b ks)
  have "total (map (\<lambda>g. (b, qf_name g, d)) (F b)) a m = 0" if "b \<noteq> a"
    using that by (auto intro: total_other_rows)
  then show ?case using Cons by auto
qed simp

lemma total_aggregate_rows:
  assumes "wf_classes db"
  shows "total (aggregate_rows db k n d) a m = (if counts_for db a m k n then d else 0)"
proof (cases "map_of (scopes db) k \<noteq> None \<and> (\<exists>f. get_field db k n = Some f \<and> \<not> is_aggregator f) \<and> d \<noteq> 0")
  case True
  then have rows: "aggregate_rows db k n d =
      concat (map (\<lambda>b. map (\<lambda>g. (b, qf_name g, d)) (filter (\<lambda>g. child_quota_name g = Some n) (get_quotas_fields db b)))
        (remdups (get_ancestors db max_depth k)))"
    by (auto simp: aggregate_rows_def aggregator_quotas_def map_concat comp_def)
  show ?thesis
    unfolding rows
    by (subst total_of_scopes)
      (use True in \<open>auto simp: total_of_scope wf_fields_distinct [OF assms] counts_for_def get_field_iff [OF assms]\<close>)
next
  case False
  then have "aggregate_rows db k n d = []" by (auto simp: aggregate_rows_def split: option.splits)
  moreover have "d = 0 \<or> \<not> counts_for db a m k n" using False by (auto simp: counts_for_def)
  ultimately show ?thesis by auto
qed

text \<open>An aggregating field collects nothing for a plain one and the other way round.\<close>

definition plain_quota :: "quota_db \<Rightarrow> key \<Rightarrow> string \<Rightarrow> bool" where
  "plain_quota db k n \<longleftrightarrow> (\<forall>f. get_field db k n = Some f \<longrightarrow> \<not> is_aggregator f)"

lemma plain_not_aggregate: "plain_quota db a m \<Longrightarrow> \<not> counts_for db a m k n"
  by (auto simp: plain_quota_def counts_for_def is_aggregator_def)

lemma plain_quota_rows [simp]: "plain_quota (db\<lparr>quota_usage_rows := rows\<rparr>) k n = plain_quota db k n"
  by (simp add: plain_quota_def)

lemma not_plain_no_aggregate: "\<not> plain_quota db k n \<Longrightarrow> \<not> counts_for db a m k n"
  by (auto simp: plain_quota_def counts_for_def)

lemma counts_for_rows [simp]: "counts_for (db\<lparr>quota_usage_rows := rows\<rparr>) a m k n = counts_for db a m k n"
  by (simp add: counts_for_def)

lemma total_log_of:
  assumes "wf_classes db"
  shows "total (log_of db ds) a m =
    (\<Sum>(k, n, d)\<leftarrow>ds. (if k = a \<and> n = m then d else 0) + (if counts_for db a m k n then d else 0))"
  by (induction ds) (auto simp: log_of_def total_aggregate_rows [OF assms])

lemma not_own_aggregate: "\<not> counts_for db k n k n"
  using plain_not_aggregate not_plain_no_aggregate by blast

end
