(* ===== verification/Quotas_Aggregates.thy ===== *)
theory Quotas_Aggregates
  imports Quotas_Facts
begin

text \<open>
  The aggregating quotas: the invariant that each is the sum of the quotas it collects, its
  preservation by every operation on plain quotas, by counter events and by the deletion of a
  scope's quotas, and the step relation that gathers these.
\<close>

subsection \<open>Aggregates\<close>

definition aggregates_agree :: "quota_db \<Rightarrow> bool" where
  "aggregates_agree db \<longleftrightarrow> (\<forall>a m g c. get_field db a m = Some g \<longrightarrow> child_quota_name g = Some c \<longrightarrow>
     total (quota_usage_rows db) a m =
       (\<Sum>k\<in>{k \<in> fst ` set (scopes db). counts_for db a m k c}. total (quota_usage_rows db) k c))"

definition quota_inv :: "quota_db \<Rightarrow> bool" where
  "quota_inv db \<longleftrightarrow> wf_classes db \<and> aggregates_agree db"

lemma get_ancestors_cong:
  "scopes db' = scopes db \<Longrightarrow> get_ancestors db' depth k = get_ancestors db depth k"
  by (induction depth arbitrary: k) (simp_all add: get_parents_def split: option.split)

lemma config_cong:
  assumes "classes db' = classes db" and "scopes db' = scopes db"
  shows "wf_classes db' = wf_classes db" and "get_field db' k n = get_field db k n"
    and "plain_quota db' k n = plain_quota db k n" and "counts_for db' a m k n = counts_for db a m k n"
  using assms
  by (simp_all add: wf_classes_def get_field_def get_quotas_fields_def plain_quota_def counts_for_def
      get_ancestors_cong [OF assms(2)])

lemma quota_inv_cong:
  assumes "classes db' = classes db" and "scopes db' = scopes db" and "quota_usage_rows db' = quota_usage_rows db"
  shows "quota_inv db' = quota_inv db"
  unfolding quota_inv_def aggregates_agree_def
  by (simp only: config_cong [OF assms(1,2)] assms)

lemma aggregate_not_plain: "get_field db a m = Some g \<Longrightarrow> child_quota_name g = Some c \<Longrightarrow> \<not> plain_quota db a m"
  by (simp add: plain_quota_def is_aggregator_def)

lemma counted_plain: "counts_for db a m k n \<Longrightarrow> plain_quota db k n"
  unfolding counts_for_def plain_quota_def by auto

lemma counted_scope: "counts_for db a m k n \<Longrightarrow> k \<in> fst ` set (scopes db)"
  unfolding counts_for_def by (metis map_of_eq_None_iff)

lemma counted_name:
  "get_field db a m = Some g \<Longrightarrow> child_quota_name g = Some c \<Longrightarrow> counts_for db a m k n \<Longrightarrow> n = c"
  unfolding counts_for_def by auto

lemma create_usage_inv:
  assumes inv: "quota_inv db" and plain: "plain_quota db k n"
  shows "quota_inv (create_usage db k n d)"
proof -
  let ?log = "(k, n, d) # aggregate_rows db k n d"
  have wf: "wf_classes db" using inv by (simp add: quota_inv_def)
  have "total (quota_usage_rows db @ ?log) a m =
      (\<Sum>j\<in>{j \<in> fst ` set (scopes db). counts_for db a m j c}. total (quota_usage_rows db @ ?log) j c)"
    if g: "get_field db a m = Some g" "child_quota_name g = Some c" for a m g c
  proof -
    let ?S = "{j \<in> fst ` set (scopes db). counts_for db a m j c}"
    have notk: "(k, n) \<noteq> (a, m)" using aggregate_not_plain [OF g] plain by auto
    have old: "total (quota_usage_rows db) a m = (\<Sum>j\<in>?S. total (quota_usage_rows db) j c)"
      using inv g unfolding quota_inv_def aggregates_agree_def by blast
    have counted: "(k \<in> ?S \<and> c = n) = counts_for db a m k n"
      using counted_scope counted_name [OF g, of k n] by blast
    have "total ?log j c = (if j = k then (if c = n then d else 0) else 0)" if "j \<in> ?S" for j
    proof -
      have "counts_for db a m j c" using that by blast
      then have "plain_quota db j c" by (rule counted_plain)
      then have "\<not> counts_for db j c k n" by (rule plain_not_aggregate)
      then show ?thesis by (simp only: total_Cons total_aggregate_rows [OF wf]) auto
    qed
    then have "(\<Sum>j\<in>?S. total ?log j c) = (\<Sum>j\<in>?S. if j = k then (if c = n then d else 0) else 0)"
      by (rule sum.cong [OF refl])
    also have "\<dots> = (if k \<in> ?S then if c = n then d else 0 else 0)" by (rule sum.delta) simp
    also have "\<dots> = (if k \<in> ?S \<and> c = n then d else 0)" by argo
    also have "\<dots> = (if counts_for db a m k n then d else 0)" by (rule if_cong [OF counted refl refl])
    also have "\<dots> = total ?log a m"
      using notk by (simp only: total_Cons total_aggregate_rows [OF wf]) auto
    finally have "(\<Sum>j\<in>?S. total ?log j c) = total ?log a m" .
    then show ?thesis using old by (simp only: total_append sum.distrib)
  qed
  then have "aggregates_agree (create_usage db k n d)"
    by (simp add: aggregates_agree_def create_usage_log)
  then show ?thesis using wf by (simp add: quota_inv_def create_usage_log)
qed

text \<open>Every operation on plain quotas is a list of plain deltas.\<close>

definition plain_deltas :: "quota_db \<Rightarrow> quota_db \<Rightarrow> bool" where
  "plain_deltas db db' \<longleftrightarrow> (\<exists>ds. db' = create_usages db ds \<and> (\<forall>(k, n, d) \<in> set ds. plain_quota db k n))"

lemma create_usages_append: "create_usages (create_usages db ds) es = create_usages db (ds @ es)"
  by (simp add: create_usages_def)

lemma create_usages_config [simp]:
  "classes (create_usages db ds) = classes db" "scopes (create_usages db ds) = scopes db"
  "quota_limit_rows (create_usages db ds) = quota_limit_rows db"
  "plain_quota (create_usages db ds) k n = plain_quota db k n"
  by (simp_all add: create_usages_log)

lemma plain_deltas_refl: "plain_deltas db db"
  unfolding plain_deltas_def by (rule exI [where x = "[]"]) (simp add: create_usages_def)

lemma plain_deltas_trans: "plain_deltas db t \<Longrightarrow> plain_deltas t u \<Longrightarrow> plain_deltas db u"
  unfolding plain_deltas_def
  by (elim exE conjE, hypsubst, rule_tac x = "ds @ dsa" in exI)
    (auto simp: create_usages_append)

lemma plain_deltas_inv: "plain_deltas db db' \<Longrightarrow> quota_inv db \<Longrightarrow> quota_inv db'"
proof -
  have "quota_inv db \<Longrightarrow> \<forall>(k, n, d) \<in> set ds. plain_quota db k n \<Longrightarrow> quota_inv (create_usages db ds)" for ds
  proof (induction ds rule: rev_induct)
    case (snoc x ds)
    obtain k n d where x: "x = (k, n, d)" by (cases x)
    have "quota_inv (create_usages db ds)" using snoc by simp
    then have "quota_inv (create_usage (create_usages db ds) k n d)"
      by (rule create_usage_inv) (use snoc.prems x in simp)
    then show ?case by (simp add: create_usages_def x)
  qed (simp add: create_usages_def)
  then show "plain_deltas db db' \<Longrightarrow> quota_inv db \<Longrightarrow> quota_inv db'"
    by (auto simp: plain_deltas_def)
qed

lemma plain_deltas_config:
  "plain_deltas db t \<Longrightarrow> plain_quota t k n = plain_quota db k n \<and> classes t = classes db \<and> scopes t = scopes db"
  by (auto simp: plain_deltas_def)

lemma add_plain:
  assumes "add_quota_usage db k n d v = Inr t" and "plain_quota db k n"
  shows "plain_deltas db t"
proof -
  have "t = create_usages db (if d = 0 then [] else [(k, n, d)])"
    using assms(1) by (auto simp: add_quota_usage_def create_usages_def result_simps split: if_splits)
  then show ?thesis
    unfolding plain_deltas_def using assms(2)
    by (intro exI [where x = "if d = 0 then [] else [(k, n, d)]"]) simp
qed

lemma apply_plain:
  "(\<And>n d. (n, d) \<in> set ds \<Longrightarrow> plain_quota db k n) \<Longrightarrow> plain_deltas db (apply_quota_usage db k ds)"
proof (induction ds rule: rev_induct)
  case Nil
  then show ?case by (simp add: apply_quota_usage_def plain_deltas_refl)
next
  case (snoc x ds)
  obtain n d where x: "x = (n, d)" by (cases x)
  let ?t = "apply_quota_usage db k ds"
  have t: "plain_deltas db ?t" by (rule snoc.IH) (use snoc.prems in auto)
  have "plain_deltas ?t (apply_quota_usage db k (ds @ [x]))"
    using add_plain [of ?t k n d False "apply_quota_usage db k (ds @ [x])"] plain_deltas_config [OF t, of k n] snoc.prems [of n d]
    by (simp add: apply_quota_usage_def add_quota_usage_def x split: if_splits)
  then show ?case by (rule plain_deltas_trans [OF t])
qed

lemma changes_plain:
  assumes run: "apply_quota_changes db scps deltas factor v = Inr t"
    and plain: "\<And>k n d. Some k \<in> set scps \<Longrightarrow> (n, d) \<in> set deltas \<Longrightarrow> plain_quota db k n"
  shows "plain_deltas db t"
  using run unfolding apply_quota_changes_def
proof (rule rfold_invariant [where P = "plain_deltas db"])
  fix s x t
  assume s: "plain_deltas db s" and x: "x \<in> set deltas"
    and r: "(\<lambda>db (n, d). rfold (\<lambda>db s. case s of None \<Rightarrow> Inr db | Some k \<Rightarrow> add_quota_usage db k n (d * factor) v) db scps) s x = Inr t"
  obtain n d where nd: "x = (n, d)" by (cases x)
  show "plain_deltas db t"
    using r unfolding nd prod.case
  proof (rule rfold_invariant [where P = "plain_deltas db"])
    fix u y w
    assume u: "plain_deltas db u" and y: "y \<in> set scps"
      and w: "(case y of None \<Rightarrow> Inr u | Some k \<Rightarrow> add_quota_usage u k n (d * factor) v) = Inr w"
    show "plain_deltas db w"
    proof (cases y)
      case None
      then show ?thesis using u w by simp
    next
      case (Some k)
      have "plain_quota u k n" using plain [of k n d] y x nd Some plain_deltas_config [OF u] by simp
      then show ?thesis using add_plain w Some plain_deltas_trans [OF u] by simp
    qed
  qed (rule s)
qed (rule plain_deltas_refl)

subsection \<open>Counter events\<close>

text \<open>The deltas a created (\<open>1\<close>) or deleted (\<open>-1\<close>) object brings to the counters.\<close>

definition counter_deltas :: "quota_db \<Rightarrow> target \<Rightarrow> int \<Rightarrow> (string \<times> quota_field) list \<Rightarrow> (key \<times> string \<times> int) list" where
  "counter_deltas db t d cfs = concat (map (\<lambda>(c, f). case scope_of db f t of
     None \<Rightarrow> [] | Some k \<Rightarrow> if d * field_delta f t = 0 then [] else [(k, qf_name f, d * field_delta f t)]) cfs)"

lemma scope_of_rows [simp]: "scope_of (db\<lparr>quota_usage_rows := rows\<rparr>) f t = scope_of db f t"
  by (simp add: scope_of_def split: option.split)

lemma counter_deltas_rows [simp]:
  "counter_deltas (create_usages db ds) t d cfs = counter_deltas db t d cfs"
  by (simp add: counter_deltas_def create_usages_log)

lemma rfold_add_usage:
  "rfold (\<lambda>db (c, f). add_usage db f t d) db cfs = Inr (create_usages db (counter_deltas db t d cfs))"
proof (induction cfs arbitrary: db)
  case Nil
  then show ?case by (simp add: counter_deltas_def create_usages_def)
next
  case (Cons cf cfs)
  obtain c f where cf: "cf = (c, f)" by (cases cf)
  have "add_usage db f t d = Inr (create_usages db (counter_deltas db t d [cf]))"
    by (simp add: add_usage_def counter_deltas_def cf add_quota_usage_log create_usages_def split: option.split)
  then show ?case
    by (simp add: cf Cons.IH create_usages_append) (simp add: counter_deltas_def)
qed

lemma count_quota_handlers_log:
  "count_quota_handlers db t d = Inr (create_usages db (counter_deltas db t d (counter_fields db t)))"
  by (simp add: count_quota_handlers_def rfold_add_usage)

text \<open>The path of a counter of a model leads to an object of that model.\<close>

definition paths_lead_home :: "quota_db \<Rightarrow> target \<Rightarrow> bool" where
  "paths_lead_home db t \<longleftrightarrow> (\<forall>(c, f) \<in> set (counter_fields db t). \<forall>k. scope_of db f t = Some k \<longrightarrow> fst k = c)"

lemma counter_field_found:
  assumes "wf_classes db" and "paths_lead_home db t" and "(c, f) \<in> set (counter_fields db t)"
    and "scope_of db f t = Some k"
  shows "get_field db k (qf_name f) = Some f \<and> is_counter f"
proof -
  from assms(3) obtain fs where fs: "(c, fs) \<in> set (classes db)" "f \<in> set fs" "counts_target f t"
    by (auto simp: counter_fields_def)
  have "fst k = c" using assms(2-4) unfolding paths_lead_home_def by blast
  then have "get_quotas_fields db k = fs"
    using fs(1) assms(1) by (simp add: get_quotas_fields_def wf_classes_def)
  then show ?thesis using fs by (auto simp: get_field_iff [OF assms(1)] counts_target_def is_counter_def split: field_kind.splits)
qed

lemma is_counter_not_aggregator: "is_counter f \<Longrightarrow> \<not> is_aggregator f"
  by (auto simp: is_counter_def is_aggregator_def child_quota_name_def split: field_kind.splits)

lemma counter_deltas_plain:
  assumes "wf_classes db" and "paths_lead_home db t" and "(k, n, e) \<in> set (counter_deltas db t d (counter_fields db t))"
  shows "plain_quota db k n"
proof -
  obtain c f where "(c, f) \<in> set (counter_fields db t)" "scope_of db f t = Some k" "n = qf_name f"
    using assms(3) by (auto simp: counter_deltas_def split: option.splits if_splits)
  then show ?thesis
    using counter_field_found [OF assms(1,2)] is_counter_not_aggregator by (fastforce simp: plain_quota_def)
qed

lemma paths_targets [simp]:
  "counter_fields (db\<lparr>targets := ts\<rparr>) t = counter_fields db t"
  "scope_of (db\<lparr>targets := ts\<rparr>) f t = scope_of db f t"
  "paths_lead_home (db\<lparr>targets := ts\<rparr>) t = paths_lead_home db t"
  "wf_classes (db\<lparr>targets := ts\<rparr>) = wf_classes db"
  by (simp_all add: counter_fields_def scope_of_def paths_lead_home_def wf_classes_def split: option.split)

lemma counter_event_inv:
  assumes "quota_inv db" and "paths_lead_home db t"
    and "count_quota_handlers (db\<lparr>targets := ts\<rparr>) t d = Inr db'"
  shows "quota_inv db'"
proof -
  let ?db = "db\<lparr>targets := ts\<rparr>"
  have inv: "quota_inv ?db" using assms(1) quota_inv_cong [of ?db db] by simp
  then have wf: "wf_classes ?db" by (simp add: quota_inv_def)
  have "db' = create_usages ?db (counter_deltas ?db t d (counter_fields ?db t))"
    using assms(3) by (simp only: count_quota_handlers_log sum.inject)
  then have "plain_deltas ?db db'"
    unfolding plain_deltas_def
    using counter_deltas_plain [OF wf] assms(2) by fastforce
  then show ?thesis using inv by (rule plain_deltas_inv)
qed

subsection \<open>Deleting the quotas of a scope\<close>

definition leaf_scope :: "quota_db \<Rightarrow> key \<Rightarrow> bool" where
  "leaf_scope db k \<longleftrightarrow> (\<forall>j\<in>fst ` set (scopes db). k \<notin> set (get_ancestors db max_depth j))"

definition returned_rows :: "quota_db \<Rightarrow> (key \<times> string \<times> int) list \<Rightarrow> (key \<times> string \<times> int) list" where
  "returned_rows db rows = concat (map (\<lambda>(k, n, d). aggregate_rows db k n (- d)) rows)"

lemma fold_handlers_log:
  "fold (\<lambda>(k, n, d) db. handle_aggregated_quotas db k n (- d)) rows db =
     db\<lparr>quota_usage_rows := quota_usage_rows db @ returned_rows db rows\<rparr>"
proof (induction rows arbitrary: db)
  case (Cons x rows)
  then show ?case by (cases x) (simp add: log_simps, simp add: returned_rows_def)
qed (simp add: returned_rows_def)

lemma total_returned_rows:
  assumes "wf_classes db"
  shows "total (returned_rows db (filter (\<lambda>(k', _, _). k' = k) rows)) a m =
     - (\<Sum>(k', n, d)\<leftarrow>rows. if k' = k \<and> counts_for db a m k n then d else 0)"
  by (induction rows) (auto simp: returned_rows_def total_aggregate_rows [OF assms])

lemma counted_rows_total:
  assumes "get_field db a m = Some g" and "child_quota_name g = Some c"
  shows "(\<Sum>(k', n, d)\<leftarrow>rows. if k' = k \<and> counts_for db a m k n then d else 0) =
     (if counts_for db a m k c then total rows k c else 0)"
proof (cases "counts_for db a m k c")
  case True
  then have "counts_for db a m k n \<longleftrightarrow> n = c" for n using counted_name [OF assms] by blast
  then show ?thesis by (induction rows) (simp_all add: split_paired_all)
next
  case False
  then have "\<not> counts_for db a m k n" for n using counted_name [OF assms] by blast
  then show ?thesis by (induction rows) (simp_all add: split_paired_all)
qed

lemma aggregate_rows_limits [simp]:
  "aggregate_rows (db\<lparr>quota_limit_rows := ls\<rparr>) k n d = aggregate_rows db k n d"
proof -
  let ?db = "db\<lparr>quota_limit_rows := ls\<rparr>"
  have "get_ancestors ?db max_depth k = get_ancestors db max_depth k" by (rule get_ancestors_cong) simp
  then show ?thesis
    by (simp add: aggregate_rows_def aggregator_quotas_def get_field_def get_quotas_fields_def split: option.split)
qed

lemma returned_rows_limits [simp]: "returned_rows (db\<lparr>quota_limit_rows := ls\<rparr>) rows = returned_rows db rows"
  by (simp add: returned_rows_def)

lemma delete_quotas_rows:
  "quota_usage_rows (delete_quotas_when_model_is_deleted db k) = filter (\<lambda>(k', _, _). k' \<noteq> k)
     (quota_usage_rows db @ returned_rows db (filter (\<lambda>(k', _, _). k' = k) (quota_usage_rows db)))"
  by (simp add: delete_quotas_when_model_is_deleted_def Let_def fold_handlers_log)

lemma delete_quotas_config [simp]:
  "classes (delete_quotas_when_model_is_deleted db k) = classes db"
  "scopes (delete_quotas_when_model_is_deleted db k) = scopes db"
  by (simp_all add: delete_quotas_when_model_is_deleted_def Let_def fold_handlers_log)

lemma delete_quotas_total:
  assumes "wf_classes db"
  shows "total (quota_usage_rows (delete_quotas_when_model_is_deleted db k)) a m =
     (if a = k then 0 else total (quota_usage_rows db) a m -
        (\<Sum>(k', n, d)\<leftarrow>quota_usage_rows db. if k' = k \<and> counts_for db a m k n then d else 0))"
  unfolding delete_quotas_rows total_filter_out total_append total_returned_rows [OF assms] by simp

lemma delete_quotas_inv:
  assumes inv: "quota_inv db" and leaf: "leaf_scope db k"
  shows "quota_inv (delete_quotas_when_model_is_deleted db k)"
proof -
  let ?db = "delete_quotas_when_model_is_deleted db k"
  have wf: "wf_classes db" using inv by (simp add: quota_inv_def)
  note tot = delete_quotas_total [OF wf, of k]
  have "total (quota_usage_rows ?db) a m =
      (\<Sum>j\<in>{j \<in> fst ` set (scopes db). counts_for db a m j c}. total (quota_usage_rows ?db) j c)"
    if g: "get_field db a m = Some g" "child_quota_name g = Some c" for a m g c
  proof -
    let ?S = "{j \<in> fst ` set (scopes db). counts_for db a m j c}"
    let ?t = "total (quota_usage_rows db)"
    have old: "?t a m = (\<Sum>j\<in>?S. ?t j c)"
      using inv g unfolding quota_inv_def aggregates_agree_def by blast
    have new: "total (quota_usage_rows ?db) j c = (if j = k then 0 else ?t j c)" if "j \<in> ?S" for j
    proof -
      have "plain_quota db j c" using that counted_plain by blast
      then have "\<not> counts_for db j c k n" for n by (rule plain_not_aggregate)
      then show ?thesis unfolding tot by (simp add: case_prod_beta')
    qed
    have "(\<Sum>j\<in>?S. total (quota_usage_rows ?db) j c) = (\<Sum>j\<in>?S. ?t j c - (if j = k then ?t k c else 0))"
      by (rule sum.cong [OF refl]) (simp only: new, simp)
    also have "\<dots> = ?t a m - (\<Sum>j\<in>?S. if j = k then ?t k c else 0)"
      by (simp only: sum_subtractf old)
    also have "(\<Sum>j\<in>?S. if j = k then ?t k c else 0) = (if k \<in> ?S then ?t k c else 0)"
      by (rule sum.delta) simp
    also have "\<dots> = (if counts_for db a m k c then ?t k c else 0)"
      by (rule if_cong) (use counted_scope in blast)+
    also have "?t a m - \<dots> = (if a = k then 0 else ?t a m - (if counts_for db a m k c then ?t k c else 0))"
    proof (cases "a = k")
      case True
      then have none: "?S = {}" using leaf by (auto simp: leaf_scope_def counts_for_def)
      have "?t a m = 0" using old unfolding none by (rule trans) (rule sum.empty)
      moreover have "\<not> counts_for db a m k c" using none counted_scope [of db a m k c] by blast
      ultimately show ?thesis by simp
    qed simp
    also have "\<dots> = total (quota_usage_rows ?db) a m"
      unfolding tot counted_rows_total [OF g] by (rule refl)
    finally show ?thesis by (rule sym)
  qed
  then have "aggregates_agree ?db"
    unfolding aggregates_agree_def by (simp only: config_cong [of ?db db] delete_quotas_config) blast
  then show ?thesis using wf config_cong(1) [of ?db db] by (simp add: quota_inv_def)
qed

subsection \<open>Steps\<close>

text \<open>
  What happens to quotas: usage of plain quotas is added, set or applied, for one scope or
  several; counted objects come and go; counters are recalculated; limits are set; the quotas of
  a scope without descendants are deleted.
\<close>

inductive quota_step :: "quota_db \<Rightarrow> quota_db \<Rightarrow> bool" where
  added: "plain_quota db k n \<Longrightarrow> add_quota_usage db k n d v = Inr db' \<Longrightarrow> quota_step db db'"
| set_to: "plain_quota db k n \<Longrightarrow> set_quota_usage db k n u = Inr db' \<Longrightarrow> quota_step db db'"
| applied: "(\<And>n d. (n, d) \<in> set ds \<Longrightarrow> plain_quota db k n) \<Longrightarrow> quota_step db (apply_quota_usage db k ds)"
| changed: "(\<And>k n d. Some k \<in> set scps \<Longrightarrow> (n, d) \<in> set ds \<Longrightarrow> plain_quota db k n) \<Longrightarrow>
    apply_quota_changes db scps ds factor v = Inr db' \<Longrightarrow> quota_step db db'"
| created: "paths_lead_home db t \<Longrightarrow> target_created db t = Inr db' \<Longrightarrow> quota_step db db'"
| deleted: "paths_lead_home db t \<Longrightarrow> target_deleted db t = Inr db' \<Longrightarrow> quota_step db db'"
| recalculated: "get_field db k (qf_name f) = Some f \<Longrightarrow> is_counter f \<Longrightarrow> recalculate db k f = Inr db' \<Longrightarrow>
    quota_step db db'"
| limited: "quota_step db (set_quota_limit db k n l)"
| dropped: "leaf_scope db k \<Longrightarrow> quota_step db (delete_quotas_when_model_is_deleted db k)"

lemma set_plain: "set_quota_usage db k n u = Inr t \<Longrightarrow> plain_quota db k n \<Longrightarrow> plain_deltas db t"
  unfolding set_quota_usage_def Let_def by (rule add_plain)

lemma quota_step_inv: "quota_inv db \<Longrightarrow> quota_step db db' \<Longrightarrow> quota_inv db'"
proof (erule quota_step.cases, goal_cases)
  case (1 db k n d v db')
  then show ?case by (metis add_plain plain_deltas_inv)
next
  case (2 db k n u db')
  then show ?case by (metis set_plain plain_deltas_inv)
next
  case (3 ds db k)
  then show ?case using apply_plain [of ds db k] plain_deltas_inv by blast
next
  case (4 scps ds db factor v db')
  then show ?case using changes_plain [of db scps ds factor v db'] plain_deltas_inv by blast
next
  case (5 db t db')
  then show ?case using counter_event_inv unfolding target_created_def by blast
next
  case (6 db t db')
  then show ?case using counter_event_inv unfolding target_deleted_def by blast
next
  case (7 db k f db')
  then have "plain_quota db k (qf_name f)" by (simp add: plain_quota_def is_counter_not_aggregator)
  moreover have "set_quota_usage db k (qf_name f) (current_usage db k f) = Inr db'"
    using 7 by (auto simp: recalculate_def is_counter_def split: field_kind.splits if_splits)
  ultimately have "plain_deltas db db'" by (metis set_plain)
  then show ?case using plain_deltas_inv 7 by blast
next
  case (8 db k n l)
  then show ?case using quota_inv_cong [of "set_quota_limit db k n l" db] by (simp add: set_quota_limit_def)
next
  case (9 db k)
  then show ?case using delete_quotas_inv by blast
qed

interpretation quota_log: invariant_system quota_step quota_inv
  by unfold_locales (rule quota_step_inv)

end
