(* ===== verification/Quotas_Properties.thy ===== *)
theory Quotas_Properties
  imports Quotas_Aggregates
begin


subsection \<open>Counters\<close>

text \<open>The specification of the log: one counter per quota, changed in place.\<close>

definition counter_add ::
    "quota_db \<Rightarrow> key \<times> string \<times> int \<Rightarrow> (key \<Rightarrow> string \<Rightarrow> int) \<Rightarrow> (key \<Rightarrow> string \<Rightarrow> int)" where
  "counter_add db = (\<lambda>(k, n, d) cnt a m.
     cnt a m + (if k = a \<and> n = m \<or> counts_for db a m k n then d else 0))"

lemma delta_total:
  assumes "wf_classes db"
  shows "total ((k, n, d) # aggregate_rows db k n d) a m = (if k = a \<and> n = m \<or> counts_for db a m k n then d else 0)"
  using not_own_aggregate [of db k n] by (simp only: total_Cons total_aggregate_rows [OF assms]) auto

lemma create_usages_counters:
  assumes "wf_classes db"
  shows "total (quota_usage_rows (create_usages db ds)) = fold (counter_add db) ds (total (quota_usage_rows db))"
  using assms
proof (induction ds rule: rev_induct)
  case Nil
  then show ?case by (simp add: create_usages_def)
next
  case (snoc x ds)
  obtain k n d where x: "x = (k, n, d)" by (cases x)
  have "log_of db (ds @ [x]) = log_of db ds @ (k, n, d) # aggregate_rows db k n d"
    by (simp add: log_of_def x)
  then have "total (quota_usage_rows (create_usages db (ds @ [x]))) a m =
      total (quota_usage_rows (create_usages db ds)) a m + total ((k, n, d) # aggregate_rows db k n d) a m" for a m
    by (simp add: create_usages_log)
  then show ?case
    by (intro ext) (simp only: snoc.IH [OF assms] delta_total [OF assms] counter_add_def x fold_append
        fold.simps comp_apply id_apply prod.case)
qed

lemma add_usages_log:
  "rfold (\<lambda>db (k, n, d). add_quota_usage db k n d False) db ds =
     Inr (create_usages db (filter (\<lambda>(k, n, d). d \<noteq> 0) ds))"
proof (induction ds arbitrary: db)
  case (Cons x ds)
  then show ?case by (cases x) (auto simp: add_quota_usage_log create_usages_append)
qed (simp add: create_usages_def)

lemma counter_add_zero: "fold (counter_add db) (filter (\<lambda>(k, n, d). d \<noteq> 0) ds) cnt = fold (counter_add db) ds cnt"
proof (induction ds arbitrary: cnt)
  case (Cons x ds)
  have "counter_add db (k, n, 0) cnt = cnt" for k n by (simp add: counter_add_def)
  then show ?case using Cons by (cases x) simp
qed simp

lemma counter_add_commute:
  "counter_add db x (counter_add db y cnt) = counter_add db y (counter_add db x cnt)"
  by (cases x; cases y) (intro ext, simp add: counter_add_def)

lemma counter_add_permuted: "mset ds = mset es \<Longrightarrow> fold (counter_add db) ds = fold (counter_add db) es"
  by (rule fold_multiset_equiv) (intro ext, simp_all add: counter_add_commute)

subsection \<open>Shared quotas\<close>

text \<open>The deltas of \<open>apply_quota_changes\<close>: those of each quota, for each scope.\<close>

definition scope_deltas :: "key option list \<Rightarrow> string \<Rightarrow> int \<Rightarrow> (key \<times> string \<times> int) list" where
  "scope_deltas scps n d =
     concat (map (\<lambda>s. case s of None \<Rightarrow> [] | Some k \<Rightarrow> if d = 0 then [] else [(k, n, d)]) scps)"

definition shared_deltas ::
    "key option list \<Rightarrow> (string, int) dict \<Rightarrow> int \<Rightarrow> (key \<times> string \<times> int) list" where
  "shared_deltas scps ds factor = concat (map (\<lambda>(n, d). scope_deltas scps n (d * factor)) ds)"

lemma add_quota_usage_returned:
  "add_quota_usage db k n d v = Inr t \<Longrightarrow> t = create_usages db (if d = 0 then [] else [(k, n, d)])"
  by (auto simp: add_quota_usage_def create_usages_def result_simps split: if_splits)

lemma shared_scopes_log:
  "rfold (\<lambda>db s. case s of None \<Rightarrow> Inr db | Some k \<Rightarrow> add_quota_usage db k n d v) db scps = Inr t \<Longrightarrow>
     t = create_usages db (scope_deltas scps n d)"
  unfolding scope_deltas_def
proof (induction scps arbitrary: db)
  case Nil
  then show ?case by (simp add: create_usages_def)
next
  case (Cons s scps)
  then show ?case
    by (cases s) (auto simp: result_simps create_usages_append dest!: add_quota_usage_returned Cons.IH)
qed

lemma changes_log:
  "apply_quota_changes db scps ds factor v = Inr t \<Longrightarrow> t = create_usages db (shared_deltas scps ds factor)"
  unfolding apply_quota_changes_def
proof (induction ds arbitrary: db)
  case Nil
  then show ?case by (simp add: create_usages_def shared_deltas_def)
next
  case (Cons x ds)
  obtain n d where x: "x = (n, d)" by (cases x)
  from Cons.prems obtain u where
    u: "rfold (\<lambda>db s. case s of None \<Rightarrow> Inr db | Some k \<Rightarrow> add_quota_usage db k n (d * factor) v) db scps = Inr u"
    and t: "rfold (\<lambda>db (n, d). rfold (\<lambda>db s. case s of None \<Rightarrow> Inr db
        | Some k \<Rightarrow> add_quota_usage db k n (d * factor) v) db scps) u ds = Inr t"
    by (auto simp: x result_simps)
  show ?case
    by (simp add: Cons.IH [OF t] shared_scopes_log [OF u] create_usages_append) (simp add: shared_deltas_def x)
qed

lemma unvalidated_changes_return: "\<exists>t. apply_quota_changes db scps ds factor False = Inr t"
proof -
  have "\<exists>t. rfold (\<lambda>db s. case s of None \<Rightarrow> Inr db | Some k \<Rightarrow> add_quota_usage db k n d False) db scps = Inr t" for db n d
    by (induction scps arbitrary: db) (auto simp: add_quota_usage_log split: option.split)
  then show ?thesis
    unfolding apply_quota_changes_def by (induction ds arbitrary: db) (auto simp: result_simps, metis)
qed

lemma counter_add_as_sum:
  "fold (counter_add db) ds cnt a m =
     cnt a m + (\<Sum>(k, n, d)\<leftarrow>ds. if k = a \<and> n = m \<or> counts_for db a m k n then d else 0)"
  by (induction ds arbitrary: cnt) (auto simp: counter_add_def split_paired_all)

lemma shared_deltas_negated:
  "shared_deltas scps ds (- 1) = map (\<lambda>(k, n, d). (k, n, - d)) (shared_deltas scps ds 1)"
proof -
  have neg: "scope_deltas scps n (- d) = map (\<lambda>(k, n, d). (k, n, - d)) (scope_deltas scps n d)" for n d
    unfolding scope_deltas_def by (induction scps) (auto split: option.split)
  show ?thesis unfolding shared_deltas_def
  proof (induction ds)
    case (Cons x ds)
    then show ?case by (cases x) (simp add: neg)
  qed simp
qed

lemma negated_sum:
  "(\<Sum>(k, n, d)\<leftarrow>map (\<lambda>(k, n, d). (k, n, - d)) ds. if P k n then d else (0 :: int)) =
     - (\<Sum>(k, n, d)\<leftarrow>ds. if P k n then d else 0)"
  by (induction ds) (auto simp: split_paired_all)

subsection \<open>Claims\<close>


text \<open>The log of deltas implements one counter per quota: adding usages in one order reads
  as the counters incremented in place in any other order of the same deltas, aggregates
  included, so that writers that only insert need no lock.\<close>

theorem usage_log_refines_counters:
  assumes "wf_classes db" and "mset ds = mset es"
  shows "\<exists>db'. rfold (\<lambda>db (k, n, d). add_quota_usage db k n d False) db ds = Inr db' \<and>
    (\<forall>a m. get_quota_usage db' a m sanitize = max 0 (fold (counter_add db) es (total (quota_usage_rows db)) a m))"
  by (simp add: add_usages_log usage_clamped create_usages_counters [OF assms(1)] counter_add_zero
      counter_add_permuted [OF assms(2)])

text \<open>Releasing the shared quotas of an object undoes reserving them, whether or not the
  reservation was validated: every quota of every scope reads as before.\<close>

theorem decrease_undoes_increase:
  assumes "wf_classes db" and "increase_backend_quotas_usage db scps ds validate = Inr db1"
  shows "\<exists>db2. decrease_backend_quotas_usage db1 scps ds = Inr db2 \<and>
    (\<forall>a m. get_quota_usage db2 a m sanitize = get_quota_usage db a m sanitize)"
proof -
  let ?ds = "shared_deltas scps ds 1"
  have db1: "db1 = create_usages db ?ds"
    using assms(2) unfolding increase_backend_quotas_usage_def by (rule changes_log)
  obtain db2 where db2: "decrease_backend_quotas_usage db1 scps ds = Inr db2"
    using unvalidated_changes_return [of db1 scps ds "- 1"] by (auto simp: decrease_backend_quotas_usage_def)
  then have "db2 = create_usages db1 (shared_deltas scps ds (- 1))"
    unfolding decrease_backend_quotas_usage_def by (rule changes_log)
  then have "db2 = create_usages db (?ds @ map (\<lambda>(k, n, d). (k, n, - d)) ?ds)"
    by (simp add: db1 create_usages_append shared_deltas_negated)
  then have "total (quota_usage_rows db2) a m = total (quota_usage_rows db) a m" for a m
    by (simp only: create_usages_counters [OF assms(1)] counter_add_as_sum map_append sum_list.append negated_sum)
  then show ?thesis using db2 by (simp add: usage_clamped)
qed

text \<open>A validated change of a limited quota goes through exactly when the usage then stays
  within the limit, and it does stay within it; otherwise the error names the quota and nothing
  is written.\<close>

theorem validated_change_fits:
  assumes "wf_classes db" and "0 \<le> get_quota_limit db k n" and "d \<noteq> 0"
  shows "if get_quota_usage db k n True + d \<le> get_quota_limit db k n
    then \<exists>db'. add_quota_usage db k n d True = Inr db' \<and>
      get_quota_usage db' k n True \<le> get_quota_limit db' k n \<and> get_quota_limit db' k n = get_quota_limit db k n
    else add_quota_usage db k n d True = Inl (QuotaValidationError [n])"
proof (cases "get_quota_usage db k n True + d \<le> get_quota_limit db k n")
  case True
  let ?t = "create_usage db k n d"
  have "add_quota_usage db k n d True = Inr ?t"
    using True assms(3) by (simp add: add_quota_usage_def validate_quota_change_def quota_exceeded_def)
  moreover have "get_quota_usage ?t k n True \<le> get_quota_limit db k n"
    using True assms(2) not_own_aggregate [of db k n]
    by (simp add: usage_clamped create_usage_log total_aggregate_rows [OF assms(1)])
  moreover have "get_quota_limit ?t k n = get_quota_limit db k n"
    by (simp add: get_quota_limit_def create_usage_log split: option.split)
  ultimately show ?thesis using True by simp
next
  case False
  then show ?thesis
    using assms(2,3) by (simp add: add_quota_usage_def validate_quota_change_def quota_exceeded_def)
qed

text \<open>Setting a usage writes the difference to the usage read, and the reader clamps a
  negative total at zero even when asked not to: after \<open>set_quota_usage\<close> the quota reads the value
  plus the deficit of the log, so that the value is reached exactly when there was no deficit
  (or the value is zero).\<close>

theorem set_usage_keeps_deficit:
  assumes "wf_classes db" and "0 \<le> u"
  shows "\<exists>db'. set_quota_usage db k n u = Inr db' \<and>
    get_quota_usage db' k n sanitize = max 0 (u + min 0 (total (quota_usage_rows db) k n)) \<and>
    (get_quota_usage db' k n sanitize = u \<longleftrightarrow> 0 \<le> total (quota_usage_rows db) k n \<or> u = 0)"
proof -
  let ?c = "max 0 (total (quota_usage_rows db) k n)"
  let ?t = "create_usages db (if u - ?c = 0 then [] else [(k, n, u - ?c)])"
  have "set_quota_usage db k n u = Inr ?t"
    by (simp only: set_quota_usage_def Let_def usage_clamped add_quota_usage_log)
  moreover have "total (quota_usage_rows ?t) k n = total (quota_usage_rows db) k n + (u - ?c)"
    using not_own_aggregate [of db k n]
    by (simp add: create_usages_counters [OF assms(1)] counter_add_def)
  ultimately show ?thesis using assms(2) by (auto simp: usage_clamped)
qed

subsection \<open>A concrete organisation\<close>

text \<open>Two tenants in a project of an organisation, with their memory aggregated upwards.\<close>

definition demo_tenant :: "nat \<Rightarrow> key" where "demo_tenant i = (''tenant'', i)"
definition demo_project :: key where "demo_project = (''project'', 2)"
definition demo_customer :: key where "demo_customer = (''customer'', 2)"

definition demo_quotas :: quota_db where
  "demo_quotas = \<lparr>
     classes =
       [(''tenant'', [\<lparr>qf_name = ''ram'', qf_kind = PlainField, default_limit = 10\<rparr>]),
        (''project'', [\<lparr>qf_name = ''vpc_ram_size'', qf_kind = AggregatorField (Some ''ram''), default_limit = -1\<rparr>]),
        (''customer'', [\<lparr>qf_name = ''vpc_ram_size'', qf_kind = AggregatorField (Some ''ram''), default_limit = -1\<rparr>])],
     scopes = [(demo_tenant 2, Some [demo_project]), (demo_tenant 3, Some [demo_project]),
       (demo_project, Some [demo_customer]), (demo_customer, Some [])],
     children_of = [], targets = [], quota_limit_rows = [], quota_usage_rows = []\<rparr>"

lemma demo_quotas_wf: "wf_classes demo_quotas"
  by code_simp




lemma usage_log_refines_counters_witness:
  "\<exists>db'. rfold (\<lambda>db (k, n, d). add_quota_usage db k n d False) demo_quotas
      [(demo_tenant 2, ''ram'', 3), (demo_tenant 3, ''ram'', 4)] = Inr db' \<and>
    (\<forall>a m. get_quota_usage db' a m True = max 0 (fold (counter_add demo_quotas)
      [(demo_tenant 3, ''ram'', 4), (demo_tenant 2, ''ram'', 3)] (total (quota_usage_rows demo_quotas)) a m))"
  by (rule usage_log_refines_counters [OF demo_quotas_wf]) simp

lemma decrease_undoes_increase_witness:
  "\<exists>db1 db2. increase_backend_quotas_usage demo_quotas [Some (demo_tenant 2), None] [(''ram'', 5)] True = Inr db1 \<and>
     decrease_backend_quotas_usage db1 [Some (demo_tenant 2), None] [(''ram'', 5)] = Inr db2 \<and>
     (\<forall>a m. get_quota_usage db2 a m True = get_quota_usage demo_quotas a m True)"
proof -
  have "case increase_backend_quotas_usage demo_quotas [Some (demo_tenant 2), None] [(''ram'', 5)] True of
      Inl _ \<Rightarrow> False | Inr _ \<Rightarrow> True"
    by code_simp
  then obtain db1 where
    db1: "increase_backend_quotas_usage demo_quotas [Some (demo_tenant 2), None] [(''ram'', 5)] True = Inr db1"
    by (auto split: sum.splits)
  then show ?thesis using decrease_undoes_increase [OF demo_quotas_wf db1] by blast
qed

lemma validated_change_fits_witness:
  "add_quota_usage demo_quotas (demo_tenant 2) ''ram'' 11 True = Inl (QuotaValidationError [''ram''])"
proof -
  have l: "get_quota_limit demo_quotas (demo_tenant 2) ''ram'' = 10" by code_simp
  have u: "get_quota_usage demo_quotas (demo_tenant 2) ''ram'' True = 0" by code_simp
  show ?thesis using validated_change_fits [OF demo_quotas_wf, of "demo_tenant 2" "''ram''" 11] by (simp add: l u)
qed

text \<open>A log whose deltas sum to \<open>-3\<close>: five are set, two are read.\<close>

lemma set_usage_keeps_deficit_witness:
  "\<exists>db'. set_quota_usage (create_row demo_quotas (demo_tenant 2) ''ram'' (-3)) (demo_tenant 2) ''ram'' 5 = Inr db' \<and>
     get_quota_usage db' (demo_tenant 2) ''ram'' False = 2"
proof -
  let ?db = "create_row demo_quotas (demo_tenant 2) ''ram'' (-3)"
  have "wf_classes ?db" by code_simp
  moreover have "total (quota_usage_rows ?db) (demo_tenant 2) ''ram'' = -3" by code_simp
  ultimately show ?thesis using set_usage_keeps_deficit [of ?db 5 "demo_tenant 2" "''ram''" False] by auto
qed

end
