(* ===== verification/Credit_Model.thy ===== *)
theory Credit_Model
  imports Effects
begin

text \<open>
  Invoices, credits and the credit ledger, \<^verbatim>\<open>src/waldur_mastermind/invoices\<close> (\<open>models.py\<close>,
  \<open>ledger.py\<close>, \<open>handlers.py\<close>): the balances of an organisation and the allocations of its projects,
  the items of an invoice they may be drawn against, what saving a balance validates, and the ledger
  rows its \<open>post_save\<close> handler writes.

  Decimals are rationals: sums, products and the quotient of the tax division are exact, prices are
  rounded as \<open>quantize_price\<close> does, and the 28 digits of the decimal context and the decimal places of
  the columns are not modelled.  Audit and event log entries are left out.
\<close>

definition quantize_price :: "rat \<Rightarrow> rat" where
  "quantize_price x = (if x < 0 then - (of_int \<lceil>- x * 100\<rceil> / 100) else of_int \<lceil>x * 100\<rceil> / 100)"

datatype invoice_state = PENDING_INVOICE | PENDING_FINALIZATION | CREATED | PAID | CANCELED_INVOICE

definition MUTABLE_STATES :: "invoice_state list" where
  "MUTABLE_STATES = [PENDING_INVOICE, PENDING_FINALIZATION]"

text \<open>The resource of an item with its offering and project; \<open>it_details\<close> as the keys credits read.\<close>

record billed_resource =
  br_id :: nat
  br_offering :: nat
  br_project :: nat

record invoice_item =
  it_uuid :: string
  unit_price :: rat
  quantity :: rat
  it_resource :: "billed_resource option"
  it_project :: "nat option"
  it_credit :: "nat option"
  is_compensation :: bool
  is_discount :: bool
  discount_of_item :: "string option"
  compensation_of_item :: "string option"

record invoice =
  inv_pk :: nat
  inv_customer :: nat
  inv_year :: nat
  inv_month :: nat
  inv_state :: invoice_state
  tax_percent :: rat
  inv_items :: "invoice_item list"

record credit_terms =
  credit_value :: rat
  expected_consumption :: rat
  linear_logic :: bool
  grace_coefficient :: rat
  apply_as_minimal_consumption :: bool
  credit_end_date :: "cdate option"

record customer_credit = credit_terms +
  cc_pk :: nat
  cc_customer :: nat
  cc_offerings :: "nat list"

record project_credit = credit_terms +
  pc_pk :: nat
  pc_project :: nat
  mark_unused_credit_as_spent :: bool

datatype transaction_type = STAFF_GRANT | COMPENSATION | MINIMAL_DRAW | AFFILIATE_FEE | TRANSFER_IN
  | TRANSFER_OUT | PAYOUT | EXPIRY | ROLLBACK | ADJUSTMENT | WITHDRAWABLE_ADJUSTMENT

definition WITHDRAWABLE_TYPES :: "transaction_type list" where
  "WITHDRAWABLE_TYPES = [AFFILIATE_FEE, TRANSFER_IN, TRANSFER_OUT, PAYOUT, WITHDRAWABLE_ADJUSTMENT]"

text \<open>\<open>part_key\<close>: which balance moved.  A month is a year and a month.\<close>

datatype owner = Organization nat | Allocation nat

type_synonym period = "nat \<times> nat"

record credit_transaction =
  tx_owner :: "owner option"
  tx_project :: "nat option"
  tx_amount :: rat
  tx_type :: transaction_type
  tx_period :: "period option"

record customer_affiliate =
  al_pk :: nat
  al_customer :: nat
  al_affiliate :: nat
  fee_percent :: rat
  al_is_active :: bool
  al_start_date :: "cdate option"
  al_end_date :: "cdate option"

text \<open>
  The database; \<open>project_customer\<close> gives the organisation of a project, \<open>accruals\<close> are the rows of
  \<open>AffiliateFeeAccrual\<close> (link, invoice, amount).
\<close>

record credit_db =
  customer_credits :: "customer_credit list"
  project_credits :: "project_credit list"
  project_customer :: "(nat, nat) dict"
  invoices :: "invoice list"
  transactions :: "credit_transaction list"
  affiliate_links :: "customer_affiliate list"
  accruals :: "(nat \<times> nat \<times> rat) list"
  today :: cdate
  fixed_price_customers :: "nat list"
  affiliates_enabled :: bool

datatype credit_error = EndDateNotFirstDay | NoCustomerCredit | AllocationsExceedCredit
  | FutureEffectiveDate | IncorrectState | NegativeCredit | ExceedsWithdrawable | OtherError

subsection \<open>Items\<close>

definition item_price :: "invoice_item \<Rightarrow> rat" where
  "item_price i = quantize_price (unit_price i * quantity i)"

definition invoice_price :: "invoice \<Rightarrow> rat" where
  "invoice_price iv = quantize_price (sum_list (map item_price (inv_items iv)))"

text \<open>\<open>creditable_items\<close>: the chargeable items, and the discounts by the item they are paired with.\<close>

definition eligible_items :: "invoice \<Rightarrow> customer_credit \<Rightarrow> nat option \<Rightarrow> invoice_item list" where
  "eligible_items iv cc project =
     filter (\<lambda>i. case it_resource i of None \<Rightarrow> False | Some r \<Rightarrow>
         (cc_offerings cc = [] \<or> br_offering r \<in> set (cc_offerings cc)) \<and>
         (project = None \<or> project = Some (br_project r)))
       (inv_items iv)"

definition add_discount :: "invoice_item \<Rightarrow> (string, rat) dict \<Rightarrow> (string, rat) dict" where
  "add_discount i d = (case discount_of_item i of
     None \<Rightarrow> d
   | Some u \<Rightarrow> if u = [] then d
       else dict_set u ((case map_of d u of None \<Rightarrow> 0 | Some x \<Rightarrow> x) + item_price i) d)"

definition creditable_items ::
    "invoice \<Rightarrow> customer_credit \<Rightarrow> nat option \<Rightarrow> invoice_item list \<times> (string, rat) dict" where
  "creditable_items iv cc project =
     (let live = filter (\<lambda>i. \<not> is_compensation i) (eligible_items iv cc project)
      in (filter (\<lambda>i. \<not> is_discount i) live, fold add_discount (filter is_discount live) []))"

definition net_cost :: "(string, rat) dict \<Rightarrow> invoice_item \<Rightarrow> rat" where
  "net_cost discounts i =
     max 0 (item_price i + (case map_of discounts (it_uuid i) of None \<Rightarrow> 0 | Some x \<Rightarrow> x))"

definition creditable_cost :: "invoice \<Rightarrow> customer_credit \<Rightarrow> nat option \<Rightarrow> rat" where
  "creditable_cost iv cc project =
     (let (items, discounts) = creditable_items iv cc project in sum_list (map (net_cost discounts) items))"

subsection \<open>Terms of a credit\<close>

definition time_left_factor :: "cdate \<Rightarrow> cdate \<Rightarrow> rat" where
  "time_left_factor now end_date =
     (let left = of_int (ordinal (end_date\<lparr>cd_day := 1\<rparr>) - ordinal now)
      in if left \<le> 0 then 1 else min 1 (of_nat (days_in_month (cd_year now) (cd_month now)) / left))"

definition calculate_linear_expected_consumption ::
    "cdate \<Rightarrow> cdate \<Rightarrow> 'a credit_terms_scheme \<Rightarrow> rat \<Rightarrow> rat" where
  "calculate_linear_expected_consumption now end_date c total_compensation =
     max 0 (expected_consumption c - total_compensation) * (1 - time_left_factor now end_date)
       + credit_value c * time_left_factor now end_date"

definition minimal_consumption :: "cdate \<Rightarrow> 'a credit_terms_scheme \<Rightarrow> rat" where
  "minimal_consumption now c =
     (if \<not> apply_as_minimal_consumption c then 0
      else if (case credit_end_date c of None \<Rightarrow> False
               | Some e \<Rightarrow> cd_year e = cd_year now \<and> cd_month e = cd_month now)
      then expected_consumption c
      else (100 - grace_coefficient c) / 100 * expected_consumption c)"

subsection \<open>Reading balances\<close>

definition find_credit :: "credit_db \<Rightarrow> nat \<Rightarrow> customer_credit option" where
  "find_credit db customer = first_row (\<lambda>c. cc_customer c = customer) (customer_credits db)"

definition customer_of :: "credit_db \<Rightarrow> project_credit \<Rightarrow> nat option" where
  "customer_of db pc = map_of (project_customer db) (pc_project pc)"

definition allocations :: "credit_db \<Rightarrow> nat \<Rightarrow> project_credit list" where
  "allocations db customer = filter (\<lambda>p. customer_of db p = Some customer) (project_credits db)"

definition sum_value :: "'a credit_terms_scheme list \<Rightarrow> rat" where
  "sum_value cs = sum_list (map credit_value cs)"

definition allocated_to_projects :: "credit_db \<Rightarrow> customer_credit \<Rightarrow> rat" where
  "allocated_to_projects db cc = sum_value (allocations db (cc_customer cc))"

definition credit_of_project :: "credit_db \<Rightarrow> project_credit \<Rightarrow> customer_credit option" where
  "credit_of_project db pc = (case customer_of db pc of None \<Rightarrow> None | Some c \<Rightarrow> find_credit db c)"

definition spendable_value :: "credit_db \<Rightarrow> project_credit \<Rightarrow> rat" where
  "spendable_value db pc =
     (case credit_of_project db pc of None \<Rightarrow> 0 | Some cc \<Rightarrow> min (credit_value pc) (credit_value cc))"

definition is_limited_by_organization_credit :: "credit_db \<Rightarrow> project_credit \<Rightarrow> bool" where
  "is_limited_by_organization_credit db pc \<longleftrightarrow> spendable_value db pc < credit_value pc"

definition owner_rows :: "credit_db \<Rightarrow> owner \<Rightarrow> credit_transaction list" where
  "owner_rows db own = filter (\<lambda>t. tx_owner t = Some own) (transactions db)"

definition withdrawable_balance :: "credit_db \<Rightarrow> customer_credit \<Rightarrow> rat" where
  "withdrawable_balance db cc =
     (let earned = sum_list (map tx_amount (filter (\<lambda>t. tx_type t \<in> set WITHDRAWABLE_TYPES)
            (owner_rows db (Organization (cc_pk cc)))))
      in max 0 (min earned (credit_value cc)))"

subsection \<open>The ledger\<close>

text \<open>
  What the writer has declared about its change, \<open>ledger.py\<close>: the parts per balance and the type and
  month of the enclosing block.
\<close>

record ledger_context =
  ctx_parts :: "(owner, (transaction_type \<times> rat \<times> period option) list) dict"
  ctx_type :: "(transaction_type \<times> period option) option"

definition no_context :: ledger_context where
  "no_context = \<lparr>ctx_parts = [], ctx_type = None\<rparr>"

definition typed :: "transaction_type \<Rightarrow> period option \<Rightarrow> ledger_context" where
  "typed ty m = \<lparr>ctx_parts = [], ctx_type = Some (ty, m)\<rparr>"

definition transaction_rows ::
    "ledger_context \<Rightarrow> owner \<Rightarrow> nat option \<Rightarrow> rat \<Rightarrow> credit_transaction list" where
  "transaction_rows ctx own project delta =
     (let row = (\<lambda>(ty, amount, m). \<lparr>tx_owner = Some own, tx_project = project, tx_amount = amount,
            tx_type = ty, tx_period = m\<rparr>);
          parts = (case map_of (ctx_parts ctx) own of None \<Rightarrow> [] | Some ps \<Rightarrow> ps);
          whole = (case ctx_type ctx of None \<Rightarrow> (STAFF_GRANT, delta, None) | Some (ty, m) \<Rightarrow> (ty, delta, m))
      in if delta = 0 then []
         else if parts \<noteq> [] \<and> sum_list (map (fst \<circ> snd) parts) = delta
         then map row (filter (\<lambda>(_, amount, _). amount \<noteq> 0) parts)
         else [row whole])"

definition record_credit_transaction ::
    "ledger_context \<Rightarrow> owner \<Rightarrow> nat option \<Rightarrow> rat \<Rightarrow> credit_db \<Rightarrow> credit_db" where
  "record_credit_transaction ctx own project delta db =
     db\<lparr>transactions := transactions db @ transaction_rows ctx own project delta\<rparr>"

subsection \<open>Saving\<close>

text \<open>\<open>update_fields\<close>: none for a full save, otherwise the columns written.\<close>

datatype credit_field = VALUE | EXPECTED_CONSUMPTION

definition writes :: "credit_field list option \<Rightarrow> credit_field \<Rightarrow> bool" where
  "writes upd f \<longleftrightarrow> (case upd of None \<Rightarrow> True | Some fs \<Rightarrow> f \<in> set fs)"

definition written ::
    "credit_field list option \<Rightarrow> 'a credit_terms_scheme \<Rightarrow> 'a credit_terms_scheme \<Rightarrow> 'a credit_terms_scheme" where
  "written upd old new =
     (if upd = None then new
      else old\<lparr>credit_value := if writes upd VALUE then credit_value new else credit_value old,
               expected_consumption := if writes upd EXPECTED_CONSUMPTION then expected_consumption new
                 else expected_consumption old\<rparr>)"

definition check_end_date :: "credit_field list option \<Rightarrow> 'a credit_terms_scheme \<Rightarrow> (credit_error, unit) result" where
  "check_end_date upd c =
     guard_result (upd \<noteq> None \<or> (case credit_end_date c of None \<Rightarrow> True | Some e \<Rightarrow> cd_day e = 1)) EndDateNotFirstDay"

definition store_customer_credit ::
    "ledger_context \<Rightarrow> credit_field list option \<Rightarrow> customer_credit \<Rightarrow> credit_db \<Rightarrow> credit_db" where
  "store_customer_credit ctx upd c db =
     (case first_row (\<lambda>r. cc_pk r = cc_pk c) (customer_credits db) of
        None \<Rightarrow> db
      | Some old \<Rightarrow>
          let db1 = db\<lparr>customer_credits :=
                update_rows (\<lambda>r. cc_pk r = cc_pk c) (\<lambda>r. written upd r c) (customer_credits db)\<rparr>
          in if writes upd VALUE
             then record_credit_transaction ctx (Organization (cc_pk c)) None (credit_value c - credit_value old) db1
             else db1)"

definition save_customer_credit ::
    "ledger_context \<Rightarrow> credit_field list option \<Rightarrow> customer_credit \<Rightarrow> credit_db \<Rightarrow> (credit_error, credit_db) result" where
  "save_customer_credit ctx upd c db =
     rbind (check_end_date upd c) (\<lambda>_. Inr (store_customer_credit ctx upd c db))"

text \<open>
  The total of \<open>ProjectCredit.save\<close>: \<open>or\<close> binds weaker than \<open>+\<close>, so the value being saved counts only
  when the other allocations sum to nothing.
\<close>

definition validated_total :: "credit_db \<Rightarrow> nat \<Rightarrow> project_credit \<Rightarrow> rat" where
  "validated_total db customer pc =
     (let others = sum_value (filter (\<lambda>p. pc_pk p \<noteq> pc_pk pc) (allocations db customer))
      in if others \<noteq> 0 then others else 0 + credit_value pc)"

definition check_allocation :: "credit_db \<Rightarrow> project_credit \<Rightarrow> (credit_error, unit) result" where
  "check_allocation db pc =
     (case credit_of_project db pc of
        None \<Rightarrow> Inl NoCustomerCredit
      | Some cc \<Rightarrow> guard_result (validated_total db (cc_customer cc) pc \<le> credit_value cc) AllocationsExceedCredit)"

definition store_project_credit ::
    "ledger_context \<Rightarrow> credit_field list option \<Rightarrow> project_credit \<Rightarrow> credit_db \<Rightarrow> credit_db" where
  "store_project_credit ctx upd c db =
     (case first_row (\<lambda>r. pc_pk r = pc_pk c) (project_credits db) of
        None \<Rightarrow> db
      | Some old \<Rightarrow>
          let db1 = db\<lparr>project_credits :=
                update_rows (\<lambda>r. pc_pk r = pc_pk c) (\<lambda>r. written upd r c) (project_credits db)\<rparr>
          in if writes upd VALUE
             then record_credit_transaction ctx (Allocation (pc_pk c)) (Some (pc_project c))
                    (credit_value c - credit_value old) db1
             else db1)"

definition save_project_credit ::
    "ledger_context \<Rightarrow> credit_field list option \<Rightarrow> project_credit \<Rightarrow> credit_db \<Rightarrow> (credit_error, credit_db) result" where
  "save_project_credit ctx upd c db =
     rbind (check_allocation db c) (\<lambda>_. rbind (check_end_date upd c) (\<lambda>_.
       Inr (store_project_credit ctx upd c db)))"

text \<open>A new row: the delta is the whole value.\<close>

definition create_customer_credit ::
    "ledger_context \<Rightarrow> customer_credit \<Rightarrow> credit_db \<Rightarrow> (credit_error, credit_db) result" where
  "create_customer_credit ctx c db =
     rbind (check_end_date None c) (\<lambda>_.
       Inr (record_credit_transaction ctx (Organization (cc_pk c)) None (credit_value c)
              (db\<lparr>customer_credits := customer_credits db @ [c]\<rparr>)))"

definition create_project_credit ::
    "ledger_context \<Rightarrow> project_credit \<Rightarrow> credit_db \<Rightarrow> (credit_error, credit_db) result" where
  "create_project_credit ctx c db =
     rbind (check_allocation db c) (\<lambda>_. rbind (check_end_date None c) (\<lambda>_.
       Inr (record_credit_transaction ctx (Allocation (pc_pk c)) (Some (pc_project c)) (credit_value c)
              (db\<lparr>project_credits := project_credits db @ [c]\<rparr>))))"

end
