(* ===== verification/Compensations.thy ===== *)
theory Compensations
  imports Credit_Model
begin

text \<open>
  The monthly compensation run, \<^verbatim>\<open>src/waldur_mastermind/invoices/compensations.py\<close>: drawing credit
  against the items of an invoice, topping the draw up to the minimal consumption, saving the
  balances with their ledger breakdown, rolling a run back, and moving the expected consumption of
  linear credits.

  A run is the object \<open>MonthlyCompensation\<close>: the in-memory copies of the balances and what the run has
  recorded.  \<open>uuid4\<close> gives the identifier of the compensation item written for an item.  Price
  estimates are not refreshed.
\<close>

record compensation_run =
  run_credit :: customer_credit
  run_allocations :: "project_credit list"
  run_items :: "invoice_item list"
  customer_usage_draw :: rat
  project_usage_draws :: "(nat, rat) dict"
  run_total :: rat
  run_tail :: rat
  project_tails :: "(nat, rat) dict"

definition get_amount :: "(nat, rat) dict \<Rightarrow> nat \<Rightarrow> rat" where
  "get_amount d k = (case map_of d k of None \<Rightarrow> 0 | Some x \<Rightarrow> x)"

definition find_allocation :: "project_credit list \<Rightarrow> nat option \<Rightarrow> project_credit option" where
  "find_allocation pcs project =
     (case project of None \<Rightarrow> None | Some p \<Rightarrow> first_row (\<lambda>c. pc_project c = p) pcs)"

definition set_allocation :: "nat \<Rightarrow> rat \<Rightarrow> project_credit list \<Rightarrow> project_credit list" where
  "set_allocation pk v = update_rows (\<lambda>c. pc_pk c = pk) (\<lambda>c. c\<lparr>credit_value := v\<rparr>)"

definition set_credit :: "rat \<Rightarrow> compensation_run \<Rightarrow> compensation_run" where
  "set_credit v m = m\<lparr>run_credit := (run_credit m)\<lparr>credit_value := v\<rparr>\<rparr>"

definition record_usage_draw :: "project_credit option \<Rightarrow> rat \<Rightarrow> compensation_run \<Rightarrow> compensation_run" where
  "record_usage_draw pc amount m =
     (let m1 = (case pc of None \<Rightarrow> m
        | Some c \<Rightarrow> m\<lparr>project_usage_draws :=
            dict_set (pc_pk c) (get_amount (project_usage_draws m) (pc_pk c) + amount) (project_usage_draws m)\<rparr>)
      in m1\<lparr>customer_usage_draw := customer_usage_draw m1 + amount\<rparr>)"

text \<open>Drawing \<open>amount\<close> from an allocation draws it from the organisation as well.\<close>

definition draw_allocation :: "project_credit \<Rightarrow> rat \<Rightarrow> compensation_run \<Rightarrow> compensation_run" where
  "draw_allocation pc amount m =
     record_usage_draw (Some pc) amount
       (set_credit (credit_value (run_credit m) - amount)
         (m\<lparr>run_allocations := set_allocation (pc_pk pc) (credit_value pc - amount) (run_allocations m)\<rparr>))"

definition draw_organization :: "rat \<Rightarrow> compensation_run \<Rightarrow> compensation_run" where
  "draw_organization amount m =
     set_credit (credit_value (run_credit m) - amount) (record_usage_draw None amount m)"

text \<open>What an item is compensated by, and the balances after it.\<close>

definition draw_for_item :: "invoice \<Rightarrow> (string, rat) dict \<Rightarrow> invoice_item \<Rightarrow> compensation_run \<Rightarrow> rat \<times> compensation_run" where
  "draw_for_item iv discounts i m =
     (let cost = net_cost discounts i
      in case find_allocation (run_allocations m) (it_project i) of
           Some pc \<Rightarrow>
             if cost \<ge> credit_value pc
             then (credit_value pc, draw_allocation pc (credit_value pc) m)
             else (cost, draw_allocation pc cost m)
         | None \<Rightarrow>
             if cost \<ge> credit_value (run_credit m)
             then (credit_value (run_credit m) / (1 + tax_percent iv / 100),
                   draw_organization (credit_value (run_credit m)) m)
             else (cost, draw_organization cost m))"

definition compensation_item ::
    "(string \<Rightarrow> string) \<Rightarrow> customer_credit \<Rightarrow> rat \<Rightarrow> invoice_item \<Rightarrow> invoice_item" where
  "compensation_item uuid4 cc amount i =
     i\<lparr>it_uuid := uuid4 (it_uuid i), unit_price := amount * -1, quantity := 1,
       it_project := map_option br_project (it_resource i), it_credit := Some (cc_pk cc),
       is_compensation := True, compensation_of_item := Some (it_uuid i)\<rparr>"

definition compensate_item ::
    "(string \<Rightarrow> string) \<Rightarrow> invoice \<Rightarrow> (string, rat) dict \<Rightarrow> invoice_item \<Rightarrow> compensation_run \<Rightarrow> compensation_run" where
  "compensate_item uuid4 iv discounts i m =
     (let (amount, m1) = draw_for_item iv discounts i m
      in if amount \<noteq> 0 then m1\<lparr>run_items := run_items m1 @ [compensation_item uuid4 (run_credit m1) amount i]\<rparr>
         else m1)"

text \<open>The loop ends when the organisation's balance is zero.\<close>

fun compensate_items ::
    "(string \<Rightarrow> string) \<Rightarrow> invoice \<Rightarrow> (string, rat) dict \<Rightarrow> invoice_item list \<Rightarrow> compensation_run \<Rightarrow> compensation_run" where
  "compensate_items uuid4 iv discounts [] m = m"
| "compensate_items uuid4 iv discounts (i # items) m =
     (let m1 = compensate_item uuid4 iv discounts i m
      in if credit_value (run_credit m1) = 0 then m1 else compensate_items uuid4 iv discounts items m1)"

text \<open>The draw that tops a balance up to its minimal consumption.\<close>

definition floor_draw :: "rat \<Rightarrow> rat \<Rightarrow> rat \<Rightarrow> rat" where
  "floor_draw minimal drawn_total balance =
     (if minimal \<noteq> 0 \<and> drawn_total < minimal
      then (if balance - (minimal - drawn_total) < 0 then balance else minimal - drawn_total) else 0)"

definition apply_minimal_consumption :: "cdate \<Rightarrow> compensation_run \<Rightarrow> compensation_run" where
  "apply_minimal_consumption now m =
     (let drawn_total = sum_list (map (\<lambda>i. unit_price i * -1) (run_items m));
          tail = floor_draw (minimal_consumption now (run_credit m)) drawn_total (credit_value (run_credit m))
      in set_credit (credit_value (run_credit m) - tail) (m\<lparr>run_tail := tail, run_total := drawn_total + tail\<rparr>))"

definition get_total_project_compensation :: "compensation_run \<Rightarrow> nat \<Rightarrow> rat" where
  "get_total_project_compensation m project = sum_list (map (\<lambda>i. unit_price i * -1)
     (filter (\<lambda>i. case it_resource i of None \<Rightarrow> False | Some r \<Rightarrow> br_project r = project) (run_items m)))"

definition apply_project_minimum :: "cdate \<Rightarrow> project_credit \<Rightarrow> compensation_run \<Rightarrow> compensation_run" where
  "apply_project_minimum now pc m =
     (let minimal = minimal_consumption now pc; drawn_total = get_total_project_compensation m (pc_project pc);
          tail = floor_draw minimal drawn_total (credit_value pc)
      in if minimal = 0 \<or> \<not> drawn_total < minimal then m
         else m\<lparr>run_allocations := set_allocation (pc_pk pc) (credit_value pc - tail) (run_allocations m),
                project_tails := dict_set (pc_pk pc) tail (project_tails m)\<rparr>)"

definition apply_project_minimums :: "cdate \<Rightarrow> compensation_run \<Rightarrow> compensation_run" where
  "apply_project_minimums now m = fold (apply_project_minimum now) (run_allocations m) m"

definition fresh_run :: "customer_credit \<Rightarrow> project_credit list \<Rightarrow> compensation_run" where
  "fresh_run cc pcs = \<lparr>run_credit = cc, run_allocations = pcs, run_items = [], customer_usage_draw = 0,
     project_usage_draws = [], run_total = 0, run_tail = 0, project_tails = []\<rparr>"

text \<open>The allocations of the projects whose resources are on the invoice, and the items by price.\<close>

definition invoiced_allocations :: "credit_db \<Rightarrow> invoice \<Rightarrow> project_credit list" where
  "invoiced_allocations db iv =
     filter (\<lambda>p. Some (pc_project p) \<in> set (map (map_option br_project \<circ> it_resource) (inv_items iv)))
       (project_credits db)"

definition calculate_current_compensations ::
    "(string \<Rightarrow> string) \<Rightarrow> credit_db \<Rightarrow> customer_credit \<Rightarrow> invoice option \<Rightarrow> compensation_run" where
  "calculate_current_compensations uuid4 db cc invoice =
     (case invoice of
        None \<Rightarrow> fresh_run cc []
      | Some iv \<Rightarrow>
          if credit_value cc = 0 then fresh_run cc []
          else
            let (items, discounts) = creditable_items iv cc None;
                m = compensate_items uuid4 iv discounts (sort_key item_price items)
                      (fresh_run cc (invoiced_allocations db iv))
            in apply_project_minimums (today db) (apply_minimal_consumption (today db) m))"

subsection \<open>Saving a run\<close>

definition billing_period :: "invoice \<Rightarrow> period" where
  "billing_period iv = (inv_year iv, inv_month iv)"

definition ledger_parts ::
    "invoice option \<Rightarrow> compensation_run \<Rightarrow> (owner, (transaction_type \<times> rat \<times> period option) list) dict" where
  "ledger_parts invoice m =
     (case invoice of
        None \<Rightarrow> []
      | Some iv \<Rightarrow>
          let period = Some (billing_period iv)
          in (Organization (cc_pk (run_credit m)),
               [(COMPENSATION, - customer_usage_draw m, period), (MINIMAL_DRAW, - run_tail m, period)]) #
             map (\<lambda>pc. (Allocation (pc_pk pc),
               [(COMPENSATION, - get_amount (project_usage_draws m) (pc_pk pc), period),
                (MINIMAL_DRAW, - get_amount (project_tails m) (pc_pk pc), period)])) (run_allocations m))"

definition add_items :: "nat \<Rightarrow> invoice_item list \<Rightarrow> credit_db \<Rightarrow> credit_db" where
  "add_items pk items db = db\<lparr>invoices :=
     update_rows (\<lambda>v. inv_pk v = pk) (\<lambda>v. v\<lparr>inv_items := inv_items v @ items\<rparr>) (invoices db)\<rparr>"

definition save_run ::
    "invoice option \<Rightarrow> compensation_run \<Rightarrow> credit_db \<Rightarrow> (credit_error, credit_db) result" where
  "save_run invoice m db =
     (let ctx = \<lparr>ctx_parts = ledger_parts invoice m,
                 ctx_type = Some (COMPENSATION, map_option billing_period invoice)\<rparr>;
          db1 = (case invoice of None \<Rightarrow> db | Some iv \<Rightarrow> add_items (inv_pk iv) (run_items m) db)
      in rbind (rfold (\<lambda>db pc. save_project_credit ctx (Some [VALUE]) pc db) db1 (run_allocations m)) (\<lambda>db2.
           save_customer_credit ctx (Some [VALUE]) (run_credit m) db2))"

text \<open>\<open>MonthlyCompensation.save\<close>; the run is kept for what follows.\<close>

definition save_compensations ::
    "(string \<Rightarrow> string) \<Rightarrow> nat \<Rightarrow> invoice option \<Rightarrow> credit_db \<Rightarrow>
     (credit_error, compensation_run option \<times> credit_db) result" where
  "save_compensations uuid4 customer invoice db =
     (case find_credit db customer of
        None \<Rightarrow> Inr (None, db)
      | Some cc \<Rightarrow>
          let m = calculate_current_compensations uuid4 db cc invoice
          in rbind (save_run invoice m db) (\<lambda>db1. Inr (Some m, db1)))"

subsection \<open>Rolling back\<close>

definition find_invoice :: "credit_db \<Rightarrow> nat \<Rightarrow> invoice option" where
  "find_invoice db pk = first_row (\<lambda>v. inv_pk v = pk) (invoices db)"

text \<open>The sum of the unit prices of a project's compensation items, if it has any.\<close>

definition project_consumption :: "invoice_item list \<Rightarrow> nat \<Rightarrow> rat option" where
  "project_consumption items project =
     (let own = filter (\<lambda>i. it_project i = Some project) items
      in if own = [] then None else Some (sum_list (map unit_price own)))"

definition return_allocation ::
    "ledger_context \<Rightarrow> invoice_item list \<Rightarrow> credit_db \<Rightarrow> project_credit \<Rightarrow> (credit_error, credit_db) result" where
  "return_allocation ctx items db pc =
     (case project_consumption items (pc_project pc) of
        None \<Rightarrow> Inr db
      | Some v \<Rightarrow> save_project_credit ctx (Some [VALUE]) (pc\<lparr>credit_value := credit_value pc + v * -1\<rparr>) db)"

definition drop_items :: "nat \<Rightarrow> nat \<Rightarrow> credit_db \<Rightarrow> credit_db" where
  "drop_items pk credit db = db\<lparr>invoices := update_rows (\<lambda>v. inv_pk v = pk)
     (\<lambda>v. v\<lparr>inv_items := filter (\<lambda>i. it_credit i \<noteq> Some credit) (inv_items v)\<rparr>) (invoices db)\<rparr>"

definition clear_compensations :: "nat \<Rightarrow> nat option \<Rightarrow> credit_db \<Rightarrow> (credit_error, credit_db) result" where
  "clear_compensations customer invoice db =
     (case (find_credit db customer, Option.bind invoice (find_invoice db)) of
        (Some cc, Some iv) \<Rightarrow>
          let items = filter (\<lambda>i. it_credit i = Some (cc_pk cc)) (inv_items iv);
              applied = sum_list (map unit_price items) * -1;
              ctx = typed ROLLBACK (Some (billing_period iv))
          in if items = [] then Inr db
             else rbind (save_customer_credit ctx (Some [VALUE])
                    (cc\<lparr>credit_value := credit_value cc + max applied (minimal_consumption (today db) cc)\<rparr>) db) (\<lambda>db1.
                  rbind (rfold (return_allocation ctx items) db1 (allocations db1 customer)) (\<lambda>db2.
                    Inr (drop_items (inv_pk iv) (cc_pk cc) db2)))
      | _ \<Rightarrow> Inr db)"

definition apply_compensations ::
    "(string \<Rightarrow> string) \<Rightarrow> nat \<Rightarrow> nat option \<Rightarrow> credit_db \<Rightarrow>
     (credit_error, compensation_run option \<times> credit_db) result" where
  "apply_compensations uuid4 customer invoice db =
     rbind (clear_compensations customer invoice db) (\<lambda>db1.
       save_compensations uuid4 customer (Option.bind invoice (find_invoice db1)) db1)"

text \<open>\<open>MonthlyCompensation.__init__\<close> without an invoice: the latest one that can still change.\<close>

definition later_invoice :: "invoice \<Rightarrow> invoice \<Rightarrow> bool" where
  "later_invoice a b \<longleftrightarrow> inv_year b < inv_year a \<or> inv_year b = inv_year a \<and> inv_month b < inv_month a"

definition current_invoice :: "credit_db \<Rightarrow> nat \<Rightarrow> invoice option" where
  "current_invoice db customer =
     fold (\<lambda>v best. case best of None \<Rightarrow> Some v | Some b \<Rightarrow> Some (if later_invoice v b then v else b))
       (filter (\<lambda>v. inv_customer v = customer \<and> inv_state v \<in> set MUTABLE_STATES) (invoices db)) None"

subsection \<open>Linear credits\<close>

definition update_linear_expected_consumption ::
    "nat \<Rightarrow> compensation_run option \<Rightarrow> credit_db \<Rightarrow> (credit_error, credit_db) result" where
  "update_linear_expected_consumption customer run db =
     (let db1 = (case run of None \<Rightarrow> db
          | Some m \<Rightarrow>
              let cc = run_credit m
              in case (linear_logic cc, credit_end_date cc) of
                   (True, Some e) \<Rightarrow> store_customer_credit no_context (Some [EXPECTED_CONSUMPTION])
                     (cc\<lparr>expected_consumption :=
                        calculate_linear_expected_consumption (today db) e cc (run_total m)\<rparr>) db
                 | _ \<Rightarrow> db);
          tail = (\<lambda>pc. case run of None \<Rightarrow> 0 | Some m \<Rightarrow> get_amount (project_tails m) (pc_pk pc));
          drawn = (\<lambda>pc. case run of None \<Rightarrow> 0 | Some m \<Rightarrow> get_total_project_compensation m (pc_project pc))
      in rfold (\<lambda>db pc. case credit_end_date pc of None \<Rightarrow> Inr db
           | Some e \<Rightarrow> save_project_credit no_context (Some [EXPECTED_CONSUMPTION])
               (pc\<lparr>expected_consumption :=
                  calculate_linear_expected_consumption (today db) e pc (tail pc + drawn pc)\<rparr>) db)
           db1
           (filter (\<lambda>pc. linear_logic pc \<and> (case credit_end_date pc of None \<Rightarrow> False
              | Some e \<Rightarrow> ordinal e > ordinal (today db))) (allocations db1 customer)))"

definition process_invoice_credits ::
    "(string \<Rightarrow> string) \<Rightarrow> invoice \<Rightarrow> credit_db \<Rightarrow> (credit_error, credit_db) result" where
  "process_invoice_credits uuid4 iv db =
     rbind (apply_compensations uuid4 (inv_customer iv) (Some (inv_pk iv)) db) (\<lambda>(run, db1).
       update_linear_expected_consumption (inv_customer iv) run db1)"

end
