(* ===== verification/Credit_Operations.thy ===== *)
theory Credit_Operations
  imports Compensations
begin

text \<open>
  What else moves credit, \<^verbatim>\<open>src/waldur_mastermind/invoices\<close> (\<open>handlers.py\<close>, \<open>tasks.py\<close>, \<open>views.py\<close>,
  \<open>serializers.py\<close>): staff edits, adjustments of the withdrawable part, expiry, the removal of a
  project or of a credit, affiliate fees, and the states of an invoice up to its finalization.
\<close>

subsection \<open>Reports\<close>

definition invoice_of_month :: "credit_db \<Rightarrow> nat \<Rightarrow> period \<Rightarrow> invoice option" where
  "invoice_of_month db customer m =
     first_row (\<lambda>v. inv_customer v = customer \<and> (inv_year v, inv_month v) = m) (invoices db)"

definition last_month :: "cdate \<Rightarrow> period" where
  "last_month d = (if cd_month d = 1 then (cd_year d - 1, 12) else (cd_year d, cd_month d - 1))"

definition item_total :: "invoice \<Rightarrow> invoice_item \<Rightarrow> rat" where
  "item_total iv i = item_price i + item_price i * tax_percent iv / 100"

definition consumption_last_month :: "credit_db \<Rightarrow> customer_credit \<Rightarrow> rat option" where
  "consumption_last_month db cc =
     map_option (\<lambda>iv. - sum_list (map (item_total iv) (filter (\<lambda>i. it_credit i = Some (cc_pk cc)) (inv_items iv))))
       (invoice_of_month db (cc_customer cc) (last_month (today db)))"

definition project_consumption_last_month :: "credit_db \<Rightarrow> nat \<Rightarrow> project_credit \<Rightarrow> rat option" where
  "project_consumption_last_month db customer pc =
     map_option (\<lambda>iv. case find_credit db customer of
         None \<Rightarrow> 0
       | Some cc \<Rightarrow> - sum_list (map (item_total iv)
           (filter (\<lambda>i. it_credit i = Some (cc_pk cc) \<and> it_project i = Some (pc_project pc)) (inv_items iv))))
       (invoice_of_month db customer (last_month (today db)))"

definition creditable_cost_this_month :: "credit_db \<Rightarrow> nat \<Rightarrow> project_credit \<Rightarrow> rat option" where
  "creditable_cost_this_month db customer pc =
     map_option (\<lambda>iv. case find_credit db customer of
         None \<Rightarrow> 0 | Some cc \<Rightarrow> creditable_cost iv cc (Some (pc_project pc)))
       (invoice_of_month db customer (cd_year (today db), cd_month (today db)))"

text \<open>What a run would take from a project's allocation, and what it compensates of a resource.\<close>

definition get_project_credit_consumption :: "credit_db \<Rightarrow> compensation_run \<Rightarrow> nat \<Rightarrow> rat" where
  "get_project_credit_consumption db m project =
     (case find_allocation (run_allocations m) (Some project) of
        None \<Rightarrow> 0
      | Some pc \<Rightarrow> (case first_row (\<lambda>r. pc_pk r = pc_pk pc) (project_credits db) of
          None \<Rightarrow> 0 | Some old \<Rightarrow> credit_value old - credit_value pc))"

definition get_resource_compensation :: "compensation_run \<Rightarrow> nat \<Rightarrow> rat" where
  "get_resource_compensation m resource = sum_list (map (\<lambda>i. unit_price i * -1)
     (filter (\<lambda>i. map_option br_id (it_resource i) = Some resource) (run_items m)))"

subsection \<open>Staff edits\<close>

text \<open>\<open>CreateCustomerCreditSerializer\<close>: the checks of the end date and of the whole.\<close>

definition validate_credit :: "cdate \<Rightarrow> 'a credit_terms_scheme \<Rightarrow> bool" where
  "validate_credit now c \<longleftrightarrow>
     (case credit_end_date c of None \<Rightarrow> True | Some e \<Rightarrow> ordinal now \<le> ordinal e \<and> cd_day e = 1) \<and>
     (expected_consumption c \<noteq> 0 \<longrightarrow> expected_consumption c < credit_value c) \<and>
     (linear_logic c \<longrightarrow> (case credit_end_date c of None \<Rightarrow> False
        | Some e \<Rightarrow> \<not> (cd_year e = cd_year now \<and> cd_month e = cd_month now)))"

definition adjust_withdrawable :: "nat \<Rightarrow> rat \<Rightarrow> credit_db \<Rightarrow> (credit_error, credit_db) result" where
  "adjust_withdrawable pk amount db =
     (case first_row (\<lambda>c. cc_pk c = pk) (customer_credits db) of
        None \<Rightarrow> Inl NoCustomerCredit
      | Some cc \<Rightarrow>
          if credit_value cc + amount < 0 then Inl NegativeCredit
          else if amount < 0 \<and> - amount > withdrawable_balance db cc then Inl ExceedsWithdrawable
          else save_customer_credit (typed WITHDRAWABLE_ADJUSTMENT None) (Some [VALUE])
                 (cc\<lparr>credit_value := credit_value cc + amount\<rparr>) db)"

subsection \<open>Expiry\<close>

definition overdue :: "cdate \<Rightarrow> 'a credit_terms_scheme \<Rightarrow> bool" where
  "overdue effective c \<longleftrightarrow>
     (case credit_end_date c of None \<Rightarrow> False | Some e \<Rightarrow> ordinal e < ordinal effective) \<and> credit_value c \<noteq> 0"

text \<open>\<open>try\<close> with a savepoint: a raise leaves the database as it was and the loop goes on.\<close>

definition attempt :: "('e, 's) result \<Rightarrow> 's \<Rightarrow> 's" where
  "attempt r db = (case r of Inl _ \<Rightarrow> db | Inr db' \<Rightarrow> db')"

definition set_to_zero_overdue_credits :: "cdate \<Rightarrow> credit_db \<Rightarrow> (credit_error, credit_db) result" where
  "set_to_zero_overdue_credits effective db =
     (if ordinal effective > ordinal (today db) then Inl FutureEffectiveDate
      else
        let ctx = typed EXPIRY (Some (cd_year effective, cd_month effective));
            db1 = fold (\<lambda>c db. attempt (save_customer_credit ctx (Some [VALUE]) (c\<lparr>credit_value := 0\<rparr>) db) db)
                    (filter (overdue effective) (customer_credits db)) db
        in Inr (fold (\<lambda>p db. attempt (save_project_credit ctx (Some [VALUE]) (p\<lparr>credit_value := 0\<rparr>) db) db)
                  (filter (overdue effective) (project_credits db1)) db1))"

subsection \<open>Removal of projects and credits\<close>

definition refund_project_credit_on_project_removal ::
    "nat \<Rightarrow> credit_db \<Rightarrow> (credit_error, credit_db) result" where
  "refund_project_credit_on_project_removal project db =
     (case first_row (\<lambda>p. pc_project p = project) (project_credits db) of
        None \<Rightarrow> Inr db
      | Some pc \<Rightarrow>
        (case credit_of_project db pc of
           None \<Rightarrow> Inr db
         | Some cc \<Rightarrow>
             if credit_value pc \<le> 0 then Inr db
             else
               let ctx = typed ADJUSTMENT None;
                   left = (if credit_value cc > credit_value pc then credit_value cc - credit_value pc else 0)
               in rbind (if mark_unused_credit_as_spent pc
                         then save_customer_credit ctx (Some [VALUE]) (cc\<lparr>credit_value := left\<rparr>) db else Inr db) (\<lambda>db1.
                    save_project_credit ctx (Some [VALUE]) (pc\<lparr>credit_value := 0\<rparr>) db1)))"

text \<open>The ledger keeps the rows of a deleted allocation, without their reference to it.\<close>

definition delete_allocations :: "nat list \<Rightarrow> credit_db \<Rightarrow> credit_db" where
  "delete_allocations pks db = db\<lparr>
     project_credits := filter (\<lambda>p. pc_pk p \<notin> set pks) (project_credits db),
     transactions := map (\<lambda>t. if tx_owner t \<in> Some ` Allocation ` set pks then t\<lparr>tx_owner := None\<rparr> else t)
       (transactions db)\<rparr>"

text \<open>Deleting the credit of an organisation: its allocations go first, its ledger rows with it.\<close>

definition delete_customer_credit :: "customer_credit \<Rightarrow> credit_db \<Rightarrow> credit_db" where
  "delete_customer_credit cc db =
     (let db1 = delete_allocations (map pc_pk (allocations db (cc_customer cc))) db
      in db1\<lparr>customer_credits := filter (\<lambda>c. cc_pk c \<noteq> cc_pk cc) (customer_credits db1),
             transactions := filter (\<lambda>t. tx_owner t \<noteq> Some (Organization (cc_pk cc))) (transactions db1)\<rparr>)"

subsection \<open>Affiliate fees\<close>

definition is_active_on :: "cdate \<Rightarrow> customer_affiliate \<Rightarrow> bool" where
  "is_active_on d l \<longleftrightarrow> al_is_active l \<and>
     \<not> (case al_start_date l of None \<Rightarrow> False | Some s \<Rightarrow> ordinal d < ordinal s) \<and>
     \<not> (case al_end_date l of None \<Rightarrow> False | Some e \<Rightarrow> ordinal d \<ge> ordinal e)"

definition calculate_fee :: "customer_affiliate \<Rightarrow> rat \<Rightarrow> rat" where
  "calculate_fee l amount = max 0 (quantize_price (amount * fee_percent l / 100))"

definition new_credit :: "credit_db \<Rightarrow> nat \<Rightarrow> customer_credit" where
  "new_credit db customer = \<lparr>credit_value = 0, expected_consumption = 0, linear_logic = False,
     grace_coefficient = 0, apply_as_minimal_consumption = True, credit_end_date = None,
     cc_pk = Suc (Max (insert 0 (set (map cc_pk (customer_credits db))))), cc_customer = customer, cc_offerings = []\<rparr>"

definition get_or_create_credit :: "nat \<Rightarrow> credit_db \<Rightarrow> customer_credit \<times> credit_db" where
  "get_or_create_credit customer db =
     (case find_credit db customer of
        Some cc \<Rightarrow> (cc, db)
      | None \<Rightarrow> let cc = new_credit db customer
                in (cc, db\<lparr>customer_credits := customer_credits db @ [cc]\<rparr>))"

definition accrue_affiliate_fee ::
    "customer_affiliate \<Rightarrow> invoice \<Rightarrow> credit_db \<Rightarrow> (credit_error, credit_db) result" where
  "accrue_affiliate_fee l iv db =
     (let amount = invoice_price iv; fee = calculate_fee l amount
      in if amount \<le> 0 \<or> fee \<le> 0 then Inr db
         else if list_ex (\<lambda>(lk, v, _). lk = al_pk l \<and> v = inv_pk iv) (accruals db) then Inr db
         else
           let (cc, db1) = get_or_create_credit (al_affiliate l) db;
               db2 = db1\<lparr>accruals := accruals db1 @ [(al_pk l, inv_pk iv, fee)]\<rparr>
           in save_customer_credit (typed AFFILIATE_FEE None) (Some [VALUE])
                (cc\<lparr>credit_value := credit_value cc + fee\<rparr>) db2)"

definition process_affiliate_fees :: "invoice \<Rightarrow> credit_db \<Rightarrow> credit_db" where
  "process_affiliate_fees iv db =
     (if \<not> affiliates_enabled db then db
      else fold (\<lambda>l db. attempt (accrue_affiliate_fee l iv db) db)
        (filter (is_active_on \<lparr>cd_year = inv_year iv, cd_month = inv_month iv, cd_day = 1\<rparr>)
          (filter (\<lambda>l. al_customer l = inv_customer iv \<and> al_is_active l) (affiliate_links db))) db)"

subsection \<open>Finalization of an invoice\<close>

definition set_invoice_state :: "nat \<Rightarrow> invoice_state \<Rightarrow> credit_db \<Rightarrow> credit_db" where
  "set_invoice_state pk st db = db\<lparr>invoices :=
     update_rows (\<lambda>v. inv_pk v = pk) (\<lambda>v. v\<lparr>inv_state := st\<rparr>) (invoices db)\<rparr>"

definition set_pending_finalization :: "invoice \<Rightarrow> credit_db \<Rightarrow> (credit_error, credit_db) result" where
  "set_pending_finalization iv db =
     (if inv_state iv \<noteq> PENDING_INVOICE then Inl IncorrectState
      else Inr (set_invoice_state (inv_pk iv) PENDING_FINALIZATION db))"

text \<open>\<open>set_created\<close> with the signal its save sends, for the items the invoice then has.\<close>

definition emit_invoice_created :: "invoice_state \<Rightarrow> nat \<Rightarrow> credit_db \<Rightarrow> credit_db" where
  "emit_invoice_created previous pk db =
     (case find_invoice db pk of
        None \<Rightarrow> db
      | Some iv \<Rightarrow> if inv_state iv \<noteq> CREATED \<or> previous = CREATED then db else process_affiliate_fees iv db)"

definition set_created :: "invoice \<Rightarrow> credit_db \<Rightarrow> (credit_error, credit_db) result" where
  "set_created iv db =
     (if inv_state iv \<notin> set MUTABLE_STATES then Inl IncorrectState
      else Inr (emit_invoice_created (inv_state iv) (inv_pk iv) (set_invoice_state (inv_pk iv)
        (if inv_customer iv \<in> set (fixed_price_customers db) then PAID else CREATED) db)))"

text \<open>
  The transaction that finalizes one invoice, and the hourly task over all of them; \<open>volume_discounts\<close>
  is \<open>billing_discount.apply_aggregated_volume_discounts\<close>, \<open>hours\<close> the hours since the month began.
\<close>

definition finalize_invoice ::
    "(invoice \<Rightarrow> credit_db \<Rightarrow> (credit_error, credit_db) result) \<Rightarrow> (string \<Rightarrow> string) \<Rightarrow> invoice \<Rightarrow> credit_db \<Rightarrow>
     (credit_error, credit_db) result" where
  "finalize_invoice volume_discounts uuid4 iv db =
     rbind (volume_discounts iv db) (\<lambda>db1. rbind (process_invoice_credits uuid4 iv db1) (\<lambda>db2. set_created iv db2))"

definition finalize_previous_invoices ::
    "(invoice \<Rightarrow> credit_db \<Rightarrow> (credit_error, credit_db) result) \<Rightarrow> (string \<Rightarrow> string) \<Rightarrow> rat \<Rightarrow> rat \<Rightarrow> credit_db \<Rightarrow>
     (credit_error, credit_db) result" where
  "finalize_previous_invoices volume_discounts uuid4 grace_hours hours db =
     (let pending = filter (\<lambda>v. inv_state v = PENDING_FINALIZATION) (invoices db)
      in if pending = [] then Inr db
         else if grace_hours > 0 \<and> hours < grace_hours then Inr db
         else rbind (set_to_zero_overdue_credits ((today db)\<lparr>cd_day := 1\<rparr>) db) (\<lambda>db1.
           Inr (fold (\<lambda>v db. attempt (finalize_invoice volume_discounts uuid4 v db) db) pending db1)))"

end
