(* ===== verification/Credit_Ledger.thy ===== *)
theory Credit_Ledger
  imports Credit_Operations
begin

text \<open>
  The ledger explains the balances: every operation that moves credit appends rows that add up to the
  movement, so each balance is the sum of its ledger rows.
\<close>

definition ledger_sum :: "credit_db \<Rightarrow> owner \<Rightarrow> rat" where
  "ledger_sum db own = sum_list (map tx_amount (owner_rows db own))"

definition explains ::
    "('a credit_terms_scheme \<Rightarrow> nat) \<Rightarrow> (nat \<Rightarrow> owner) \<Rightarrow> 'a credit_terms_scheme list \<Rightarrow> (owner \<Rightarrow> rat) \<Rightarrow> bool" where
  "explains key own rows led \<longleftrightarrow> (\<forall>c\<in>set rows. credit_value c = led (own (key c)))"

definition ledger_explains :: "credit_db \<Rightarrow> bool" where
  "ledger_explains db \<longleftrightarrow> explains cc_pk Organization (customer_credits db) (ledger_sum db) \<and>
     explains pc_pk Allocation (project_credits db) (ledger_sum db)"

definition ledger_owners_exist :: "credit_db \<Rightarrow> bool" where
  "ledger_owners_exist db \<longleftrightarrow> (\<forall>t\<in>set (transactions db). \<forall>k.
     (tx_owner t = Some (Organization k) \<longrightarrow> k \<in> set (map cc_pk (customer_credits db))) \<and>
     (tx_owner t = Some (Allocation k) \<longrightarrow> k \<in> set (map pc_pk (project_credits db))))"

definition credit_keys :: "credit_db \<Rightarrow> bool" where
  "credit_keys db \<longleftrightarrow> distinct (map cc_pk (customer_credits db)) \<and> distinct (map pc_pk (project_credits db))"

definition ledger_inv :: "credit_db \<Rightarrow> bool" where
  "ledger_inv db \<longleftrightarrow> ledger_explains db \<and> ledger_owners_exist db \<and> credit_keys db"

subsection \<open>Rows\<close>

lemma transaction_rows_owner: "t \<in> set (transaction_rows ctx own project delta) \<Longrightarrow> tx_owner t = Some own"
  by (auto simp: transaction_rows_def Let_def split: if_splits option.splits)

lemma sum_nonzero_parts:
  "sum_list (map tx_amount (map (\<lambda>(ty, amount, m). \<lparr>tx_owner = own, tx_project = project, tx_amount = amount,
     tx_type = ty, tx_period = m\<rparr>) (filter (\<lambda>(_, amount, _). amount \<noteq> 0) ps))) = sum_list (map (fst \<circ> snd) ps)"
  by (induction ps) (auto split: prod.splits)

lemma transaction_rows_sum: "sum_list (map tx_amount (transaction_rows ctx own project delta)) = delta"
  using sum_nonzero_parts [of "Some own" project]
  by (auto simp: transaction_rows_def Let_def split: option.splits prod.splits)

lemma ledger_sum_record:
  "ledger_sum (record_credit_transaction ctx own project delta db) o' =
     ledger_sum db o' + (if o' = own then delta else 0)"
proof -
  have "filter (\<lambda>t. tx_owner t = Some o') (transaction_rows ctx own project delta) =
      (if o' = own then transaction_rows ctx own project delta else [])"
    using transaction_rows_owner [of _ ctx own project delta] by (auto simp: filter_id_conv filter_empty_conv)
  then show ?thesis
    by (simp add: ledger_sum_def owner_rows_def record_credit_transaction_def transaction_rows_sum)
qed

lemma record_fields [simp]:
  "customer_credits (record_credit_transaction ctx own project delta db) = customer_credits db"
  "project_credits (record_credit_transaction ctx own project delta db) = project_credits db"
  "invoices (record_credit_transaction ctx own project delta db) = invoices db"
  "project_customer (record_credit_transaction ctx own project delta db) = project_customer db"
  "accruals (record_credit_transaction ctx own project delta db) = accruals db"
  "today (record_credit_transaction ctx own project delta db) = today db"
  by (simp_all add: record_credit_transaction_def)

lemma ledger_sum_cong: "transactions db' = transactions db \<Longrightarrow> ledger_sum db' own = ledger_sum db own"
  by (simp add: ledger_sum_def owner_rows_def)

lemma ledger_inv_cong:
  assumes "customer_credits db' = customer_credits db" and "project_credits db' = project_credits db"
    and "transactions db' = transactions db"
  shows "ledger_inv db' = ledger_inv db"
proof -
  have "ledger_sum db' = ledger_sum db" using ledger_sum_cong [OF assms(3)] by (rule ext)
  then show ?thesis
    using assms by (simp add: ledger_inv_def ledger_explains_def ledger_owners_exist_def credit_keys_def)
qed

subsection \<open>Saving keeps the balances explained\<close>

lemma written_pk [simp]: "cc_pk (written upd old new) = (if upd = None then cc_pk new else cc_pk old)"
  by (simp add: written_def)

lemma written_pc_pk [simp]: "pc_pk (written upd old new) = (if upd = None then pc_pk new else pc_pk old)"
  by (simp add: written_def)

lemma written_value [simp]:
  "credit_value (written upd old new) = (if writes upd VALUE then credit_value new else credit_value old)"
  by (auto simp: written_def writes_def)

lemma first_row_pk:
  assumes "first_row (\<lambda>r. key r = k) rows = Some old" and "distinct (map key rows)" and "r \<in> set rows" and "key r = k"
  shows "r = old"
  using first_row_Some [OF assms(1)] distinct_key_eq [OF assms(2,3)] assms(4) by auto

text \<open>One balance moves by \<open>delta\<close> and so does the sum of its rows.\<close>

lemma moved_explains:
  assumes ex: "explains key own rows led" and old: "first_row (\<lambda>r. key r = k) rows = Some old"
    and keys: "distinct (map key rows)" and own: "inj own"
    and moved: "credit_value (f old) = credit_value old + delta" "key (f old) = k"
  shows "explains key own (update_rows (\<lambda>r. key r = k) f rows) (\<lambda>o'. led o' + (if o' = own k then delta else 0))"
  unfolding explains_def
proof
  fix r
  assume "r \<in> set (update_rows (\<lambda>r. key r = k) f rows)"
  then obtain r0 where r0: "r0 \<in> set rows" "r = (if key r0 = k then f r0 else r0)"
    unfolding set_update_rows by blast
  show "credit_value r = led (own (key r)) + (if own (key r) = own k then delta else 0)"
  proof (cases "key r0 = k")
    case True
    then have "r0 = old" using first_row_pk [OF old keys r0(1)] by simp
    then show ?thesis using True r0 moved ex by (simp add: explains_def)
  next
    case False
    then show ?thesis using r0 ex own by (simp add: explains_def inj_eq)
  qed
qed

lemma unmoved_explains:
  "explains key own rows led \<Longrightarrow> (\<And>k. own k \<noteq> o') \<Longrightarrow>
     explains key own rows (\<lambda>p. led p + (if p = o' then delta else 0))"
  by (auto simp: explains_def)

lemma owners: "inj Organization" "inj Allocation"
  by (simp_all add: inj_def)

lemma recorded_owners:
  assumes ok: "ledger_owners_exist db"
    and org: "\<And>k. own = Organization k \<Longrightarrow> k \<in> set (map cc_pk (customer_credits db))"
    and alloc: "\<And>k. own = Allocation k \<Longrightarrow> k \<in> set (map pc_pk (project_credits db))"
    and keys: "map cc_pk (customer_credits db') = map cc_pk (customer_credits db)"
      "map pc_pk (project_credits db') = map pc_pk (project_credits db)"
    and rows: "set (transactions db') \<subseteq> set (transactions db) \<union> set (transaction_rows ctx own project delta)"
  shows "ledger_owners_exist db'"
  unfolding ledger_owners_exist_def keys
proof (intro ballI allI)
  fix t k
  assume "t \<in> set (transactions db')"
  then consider "t \<in> set (transactions db)" | "tx_owner t = Some own"
    using rows transaction_rows_owner by blast
  then show "(tx_owner t = Some (Organization k) \<longrightarrow> k \<in> set (map cc_pk (customer_credits db))) \<and>
      (tx_owner t = Some (Allocation k) \<longrightarrow> k \<in> set (map pc_pk (project_credits db)))"
  proof cases
    case 1
    then show ?thesis using ok unfolding ledger_owners_exist_def by blast
  next
    case 2
    then show ?thesis using org alloc by simp
  qed
qed

lemma update_keeps_keys: "(\<And>r. key r = k \<Longrightarrow> key (f r) = k) \<Longrightarrow> map key (update_rows (\<lambda>r. key r = k) f rows) = map key rows"
  by (rule map_update_rows_same) simp

lemma first_row_key_mem: "first_row (\<lambda>r. key r = k) rows = Some old \<Longrightarrow> k \<in> set (map key rows)"
  by (auto dest: first_row_Some)

lemma stored_sum:
  "ledger_sum (if w then record_credit_transaction ctx own project delta db1 else db1) =
     (\<lambda>p. ledger_sum db1 p + (if p = own then if w then delta else 0 else 0))"
  by (auto simp: ledger_sum_record)

lemma store_customer_credit_inv:
  assumes inv: "ledger_inv db"
  shows "ledger_inv (store_customer_credit ctx upd c db)"
proof (cases "first_row (\<lambda>r. cc_pk r = cc_pk c) (customer_credits db)")
  case None
  then show ?thesis using inv by (simp add: store_customer_credit_def)
next
  case (Some old)
  let ?rows = "update_rows (\<lambda>r. cc_pk r = cc_pk c) (\<lambda>r. written upd r c) (customer_credits db)"
  let ?d = "if writes upd VALUE then credit_value c - credit_value old else 0"
  let ?db = "store_customer_credit ctx upd c db"
  note stored = store_customer_credit_def Some option.case Let_def
  have rows: "customer_credits ?db = ?rows" "project_credits ?db = project_credits db"
    unfolding stored by simp_all
  have keys: "map cc_pk ?rows = map cc_pk (customer_credits db)" by (rule update_keeps_keys) simp
  have rowsum: "ledger_sum ?db = (\<lambda>p. ledger_sum db p + (if p = Organization (cc_pk c) then ?d else 0))"
    unfolding stored stored_sum by (simp add: ledger_sum_def owner_rows_def)
  have ex: "explains cc_pk Organization (customer_credits db) (ledger_sum db)"
      "explains pc_pk Allocation (project_credits db) (ledger_sum db)" "distinct (map cc_pk (customer_credits db))"
    using inv by (simp_all add: ledger_inv_def ledger_explains_def credit_keys_def)
  have "explains cc_pk Organization ?rows (\<lambda>p. ledger_sum db p + (if p = Organization (cc_pk c) then ?d else 0))"
    by (rule moved_explains [OF ex(1) Some ex(3) owners(1)]) (use first_row_Some [OF Some] in auto)
  moreover have "explains pc_pk Allocation (project_credits db)
      (\<lambda>p. ledger_sum db p + (if p = Organization (cc_pk c) then ?d else 0))"
    by (rule unmoved_explains [OF ex(2)]) simp
  ultimately have "ledger_explains ?db" by (simp only: ledger_explains_def rows rowsum)
  moreover have "ledger_owners_exist ?db"
  proof (rule recorded_owners [where own = "Organization (cc_pk c)" and project = None
        and delta = "credit_value c - credit_value old" and ctx = ctx])
    show "ledger_owners_exist db" using inv by (simp add: ledger_inv_def)
    show "set (transactions ?db) \<subseteq> set (transactions db) \<union>
        set (transaction_rows ctx (Organization (cc_pk c)) None (credit_value c - credit_value old))"
      unfolding stored by (auto simp: record_credit_transaction_def)
  qed (use first_row_key_mem [OF Some] keys rows in auto)
  ultimately show ?thesis using inv by (simp add: ledger_inv_def credit_keys_def rows keys)
qed

lemma store_project_credit_inv:
  assumes inv: "ledger_inv db"
  shows "ledger_inv (store_project_credit ctx upd c db)"
proof (cases "first_row (\<lambda>r. pc_pk r = pc_pk c) (project_credits db)")
  case None
  then show ?thesis using inv by (simp add: store_project_credit_def)
next
  case (Some old)
  let ?rows = "update_rows (\<lambda>r. pc_pk r = pc_pk c) (\<lambda>r. written upd r c) (project_credits db)"
  let ?d = "if writes upd VALUE then credit_value c - credit_value old else 0"
  let ?db = "store_project_credit ctx upd c db"
  note stored = store_project_credit_def Some option.case Let_def
  have rows: "customer_credits ?db = customer_credits db" "project_credits ?db = ?rows"
    unfolding stored by simp_all
  have keys: "map pc_pk ?rows = map pc_pk (project_credits db)" by (rule update_keeps_keys) simp
  have rowsum: "ledger_sum ?db = (\<lambda>p. ledger_sum db p + (if p = Allocation (pc_pk c) then ?d else 0))"
    unfolding stored stored_sum by (simp add: ledger_sum_def owner_rows_def)
  have ex: "explains cc_pk Organization (customer_credits db) (ledger_sum db)"
      "explains pc_pk Allocation (project_credits db) (ledger_sum db)" "distinct (map pc_pk (project_credits db))"
    using inv by (simp_all add: ledger_inv_def ledger_explains_def credit_keys_def)
  have "explains pc_pk Allocation ?rows (\<lambda>p. ledger_sum db p + (if p = Allocation (pc_pk c) then ?d else 0))"
    by (rule moved_explains [OF ex(2) Some ex(3) owners(2)]) (use first_row_Some [OF Some] in auto)
  moreover have "explains cc_pk Organization (customer_credits db)
      (\<lambda>p. ledger_sum db p + (if p = Allocation (pc_pk c) then ?d else 0))"
    by (rule unmoved_explains [OF ex(1)]) simp
  ultimately have "ledger_explains ?db" by (simp only: ledger_explains_def rows rowsum)
  moreover have "ledger_owners_exist ?db"
  proof (rule recorded_owners [where own = "Allocation (pc_pk c)" and project = "Some (pc_project c)"
        and delta = "credit_value c - credit_value old" and ctx = ctx])
    show "ledger_owners_exist db" using inv by (simp add: ledger_inv_def)
    show "set (transactions ?db) \<subseteq> set (transactions db) \<union>
        set (transaction_rows ctx (Allocation (pc_pk c)) (Some (pc_project c)) (credit_value c - credit_value old))"
      unfolding stored by (auto simp: record_credit_transaction_def)
  qed (use first_row_key_mem [OF Some] keys rows in auto)
  ultimately show ?thesis using inv by (simp add: ledger_inv_def credit_keys_def rows keys)
qed

subsection \<open>Operations that save\<close>

lemma save_customer_credit_inv: "save_customer_credit ctx upd c db = Inr t \<Longrightarrow> ledger_inv db \<Longrightarrow> ledger_inv t"
  by (auto simp: save_customer_credit_def result_simps store_customer_credit_inv)

lemma save_project_credit_inv: "save_project_credit ctx upd c db = Inr t \<Longrightarrow> ledger_inv db \<Longrightarrow> ledger_inv t"
  by (auto simp: save_project_credit_def result_simps store_project_credit_inv)

lemmas saves_inv = save_customer_credit_inv save_project_credit_inv

lemma attempt_inv:
  "ledger_inv db \<Longrightarrow> (\<And>t. r = Inr t \<Longrightarrow> ledger_inv t) \<Longrightarrow> ledger_inv (attempt r db)"
  by (simp add: attempt_def split: sum.split)

lemma fold_inv: "ledger_inv db \<Longrightarrow> (\<And>x db. ledger_inv db \<Longrightarrow> ledger_inv (f x db)) \<Longrightarrow> ledger_inv (fold f xs db)"
  by (induction xs arbitrary: db) simp_all

lemma rfold_inv:
  "rfold f db xs = Inr t \<Longrightarrow> ledger_inv db \<Longrightarrow> (\<And>db x u. ledger_inv db \<Longrightarrow> f db x = Inr u \<Longrightarrow> ledger_inv u) \<Longrightarrow> ledger_inv t"
  by (rule rfold_invariant [where P = ledger_inv])

lemma invoices_inv [simp]: "ledger_inv (db\<lparr>invoices := ivs\<rparr>) = ledger_inv db"
  by (rule ledger_inv_cong) simp_all

lemma accruals_inv [simp]: "ledger_inv (db\<lparr>accruals := as\<rparr>) = ledger_inv db"
  by (rule ledger_inv_cong) simp_all

lemma items_inv [simp]:
  "ledger_inv (add_items pk items db) = ledger_inv db" "ledger_inv (drop_items pk k db) = ledger_inv db"
  "ledger_inv (set_invoice_state pk st db) = ledger_inv db"
  by (simp_all add: add_items_def drop_items_def set_invoice_state_def)

lemma save_run_inv: "save_run invoice m db = Inr t \<Longrightarrow> ledger_inv db \<Longrightarrow> ledger_inv t"
  unfolding save_run_def Let_def rbind_eq_Inr
  by (elim exE conjE, erule save_customer_credit_inv, erule rfold_inv)
    (auto split: option.splits intro: save_project_credit_inv)

lemma return_allocation_inv: "return_allocation ctx items db pc = Inr t \<Longrightarrow> ledger_inv db \<Longrightarrow> ledger_inv t"
  by (auto simp: return_allocation_def split: option.splits dest: save_project_credit_inv)

lemma clear_compensations_inv: "clear_compensations customer invoice db = Inr t \<Longrightarrow> ledger_inv db \<Longrightarrow> ledger_inv t"
  by (auto simp: clear_compensations_def Let_def result_simps split: option.splits if_splits
      dest!: save_customer_credit_inv elim!: rfold_inv dest: return_allocation_inv)

lemma apply_compensations_inv:
  "apply_compensations uuid4 customer invoice db = Inr (run, t) \<Longrightarrow> ledger_inv db \<Longrightarrow> ledger_inv t"
  by (auto simp: apply_compensations_def save_compensations_def Let_def result_simps split: option.splits
      dest: clear_compensations_inv save_run_inv)

lemma update_linear_inv: "update_linear_expected_consumption customer run db = Inr t \<Longrightarrow> ledger_inv db \<Longrightarrow> ledger_inv t"
  unfolding update_linear_expected_consumption_def Let_def
  by (erule rfold_inv)
    (auto split: option.splits bool.splits intro: store_customer_credit_inv save_project_credit_inv)

lemma process_invoice_credits_inv: "process_invoice_credits uuid4 iv db = Inr t \<Longrightarrow> ledger_inv db \<Longrightarrow> ledger_inv t"
  by (auto simp: process_invoice_credits_def result_simps dest: apply_compensations_inv update_linear_inv)

lemma adjust_withdrawable_inv: "adjust_withdrawable pk amount db = Inr t \<Longrightarrow> ledger_inv db \<Longrightarrow> ledger_inv t"
  by (auto simp: adjust_withdrawable_def split: option.splits if_splits intro: saves_inv)

lemma expiry_inv: "set_to_zero_overdue_credits effective db = Inr t \<Longrightarrow> ledger_inv db \<Longrightarrow> ledger_inv t"
  by (auto simp: set_to_zero_overdue_credits_def Let_def split: if_splits
      intro!: fold_inv attempt_inv intro: saves_inv)

lemma refund_inv: "refund_project_credit_on_project_removal project db = Inr t \<Longrightarrow> ledger_inv db \<Longrightarrow> ledger_inv t"
  by (auto simp: refund_project_credit_on_project_removal_def Let_def result_simps split: option.splits if_splits
      intro: saves_inv)

subsection \<open>Rows that come and go\<close>

lemma no_rows_of_missing:
  assumes "ledger_owners_exist db"
  shows "k \<notin> set (map cc_pk (customer_credits db)) \<Longrightarrow> ledger_sum db (Organization k) = 0"
    and "k \<notin> set (map pc_pk (project_credits db)) \<Longrightarrow> ledger_sum db (Allocation k) = 0"
proof -
  have none: "ledger_sum db own = 0" if "\<forall>t\<in>set (transactions db). tx_owner t \<noteq> Some own" for own
  proof -
    have "owner_rows db own = []" using that by (simp add: owner_rows_def filter_empty_conv)
    then show ?thesis by (simp add: ledger_sum_def)
  qed
  show "k \<notin> set (map cc_pk (customer_credits db)) \<Longrightarrow> ledger_sum db (Organization k) = 0"
    and "k \<notin> set (map pc_pk (project_credits db)) \<Longrightarrow> ledger_sum db (Allocation k) = 0"
    using assms none unfolding ledger_owners_exist_def by blast+
qed

lemma new_explains:
  assumes "explains key own rows led" and "key c \<notin> set (map key rows)" and "inj own" and "led (own (key c)) = 0"
  shows "explains key own (rows @ [c]) (\<lambda>p. led p + (if p = own (key c) then credit_value c else 0))"
  unfolding explains_def
proof
  fix r
  assume r: "r \<in> set (rows @ [c])"
  show "credit_value r = led (own (key r)) + (if own (key r) = own (key c) then credit_value c else 0)"
  proof (cases "r \<in> set rows")
    case True
    then have "key r \<noteq> key c" using assms(2) by (metis image_eqI list.set_map)
    then show ?thesis using True assms(1,3) by (simp add: explains_def inj_eq)
  next
    case False
    then show ?thesis using r assms(4) by simp
  qed
qed

lemma record_new_sum:
  assumes "transactions db' = transactions db"
  shows "ledger_sum (record_credit_transaction ctx own project delta db') =
     (\<lambda>p. ledger_sum db p + (if p = own then delta else 0))"
  by (rule ext) (simp only: ledger_sum_record ledger_sum_cong [OF assms])

lemma recorded_rows:
  "set (transactions (record_credit_transaction ctx own project delta db)) =
     set (transactions db) \<union> set (transaction_rows ctx own project delta)"
  by (simp add: record_credit_transaction_def)

lemma create_customer_credit_inv:
  assumes "create_customer_credit ctx c db = Inr t" and inv: "ledger_inv db"
    and fresh: "cc_pk c \<notin> set (map cc_pk (customer_credits db))"
  shows "ledger_inv t"
proof -
  let ?db = "db\<lparr>customer_credits := customer_credits db @ [c]\<rparr>"
  have t: "t = record_credit_transaction ctx (Organization (cc_pk c)) None (credit_value c) ?db"
    using assms(1) by (auto simp: create_customer_credit_def result_simps)
  have ok: "ledger_owners_exist db"
    and ex: "explains cc_pk Organization (customer_credits db) (ledger_sum db)"
      "explains pc_pk Allocation (project_credits db) (ledger_sum db)"
    using inv by (simp_all add: ledger_inv_def ledger_explains_def)
  have "ledger_explains t"
    using new_explains [OF ex(1) fresh owners(1) no_rows_of_missing(1) [OF ok fresh]]
      unmoved_explains [OF ex(2), of "Organization (cc_pk c)" "credit_value c"]
    by (simp add: ledger_explains_def t record_new_sum [of ?db db])
  moreover have "ledger_owners_exist t"
  proof (rule recorded_owners)
    show "ledger_owners_exist ?db" using ok unfolding ledger_owners_exist_def by auto
    show "set (transactions t) \<subseteq> set (transactions ?db) \<union>
        set (transaction_rows ctx (Organization (cc_pk c)) None (credit_value c))"
      by (simp add: t recorded_rows)
  qed (auto simp: t)
  ultimately show ?thesis using inv fresh by (simp add: ledger_inv_def credit_keys_def t)
qed

lemma create_project_credit_inv:
  assumes "create_project_credit ctx c db = Inr t" and inv: "ledger_inv db"
    and fresh: "pc_pk c \<notin> set (map pc_pk (project_credits db))"
  shows "ledger_inv t"
proof -
  let ?db = "db\<lparr>project_credits := project_credits db @ [c]\<rparr>"
  have t: "t = record_credit_transaction ctx (Allocation (pc_pk c)) (Some (pc_project c)) (credit_value c) ?db"
    using assms(1) by (auto simp: create_project_credit_def result_simps)
  have ok: "ledger_owners_exist db"
    and ex: "explains cc_pk Organization (customer_credits db) (ledger_sum db)"
      "explains pc_pk Allocation (project_credits db) (ledger_sum db)"
    using inv by (simp_all add: ledger_inv_def ledger_explains_def)
  have "ledger_explains t"
    using new_explains [OF ex(2) fresh owners(2) no_rows_of_missing(2) [OF ok fresh]]
      unmoved_explains [OF ex(1), of "Allocation (pc_pk c)" "credit_value c"]
    by (simp add: ledger_explains_def t record_new_sum [of ?db db])
  moreover have "ledger_owners_exist t"
  proof (rule recorded_owners)
    show "ledger_owners_exist ?db" using ok unfolding ledger_owners_exist_def by auto
    show "set (transactions t) \<subseteq> set (transactions ?db) \<union>
        set (transaction_rows ctx (Allocation (pc_pk c)) (Some (pc_project c)) (credit_value c))"
      by (simp add: t recorded_rows)
  qed (auto simp: t)
  ultimately show ?thesis using inv fresh by (simp add: ledger_inv_def credit_keys_def t)
qed

lemma delete_allocations_sum:
  assumes "own \<notin> Allocation ` set pks"
  shows "ledger_sum (delete_allocations pks db) own = ledger_sum db own"
proof -
  have "sum_list (map tx_amount (filter (\<lambda>t. tx_owner t = Some own)
      (map (\<lambda>t. if tx_owner t \<in> Some ` Allocation ` set pks then t\<lparr>tx_owner := None\<rparr> else t) ts))) =
    sum_list (map tx_amount (filter (\<lambda>t. tx_owner t = Some own) ts))" for ts
    using assms by (induction ts) auto
  then show ?thesis by (simp add: ledger_sum_def owner_rows_def delete_allocations_def)
qed

lemma delete_allocations_inv: "ledger_inv db \<Longrightarrow> ledger_inv (delete_allocations pks db)"
proof -
  assume inv: "ledger_inv db"
  let ?t = "delete_allocations pks db"
  have rows: "customer_credits ?t = customer_credits db"
      "project_credits ?t = filter (\<lambda>p. pc_pk p \<notin> set pks) (project_credits db)"
    by (simp_all add: delete_allocations_def)
  have "ledger_sum ?t (Organization k) = ledger_sum db (Organization k)" for k
    by (rule delete_allocations_sum) auto
  moreover have "k \<notin> set pks \<Longrightarrow> ledger_sum ?t (Allocation k) = ledger_sum db (Allocation k)" for k
    by (rule delete_allocations_sum) auto
  ultimately have "ledger_explains (delete_allocations pks db)"
    using inv by (simp add: ledger_inv_def ledger_explains_def explains_def rows)
  moreover have "ledger_owners_exist (delete_allocations pks db)"
    unfolding ledger_owners_exist_def rows
  proof (intro ballI allI)
    fix t k
    assume "t \<in> set (transactions ?t)"
    then obtain t0 where t0: "t0 \<in> set (transactions db)"
        "t = (if tx_owner t0 \<in> Some ` Allocation ` set pks then t0\<lparr>tx_owner := None\<rparr> else t0)"
      by (auto simp: delete_allocations_def)
    have "(tx_owner t0 = Some (Organization k) \<longrightarrow> k \<in> set (map cc_pk (customer_credits db))) \<and>
        (tx_owner t0 = Some (Allocation k) \<longrightarrow> k \<in> set (map pc_pk (project_credits db)))"
      using inv t0(1) unfolding ledger_inv_def ledger_owners_exist_def by blast
    then show "(tx_owner t = Some (Organization k) \<longrightarrow> k \<in> set (map cc_pk (customer_credits db))) \<and>
        (tx_owner t = Some (Allocation k) \<longrightarrow>
          k \<in> set (map pc_pk (filter (\<lambda>p. pc_pk p \<notin> set pks) (project_credits db))))"
      using t0(2) by (cases "tx_owner t0 \<in> Some ` Allocation ` set pks") auto
  qed
  ultimately show ?thesis
    using inv by (simp add: ledger_inv_def credit_keys_def delete_allocations_def distinct_map_filter)
qed

lemma delete_rows_inv:
  assumes inv: "ledger_inv db"
  shows "ledger_inv (db\<lparr>customer_credits := filter (\<lambda>c. cc_pk c \<noteq> k) (customer_credits db),
             transactions := filter (\<lambda>t. tx_owner t \<noteq> Some (Organization k)) (transactions db)\<rparr>)" (is "ledger_inv ?t")
proof -
  have "filter (\<lambda>t. tx_owner t = Some own) (filter (\<lambda>t. tx_owner t \<noteq> Some (Organization k)) ts) =
      filter (\<lambda>t. tx_owner t = Some own) ts" if "own \<noteq> Organization k" for own and ts :: "credit_transaction list"
    using that by (induction ts) auto
  then have rowsum: "ledger_sum ?t own = ledger_sum db own" if "own \<noteq> Organization k" for own
    using that by (simp add: ledger_sum_def owner_rows_def)
  have "ledger_explains ?t"
    using inv rowsum by (simp add: ledger_inv_def ledger_explains_def explains_def)
  moreover have "ledger_owners_exist ?t"
    unfolding ledger_owners_exist_def
  proof (intro ballI allI)
    fix t j
    assume t: "t \<in> set (transactions ?t)"
    then have "t \<in> set (transactions db)" by simp
    then have "(tx_owner t = Some (Organization j) \<longrightarrow> j \<in> set (map cc_pk (customer_credits db))) \<and>
        (tx_owner t = Some (Allocation j) \<longrightarrow> j \<in> set (map pc_pk (project_credits db)))"
      using inv unfolding ledger_inv_def ledger_owners_exist_def by blast
    then show "(tx_owner t = Some (Organization j) \<longrightarrow> j \<in> set (map cc_pk (customer_credits ?t))) \<and>
        (tx_owner t = Some (Allocation j) \<longrightarrow> j \<in> set (map pc_pk (project_credits ?t)))"
      using t by auto
  qed
  ultimately show ?thesis
    using inv by (simp add: ledger_inv_def credit_keys_def distinct_map_filter)
qed

lemma delete_customer_credit_inv: "ledger_inv db \<Longrightarrow> ledger_inv (delete_customer_credit cc db)"
  unfolding delete_customer_credit_def Let_def by (intro delete_rows_inv delete_allocations_inv)

lemma get_or_create_credit_inv:
  assumes "get_or_create_credit customer db = (cc, t)" and "ledger_inv db"
  shows "ledger_inv t"
proof (cases "find_credit db customer")
  case None
  let ?c = "new_credit db customer"
  have t: "t = db\<lparr>customer_credits := customer_credits db @ [?c]\<rparr>"
    using assms(1) None by (auto simp: get_or_create_credit_def Let_def)
  have fresh: "cc_pk ?c \<notin> set (map cc_pk (customer_credits db))"
  proof
    assume "cc_pk ?c \<in> set (map cc_pk (customer_credits db))"
    then have "cc_pk ?c \<le> Max (insert 0 (set (map cc_pk (customer_credits db))))" by (intro Max_ge) simp_all
    then show False by (simp add: new_credit_def)
  qed
  have "create_customer_credit no_context ?c db = Inr t"
    by (simp add: create_customer_credit_def check_end_date_def guard_result_def new_credit_def t
        record_credit_transaction_def transaction_rows_def)
  then show ?thesis using assms(2) fresh by (rule create_customer_credit_inv)
next
  case (Some c)
  then show ?thesis using assms by (simp add: get_or_create_credit_def)
qed

lemma accrue_inv: "accrue_affiliate_fee l iv db = Inr t \<Longrightarrow> ledger_inv db \<Longrightarrow> ledger_inv t"
  by (auto simp: accrue_affiliate_fee_def Let_def split: if_splits prod.splits
      elim!: save_customer_credit_inv dest: get_or_create_credit_inv)

lemma process_affiliate_fees_inv: "ledger_inv db \<Longrightarrow> ledger_inv (process_affiliate_fees iv db)"
  by (auto simp: process_affiliate_fees_def intro!: fold_inv attempt_inv intro: accrue_inv)

lemma set_created_inv: "set_created iv db = Inr t \<Longrightarrow> ledger_inv db \<Longrightarrow> ledger_inv t"
  by (auto simp: set_created_def emit_invoice_created_def split: if_splits option.splits intro: process_affiliate_fees_inv)

subsection \<open>Steps\<close>

text \<open>
  Everything that happens to credits: staff create, edit and delete them, the withdrawable part is
  adjusted, invoices are compensated, rolled back and finalized, balances expire, projects go and
  affiliates earn.
\<close>

inductive credit_step :: "credit_db \<Rightarrow> credit_db \<Rightarrow> bool" where
  granted: "cc_pk c \<notin> set (map cc_pk (customer_credits db)) \<Longrightarrow> create_customer_credit no_context c db = Inr t \<Longrightarrow>
    credit_step db t"
| allocated: "pc_pk c \<notin> set (map pc_pk (project_credits db)) \<Longrightarrow> create_project_credit no_context c db = Inr t \<Longrightarrow>
    credit_step db t"
| edited: "save_customer_credit ctx upd c db = Inr t \<Longrightarrow> credit_step db t"
| reallocated: "save_project_credit ctx upd p db = Inr t \<Longrightarrow> credit_step db t"
| adjusted: "adjust_withdrawable pk amount db = Inr t \<Longrightarrow> credit_step db t"
| cleared: "clear_compensations customer invoice db = Inr t \<Longrightarrow> credit_step db t"
| compensated: "process_invoice_credits uuid4 iv db = Inr t \<Longrightarrow> credit_step db t"
| created: "set_created iv db = Inr t \<Longrightarrow> credit_step db t"
| expired: "set_to_zero_overdue_credits effective db = Inr t \<Longrightarrow> credit_step db t"
| removed: "refund_project_credit_on_project_removal project db = Inr t \<Longrightarrow> credit_step db t"
| deallocated: "credit_step db (delete_allocations pks db)"
| deleted: "credit_step db (delete_customer_credit cc db)"
| invoiced: "credit_step db (db\<lparr>invoices := ivs\<rparr>)"

lemma credit_step_inv: "ledger_inv db \<Longrightarrow> credit_step db t \<Longrightarrow> ledger_inv t"
  by (erule credit_step.cases)
    (auto intro: create_customer_credit_inv create_project_credit_inv saves_inv adjust_withdrawable_inv
      clear_compensations_inv process_invoice_credits_inv set_created_inv expiry_inv refund_inv
      delete_allocations_inv delete_customer_credit_inv)

interpretation credits: invariant_system credit_step ledger_inv
  by unfold_locales (rule credit_step_inv)

end
