(* ===== verification/Compensation_Facts.thy ===== *)
theory Compensation_Facts
  imports Credit_Ledger
begin

text \<open>
  What a compensation run does to the balances it holds: each balance gives up exactly what the run
  recorded as used and as topped up, no item is compensated beyond its net cost, and saving and
  rolling back move the stored balances by these amounts.
\<close>

subsection \<open>Balances of a run\<close>

definition alloc_balanced :: "project_credit list \<Rightarrow> compensation_run \<Rightarrow> bool" where
  "alloc_balanced pcs m \<longleftrightarrow> map pc_pk (run_allocations m) = map pc_pk pcs \<and>
     (\<forall>p\<in>set pcs. \<forall>q\<in>set (run_allocations m). pc_pk q = pc_pk p \<longrightarrow>
        credit_value q = credit_value p - get_amount (project_usage_draws m) (pc_pk p) - get_amount (project_tails m) (pc_pk p))"

definition run_balanced :: "customer_credit \<Rightarrow> project_credit list \<Rightarrow> compensation_run \<Rightarrow> bool" where
  "run_balanced cc pcs m \<longleftrightarrow>
     credit_value (run_credit m) = credit_value cc - customer_usage_draw m - run_tail m \<and>
     (run_credit m)\<lparr>credit_value := 0\<rparr> = cc\<lparr>credit_value := 0\<rparr> \<and> alloc_balanced pcs m"

lemma get_amount_set: "get_amount (dict_set k v d) j = (if j = k then v else get_amount d j)"
  by (simp add: get_amount_def)

lemma set_credit_sel [simp]:
  "run_credit (set_credit v m) = (run_credit m)\<lparr>credit_value := v\<rparr>" "run_items (set_credit v m) = run_items m"
  "run_allocations (set_credit v m) = run_allocations m" "customer_usage_draw (set_credit v m) = customer_usage_draw m"
  "project_usage_draws (set_credit v m) = project_usage_draws m" "run_tail (set_credit v m) = run_tail m"
  "project_tails (set_credit v m) = project_tails m" "run_total (set_credit v m) = run_total m"
  by (simp_all add: set_credit_def)

lemma record_usage_draw_sel [simp]:
  "run_credit (record_usage_draw pc a m) = run_credit m" "run_items (record_usage_draw pc a m) = run_items m"
  "run_allocations (record_usage_draw pc a m) = run_allocations m"
  "customer_usage_draw (record_usage_draw pc a m) = customer_usage_draw m + a"
  "project_usage_draws (record_usage_draw pc a m) = (case pc of None \<Rightarrow> project_usage_draws m
     | Some c \<Rightarrow> dict_set (pc_pk c) (get_amount (project_usage_draws m) (pc_pk c) + a) (project_usage_draws m))"
  "run_tail (record_usage_draw pc a m) = run_tail m" "project_tails (record_usage_draw pc a m) = project_tails m"
  by (simp_all add: record_usage_draw_def Let_def split: option.split)

lemma set_allocation_keys: "map pc_pk (set_allocation k v pcs) = map pc_pk pcs"
  unfolding set_allocation_def by (rule map_update_rows_same) simp

lemma set_allocation_mem:
  "q \<in> set (set_allocation k v pcs) \<Longrightarrow>
     \<exists>r\<in>set pcs. q = (if pc_pk r = k then r\<lparr>credit_value := v\<rparr> else r)"
  by (auto simp: set_allocation_def set_update_rows)

lemma find_allocation_mem: "find_allocation pcs project = Some pc \<Longrightarrow> pc \<in> set pcs \<and> Some (pc_project pc) = project"
  by (auto simp: find_allocation_def split: option.splits dest: first_row_Some)

lemma set_allocation_balanced:
  assumes bal: "alloc_balanced pcs m" and keys: "distinct (map pc_pk pcs)" and pc: "pc \<in> set (run_allocations m)"
    and m': "run_allocations m' = set_allocation (pc_pk pc) v (run_allocations m)"
    and sum: "\<And>k. get_amount (project_usage_draws m') k + get_amount (project_tails m') k =
        get_amount (project_usage_draws m) k + get_amount (project_tails m) k +
        (if k = pc_pk pc then credit_value pc - v else 0)"
  shows "alloc_balanced pcs m'"
proof -
  have keysm: "map pc_pk (run_allocations m) = map pc_pk pcs" using bal by (simp add: alloc_balanced_def)
  have "credit_value q = credit_value p - get_amount (project_usage_draws m') (pc_pk p) - get_amount (project_tails m') (pc_pk p)"
    if p: "p \<in> set pcs" and q: "q \<in> set (run_allocations m')" and k: "pc_pk q = pc_pk p" for p q
  proof -
    obtain r where r: "r \<in> set (run_allocations m)" "q = (if pc_pk r = pc_pk pc then r\<lparr>credit_value := v\<rparr> else r)"
      using set_allocation_mem q m' by metis
    have rk: "pc_pk r = pc_pk p" using r k by (auto split: if_splits)
    have old: "credit_value r = credit_value p - get_amount (project_usage_draws m) (pc_pk p) - get_amount (project_tails m) (pc_pk p)"
      using bal p r(1) rk by (simp add: alloc_balanced_def)
    have "r = pc" if "pc_pk r = pc_pk pc"
      using distinct_key_eq [of pc_pk "run_allocations m" r pc] keys keysm r(1) pc that by simp
    then show ?thesis using r(2) old sum [of "pc_pk p"] rk by (cases "pc_pk r = pc_pk pc") auto
  qed
  then show ?thesis by (simp add: alloc_balanced_def m' set_allocation_keys keysm)
qed

lemma draw_for_item_balanced:
  assumes bal: "run_balanced cc pcs m" and keys: "distinct (map pc_pk pcs)"
    and draw: "draw_for_item iv discounts i m = (amount, m')"
  shows "run_balanced cc pcs m'"
proof (cases "find_allocation (run_allocations m) (it_project i)")
  case None
  obtain a where "m' = draw_organization a m"
    using draw None by (auto simp: draw_for_item_def Let_def split: if_splits)
  then show ?thesis using bal by (auto simp: run_balanced_def draw_organization_def alloc_balanced_def)
next
  case (Some pc)
  then obtain a where m': "m' = draw_allocation pc a m"
    using draw by (auto simp: draw_for_item_def Let_def split: if_splits)
  have "alloc_balanced pcs m'"
    by (rule set_allocation_balanced [where m = m and pc = pc and v = "credit_value pc - a"])
      (use bal keys find_allocation_mem [OF Some] in \<open>auto simp: m' draw_allocation_def run_balanced_def get_amount_set\<close>)
  then show ?thesis using bal by (simp add: run_balanced_def m' draw_allocation_def)
qed

lemma compensate_item_balanced:
  "run_balanced cc pcs m \<Longrightarrow> distinct (map pc_pk pcs) \<Longrightarrow> run_balanced cc pcs (compensate_item uuid4 iv discounts i m)"
  by (cases "draw_for_item iv discounts i m", drule draw_for_item_balanced, assumption, assumption)
    (auto simp: compensate_item_def run_balanced_def alloc_balanced_def)

lemma compensate_items_balanced:
  "run_balanced cc pcs m \<Longrightarrow> distinct (map pc_pk pcs) \<Longrightarrow> run_balanced cc pcs (compensate_items uuid4 iv discounts items m)"
  by (induction uuid4 iv discounts items m rule: compensate_items.induct)
    (simp_all add: Let_def compensate_item_balanced)

lemma apply_minimal_balanced:
  "run_balanced cc pcs m \<Longrightarrow> run_tail m = 0 \<Longrightarrow> run_balanced cc pcs (apply_minimal_consumption now m)"
  by (simp add: apply_minimal_consumption_def Let_def run_balanced_def alloc_balanced_def)

lemma compensate_item_untailed:
  "run_tail (compensate_item uuid4 iv discounts i m) = run_tail m"
  "project_tails (compensate_item uuid4 iv discounts i m) = project_tails m"
  by (auto simp: compensate_item_def draw_for_item_def Let_def draw_allocation_def draw_organization_def split: option.split)

lemma compensate_items_untailed:
  "run_tail (compensate_items uuid4 iv discounts items m) = run_tail m"
  "project_tails (compensate_items uuid4 iv discounts items m) = project_tails m"
  by (induction uuid4 iv discounts items m rule: compensate_items.induct) (simp_all add: Let_def compensate_item_untailed)

lemma set_allocation_other: "q \<in> set pcs \<Longrightarrow> pc_pk q \<noteq> k \<Longrightarrow> q \<in> set (set_allocation k v pcs)"
  by (force simp: set_allocation_def set_update_rows)

lemma apply_project_minimum_balanced:
  assumes bal: "run_balanced cc pcs m" and keys: "distinct (map pc_pk pcs)" and pc: "pc \<in> set (run_allocations m)"
    and fresh: "get_amount (project_tails m) (pc_pk pc) = 0"
  shows "run_balanced cc pcs (apply_project_minimum now pc m)"
proof (cases "minimal_consumption now pc = 0 \<or> \<not> get_total_project_compensation m (pc_project pc) < minimal_consumption now pc")
  case True
  then show ?thesis using bal by (simp only: apply_project_minimum_def Let_def if_True)
next
  case False
  let ?tail = "floor_draw (minimal_consumption now pc) (get_total_project_compensation m (pc_project pc)) (credit_value pc)"
  let ?m = "m\<lparr>run_allocations := set_allocation (pc_pk pc) (credit_value pc - ?tail) (run_allocations m),
                project_tails := dict_set (pc_pk pc) ?tail (project_tails m)\<rparr>"
  have m': "apply_project_minimum now pc m = ?m" using False by (simp add: apply_project_minimum_def Let_def)
  have "alloc_balanced pcs ?m"
    by (rule set_allocation_balanced [where m = m and pc = pc and v = "credit_value pc - ?tail"])
      (use bal keys pc fresh in \<open>auto simp: run_balanced_def get_amount_set\<close>)
  then show ?thesis using bal by (simp add: m' run_balanced_def)
qed

lemma apply_project_minimum_other:
  "q \<in> set (run_allocations m) \<Longrightarrow> pc_pk q \<noteq> pc_pk pc \<Longrightarrow> q \<in> set (run_allocations (apply_project_minimum now pc m))"
  "pc_pk q \<noteq> pc_pk pc \<Longrightarrow>
     get_amount (project_tails (apply_project_minimum now pc m)) (pc_pk q) = get_amount (project_tails m) (pc_pk q)"
  by (auto simp: apply_project_minimum_def Let_def get_amount_set set_allocation_other)

lemma fold_minimums_balanced:
  "run_balanced cc pcs m \<Longrightarrow> distinct (map pc_pk pcs) \<Longrightarrow> distinct (map pc_pk xs) \<Longrightarrow> set xs \<subseteq> set (run_allocations m) \<Longrightarrow>
     \<forall>x\<in>set xs. get_amount (project_tails m) (pc_pk x) = 0 \<Longrightarrow> run_balanced cc pcs (fold (apply_project_minimum now) xs m)"
proof (induction xs arbitrary: m)
  case (Cons x xs)
  let ?m = "apply_project_minimum now x m"
  have other: "pc_pk y \<noteq> pc_pk x" if "y \<in> set xs" for y
    using Cons.prems(3) that by (auto simp: image_iff)
  have "run_balanced cc pcs ?m"
    using Cons.prems by (intro apply_project_minimum_balanced) auto
  moreover have "y \<in> set (run_allocations ?m)" if "y \<in> set xs" for y
    using that Cons.prems(4) other [OF that] by (intro apply_project_minimum_other(1)) auto
  moreover have "get_amount (project_tails ?m) (pc_pk y) = 0" if "y \<in> set xs" for y
    using that Cons.prems(5) apply_project_minimum_other(2) [OF other [OF that]] by simp
  ultimately have "run_balanced cc pcs (fold (apply_project_minimum now) xs ?m)"
    using Cons.prems by (intro Cons.IH) auto
  then show ?case by simp
qed simp

lemma fresh_run_balanced: "run_balanced cc pcs (fresh_run cc pcs)" if "distinct (map pc_pk pcs)"
  using that distinct_key_eq [of pc_pk pcs] by (auto simp: run_balanced_def alloc_balanced_def fresh_run_def get_amount_def)

text \<open>The run as a composition of its stages.\<close>

definition item_stage ::
    "(string \<Rightarrow> string) \<Rightarrow> credit_db \<Rightarrow> customer_credit \<Rightarrow> invoice \<Rightarrow> compensation_run" where
  "item_stage uuid4 db cc iv = compensate_items uuid4 iv (snd (creditable_items iv cc None))
     (sort_key item_price (fst (creditable_items iv cc None))) (fresh_run cc (invoiced_allocations db iv))"

lemma calculate_stages:
  "credit_value cc \<noteq> 0 \<Longrightarrow> calculate_current_compensations uuid4 db cc (Some iv) =
     apply_project_minimums (today db) (apply_minimal_consumption (today db) (item_stage uuid4 db cc iv))"
  by (simp add: calculate_current_compensations_def item_stage_def Let_def split: prod.split)

lemma calculate_nothing: "credit_value cc = 0 \<Longrightarrow> calculate_current_compensations uuid4 db cc (Some iv) = fresh_run cc []"
  by (simp add: calculate_current_compensations_def)

lemma apply_minimal_sel [simp]:
  "run_allocations (apply_minimal_consumption now m) = run_allocations m"
  "project_tails (apply_minimal_consumption now m) = project_tails m"
  "run_items (apply_minimal_consumption now m) = run_items m"
  by (simp_all add: apply_minimal_consumption_def Let_def)

lemma calculate_balanced:
  assumes keys: "distinct (map pc_pk (project_credits db))" and live: "credit_value cc \<noteq> 0"
  shows "run_balanced cc (invoiced_allocations db iv) (calculate_current_compensations uuid4 db cc (Some iv))"
proof -
  let ?pcs = "invoiced_allocations db iv"
  let ?m = "apply_minimal_consumption (today db) (item_stage uuid4 db cc iv)"
  have dist: "distinct (map pc_pk ?pcs)" using keys by (simp add: invoiced_allocations_def distinct_map_filter)
  have "run_balanced cc ?pcs (item_stage uuid4 db cc iv)"
    unfolding item_stage_def by (rule compensate_items_balanced [OF fresh_run_balanced [OF dist] dist])
  moreover have tails: "run_tail (item_stage uuid4 db cc iv) = 0" "project_tails (item_stage uuid4 db cc iv) = []"
    by (simp_all add: item_stage_def compensate_items_untailed fresh_run_def)
  ultimately have bal: "run_balanced cc ?pcs ?m" by (intro apply_minimal_balanced)
  have "distinct (map pc_pk (run_allocations ?m))" using bal dist by (simp add: run_balanced_def alloc_balanced_def)
  then show ?thesis
    unfolding calculate_stages [OF live] apply_project_minimums_def
    by (intro fold_minimums_balanced bal dist) (simp_all add: tails get_amount_def)
qed

subsection \<open>Items of a run\<close>

lemma apply_project_minimum_sel [simp]:
  "run_items (apply_project_minimum now pc m) = run_items m"
  "run_credit (apply_project_minimum now pc m) = run_credit m"
  "run_tail (apply_project_minimum now pc m) = run_tail m"
  "customer_usage_draw (apply_project_minimum now pc m) = customer_usage_draw m"
  by (simp_all add: apply_project_minimum_def Let_def)

lemma apply_project_minimums_sel [simp]:
  "run_items (apply_project_minimums now m) = run_items m"
  "run_credit (apply_project_minimums now m) = run_credit m"
  "run_tail (apply_project_minimums now m) = run_tail m"
  "customer_usage_draw (apply_project_minimums now m) = customer_usage_draw m"
proof -
  have "run_items (fold (apply_project_minimum now) xs m) = run_items m \<and>
      run_credit (fold (apply_project_minimum now) xs m) = run_credit m \<and>
      run_tail (fold (apply_project_minimum now) xs m) = run_tail m \<and>
      customer_usage_draw (fold (apply_project_minimum now) xs m) = customer_usage_draw m" for xs
    by (induction xs arbitrary: m) simp_all
  then show "run_items (apply_project_minimums now m) = run_items m"
    "run_credit (apply_project_minimums now m) = run_credit m"
    "run_tail (apply_project_minimums now m) = run_tail m"
    "customer_usage_draw (apply_project_minimums now m) = customer_usage_draw m"
    by (simp_all add: apply_project_minimums_def)
qed

lemma drawn_within_cost:
  assumes "draw_for_item iv discounts i m = (amount, m')" and "0 \<le> tax_percent iv"
  shows "amount \<le> net_cost discounts i" "run_items m' = run_items m"
proof -
  have cost: "0 \<le> net_cost discounts i" by (simp add: net_cost_def)
  have quot: "v / (1 + tax_percent iv / 100) \<le> net_cost discounts i" if "v \<le> net_cost discounts i" for v
  proof (cases "0 \<le> v")
    case True
    then have "v / (1 + tax_percent iv / 100) \<le> v" using assms(2) by (simp add: divide_le_eq algebra_simps)
    then show ?thesis using that by simp
  next
    case False
    then have "v / (1 + tax_percent iv / 100) \<le> 0" using assms(2) by (simp add: divide_nonpos_pos)
    then show ?thesis using cost by simp
  qed
  show "amount \<le> net_cost discounts i" "run_items m' = run_items m"
    using assms(1) by (auto simp: draw_for_item_def Let_def draw_allocation_def draw_organization_def
        split: option.splits if_splits intro: quot)
qed

definition items_within_cost :: "(string, rat) dict \<Rightarrow> invoice_item list \<Rightarrow> invoice_item list \<Rightarrow> bool" where
  "items_within_cost discounts sources comps \<longleftrightarrow> (\<forall>c\<in>set comps. is_compensation c \<and> quantity c = 1 \<and>
     (\<exists>i\<in>set sources. compensation_of_item c = Some (it_uuid i) \<and> - unit_price c \<le> net_cost discounts i))"

lemma compensate_item_within:
  assumes "items_within_cost discounts sources (run_items m)" and "i \<in> set sources" and "0 \<le> tax_percent iv"
  shows "items_within_cost discounts sources (run_items (compensate_item uuid4 iv discounts i m))"
proof (cases "draw_for_item iv discounts i m")
  case (Pair amount m')
  then show ?thesis
    using assms drawn_within_cost [OF Pair assms(3)]
    by (auto simp: compensate_item_def items_within_cost_def compensation_item_def)
qed

lemma compensate_items_within:
  "items_within_cost discounts sources (run_items m) \<Longrightarrow> set items \<subseteq> set sources \<Longrightarrow> 0 \<le> tax_percent iv \<Longrightarrow>
     items_within_cost discounts sources (run_items (compensate_items uuid4 iv discounts items m))"
  by (induction uuid4 iv discounts items m rule: compensate_items.induct)
    (simp_all add: Let_def compensate_item_within)

lemma calculate_within:
  assumes "0 \<le> tax_percent iv"
  shows "items_within_cost (snd (creditable_items iv cc None)) (fst (creditable_items iv cc None))
    (run_items (calculate_current_compensations uuid4 db cc (Some iv)))"
proof (cases "credit_value cc = 0")
  case True
  then show ?thesis by (simp add: calculate_nothing fresh_run_def items_within_cost_def)
next
  case False
  then show ?thesis
    unfolding calculate_stages [OF False] item_stage_def apply_project_minimums_sel apply_minimal_sel
    by (intro compensate_items_within assms) (simp_all add: fresh_run_def items_within_cost_def)
qed

lemma run_items_credit:
  assumes "\<forall>c\<in>set (run_items m). it_credit c = Some (cc_pk cc)" and "(run_credit m)\<lparr>credit_value := 0\<rparr> = cc\<lparr>credit_value := 0\<rparr>"
  shows "(\<forall>c\<in>set (run_items (compensate_items uuid4 iv discounts items m)). it_credit c = Some (cc_pk cc)) \<and>
    (run_credit (compensate_items uuid4 iv discounts items m))\<lparr>credit_value := 0\<rparr> = cc\<lparr>credit_value := 0\<rparr>"
  using assms
proof (induction uuid4 iv discounts items m rule: compensate_items.induct)
  case (2 uuid4 iv discounts i items m)
  let ?m = "compensate_item uuid4 iv discounts i m"
  obtain amount m' where draw: "draw_for_item iv discounts i m = (amount, m')" by (cases "draw_for_item iv discounts i m")
  then have m': "run_items m' = run_items m" "(run_credit m')\<lparr>credit_value := 0\<rparr> = cc\<lparr>credit_value := 0\<rparr>"
    using 2(3) by (auto simp: draw_for_item_def Let_def draw_allocation_def draw_organization_def split: option.splits if_splits)
  have "cc_pk (run_credit m') = cc_pk ((run_credit m')\<lparr>credit_value := 0\<rparr>)" by simp
  also have "\<dots> = cc_pk cc" unfolding m'(2) by simp
  finally have "cc_pk (run_credit m') = cc_pk cc" .
  then have "(\<forall>c\<in>set (run_items ?m). it_credit c = Some (cc_pk cc)) \<and> (run_credit ?m)\<lparr>credit_value := 0\<rparr> = cc\<lparr>credit_value := 0\<rparr>"
    using 2(2) m' by (auto simp: compensate_item_def draw compensation_item_def)
  then show ?case using 2(1) by (simp add: Let_def)
qed simp

lemma calculate_credit_items:
  "\<forall>c\<in>set (run_items (calculate_current_compensations uuid4 db cc (Some iv))). it_credit c = Some (cc_pk cc)"
proof (cases "credit_value cc = 0")
  case True
  then show ?thesis by (simp add: calculate_nothing fresh_run_def)
next
  case False
  then show ?thesis
    unfolding calculate_stages [OF False] item_stage_def apply_project_minimums_sel apply_minimal_sel
    using run_items_credit [of "fresh_run cc (invoiced_allocations db iv)" cc uuid4 iv "snd (creditable_items iv cc None)"
        "sort_key item_price (fst (creditable_items iv cc None))"]
    by (simp add: fresh_run_def)
qed

subsection \<open>Saving and rolling back\<close>

lemma first_row_update:
  assumes "\<And>r. q r \<Longrightarrow> p (f r) = p r"
  shows "first_row p (update_rows q f rows) = map_option (\<lambda>r. if q r then f r else r) (first_row p rows)"
  using assms by (induction rows) auto

lemma store_project_sel [simp]:
  "customer_credits (store_project_credit ctx upd p db) = customer_credits db"
  "invoices (store_project_credit ctx upd p db) = invoices db"
  "today (store_project_credit ctx upd p db) = today db"
  by (simp_all add: store_project_credit_def Let_def split: option.split)

lemma save_project_sel:
  "save_project_credit ctx upd p db = Inr t \<Longrightarrow>
     customer_credits t = customer_credits db \<and> invoices t = invoices db \<and> today t = today db"
  by (auto simp: save_project_credit_def result_simps)

lemma rfold_project_sel:
  assumes "rfold f db xs = Inr t"
    and "\<And>db x u. f db x = Inr u \<Longrightarrow> customer_credits u = customer_credits db \<and> invoices u = invoices db \<and> today u = today db"
  shows "customer_credits t = customer_credits db \<and> invoices t = invoices db \<and> today t = today db"
proof (rule rfold_invariant [where P = "\<lambda>u. customer_credits u = customer_credits db \<and>
    invoices u = invoices db \<and> today u = today db", OF assms(1)])
  fix u x w
  assume "customer_credits u = customer_credits db \<and> invoices u = invoices db \<and> today u = today db" "f u x = Inr w"
  then show "customer_credits w = customer_credits db \<and> invoices w = invoices db \<and> today w = today db"
    using assms(2) [of u x w] by simp
qed simp

lemma stored_credit_found:
  assumes found: "find_credit db customer = Some cc" and keys: "distinct (map cc_pk (customer_credits db))"
    and db': "customer_credits db' = customer_credits db"
  shows "find_credit (store_customer_credit ctx (Some [VALUE]) (cc\<lparr>credit_value := v\<rparr>) db') customer = Some (cc\<lparr>credit_value := v\<rparr>)"
proof -
  have cc: "cc \<in> set (customer_credits db)" using first_row_Some [OF found [unfolded find_credit_def]] by simp
  have row: "first_row (\<lambda>r. cc_pk r = cc_pk cc) (customer_credits db) = Some cc" by (rule first_row_key [OF keys cc])
  have w: "written (Some [VALUE]) cc (cc\<lparr>credit_value := v\<rparr>) = cc\<lparr>credit_value := v\<rparr>"
    by (simp add: written_def writes_def)
  have "first_row (\<lambda>c. cc_customer c = customer)
      (update_rows (\<lambda>r. cc_pk r = cc_pk cc) (\<lambda>r. written (Some [VALUE]) r (cc\<lparr>credit_value := v\<rparr>)) (customer_credits db)) =
    Some (cc\<lparr>credit_value := v\<rparr>)"
    using found w by (subst first_row_update) (auto simp: find_credit_def written_def)
  then show ?thesis
    using row by (simp add: find_credit_def store_customer_credit_def db' Let_def writes_def)
qed

lemma store_customer_sel [simp]:
  "invoices (store_customer_credit ctx upd c db) = invoices db"
  "today (store_customer_credit ctx upd c db) = today db"
  by (simp_all add: store_customer_credit_def Let_def split: option.split)

lemma run_saved:
  assumes found: "find_credit db customer = Some cc" and keys: "distinct (map cc_pk (customer_credits db))"
    and iv: "find_invoice db pk = Some iv"
    and m: "run_credit m = cc\<lparr>credit_value := v\<rparr>" and saved: "save_run (Some iv) m db = Inr t"
  shows "find_credit t customer = Some (cc\<lparr>credit_value := v\<rparr>) \<and>
    find_invoice t pk = Some (iv\<lparr>inv_items := inv_items iv @ run_items m\<rparr>) \<and> today t = today db \<and>
    map cc_pk (customer_credits t) = map cc_pk (customer_credits db)"
proof -
  let ?ctx = "\<lparr>ctx_parts = ledger_parts (Some iv) m, ctx_type = Some (COMPENSATION, map_option billing_period (Some iv))\<rparr>"
  let ?db1 = "add_items (inv_pk iv) (run_items m) db"
  obtain db2 where db2: "rfold (\<lambda>db pc. save_project_credit ?ctx (Some [VALUE]) pc db) ?db1 (run_allocations m) = Inr db2"
    and t: "save_customer_credit ?ctx (Some [VALUE]) (run_credit m) db2 = Inr t"
    using saved by (auto simp: save_run_def Let_def result_simps)
  have sel: "customer_credits db2 = customer_credits ?db1 \<and> invoices db2 = invoices ?db1 \<and> today db2 = today ?db1"
    by (rule rfold_project_sel [OF db2]) (rule save_project_sel)
  then have same: "customer_credits db2 = customer_credits db" "today db2 = today db" by (simp_all add: add_items_def)
  have t': "t = store_customer_credit ?ctx (Some [VALUE]) (cc\<lparr>credit_value := v\<rparr>) db2"
    using t m by (simp add: save_customer_credit_def check_end_date_def guard_result_def)
  have pk: "inv_pk iv = pk" using first_row_Some [OF iv [unfolded find_invoice_def]] by simp
  have "find_invoice t pk = find_invoice ?db1 pk" using sel by (simp add: t' find_invoice_def)
  also have "\<dots> = Some (iv\<lparr>inv_items := inv_items iv @ run_items m\<rparr>)"
    using iv by (simp add: find_invoice_def add_items_def first_row_update pk)
  finally have items: "find_invoice t pk = Some (iv\<lparr>inv_items := inv_items iv @ run_items m\<rparr>)" .
  have "map cc_pk (customer_credits t) = map cc_pk (customer_credits db)"
    by (auto simp: t' store_customer_credit_def Let_def same split: option.split intro: update_keeps_keys)
  then show ?thesis
    using stored_credit_found [OF found keys same(1)] items same(2) by (simp add: t')
qed

lemma run_cleared:
  assumes found: "find_credit db customer = Some cc" and keys: "distinct (map cc_pk (customer_credits db))"
    and iv: "find_invoice db pk = Some iv" and items: "filter (\<lambda>i. it_credit i = Some (cc_pk cc)) (inv_items iv) \<noteq> []"
    and cleared: "clear_compensations customer (Some pk) db = Inr t"
  shows "find_credit t customer = Some (cc\<lparr>credit_value := credit_value cc +
      max (- sum_list (map unit_price (filter (\<lambda>i. it_credit i = Some (cc_pk cc)) (inv_items iv))))
        (minimal_consumption (today db) cc)\<rparr>) \<and>
    find_invoice t pk = Some (iv\<lparr>inv_items := filter (\<lambda>i. it_credit i \<noteq> Some (cc_pk cc)) (inv_items iv)\<rparr>)"
proof -
  let ?items = "filter (\<lambda>i. it_credit i = Some (cc_pk cc)) (inv_items iv)"
  let ?v = "credit_value cc + max (- sum_list (map unit_price ?items)) (minimal_consumption (today db) cc)"
  let ?ctx = "typed ROLLBACK (Some (billing_period iv))"
  let ?db1 = "store_customer_credit ?ctx (Some [VALUE]) (cc\<lparr>credit_value := ?v\<rparr>) db"
  obtain db2 where db2: "rfold (return_allocation ?ctx ?items) ?db1 (allocations ?db1 customer) = Inr db2"
    and t: "t = drop_items (inv_pk iv) (cc_pk cc) db2"
    using cleared found iv items
    by (auto simp: clear_compensations_def Let_def result_simps save_customer_credit_def check_end_date_def)
  have sel: "customer_credits db2 = customer_credits ?db1 \<and> invoices db2 = invoices ?db1 \<and> today db2 = today ?db1"
    by (rule rfold_project_sel [OF db2]) (auto simp: return_allocation_def split: option.splits dest: save_project_sel)
  have pk: "inv_pk iv = pk" using first_row_Some [OF iv [unfolded find_invoice_def]] by simp
  have "find_credit t customer = find_credit ?db1 customer"
    using sel by (simp add: t find_credit_def drop_items_def)
  moreover have "find_invoice t pk = Some (iv\<lparr>inv_items := filter (\<lambda>i. it_credit i \<noteq> Some (cc_pk cc)) (inv_items iv)\<rparr>)"
    using iv sel by (simp add: t find_invoice_def drop_items_def first_row_update pk)
  ultimately show ?thesis using stored_credit_found [OF found keys refl] by simp
qed

end
