(* ===== verification/Credit_Properties.thy ===== *)
theory Credit_Properties
  imports Compensation_Facts
begin

text \<open>
  Properties of credits: the ledger explains every balance, a compensation run accounts for what it
  takes and never exceeds an item's cost, when an organisation is overdrawn, what rolling back
  returns, what the check of allocations accepts, and the idempotence of affiliate fees.
\<close>

lemma credit_of_project_value [simp]:
  "credit_of_project db (pc\<lparr>credit_value := v\<rparr>) = credit_of_project db pc"
  by (simp add: credit_of_project_def customer_of_def)

lemma minimal_consumption_value [simp]: "minimal_consumption now (cc\<lparr>credit_value := v\<rparr>) = minimal_consumption now cc"
  by (simp add: minimal_consumption_def)

subsection \<open>Fees accrued once\<close>

definition fee_settled :: "customer_affiliate \<Rightarrow> invoice \<Rightarrow> credit_db \<Rightarrow> bool" where
  "fee_settled l iv db \<longleftrightarrow> invoice_price iv \<le> 0 \<or> calculate_fee l (invoice_price iv) \<le> 0 \<or>
     list_ex (\<lambda>(lk, v, _). lk = al_pk l \<and> v = inv_pk iv) (accruals db)"

lemma accrue_settled: "fee_settled l iv db \<Longrightarrow> accrue_affiliate_fee l iv db = Inr db"
  by (auto simp: fee_settled_def accrue_affiliate_fee_def Let_def)

lemma store_customer_fees [simp]:
  "accruals (store_customer_credit ctx upd c db) = accruals db"
  "affiliate_links (store_customer_credit ctx upd c db) = affiliate_links db"
  "affiliates_enabled (store_customer_credit ctx upd c db) = affiliates_enabled db"
  by (simp_all add: store_customer_credit_def record_credit_transaction_def Let_def split: option.split)

lemma get_or_create_fees:
  "get_or_create_credit customer db = (cc, t) \<Longrightarrow>
     accruals t = accruals db \<and> affiliate_links t = affiliate_links db \<and> affiliates_enabled t = affiliates_enabled db"
  by (auto simp: get_or_create_credit_def Let_def split: option.splits)

text \<open>Accruing settles the fee, keeps earlier accruals and touches no link.\<close>

lemma accrue_fees:
  fixes db :: credit_db and l iv
  defines "t \<equiv> attempt (accrue_affiliate_fee l iv db) db"
  shows "fee_settled l iv t" and "set (accruals db) \<subseteq> set (accruals t)"
    and "affiliate_links t = affiliate_links db" and "affiliates_enabled t = affiliates_enabled db"
proof -
  have "fee_settled l iv t \<and> set (accruals db) \<subseteq> set (accruals t) \<and>
      affiliate_links t = affiliate_links db \<and> affiliates_enabled t = affiliates_enabled db"
  proof (cases "fee_settled l iv db")
    case True
    then show ?thesis by (simp add: t_def accrue_settled attempt_def)
  next
    case False
    obtain cc db1 where db1: "get_or_create_credit (al_affiliate l) db = (cc, db1)"
      by (cases "get_or_create_credit (al_affiliate l) db")
    have "t = store_customer_credit (typed AFFILIATE_FEE None) (Some [VALUE])
        (cc\<lparr>credit_value := credit_value cc + calculate_fee l (invoice_price iv)\<rparr>)
        (db1\<lparr>accruals := accruals db1 @ [(al_pk l, inv_pk iv, calculate_fee l (invoice_price iv))]\<rparr>)"
      using False db1
      by (simp add: t_def fee_settled_def accrue_affiliate_fee_def Let_def attempt_def save_customer_credit_def
          check_end_date_def guard_result_def)
    then show ?thesis using get_or_create_fees [OF db1] by (auto simp: fee_settled_def)
  qed
  then show "fee_settled l iv t" "set (accruals db) \<subseteq> set (accruals t)"
    "affiliate_links t = affiliate_links db" "affiliates_enabled t = affiliates_enabled db" by simp_all
qed

lemma fee_settled_mono: "fee_settled l iv db \<Longrightarrow> set (accruals db) \<subseteq> set (accruals t) \<Longrightarrow> fee_settled l iv t"
  by (auto simp: fee_settled_def list_ex_iff)

definition accrue_all :: "invoice \<Rightarrow> customer_affiliate list \<Rightarrow> credit_db \<Rightarrow> credit_db" where
  "accrue_all iv ls db = fold (\<lambda>l db. attempt (accrue_affiliate_fee l iv db) db) ls db"

lemma accrue_all_fees:
  "set (accruals db) \<subseteq> set (accruals (accrue_all iv ls db)) \<and> (\<forall>l\<in>set ls. fee_settled l iv (accrue_all iv ls db)) \<and>
    affiliate_links (accrue_all iv ls db) = affiliate_links db \<and>
    affiliates_enabled (accrue_all iv ls db) = affiliates_enabled db"
proof (induction ls arbitrary: db)
  case (Cons l ls)
  let ?db = "attempt (accrue_affiliate_fee l iv db) db"
  have run: "accrue_all iv (l # ls) db = accrue_all iv ls ?db" by (simp add: accrue_all_def)
  note IH = Cons.IH [of ?db] and one = accrue_fees [where l = l and iv = iv and db = db]
  have "fee_settled l iv (accrue_all iv ls ?db)" using fee_settled_mono [OF one(1)] IH by blast
  then show ?case using IH one(2-4) unfolding run by auto
qed (simp add: accrue_all_def)

lemma fold_settled:
  "\<forall>l\<in>set ls. fee_settled l iv db \<Longrightarrow> accrue_all iv ls db = db"
  unfolding accrue_all_def by (induction ls) (simp_all add: accrue_settled attempt_def)

subsection \<open>Claims\<close>

text \<open>C15. The ledger explains every balance: whatever sequence of operations runs, the value of each
  organisation's credit and of each project's allocation is the sum of its ledger rows: a run's
  compensations and floor draws, roll-backs, grants, expiry, adjustments and fees leave nothing out.\<close>

theorem ledger_explains_balances:
  assumes "ledger_inv db" and "credit_step\<^sup>*\<^sup>* db t"
  shows "(\<forall>c\<in>set (customer_credits t).
       credit_value c = sum_list (map tx_amount (owner_rows t (Organization (cc_pk c))))) \<and>
    (\<forall>p\<in>set (project_credits t).
       credit_value p = sum_list (map tx_amount (owner_rows t (Allocation (pc_pk p)))))"
  using credits.inv_run [OF assms(2,1)]
  by (simp add: ledger_inv_def ledger_explains_def explains_def ledger_sum_def)

text \<open>C4. A compensation run accounts for what it takes: the organisation gives up exactly the
  recorded usage and the floor draw, each allocation its own usage and floor draw, and every
  compensation item points at a chargeable item and is worth at most that item's cost net of its
  discounts.\<close>

theorem compensation_run_accounts:
  assumes "credit_keys db" and "credit_value cc \<noteq> 0" and "0 \<le> tax_percent iv"
  shows "let m = calculate_current_compensations uuid4 db cc (Some iv)
    in credit_value (run_credit m) = credit_value cc - customer_usage_draw m - run_tail m \<and>
       (\<forall>p\<in>set (invoiced_allocations db iv). \<forall>q\<in>set (run_allocations m). pc_pk q = pc_pk p \<longrightarrow>
         credit_value q = credit_value p - get_amount (project_usage_draws m) (pc_pk p) - get_amount (project_tails m) (pc_pk p)) \<and>
       (\<forall>c\<in>set (run_items m). \<exists>i\<in>set (fst (creditable_items iv cc None)).
         compensation_of_item c = Some (it_uuid i) \<and> - unit_price c \<le> net_cost (snd (creditable_items iv cc None)) i)"
proof -
  let ?m = "calculate_current_compensations uuid4 db cc (Some iv)"
  have "run_balanced cc (invoiced_allocations db iv) ?m"
    by (rule calculate_balanced [OF _ assms(2)]) (use assms(1) in \<open>simp add: credit_keys_def\<close>)
  moreover have "items_within_cost (snd (creditable_items iv cc None)) (fst (creditable_items iv cc None)) (run_items ?m)"
    by (rule calculate_within [OF assms(3)])
  ultimately show ?thesis
    by (simp only: Let_def run_balanced_def alloc_balanced_def items_within_cost_def) blast
qed

text \<open>When an organisation is overdrawn: the draw for an item takes a balance that was not
  negative below zero exactly when the item's project has an allocation from which more is drawn
  than the organisation still has; draws without an allocation stop at zero.\<close>

theorem overdrawn_by_allocation:
  assumes "0 \<le> credit_value (run_credit m)"
  shows "credit_value (run_credit (compensate_item uuid4 iv discounts i m)) < 0 \<longleftrightarrow>
    (\<exists>pc. find_allocation (run_allocations m) (it_project i) = Some pc \<and>
       credit_value (run_credit m) < min (net_cost discounts i) (credit_value pc))"
proof (cases "draw_for_item iv discounts i m")
  case (Pair amount m')
  have "run_credit (compensate_item uuid4 iv discounts i m) = run_credit m'"
    by (simp add: compensate_item_def Pair)
  then show ?thesis
    using Pair assms
    by (auto simp: draw_for_item_def Let_def draw_allocation_def draw_organization_def min_def split: option.splits if_splits)
qed

text \<open>Clearing the compensations a run wrote removes its items and gives the organisation back
  the larger of what the items compensated and the minimal consumption: the balance is restored
  exactly when that equals what the run drew.\<close>

theorem clearing_returns:
  assumes keys: "credit_keys db" and found: "find_credit db customer = Some cc" and iv: "find_invoice db pk = Some iv"
    and clean: "\<forall>i\<in>set (inv_items iv). it_credit i \<noteq> Some (cc_pk cc)"
    and saved: "save_compensations uuid4 customer (Some iv) db = Inr (Some m, db1)" and items: "run_items m \<noteq> []"
    and cleared: "clear_compensations customer (Some pk) db1 = Inr db2"
  shows "find_invoice db2 pk = Some iv \<and> find_credit db2 customer = Some (cc\<lparr>credit_value :=
    credit_value cc - (customer_usage_draw m + run_tail m) +
      max (- sum_list (map unit_price (run_items m))) (minimal_consumption (today db) cc)\<rparr>)"
proof -
  have m: "m = calculate_current_compensations uuid4 db cc (Some iv)" and run: "save_run (Some iv) m db = Inr db1"
    using saved found by (auto simp: save_compensations_def Let_def result_simps)
  have live: "credit_value cc \<noteq> 0" using items by (auto simp: m calculate_nothing fresh_run_def)
  define v where "v = credit_value (run_credit m)"
  have bal: "run_balanced cc (invoiced_allocations db iv) m"
    unfolding m by (rule calculate_balanced [OF _ live]) (use keys in \<open>simp add: credit_keys_def\<close>)
  then have v: "v = credit_value cc - (customer_usage_draw m + run_tail m)"
    by (simp add: run_balanced_def v_def)
  have "run_credit m = ((run_credit m)\<lparr>credit_value := 0\<rparr>)\<lparr>credit_value := v\<rparr>" by (simp add: v_def)
  also have "(run_credit m)\<lparr>credit_value := 0\<rparr> = cc\<lparr>credit_value := 0\<rparr>" using bal by (simp add: run_balanced_def)
  finally have credit: "run_credit m = cc\<lparr>credit_value := v\<rparr>" by simp
  have dist: "distinct (map cc_pk (customer_credits db))" using keys by (simp add: credit_keys_def)
  note stored = run_saved [OF found dist iv credit run]
  have own: "\<forall>i\<in>set (run_items m). it_credit i = Some (cc_pk cc)"
    unfolding m by (rule calculate_credit_items)
  let ?iv = "iv\<lparr>inv_items := inv_items iv @ run_items m\<rparr>" and ?cc = "cc\<lparr>credit_value := v\<rparr>"
  have mine: "filter (\<lambda>i. it_credit i = Some (cc_pk ?cc)) (inv_items ?iv) = run_items m"
    and others: "filter (\<lambda>i. it_credit i \<noteq> Some (cc_pk ?cc)) (inv_items ?iv) = inv_items iv"
    using clean own by (simp_all add: filter_empty_conv filter_id_conv)
  have "find_credit db2 customer = Some (?cc\<lparr>credit_value := credit_value ?cc +
      max (- sum_list (map unit_price (run_items m))) (minimal_consumption (today db1) ?cc)\<rparr>) \<and>
    find_invoice db2 pk = Some (?iv\<lparr>inv_items := inv_items iv\<rparr>)"
  proof -
    have found1: "find_credit db1 customer = Some ?cc" and iv1: "find_invoice db1 pk = Some ?iv"
      and dist1: "distinct (map cc_pk (customer_credits db1))"
      using stored dist by simp_all
    have items1: "filter (\<lambda>i. it_credit i = Some (cc_pk ?cc)) (inv_items ?iv) \<noteq> []" unfolding mine by (rule items)
    show ?thesis using run_cleared [OF found1 dist1 iv1 items1 cleared] unfolding mine others .
  qed
  then show ?thesis using stored by (simp add: v)
qed

text \<open>What the check of an allocation accepts: as soon as the other allocations of the
  organisation sum to something, the value being saved plays no role; any value is accepted while
  the others fit, and none, not even zero, once they do not.\<close>

theorem allocation_check_ignores_value:
  assumes "credit_of_project db pc = Some cc"
    and "others = sum_value (filter (\<lambda>p. pc_pk p \<noteq> pc_pk pc) (allocations db (cc_customer cc)))" and "others \<noteq> 0"
  shows "save_project_credit ctx (Some [VALUE]) (pc\<lparr>credit_value := v\<rparr>) db =
    (if others \<le> credit_value cc then Inr (store_project_credit ctx (Some [VALUE]) (pc\<lparr>credit_value := v\<rparr>) db)
     else Inl AllocationsExceedCredit)"
  using assms
  by (simp add: save_project_credit_def check_allocation_def validated_total_def check_end_date_def guard_result_def)

text \<open>Affiliate fees of an invoice are accrued once: processing it again changes nothing.\<close>

theorem fees_accrued_once:
  "process_affiliate_fees iv (process_affiliate_fees iv db) = process_affiliate_fees iv db"
proof (cases "affiliates_enabled db")
  case True
  let ?ls = "filter (is_active_on \<lparr>cd_year = inv_year iv, cd_month = inv_month iv, cd_day = 1\<rparr>)
    (filter (\<lambda>l. al_customer l = inv_customer iv \<and> al_is_active l) (affiliate_links db))"
  have t: "process_affiliate_fees iv db = accrue_all iv ?ls db"
    using True by (simp add: process_affiliate_fees_def accrue_all_def)
  note run = accrue_all_fees [of db iv ?ls, folded t]
  have "process_affiliate_fees iv (process_affiliate_fees iv db) = accrue_all iv ?ls (process_affiliate_fees iv db)"
    unfolding process_affiliate_fees_def [of iv "process_affiliate_fees iv db"] accrue_all_def using run True by simp
  moreover have "\<forall>l\<in>set ?ls. fee_settled l iv (process_affiliate_fees iv db)" using run by blast
  ultimately show ?thesis using fold_settled by simp
qed (simp add: process_affiliate_fees_def)

end
