(* ===== verification/Credit_Examples.thy ===== *)
theory Credit_Examples
  imports Credit_Properties
begin

text \<open>
  A concrete organisation with a credit and two projects, one of them with an allocation, at which
  the properties of credits are evaluated.
\<close>

definition demo_bill_item :: "string \<Rightarrow> nat \<Rightarrow> rat \<Rightarrow> invoice_item" where
  "demo_bill_item u project price = \<lparr>it_uuid = u, unit_price = price / 2, quantity = 2,
     it_resource = Some \<lparr>br_id = 61, br_offering = 71, br_project = project\<rparr>, it_project = Some project,
     it_credit = None, is_compensation = False, is_discount = False, discount_of_item = None,
     compensation_of_item = None\<rparr>"

definition demo_invoice :: "rat \<Rightarrow> invoice_item list \<Rightarrow> invoice" where
  "demo_invoice tax items = \<lparr>inv_pk = 41, inv_customer = 5, inv_year = 2, inv_month = 3,
     inv_state = PENDING_INVOICE, tax_percent = tax, inv_items = items\<rparr>"

definition demo_credit :: "rat \<Rightarrow> rat \<Rightarrow> customer_credit" where
  "demo_credit v minimum = \<lparr>credit_value = v, expected_consumption = minimum, linear_logic = False,
     grace_coefficient = 0, apply_as_minimal_consumption = True,
     credit_end_date = Some \<lparr>cd_year = 2, cd_month = 3, cd_day = 1\<rparr>, cc_pk = 7, cc_customer = 5, cc_offerings = []\<rparr>"

definition demo_allocation :: "nat \<Rightarrow> nat \<Rightarrow> rat \<Rightarrow> project_credit" where
  "demo_allocation pk project v = \<lparr>credit_value = v, expected_consumption = 0, linear_logic = False,
     grace_coefficient = 0, apply_as_minimal_consumption = True,
     credit_end_date = Some \<lparr>cd_year = 2, cd_month = 3, cd_day = 1\<rparr>, pc_pk = pk, pc_project = project,
     mark_unused_credit_as_spent = False\<rparr>"

definition demo_grant :: "owner \<Rightarrow> rat \<Rightarrow> credit_transaction" where
  "demo_grant own v = \<lparr>tx_owner = Some own, tx_project = None, tx_amount = v, tx_type = STAFF_GRANT, tx_period = None\<rparr>"

definition demo_books :: "customer_credit \<Rightarrow> project_credit list \<Rightarrow> invoice list \<Rightarrow> credit_db" where
  "demo_books cc pcs ivs = \<lparr>customer_credits = [cc], project_credits = pcs,
     project_customer = [(21, 5), (22, 5), (23, 5)], invoices = ivs,
     transactions = demo_grant (Organization (cc_pk cc)) (credit_value cc) #
       map (\<lambda>p. demo_grant (Allocation (pc_pk p)) (credit_value p)) pcs,
     affiliate_links = [], accruals = [], today = \<lparr>cd_year = 2, cd_month = 3, cd_day = 20\<rparr>,
     fixed_price_customers = [], affiliates_enabled = False\<rparr>"

lemmas demo_credit_defs = demo_books_def demo_grant_def demo_allocation_def demo_credit_def demo_invoice_def
  demo_bill_item_def

text \<open>
  100 in the organisation's credit, 80 of it allocated to project 21.  The invoice has 90 for project
  22, without an allocation, and 95 for project 21.
\<close>

definition demo_month :: credit_db where
  "demo_month = demo_books (demo_credit 100 0) [demo_allocation 31 21 80]
     [demo_invoice 20 [demo_bill_item ''b'' 21 95, demo_bill_item ''a'' 22 90]]"

definition demo_bill :: invoice where
  "demo_bill = demo_invoice 20 [demo_bill_item ''b'' 21 95, demo_bill_item ''a'' 22 90]"

lemma demo_month_inv: "ledger_inv demo_month"
  by (simp add: ledger_inv_def ledger_explains_def explains_def ledger_owners_exist_def credit_keys_def
      ledger_sum_def owner_rows_def demo_month_def demo_credit_defs)

lemma ledger_explains_balances_witness:
  "\<exists>t. process_invoice_credits id demo_bill demo_month = Inr t \<and>
    (\<forall>c\<in>set (customer_credits t).
       credit_value c = sum_list (map tx_amount (owner_rows t (Organization (cc_pk c)))))"
proof -
  have "case process_invoice_credits id demo_bill demo_month of Inl _ \<Rightarrow> False | Inr _ \<Rightarrow> True"
    by code_simp
  then obtain t where t: "process_invoice_credits id demo_bill demo_month = Inr t"
    by (cases "process_invoice_credits id demo_bill demo_month") simp_all
  then have "credit_step\<^sup>*\<^sup>* demo_month t" by (blast intro: credit_step.compensated)
  then show ?thesis using ledger_explains_balances [OF demo_month_inv] t by blast
qed

lemma compensation_run_accounts_witness:
  "let m = calculate_current_compensations id demo_month (demo_credit 100 0) (Some demo_bill)
   in credit_value (run_credit m) = 100 - customer_usage_draw m - run_tail m \<and> customer_usage_draw m = 170"
proof -
  have keys: "credit_keys demo_month" using demo_month_inv by (simp add: ledger_inv_def)
  have live: "credit_value (demo_credit 100 0) \<noteq> 0" and tax: "0 \<le> tax_percent demo_bill"
    by (simp_all add: demo_credit_def demo_bill_def demo_invoice_def)
  have "customer_usage_draw (calculate_current_compensations id demo_month (demo_credit 100 0) (Some demo_bill)) = 170"
    by code_simp
  then show ?thesis
    using compensation_run_accounts [OF keys live tax, of id] by (simp add: Let_def demo_credit_def)
qed

text \<open>The item of project 22 leaves 10 in the credit; the 80 drawn for project 21 take it to -70.\<close>

lemma overdrawn_by_allocation_witness:
  "credit_value (run_credit (compensate_item id demo_bill [] (demo_bill_item ''b'' 21 95)
     (compensate_item id demo_bill [] (demo_bill_item ''a'' 22 90)
       (fresh_run (demo_credit 100 0) [demo_allocation 31 21 80])))) < 0"
proof -
  let ?m = "compensate_item id demo_bill [] (demo_bill_item ''a'' 22 90)
      (fresh_run (demo_credit 100 0) [demo_allocation 31 21 80])"
  have balance: "credit_value (run_credit ?m) = 10" by code_simp
  have cost: "net_cost [] (demo_bill_item ''b'' 21 95) = 95" by code_simp
  have "find_allocation (run_allocations ?m) (it_project (demo_bill_item ''b'' 21 95)) = Some (demo_allocation 31 21 80)"
    by code_simp
  moreover have "credit_value (run_credit ?m) < min (net_cost [] (demo_bill_item ''b'' 21 95)) (credit_value (demo_allocation 31 21 80))"
    unfolding balance cost by (simp add: demo_allocation_def)
  ultimately show ?thesis using overdrawn_by_allocation [of ?m id demo_bill "[]" "demo_bill_item ''b'' 21 95"] balance by simp
qed

text \<open>
  50 of credit with a minimal consumption of 100 this month and one item of 30: the run takes all 50,
  and clearing it gives back 100.
\<close>

definition demo_floor :: credit_db where
  "demo_floor = demo_books (demo_credit 50 100) [] [demo_invoice 0 [demo_bill_item ''a'' 22 30]]"

lemma clearing_returns_witness:
  "\<exists>m db1 db2. save_compensations id 5 (Some (demo_invoice 0 [demo_bill_item ''a'' 22 30])) demo_floor = Inr (Some m, db1) \<and>
     clear_compensations 5 (Some 41) db1 = Inr db2 \<and>
     find_credit db2 5 = Some ((demo_credit 50 100)\<lparr>credit_value := 100\<rparr>)"
proof -
  let ?iv = "demo_invoice 0 [demo_bill_item ''a'' 22 30]"
  define saving where "saving = save_compensations id 5 (Some ?iv) demo_floor"
  have run: "case saving of
      Inr (Some m, db1) \<Rightarrow> run_items m \<noteq> [] \<and> customer_usage_draw m + run_tail m = 50 \<and>
        - sum_list (map unit_price (run_items m)) = 30 \<and> \<not> (case clear_compensations 5 (Some 41) db1 of Inl _ \<Rightarrow> True | Inr _ \<Rightarrow> False)
    | _ \<Rightarrow> False"
    unfolding saving_def by code_simp
  then obtain r where r: "saving = Inr r" by (cases saving) simp_all
  then obtain m db1 where "r = (Some m, db1)" using run by (cases r; cases "fst r") auto
  then have saving: "saving = Inr (Some m, db1)" using r by simp
  then have items: "run_items m \<noteq> []" and drawn: "customer_usage_draw m + run_tail m = 50"
    and applied: "- sum_list (map unit_price (run_items m)) = 30"
    and clearing: "\<not> (case clear_compensations 5 (Some 41) db1 of Inl _ \<Rightarrow> True | Inr _ \<Rightarrow> False)"
    using run by simp_all
  obtain db2 where cleared: "clear_compensations 5 (Some 41) db1 = Inr db2"
    using clearing by (cases "clear_compensations 5 (Some 41) db1") simp_all
  note saved = saving [unfolded saving_def]
  have keys: "credit_keys demo_floor"
    by (simp add: credit_keys_def demo_floor_def demo_credit_defs)
  have found: "find_credit demo_floor 5 = Some (demo_credit 50 100)" and iv: "find_invoice demo_floor 41 = Some ?iv"
    by (simp_all add: find_credit_def find_invoice_def demo_floor_def demo_credit_defs)
  have clean: "\<forall>i\<in>set (inv_items ?iv). it_credit i \<noteq> Some (cc_pk (demo_credit 50 100))"
    by (simp add: demo_credit_defs)
  have "minimal_consumption (today demo_floor) (demo_credit 50 100) = 100" by code_simp
  then show ?thesis
    using clearing_returns [OF keys found iv clean saved items cleared] saved cleared
    by (simp add: drawn applied demo_credit_def)
qed

text \<open>
  Two allocations whose end has come, in a credit whose end has come too: the credit goes to zero
  first, then neither allocation can be saved and both keep their values.
\<close>

definition demo_overdue :: credit_db where
  "demo_overdue = demo_books (demo_credit 100 0) [demo_allocation 31 21 30, demo_allocation 32 22 40] []"

lemma allocation_check_ignores_value_witness:
  "save_project_credit no_context (Some [VALUE]) ((demo_allocation 31 21 30)\<lparr>credit_value := 500\<rparr>) demo_overdue =
     Inr (store_project_credit no_context (Some [VALUE]) ((demo_allocation 31 21 30)\<lparr>credit_value := 500\<rparr>) demo_overdue)"
proof -
  let ?pc = "demo_allocation 31 21 30"
  have cc: "credit_of_project demo_overdue ?pc = Some (demo_credit 100 0)" by code_simp
  have others: "40 = sum_value (filter (\<lambda>p. pc_pk p \<noteq> pc_pk ?pc) (allocations demo_overdue (cc_customer (demo_credit 100 0))))"
    by code_simp
  have some: "(40 :: rat) \<noteq> 0" and fits: "(40 :: rat) \<le> credit_value (demo_credit 100 0)" by (simp_all add: demo_credit_def)
  show ?thesis
    unfolding allocation_check_ignores_value [OF cc others some, of no_context 500] using fits by (rule if_P)
qed

lemma expired_allocations_survive:
  "case set_to_zero_overdue_credits \<lparr>cd_year = 2, cd_month = 3, cd_day = 20\<rparr> demo_overdue of
     Inl _ \<Rightarrow> False
   | Inr t \<Rightarrow> map credit_value (customer_credits t) = [0] \<and> map credit_value (project_credits t) = [30, 40]"
  by code_simp

end
