(* ===== verification/Billing_Time.thy ===== *)
theory Billing_Time
  imports Credit_Model
begin

text \<open>
  The date arithmetic of billing: the helpers of \<^verbatim>\<open>waldur_core/core/utils.py\<close> that find the bounds
  of months and quarters, the day and hour counts of \<^verbatim>\<open>invoices/utils.py\<close> and \<open>get_quantity\<close> of
  \<^verbatim>\<open>invoices/models.py\<close>.  A datetime is a date and the microsecond of the day; every datetime is in
  the time zone of the server (\<open>TIME_ZONE\<close> is UTC in its settings).
\<close>

subsection \<open>Datetimes of the standard library\<close>

record datetime =
  dt_date :: cdate
  dt_us :: int

definition day_us :: int where
  "day_us = 86400000000"

definition second_us :: int where
  "second_us = 1000000"

definition valid_date :: "cdate \<Rightarrow> bool" where
  "valid_date d \<longleftrightarrow> 1 \<le> cd_year d \<and> 1 \<le> cd_month d \<and> cd_month d \<le> 12 \<and>
     1 \<le> cd_day d \<and> cd_day d \<le> days_in_month (cd_year d) (cd_month d)"

definition valid_datetime :: "datetime \<Rightarrow> bool" where
  "valid_datetime t \<longleftrightarrow> valid_date (dt_date t) \<and> 0 \<le> dt_us t \<and> dt_us t < day_us"

definition micros :: "datetime \<Rightarrow> int" where
  "micros t = ordinal (dt_date t) * day_us + dt_us t"

text \<open>Comparison of datetimes, and the microseconds of \<open>t - s\<close>.\<close>

definition before :: "datetime \<Rightarrow> datetime \<Rightarrow> bool" where
  "before s t \<longleftrightarrow> micros s < micros t"

definition elapsed :: "datetime \<Rightarrow> datetime \<Rightarrow> int" where
  "elapsed s t = micros t - micros s"

definition next_day :: "cdate \<Rightarrow> cdate" where
  "next_day d =
     (if cd_day d < days_in_month (cd_year d) (cd_month d) then d\<lparr>cd_day := cd_day d + 1\<rparr>
      else if cd_month d < 12 then \<lparr>cd_year = cd_year d, cd_month = cd_month d + 1, cd_day = 1\<rparr>
      else \<lparr>cd_year = cd_year d + 1, cd_month = 1, cd_day = 1\<rparr>)"

definition prev_day :: "cdate \<Rightarrow> cdate" where
  "prev_day d =
     (if 1 < cd_day d then d\<lparr>cd_day := cd_day d - 1\<rparr>
      else if 1 < cd_month d
        then \<lparr>cd_year = cd_year d, cd_month = cd_month d - 1, cd_day = days_in_month (cd_year d) (cd_month d - 1)\<rparr>
      else \<lparr>cd_year = cd_year d - 1, cd_month = 12, cd_day = 31\<rparr>)"

text \<open>\<open>t + timedelta(seconds=1)\<close> and \<open>t - timedelta(seconds=1)\<close>.\<close>

definition plus_second :: "datetime \<Rightarrow> datetime" where
  "plus_second t =
     (if dt_us t + second_us < day_us then t\<lparr>dt_us := dt_us t + second_us\<rparr>
      else \<lparr>dt_date = next_day (dt_date t), dt_us = dt_us t + second_us - day_us\<rparr>)"

definition minus_second :: "datetime \<Rightarrow> datetime" where
  "minus_second t =
     (if second_us \<le> dt_us t then t\<lparr>dt_us := dt_us t - second_us\<rparr>
      else \<lparr>dt_date = prev_day (dt_date t), dt_us = dt_us t - second_us + day_us\<rparr>)"

text \<open>
  \<open>t.replace(hour=h, minute=m, second=s)\<close> keeps the microsecond, and \<open>t.replace(year=y)\<close> raises
  \<open>ValueError\<close> for 29 February in a common year.
\<close>

definition replace_time :: "int \<Rightarrow> int \<Rightarrow> int \<Rightarrow> datetime \<Rightarrow> datetime" where
  "replace_time h m s t = t\<lparr>dt_us := ((h * 60 + m) * 60 + s) * second_us + dt_us t mod second_us\<rparr>"

definition replace_year :: "nat \<Rightarrow> datetime \<Rightarrow> datetime option" where
  "replace_year y t =
     (let d = (dt_date t)\<lparr>cd_year := y\<rparr> in if valid_date d then Some (t\<lparr>dt_date := d\<rparr>) else None)"

subsection \<open>Months and quarters\<close>

definition month_start :: "cdate \<Rightarrow> datetime" where
  "month_start d = \<lparr>dt_date = d\<lparr>cd_day := 1\<rparr>, dt_us = 0\<rparr>"

definition month_end :: "cdate \<Rightarrow> datetime" where
  "month_end d = \<lparr>dt_date = d\<lparr>cd_day := days_in_month (cd_year d) (cd_month d)\<rparr>, dt_us = day_us - 1\<rparr>"

definition get_quarter_start :: "datetime \<Rightarrow> datetime" where
  "get_quarter_start t =
     (let quarter = (cd_month (dt_date t) - 1) div 3 + 1
      in \<lparr>dt_date = (dt_date t)\<lparr>cd_month := (quarter - 1) * 3 + 1, cd_day := 1\<rparr>, dt_us = 0\<rparr>)"

definition get_quarter_end :: "datetime \<Rightarrow> datetime" where
  "get_quarter_end t =
     (let quarter_end_month = ((cd_month (dt_date t) - 1) div 3 + 1) * 3
      in \<lparr>dt_date = (dt_date t)\<lparr>cd_month := quarter_end_month,
             cd_day := days_in_month (cd_year (dt_date t)) quarter_end_month\<rparr>, dt_us = day_us - 1\<rparr>)"

definition next_quarter :: "datetime \<Rightarrow> datetime" where
  "next_quarter t =
     (let d = dt_date t
      in t\<lparr>dt_date := (if cd_month d \<le> 9 then d\<lparr>cd_month := cd_month d + 3\<rparr>
                      else d\<lparr>cd_year := cd_year d + 1, cd_month := cd_month d - 9\<rparr>)\<rparr>)"

text \<open>The \<open>while\<close> loop of \<open>get_full_quarters\<close>: \<open>None\<close> is a loop that does not end.\<close>

partial_function (option) count_quarters :: "datetime \<Rightarrow> datetime \<Rightarrow> datetime \<Rightarrow> datetime \<Rightarrow> nat \<Rightarrow> nat option" where
  "count_quarters start stop end_quarter current quarters =
     (if before end_quarter current then Some quarters
      else count_quarters start stop end_quarter (next_quarter current)
             (if \<not> before current start \<and> \<not> before stop current then quarters + 1 else quarters))"

definition get_full_quarters :: "datetime \<Rightarrow> datetime \<Rightarrow> nat option" where
  "get_full_quarters start stop =
     count_quarters start stop (get_quarter_end stop) (get_quarter_start start) 0"

subsection \<open>Counts and the quantity of a fixed item\<close>

definition get_full_days :: "datetime \<Rightarrow> datetime \<Rightarrow> int" where
  "get_full_days start stop =
     (let full_days = elapsed start stop div day_us; extra = elapsed start stop mod day_us
      in if extra > 0 then full_days + 1 else full_days)"

definition hour_us :: int where
  "hour_us = 3600000000"

definition get_full_hours :: "datetime \<Rightarrow> datetime \<Rightarrow> int" where
  "get_full_hours start stop =
     (let full_hours = elapsed start stop div hour_us; extra = elapsed start stop mod hour_us
      in if extra > 0 then full_hours + 1 else full_hours)"

datatype units = PER_MONTH | PER_QUARTER | PER_HALF_MONTH | PER_DAY | PER_HOUR | QUANTITY

definition half_month_quantity :: "int \<Rightarrow> int \<Rightarrow> int \<Rightarrow> rat" where
  "half_month_quantity start_day end_day month_days =
     (let half = of_int month_days / 2
      in if (start_day = 1 \<and> end_day = 15) \<or> (start_day = 16 \<and> end_day = month_days) then 1
         else if start_day = 1 \<and> end_day = month_days then 2
         else if start_day = 1 \<and> end_day > 15 then quantize_price (1 + of_int (end_day - 15) / half)
         else if start_day < 16 \<and> end_day = month_days then quantize_price (1 + of_int (16 - start_day) / half)
         else quantize_price (of_int (end_day - start_day + 1) / half))"

definition get_quantity :: "units \<Rightarrow> datetime \<Rightarrow> datetime \<Rightarrow> rat option" where
  "get_quantity u start stop =
     (let d = dt_date start;
          month_days = int (days_in_month (cd_year d) (cd_month d));
          start_day = int (cd_day d);
          end_day = int (cd_day (dt_date stop))
      in case u of
           PER_HOUR \<Rightarrow> Some (of_int (get_full_hours start stop))
         | PER_DAY \<Rightarrow> Some (of_int (get_full_days start stop))
         | PER_QUARTER \<Rightarrow> map_option of_nat (get_full_quarters start stop)
         | PER_HALF_MONTH \<Rightarrow> Some (half_month_quantity start_day end_day month_days)
         | _ \<Rightarrow> Some (if start_day = 1 \<and> end_day = month_days then 1
                    else quantize_price (of_int (elapsed start stop div day_us + 1) / of_int month_days)))"

subsection \<open>The calendar is ordered\<close>

lemma days_in_month_bounds: "28 \<le> days_in_month y m" "days_in_month y m \<le> 31"
  by (simp_all add: days_in_month_def)

lemma days_in_month_pos [simp]: "0 < days_in_month y m" "1 \<le> days_in_month y m"
  using days_in_month_bounds(1) [of y m] by linarith+

definition year_length :: "nat \<Rightarrow> nat" where
  "year_length y = (if is_leap y then 366 else 365)"

lemma months_of_year: "sum_list (map (days_in_month y) [1..<13]) = year_length y"
  by (simp add: days_in_month_def year_length_def upt_conv_Cons numeral_eq_Suc)

lemma div_Suc_step: "0 < k \<Longrightarrow> Suc p div k = p div k + (if k dvd Suc p then 1 else 0)" for k p :: nat
  by (simp add: div_Suc mod_eq_0_iff_dvd)

lemma leap_step:
  "Suc p div 4 + Suc p div 400 + p div 100 = p div 4 + p div 400 + Suc p div 100 + (if is_leap (Suc p) then 1 else 0)"
proof -
  have "(400::nat) dvd Suc p \<Longrightarrow> 100 dvd Suc p" "(100::nat) dvd Suc p \<Longrightarrow> 4 dvd Suc p"
    by (rule dvd_trans [of _ 400], simp_all) (rule dvd_trans [of _ 100], simp_all)
  moreover have "is_leap (Suc p) \<longleftrightarrow> 4 dvd Suc p \<and> (\<not> 100 dvd Suc p \<or> 400 dvd Suc p)"
    unfolding is_leap_def mod_eq_0_iff_dvd [symmetric] by blast
  ultimately show ?thesis
    using div_Suc_step [of 4 p] div_Suc_step [of 100 p] div_Suc_step [of 400 p]
    by (cases "4 dvd Suc p"; cases "100 dvd Suc p"; cases "400 dvd Suc p") (simp_all del: div_Suc)
qed

lemma ordinal_year:
  "to_ordinal (Suc p) m d = int (p * 365 + p div 4) - int (p div 100) + int (p div 400)
     + int (sum_list (map (days_in_month (Suc p)) [1..<m])) + int d"
proof -
  have "p div 100 \<le> p * 365 + p div 4"
    using div_le_dividend [of p 100] by linarith
  then show ?thesis
    by (simp add: to_ordinal_def Let_def of_nat_diff)
qed

lemma ordinal_next_year: "to_ordinal (Suc y) 1 d = to_ordinal y 13 d" if "1 \<le> y"
proof -
  obtain p where y: "y = Suc p" using \<open>1 \<le> y\<close> by (cases y) auto
  show ?thesis
    using leap_step [of p]
    unfolding y ordinal_year months_of_year year_length_def
    by (auto split: if_splits)
qed

lemma ordinal_next_month: "1 \<le> m \<Longrightarrow> to_ordinal y (Suc m) d = to_ordinal y m d + int (days_in_month y m)"
  by (simp add: to_ordinal_def Let_def)

lemma ordinal_day: "to_ordinal y m d = to_ordinal y m 0 + int d"
  by (simp add: to_ordinal_def Let_def)

lemma ordinal_next_day: "valid_date d \<Longrightarrow> ordinal (next_day d) = ordinal d + 1"
  using ordinal_next_month [of "cd_month d" "cd_year d"] ordinal_next_year [of "cd_year d"]
    ordinal_day [of "cd_year d" "cd_month d" "cd_day d"] ordinal_day [of "cd_year d" "cd_month d" "cd_day d + 1"]
    ordinal_day [of "cd_year d" "cd_month d + 1" 1]
    ordinal_day [of "cd_year d + 1" 1 1]  ordinal_day [of "cd_year d" 13 1]
  by (auto simp: next_day_def ordinal_def valid_date_def numeral_eq_Suc)

lemma valid_next_day: "valid_date d \<Longrightarrow> valid_date (next_day d)"
  by (auto simp: next_day_def valid_date_def Suc_le_eq)

lemma ordinal_prev_day:
  assumes "valid_date d" "1 < cd_year d"
  shows "ordinal (prev_day d) = ordinal d - 1"
proof -
  have step: "to_ordinal y (Suc m) 1 = to_ordinal y m (days_in_month y m) + 1" if "1 \<le> m" for y m
    using ordinal_next_month [OF that, of y 1] ordinal_day [of y m 1] ordinal_day [of y m "days_in_month y m"] by simp
  consider "1 < cd_day d" | "cd_day d = 1" "1 < cd_month d" | "cd_day d = 1" "cd_month d = 1"
    using assms(1) unfolding valid_date_def by linarith
  then show ?thesis
  proof cases
    case 1
    then show ?thesis
      using ordinal_day [of "cd_year d" "cd_month d" "cd_day d"] ordinal_day [of "cd_year d" "cd_month d" "cd_day d - 1"]
      by (simp add: prev_day_def ordinal_def of_nat_diff)
  next
    case 2
    then obtain m where m: "cd_month d = Suc m" "1 \<le> m" by (cases "cd_month d") auto
    show ?thesis using 2 m step [of m "cd_year d"] by (simp add: prev_day_def ordinal_def)
  next
    case 3
    from assms(2) obtain y where y: "cd_year d = Suc y" "1 \<le> y" by (cases "cd_year d") auto
    show ?thesis
      using 3 y ordinal_next_year [of y 1] step [of 12 y]
      by (simp add: prev_day_def ordinal_def days_in_month_def [of _ 12])
  qed
qed

lemma valid_prev_day: "valid_date d \<Longrightarrow> 1 < cd_year d \<Longrightarrow> valid_date (prev_day d)"
  using days_in_month_pos(2) [of "cd_year d" "cd_month d - 1"]
  by (auto simp: prev_day_def valid_date_def days_in_month_def [of _ 12])

lemma ordinal_month_mono: "1 \<le> m \<Longrightarrow> m \<le> m' \<Longrightarrow> to_ordinal y m d \<le> to_ordinal y m' d"
proof -
  assume "1 \<le> m" "m \<le> m'"
  from \<open>m \<le> m'\<close> show ?thesis
  proof (induction m' rule: dec_induct)
    case (step n)
    then show ?case using \<open>1 \<le> m\<close> ordinal_next_month [of n y d] by linarith
  qed simp
qed

lemma ordinal_three_months: "1 \<le> m \<Longrightarrow> to_ordinal y m d < to_ordinal y (m + 3) d"
  using ordinal_next_month [of m y d] ordinal_next_month [of "Suc m" y d] ordinal_next_month [of "Suc (Suc m)" y d]
    days_in_month_pos(1) [of y m] by (simp add: numeral_eq_Suc del: days_in_month_pos)

lemma ordinal_in_month:
  assumes "valid_date d"
  shows "ordinal (d\<lparr>cd_day := 1\<rparr>) \<le> ordinal d" "ordinal d < to_ordinal (cd_year d) (Suc (cd_month d)) 1"
  using assms ordinal_next_month [of "cd_month d" "cd_year d" 1]
    ordinal_day [of "cd_year d" "cd_month d" "cd_day d"] ordinal_day [of "cd_year d" "cd_month d" 1]
  by (auto simp: ordinal_def valid_date_def)

subsection \<open>Day counts\<close>

lemma full_days_eq:
  assumes "0 \<le> dt_us s" "dt_us s < day_us" "0 \<le> dt_us e" "dt_us e < day_us"
  shows "get_full_days s e = ordinal (dt_date e) - ordinal (dt_date s) + (if dt_us s < dt_us e then 1 else 0)"
proof -
  define D where "D = ordinal (dt_date e) - ordinal (dt_date s)"
  define r where "r = dt_us e - dt_us s"
  have e: "elapsed s e = r + D * day_us" by (simp add: elapsed_def micros_def D_def r_def algebra_simps)
  have pos: "0 < day_us" by (simp add: day_us_def)
  have r: "- day_us < r" "r < day_us" using assms by (simp_all add: r_def)
  have split: "elapsed s e div day_us = D + r div day_us" "elapsed s e mod day_us = r mod day_us"
    using pos by (simp_all add: e)
  have "r div day_us = (if r < 0 then - 1 else 0)" "r mod day_us = (if r < 0 then r + day_us else r)"
    using r pos by (auto simp: div_pos_pos_trivial zmod_trivial_iff
        intro!: int_div_pos_eq [where r = "r + day_us"] int_mod_pos_eq [where q = "-1"])
  then show ?thesis
    using r by (auto simp: get_full_days_def split D_def [symmetric] r_def Let_def split: if_splits)
qed

lemma micros_plus_second: "valid_datetime t \<Longrightarrow> micros (plus_second t) = micros t + second_us"
  by (auto simp: valid_datetime_def plus_second_def micros_def ordinal_next_day algebra_simps)

lemma micros_minus_second:
  "valid_datetime t \<Longrightarrow> 1 < cd_year (dt_date t) \<Longrightarrow> micros (minus_second t) = micros t - second_us"
  by (auto simp: valid_datetime_def minus_second_def micros_def ordinal_prev_day algebra_simps)

subsection \<open>The quarter loop\<close>

definition quarter_index :: "datetime \<Rightarrow> nat" where
  "quarter_index t = 4 * cd_year (dt_date t) + (cd_month (dt_date t) - 1) div 3"

definition quarter :: "nat \<Rightarrow> datetime" where
  "quarter k = \<lparr>dt_date = \<lparr>cd_year = k div 4, cd_month = k mod 4 * 3 + 1, cd_day = 1\<rparr>, dt_us = 0\<rparr>"

lemma quarter_start_index:
  assumes "valid_datetime t"
  shows "get_quarter_start t = quarter (quarter_index t)"
proof -
  have "(cd_month (dt_date t) - 1) div 3 < 4"
    using assms by (auto simp: valid_datetime_def valid_date_def)
  then show ?thesis
    by (cases t; cases "dt_date t") (simp add: get_quarter_start_def quarter_def quarter_index_def Let_def)
qed

lemma next_quarter_index: "next_quarter (quarter k) = quarter (Suc k)"
proof -
  consider "k mod 4 = 3" | "k mod 4 < 3" using mod_less_divisor [of 4 k] by linarith
  then show ?thesis
  proof cases
    case 1
    then have "Suc k mod 4 = 0" "Suc k div 4 = Suc (k div 4)" by (simp_all add: mod_Suc div_Suc)
    then show ?thesis using 1 by (simp add: next_quarter_def quarter_def Let_def)
  next
    case 2
    then have "Suc k mod 4 = Suc (k mod 4)" "Suc k div 4 = k div 4" by (simp_all add: mod_Suc div_Suc)
    then show ?thesis using 2 by (simp add: next_quarter_def quarter_def Let_def)
  qed
qed

lemma micros_quarter: "micros (quarter k) = to_ordinal (k div 4) (k mod 4 * 3 + 1) 1 * day_us"
  by (simp add: micros_def quarter_def ordinal_def)

lemma quarter_step:
  assumes "4 \<le> k"
  shows "micros (quarter k) < micros (quarter (Suc k))"
proof -
  have up: "to_ordinal (k div 4) (k mod 4 * 3 + 1) 1 < to_ordinal (k div 4) (k mod 4 * 3 + 1 + 3) 1"
    by (rule ordinal_three_months) simp
  have pos: "0 < day_us" by (simp add: day_us_def)
  consider "k mod 4 = 3" | "k mod 4 < 3" using mod_less_divisor [of 4 k] by linarith
  then have "to_ordinal (k div 4) (k mod 4 * 3 + 1) 1 < to_ordinal (Suc k div 4) (Suc k mod 4 * 3 + 1) 1"
  proof cases
    case 1
    then have "Suc k mod 4 = 0" "Suc k div 4 = Suc (k div 4)" by (simp_all add: mod_Suc div_Suc)
    moreover have "1 \<le> k div 4" using assms by linarith
    ultimately show ?thesis
      using 1 up ordinal_next_year [of "k div 4" 1] by simp
  next
    case 2
    then have "Suc k mod 4 = Suc (k mod 4)" "Suc k div 4 = k div 4" by (simp_all add: mod_Suc div_Suc)
    moreover have "k mod 4 * 3 + 1 + 3 = Suc (k mod 4) * 3 + 1" by simp
    ultimately show ?thesis using up by metis
  qed
  then show ?thesis using pos by (simp add: micros_quarter)
qed

lemma quarter_mono: "4 \<le> k \<Longrightarrow> k < l \<Longrightarrow> micros (quarter k) < micros (quarter l)"
proof (induction l)
  case (Suc l)
  then show ?case using quarter_step [of l] by (cases "k = l") auto
qed simp

lemma quarter_index_bound: "valid_datetime t \<Longrightarrow> 4 \<le> quarter_index t"
  by (simp add: quarter_index_def valid_datetime_def valid_date_def)

lemma quarter_begins:
  assumes "valid_datetime t"
  shows "micros (quarter (quarter_index t)) \<le> micros t" "micros t < micros (quarter (Suc (quarter_index t)))"
    and "micros (get_quarter_end t) = micros (quarter (Suc (quarter_index t))) - 1"
proof -
  let ?d = "dt_date t" and ?y = "cd_year (dt_date t)" and ?q = "(cd_month (dt_date t) - 1) div 3"
  have d: "valid_date ?d" and us: "0 \<le> dt_us t" "dt_us t < day_us" using assms by (simp_all add: valid_datetime_def)
  have q: "?q < 4" "?q * 3 + 1 \<le> cd_month ?d" "Suc (cd_month ?d) \<le> ?q * 3 + 1 + 3" "1 \<le> cd_month ?d" "1 \<le> ?y"
    using d unfolding valid_date_def by linarith+
  have begin_q: "micros (quarter (quarter_index t)) = to_ordinal ?y (?q * 3 + 1) 1 * day_us"
    using q(1) by (simp add: micros_quarter quarter_index_def)
  have end_q: "micros (quarter (Suc (quarter_index t))) = to_ordinal ?y (?q * 3 + 1 + 3) 1 * day_us"
  proof (cases "?q = 3")
    case True
    then have "Suc (quarter_index t) mod 4 = 0" "Suc (quarter_index t) div 4 = Suc ?y" by (simp_all add: quarter_index_def)
    then show ?thesis using True ordinal_next_year [OF q(5), of 1] by (simp add: micros_quarter)
  next
    case False
    then have "Suc ?q < 4" using q(1) by linarith
    moreover have "Suc (quarter_index t) = 4 * ?y + Suc ?q" by (simp add: quarter_index_def)
    ultimately have "Suc (quarter_index t) mod 4 = Suc ?q" "Suc (quarter_index t) div 4 = ?y" by simp_all
    moreover have "Suc ?q * 3 + 1 = ?q * 3 + 1 + 3" by simp
    ultimately show ?thesis by (metis micros_quarter)
  qed
  have "to_ordinal ?y (?q * 3 + 1) 1 \<le> to_ordinal ?y (cd_month ?d) 1" using q by (intro ordinal_month_mono) simp_all
  also have "\<dots> \<le> ordinal ?d" using ordinal_in_month(1) [OF d] by (simp add: ordinal_def)
  finally have "to_ordinal ?y (?q * 3 + 1) 1 * day_us \<le> ordinal ?d * day_us"
    by (rule mult_right_mono) (simp add: day_us_def)
  then show "micros (quarter (quarter_index t)) \<le> micros t"
    unfolding begin_q using us by (simp only: micros_def [of t])
  have "ordinal ?d + 1 \<le> to_ordinal ?y (Suc (cd_month ?d)) 1" using ordinal_in_month(2) [OF d] by simp
  also have "\<dots> \<le> to_ordinal ?y (?q * 3 + 1 + 3) 1" using q by (intro ordinal_month_mono) simp_all
  finally have "(ordinal ?d + 1) * day_us \<le> to_ordinal ?y (?q * 3 + 1 + 3) 1 * day_us"
    by (rule mult_right_mono) (simp add: day_us_def)
  then show "micros t < micros (quarter (Suc (quarter_index t)))"
    unfolding end_q micros_def [of t] using us by (simp add: algebra_simps)
  have "to_ordinal ?y (?q * 3 + 1 + 3) 1 = to_ordinal ?y (?q * 3 + 3) (days_in_month ?y (?q * 3 + 3)) + 1"
    using ordinal_next_month [of "?q * 3 + 3" ?y 1] ordinal_day [of ?y "?q * 3 + 3" 1]
      ordinal_day [of ?y "?q * 3 + 3" "days_in_month ?y (?q * 3 + 3)"] by simp
  then show "micros (get_quarter_end t) = micros (quarter (Suc (quarter_index t))) - 1"
    unfolding end_q by (simp add: get_quarter_end_def micros_def ordinal_def Let_def algebra_simps)
qed

text \<open>The loop runs over the indices up to the quarter of \<open>stop\<close>.\<close>

lemma count_quarters_runs:
  assumes stop: "valid_datetime stop" and "4 \<le> k"
  shows "count_quarters start stop (get_quarter_end stop) (quarter k) n =
     Some (n + length (filter (\<lambda>i. \<not> before (quarter i) start \<and> \<not> before stop (quarter i))
                         [k..<Suc (quarter_index stop)]))"
  using \<open>4 \<le> k\<close>
proof (induction "Suc (quarter_index stop) - k" arbitrary: k n)
  let ?q = "quarter_index stop"
  have done_iff: "before (get_quarter_end stop) (quarter k) \<longleftrightarrow> ?q < k" if "4 \<le> k" for k
  proof (cases "?q < k")
    case True
    then have "micros (quarter (Suc ?q)) \<le> micros (quarter k)"
      using quarter_mono [of "Suc ?q" k] quarter_index_bound [OF stop] by (cases "Suc ?q = k") auto
    then show ?thesis using True quarter_begins(3) [OF stop] by (simp add: before_def)
  next
    case False
    then have "micros (quarter k) < micros (quarter (Suc ?q))" using quarter_mono [OF that, of "Suc ?q"] by simp
    then show ?thesis using False quarter_begins(3) [OF stop] by (simp add: before_def)
  qed
  case 0
  then have "?q < k" by simp
  then show ?case using done_iff [OF 0(2)] by (simp add: count_quarters.simps)
next
  case (Suc x)
  let ?q = "quarter_index stop"
  from Suc.hyps(2) have le: "k \<le> ?q" by simp
  then have "micros (quarter k) < micros (quarter (Suc ?q))" using quarter_mono [OF Suc.prems, of "Suc ?q"] by simp
  then have more: "\<not> before (get_quarter_end stop) (quarter k)"
    using quarter_begins(3) [OF stop] by (simp add: before_def)
  have rest: "[k..<Suc ?q] = k # [Suc k..<Suc ?q]" using le by (simp add: upt_conv_Cons)
  have x: "x = Suc ?q - Suc k" using Suc.hyps(2) by simp
  show ?case
    unfolding rest count_quarters.simps [of _ _ _ "quarter k"] next_quarter_index
    using more Suc.prems by (simp add: Suc.hyps(1) [OF x])
qed

lemma full_quarters_eq:
  assumes start: "valid_datetime start" and stop: "valid_datetime stop" and order: "\<not> before stop start"
  shows "get_full_quarters start stop =
     Some (quarter_index stop - quarter_index start + (if before (get_quarter_start start) start then 0 else 1))"
proof -
  let ?s = "quarter_index start" and ?e = "quarter_index stop"
  note s = quarter_begins [OF start] and e = quarter_begins [OF stop]
  have mono: "4 \<le> i \<Longrightarrow> i \<le> j \<Longrightarrow> micros (quarter i) \<le> micros (quarter j)" for i j
    using quarter_mono [of i j] by (cases "i = j") auto
  have le: "?s \<le> ?e"
  proof (rule ccontr)
    assume "\<not> ?s \<le> ?e"
    then have "micros (quarter (Suc ?e)) \<le> micros (quarter ?s)"
      using quarter_index_bound [OF stop] by (intro mono) simp_all
    then show False using s(1) e(2) order by (simp add: before_def)
  qed
  let ?P = "\<lambda>i. \<not> before (quarter i) start \<and> \<not> before stop (quarter i)"
  have later: "?P i" if "Suc ?s \<le> i" "i \<le> ?e" for i
    using mono [of "Suc ?s" i] mono [of i ?e] that quarter_index_bound [OF start] s(2) e(1)
    by (simp add: before_def)
  have first: "?P ?s \<longleftrightarrow> \<not> before (get_quarter_start start) start"
    using mono [OF quarter_index_bound [OF start] le] e(1)
    by (simp add: before_def quarter_start_index [OF start])
  have "filter ?P [Suc ?s..<Suc ?e] = [Suc ?s..<Suc ?e]"
    by (rule filter_True) (use later in auto)
  moreover have "[?s..<Suc ?e] = ?s # [Suc ?s..<Suc ?e]" using le by (simp add: upt_conv_Cons)
  ultimately have "length (filter ?P [?s..<Suc ?e]) = ?e - ?s + (if before (get_quarter_start start) start then 0 else 1)"
    using first le by (simp add: Suc_diff_le del: upt_Suc)
  then show ?thesis
    unfolding get_full_quarters_def quarter_start_index [OF start]
    using count_quarters_runs [OF stop quarter_index_bound [OF start], of start 0]
    by (simp add: quarter_start_index [OF start] del: upt_Suc)
qed

end
