(* ===== verification/Billing_Model.thy ===== *)
theory Billing_Model
  imports Billing_Time Plan_Billing Order_Model
begin

text \<open>
  What billing keeps: invoices, their items, the resources and plans they bill
  (\<^verbatim>\<open>invoices/models.py\<close>, \<^verbatim>\<open>marketplace/models.py\<close>), campaigns (\<^verbatim>\<open>promotions/models.py\<close>), and the
  operations of a single item: its price, its termination and its quantity from the limit periods it
  records.  The JSON \<open>details\<close> of an item are the keys billing reads back; names, article codes and
  the descriptive keys are left out.  Decimals and JSON numbers are exact rationals.
\<close>

subsection \<open>Records\<close>

datatype aggregation = PER_RESOURCE | PER_CUSTOMER

record billed_component =
  bc_pk :: nat
  bc_component :: "offering_component option"
  bc_amount :: nat
  bc_price :: rat
  bc_discount_formula :: string
  bc_discount_aggregation :: aggregation

record billing_plan =
  bp_uuid :: nat
  bp_offering_type :: string
  bp_mode :: billing_mode
  bp_unit :: units
  bp_components :: "billed_component list"

record billing_offering =
  bo_pk :: nat
  bo_type :: string
  bo_billable :: bool
  bo_components :: "offering_component list"
  bo_factors :: "(string, nat) dict"

text \<open>
  A resource with its offering and plan.  \<open>rs_coupon\<close> is \<open>None\<close> without a creation order, otherwise
  the coupon of its attributes (empty when absent).
\<close>

record billing_resource =
  rs_pk :: nat
  rs_customer :: nat
  rs_project :: nat
  rs_offering :: billing_offering
  rs_plan :: "billing_plan option"
  rs_limits :: limits
  rs_state :: resource_state
  rs_created :: datetime
  rs_end_date :: "cdate option"
  rs_coupon :: "string option"

record limit_row =
  lp_start :: datetime
  lp_end :: datetime
  lp_quantity :: rat
  lp_billing_periods :: int
  lp_total :: rat

record billing_item =
  bi_pk :: nat
  bi_invoice :: nat
  bi_resource :: "nat option"
  bi_project :: nat
  bi_plan_component :: "nat option"
  bi_unit_price :: rat
  bi_unit :: units
  bi_quantity :: rat
  bi_measured_unit :: string
  bi_start :: datetime
  bi_end :: datetime
  bi_plan_uuid :: "nat option"
  bi_component_type :: string
  bi_limit_periods :: "limit_row list option"
  bi_limit_total :: bool
  bi_discount_usage :: "rat option"
  bi_is_discount :: bool
  bi_is_compensation :: bool
  bi_discount_of :: "nat option"
  bi_discount_percent :: "rat option"
  bi_supplementary :: bool
  bi_campaign :: "(nat \<times> rat) option"
  bi_plan_period :: "nat option"
  bi_overage :: bool

record billing_invoice =
  bv_pk :: nat
  bv_customer :: nat
  bv_year :: nat
  bv_month :: nat
  bv_state :: invoice_state

datatype discount_type = DISCOUNT | SPECIAL_PRICE
datatype campaign_state = DRAFT | ACTIVE_CAMPAIGN | TERMINATED_CAMPAIGN

record campaign =
  cm_pk :: nat
  cm_start_date :: cdate
  cm_end_date :: cdate
  cm_coupon :: string
  cm_discount_type :: discount_type
  cm_discount :: int
  cm_offerings :: "nat list"
  cm_required_offerings :: "nat list"
  cm_stock :: "nat option"
  cm_months :: nat
  cm_auto_apply :: bool
  cm_state :: campaign_state

record discounted_resource =
  dr_campaign :: nat
  dr_resource :: nat
  dr_created :: cdate

record billing_db =
  bd_invoices :: "billing_invoice list"
  bd_items :: "billing_item list"
  bd_resources :: "billing_resource list"
  bd_plans :: "billing_plan list"
  bd_campaigns :: "campaign list"
  bd_discounted :: "discounted_resource list"
  bd_next :: nat

text \<open>
  The exceptions: \<open>DoesNotExist\<close> and \<open>MultipleObjectsReturned\<close> of a query for one row, a missing key
  of \<open>details\<close> or an empty list (\<open>LookupError\<close>), an invalid date, the call of something that is not callable, an attribute of \<open>None\<close>,
  a division by zero, a float less a \<open>Decimal\<close>.  \<open>Diverges\<close> is a loop that does not end.
\<close>

datatype billing_error = No_row | Several_rows | Lookup_failed | Invalid_date | Not_callable | None_attribute
  | Zero_division | Mixed_arithmetic | Diverges

subsection \<open>Queries\<close>

definition get_row :: "('a \<Rightarrow> bool) \<Rightarrow> 'a list \<Rightarrow> (billing_error, 'a) result" where
  "get_row p rows = (case filter p rows of [] \<Rightarrow> Inl No_row | [r] \<Rightarrow> Inr r | _ \<Rightarrow> Inl Several_rows)"

definition add_item :: "billing_item \<Rightarrow> billing_db \<Rightarrow> billing_db" where
  "add_item i db = db\<lparr>bd_items := bd_items db @ [i\<lparr>bi_pk := bd_next db\<rparr>], bd_next := bd_next db + 1\<rparr>"

definition save_item :: "billing_item \<Rightarrow> billing_db \<Rightarrow> billing_db" where
  "save_item i db = db\<lparr>bd_items := update_rows (\<lambda>r. bi_pk r = bi_pk i) (\<lambda>_. i) (bd_items db)\<rparr>"

definition find_plan_component :: "billing_db \<Rightarrow> nat \<Rightarrow> (billing_plan \<times> billed_component) option" where
  "find_plan_component db pk =
     first_row (\<lambda>(p, c). bc_pk c = pk) (concat (map (\<lambda>p. map (Pair p) (bp_components p)) (bd_plans db)))"

definition resolve_for :: "billing_plan \<Rightarrow> offering_component \<Rightarrow> effective_component" where
  "resolve_for p c = resolve_component (bp_offering_type p) (Some (bp_mode p)) c"

subsection \<open>Converted quantities\<close>

definition SLURM_OFFERING :: string where
  "SLURM_OFFERING = ''SlurmInvoices.SlurmPackage''"

definition convert_slurm_usage :: "rat \<Rightarrow> string \<Rightarrow> rat" where
  "convert_slurm_usage usage component_type =
     (if component_type \<in> {''ram'', ''mem''} then of_int \<lceil>usage / 1024 / 60\<rceil> else of_int \<lceil>usage / 60\<rceil>)"

text \<open>\<open>int\<close> truncates towards zero; \<open>quantize\<close> rounds half to even.\<close>

definition towards_zero :: "rat \<Rightarrow> rat" where
  "towards_zero x = (if x < 0 then - of_int \<lfloor>- x\<rfloor> else of_int \<lfloor>x\<rfloor>)"

definition round_half_even :: "rat \<Rightarrow> int" where
  "round_half_even x =
     (let f = \<lfloor>x\<rfloor>; r = x - of_int f
      in if r < 1 / 2 then f else if r > 1 / 2 then f + 1 else if even f then f else f + 1)"

definition convert_quantity :: "rat \<Rightarrow> string \<Rightarrow> string \<Rightarrow> billing_type option \<Rightarrow> rat" where
  "convert_quantity usage offering_type component_type bt =
     (if offering_type = SLURM_OFFERING then convert_slurm_usage usage component_type
      else if offering_type = OPENSTACK_TENANT_OFFERING
        then let r = (if component_type \<in> {''storage'', ''ram''} then usage / 1024 else usage)
             in if bt = Some USAGE then of_int (round_half_even (r * 100)) / 100 else towards_zero r
      else usage)"

subsection \<open>One item\<close>

definition serialize_resource_limit_period :: "datetime \<Rightarrow> datetime \<Rightarrow> rat \<Rightarrow> limit_row" where
  "serialize_resource_limit_period start stop q =
     (let n = get_full_days start stop
      in \<lparr>lp_start = start, lp_end = stop, lp_quantity = q, lp_billing_periods = n, lp_total = q * of_int n\<rparr>)"

definition billed_price :: "billing_item \<Rightarrow> rat" where
  "billed_price i = quantize_price (bi_unit_price i * bi_quantity i)"

text \<open>\<open>price_current\<close>: items billed by hour or day are charged up to now.\<close>

definition price_current :: "datetime \<Rightarrow> billing_item \<Rightarrow> rat" where
  "price_current clock i =
     (let stop = (if before clock (bi_end i) then clock else bi_end i)
      in quantize_price (bi_unit_price i *
           (if bi_unit i = PER_HOUR then of_int (get_full_hours (bi_start i) stop)
            else if bi_unit i = PER_DAY then of_int (get_full_days (bi_start i) stop)
            else bi_quantity i)))"

definition period_days :: "limit_row \<Rightarrow> int" where
  "period_days p = get_full_days (lp_start p) (lp_end p)"

definition quantity_from_limit_periods :: "billing_item \<Rightarrow> rat" where
  "quantity_from_limit_periods i =
     (let periods = (case bi_limit_periods i of Some ps \<Rightarrow> ps | None \<Rightarrow> [])
      in if bi_unit i = PER_DAY then sum_list (map lp_total periods)
         else let total_days = sum_list (map period_days periods)
              in if total_days \<le> 0 then 0
                 else quantize_price (sum_list (map (\<lambda>p. lp_quantity p * of_int (period_days p)) periods)
                        / of_int total_days))"

definition is_prorated :: "effective_component \<Rightarrow> bool" where
  "is_prorated e \<longleftrightarrow> ef_billing_type e = FIXED \<or> (ef_billing_type e = LIMIT \<and> ef_limit_period e \<noteq> TOTAL)"

definition update_quantity :: "billing_db \<Rightarrow> billing_item \<Rightarrow> (billing_error, billing_item) result" where
  "update_quantity db i =
     (case Option.bind (bi_plan_component i) (find_plan_component db) of
        None \<Rightarrow> Inr i
      | Some (p, pc) \<Rightarrow>
          (case bc_component pc of
             None \<Rightarrow> Inr i
           | Some c \<Rightarrow>
               if is_prorated (resolve_for p c)
               then (case get_quantity (bi_unit i) (bi_start i) (bi_end i) of
                       None \<Rightarrow> Inl Diverges
                     | Some q \<Rightarrow> Inr (i\<lparr>bi_quantity := q\<rparr>))
               else Inr i))"

definition end_last_period :: "datetime \<Rightarrow> limit_row \<Rightarrow> limit_row" where
  "end_last_period stop p =
     (let n = get_full_days (lp_start p) stop
      in p\<lparr>lp_end := stop, lp_billing_periods := n, lp_total := lp_quantity p * of_int n\<rparr>)"

definition terminate_item :: "billing_db \<Rightarrow> datetime \<Rightarrow> billing_item \<Rightarrow> (billing_error, billing_item) result" where
  "terminate_item db stop i =
     rbind (update_quantity db (i\<lparr>bi_end := stop\<rparr>)) (\<lambda>i.
       case bi_limit_periods i of
         None \<Rightarrow> Inr i
       | Some [] \<Rightarrow> Inr i
       | Some periods \<Rightarrow>
           if bi_limit_total i then Inr i
           else let i = i\<lparr>bi_limit_periods := Some (butlast periods @ [end_last_period stop (last periods)])\<rparr>
                in Inr (i\<lparr>bi_quantity := quantity_from_limit_periods i\<rparr>))"

text \<open>
  The compensation of an item by \<open>cost\<close>, as \<^verbatim>\<open>invoices/compensations.py\<close> builds it: the details are those
  of the item it compensates, the plan component is not set.
\<close>

definition compensation_line :: "rat \<Rightarrow> datetime \<Rightarrow> datetime \<Rightarrow> billing_item \<Rightarrow> billing_item" where
  "compensation_line cost start stop i =
     i\<lparr>bi_plan_component := None, bi_unit_price := - cost, bi_unit := QUANTITY, bi_quantity := 1,
       bi_measured_unit := '''', bi_start := start, bi_end := stop, bi_is_compensation := True\<rparr>"

subsection \<open>Weighted limits\<close>

lemma weighted_sum_le:
  fixes f g :: "'a \<Rightarrow> rat"
  assumes "\<And>x. x \<in> set xs \<Longrightarrow> 0 \<le> g x \<and> f x \<le> hi"
  shows "sum_list (map (\<lambda>x. f x * g x) xs) \<le> hi * sum_list (map g xs)"
  using assms
proof (induction xs)
  case (Cons x xs)
  then have "f x * g x \<le> hi * g x" by (simp add: mult_right_mono)
  with Cons show ?case by (simp add: distrib_left add_mono)
qed simp

lemma weighted_sum_ge:
  fixes f g :: "'a \<Rightarrow> rat"
  assumes "\<And>x. x \<in> set xs \<Longrightarrow> 0 \<le> g x \<and> lo \<le> f x"
  shows "lo * sum_list (map g xs) \<le> sum_list (map (\<lambda>x. f x * g x) xs)"
  using assms
proof (induction xs)
  case (Cons x xs)
  then have "lo * g x \<le> f x * g x" by (simp add: mult_right_mono)
  with Cons show ?case by (simp add: distrib_left add_mono)
qed simp

lemma quantize_price_mono: "x \<le> y \<Longrightarrow> 0 \<le> x \<Longrightarrow> quantize_price x \<le> quantize_price y"
  by (auto simp: quantize_price_def ceiling_mono divide_right_mono mult_right_mono)

end
