(* ===== verification/Limit_Billing.thy ===== *)
theory Limit_Billing
  imports Billing_Model
begin

text \<open>
  Billing of components bought by limit, \<open>LimitPeriodProcessor\<close> of
  \<^verbatim>\<open>marketplace/billing_limit.py\<close>: the item of a period, the proration when a limit
  changes, the differences charged for a total limit and the reopening after a plan switch back.
  \<open>clock\<close> is \<open>timezone.now()\<close>; an operation returns the database inside \<open>Inr\<close> and a raise
  leaves it to the enclosing transaction.
\<close>

subsection \<open>Periods\<close>

definition limit_period_for :: "offering_component \<Rightarrow> billing_resource \<Rightarrow> limit_period" where
  "limit_period_for c r =
     ef_limit_period (resolve_component (bo_type (rs_offering r)) (map_option bp_mode (rs_plan r)) c)"

definition annual_period :: "datetime \<Rightarrow> datetime \<Rightarrow> (billing_error, datetime \<times> datetime) result" where
  "annual_period created date =
     (case replace_year (cd_year (dt_date date)) created of
        None \<Rightarrow> Inl Invalid_date
      | Some anniversary_this_year \<Rightarrow>
          let start = (if before date anniversary_this_year
                       then replace_year (cd_year (dt_date date) - 1) created else Some anniversary_this_year)
          in (case start of
                None \<Rightarrow> Inl Invalid_date
              | Some s \<Rightarrow> (case replace_year (cd_year (dt_date s) + 1) s of
                    None \<Rightarrow> Inl Invalid_date
                  | Some e \<Rightarrow> Inr (s, minus_second e))))"

definition get_billing_period ::
    "limit_period \<Rightarrow> datetime \<Rightarrow> billing_resource \<Rightarrow> (billing_error, datetime \<times> datetime) result" where
  "get_billing_period period date r =
     (if period = QUARTERLY then Inr (get_quarter_start date, get_quarter_end date)
      else if period = ANNUAL then annual_period (rs_created r) date
      else Inr (month_start (dt_date date), month_end (dt_date date)))"

definition should_process_billing :: "limit_period \<Rightarrow> datetime \<Rightarrow> billing_resource \<Rightarrow> bool" where
  "should_process_billing period date r =
     (if period = QUARTERLY then cd_month (dt_date date) \<in> {1, 4, 7, 10}
      else if period = ANNUAL then cd_month (dt_date date) = cd_month (dt_date (rs_created r))
      else True)"

subsection \<open>The item of a period\<close>

definition items_of :: "billing_db \<Rightarrow> nat \<Rightarrow> string \<Rightarrow> billing_item list" where
  "items_of db resource t = filter (\<lambda>i. bi_resource i = Some resource \<and> bi_component_type i = t) (bd_items db)"

definition get_total_quantity :: "units \<Rightarrow> rat \<Rightarrow> datetime \<Rightarrow> datetime \<Rightarrow> rat" where
  "get_total_quantity u v start stop = (if u = PER_DAY then v * of_int (get_full_days start stop) else v)"

text \<open>\<open>order_by("-end").first()\<close>.\<close>

fun latest :: "billing_item list \<Rightarrow> billing_item option" where
  "latest [] = None"
| "latest (i # is) = (case latest is of
       None \<Rightarrow> Some i | Some j \<Rightarrow> if before (bi_end i) (bi_end j) then Some j else Some i)"

definition closed_items :: "billing_db \<Rightarrow> nat \<Rightarrow> billing_plan \<Rightarrow> string \<Rightarrow> nat \<Rightarrow> datetime \<Rightarrow> billing_item list" where
  "closed_items db resource p t invoice start =
     filter (\<lambda>i. bi_invoice i = invoice \<and> bi_plan_uuid i = Some (bp_uuid p) \<and> bi_limit_periods i \<noteq> None \<and>
                 0 \<le> bi_unit_price i \<and> before (bi_end i) start) (items_of db resource t)"

definition reopened :: "datetime \<Rightarrow> datetime \<Rightarrow> rat \<Rightarrow> billing_item \<Rightarrow> billing_item" where
  "reopened start stop q i =
     (let ps = the (bi_limit_periods i) @ [serialize_resource_limit_period start stop q];
          i = i\<lparr>bi_limit_periods := Some ps, bi_end := stop\<rparr>
      in i\<lparr>bi_quantity := quantity_from_limit_periods i\<rparr>)"

definition reopen_closed_item ::
    "billing_resource \<Rightarrow> billing_plan \<Rightarrow> offering_component \<Rightarrow> nat \<Rightarrow> datetime \<Rightarrow> datetime \<Rightarrow> rat
     \<Rightarrow> billing_db \<Rightarrow> billing_db option" where
  "reopen_closed_item r p c invoice start stop q db =
     map_option (\<lambda>i. save_item (reopened start stop q i) db)
       (latest (closed_items db (rs_pk r) p (oc_type c) invoice start))"

definition limit_item ::
    "billing_resource \<Rightarrow> billing_plan \<Rightarrow> billed_component \<Rightarrow> offering_component \<Rightarrow> nat \<Rightarrow> datetime \<Rightarrow> datetime
     \<Rightarrow> billing_item" where
  "limit_item r p pc c invoice start stop =
     (let e = resolve_for p c;
          q = convert_quantity (get_default (rs_limits r) (oc_type c) 0) (bo_type (rs_offering r)) (oc_type c) None;
          is_total = ef_billing_type e = LIMIT \<and> ef_limit_period e = TOTAL
      in \<lparr>bi_pk = 0, bi_invoice = invoice, bi_resource = Some (rs_pk r), bi_project = rs_project r,
          bi_plan_component = Some (bc_pk pc), bi_unit_price = bc_price pc,
          bi_unit = (if is_total then QUANTITY else bp_unit p),
          bi_quantity = (if is_total then q else get_total_quantity (bp_unit p) q start stop),
          bi_measured_unit = ef_measured_unit e, bi_start = start, bi_end = stop,
          bi_plan_uuid = Some (bp_uuid p), bi_component_type = oc_type c,
          bi_limit_periods = Some [serialize_resource_limit_period start stop q], bi_limit_total = is_total,
          bi_discount_usage = Some q, bi_is_discount = False, bi_is_compensation = False,
          bi_discount_of = None, bi_discount_percent = None, bi_supplementary = False, bi_campaign = None,
          bi_plan_period = None, bi_overage = False\<rparr>)"

definition create_limit_item ::
    "billing_resource \<Rightarrow> billing_plan \<Rightarrow> billed_component \<Rightarrow> nat \<Rightarrow> datetime \<Rightarrow> datetime \<Rightarrow> billing_db \<Rightarrow> billing_db" where
  "create_limit_item r p pc invoice start stop db =
     (case bc_component pc of
        None \<Rightarrow> db
      | Some c \<Rightarrow>
          let e = resolve_for p c;
              is_total = ef_billing_type e = LIMIT \<and> ef_limit_period e = TOTAL;
              limit = get_default (rs_limits r) (oc_type c) 0;
              q = convert_quantity limit (bo_type (rs_offering r)) (oc_type c) None
          in if is_total \<and> items_of db (rs_pk r) (oc_type c) \<noteq> [] then db
             else if limit = 0 \<or> limit = - 1 then db
             else (case (if is_total then None else reopen_closed_item r p c invoice start stop q db) of
                     Some db' \<Rightarrow> db'
                   | None \<Rightarrow> add_item (limit_item r p pc c invoice start stop) db))"

definition process_creation ::
    "billing_resource \<Rightarrow> billing_plan \<Rightarrow> billed_component \<Rightarrow> offering_component \<Rightarrow> nat \<Rightarrow> datetime \<Rightarrow> datetime
     \<Rightarrow> order_type option \<Rightarrow> billing_db \<Rightarrow> (billing_error, billing_db) result" where
  "process_creation r p pc c invoice start stop kind db =
     (let period = ef_limit_period (resolve_for p c)
      in if period = TOTAL
         then Inr (if kind = Some CREATE then create_limit_item r p pc invoice start stop db else db)
         else if \<not> should_process_billing period start r then Inr db
         else if period \<in> {QUARTERLY, ANNUAL}
           then rbind (get_billing_period period start r) (\<lambda>(s, e). Inr (create_limit_item r p pc invoice s e db))
         else Inr (create_limit_item r p pc invoice start stop db))"

subsection \<open>A changed limit\<close>

definition split_bounds :: "rat \<Rightarrow> rat \<Rightarrow> datetime \<Rightarrow> datetime \<times> datetime" where
  "split_bounds old_quantity new_quantity clock =
     (if old_quantity > new_quantity
      then let old_end = replace_time 23 59 59 clock in (old_end, plus_second old_end)
      else let new_start = replace_time 0 0 0 clock in (minus_second new_start, new_start))"

definition weighted_over :: "billing_item \<Rightarrow> limit_row list \<Rightarrow> rat" where
  "weighted_over i periods =
     sum_list (map (\<lambda>p. lp_quantity p * of_int (period_days p) / of_int (get_full_days (bi_start i) (bi_end i))) periods)"

text \<open>The item after its last period was split at \<open>clock\<close>; \<open>period_end\<close> ends the new one.\<close>

definition prorated ::
    "units \<Rightarrow> datetime \<Rightarrow> rat \<Rightarrow> datetime \<Rightarrow> limit_row list \<Rightarrow> limit_row \<Rightarrow> billing_item \<Rightarrow> billing_item" where
  "prorated u clock new_quantity period_end earlier old i =
     (let (old_end, new_start) = split_bounds (lp_quantity old) new_quantity clock;
          periods = earlier @ [serialize_resource_limit_period (lp_start old) old_end (lp_quantity old),
                               serialize_resource_limit_period new_start period_end new_quantity];
          total_days = get_full_days (bi_start i) (bi_end i);
          q = (if u = PER_DAY
               then sum_list (map (\<lambda>p. get_total_quantity u (lp_quantity p) (lp_start p) (lp_end p)) periods)
               else if total_days > 0 then weighted_over i periods
               else 0);
          usage = (case bi_discount_usage i of
                     None \<Rightarrow> None
                   | Some v \<Rightarrow> Some (if total_days > 0 then weighted_over i periods else v))
      in i\<lparr>bi_limit_periods := Some periods, bi_quantity := q, bi_discount_usage := usage\<rparr>)"

definition component_of_type :: "string \<Rightarrow> billed_component \<Rightarrow> bool" where
  "component_of_type t pc \<longleftrightarrow> (case bc_component pc of None \<Rightarrow> False | Some c \<Rightarrow> oc_type c = t)"

definition update_invoice_item ::
    "datetime \<Rightarrow> billing_resource \<Rightarrow> string \<Rightarrow> nat \<Rightarrow> rat \<Rightarrow> billing_db \<Rightarrow> (billing_error, billing_db) result" where
  "update_invoice_item clock r t invoice new_limit db =
     (case rs_plan r of
        None \<Rightarrow> Inr db
      | Some p \<Rightarrow>
          rbind (get_row (\<lambda>i. bi_plan_uuid i = Some (bp_uuid p) \<and> bi_invoice i = invoice \<and> 0 \<le> bi_unit_price i)
                   (items_of db (rs_pk r) t)) (\<lambda>i.
          case bi_limit_periods i of
            None \<Rightarrow> Inl Lookup_failed
          | Some [] \<Rightarrow> Inl Lookup_failed
          | Some periods \<Rightarrow>
              let old = last periods;
                  new_quantity = convert_quantity new_limit (bo_type (rs_offering r)) t None
              in if lp_quantity old = new_quantity then Inr db
                 else rbind (get_row (\<lambda>c. oc_type c = t) (bo_components (rs_offering r))) (\<lambda>c.
                      rbind (get_billing_period (limit_period_for c r) clock r) (\<lambda>(_, period_end).
                      rbind (get_row (component_of_type t) (bp_components p)) (\<lambda>_.
                      Inr (save_item (prorated (bp_unit p) clock new_quantity period_end (butlast periods) old i) db))))))"

definition create_or_update_invoice_item ::
    "datetime \<Rightarrow> billing_resource \<Rightarrow> nat \<Rightarrow> string \<Rightarrow> rat \<Rightarrow> billing_db \<Rightarrow> (billing_error, billing_db) result" where
  "create_or_update_invoice_item clock r invoice t new_limit db =
     (case rs_plan r of
        None \<Rightarrow> Inr db
      | Some p \<Rightarrow>
          if list_ex (\<lambda>i. bi_invoice i = invoice) (items_of db (rs_pk r) t)
          then update_invoice_item clock r t invoice new_limit db
          else (case get_row (component_of_type t) (bp_components p) of
                  Inl No_row \<Rightarrow> Inr db
                | Inl e \<Rightarrow> Inl e
                | Inr pc \<Rightarrow>
                    let period = limit_period_for (the (bc_component pc)) r
                    in rbind (get_billing_period period clock r) (\<lambda>(start, stop).
                       let period_invoice = (if period \<in> {QUARTERLY, ANNUAL}
                             then first_row (\<lambda>v. bv_customer v = rs_customer r \<and> bv_year v = cd_year (dt_date start)
                                               \<and> bv_month v = cd_month (dt_date start)) (bd_invoices db)
                             else None)
                       in case period_invoice of
                            Some v \<Rightarrow>
                              if bv_pk v \<noteq> invoice \<and> list_ex (\<lambda>i. bi_invoice i = bv_pk v) (items_of db (rs_pk r) t)
                              then update_invoice_item clock r t (bv_pk v) new_limit db
                              else Inr (create_limit_item r p pc invoice start stop db)
                          | None \<Rightarrow> Inr (create_limit_item r p pc invoice start stop db))))"

subsection \<open>A total limit\<close>

definition signed_quantity :: "billing_item \<Rightarrow> rat" where
  "signed_quantity i = (if bi_unit_price i < 0 then - bi_quantity i else bi_quantity i)"

definition billed_total :: "billing_db \<Rightarrow> nat \<Rightarrow> string \<Rightarrow> rat" where
  "billed_total db resource t = sum_list (map signed_quantity (filter (\<lambda>i. \<not> bi_is_discount i) (items_of db resource t)))"

definition difference_item ::
    "datetime \<Rightarrow> datetime \<Rightarrow> billing_resource \<Rightarrow> billing_plan \<Rightarrow> billed_component \<Rightarrow> nat \<Rightarrow> string \<Rightarrow> rat \<Rightarrow> billing_item" where
  "difference_item start stop r p pc invoice t diff =
     \<lparr>bi_pk = 0, bi_invoice = invoice, bi_resource = Some (rs_pk r), bi_project = rs_project r,
      bi_plan_component = Some (bc_pk pc), bi_unit_price = (if diff > 0 then bc_price pc else - bc_price pc),
      bi_unit = QUANTITY, bi_quantity = (if diff > 0 then diff else - diff),
      bi_measured_unit = (case bc_component pc of Some c \<Rightarrow> ef_measured_unit (resolve_for p c) | None \<Rightarrow> ''''),
      bi_start = start, bi_end = stop, bi_plan_uuid = Some (bp_uuid p), bi_component_type = t,
      bi_limit_periods = None, bi_limit_total = False, bi_discount_usage = Some diff, bi_is_discount = False,
      bi_is_compensation = False, bi_discount_of = None, bi_discount_percent = None, bi_supplementary = False,
      bi_campaign = None, bi_plan_period = None, bi_overage = False\<rparr>"

definition create_total_item ::
    "datetime \<Rightarrow> billing_resource \<Rightarrow> nat \<Rightarrow> string \<Rightarrow> rat \<Rightarrow> offering_component \<Rightarrow> billing_db
     \<Rightarrow> (billing_error, billing_db) result" where
  "create_total_item clock r invoice t new_quantity c db =
     (if rs_state r \<noteq> RES_OK then Inr db
      else case rs_plan r of
             None \<Rightarrow> Inr db
           | Some p \<Rightarrow>
               let diff = new_quantity - billed_total db (rs_pk r) t
               in if diff = 0 then Inr db
                  else (case get_row (component_of_type t) (bp_components p) of
                          Inl No_row \<Rightarrow> Inr db
                        | Inl e \<Rightarrow> Inl e
                        | Inr pc \<Rightarrow>
                            rbind (get_billing_period (limit_period_for c r) clock r) (\<lambda>(_, stop).
                              Inr (add_item (difference_item clock stop r p pc invoice t diff) db))))"

definition process_update ::
    "datetime \<Rightarrow> billing_resource \<Rightarrow> nat \<Rightarrow> string \<Rightarrow> rat \<Rightarrow> billing_db \<Rightarrow> (billing_error, billing_db) result" where
  "process_update clock r invoice t new_quantity db =
     rbind (get_row (\<lambda>c. oc_type c = t) (bo_components (rs_offering r))) (\<lambda>c.
       if limit_period_for c r = TOTAL then create_total_item clock r invoice t new_quantity c db
       else create_or_update_invoice_item clock r invoice t new_quantity db)"

end
