(* ===== verification/Promotions.thy ===== *)
theory Promotions
  imports Billing_Model
begin

text \<open>
  Discount campaigns, \<^verbatim>\<open>promotions/models.py\<close> and \<^verbatim>\<open>promotions/handlers.py\<close>: whether a resource meets the
  conditions of a campaign, linking it to the campaign, the price of a month under the linked campaigns,
  and the application of a campaign to open invoices when it is activated.
\<close>

subsection \<open>Prices\<close>

definition get_discount_price :: "campaign \<Rightarrow> rat \<Rightarrow> rat" where
  "get_discount_price cm price =
     (if cm_discount_type cm = DISCOUNT then price * of_int (100 - cm_discount cm) / 100
      else of_int (cm_discount cm))"

text \<open>
  The month a campaign ends for a resource: \<open>datetime.date\<close> raises \<open>ValueError\<close> outside the months
  1 to 12, and dates of the first day are compared by year and month.
\<close>

definition discount_end :: "campaign \<Rightarrow> discounted_resource \<Rightarrow> (billing_error, nat \<times> nat) result" where
  "discount_end cm dr =
     (let m = int (cd_month (dr_created dr)) + int (cm_months cm) - 1
      in if 1 \<le> m \<and> m \<le> 12 then Inr (cd_year (dr_created dr), nat m) else Inl Invalid_date)"

definition month_after :: "nat \<times> nat \<Rightarrow> nat \<times> nat \<Rightarrow> bool" where
  "month_after a b \<longleftrightarrow> fst b < fst a \<or> (fst b = fst a \<and> snd b < snd a)"

definition find_campaign :: "billing_db \<Rightarrow> nat \<Rightarrow> (billing_error, campaign) result" where
  "find_campaign db pk = get_row (\<lambda>cm. cm_pk cm = pk) (bd_campaigns db)"

text \<open>The loop carries the discount found so far and the price, which every campaign lowers further.\<close>

definition discount_step ::
    "billing_db \<Rightarrow> nat \<times> nat \<Rightarrow> (nat option \<times> rat) \<times> rat \<Rightarrow> discounted_resource
     \<Rightarrow> (billing_error, (nat option \<times> rat) \<times> rat) result" where
  "discount_step db month acc dr =
     (case acc of (discount, price) \<Rightarrow>
        rbind (find_campaign db (dr_campaign dr)) (\<lambda>cm.
        rbind (discount_end cm dr) (\<lambda>until.
          if month_after month until then Inr acc
          else let price = get_discount_price cm price
               in Inr ((if fst discount = None \<or> snd discount > price then (Some (cm_pk cm), price) else discount),
                       price))))"

definition get_discount_for_resource ::
    "billing_db \<Rightarrow> nat \<Rightarrow> nat \<times> nat \<Rightarrow> rat \<Rightarrow> (billing_error, nat option \<times> rat) result" where
  "get_discount_for_resource db resource month price =
     rbind (rfold (discount_step db month) ((None, price), price)
              (filter (\<lambda>dr. dr_resource dr = resource) (bd_discounted db)))
       (\<lambda>(discount, _). Inr discount)"

subsection \<open>Conditions\<close>

definition other_offerings :: "billing_db \<Rightarrow> nat \<Rightarrow> nat list" where
  "other_offerings db customer =
     map (\<lambda>r. bo_pk (rs_offering r))
       (filter (\<lambda>r. rs_state r \<noteq> RES_TERMINATED \<and> rs_customer r = customer) (bd_resources db))"

text \<open>
  The stock is compared with \<open>DiscountedResource.objects(campaign=self)\<close>: a manager cannot be called.
\<close>

definition meets_conditions :: "billing_db \<Rightarrow> campaign \<Rightarrow> billing_resource \<Rightarrow> (billing_error, bool) result" where
  "meets_conditions db cm r =
     (if bo_pk (rs_offering r) \<in> set (cm_offerings cm) \<and>
         (cm_required_offerings cm = [] \<or>
          list_all (\<lambda>o'. o' \<in> set (other_offerings db (rs_customer r))) (cm_required_offerings cm))
      then (if cm_stock cm = None \<or> cm_stock cm = Some 0 then Inr True else Inl Not_callable)
      else Inr False)"

subsection \<open>Linking resources\<close>

definition date_le :: "cdate \<Rightarrow> cdate \<Rightarrow> bool" where
  "date_le a b \<longleftrightarrow> ordinal a \<le> ordinal b"

definition applicable_campaigns :: "billing_db \<Rightarrow> datetime \<Rightarrow> string \<Rightarrow> campaign list" where
  "applicable_campaigns db created coupon =
     filter (\<lambda>cm. cm_state cm = ACTIVE_CAMPAIGN \<and> date_le (cm_start_date cm) (dt_date created) \<and>
                  date_le (dt_date created) (cm_end_date cm) \<and> (cm_coupon cm = '''' \<or> cm_coupon cm = coupon))
       (bd_campaigns db)"

definition link_resource :: "datetime \<Rightarrow> nat \<Rightarrow> nat \<Rightarrow> billing_db \<Rightarrow> billing_db" where
  "link_resource clock cm resource db =
     db\<lparr>bd_discounted := bd_discounted db @ [\<lparr>dr_campaign = cm, dr_resource = resource, dr_created = dt_date clock\<rparr>]\<rparr>"

definition get_or_link :: "datetime \<Rightarrow> nat \<Rightarrow> nat \<Rightarrow> billing_db \<Rightarrow> (billing_error, billing_db) result" where
  "get_or_link clock cm resource db =
     (case get_row (\<lambda>dr. dr_campaign dr = cm \<and> dr_resource dr = resource) (bd_discounted db) of
        Inl No_row \<Rightarrow> Inr (link_resource clock cm resource db)
      | Inl e \<Rightarrow> Inl e
      | Inr _ \<Rightarrow> Inr db)"

definition create_discounted_resource_on_activation ::
    "datetime \<Rightarrow> billing_resource \<Rightarrow> (billing_error, billing_db, unit) eff" where
  "create_discounted_resource_on_activation clock r =
     (case rs_coupon r of
        None \<Rightarrow> ereturn ()
      | Some coupon \<Rightarrow>
          ebind (eread (\<lambda>db. applicable_campaigns db (rs_created r) coupon))
            (eiter (\<lambda>cm. estep (\<lambda>db. rbind (meets_conditions db cm r) (\<lambda>ok.
               if ok then get_or_link clock (cm_pk cm) (rs_pk r) db else Inr db)))))"

subsection \<open>Activating a campaign\<close>

definition reprice_item :: "billing_db \<Rightarrow> campaign \<Rightarrow> billing_item \<Rightarrow> (billing_error, billing_item) result" where
  "reprice_item db cm i =
     (case Option.bind (bi_resource i) (\<lambda>pk. first_row (\<lambda>r. rs_pk r = pk) (bd_resources db)) of
        None \<Rightarrow> Inl None_attribute
      | Some r \<Rightarrow>
          rbind (meets_conditions db cm r) (\<lambda>ok.
            let base = (case bi_campaign i of Some (_, price) \<Rightarrow> price | None \<Rightarrow> bi_unit_price i);
                price = get_discount_price cm base
            in Inr (if ok \<and> price < bi_unit_price i
                    then i\<lparr>bi_unit_price := price, bi_campaign := Some (cm_pk cm, base)\<rparr> else i)))"

definition in_opening_month :: "billing_db \<Rightarrow> campaign \<Rightarrow> billing_item \<Rightarrow> bool" where
  "in_opening_month db cm i \<longleftrightarrow>
     list_ex (\<lambda>v. bv_pk v = bi_invoice i \<and> bv_state v \<in> set MUTABLE_STATES \<and>
                  bv_year v = cd_year (cm_start_date cm) \<and> bv_month v = cd_month (cm_start_date cm)) (bd_invoices db)"

text \<open>
  The \<open>post_save\<close> handler of a campaign.  \<open>changed\<close> is \<open>tracker.has_changed("state")\<close>; the saves of one
  item do not change the rows the next item is compared with.
\<close>

definition apply_campaign_to_pending_invoices ::
    "datetime \<Rightarrow> bool \<Rightarrow> bool \<Rightarrow> campaign \<Rightarrow> (billing_error, billing_db, unit) eff" where
  "apply_campaign_to_pending_invoices clock created changed cm =
     (if created \<or> \<not> changed \<or> cm_state cm \<noteq> ACTIVE_CAMPAIGN \<or> \<not> cm_auto_apply cm then ereturn ()
      else ethen
        (ebind (eread (\<lambda>db. filter (\<lambda>r. rs_state r = RES_OK) (bd_resources db)))
          (eiter (\<lambda>r. estep (\<lambda>db. rbind (meets_conditions db cm r) (\<lambda>ok.
             Inr (if ok then link_resource clock (cm_pk cm) (rs_pk r) db else db))))))
        (ebind (eread (\<lambda>db. filter (in_opening_month db cm) (bd_items db)))
          (eiter (\<lambda>i. estep (\<lambda>db. rbind (reprice_item db cm i) (\<lambda>i. Inr (save_item i db)))))))"

subsection \<open>What a campaign does\<close>

text \<open>The months a campaign gives, as one link: from the month of the link for \<open>cm_months\<close> months.\<close>

lemma single_link_price:
  assumes "filter (\<lambda>d. dr_resource d = resource) (bd_discounted db) = [dr]"
    and "find_campaign db (dr_campaign dr) = Inr cm"
    and "discount_end cm dr = Inr until"
  shows "get_discount_for_resource db resource month price =
     Inr (if month_after month until then (None, price) else (Some (cm_pk cm), get_discount_price cm price))"
  using assms by (simp add: get_discount_for_resource_def discount_step_def Let_def)

lemma bad_link_raises:
  assumes "dr \<in> set (bd_discounted db)" "dr_resource dr = resource"
    and "\<And>d. d \<in> set (bd_discounted db) \<Longrightarrow> \<exists>cm. find_campaign db (dr_campaign d) = Inr cm"
    and "find_campaign db (dr_campaign dr) = Inr cm"
    and "12 < cd_month (dr_created dr) + cm_months cm - 1 \<or> cd_month (dr_created dr) + cm_months cm = 1"
  shows "get_discount_for_resource db resource month price = Inl Invalid_date"
proof -
  let ?links = "filter (\<lambda>d. dr_resource d = resource) (bd_discounted db)"
  have bad: "discount_step db month acc dr = Inl Invalid_date" for acc
    using assms(4,5) by (auto simp: discount_step_def discount_end_def split: prod.split)
  have only: "e = Invalid_date" if "d \<in> set ?links" "discount_step db month acc d = Inl e" for d acc e
    using that assms(3) [of d]
    by (auto simp: discount_step_def discount_end_def Let_def split: prod.splits if_splits)
  have "rfold (discount_step db month) acc ds = Inl Invalid_date"
    if "dr \<in> set ds" "set ds \<subseteq> set ?links" for ds acc
    using that
  proof (induction ds arbitrary: acc)
    case (Cons d ds)
    show ?case
    proof (cases "discount_step db month acc d")
      case (Inl e)
      then show ?thesis using only [of d acc e] Cons.prems by simp
    next
      case (Inr acc')
      then have "d \<noteq> dr" using bad [of acc] by auto
      then show ?thesis using Inr Cons by simp
    qed
  qed simp
  moreover have "dr \<in> set ?links" using assms(1,2) by simp
  ultimately show ?thesis by (simp add: get_discount_for_resource_def)
qed

text \<open>A stock limit makes the conditions raise instead of limiting anything.\<close>

lemma stock_raises:
  assumes "bo_pk (rs_offering r) \<in> set (cm_offerings cm)" "cm_required_offerings cm = []" "cm_stock cm = Some (Suc n)"
  shows "meets_conditions db cm r = Inl Not_callable"
  using assms by (simp add: meets_conditions_def)

end
