(* ===== verification/Billing_Service.thy ===== *)
theory Billing_Service
  imports Limit_Billing Promotions
begin

text \<open>
  \<open>MarketplaceBillingService\<close> of \<^verbatim>\<open>marketplace/billing.py\<close>: the invoice of a month, the items a resource
  gets on it, and what happens when a resource is created, terminated, switched to another plan or
  given other limits.  \<open>relativedelta\<close> is an argument.  Blocks under \<open>transaction.atomic()\<close> are
  \<open>atomic\<close>; elsewhere a raise keeps the writes before it.
\<close>

type_synonym 'a billing = "(billing_error, billing_db, 'a) eff"

subsection \<open>Components billed without a limit\<close>

record charge =
  ch_unit_price :: rat
  ch_unit :: units
  ch_quantity :: rat
  ch_volume :: rat

definition by_factor :: "billing_resource \<Rightarrow> string \<Rightarrow> rat \<Rightarrow> (billing_error, rat) result" where
  "by_factor r t limit =
     (let factor = get_default (bo_factors (rs_offering r)) t 1
      in if factor = 1 then Inr limit else if factor = 0 then Inl Zero_division else Inr (limit / of_nat factor))"

definition simple_charge ::
    "relative_delta \<Rightarrow> billing_resource \<Rightarrow> billing_plan \<Rightarrow> billed_component \<Rightarrow> offering_component
     \<Rightarrow> datetime \<Rightarrow> datetime \<Rightarrow> (billing_error, charge) result" where
  "simple_charge relativedelta r p pc c start stop =
     (let e = resolve_for p c;
          amount = of_nat (bc_amount pc)
      in if ef_billing_type e = FIXED
         then (case get_quantity (bp_unit p) start stop of
                 None \<Rightarrow> Inl Diverges
               | Some q \<Rightarrow> Inr \<lparr>ch_unit_price = bc_price pc * amount, ch_unit = bp_unit p, ch_quantity = q,
                              ch_volume = amount\<rparr>)
         else if ef_billing_type e = ONE_TIME \<and> ef_is_prepaid e
         then rbind (by_factor r (oc_type c) (get_default (rs_limits r) (oc_type c) 0)) (\<lambda>q.
                Inr \<lparr>ch_unit_price = bc_price pc, ch_unit = QUANTITY,
                     ch_quantity = (case rs_end_date r of
                         None \<Rightarrow> q
                       | Some d \<Rightarrow> q * of_int (calculate_duration_months relativedelta (ordinal (dt_date start)) (ordinal d))),
                     ch_volume = q\<rparr>)
         else Inr \<lparr>ch_unit_price = bc_price pc, ch_unit = QUANTITY, ch_quantity = amount, ch_volume = amount\<rparr>)"

definition is_charged :: "order_type option \<Rightarrow> effective_component \<Rightarrow> bool" where
  "is_charged kind e \<longleftrightarrow> ef_billing_type e = FIXED \<or> (ef_billing_type e = ONE_TIME \<and> kind = Some CREATE) \<or>
     (ef_billing_type e = ON_PLAN_SWITCH \<and> kind = Some UPDATE)"

definition simple_item ::
    "billing_resource \<Rightarrow> billing_plan \<Rightarrow> billed_component \<Rightarrow> offering_component \<Rightarrow> nat \<Rightarrow> datetime \<Rightarrow> datetime
     \<Rightarrow> charge \<Rightarrow> nat option \<times> rat \<Rightarrow> billing_item" where
  "simple_item r p pc c invoice start stop ch discount =
     \<lparr>bi_pk = 0, bi_invoice = invoice, bi_resource = Some (rs_pk r), bi_project = rs_project r,
      bi_plan_component = Some (bc_pk pc), bi_unit_price = snd discount, bi_unit = ch_unit ch,
      bi_quantity = ch_quantity ch, bi_measured_unit = ef_measured_unit (resolve_for p c),
      bi_start = start, bi_end = stop, bi_plan_uuid = Some (bp_uuid p), bi_component_type = oc_type c,
      bi_limit_periods = None, bi_limit_total = False, bi_discount_usage = Some (ch_volume ch),
      bi_is_discount = False, bi_is_compensation = False, bi_discount_of = None, bi_discount_percent = None,
      bi_supplementary = False, bi_campaign = map_option (\<lambda>cm. (cm, ch_unit_price ch)) (fst discount),
      bi_plan_period = None, bi_overage = False\<rparr>"

definition process_simple_billing_component ::
    "relative_delta \<Rightarrow> datetime \<Rightarrow> billing_resource \<Rightarrow> billing_plan \<Rightarrow> billed_component \<Rightarrow> offering_component
     \<Rightarrow> billing_invoice \<Rightarrow> datetime \<Rightarrow> datetime \<Rightarrow> order_type option \<Rightarrow> unit billing" where
  "process_simple_billing_component relativedelta clock r p pc c v start stop kind =
     ewhen (is_charged kind (resolve_for p c))
       (ebind (elift (simple_charge relativedelta r p pc c start stop)) (\<lambda>ch.
        ethen (create_discounted_resource_on_activation clock r)
          (estep (\<lambda>db. rbind (get_discount_for_resource db (rs_pk r) (bv_year v, bv_month v) (ch_unit_price ch))
             (\<lambda>discount. Inr (add_item (simple_item r p pc c (bv_pk v) start stop ch discount) db))))))"

subsection \<open>The items of a resource and the invoice of a month\<close>

definition process_resource ::
    "relative_delta \<Rightarrow> datetime \<Rightarrow> billing_resource \<Rightarrow> billing_invoice \<Rightarrow> datetime \<Rightarrow> datetime
     \<Rightarrow> order_type option \<Rightarrow> unit billing" where
  "process_resource relativedelta clock r v start stop kind =
     (case rs_plan r of
        None \<Rightarrow> ereturn ()
      | Some p \<Rightarrow>
          ewhen (bo_billable (rs_offering r))
            (eiter (\<lambda>pc. case bc_component pc of
                           None \<Rightarrow> ereturn ()
                         | Some c \<Rightarrow>
                             if ef_billing_type (resolve_for p c) = LIMIT
                             then estep (process_creation r p pc c (bv_pk v) start stop kind)
                             else process_simple_billing_component relativedelta clock r p pc c v start stop kind)
               (bp_components p)))"

text \<open>The date of an invoice is a moment or a day: \<open>isinstance(date, datetime.datetime)\<close>.\<close>

datatype billing_date = Moment datetime | Day cdate

definition day_of :: "billing_date \<Rightarrow> cdate" where
  "day_of d = (case d of Moment t \<Rightarrow> dt_date t | Day d \<Rightarrow> d)"

definition invoice_of :: "nat \<Rightarrow> cdate \<Rightarrow> billing_invoice \<Rightarrow> bool" where
  "invoice_of customer d v \<longleftrightarrow> bv_customer v = customer \<and> bv_month v = cd_month d \<and> bv_year v = cd_year d"

definition new_invoice :: "nat \<Rightarrow> cdate \<Rightarrow> nat \<Rightarrow> billing_invoice" where
  "new_invoice customer d pk =
     \<lparr>bv_pk = pk, bv_customer = customer, bv_year = cd_year d, bv_month = cd_month d, bv_state = PENDING_INVOICE\<rparr>"

definition add_invoice :: "billing_invoice \<Rightarrow> billing_db \<Rightarrow> billing_db" where
  "add_invoice v db = db\<lparr>bd_invoices := bd_invoices db @ [v], bd_next := bd_next db + 1\<rparr>"

definition billed_resources :: "nat \<Rightarrow> billing_db \<Rightarrow> billing_resource list" where
  "billed_resources customer db =
     filter (\<lambda>r. rs_customer r = customer \<and> rs_state r \<notin> {RES_CREATING, RES_TERMINATED} \<and>
                 bo_billable (rs_offering r)) (bd_resources db)"

definition get_or_create_invoice ::
    "relative_delta \<Rightarrow> datetime \<Rightarrow> nat \<Rightarrow> billing_date \<Rightarrow> order_type option \<Rightarrow> (billing_invoice \<times> bool) billing" where
  "get_or_create_invoice relativedelta clock customer date kind =
     ebind (eread (\<lambda>db. first_row (invoice_of customer (day_of date)) (bd_invoices db))) (\<lambda>found.
       case found of
         Some v \<Rightarrow> ereturn (v, False)
       | None \<Rightarrow>
           ebind (eread (\<lambda>db. new_invoice customer (day_of date) (bd_next db))) (\<lambda>v.
           ethen (ewrite (add_invoice v))
          (ebind (eread (billed_resources customer)) (\<lambda>rs.
           let start = (case date of Moment t \<Rightarrow> t | Day d \<Rightarrow> month_start d);
               stop = month_end (day_of date)
           in ethen (eiter (\<lambda>r. process_resource relativedelta clock r v start stop kind) rs)
                (ereturn (v, True))))))"

subsection \<open>Events of a resource\<close>

definition register :: "relative_delta \<Rightarrow> datetime \<Rightarrow> billing_resource \<Rightarrow> order_type option \<Rightarrow> unit billing" where
  "register relativedelta clock r kind =
     atomic (ebind (get_or_create_invoice relativedelta clock (rs_customer r) (Moment clock) kind) (\<lambda>(v, created).
       ewhen (\<not> created) (process_resource relativedelta clock r v clock (month_end (dt_date clock)) kind)))"

definition running_items :: "datetime \<Rightarrow> billing_resource \<Rightarrow> billing_db \<Rightarrow> billing_item list" where
  "running_items clock r db =
     filter (\<lambda>i. bi_resource i = Some (rs_pk r) \<and> bi_end i = month_end (dt_date clock) \<and>
                 list_ex (\<lambda>v. bv_pk v = bi_invoice i \<and> invoice_of (rs_customer r) (dt_date clock) v \<and>
                              bv_state v \<in> set MUTABLE_STATES) (bd_invoices db)) (bd_items db)"

definition terminate_billing :: "relative_delta \<Rightarrow> datetime \<Rightarrow> billing_resource \<Rightarrow> unit billing" where
  "terminate_billing relativedelta clock r =
     atomic (ethen (get_or_create_invoice relativedelta clock (rs_customer r) (Moment clock) None)
       (ebind (eread (running_items clock r))
         (eiter (\<lambda>i. estep (\<lambda>db. rbind (terminate_item db clock i) (\<lambda>i. Inr (save_item i db)))))))"

definition handle_resource_creation :: "relative_delta \<Rightarrow> datetime \<Rightarrow> billing_resource \<Rightarrow> unit billing" where
  "handle_resource_creation relativedelta clock r = register relativedelta clock r (Some CREATE)"

definition handle_resource_termination :: "relative_delta \<Rightarrow> datetime \<Rightarrow> billing_resource \<Rightarrow> unit billing" where
  "handle_resource_termination relativedelta clock r = terminate_billing relativedelta clock r"

definition handle_plan_change :: "relative_delta \<Rightarrow> datetime \<Rightarrow> billing_resource \<Rightarrow> unit billing" where
  "handle_plan_change relativedelta clock r =
     ethen (terminate_billing relativedelta clock r) (register relativedelta clock r (Some UPDATE))"

subsection \<open>Changed limits\<close>

text \<open>
  Where the previous limits are read: the latest UPDATE order (with or without \<open>old_limits\<close> in its
  attributes), the limits of the CREATE order, the field tracker.
\<close>

record limit_history =
  last_update :: "limits option option"
  create_limits :: limits
  tracked_limits :: limits

definition previous_limits :: "limit_history \<Rightarrow> limits option" where
  "previous_limits h =
     (case last_update h of
        Some (Some l) \<Rightarrow> Some l
      | _ \<Rightarrow> if create_limits h \<noteq> [] then Some (create_limits h)
             else if tracked_limits h \<noteq> [] then Some (tracked_limits h) else None)"

definition offering_view :: "billing_offering \<Rightarrow> offering_data" where
  "offering_view bo =
     \<lparr>off_pk = bo_pk bo, off_type = bo_type bo, off_components = bo_components bo, off_plans = []\<rparr>"

definition resolve_for_resource :: "billing_resource \<Rightarrow> resolved" where
  "resolve_for_resource r = resolved_plan (offering_view (rs_offering r)) (map_option bp_mode (rs_plan r))"

definition prepaid_components :: "resolved \<Rightarrow> (string, offering_component) dict" where
  "prepaid_components res =
     fold (\<lambda>e. dict_set (oc_type (ef_component e)) (ef_component e))
       (filter (\<lambda>e. ef_billing_type e = ONE_TIME \<and> ef_is_prepaid e) (map snd res)) []"

definition supplementary_item ::
    "datetime \<Rightarrow> billing_resource \<Rightarrow> billing_plan \<Rightarrow> billed_component \<Rightarrow> offering_component \<Rightarrow> nat \<Rightarrow> rat \<Rightarrow> int
     \<Rightarrow> billing_item" where
  "supplementary_item clock r p pc c invoice diff months =
     \<lparr>bi_pk = 0, bi_invoice = invoice, bi_resource = Some (rs_pk r), bi_project = rs_project r,
      bi_plan_component = Some (bc_pk pc), bi_unit_price = (if diff > 0 then bc_price pc else - bc_price pc),
      bi_unit = QUANTITY, bi_quantity = \<bar>diff\<bar> * of_int months,
      bi_measured_unit = ef_measured_unit (resolve_for p c), bi_start = clock, bi_end = month_end (dt_date clock),
      bi_plan_uuid = Some (bp_uuid p), bi_component_type = oc_type c, bi_limit_periods = None,
      bi_limit_total = False, bi_discount_usage = None, bi_is_discount = False, bi_is_compensation = False,
      bi_discount_of = None, bi_discount_percent = None, bi_supplementary = True, bi_campaign = None,
      bi_plan_period = None, bi_overage = False\<rparr>"

definition prepaid_limit_change ::
    "datetime \<Rightarrow> billing_resource \<Rightarrow> nat \<Rightarrow> limits \<Rightarrow> int \<Rightarrow> string \<times> offering_component
     \<Rightarrow> billing_db \<Rightarrow> (billing_error, billing_db) result" where
  "prepaid_limit_change clock r invoice old_limits months kc db =
     (case kc of (t, c) \<Rightarrow>
        let new_limit = get_default (rs_limits r) t 0; old_limit = get_default old_limits t 0
        in if old_limit = 0 \<or> new_limit = old_limit then Inr db
           else rbind (by_factor r t new_limit) (\<lambda>new_converted.
                rbind (by_factor r t old_limit) (\<lambda>old_converted.
                let diff = new_converted - old_converted
                in if diff = 0 then Inr db
                   else (case rs_plan r of
                           None \<Rightarrow> Inl None_attribute
                         | Some p \<Rightarrow>
                             rbind (get_row (\<lambda>pc. bc_component pc = Some c) (bp_components p)) (\<lambda>pc.
                             Inr (add_item (supplementary_item clock r p pc c invoice diff months) db))))))"

definition remaining_months :: "relative_delta \<Rightarrow> cdate \<Rightarrow> cdate \<Rightarrow> int" where
  "remaining_months relativedelta start end_date =
     (let (years, months, days) = relativedelta (ordinal end_date) (ordinal start)
      in years * 12 + months + (if days > 0 then 1 else 0))"

definition handle_prepaid_limits_change ::
    "relative_delta \<Rightarrow> datetime \<Rightarrow> billing_resource \<Rightarrow> nat \<Rightarrow> (string, offering_component) dict \<Rightarrow> limits
     \<Rightarrow> cdate \<Rightarrow> unit billing" where
  "handle_prepaid_limits_change relativedelta clock r invoice prepaid old_limits end_date =
     (let months = remaining_months relativedelta (dt_date clock) end_date
      in ewhen (0 < months)
           (eiter (\<lambda>kc. estep (prepaid_limit_change clock r invoice old_limits months kc)) prepaid))"

definition handle_limits_change ::
    "relative_delta \<Rightarrow> datetime \<Rightarrow> limit_history \<Rightarrow> billing_resource \<Rightarrow> unit billing" where
  "handle_limits_change relativedelta clock h r =
     ebind (get_or_create_invoice relativedelta clock (rs_customer r) (Moment (month_start (dt_date clock))) None)
       (\<lambda>(v, _).
       case previous_limits h of
         None \<Rightarrow> ereturn ()
       | Some old_limits \<Rightarrow>
           let res = resolve_for_resource r; prepaid = prepaid_components res
           in ethen (eiter (\<lambda>(t, q). ewhen (t \<in> set (limit_types res))
                              (estep (process_update clock r (bv_pk v) t q))) (rs_limits r))
                (case rs_end_date r of
                   None \<Rightarrow> ereturn ()
                 | Some d \<Rightarrow> ewhen (prepaid \<noteq> [])
                     (handle_prepaid_limits_change relativedelta clock r (bv_pk v) prepaid old_limits d)))"

text \<open>
  \<open>process_billing_on_resource_save\<close>: the saved resource, its previous state, and which fields changed.
\<close>

definition process_billing_on_resource_save ::
    "relative_delta \<Rightarrow> datetime \<Rightarrow> limit_history \<Rightarrow> bool \<Rightarrow> bool \<Rightarrow> resource_state \<Rightarrow> bool \<Rightarrow> bool
     \<Rightarrow> billing_resource \<Rightarrow> unit billing" where
  "process_billing_on_resource_save relativedelta clock h created skip previous plan_changed limits_changed r =
     (if created \<or> skip then ereturn ()
      else ethen (ewhen (rs_state r = RES_OK \<and> previous = RES_CREATING) (handle_resource_creation relativedelta clock r))
          (ethen (ewhen (rs_state r = RES_TERMINATED \<and> previous = RES_TERMINATING)
                    (handle_resource_termination relativedelta clock r))
          (ethen (ewhen (rs_state r \<noteq> RES_CREATING \<and> plan_changed) (handle_plan_change relativedelta clock r))
             (ewhen (rs_state r \<noteq> RES_CREATING \<and> limits_changed) (handle_limits_change relativedelta clock h r)))))"

end
