(* ===== verification/Limit_Billing_Facts.thy ===== *)
theory Limit_Billing_Facts
  imports Limit_Billing
begin

text \<open>
  The day counts of a limit item.  A limit change splits the last recorded period at the clock; the two
  parts have together the days of the whole, whatever the clock, so the periods of an item always count
  its days.  Charges follow: equal limits give the limit, a limit lowered and raised again on one day is
  charged above what it ever was.
\<close>

subsection \<open>Splitting a period\<close>

lemma replace_time_us:
  assumes "0 \<le> h" "h < 24" "0 \<le> m" "m < 60" "0 \<le> s" "s < 60"
  shows "dt_us (replace_time h m s t) = ((h * 60 + m) * 60 + s) * second_us + dt_us t mod second_us"
    and "dt_date (replace_time h m s t) = dt_date t"
    and "valid_datetime t \<Longrightarrow> valid_datetime (replace_time h m s t)"
proof -
  have r: "0 \<le> dt_us t mod second_us" "dt_us t mod second_us < second_us"
    by (simp_all add: second_us_def)
  have "h \<le> 23" "m \<le> 59" "s \<le> 59" using assms by simp_all
  then have "(h * 60 + m) * 60 + s \<le> 86399" by simp
  then have "((h * 60 + m) * 60 + s) * second_us \<le> 86399 * second_us"
    by (rule mult_right_mono) (simp add: second_us_def)
  moreover have "0 \<le> ((h * 60 + m) * 60 + s) * second_us" using assms by (simp add: second_us_def)
  ultimately show "valid_datetime t \<Longrightarrow> valid_datetime (replace_time h m s t)"
    using r by (simp add: valid_datetime_def replace_time_def day_us_def second_us_def)
qed (simp_all add: replace_time_def)

definition split_at :: "bool \<Rightarrow> datetime \<Rightarrow> datetime \<times> datetime" where
  "split_at lowered clock =
     (if lowered then (replace_time 23 59 59 clock, plus_second (replace_time 23 59 59 clock))
      else (minus_second (replace_time 0 0 0 clock), replace_time 0 0 0 clock))"

lemma split_bounds_eq: "split_bounds old new clock = split_at (new < old) clock"
  by (simp add: split_bounds_def split_at_def Let_def)

definition moment_ok :: "datetime \<Rightarrow> bool" where
  "moment_ok t \<longleftrightarrow> valid_datetime t \<and> 1 < cd_year (dt_date t)"

text \<open>The parts, by day number and microsecond: the old one ends in the last second of a day.\<close>

lemma split_at_parts:
  assumes "moment_ok clock" and "split_at lowered clock = (old_end, new_start)"
  shows "ordinal (dt_date old_end) = ordinal (dt_date clock) - (if lowered then 0 else 1)"
    and "ordinal (dt_date new_start) = ordinal (dt_date clock) + (if lowered then 1 else 0)"
    and "dt_us old_end = day_us - second_us + dt_us clock mod second_us"
    and "dt_us new_start = dt_us clock mod second_us"
proof -
  have d: "valid_date (dt_date clock)" "1 < cd_year (dt_date clock)"
    using assms(1) by (simp_all add: moment_ok_def valid_datetime_def)
  have r: "0 \<le> dt_us clock mod second_us" "dt_us clock mod second_us < second_us"
    by (simp_all add: second_us_def)
  note us = replace_time_us(1,2) [of 23 59 59 clock] replace_time_us(1,2) [of 0 0 0 clock]
  have late: "dt_us (replace_time 23 59 59 clock) = day_us - second_us + dt_us clock mod second_us"
    using us by (simp add: day_us_def second_us_def)
  show "ordinal (dt_date old_end) = ordinal (dt_date clock) - (if lowered then 0 else 1)"
    and "dt_us old_end = day_us - second_us + dt_us clock mod second_us"
    using assms(2) r d us late
    by (auto simp: split_at_def minus_second_def ordinal_prev_day split: if_splits)
  show "ordinal (dt_date new_start) = ordinal (dt_date clock) + (if lowered then 1 else 0)"
    and "dt_us new_start = dt_us clock mod second_us"
    using assms(2) r d us late
    by (auto simp: split_at_def plus_second_def ordinal_next_day split: if_splits)
qed

text \<open>A period that starts before the last second of a day and ends at the last microsecond of one.\<close>

definition day_start :: "datetime \<Rightarrow> bool" where
  "day_start t \<longleftrightarrow> 0 \<le> dt_us t \<and> dt_us t < day_us - second_us"

definition day_end :: "datetime \<Rightarrow> bool" where
  "day_end t \<longleftrightarrow> dt_us t = day_us - 1"

lemma whole_days: "day_start s \<Longrightarrow> day_end e \<Longrightarrow> get_full_days s e = ordinal (dt_date e) - ordinal (dt_date s) + 1"
  by (subst full_days_eq) (simp_all add: day_start_def day_end_def day_us_def second_us_def)

lemma split_days:
  assumes "moment_ok clock" "split_at lowered clock = (old_end, new_start)" "day_start s" "day_end e"
  shows "get_full_days s old_end = ordinal (dt_date clock) - ordinal (dt_date s) + (if lowered then 1 else 0)"
    and "get_full_days new_start e = ordinal (dt_date e) - ordinal (dt_date clock) + (if lowered then 0 else 1)"
    and "day_start new_start"
proof -
  have r: "0 \<le> dt_us clock mod second_us" "dt_us clock mod second_us < second_us"
    by (simp_all add: second_us_def)
  note parts = split_at_parts [OF assms(1,2)]
  show "day_start new_start" using r parts(4) by (simp add: day_start_def day_us_def second_us_def)
  then show "get_full_days new_start e = ordinal (dt_date e) - ordinal (dt_date clock) + (if lowered then 0 else 1)"
    using whole_days [OF _ assms(4)] parts(2) by simp
  have "get_full_days s old_end = ordinal (dt_date old_end) - ordinal (dt_date s) + (if dt_us s < dt_us old_end then 1 else 0)"
    using assms(3) r parts(3) by (intro full_days_eq) (simp_all add: day_start_def day_us_def second_us_def)
  moreover have "dt_us s < dt_us old_end" using assms(3) r parts(3) by (simp add: day_start_def)
  ultimately show "get_full_days s old_end = ordinal (dt_date clock) - ordinal (dt_date s) + (if lowered then 1 else 0)"
    using parts(1) by simp
qed

lemma split_keeps_days:
  assumes "moment_ok clock" "split_at lowered clock = (old_end, new_start)" "day_start s" "day_end e"
  shows "get_full_days s old_end + get_full_days new_start e = get_full_days s e"
  using split_days [OF assms] whole_days [OF assms(3,4)] by simp

subsection \<open>The periods of an item count its days\<close>

lemma period_days_serialized [simp]:
  "period_days (serialize_resource_limit_period s e q) = get_full_days s e"
  "lp_start (serialize_resource_limit_period s e q) = s"
  "lp_end (serialize_resource_limit_period s e q) = e"
  "lp_quantity (serialize_resource_limit_period s e q) = q"
  "lp_total (serialize_resource_limit_period s e q) = q * of_int (get_full_days s e)"
  by (simp_all add: period_days_def serialize_resource_limit_period_def Let_def)

definition spans :: "datetime \<Rightarrow> billing_item \<Rightarrow> bool" where
  "spans stop i \<longleftrightarrow> bi_end i = stop \<and> day_start (bi_start i) \<and>
     (case bi_limit_periods i of
        None \<Rightarrow> False
      | Some ps \<Rightarrow> ps \<noteq> [] \<and> lp_end (last ps) = stop \<and> day_start (lp_start (last ps)) \<and>
          sum_list (map period_days ps) = get_full_days (bi_start i) stop)"

lemma prorated_fields [simp]:
  "bi_pk (prorated u clock q stop ps old i) = bi_pk i"
  "bi_resource (prorated u clock q stop ps old i) = bi_resource i"
  "bi_component_type (prorated u clock q stop ps old i) = bi_component_type i"
  "bi_plan_uuid (prorated u clock q stop ps old i) = bi_plan_uuid i"
  "bi_invoice (prorated u clock q stop ps old i) = bi_invoice i"
  "bi_unit_price (prorated u clock q stop ps old i) = bi_unit_price i"
  "bi_start (prorated u clock q stop ps old i) = bi_start i"
  "bi_end (prorated u clock q stop ps old i) = bi_end i"
  by (simp_all add: prorated_def Let_def split: prod.split)

lemma prorated_periods:
  assumes "split_at (q < lp_quantity old) clock = (old_end, new_start)"
  shows "bi_limit_periods (prorated u clock q stop ps old i) =
     Some (ps @ [serialize_resource_limit_period (lp_start old) old_end (lp_quantity old),
                 serialize_resource_limit_period new_start stop q])"
  using assms by (simp add: prorated_def split_bounds_eq Let_def)

lemma prorated_spans:
  assumes "spans stop i" "bi_limit_periods i = Some ps" "day_end stop" "moment_ok clock"
  shows "spans stop (prorated u clock q stop (butlast ps) (last ps) i)"
proof -
  let ?old = "last ps"
  obtain old_end new_start where split: "split_at (q < lp_quantity ?old) clock = (old_end, new_start)"
    by (metis surj_pair)
  have i: "ps \<noteq> []" "lp_end ?old = stop" "day_start (lp_start ?old)"
      "sum_list (map period_days ps) = get_full_days (bi_start i) stop" "bi_end i = stop" "day_start (bi_start i)"
    using assms(1,2) by (simp_all add: spans_def)
  note days = split_keeps_days [OF assms(4) split i(3) assms(3)] and new = split_days(3) [OF assms(4) split i(3) assms(3)]
  have "sum_list (map period_days ps) = sum_list (map period_days (butlast ps)) + period_days ?old"
    by (subst append_butlast_last_id [OF i(1), symmetric], subst map_append) simp
  then show ?thesis
    using i days new by (simp add: spans_def prorated_periods [OF split] period_days_def [of ?old])
qed

subsection \<open>A limit change on the database\<close>

definition billed_on :: "billing_resource \<Rightarrow> billing_plan \<Rightarrow> string \<Rightarrow> nat \<Rightarrow> billing_item \<Rightarrow> bool" where
  "billed_on r p t invoice i \<longleftrightarrow> bi_resource i = Some (rs_pk r) \<and> bi_component_type i = t \<and>
     bi_plan_uuid i = Some (bp_uuid p) \<and> bi_invoice i = invoice \<and> 0 \<le> bi_unit_price i"

lemma get_row_Inr: "get_row p rows = Inr r \<longleftrightarrow> filter p rows = [r]"
  by (auto simp: get_row_def split: list.split)

lemma get_row_of_items: "get_row (\<lambda>i. bi_plan_uuid i = Some (bp_uuid p) \<and> bi_invoice i = invoice \<and> 0 \<le> bi_unit_price i)
     (items_of db (rs_pk r) t) = get_row (billed_on r p t invoice) (bd_items db)"
  unfolding get_row_def items_of_def filter_filter by (simp add: billed_on_def [abs_def] conj_ac)

lemma billed_on_prorated [simp]:
  "billed_on r p t invoice (prorated u clock q stop ps old i) = billed_on r p t invoice i"
  by (simp add: billed_on_def)

definition ends_period :: "billing_resource \<Rightarrow> string \<Rightarrow> datetime \<Rightarrow> datetime \<Rightarrow> bool" where
  "ends_period r t stop clock \<longleftrightarrow>
     (case get_row (\<lambda>c. oc_type c = t) (bo_components (rs_offering r)) of
        Inl _ \<Rightarrow> True
      | Inr c \<Rightarrow> (case get_billing_period (limit_period_for c r) clock r of Inl _ \<Rightarrow> True | Inr (_, e) \<Rightarrow> e = stop))"

lemma update_invoice_item_saves:
  assumes "update_invoice_item clock r t invoice new_limit db = Inr db'" and "rs_plan r = Some p"
    and "ends_period r t stop clock"
  obtains "db' = db" "\<And>i ps. get_row (billed_on r p t invoice) (bd_items db) = Inr i \<Longrightarrow> bi_limit_periods i = Some ps \<Longrightarrow>
              lp_quantity (last ps) = convert_quantity new_limit (bo_type (rs_offering r)) t None"
  | i ps where "get_row (billed_on r p t invoice) (bd_items db) = Inr i" "bi_limit_periods i = Some ps" "ps \<noteq> []"
      "lp_quantity (last ps) \<noteq> convert_quantity new_limit (bo_type (rs_offering r)) t None"
      "db' = save_item (prorated (bp_unit p) clock (convert_quantity new_limit (bo_type (rs_offering r)) t None) stop
                          (butlast ps) (last ps) i) db"
proof -
  from assms(1,2) obtain i where row: "get_row (billed_on r p t invoice) (bd_items db) = Inr i"
    unfolding update_invoice_item_def get_row_of_items by (auto simp: rbind_eq_Inr)
  from assms(1,2) row obtain ps where ps: "bi_limit_periods i = Some ps" "ps \<noteq> []"
    unfolding update_invoice_item_def get_row_of_items by (auto split: option.splits list.splits)
  let ?q = "convert_quantity new_limit (bo_type (rs_offering r)) t None"
  have run: "update_invoice_item clock r t invoice new_limit db =
      (if lp_quantity (last ps) = ?q then Inr db
       else rbind (get_row (\<lambda>c. oc_type c = t) (bo_components (rs_offering r))) (\<lambda>c.
            rbind (get_billing_period (limit_period_for c r) clock r) (\<lambda>(_, period_end).
            rbind (get_row (component_of_type t) (bp_components p)) (\<lambda>_.
            Inr (save_item (prorated (bp_unit p) clock ?q period_end (butlast ps) (last ps) i) db)))))"
    using assms(2) row ps unfolding update_invoice_item_def get_row_of_items by (cases ps) (simp_all add: Let_def)
  show thesis
  proof (cases "lp_quantity (last ps) = ?q")
    case True
    show thesis by (rule that(1)) (use True run assms(1) row ps in auto)
  next
    case False
    have "db' = save_item (prorated (bp_unit p) clock ?q stop (butlast ps) (last ps) i) db"
      using False run assms(1,3)
      by (auto simp: ends_period_def rbind_def split: sum.splits prod.splits)
    with row ps False show thesis by (rule that(2))
  qed
qed

lemma update_invoice_item_changed:
  assumes "update_invoice_item clock r t invoice new_limit db = Inr db'" "rs_plan r = Some p" "ends_period r t stop clock"
    and "get_row (billed_on r p t invoice) (bd_items db) = Inr i" "bi_limit_periods i = Some ps"
    and "convert_quantity new_limit (bo_type (rs_offering r)) t None = q" "lp_quantity (last ps) \<noteq> q"
  shows "db' = save_item (prorated (bp_unit p) clock q stop (butlast ps) (last ps) i) db"
  using assms(1-3)
proof (rule update_invoice_item_saves)
  assume "\<And>i ps. get_row (billed_on r p t invoice) (bd_items db) = Inr i \<Longrightarrow> bi_limit_periods i = Some ps \<Longrightarrow>
      lp_quantity (last ps) = convert_quantity new_limit (bo_type (rs_offering r)) t None"
  from this [OF assms(4,5)] assms(6,7) show ?thesis by simp
qed (use assms(4-6) in simp)

text \<open>Limit changes of one billing period, which ends at \<open>stop\<close>, at any moments and in any order.\<close>

inductive limit_step :: "billing_resource \<Rightarrow> string \<Rightarrow> nat \<Rightarrow> datetime \<Rightarrow> billing_db \<Rightarrow> billing_db \<Rightarrow> bool"
  for r t invoice stop where
  change: "update_invoice_item clock r t invoice new_limit db = Inr db' \<Longrightarrow> moment_ok clock
     \<Longrightarrow> ends_period r t stop clock \<Longrightarrow> limit_step r t invoice stop db db'"

inductive_cases limit_stepE: "limit_step r t invoice stop db db'"

definition spans_inv :: "billing_resource \<Rightarrow> billing_plan \<Rightarrow> string \<Rightarrow> nat \<Rightarrow> datetime \<Rightarrow> billing_db \<Rightarrow> bool" where
  "spans_inv r p t invoice stop db \<longleftrightarrow> rs_plan r = Some p \<and> day_end stop \<and>
     list_all (\<lambda>i. billed_on r p t invoice i \<longrightarrow> spans stop i) (bd_items db)"

lemma spans_step:
  assumes "spans_inv r p t invoice stop db" "limit_step r t invoice stop db db'"
  shows "spans_inv r p t invoice stop db'"
  using assms(2)
proof (rule limit_stepE)
  fix clock new_limit
  assume run: "update_invoice_item clock r t invoice new_limit db = Inr db'"
    and clock: "moment_ok clock" and stop: "ends_period r t stop clock"
  have inv: "rs_plan r = Some p" "day_end stop"
      "\<And>i. i \<in> set (bd_items db) \<Longrightarrow> billed_on r p t invoice i \<Longrightarrow> spans stop i"
    using assms(1) by (auto simp: spans_inv_def list_all_iff)
  from run inv(1) stop show ?thesis
  proof (rule update_invoice_item_saves)
    assume "db' = db" then show ?thesis using assms(1) by simp
  next
    fix i ps
    let ?j = "prorated (bp_unit p) clock (convert_quantity new_limit (bo_type (rs_offering r)) t None) stop
                (butlast ps) (last ps) i"
    assume row: "get_row (billed_on r p t invoice) (bd_items db) = Inr i" and ps: "bi_limit_periods i = Some ps"
      and db': "db' = save_item ?j db"
    have "i \<in> set (filter (billed_on r p t invoice) (bd_items db))" using row by (simp add: get_row_Inr)
    then have "spans stop i" using inv(3) by simp
    then have "spans stop ?j" using ps inv(2) clock by (rule prorated_spans)
    then show ?thesis
      using inv by (auto simp: spans_inv_def list_all_iff db' save_item_def set_update_rows)
  qed
qed

interpretation limit_changes: invariant_system "limit_step r t invoice stop" "spans_inv r p t invoice stop"
  for r t invoice stop p
  by unfold_locales (rule spans_step)

subsection \<open>Rows after a save\<close>

lemma filter_update_key:
  assumes "filter P xs = [x]" "distinct (map key xs)" "key y = key x"
  shows "filter P (update_rows (\<lambda>r. key r = key x) (\<lambda>_. y) xs) = (if P y then [y] else [])"
  using assms
proof (induction xs)
  case (Cons z zs)
  show ?case
  proof (cases "P z")
    case True
    then have z: "z = x" "filter P zs = []" using Cons.prems(1) by auto
    have "update_rows (\<lambda>r. key r = k) (\<lambda>_. y) us = us" if "k \<notin> key ` set us" for k us
      using that by (induction us) auto
    then have "update_rows (\<lambda>r. key r = key x) (\<lambda>_. y) zs = zs" using z Cons.prems(2) by simp
    then show ?thesis using z by simp
  next
    case False
    then have x: "filter P zs = [x]" using Cons.prems(1) by simp
    then have "x \<in> set zs" using list.set_intros(1) [of x "[]"] by (simp flip: x)
    then have "key z \<noteq> key x" using Cons.prems(2) by (auto simp: image_iff)
    then show ?thesis using False x Cons by simp
  qed
qed simp

lemma get_row_save:
  assumes "get_row P (bd_items db) = Inr i" "distinct (map bi_pk (bd_items db))" "bi_pk j = bi_pk i" "P j"
  shows "get_row P (bd_items (save_item j db)) = Inr j"
  using filter_update_key [of P "bd_items db" i bi_pk j] assms by (simp add: get_row_Inr save_item_def)

lemma get_row_in: "get_row P rows = Inr r \<Longrightarrow> r \<in> set rows \<and> P r"
proof -
  assume "get_row P rows = Inr r"
  then have "r \<in> set (filter P rows)" by (simp add: get_row_Inr)
  then show ?thesis by simp
qed

lemma distinct_save [simp]: "distinct (map bi_pk (bd_items (save_item j db))) = distinct (map bi_pk (bd_items db))"
  by (simp add: save_item_def) (subst map_update_rows_same, simp_all)

subsection \<open>The charge after limit changes\<close>

lemma sum_list_divide: "sum_list (map (\<lambda>x. f x / c) xs) = sum_list (map f xs) / (c :: rat)"
  by (induction xs) (simp_all add: add_divide_distrib)

lemma prorated_quantity:
  assumes "bi_limit_periods (prorated u clock q stop ps old i) = Some periods"
  shows "bi_quantity (prorated u clock q stop ps old i) =
     (if u = PER_DAY then sum_list (map (\<lambda>p. lp_quantity p * of_int (period_days p)) periods)
      else if 0 < get_full_days (bi_start i) (bi_end i)
      then sum_list (map (\<lambda>p. lp_quantity p * of_int (period_days p)) periods) / of_int (get_full_days (bi_start i) (bi_end i))
      else 0)"
  using assms
  by (auto simp: prorated_def Let_def weighted_over_def get_total_quantity_def period_days_def sum_list_divide add_divide_distrib
      split: prod.splits)

text \<open>
  Lowering a limit closes the old period at the end of the day and opens the next one tomorrow; raising
  it on the same day closes that one yesterday.  The period in between counts minus one day.
\<close>

lemma lowered_then_raised:
  assumes item: "bi_limit_periods i = Some [serialize_resource_limit_period (bi_start i) stop a]" "bi_end i = stop"
    and days: "day_start (bi_start i)" "day_end stop" "0 < get_full_days (bi_start i) stop"
    and clocks: "moment_ok c1" "moment_ok c2" "dt_date c2 = dt_date c1" and "b < a"
    and j: "j = prorated u c1 b stop [] (serialize_resource_limit_period (bi_start i) stop a) i"
    and ps: "bi_limit_periods j = Some ps"
  shows "lp_quantity (last ps) = b" "ps \<noteq> []"
    and "bi_quantity (prorated u c2 a stop (butlast ps) (last ps) j) =
      (let n = of_int (get_full_days (bi_start i) stop)
       in if u = PER_DAY then a * n + (a - b) else a + (a - b) / n)"
proof -
  let ?n = "get_full_days (bi_start i) stop"
  obtain old1 new1 where s1: "split_at True c1 = (old1, new1)" by (metis surj_pair)
  obtain old2 new2 where s2: "split_at False c2 = (old2, new2)" by (metis surj_pair)
  have s1': "split_at (b < lp_quantity (serialize_resource_limit_period (bi_start i) stop a)) c1 = (old1, new1)"
    using s1 \<open>b < a\<close> by simp
  have ps': "ps = [serialize_resource_limit_period (bi_start i) old1 a, serialize_resource_limit_period new1 stop b]"
    using ps by (simp add: j prorated_periods [OF s1'])
  then show "lp_quantity (last ps) = b" "ps \<noteq> []" by simp_all
  have s2': "split_at (a < lp_quantity (last ps)) c2 = (old2, new2)"
    using s2 \<open>b < a\<close> by (simp add: ps')
  note d1 = split_days [OF clocks(1) s1 days(1,2)]
  note d2 = split_days [OF clocks(2) s2 d1(3) days(2)]
  have new1: "ordinal (dt_date new1) = ordinal (dt_date c1) + 1" using split_at_parts(2) [OF clocks(1) s1] by simp
  have n: "?n = ordinal (dt_date stop) - ordinal (dt_date (bi_start i)) + 1" by (rule whole_days [OF days(1,2)])
  let ?p3 = "[serialize_resource_limit_period (bi_start i) old1 a, serialize_resource_limit_period new1 old2 b,
              serialize_resource_limit_period new2 stop a]"
  have p3: "bi_limit_periods (prorated u c2 a stop (butlast ps) (last ps) j) = Some ?p3"
    using prorated_periods [OF s2', of u stop "butlast ps" j] by (simp add: ps')
  have "sum_list (map (\<lambda>p. lp_quantity p * of_int (period_days p)) ?p3) = a * of_int ?n + (a - b)"
  proof -
    have "get_full_days (bi_start i) old1 + get_full_days new2 stop = ?n + 1"
      using d1(1) d2(2) n clocks(3) by simp
    then have "rat_of_int (get_full_days (bi_start i) old1) + rat_of_int (get_full_days new2 stop) = rat_of_int ?n + 1"
      by (metis of_int_add of_int_1)
    moreover have "get_full_days new1 old2 = - 1" using d2(1) new1 clocks(3) by simp
    ultimately show ?thesis by (simp add: flip: distrib_left) (simp add: distrib_left)
  qed
  then show "bi_quantity (prorated u c2 a stop (butlast ps) (last ps) j) =
      (let n = of_int ?n in if u = PER_DAY then a * n + (a - b) else a + (a - b) / n)"
    using days(3) item(2) prorated_quantity [OF p3] by (simp add: j add_divide_distrib)
qed

end
