(* ===== verification/Limit_Billing_Outcomes.thy ===== *)
theory Limit_Billing_Outcomes
  imports Limit_Billing_Facts
begin

text \<open>
  What the operations of \<open>LimitPeriodProcessor\<close> do on every branch the properties use: the anniversary
  period, the creation or continuation of a period's item, and the item of a total limit.
\<close>

subsection \<open>The anniversary period\<close>

definition leap_day :: "datetime \<Rightarrow> bool" where
  "leap_day t \<longleftrightarrow> cd_month (dt_date t) = 2 \<and> cd_day (dt_date t) = 29"

lemma replace_year_valid:
  assumes "valid_datetime t" "\<not> leap_day t" "1 \<le> y"
  shows "replace_year y t = Some (t\<lparr>dt_date := (dt_date t)\<lparr>cd_year := y\<rparr>\<rparr>)"
  using assms by (auto simp: replace_year_def valid_datetime_def valid_date_def leap_day_def Let_def days_in_month_def
      split: if_splits)

lemma replace_same_year: "valid_datetime t \<Longrightarrow> replace_year (cd_year (dt_date t)) t = Some t"
  by (simp add: replace_year_def valid_datetime_def)

lemma leap_day_raises:
  assumes "leap_day created" "valid_datetime created"
  shows "annual_period created date = Inl Invalid_date"
proof -
  have leap: "is_leap y" if "replace_year y created = Some s" for y s
    using that assms(1) by (auto simp: replace_year_def valid_date_def leap_day_def days_in_month_def Let_def split: if_splits)
  have next_common: "\<not> is_leap (Suc y)" if "is_leap y" for y
  proof -
    have "y mod 4 = 0" using that by (simp add: is_leap_def)
    then have "Suc y mod 4 = 1" by (simp add: mod_Suc)
    then show ?thesis by (simp add: is_leap_def)
  qed
  have "replace_year (Suc (cd_year (dt_date s))) s = None" if s: "replace_year y created = Some s" for y s
  proof -
    have "is_leap (cd_year (dt_date s))" "leap_day s"
      using leap [OF s] s assms(1) by (auto simp: replace_year_def leap_day_def Let_def split: if_splits)
    then show ?thesis
      using next_common [of "cd_year (dt_date s)"]
      by (auto simp: replace_year_def valid_date_def leap_day_def days_in_month_def Let_def)
  qed
  then show ?thesis
    by (auto simp: annual_period_def Let_def split: option.split)
qed

definition anniversary_end :: "datetime \<Rightarrow> datetime" where
  "anniversary_end t = minus_second (t\<lparr>dt_date := (dt_date t)\<lparr>cd_year := cd_year (dt_date t) + 1\<rparr>\<rparr>)"

lemma first_annual_period:
  assumes "valid_datetime created" "\<not> leap_day created" "cd_year (dt_date c) = cd_year (dt_date created)"
    and "\<not> before c created"
  shows "annual_period created c = Inr (created, anniversary_end created)"
  using assms replace_year_valid [OF assms(1,2), of "cd_year (dt_date created) + 1"] replace_same_year [OF assms(1)]
  by (simp add: annual_period_def anniversary_end_def Let_def)

definition next_anniversary_month :: "datetime \<Rightarrow> datetime" where
  "next_anniversary_month t = month_start ((dt_date t)\<lparr>cd_year := cd_year (dt_date t) + 1\<rparr>)"

lemma second_annual_period:
  assumes "valid_datetime created" "\<not> leap_day created" "created \<noteq> month_start (dt_date created)"
  shows "annual_period created (next_anniversary_month created) = Inr (created, anniversary_end created)"
proof -
  let ?d = "dt_date created" and ?y = "cd_year (dt_date created)"
  let ?next = "created\<lparr>dt_date := ?d\<lparr>cd_year := ?y + 1\<rparr>\<rparr>"
  have d: "1 \<le> cd_day ?d" "0 \<le> dt_us created" "1 \<le> ?y" using assms(1) by (simp_all add: valid_datetime_def valid_date_def)
  have y: "replace_year (?y + 1) created = Some ?next" by (rule replace_year_valid [OF assms(1,2)]) simp
  have "1 < cd_day ?d \<or> 0 < dt_us created"
    using assms(3) d by (cases created; cases ?d) (auto simp: month_start_def)
  then have "0 < (int (cd_day ?d) - 1) * day_us + dt_us created"
    using d by (auto simp: day_us_def)
  moreover have "micros ?next = to_ordinal (?y + 1) (cd_month ?d) 1 * day_us + (int (cd_day ?d) - 1) * day_us + dt_us created"
    using ordinal_day [of "?y + 1" "cd_month ?d" "cd_day ?d"] ordinal_day [of "?y + 1" "cd_month ?d" 1]
    by (simp add: micros_def ordinal_def algebra_simps)
  moreover have "micros (next_anniversary_month created) = to_ordinal (?y + 1) (cd_month ?d) 1 * day_us"
    by (simp add: next_anniversary_month_def month_start_def micros_def ordinal_def)
  ultimately have "before (next_anniversary_month created) ?next"
    by (simp add: before_def)
  then show ?thesis
    using y d replace_same_year [OF assms(1)]
    by (simp add: annual_period_def next_anniversary_month_def month_start_def anniversary_end_def Let_def)
qed

subsection \<open>The item of a period\<close>

lemma latest_in: "latest is = Some i \<Longrightarrow> i \<in> set is"
  by (induction "is" arbitrary: i) (auto split: option.splits if_splits)

lemma latest_None [simp]: "latest is = None \<longleftrightarrow> is = []"
  by (induction "is") (auto split: option.splits)

definition is_limited :: "billing_plan \<Rightarrow> offering_component \<Rightarrow> bool" where
  "is_limited p c \<longleftrightarrow> ef_billing_type (resolve_for p c) = LIMIT \<and> ef_limit_period (resolve_for p c) \<noteq> TOTAL"

definition limit_quantity :: "billing_resource \<Rightarrow> offering_component \<Rightarrow> rat" where
  "limit_quantity r c =
     convert_quantity (get_default (rs_limits r) (oc_type c) 0) (bo_type (rs_offering r)) (oc_type c) None"

definition has_limit :: "billing_resource \<Rightarrow> offering_component \<Rightarrow> bool" where
  "has_limit r c \<longleftrightarrow> get_default (rs_limits r) (oc_type c) 0 \<notin> {0, - 1}"

lemma limit_item_created:
  assumes "bc_component pc = Some c" "is_limited p c" "has_limit r c"
    and "closed_items db (rs_pk r) p (oc_type c) invoice start = []"
  shows "create_limit_item r p pc invoice start stop db = add_item (limit_item r p pc c invoice start stop) db"
  using assms by (simp add: create_limit_item_def is_limited_def has_limit_def reopen_closed_item_def Let_def)

lemma limit_item_continued:
  assumes "bc_component pc = Some c" "is_limited p c" "has_limit r c"
    and "latest (closed_items db (rs_pk r) p (oc_type c) invoice start) = Some i"
  shows "create_limit_item r p pc invoice start stop db = save_item (reopened start stop (limit_quantity r c) i) db"
  using assms
  by (simp add: create_limit_item_def is_limited_def has_limit_def limit_quantity_def reopen_closed_item_def Let_def)

lemma quantity_of_equal_limits:
  assumes "bi_limit_periods i = Some ps" "\<And>p. p \<in> set ps \<Longrightarrow> lp_quantity p = q \<and> lp_total p = q * of_int (period_days p)"
    and "0 < sum_list (map period_days ps)"
  shows "quantity_from_limit_periods i =
     (if bi_unit i = PER_DAY then q * of_int (sum_list (map period_days ps)) else quantize_price q)"
proof -
  have sums: "sum_list (map lp_total ps) = q * of_int (sum_list (map period_days ps))"
      "sum_list (map (\<lambda>p. lp_quantity p * of_int (period_days p)) ps) = q * of_int (sum_list (map period_days ps))"
    using assms(2) by (induction ps) (simp_all add: distrib_left)
  have "rat_of_int (sum_list (map period_days ps)) \<noteq> 0" using assms(3) by (metis of_int_eq_0_iff less_irrefl)
  then show ?thesis
    using assms(1,3) sums by (simp add: quantity_from_limit_periods_def Let_def)
qed

lemma reopened_quantity:
  assumes "bi_limit_periods i = Some ps" "\<And>p. p \<in> set ps \<Longrightarrow> lp_quantity p = q \<and> lp_total p = q * of_int (period_days p)"
    and "0 < sum_list (map period_days ps) + get_full_days start stop"
  shows "bi_quantity (reopened start stop q i) =
     (if bi_unit i = PER_DAY then q * of_int (sum_list (map period_days ps) + get_full_days start stop)
      else quantize_price q)"
proof -
  let ?ps = "ps @ [serialize_resource_limit_period start stop q]"
  let ?i = "i\<lparr>bi_limit_periods := Some ?ps, bi_end := stop\<rparr>"
  have "quantity_from_limit_periods ?i =
     (if bi_unit ?i = PER_DAY then q * of_int (sum_list (map period_days ?ps)) else quantize_price q)"
    by (rule quantity_of_equal_limits) (use assms in auto)
  then show ?thesis using assms(1) by (simp add: reopened_def Let_def)
qed

lemma reopened_fields [simp]:
  "bi_pk (reopened start stop q i) = bi_pk i" "bi_end (reopened start stop q i) = stop"
  by (simp_all add: reopened_def Let_def)

subsection \<open>A total limit\<close>

lemma items_of_add: "items_of (add_item i db) k t =
    items_of db k t @ (if bi_resource i = Some k \<and> bi_component_type i = t then [i\<lparr>bi_pk := bd_next db\<rparr>] else [])"
  by (simp add: items_of_def add_item_def)

lemma signed_quantity_pk [simp]: "signed_quantity (i\<lparr>bi_pk := n\<rparr>) = signed_quantity i"
  by (simp add: signed_quantity_def)

lemma billed_total_add:
  "billed_total (add_item i db) k t =
     billed_total db k t + (if bi_resource i = Some k \<and> bi_component_type i = t \<and> \<not> bi_is_discount i then signed_quantity i else 0)"
  by (simp add: billed_total_def items_of_add)

lemma signed_difference: "0 < bc_price pc \<Longrightarrow> signed_quantity (difference_item start stop r p pc invoice t diff) = diff"
  by (simp add: signed_quantity_def difference_item_def)

lemma difference_billed:
  assumes "0 < bc_price pc"
  shows "billed_total (add_item (difference_item start stop r p pc invoice t diff) db) (rs_pk r) t =
     billed_total db (rs_pk r) t + diff"
  using signed_difference [OF assms, of start stop r p invoice t diff]
  by (simp add: billed_total_add) (simp add: difference_item_def)

text \<open>The compensations of a finalized invoice, one line for each of some items.\<close>

definition compensate_lines :: "rat \<Rightarrow> datetime \<Rightarrow> datetime \<Rightarrow> billing_item list \<Rightarrow> billing_db \<Rightarrow> billing_db" where
  "compensate_lines cost start stop is db = fold add_item (map (compensation_line cost start stop) is) db"

lemma compensations_billed:
  assumes "0 < cost" "\<And>i. i \<in> set is \<Longrightarrow> bi_resource i = Some k \<and> bi_component_type i = t \<and> \<not> bi_is_discount i"
  shows "billed_total (compensate_lines cost start stop is db) k t = billed_total db k t - of_nat (length is)"
  using assms(2)
proof (induction "is" arbitrary: db)
  case (Cons i "is")
  have "signed_quantity (compensation_line cost start stop i) = - 1"
    using assms(1) by (simp add: signed_quantity_def compensation_line_def)
  moreover have "billed_total (compensate_lines cost start stop (i # is) db) k t =
      billed_total (add_item (compensation_line cost start stop i) db) k t - of_nat (length is)"
    using Cons by (simp add: compensate_lines_def)
  ultimately show ?case
    using Cons.prems by (simp add: billed_total_add) (simp add: compensation_line_def)
qed (simp add: compensate_lines_def)

end
