(* ===== verification/Billing_Facts.thy ===== *)
theory Billing_Facts
  imports Billing_Service Limit_Billing_Outcomes
begin

text \<open>
  What every billing operation respects, whether it returns or raises: the invoices of a customer stay one
  per month, the items keep their identity and their invoice, and an operation on one resource leaves the
  items of the others alone.
\<close>

subsection \<open>The books\<close>

definition invoice_keys :: "billing_db \<Rightarrow> (nat \<times> nat \<times> nat) list" where
  "invoice_keys db = map (\<lambda>v. (bv_customer v, bv_year v, bv_month v)) (bd_invoices db)"

definition invoice_pks :: "billing_db \<Rightarrow> nat set" where
  "invoice_pks db = bv_pk ` set (bd_invoices db)"

definition billing_inv :: "billing_db \<Rightarrow> bool" where
  "billing_inv db \<longleftrightarrow> distinct (invoice_keys db) \<and> distinct (map bi_pk (bd_items db)) \<and>
     (\<forall>v\<in>set (bd_invoices db). bv_pk v < bd_next db) \<and>
     (\<forall>i\<in>set (bd_items db). bi_pk i < bd_next db \<and> bi_invoice i \<in> invoice_pks db)"

definition same_line :: "billing_item \<Rightarrow> billing_item \<Rightarrow> bool" where
  "same_line i j \<longleftrightarrow> bi_pk j = bi_pk i \<and> bi_invoice j = bi_invoice i \<and> bi_resource j = bi_resource i \<and>
     bi_component_type j = bi_component_type i"

definition covered :: "billing_item list \<Rightarrow> billing_item list \<Rightarrow> bool" where
  "covered is js \<longleftrightarrow> (\<forall>i\<in>set is. \<exists>j\<in>set js. same_line i j)"

definition kept :: "billing_db \<Rightarrow> billing_db \<Rightarrow> bool" where
  "kept s t \<longleftrightarrow> bd_next s \<le> bd_next t \<and> bd_resources t = bd_resources s \<and> bd_plans t = bd_plans s \<and>
     invoice_pks s \<subseteq> invoice_pks t \<and> covered (bd_items s) (bd_items t)"

text \<open>Items of resources outside \<open>T\<close> do not change; new items are put on invoice \<open>v\<close>.\<close>

definition billed :: "nat \<Rightarrow> nat option set \<Rightarrow> billing_db \<Rightarrow> billing_db \<Rightarrow> bool" where
  "billed v T s t \<longleftrightarrow>
     (billing_inv s \<and> v \<in> invoice_pks s \<longrightarrow>
      billing_inv t \<and> kept s t \<and>
      filter (\<lambda>i. bi_resource i \<notin> T) (bd_items t) = filter (\<lambda>i. bi_resource i \<notin> T) (bd_items s))"

lemma same_line_refl [simp]: "same_line i i"
  by (simp add: same_line_def)

lemma same_line_trans: "same_line i j \<Longrightarrow> same_line j k \<Longrightarrow> same_line i k"
  by (simp add: same_line_def)

lemma covered_sub: "set is \<subseteq> set js \<Longrightarrow> covered is js"
  unfolding covered_def using same_line_refl by blast

lemma covered_trans: "covered is js \<Longrightarrow> covered js ks \<Longrightarrow> covered is ks"
  unfolding covered_def using same_line_trans by meson

lemma kept_refl [simp]: "kept s s"
  by (simp add: kept_def covered_sub)

lemma kept_trans: "kept s t \<Longrightarrow> kept t u \<Longrightarrow> kept s u"
  unfolding kept_def using covered_trans by auto

lemma kept_pks: "kept s t \<Longrightarrow> v \<in> invoice_pks s \<Longrightarrow> v \<in> invoice_pks t"
  by (auto simp: kept_def)

interpretation books: state_order "billed v T" for v T
proof
  fix s t u
  show "billed v T s s" by (simp add: billed_def)
  assume st: "billed v T s t" and tu: "billed v T t u"
  show "billed v T s u"
  proof (cases "billing_inv s \<and> v \<in> invoice_pks s")
    case True
    then have t: "billing_inv t" "kept s t"
        "filter (\<lambda>i. bi_resource i \<notin> T) (bd_items t) = filter (\<lambda>i. bi_resource i \<notin> T) (bd_items s)"
      using st by (simp_all add: billed_def)
    then have u: "billing_inv u \<and> kept t u \<and>
        filter (\<lambda>i. bi_resource i \<notin> T) (bd_items u) = filter (\<lambda>i. bi_resource i \<notin> T) (bd_items t)"
      using tu True kept_pks by (simp add: billed_def)
    then show ?thesis using t kept_trans [of s t u] by (simp add: billed_def)
  qed (auto simp: billed_def)
qed

lemma billed_add:
  assumes "bi_invoice i = v" "bi_resource i \<in> T"
  shows "billed v T s (add_item i s)"
  using assms
  by (auto simp: billed_def billing_inv_def kept_def add_item_def invoice_keys_def invoice_pks_def less_Suc_eq
      intro!: covered_sub)

lemma billed_save:
  assumes "billing_inv s \<Longrightarrow> \<exists>i\<in>set (bd_items s). same_line i j" "bi_resource j \<in> T"
  shows "billed v T s (save_item j s)"
proof -
  have "billing_inv (save_item j s) \<and> kept s (save_item j s) \<and>
      filter (\<lambda>i. bi_resource i \<notin> T) (bd_items (save_item j s)) = filter (\<lambda>i. bi_resource i \<notin> T) (bd_items s)"
    if inv: "billing_inv s"
  proof -
    obtain i where i: "i \<in> set (bd_items s)" "same_line i j" using assms(1) inv by blast
    have only: "k = i" if "k \<in> set (bd_items s)" "bi_pk k = bi_pk j" for k
      using inv i that distinct_key_eq [of bi_pk "bd_items s" k i] by (simp add: billing_inv_def same_line_def)
    have items: "set (bd_items (save_item j s)) = (\<lambda>k. if bi_pk k = bi_pk j then j else k) ` set (bd_items s)"
      by (simp add: save_item_def set_update_rows)
    have pks: "map bi_pk (bd_items (save_item j s)) = map bi_pk (bd_items s)"
      by (simp add: save_item_def) (subst map_update_rows_same, simp_all)
    have others: "filter (\<lambda>i. bi_resource i \<notin> T) (bd_items (save_item j s)) = filter (\<lambda>i. bi_resource i \<notin> T) (bd_items s)"
    proof -
      have "filter (\<lambda>i. bi_resource i \<notin> T) (update_rows (\<lambda>r. bi_pk r = bi_pk j) (\<lambda>_. j) rows) = filter (\<lambda>i. bi_resource i \<notin> T) rows"
        if "set rows \<subseteq> set (bd_items s)" for rows
        using that
      proof (induction rows)
        case (Cons k rows)
        then have "bi_pk k = bi_pk j \<Longrightarrow> bi_resource k \<in> T"
          using only [of k] i(2) assms(2) by (auto simp: same_line_def)
        with Cons assms(2) show ?case by auto
      qed simp
      then show ?thesis by (simp add: save_item_def)
    qed
    have "bi_pk j < bd_next s \<and> bi_invoice j \<in> invoice_pks s"
      using inv i by (simp add: billing_inv_def same_line_def)
    then have "billing_inv (save_item j s)"
      using inv pks unfolding billing_inv_def items
      by (auto simp: save_item_def invoice_keys_def invoice_pks_def split: if_splits)
    moreover have "kept s (save_item j s)"
    proof -
      have "\<exists>l\<in>set (bd_items (save_item j s)). same_line k l" if k: "k \<in> set (bd_items s)" for k
      proof (cases "bi_pk k = bi_pk j")
        case True
        then show ?thesis using only [OF k] i k unfolding items by (auto intro!: image_eqI [of j _ i])
      next
        case False
        then show ?thesis using k unfolding items by (intro bexI [of _ k]) auto
      qed
      then show ?thesis by (simp add: kept_def covered_def save_item_def invoice_pks_def)
    qed
    ultimately show ?thesis using others by blast
  qed
  then show ?thesis by (simp add: billed_def)
qed

lemma billed_links: "billed v T s (s\<lparr>bd_discounted := ds\<rparr>)"
  by (auto simp: billed_def billing_inv_def kept_def invoice_keys_def invoice_pks_def intro!: covered_sub)

subsection \<open>Operations on one resource\<close>

lemma reopened_line [simp]: "same_line i (reopened start stop q i)" "bi_resource (reopened start stop q i) = bi_resource i"
  by (simp_all add: same_line_def reopened_def Let_def)

lemma prorated_line [simp]: "same_line i (prorated u clock q stop ps old i)"
  by (simp add: same_line_def)

lemma item_of_resource [simp]:
  "bi_resource (limit_item r p pc c v start stop) = Some (rs_pk r)" "bi_invoice (limit_item r p pc c v start stop) = v"
  "bi_resource (simple_item r p pc c v start stop ch d) = Some (rs_pk r)"
  "bi_invoice (simple_item r p pc c v start stop ch d) = v"
  "bi_resource (supplementary_item clock r p pc c v diff months) = Some (rs_pk r)"
  "bi_invoice (supplementary_item clock r p pc c v diff months) = v"
  "bi_resource (difference_item start stop r p pc v t diff) = Some (rs_pk r)"
  "bi_invoice (difference_item start stop r p pc v t diff) = v"
  by (simp_all add: limit_item_def simple_item_def supplementary_item_def difference_item_def Let_def)

lemma billed_create:
  assumes "Some (rs_pk r) \<in> T"
  shows "billed v T s (create_limit_item r p pc v start stop s)"
proof (cases "bc_component pc")
  case None
  then show ?thesis by (simp add: create_limit_item_def books.refl)
next
  case (Some c)
  have reopen: "billed v T s t" if "reopen_closed_item r p c v start stop q s = Some t" for q t
  proof -
    from that obtain i where i: "latest (closed_items s (rs_pk r) p (oc_type c) v start) = Some i"
        "t = save_item (reopened start stop q i) s"
      by (auto simp: reopen_closed_item_def)
    have "i \<in> set (bd_items s)" "bi_resource i = Some (rs_pk r)"
      using latest_in [OF i(1)] by (simp_all add: closed_items_def items_of_def)
    then show ?thesis unfolding i(2) using assms by (intro billed_save) (auto intro: bexI [of _ i])
  qed
  have add: "billed v T s (add_item (limit_item r p pc c v start stop) s)"
    by (rule billed_add) (simp_all add: assms)
  show ?thesis
    using Some reopen add by (auto simp: create_limit_item_def Let_def books.refl split: option.split)
qed

lemma billed_update_item:
  assumes "Some (rs_pk r) \<in> T" "update_invoice_item clock r t w q s = Inr s'"
  shows "billed v T s s'"
proof (cases "rs_plan r")
  case None
  then show ?thesis using assms(2) by (simp add: update_invoice_item_def books.refl)
next
  case (Some p)
  from assms(2) Some obtain i where row: "get_row (billed_on r p t w) (bd_items s) = Inr i"
    unfolding update_invoice_item_def get_row_of_items by (auto simp: rbind_eq_Inr)
  have i: "i \<in> set (bd_items s)" "bi_resource i = Some (rs_pk r)"
    using get_row_in [OF row] by (simp_all add: billed_on_def)
  have "billed v T s (save_item (prorated u clock n e ps old i) s)" for u n e ps old
    using i assms(1) by (intro billed_save) (auto intro: bexI [of _ i])
  then show ?thesis
    using assms(2) Some row unfolding update_invoice_item_def get_row_of_items
    by (auto simp: rbind_eq_Inr Let_def books.refl split: option.splits list.splits if_splits)
qed

lemma billed_update:
  assumes "Some (rs_pk r) \<in> T" "process_update clock r v t q s = Inr s'"
  shows "billed v T s s'"
proof -
  have total: "billed v T s s'" if "create_total_item clock r v t q c s = Inr s'" for c
    using that assms(1) unfolding create_total_item_def
    by (auto simp: Let_def rbind_eq_Inr books.refl billed_add split: if_splits option.splits sum.splits billing_error.splits)
  have item: "billed v T s s'" if "create_or_update_invoice_item clock r v t q s = Inr s'"
    using that assms(1) billed_update_item [OF assms(1), of clock t _ q s s' v]
    unfolding create_or_update_invoice_item_def
    by (auto simp: Let_def rbind_eq_Inr books.refl billed_create
        split: if_splits option.splits sum.splits billing_error.splits prod.splits)
  show ?thesis
    using assms(2) total item by (auto simp: process_update_def rbind_eq_Inr split: if_splits)
qed

lemma stays_link: "stays (billed v T) (create_discounted_resource_on_activation clock r)"
proof (cases "rs_coupon r")
  case None
  then show ?thesis by (simp add: create_discounted_resource_on_activation_def books.stays_return)
next
  case (Some coupon)
  have "billed v T s t" if "get_or_link clock cm k s = Inr t" for cm k s t
    using that billed_links [of v T s]
    by (auto simp: get_or_link_def link_resource_def books.refl split: sum.splits billing_error.splits)
  then show ?thesis
    using Some unfolding create_discounted_resource_on_activation_def
    by (auto simp: rbind_eq_Inr books.refl split: if_splits
        intro!: books.stays_bind books.stays_read books.stays_iter books.stays_step)
qed

lemma stays_simple:
  assumes "Some (rs_pk r) \<in> T" "bv_pk w = v"
  shows "stays (billed v T) (process_simple_billing_component rd clock r p pc c w start stop kind)"
  unfolding process_simple_billing_component_def
  using assms
  by (intro books.stays_when books.stays_bind books.stays_lift books.stays_then stays_link books.stays_step)
     (auto simp: rbind_eq_Inr intro!: billed_add)

lemma stays_resource:
  assumes "Some (rs_pk r) \<in> T" "bv_pk w = v"
  shows "stays (billed v T) (process_resource rd clock r w start stop kind)"
proof (cases "rs_plan r")
  case None
  then show ?thesis by (simp add: process_resource_def books.stays_return)
next
  case (Some p)
  have create: "stays (billed v T) (estep (process_creation r p pc c v start stop kind))" for pc c
    using billed_create [OF assms(1), of v]
    by (intro books.stays_step) (auto simp: process_creation_def rbind_eq_Inr Let_def books.refl split: if_splits prod.splits)
  show ?thesis
    using Some assms create unfolding process_resource_def
    by (auto intro!: books.stays_when books.stays_iter books.stays_return stays_simple split: option.split)
qed

subsection \<open>Whole events\<close>

definition accounts :: "billing_db \<Rightarrow> billing_db \<Rightarrow> bool" where
  "accounts s t \<longleftrightarrow> (billing_inv s \<longrightarrow> billing_inv t \<and> kept s t)"

interpretation accounts: state_order accounts
  by unfold_locales (auto simp: accounts_def intro: kept_trans)

lemma billed_accounts: "billed v T s t \<Longrightarrow> (billing_inv s \<Longrightarrow> v \<in> invoice_pks s) \<Longrightarrow> accounts s t"
  by (auto simp: billed_def accounts_def)

lemma stays_accounts: "stays (billed v T) m \<Longrightarrow> (billing_inv s \<Longrightarrow> v \<in> invoice_pks s) \<Longrightarrow> accounts s (snd (m s))"
  unfolding stays_def using billed_accounts by blast

lemma accounts_bind:
  assumes "accounts s (snd (m s))" and "\<And>x t. billing_inv s \<Longrightarrow> m s = (Inr x, t) \<Longrightarrow> accounts t (snd (f x t))"
  shows "accounts s (snd (ebind m f s))"
proof (cases "billing_inv s")
  case True
  show ?thesis
  proof (cases "m s")
    case (Pair a t)
    then show ?thesis using assms True accounts.trans [of s t] by (cases a) (auto simp: ebind_def)
  qed
qed (simp add: accounts_def)

lemma accounts_atomic: "accounts s (snd (m s)) \<Longrightarrow> accounts s (snd (atomic m s))"
  by (auto simp: atomic_def accounts.refl split: prod.split sum.split)

lemma accounts_then:
  assumes "accounts s (snd (m s))" and "\<And>x t. billing_inv s \<Longrightarrow> m s = (Inr x, t) \<Longrightarrow> accounts t (snd (n t))"
  shows "accounts s (snd (ethen m n s))"
  unfolding ethen_def using assms by (rule accounts_bind)

lemma add_invoice_accounts:
  assumes "first_row (invoice_of customer d) (bd_invoices s) = None" "billing_inv s"
  shows "billing_inv (add_invoice (new_invoice customer d (bd_next s)) s)"
    "kept s (add_invoice (new_invoice customer d (bd_next s)) s)"
    "bd_next s \<in> invoice_pks (add_invoice (new_invoice customer d (bd_next s)) s)"
  using assms
  by (auto simp: billing_inv_def add_invoice_def new_invoice_def invoice_keys_def invoice_pks_def kept_def
      first_row_None invoice_of_def less_Suc_eq intro!: covered_sub)

lemma get_or_create_accounts: "accounts s (snd (get_or_create_invoice rd clock customer date kind s))"
  and get_or_create_on_books: "get_or_create_invoice rd clock customer date kind s = (Inr (v, b), t) \<Longrightarrow> billing_inv s
     \<Longrightarrow> bv_pk v \<in> invoice_pks t"
proof -
  let ?w = "new_invoice customer (day_of date) (bd_next s)"
  let ?m = "eiter (\<lambda>r. process_resource rd clock r ?w (case date of Moment t \<Rightarrow> t | Day d \<Rightarrow> month_start d)
               (month_end (day_of date)) kind) (billed_resources customer (add_invoice ?w s))"
  have pk: "bv_pk ?w = bd_next s" by (simp add: new_invoice_def)
  have stays: "stays (billed (bd_next s) UNIV) ?m"
    by (intro books.stays_iter stays_resource) (simp_all add: pk)
  have new: "get_or_create_invoice rd clock customer date kind s = ethen ?m (ereturn (?w, True)) (add_invoice ?w s)"
    if "first_row (invoice_of customer (day_of date)) (bd_invoices s) = None"
    using that by (simp add: get_or_create_invoice_def ebind_def ethen_def ewrite_def eread_def)
  have made: "accounts (add_invoice ?w s) (snd (?m (add_invoice ?w s)))"
    if "first_row (invoice_of customer (day_of date)) (bd_invoices s) = None" "billing_inv s"
    using stays_accounts [OF stays] add_invoice_accounts(3) [OF that] by blast
  show "accounts s (snd (get_or_create_invoice rd clock customer date kind s))"
  proof (cases "first_row (invoice_of customer (day_of date)) (bd_invoices s)")
    case None
    have "accounts (add_invoice ?w s) (snd (ethen ?m (ereturn (?w, True)) (add_invoice ?w s)))" if "billing_inv s"
      using made [OF None that] by (intro accounts_then) (simp_all add: accounts.refl)
    then show ?thesis
      using add_invoice_accounts(1,2) [OF None] kept_trans unfolding new [OF None] accounts_def by blast
  next
    case (Some w)
    then show ?thesis by (simp add: get_or_create_invoice_def ebind_def eread_def accounts.refl)
  qed
  show "bv_pk v \<in> invoice_pks t"
    if run: "get_or_create_invoice rd clock customer date kind s = (Inr (v, b), t)" and inv: "billing_inv s"
  proof (cases "first_row (invoice_of customer (day_of date)) (bd_invoices s)")
    case None
    from run obtain t' x where "?m (add_invoice ?w s) = (Inr x, t)" "v = ?w"
      unfolding new [OF None] by (auto elim!: ethen_returned)
    moreover have "accounts (add_invoice ?w s) (snd (?m (add_invoice ?w s)))" by (rule made [OF None inv])
    ultimately show ?thesis
      using add_invoice_accounts [OF None inv] kept_pks [of "add_invoice ?w s" t "bd_next s"] by (simp add: accounts_def pk)
  next
    case (Some w)
    then have "v = w" "t = s" using run by (simp_all add: get_or_create_invoice_def ebind_def eread_def)
    then show ?thesis using first_row_Some [OF Some] by (simp add: invoice_pks_def)
  qed
qed

lemma save_loop_accounts:
  assumes "\<And>db i j. g db i = Inr j \<Longrightarrow> same_line i j" "covered is (bd_items s)"
  shows "accounts s (snd (eiter (\<lambda>i. estep (\<lambda>db. rbind (g db i) (\<lambda>j. Inr (save_item j db)))) is s))"
  using assms(2)
proof (induction "is" arbitrary: s)
  case (Cons i "is")
  let ?f = "\<lambda>i. estep (\<lambda>db. rbind (g db i) (\<lambda>j. Inr (save_item j db)))"
  show ?case
  proof (cases "g s i")
    case (Inl e)
    then show ?thesis by (simp add: ethen_def ebind_def estep_def accounts.refl)
  next
    case (Inr j)
    obtain k where k: "k \<in> set (bd_items s)" "same_line i k" using Cons.prems by (auto simp: covered_def)
    have line: "same_line k j" using k(2) assms(1) [OF Inr] by (simp add: same_line_def)
    show ?thesis
    proof (cases "billing_inv s")
      case True
      have v: "bi_invoice k \<in> invoice_pks s" using True k(1) by (simp add: billing_inv_def)
      have "billed (bi_invoice k) UNIV s (save_item j s)" using k(1) line by (intro billed_save) auto
      then have step: "billing_inv (save_item j s) \<and> kept s (save_item j s)" using True v by (simp add: billed_def)
      have "covered is (bd_items (save_item j s))"
        using Cons.prems step covered_trans [of "is" "bd_items s"] by (simp add: kept_def covered_def)
      then have "accounts (save_item j s) (snd (eiter ?f is (save_item j s)))" by (rule Cons.IH)
      then have "accounts s (snd (eiter ?f is (save_item j s)))"
        using step kept_trans by (auto simp: accounts_def)
      then show ?thesis using Inr by (simp add: ethen_def ebind_def estep_def)
    qed (simp add: accounts_def)
  qed
qed (simp add: accounts.refl)

lemma update_quantity_line: "update_quantity db i = Inr j \<Longrightarrow> same_line i j"
  by (auto simp: update_quantity_def same_line_def split: option.splits if_splits prod.splits)

lemma terminate_item_line:
  assumes "terminate_item db stop i = Inr j"
  shows "same_line i j"
proof -
  from assms obtain k where k: "update_quantity db (i\<lparr>bi_end := stop\<rparr>) = Inr k"
    by (auto simp: terminate_item_def rbind_eq_Inr)
  then have "same_line k j"
    using assms by (auto simp: terminate_item_def same_line_def Let_def split: option.splits list.splits if_splits)
  moreover have "same_line i k" using update_quantity_line [OF k] by (simp add: same_line_def)
  ultimately show ?thesis by (metis same_line_trans)
qed

lemma reprice_item_line: "reprice_item db cm i = Inr j \<Longrightarrow> same_line i j"
  by (auto simp: reprice_item_def rbind_eq_Inr Let_def same_line_def split: option.splits)

subsection \<open>The handlers\<close>

text \<open>A continuation that bills the invoice just found or created.\<close>

lemma accounts_on_invoice:
  assumes "\<And>v b. stays (billed (bv_pk v) UNIV) (f (v, b))"
  shows "accounts s (snd (ebind (get_or_create_invoice rd clock customer date kind) f s))"
proof (rule accounts_bind)
  fix x t
  assume "billing_inv s" and run: "get_or_create_invoice rd clock customer date kind s = (Inr x, t)"
  obtain v b where x: "x = (v, b)" by (cases x)
  have "bv_pk v \<in> invoice_pks t" using run \<open>billing_inv s\<close> unfolding x by (rule get_or_create_on_books)
  then show "accounts t (snd (f x t))" using stays_accounts [OF assms] by (simp add: x)
qed (rule get_or_create_accounts)

lemma register_accounts: "accounts s (snd (register rd clock r kind s))"
  unfolding register_def
  by (intro accounts_atomic accounts_on_invoice) (auto intro!: books.stays_when stays_resource)

lemma terminate_accounts: "accounts s (snd (terminate_billing rd clock r s))"
proof -
  let ?loop = "ebind (eread (running_items clock r))
         (eiter (\<lambda>i. estep (\<lambda>db. rbind (terminate_item db clock i) (\<lambda>i. Inr (save_item i db)))))"
  have "accounts t (snd (?loop t))" for t
    using save_loop_accounts [of "\<lambda>db. terminate_item db clock" "running_items clock r t" t] terminate_item_line
    by (simp add: ebind_def eread_def covered_sub running_items_def filter_is_subset)
  then show ?thesis
    unfolding terminate_billing_def by (intro accounts_atomic accounts_then get_or_create_accounts)
qed

lemma limits_change_accounts: "accounts s (snd (handle_limits_change rd clock h r s))"
proof -
  have prepaid: "billed v UNIV s t" if "prepaid_limit_change clock r v old months kc s = Inr t" for v old months kc s t
    using that
    by (auto simp: prepaid_limit_change_def Let_def rbind_eq_Inr books.refl billed_add split: if_splits prod.splits option.splits)
  show ?thesis
    unfolding handle_limits_change_def
    by (rule accounts_on_invoice)
       (auto simp: Let_def handle_prepaid_limits_change_def split: option.split
         intro!: books.stays_return books.stays_then books.stays_iter books.stays_when books.stays_step
         intro: billed_update prepaid)
qed

lemma resource_save_accounts:
  "accounts s (snd (process_billing_on_resource_save rd clock h created skip previous plan_changed limits_changed r s))"
proof -
  have st: "stays accounts m" if "\<And>s. accounts s (snd (m s))" for m :: "unit billing"
    using that by (simp add: stays_def)
  have "stays accounts (handle_plan_change rd clock r)" "stays accounts (handle_resource_creation rd clock r)"
    "stays accounts (handle_resource_termination rd clock r)" "stays accounts (handle_limits_change rd clock h r)"
    unfolding handle_plan_change_def handle_resource_creation_def handle_resource_termination_def
    by (intro accounts.stays_then st register_accounts terminate_accounts limits_change_accounts)+
  then have "stays accounts (process_billing_on_resource_save rd clock h created skip previous plan_changed limits_changed r)"
    unfolding process_billing_on_resource_save_def
    by (auto intro!: accounts.stays_return accounts.stays_then accounts.stays_when)
  then show ?thesis by (simp add: stays_def)
qed

lemma campaign_accounts: "accounts s (snd (apply_campaign_to_pending_invoices clock created changed cm s))"
proof -
  have links: "accounts t (t\<lparr>bd_discounted := ds\<rparr>)" for t ds
    by (auto simp: accounts_def billing_inv_def kept_def invoice_keys_def invoice_pks_def covered_sub)
  have one: "stays accounts (eiter (\<lambda>r. estep (\<lambda>db. rbind (meets_conditions db cm r) (\<lambda>ok.
             Inr (if ok then link_resource clock (cm_pk cm) (rs_pk r) db else db)))) rs)" for rs
    by (intro accounts.stays_iter accounts.stays_step)
       (auto simp: rbind_eq_Inr link_resource_def links accounts.refl split: if_splits)
  have two: "accounts t (snd (eiter (\<lambda>i. estep (\<lambda>db. rbind (reprice_item db cm i) (\<lambda>i. Inr (save_item i db)))) (filter P (bd_items t)) t))" for t P
    using reprice_item_line by (intro save_loop_accounts) (auto intro: covered_sub)
  show ?thesis
    unfolding apply_campaign_to_pending_invoices_def
    using one two
    by (auto simp: accounts.refl stays_def ebind_def eread_def intro!: accounts_then)
qed

end
