(* ===== verification/Pricing_Formula.thy ===== *)
theory Pricing_Formula
  imports Effects
begin

text \<open>
  The evaluator of staff-written pricing formulas, \<^verbatim>\<open>waldur_mastermind/common/formula.py\<close>, over the syntax
  trees \<open>ast.parse\<close> builds.  Integers and booleans are exact; what the platform does with inexact
  numbers (the floats of the language, which a power may turn into complex numbers, and the C
  mathematics library) is the record \<open>floats\<close>, and the parser is an argument of \<open>evaluate\<close>.
\<close>

subsection \<open>Syntax trees\<close>

datatype 'x pyconst = CInt int | CFloat 'x | CBool bool | COther

datatype un_op = USub | UAdd | Not_op | Invert
datatype bin_op = Add_op | Sub_op | Mult_op | Div_op | FloorDiv | Mod_op | Pow_op | Other_bin
datatype cmp_op = Lt | LtE | Gt | GtE | Eq | NotEq | Other_cmp
datatype bool_op = And_op | Or_op

text \<open>\<open>Other_node n\<close> is any other expression node, with \<open>n\<close> nodes below it; a call has its keywords' nodes.\<close>

datatype 'x expr =
    Constant "'x pyconst"
  | Name string
  | UnaryOp un_op "'x expr"
  | BinOp "'x expr" bin_op "'x expr"
  | Compare "'x expr" "cmp_op list" "'x expr list"
  | BoolOp bool_op "'x expr list"
  | IfExp "'x expr" "'x expr" "'x expr"
  | Call "'x expr" "'x expr list" nat
  | Other_node nat

text \<open>\<open>ast.walk\<close> also visits operators and the context of a name.\<close>

fun node_count :: "'x expr \<Rightarrow> nat" where
  "node_count (Constant _) = 1"
| "node_count (Name _) = 2"
| "node_count (UnaryOp _ e) = 2 + node_count e"
| "node_count (BinOp a _ b) = 2 + node_count a + node_count b"
| "node_count (Compare e ops es) = 1 + node_count e + length ops + sum_list (map node_count es)"
| "node_count (BoolOp _ es) = 2 + sum_list (map node_count es)"
| "node_count (IfExp t a b) = 1 + node_count t + node_count a + node_count b"
| "node_count (Call f args kws) = 1 + node_count f + sum_list (map node_count args) + kws"
| "node_count (Other_node n) = 1 + n"

subsection \<open>Values and platform arithmetic\<close>

datatype 'x pyval = VFloat 'x | VInt int | VBool bool

datatype py_error = ZeroDivisionError | ValueError | OverflowError | TypeError

text \<open>The failures of an evaluation: \<open>FormulaError\<close> of the module, or an error of Python's arithmetic.\<close>

datatype formula_exn = FormulaError | Raised py_error

datatype math_function = LN | LOG10 | POW

record 'x floats =
  fl_of_int :: "int \<Rightarrow> (py_error, 'x) result"
  fl_bin :: "bin_op \<Rightarrow> 'x \<Rightarrow> 'x \<Rightarrow> (py_error, 'x) result"
  fl_int_quotient :: "int \<Rightarrow> int \<Rightarrow> (py_error, 'x) result"
  fl_int_power :: "int \<Rightarrow> int \<Rightarrow> (py_error, 'x) result"
  fl_compare :: "cmp_op \<Rightarrow> int + 'x \<Rightarrow> int + 'x \<Rightarrow> (py_error, bool) result"
  fl_negate :: "'x \<Rightarrow> 'x"
  fl_abs :: "'x \<Rightarrow> (py_error, 'x) result"
  fl_floor :: "'x \<Rightarrow> (py_error, int) result"
  fl_ceil :: "'x \<Rightarrow> (py_error, int) result"
  fl_math :: "math_function \<Rightarrow> (int + 'x) list \<Rightarrow> (py_error, 'x) result"
  fl_truth :: "'x \<Rightarrow> bool"
  fl_is_float :: "'x \<Rightarrow> bool"
  fl_is_finite :: "'x \<Rightarrow> bool"
  fl_decimal :: "'x \<Rightarrow> rat"

type_synonym 'a evaluated = "(formula_exn, 'a) result"

definition raising :: "(py_error, 'a) result \<Rightarrow> 'a evaluated" where
  "raising r = (case r of Inl e \<Rightarrow> Inl (Raised e) | Inr x \<Rightarrow> Inr x)"

text \<open>A boolean is an integer in arithmetic.\<close>

definition number :: "'x pyval \<Rightarrow> int + 'x" where
  "number v = (case v of VFloat x \<Rightarrow> Inr x | VInt n \<Rightarrow> Inl n | VBool b \<Rightarrow> Inl (if b then 1 else 0))"

definition as_float :: "'x floats \<Rightarrow> int + 'x \<Rightarrow> (py_error, 'x) result" where
  "as_float F a = (case a of Inl n \<Rightarrow> fl_of_int F n | Inr x \<Rightarrow> Inr x)"

definition int_operation :: "'x floats \<Rightarrow> bin_op \<Rightarrow> int \<Rightarrow> int \<Rightarrow> (py_error, 'x pyval) result" where
  "int_operation F op a b =
     (case op of
        Add_op \<Rightarrow> Inr (VInt (a + b))
      | Sub_op \<Rightarrow> Inr (VInt (a - b))
      | Mult_op \<Rightarrow> Inr (VInt (a * b))
      | Div_op \<Rightarrow> rbind (fl_int_quotient F a b) (\<lambda>x. Inr (VFloat x))
      | FloorDiv \<Rightarrow> if b = 0 then Inl ZeroDivisionError else Inr (VInt (a div b))
      | Mod_op \<Rightarrow> if b = 0 then Inl ZeroDivisionError else Inr (VInt (a mod b))
      | Pow_op \<Rightarrow> if 0 \<le> b then Inr (VInt (a ^ nat b)) else rbind (fl_int_power F a b) (\<lambda>x. Inr (VFloat x))
      | Other_bin \<Rightarrow> Inl TypeError)"

definition binary :: "'x floats \<Rightarrow> bin_op \<Rightarrow> 'x pyval \<Rightarrow> 'x pyval \<Rightarrow> (py_error, 'x pyval) result" where
  "binary F op v w =
     (case (number v, number w) of
        (Inl a, Inl b) \<Rightarrow> int_operation F op a b
      | (a, b) \<Rightarrow> rbind (as_float F a) (\<lambda>x. rbind (as_float F b) (\<lambda>y.
                   rbind (fl_bin F op x y) (\<lambda>z. Inr (VFloat z)))))"

fun int_compare :: "cmp_op \<Rightarrow> int \<Rightarrow> int \<Rightarrow> bool" where
  "int_compare Lt a b = (a < b)"
| "int_compare LtE a b = (a \<le> b)"
| "int_compare Gt a b = (a > b)"
| "int_compare GtE a b = (a \<ge> b)"
| "int_compare Eq a b = (a = b)"
| "int_compare NotEq a b = (a \<noteq> b)"
| "int_compare Other_cmp a b = False"

definition compare_values :: "'x floats \<Rightarrow> cmp_op \<Rightarrow> 'x pyval \<Rightarrow> 'x pyval \<Rightarrow> (py_error, bool) result" where
  "compare_values F op v w =
     (case (number v, number w) of
        (Inl a, Inl b) \<Rightarrow> Inr (int_compare op a b)
      | (a, b) \<Rightarrow> fl_compare F op a b)"

definition truth :: "'x floats \<Rightarrow> 'x pyval \<Rightarrow> bool" where
  "truth F v = (case v of VBool b \<Rightarrow> b | VInt n \<Rightarrow> n \<noteq> 0 | VFloat x \<Rightarrow> fl_truth F x)"

definition negate :: "'x floats \<Rightarrow> 'x pyval \<Rightarrow> 'x pyval" where
  "negate F v = (case number v of Inl n \<Rightarrow> VInt (- n) | Inr x \<Rightarrow> VFloat (fl_negate F x))"

subsection \<open>Functions\<close>

text \<open>\<open>min\<close> and \<open>max\<close> keep the first extreme argument; a single argument must be iterable, a number is not.\<close>

definition extreme :: "'x floats \<Rightarrow> cmp_op \<Rightarrow> 'x pyval list \<Rightarrow> (py_error, 'x pyval) result" where
  "extreme F op args =
     (case args of
        v # w # rest \<Rightarrow> rfold (\<lambda>best x. rbind (compare_values F op x best) (\<lambda>b. Inr (if b then x else best))) v (w # rest)
      | _ \<Rightarrow> Inl TypeError)"

definition rounded :: "('x \<Rightarrow> (py_error, int) result) \<Rightarrow> 'x pyval list \<Rightarrow> (py_error, 'x pyval) result" where
  "rounded f args =
     (case args of
        [v] \<Rightarrow> (case number v of Inl n \<Rightarrow> Inr (VInt n) | Inr x \<Rightarrow> rbind (f x) (\<lambda>n. Inr (VInt n)))
      | _ \<Rightarrow> Inl TypeError)"

definition absolute :: "'x floats \<Rightarrow> 'x pyval list \<Rightarrow> (py_error, 'x pyval) result" where
  "absolute F args =
     (case args of
        [v] \<Rightarrow> (case number v of Inl n \<Rightarrow> Inr (VInt \<bar>n\<bar>) | Inr x \<Rightarrow> rbind (fl_abs F x) (\<lambda>y. Inr (VFloat y)))
      | _ \<Rightarrow> Inl TypeError)"

definition mathematics :: "'x floats \<Rightarrow> math_function \<Rightarrow> 'x pyval list \<Rightarrow> (py_error, 'x pyval) result" where
  "mathematics F f args = rbind (fl_math F f (map number args)) (\<lambda>x. Inr (VFloat x))"

definition upper_char :: "char \<Rightarrow> char" where
  "upper_char c = (let n = of_char c :: nat in if 97 \<le> n \<and> n \<le> 122 then char_of (n - 32) else c)"

definition FUNCTIONS :: "'x floats \<Rightarrow> (string, 'x pyval list \<Rightarrow> (py_error, 'x pyval) result) dict" where
  "FUNCTIONS F =
     [(''MIN'', extreme F Lt), (''MAX'', extreme F Gt), (''LN'', mathematics F LN), (''LOG10'', mathematics F LOG10),
      (''FLOOR'', rounded (fl_floor F)), (''CEIL'', rounded (fl_ceil F)), (''POW'', mathematics F POW),
      (''ABS'', absolute F)]"

definition function_named :: "'x floats \<Rightarrow> string \<Rightarrow> ('x pyval list \<Rightarrow> (py_error, 'x pyval) result) option" where
  "function_named F name = map_of (FUNCTIONS F) (map upper_char name)"

subsection \<open>Evaluation\<close>

type_synonym 'x environment = "string \<Rightarrow> 'x option"

fun eval_node :: "'x floats \<Rightarrow> 'x environment \<Rightarrow> 'x expr \<Rightarrow> 'x pyval evaluated"
  and eval_compare :: "'x floats \<Rightarrow> 'x environment \<Rightarrow> 'x pyval \<Rightarrow> cmp_op list \<Rightarrow> 'x expr list \<Rightarrow> 'x pyval evaluated"
  and eval_until :: "'x floats \<Rightarrow> 'x environment \<Rightarrow> bool \<Rightarrow> 'x expr list \<Rightarrow> 'x pyval evaluated"
  and eval_args :: "'x floats \<Rightarrow> 'x environment \<Rightarrow> 'x expr list \<Rightarrow> 'x pyval list evaluated"
where
  "eval_node F env (Constant c) =
     (case c of
        CInt n \<Rightarrow> rbind (raising (fl_of_int F n)) (\<lambda>x. Inr (VFloat x))
      | CFloat x \<Rightarrow> Inr (VFloat x)
      | _ \<Rightarrow> Inl FormulaError)"
| "eval_node F env (Name x) = (case env x of None \<Rightarrow> Inl FormulaError | Some v \<Rightarrow> Inr (VFloat v))"
| "eval_node F env (UnaryOp op e) =
     rbind (eval_node F env e) (\<lambda>v. case op of USub \<Rightarrow> Inr (negate F v) | UAdd \<Rightarrow> Inr v | _ \<Rightarrow> Inl FormulaError)"
| "eval_node F env (BinOp a op b) =
     (if op = Other_bin then Inl FormulaError
      else rbind (eval_node F env a) (\<lambda>v. rbind (eval_node F env b) (\<lambda>w. raising (binary F op v w))))"
| "eval_node F env (Compare e ops es) = rbind (eval_node F env e) (\<lambda>v. eval_compare F env v ops es)"
| "eval_node F env (BoolOp op es) = eval_until F env (op = And_op) es"
| "eval_node F env (IfExp t a b) =
     rbind (eval_node F env t) (\<lambda>v. if truth F v then eval_node F env a else eval_node F env b)"
| "eval_node F env (Call f args kws) =
     (case f of
        Name name \<Rightarrow>
          if kws \<noteq> 0 then Inl FormulaError
          else (case function_named F name of
                  None \<Rightarrow> Inl FormulaError
                | Some g \<Rightarrow> rbind (eval_args F env args) (\<lambda>vs. raising (g vs)))
      | _ \<Rightarrow> Inl FormulaError)"
| "eval_node F env (Other_node n) = Inl FormulaError"
| "eval_compare F env left (op # ops) (e # es) =
     (if op = Other_cmp then Inl FormulaError
      else rbind (eval_node F env e) (\<lambda>right. rbind (raising (compare_values F op left right)) (\<lambda>b.
             if b then eval_compare F env right ops es else Inr (VBool False))))"
| "eval_compare F env left _ _ = Inr (VBool True)"
| "eval_until F env wanted [] = Inr (VBool wanted)"
| "eval_until F env wanted (e # es) =
     rbind (eval_node F env e) (\<lambda>v. if truth F v = wanted then eval_until F env wanted es else Inr (VBool (\<not> wanted)))"
| "eval_args F env [] = Inr []"
| "eval_args F env (e # es) = rbind (eval_node F env e) (\<lambda>v. rbind (eval_args F env es) (\<lambda>vs. Inr (v # vs)))"

definition MAX_FORMULA_LENGTH :: nat where
  "MAX_FORMULA_LENGTH = 1000"

definition MAX_NODE_COUNT :: nat where
  "MAX_NODE_COUNT = 200"

definition is_whitespace :: "char \<Rightarrow> bool" where
  "is_whitespace c \<longleftrightarrow> (of_char c :: nat) \<in> {9, 10, 11, 12, 13, 28, 29, 30, 31, 32, 133, 160}"

definition strip :: "string \<Rightarrow> string" where
  "strip s = rev (dropWhile is_whitespace (rev (dropWhile is_whitespace s)))"

text \<open>
  What is raised around the evaluation becomes a \<open>FormulaError\<close>; \<open>math.isnan\<close> and \<open>math.isinf\<close> of the
  result convert an integer to a float outside of that \<open>try\<close>.
\<close>

definition caught :: "'a evaluated \<Rightarrow> 'a evaluated" where
  "caught r = (case r of Inl _ \<Rightarrow> Inl FormulaError | Inr x \<Rightarrow> Inr x)"

definition final_value :: "'x floats \<Rightarrow> 'x pyval \<Rightarrow> rat evaluated" where
  "final_value F v =
     (case v of
        VBool _ \<Rightarrow> Inl FormulaError
      | VInt n \<Rightarrow> rbind (raising (fl_of_int F n)) (\<lambda>_. Inr (of_int n))
      | VFloat x \<Rightarrow> if fl_is_float F x \<and> fl_is_finite F x then Inr (fl_decimal F x) else Inl FormulaError)"

definition evaluate :: "'x floats \<Rightarrow> (string \<Rightarrow> 'x expr option) \<Rightarrow> string \<Rightarrow> 'x environment \<Rightarrow> rat evaluated" where
  "evaluate F parse formula env =
     (if strip formula = '''' then Inl FormulaError
      else if length formula > MAX_FORMULA_LENGTH then Inl FormulaError
      else case parse formula of
             None \<Rightarrow> Inl FormulaError
           | Some tree \<Rightarrow>
               if 1 + node_count tree > MAX_NODE_COUNT then Inl FormulaError
               else rbind (caught (eval_node F env tree)) (final_value F))"

definition validate :: "'x floats \<Rightarrow> (string \<Rightarrow> 'x expr option) \<Rightarrow> string \<Rightarrow> string list \<Rightarrow> unit evaluated" where
  "validate F parse formula names =
     rfold (\<lambda>_ sample.
        rbind (raising (fl_of_int F sample)) (\<lambda>x.
        rbind (evaluate F parse formula (\<lambda>n. if n \<in> set names then Some x else None)) (\<lambda>_. Inr ())))
       () [0, 1, 10, 1000, 1000000]"

end
