(* ===== verification/Formula_Facts.thy ===== *)
theory Formula_Facts
  imports Pricing_Formula
begin

text \<open>
  Kinds of formulas, a small type system for the trees the evaluator accepts, and its soundness: an
  expression that has a kind never fails because of its syntax or its names and evaluates, if at all, to
  a value of that kind.
\<close>

datatype kind = Numeric | Boolean

definition kind_of :: "'x pyval \<Rightarrow> kind" where
  "kind_of v = (case v of VBool _ \<Rightarrow> Boolean | _ \<Rightarrow> Numeric)"

lemma kind_of_simps [simp]: "kind_of (VFloat x) = Numeric" "kind_of (VInt n) = Numeric" "kind_of (VBool b) = Boolean"
  by (simp_all add: kind_of_def)

definition NUMERIC_FUNCTIONS :: "string list" where
  "NUMERIC_FUNCTIONS = [''LN'', ''LOG10'', ''FLOOR'', ''CEIL'', ''POW'', ''ABS'']"

inductive has_kind :: "string set \<Rightarrow> 'x expr \<Rightarrow> kind \<Rightarrow> bool" for names where
  int_constant: "has_kind names (Constant (CInt n)) Numeric"
| float_constant: "has_kind names (Constant (CFloat x)) Numeric"
| variable: "x \<in> names \<Longrightarrow> has_kind names (Name x) Numeric"
| minus: "has_kind names e k \<Longrightarrow> has_kind names (UnaryOp USub e) Numeric"
| plus: "has_kind names e k \<Longrightarrow> has_kind names (UnaryOp UAdd e) k"
| operation: "has_kind names a k \<Longrightarrow> has_kind names b l \<Longrightarrow> op \<noteq> Other_bin \<Longrightarrow> has_kind names (BinOp a op b) Numeric"
| comparison: "has_kind names e k \<Longrightarrow> (\<And>f. f \<in> set es \<Longrightarrow> \<exists>l. has_kind names f l) \<Longrightarrow> Other_cmp \<notin> set ops
    \<Longrightarrow> has_kind names (Compare e ops es) Boolean"
| connective: "(\<And>f. f \<in> set es \<Longrightarrow> \<exists>l. has_kind names f l) \<Longrightarrow> has_kind names (BoolOp op es) Boolean"
| conditional: "has_kind names t l \<Longrightarrow> has_kind names a k \<Longrightarrow> has_kind names b k \<Longrightarrow> has_kind names (IfExp t a b) k"
| math_call: "map upper_char name \<in> set NUMERIC_FUNCTIONS \<Longrightarrow> (\<And>f. f \<in> set args \<Longrightarrow> \<exists>l. has_kind names f l)
    \<Longrightarrow> has_kind names (Call (Name name) args 0) Numeric"
| extreme_call: "map upper_char name \<in> {''MIN'', ''MAX''} \<Longrightarrow> (\<And>f. f \<in> set args \<Longrightarrow> has_kind names f k)
    \<Longrightarrow> has_kind names (Call (Name name) args 0) k"

text \<open>The outcome of an expression of kind \<open>k\<close>.\<close>

definition sound :: "kind \<Rightarrow> 'x pyval evaluated \<Rightarrow> bool" where
  "sound k r \<longleftrightarrow> (case r of Inl e \<Rightarrow> e \<noteq> FormulaError | Inr v \<Rightarrow> kind_of v = k)"

lemma sound_cases [simp]: "sound k (Inl e) = (e \<noteq> FormulaError)" "sound k (Inr v) = (kind_of v = k)"
  by (simp_all add: sound_def)

lemma raising_cases [simp]: "raising (Inl e) = Inl (Raised e)" "raising (Inr x) = Inr x"
  by (simp_all add: raising_def)

lemma sound_rbind: "sound l r \<Longrightarrow> (\<And>v. kind_of v = l \<Longrightarrow> sound k (f v)) \<Longrightarrow> sound k (rbind r f)"
  by (cases r) simp_all

lemma sound_raising: "(\<And>v. r = Inr v \<Longrightarrow> kind_of v = k) \<Longrightarrow> sound k (raising r)"
  by (cases r) simp_all

lemma binary_numeric: "binary F op v w = Inr u \<Longrightarrow> kind_of u = Numeric"
  by (auto simp: binary_def int_operation_def rbind_eq_Inr split: sum.splits bin_op.splits if_splits)

lemma function_numeric:
  "map upper_char name \<in> set NUMERIC_FUNCTIONS \<Longrightarrow>
   \<exists>g. function_named F name = Some g \<and> (\<forall>vs u. g vs = Inr u \<longrightarrow> kind_of u = Numeric)"
  by (auto simp: NUMERIC_FUNCTIONS_def function_named_def FUNCTIONS_def mathematics_def rounded_def absolute_def
      rbind_eq_Inr split: list.splits sum.splits)

lemma extreme_kind:
  assumes "extreme F op vs = Inr u" "\<And>v. v \<in> set vs \<Longrightarrow> kind_of v = k"
  shows "kind_of u = k"
proof -
  have "kind_of u = k"
    if "rfold (\<lambda>best x. rbind (compare_values F op x best) (\<lambda>b. Inr (if b then x else best))) v ws = Inr u"
      "kind_of v = k" "\<And>w. w \<in> set ws \<Longrightarrow> kind_of w = k" for v ws
    using that
  proof (induction ws arbitrary: v)
    case (Cons w ws)
    then show ?case by (auto simp: rbind_eq_Inr split: if_splits)
  qed simp
  from this [of "hd vs" "tl vs"] show ?thesis
    using assms by (auto simp: extreme_def split: list.splits)
qed

lemma function_extreme:
  "map upper_char name \<in> {''MIN'', ''MAX''} \<Longrightarrow> \<exists>op. function_named F name = Some (extreme F op)"
  by (auto simp: function_named_def FUNCTIONS_def)

lemma args_sound:
  assumes "\<And>e. e \<in> set es \<Longrightarrow> \<exists>k. sound k (eval_node F env e)"
  shows "eval_args F env es \<noteq> Inl FormulaError"
  using assms
proof (induction es)
  case (Cons e es)
  then obtain k where "sound k (eval_node F env e)" by auto
  with Cons show ?case by (cases "eval_node F env e"; cases "eval_args F env es") auto
qed simp

lemma args_kinds:
  assumes "eval_args F env es = Inr vs" "\<And>e. e \<in> set es \<Longrightarrow> sound k (eval_node F env e)"
  shows "v \<in> set vs \<Longrightarrow> kind_of v = k"
  using assms
proof (induction es arbitrary: vs)
  case (Cons e es)
  then obtain w ws where "eval_node F env e = Inr w" "eval_args F env es = Inr ws" "vs = w # ws"
    by (auto simp: rbind_eq_Inr)
  moreover have "sound k (eval_node F env e)" using Cons.prems by simp
  ultimately show ?case using Cons by auto
qed simp

lemma until_sound:
  assumes "\<And>e. e \<in> set es \<Longrightarrow> \<exists>k. sound k (eval_node F env e)"
  shows "sound Boolean (eval_until F env wanted es)"
  using assms
proof (induction es)
  case (Cons e es)
  then obtain k where "sound k (eval_node F env e)" by auto
  with Cons show ?case by (auto intro!: sound_rbind [of k])
qed simp

lemma compare_sound:
  assumes "\<And>e. e \<in> set es \<Longrightarrow> \<exists>k. sound k (eval_node F env e)" "Other_cmp \<notin> set ops"
  shows "sound Boolean (eval_compare F env v ops es)"
  using assms
proof (induction ops arbitrary: es v)
  case (Cons op ops)
  show ?case
  proof (cases es)
    case (Cons e fs)
    then obtain k where k: "sound k (eval_node F env e)" using Cons.prems(1) by auto
    have rest: "sound Boolean (eval_compare F env w ops fs)" for w
      using Cons.prems Cons by (intro Cons.IH) auto
    have "sound Boolean (rbind (raising (compare_values F op v w)) (\<lambda>b.
             if b then eval_compare F env w ops fs else Inr (VBool False)))" for w
      using rest by (cases "compare_values F op v w") simp_all
    then show ?thesis using Cons Cons.prems(2) k by (auto intro!: sound_rbind [of k])
  qed simp
qed (simp add: eval_compare.simps)

theorem has_kind_sound:
  assumes "has_kind names e k" and "\<And>x. x \<in> names \<Longrightarrow> env x \<noteq> None"
  shows "sound k (eval_node F env e)"
  using assms(1)
proof induction
  case (int_constant n)
  then show ?case by (cases "fl_of_int F n") simp_all
next
  case (variable x)
  then show ?case using assms(2) by (auto split: option.split)
next
  case (minus e k)
  have "kind_of (negate F v) = Numeric" for v :: "'a pyval" by (simp add: negate_def split: sum.split)
  then show ?case using minus.IH by (auto intro: sound_rbind)
next
  case (plus e k)
  then show ?case by (auto intro: sound_rbind)
next
  case (operation a k b l op)
  have "sound Numeric (raising (binary F op v w))" for v w by (rule sound_raising) (rule binary_numeric)
  then show ?case using operation by (auto intro!: sound_rbind [OF operation.IH(1)] sound_rbind [OF operation.IH(2)])
next
  case (comparison e k es ops)
  then show ?case by (auto intro!: sound_rbind [OF comparison.IH(1)] compare_sound)
next
  case (connective es op)
  then show ?case by (auto intro!: until_sound)
next
  case (conditional t l a k b)
  then show ?case by (auto intro!: sound_rbind [OF conditional.IH(1)])
next
  case (math_call name args)
  obtain g where g: "function_named F name = Some g" "\<And>vs u. g vs = Inr u \<Longrightarrow> kind_of u = Numeric"
    using function_numeric [OF math_call.hyps(1)] by blast
  have "eval_args F env args \<noteq> Inl FormulaError" using math_call by (intro args_sound) auto
  then show ?case using g by (cases "eval_args F env args") (auto intro: sound_raising)
next
  case (extreme_call name args k)
  obtain op where op: "function_named F name = Some (extreme F op)"
    using function_extreme [OF extreme_call.hyps(1)] by blast
  have noerr: "eval_args F env args \<noteq> Inl FormulaError" using extreme_call by (intro args_sound) auto
  show ?case
  proof (cases "eval_args F env args")
    case (Inl e)
    then show ?thesis using noerr op by auto
  next
    case (Inr vs)
    have "kind_of v = k" if "v \<in> set vs" for v using args_kinds [OF Inr _ that] extreme_call by blast
    then show ?thesis using Inr op extreme_kind [of F op vs] by (auto intro: sound_raising)
  qed
qed simp_all

end
