(* ===== verification/Volume_Discounts.thy ===== *)
theory Volume_Discounts
  imports Billing_Facts Formula_Facts
begin

text \<open>
  Volume discounts, \<^verbatim>\<open>marketplace/billing_discount.py\<close>: the pass over an invoice at its
  finalization.  The items billed under one plan component are a bucket, or one bucket per resource; the
  formula of the plan component turns their summed volume into a percentage, which becomes one negative
  line per item.
\<close>

type_synonym 'x formula_platform = "'x floats \<times> (rat \<Rightarrow> 'x) \<times> (string \<Rightarrow> 'x expr option)"

text \<open>\<open>_evaluate_percent\<close>: the variable \<open>usage\<close> is \<open>float\<close> of the total.\<close>

definition evaluate_percent :: "'x formula_platform \<Rightarrow> string \<Rightarrow> rat \<Rightarrow> rat evaluated" where
  "evaluate_percent P formula usage =
     (case P of (F, to_float, parse) \<Rightarrow>
        rbind (evaluate F parse formula (\<lambda>n. if n = ''usage'' then Some (to_float usage) else None))
          (\<lambda>percent. Inr (max 0 (min 100 percent))))"

definition discount_amount :: "billing_item \<Rightarrow> rat \<Rightarrow> rat" where
  "discount_amount i percent = quantize_price (bi_unit_price i * bi_quantity i * percent / 100)"

definition discount_item :: "billing_item \<Rightarrow> rat \<Rightarrow> billing_item" where
  "discount_item i percent =
     i\<lparr>bi_pk := 0, bi_unit_price := - discount_amount i percent, bi_unit := QUANTITY, bi_quantity := 1,
       bi_measured_unit := '''', bi_plan_uuid := None, bi_limit_periods := None, bi_limit_total := False,
       bi_discount_usage := None, bi_is_discount := True, bi_is_compensation := False,
       bi_discount_of := Some (bi_pk i), bi_discount_percent := Some percent, bi_supplementary := False,
       bi_campaign := None, bi_plan_period := None, bi_overage := False\<rparr>"

definition create_discount_item :: "billing_item \<Rightarrow> rat \<Rightarrow> billing_item list" where
  "create_discount_item i percent = (if discount_amount i percent \<le> 0 then [] else [discount_item i percent])"

subsection \<open>Buckets\<close>

text \<open>\<open>defaultdict(list)\<close>: the items by key, keys in the order of their first item.\<close>

definition buckets :: "('a \<Rightarrow> 'k) \<Rightarrow> 'a list \<Rightarrow> ('k, 'a list) dict" where
  "buckets key is =
     fold (\<lambda>i d. dict_set (key i) ((case map_of d (key i) of Some js \<Rightarrow> js | None \<Rightarrow> []) @ [i]) d) is []"

definition main_entry :: "billing_db \<Rightarrow> billing_item \<Rightarrow> (billed_component \<times> billing_item) list" where
  "main_entry db i =
     (case Option.bind (bi_plan_component i) (find_plan_component db) of
        None \<Rightarrow> []
      | Some (_, pc) \<Rightarrow>
          if bi_resource i \<noteq> None \<and> bc_component pc \<noteq> None \<and> bi_discount_usage i \<noteq> None then [(pc, i)] else [])"

definition main_items :: "nat \<Rightarrow> billing_db \<Rightarrow> (billed_component \<times> billing_item) list" where
  "main_items v db = concat (map (main_entry db) (filter (\<lambda>i. bi_invoice i = v) (bd_items db)))"

definition discount_groups :: "(billed_component \<times> billing_item) list \<Rightarrow> (billed_component \<times> billing_item list) list" where
  "discount_groups ms =
     concat (map (\<lambda>(_, bucket).
         let pc = fst (hd bucket); is = map snd bucket
         in if strip (bc_discount_formula pc) = '''' then []
            else if bc_discount_aggregation pc = PER_RESOURCE
              then map (\<lambda>(_, js). (pc, js)) (buckets bi_resource is)
            else [(pc, is)])
       (buckets (\<lambda>(pc, i). bc_pk pc) ms))"

subsection \<open>The pass\<close>

definition total_usage :: "billing_item list \<Rightarrow> rat" where
  "total_usage is = sum_list (map (\<lambda>i. the (bi_discount_usage i)) is)"

text \<open>
  The lines of one group.  A \<open>FormulaError\<close> skips the group; any other exception leaves the pass.
\<close>

definition group_lines ::
    "'x formula_platform \<Rightarrow> billed_component \<times> billing_item list \<Rightarrow> (py_error, billing_item list) result" where
  "group_lines P g =
     (case g of (pc, is) \<Rightarrow>
        (case evaluate_percent P (strip (bc_discount_formula pc)) (total_usage is) of
           Inl FormulaError \<Rightarrow> Inr []
         | Inl (Raised e) \<Rightarrow> Inl e
         | Inr percent \<Rightarrow>
             Inr (if percent \<le> 0 then [] else concat (map (\<lambda>i. create_discount_item i percent) is))))"

definition drop_discounts :: "nat \<Rightarrow> billing_db \<Rightarrow> billing_db" where
  "drop_discounts v db =
     db\<lparr>bd_items := filter (\<lambda>i. \<not> (bi_invoice i = v \<and> bi_is_discount i)) (bd_items db)\<rparr>"

definition apply_aggregated_volume_discounts :: "'x formula_platform \<Rightarrow> nat \<Rightarrow> (py_error, billing_db, unit) eff" where
  "apply_aggregated_volume_discounts P v =
     ethen (ewrite (drop_discounts v))
       (ebind (eread (\<lambda>db. discount_groups (main_items v db)))
         (eiter (\<lambda>g. ebind (elift (group_lines P g)) (\<lambda>lines. ewrite (fold add_item lines)))))"

subsection \<open>The lines of a pass\<close>

text \<open>All lines, in order, or the exception that leaves the pass.\<close>

fun all_lines :: "'x formula_platform \<Rightarrow> (billed_component \<times> billing_item list) list \<Rightarrow> (py_error, billing_item list) result" where
  "all_lines P [] = Inr []"
| "all_lines P (g # gs) = rbind (group_lines P g) (\<lambda>ls. rbind (all_lines P gs) (\<lambda>ms. Inr (ls @ ms)))"

lemma pass_run:
  "apply_aggregated_volume_discounts P v db = (Inr (), db') \<longleftrightarrow>
   (\<exists>ls. all_lines P (discount_groups (main_items v (drop_discounts v db))) = Inr ls \<and>
         db' = fold add_item ls (drop_discounts v db))"
proof -
  have "eiter (\<lambda>g. ebind (elift (group_lines P g)) (\<lambda>lines. ewrite (fold add_item lines))) gs s = (Inr (), t) \<longleftrightarrow>
     (\<exists>ls. all_lines P gs = Inr ls \<and> t = fold add_item ls s)" for gs s t
  proof (induction gs arbitrary: s)
    case (Cons g gs)
    then show ?case
      by (cases "group_lines P g"; cases "all_lines P gs") (simp_all add: ethen_def ebind_def elift_def ewrite_def)
  qed (auto simp: ereturn_def)
  then show ?thesis
    by (simp add: apply_aggregated_volume_discounts_def ethen_def ebind_def ewrite_def eread_def)
qed

lemma pass_raised:
  "fst (apply_aggregated_volume_discounts P v db) = Inl e \<longleftrightarrow>
   all_lines P (discount_groups (main_items v (drop_discounts v db))) = Inl e"
proof -
  have "fst (eiter (\<lambda>g. ebind (elift (group_lines P g)) (\<lambda>lines. ewrite (fold add_item lines))) gs s) = Inl e \<longleftrightarrow>
     all_lines P gs = Inl e" for gs s
  proof (induction gs arbitrary: s)
    case (Cons g gs)
    then show ?case
      by (cases "group_lines P g"; cases "all_lines P gs") (simp_all add: ethen_def ebind_def elift_def ewrite_def)
  qed (auto simp: ereturn_def)
  then show ?thesis
    by (simp add: apply_aggregated_volume_discounts_def ethen_def ebind_def ewrite_def eread_def)
qed

text \<open>The identifiers of lines added one after the other.\<close>

fun numbered :: "nat \<Rightarrow> billing_item list \<Rightarrow> billing_item list" where
  "numbered n [] = []"
| "numbered n (i # is) = i\<lparr>bi_pk := n\<rparr> # numbered (Suc n) is"

lemma items_after_pass: "bd_items (fold add_item ls db) = bd_items db @ numbered (bd_next db) ls"
  by (induction ls arbitrary: db) (simp_all add: add_item_def)

lemma numbered_members: "k \<in> set (numbered n ls) \<Longrightarrow> \<exists>l\<in>set ls. \<exists>m. k = l\<lparr>bi_pk := m\<rparr>"
  by (induction n ls rule: numbered.induct) auto

lemma numbered_map: "(\<And>l m. f (l\<lparr>bi_pk := m\<rparr>) = f l) \<Longrightarrow> map f (numbered n ls) = map f ls"
  by (induction n ls rule: numbered.induct) simp_all

lemma fold_add_frame:
  "bd_plans (fold add_item ls db) = bd_plans db" "bd_invoices (fold add_item ls db) = bd_invoices db"
  "bd_resources (fold add_item ls db) = bd_resources db"
  by (induction ls arbitrary: db) (simp_all add: add_item_def)

end
