(* ===== verification/Volume_Discount_Facts.thy ===== *)
theory Volume_Discount_Facts
  imports Volume_Discounts "HOL-Library.Multiset"
begin

text \<open>
  The buckets partition the main items, so an item gets at most one line; the lines carry no volume of their
  own, so a pass sees the same main items after it; a line never exceeds what its item is charged.
\<close>

subsection \<open>Buckets are a partition\<close>

definition bucket_items :: "('k, 'a list) dict \<Rightarrow> 'a multiset" where
  "bucket_items d = mset (concat (map snd d))"

lemma bucket_insert:
  "distinct (map fst d) \<Longrightarrow>
   bucket_items (dict_set k ((case map_of d k of Some js \<Rightarrow> js | None \<Rightarrow> []) @ [i]) d) = add_mset i (bucket_items d)"
proof (induction d)
  case (Cons p d)
  obtain l w where p: "p = (l, w)" by (cases p)
  show ?case
  proof (cases "l = k")
    case False
    then show ?thesis using Cons by (simp add: p bucket_items_def)
  qed (simp add: p bucket_items_def)
qed (simp add: bucket_items_def)

lemma buckets_partition: "bucket_items (buckets key is) = mset is"
proof -
  let ?step = "\<lambda>i d. dict_set (key i) ((case map_of d (key i) of Some js \<Rightarrow> js | None \<Rightarrow> []) @ [i]) d"
  have "distinct (map fst d) \<Longrightarrow> bucket_items (fold ?step is d) = bucket_items d + mset is" for d
    by (induction "is" arbitrary: d) (simp_all add: bucket_insert distinct_dict_set)
  from this [of "[]"] show ?thesis by (simp add: buckets_def bucket_items_def)
qed

definition group_items :: "('c \<times> 'i list) list \<Rightarrow> 'i list" where
  "group_items gs = concat (map snd gs)"

lemma group_items_simps: "group_items [] = []" "group_items (g # gs) = snd g @ group_items gs"
  "group_items (gs @ hs) = group_items gs @ group_items hs"
  by (simp_all add: group_items_def)

lemma bucket_groups: "mset (group_items (map (\<lambda>(_, js). (pc, js)) (buckets key is))) = mset is"
  using buckets_partition [of key "is"]
  by (simp add: group_items_def bucket_items_def comp_def case_prod_unfold)

lemma discount_groups_sub: "mset (group_items (discount_groups ms)) \<subseteq># mset (map snd ms)"
proof -
  define group where "group = (\<lambda>(k :: nat, bucket :: (billed_component \<times> billing_item) list).
         let pc = fst (hd bucket); is = map snd bucket
         in if strip (bc_discount_formula pc) = '''' then []
            else if bc_discount_aggregation pc = PER_RESOURCE
              then map (\<lambda>(_, js). (pc, js)) (buckets bi_resource is)
            else [(pc, is)])"
  have one: "mset (group_items (group kb)) \<subseteq># mset (map snd (snd kb))" for kb
    by (cases kb) (simp add: group_def Let_def bucket_groups group_items_simps)
  have "mset (group_items (concat (map group bs))) \<subseteq># mset (map snd (concat (map snd bs)))" for bs
  proof (induction bs)
    case (Cons b bs)
    have "mset (group_items (concat (map group (b # bs)))) = mset (group_items (group b)) + mset (group_items (concat (map group bs)))"
      by (simp add: group_items_def)
    also have "\<dots> \<subseteq># mset (map snd (snd b)) + mset (map snd (concat (map snd bs)))"
      using one [of b] Cons by (rule subset_mset.add_mono)
    finally show ?case by simp
  qed (simp add: group_items_def)
  moreover have "mset (map snd (concat (map snd (buckets (\<lambda>(pc, i). bc_pk pc) ms)))) = mset (map snd ms)"
    unfolding mset_map using buckets_partition [of "\<lambda>(pc, i). bc_pk pc" ms] by (simp add: bucket_items_def)
  moreover have "discount_groups ms = concat (map group (buckets (\<lambda>(pc, i). bc_pk pc) ms))"
    by (simp add: discount_groups_def group_def)
  ultimately show ?thesis by metis
qed

subsection \<open>Main items\<close>

lemma main_entry_cases: "main_entry db i = [] \<or> (\<exists>pc. main_entry db i = [(pc, i)])"
  by (auto simp: main_entry_def split: option.split)

lemma mset_main_items: "mset (map snd (main_items v db)) \<subseteq># mset (filter (\<lambda>i. bi_invoice i = v) (bd_items db))"
proof -
  have "mset (map snd (concat (map (main_entry db) is))) \<subseteq># mset is" for "is"
  proof (induction "is")
    case (Cons i "is")
    have "mset (map snd (main_entry db i)) \<subseteq># {#i#}" using main_entry_cases [of db i] by auto
    with Cons have "mset (map snd (main_entry db i)) + mset (map snd (concat (map (main_entry db) is))) \<subseteq># {#i#} + mset is"
      by (intro subset_mset.add_mono)
    then show ?case by simp
  qed simp
  then show ?thesis unfolding main_items_def .
qed

lemma main_items_in: "i \<in> set (map snd (main_items v db)) \<Longrightarrow> i \<in> set (bd_items db) \<and> bi_invoice i = v"
  using set_mset_mono [OF mset_main_items [of v db]] by auto

text \<open>The main items depend on the items with a volume and on the plans alone.\<close>

lemma main_items_cong:
  assumes "filter (\<lambda>i. bi_discount_usage i \<noteq> None) (bd_items s) = filter (\<lambda>i. bi_discount_usage i \<noteq> None) (bd_items t)"
    and "bd_plans s = bd_plans t"
  shows "main_items v s = main_items v t"
proof -
  have skip: "bi_discount_usage i = None \<Longrightarrow> main_entry t i = []" for i by (auto simp: main_entry_def split: option.split)
  have part: "concat (map (main_entry t) (filter (\<lambda>i. bi_invoice i = v) is)) =
      concat (map (main_entry t) (filter (\<lambda>i. bi_invoice i = v) (filter (\<lambda>i. bi_discount_usage i \<noteq> None) is)))" for "is"
    by (induction "is") (auto simp: skip)
  have "find_plan_component s = find_plan_component t"
    by (rule ext) (simp add: find_plan_component_def assms(2))
  then have "main_entry s = main_entry t" by (intro ext) (simp only: main_entry_def)
  moreover have "concat (map (main_entry t) (filter (\<lambda>i. bi_invoice i = v) (bd_items s))) =
      concat (map (main_entry t) (filter (\<lambda>i. bi_invoice i = v) (bd_items t)))"
    by (rule trans [OF part trans [OF _ part [symmetric]]]) (simp only: assms(1))
  ultimately show ?thesis by (simp only: main_items_def)
qed

subsection \<open>Lines\<close>

lemma discount_item_fields [simp]:
  "bi_is_discount (discount_item i p)" "bi_invoice (discount_item i p) = bi_invoice i"
  "bi_discount_usage (discount_item i p) = None" "bi_discount_of (discount_item i p) = Some (bi_pk i)"
  "bi_resource (discount_item i p) = bi_resource i" "bi_unit_price (discount_item i p) = - discount_amount i p"
  "bi_quantity (discount_item i p) = 1"
  by (simp_all add: discount_item_def)

definition line_of :: "billing_item \<Rightarrow> billing_item \<Rightarrow> bool" where
  "line_of i l \<longleftrightarrow> (\<exists>p. 0 < p \<and> p \<le> 100 \<and> 0 < discount_amount i p \<and> l = discount_item i p)"

lemma percent_bounds: "evaluate_percent P f u = Inr p \<Longrightarrow> 0 \<le> p \<and> p \<le> 100"
  by (auto simp: evaluate_percent_def rbind_eq_Inr split: prod.splits)

text \<open>Every group yields lines for some of its items, in their order.\<close>

lemma group_lines_of:
  assumes "group_lines P (pc, is) = Inr ls"
  shows "\<exists>js. subseq js is \<and> list_all2 line_of js ls"
proof -
  have lines: "\<exists>js. subseq js is \<and> list_all2 line_of js (concat (map (\<lambda>i. create_discount_item i p) is))"
    if p: "0 < p" "p \<le> 100" for p
  proof (induction "is")
    case (Cons i "is")
    then obtain js where js: "subseq js is" "list_all2 line_of js (concat (map (\<lambda>i. create_discount_item i p) is))" by blast
    show ?case
    proof (cases "discount_amount i p \<le> 0")
      case True
      then show ?thesis using js by (auto simp: create_discount_item_def)
    next
      case False
      then have "line_of i (discount_item i p)" using p by (auto simp: line_of_def)
      then show ?thesis using js False by (intro exI [of _ "i # js"]) (simp add: create_discount_item_def)
    qed
  qed simp
  show ?thesis
  proof (cases "evaluate_percent P (strip (bc_discount_formula pc)) (total_usage is)")
    case (Inl e)
    then have "ls = []" using assms by (auto simp: group_lines_def split: formula_exn.splits)
    then show ?thesis by auto
  next
    case (Inr p)
    then show ?thesis
      using assms lines [of p] percent_bounds [OF Inr] by (cases "p \<le> 0") (auto simp: group_lines_def)
  qed
qed

lemma all_lines_of:
  assumes "all_lines P gs = Inr ls"
  shows "\<exists>js. subseq js (group_items gs) \<and> list_all2 line_of js ls"
  using assms
proof (induction gs arbitrary: ls)
  case (Cons g gs)
  then obtain as bs where ab: "group_lines P g = Inr as" "all_lines P gs = Inr bs" "ls = as @ bs"
    by (auto simp: rbind_eq_Inr)
  obtain pc "is" where g: "g = (pc, is)" by (cases g)
  from group_lines_of [of P pc "is" as] ab(1) obtain js where "subseq js is" "list_all2 line_of js as" by (auto simp: g)
  moreover from Cons.IH [OF ab(2)] obtain ks where "subseq ks (group_items gs)" "list_all2 line_of ks bs" by blast
  ultimately show ?case
    by (intro exI [of _ "js @ ks"]) (simp add: ab(3) g group_items_def list_emb_append_mono list_all2_appendI)
qed (simp add: group_items_def)

lemma quantize_quantized [simp]: "quantize_price (quantize_price x) = quantize_price x"
  by (auto simp: quantize_price_def)

lemma quantize_uminus: "quantize_price (- x) = - quantize_price x"
  by (auto simp: quantize_price_def)

lemma quantize_pos: "0 < quantize_price x \<longleftrightarrow> 0 < x"
  by (auto simp: quantize_price_def zero_less_divide_iff)

lemma line_price:
  assumes "line_of i l"
  shows "0 < - billed_price l" "- billed_price l \<le> billed_price i"
proof -
  from assms obtain p where p: "0 < p" "p \<le> 100" "0 < discount_amount i p" "l = discount_item i p"
    by (auto simp: line_of_def)
  let ?x = "bi_unit_price i * bi_quantity i"
  have price: "- billed_price l = discount_amount i p"
    using p by (simp add: billed_price_def discount_amount_def quantize_uminus)
  then show "0 < - billed_price l" using p by simp
  have "0 < ?x * p / 100" using p(3) by (simp add: discount_amount_def quantize_pos)
  then have "0 < ?x" using p(1) by (simp add: zero_less_mult_iff)
  then have "?x * p \<le> ?x * 100" using p(2) by (intro mult_left_mono) simp_all
  then have "?x * p / 100 \<le> ?x" by simp
  then have "discount_amount i p \<le> billed_price i"
    unfolding discount_amount_def billed_price_def using \<open>0 < ?x * p / 100\<close> by (intro quantize_price_mono) simp_all
  then show "- billed_price l \<le> billed_price i" by (simp add: price)
qed

end
