(* ===== verification/Limit_Billing_Properties.thy ===== *)
theory Limit_Billing_Properties
  imports Limit_Billing_Outcomes Order_Examples
begin

text \<open>
  The properties of limit billing, each with a witness on a small plan: a monthly component of a
  resource created in year 2, and a component with an annual or a total limit.
\<close>

subsection \<open>A small plan\<close>

definition demo_oc :: "string \<Rightarrow> limit_period \<Rightarrow> offering_component" where
  "demo_oc t period = \<lparr>oc_type = t, oc_billing_type = LIMIT, billed_per_plan = False, oc_is_prepaid = False,
     oc_limit_period = period, oc_measured_unit = ''GB''\<rparr>"

definition demo_bc :: "nat \<Rightarrow> offering_component \<Rightarrow> billed_component" where
  "demo_bc pk c = \<lparr>bc_pk = pk, bc_component = Some c, bc_amount = 1, bc_price = 10,
     bc_discount_formula = '''', bc_discount_aggregation = PER_RESOURCE\<rparr>"

definition demo_plan_of :: "units \<Rightarrow> offering_component \<Rightarrow> billing_plan" where
  "demo_plan_of u c = \<lparr>bp_uuid = 1, bp_offering_type = ''basic'', bp_mode = MODE_INHERIT, bp_unit = u,
     bp_components = [demo_bc 1 c]\<rparr>"

definition moment :: "nat \<Rightarrow> nat \<Rightarrow> nat \<Rightarrow> int \<Rightarrow> datetime" where
  "moment y m d hour = \<lparr>dt_date = \<lparr>cd_year = y, cd_month = m, cd_day = d\<rparr>, dt_us = hour * 3600000000\<rparr>"

definition demo_resource :: "units \<Rightarrow> offering_component \<Rightarrow> rat \<Rightarrow> billing_resource" where
  "demo_resource u c limit = \<lparr>rs_pk = 7, rs_customer = 1, rs_project = 1,
     rs_offering = \<lparr>bo_pk = 1, bo_type = ''basic'', bo_billable = True, bo_components = [c], bo_factors = []\<rparr>,
     rs_plan = Some (demo_plan_of u c), rs_limits = [(oc_type c, limit)], rs_state = RES_OK,
     rs_created = moment 2 5 3 12, rs_end_date = None, rs_coupon = None\<rparr>"

definition demo_db :: "units \<Rightarrow> offering_component \<Rightarrow> billing_item list \<Rightarrow> billing_db" where
  "demo_db u c is = \<lparr>bd_invoices = [], bd_items = is, bd_resources = [], bd_plans = [demo_plan_of u c],
     bd_campaigns = [], bd_discounted = [], bd_next = 20\<rparr>"

definition demo_c :: offering_component where
  "demo_c = demo_oc ''ram'' MONTH"

definition demo_r :: billing_resource where
  "demo_r = demo_resource PER_MONTH demo_c 10"

text \<open>The item billed for May from the third on, with its limit of 10.\<close>

definition demo_item :: billing_item where
  "demo_item = (limit_item demo_r (demo_plan_of PER_MONTH demo_c) (demo_bc 1 demo_c) demo_c 5
     (moment 2 5 3 12) (month_end (dt_date (moment 2 5 3 12))))\<lparr>bi_pk := 11\<rparr>"

lemmas demo_billing_defs = demo_oc_def demo_bc_def demo_plan_of_def moment_def demo_resource_def demo_db_def
  demo_c_def demo_r_def demo_item_def

subsection \<open>Quantities of fixed items\<close>

text \<open>
  The loop of get_full_quarters ends and the quantity of a fixed item is defined for every unit.  A
  plan paid by quarter charges one period for every quarter that begins within the item: an item that
  starts after the first instant of a quarter is charged nothing for it.
\<close>

theorem fixed_quantity_returns:
  assumes "valid_datetime start" "valid_datetime stop" "\<not> before stop start"
  shows "(\<exists>q. get_quantity u start stop = Some q) \<and>
     get_quantity PER_QUARTER start stop =
       Some (of_nat (quarter_index stop - quarter_index start + (if before (get_quarter_start start) start then 0 else 1)))"
proof -
  note q = full_quarters_eq [OF assms]
  have "get_quantity u start stop \<noteq> None" by (cases u) (simp_all add: get_quantity_def q Let_def)
  then show ?thesis by (simp add: get_quantity_def q Let_def)
qed

theorem fixed_quantity_returns_witness:
  "get_quantity PER_QUARTER (moment 2 5 3 12) (moment 2 11 1 0) = Some 2"
  using fixed_quantity_returns [of "moment 2 5 3 12" "moment 2 11 1 0" PER_QUARTER]
  by (simp add: moment_def valid_datetime_def valid_date_def days_in_month_def day_us_def before_def micros_def
      ordinal_def to_ordinal_def get_quarter_start_def quarter_index_def is_leap_def upt_conv_Cons)

subsection \<open>Changed limits\<close>


text \<open>
  A limit that is lowered and restored on the same day is charged above what the resource ever had:
  with a period of n days, an item per day is charged (a - b) limits more than n days of a, and an item per
  month (a - b)/n more than a.
\<close>

theorem restored_limit_overcharged:
  assumes plan: "rs_plan r = Some p" and keys: "distinct (map bi_pk (bd_items db))"
    and row: "get_row (billed_on r p t invoice) (bd_items db) = Inr i"
    and item: "bi_limit_periods i = Some [serialize_resource_limit_period (bi_start i) stop a]" "bi_end i = stop"
    and days: "day_start (bi_start i)" "day_end stop" "0 < get_full_days (bi_start i) stop"
    and limits: "convert_quantity la (bo_type (rs_offering r)) t None = a"
      "convert_quantity lb (bo_type (rs_offering r)) t None = b" "b < a"
    and clocks: "moment_ok c1" "moment_ok c2" "dt_date c2 = dt_date c1"
      "ends_period r t stop c1" "ends_period r t stop c2"
    and lowered: "update_invoice_item c1 r t invoice lb db = Inr db1"
    and restored: "update_invoice_item c2 r t invoice la db1 = Inr db2"
  shows "\<exists>j\<in>set (bd_items db2). bi_pk j = bi_pk i \<and>
     bi_quantity j = (let n = of_int (get_full_days (bi_start i) stop)
                      in if bp_unit p = PER_DAY then a * n + (a - b) else a + (a - b) / n)"
proof -
  let ?first = "serialize_resource_limit_period (bi_start i) stop a"
  define j where "j = prorated (bp_unit p) c1 b stop [] ?first i"
  have db1: "db1 = save_item j db"
    using update_invoice_item_changed [OF lowered plan clocks(4) row item(1) limits(2)] limits(3) by (simp add: j_def)
  have row1: "get_row (billed_on r p t invoice) (bd_items db1) = Inr j"
    unfolding db1 using get_row_in [OF row] by (intro get_row_save [OF row keys]) (simp_all add: j_def)
  obtain old_end new_start where "split_at (b < lp_quantity ?first) c1 = (old_end, new_start)" by (rule prod.exhaust)
  from prorated_periods [OF this, of "bp_unit p" stop "[]" i]
  obtain ps where ps: "bi_limit_periods j = Some ps" by (simp add: j_def)
  note out = lowered_then_raised [OF item days clocks(1-3) limits(3) j_def ps]
  let ?k = "prorated (bp_unit p) c2 a stop (butlast ps) (last ps) j"
  have db2: "db2 = save_item ?k db1"
    using update_invoice_item_changed [OF restored plan clocks(5) row1 ps limits(1)] limits(3) out(1) by simp
  have keys1: "distinct (map bi_pk (bd_items db1))" using keys by (simp add: db1 del: map_map)
  have "billed_on r p t invoice ?k" using get_row_in [OF row1] by simp
  then have "get_row (billed_on r p t invoice) (bd_items (save_item ?k db1)) = Inr ?k"
    by (rule get_row_save [OF row1 keys1 prorated_fields(1)])
  then have "get_row (billed_on r p t invoice) (bd_items db2) = Inr ?k" by (simp only: db2)
  then have "?k \<in> set (bd_items db2)" by (rule get_row_in [THEN conjunct1])
  moreover have "bi_pk ?k = bi_pk i" by (simp add: j_def)
  ultimately show ?thesis using out(3) by (intro bexI [of _ ?k]) (simp_all only:)
qed

definition demo_item_db :: billing_db where
  "demo_item_db = demo_db PER_MONTH demo_c [demo_item]"

definition demo_stop :: datetime where
  "demo_stop = month_end (dt_date (moment 2 5 3 12))"

lemma demo_item_facts:
  "bi_start demo_item = moment 2 5 3 12" "bi_end demo_item = demo_stop"
  "bi_limit_periods demo_item = Some [serialize_resource_limit_period (moment 2 5 3 12) demo_stop 10]"
  "billed_on demo_r (demo_plan_of PER_MONTH demo_c) ''ram'' 5 demo_item"
  by (simp_all add: demo_item_def limit_item_def demo_stop_def Let_def demo_r_def demo_resource_def demo_c_def
      demo_oc_def demo_plan_of_def demo_bc_def convert_quantity_def get_default_def SLURM_OFFERING_def
      OPENSTACK_TENANT_OFFERING_def billed_on_def)

lemma demo_period: "ends_period demo_r ''ram'' demo_stop (moment 2 5 d h)"
  by (simp add: ends_period_def get_row_def demo_r_def demo_resource_def demo_c_def demo_oc_def limit_period_for_def
      get_billing_period_def resolve_component_def own_values_def demo_plan_of_def demo_stop_def moment_def month_end_def)

lemma demo_quantity: "convert_quantity q (bo_type (rs_offering demo_r)) ''ram'' None = q"
  by (simp add: demo_r_def demo_resource_def convert_quantity_def SLURM_OFFERING_def OPENSTACK_TENANT_OFFERING_def)

lemma demo_rows: "rs_plan demo_r = Some (demo_plan_of PER_MONTH demo_c)"
  "get_row (\<lambda>c. oc_type c = ''ram'') (bo_components (rs_offering demo_r)) = Inr demo_c"
  "get_row (component_of_type ''ram'') (bp_components (demo_plan_of PER_MONTH demo_c)) = Inr (demo_bc 1 demo_c)"
  "get_billing_period (limit_period_for demo_c demo_r) clock demo_r = Inr (month_start (dt_date clock), month_end (dt_date clock))"
  by (simp_all add: get_row_def demo_r_def demo_resource_def demo_c_def demo_oc_def limit_period_for_def demo_bc_def
      get_billing_period_def resolve_component_def own_values_def demo_plan_of_def component_of_type_def)

text \<open>A change of the limit on the tenth, to any other limit, is recorded.\<close>

lemma demo_update:
  assumes "get_row (billed_on demo_r (demo_plan_of PER_MONTH demo_c) ''ram'' 5) (bd_items db) = Inr i"
    and "bi_limit_periods i = Some (p # ps)"
  shows "\<exists>db'. update_invoice_item (moment 2 5 d h) demo_r ''ram'' 5 q db = Inr db'"
  using assms by (simp add: update_invoice_item_def get_row_of_items demo_rows Let_def)

definition demo_lowered_item :: billing_item where
  "demo_lowered_item = prorated PER_MONTH (moment 2 5 10 9) 4 demo_stop []
     (serialize_resource_limit_period (moment 2 5 3 12) demo_stop 10) demo_item"

definition demo_lowered :: billing_db where
  "demo_lowered = save_item demo_lowered_item demo_item_db"

definition demo_restored :: billing_db where
  "demo_restored =
     (let ps = the (bi_limit_periods demo_lowered_item)
      in save_item (prorated PER_MONTH (moment 2 5 10 15) 10 demo_stop (butlast ps) (last ps) demo_lowered_item) demo_lowered)"

lemma demo_valid: "moment_ok (moment 2 5 10 9)" "moment_ok (moment 2 5 10 15)" "day_start (moment 2 5 3 12)" "day_end demo_stop"
  by (simp_all add: moment_ok_def moment_def valid_datetime_def valid_date_def days_in_month_def day_us_def
      day_start_def second_us_def day_end_def demo_stop_def month_end_def)

lemma demo_row: "get_row (billed_on demo_r (demo_plan_of PER_MONTH demo_c) ''ram'' 5) (bd_items demo_item_db) = Inr demo_item"
  using demo_item_facts(4) by (simp add: get_row_def demo_item_db_def demo_db_def)

lemma demo_keys: "distinct (map bi_pk (bd_items demo_item_db))"
  by (simp add: demo_item_db_def demo_db_def)

lemma demo_lowered_run: "update_invoice_item (moment 2 5 10 9) demo_r ''ram'' 5 4 demo_item_db = Inr demo_lowered"
proof -
  obtain db' where run: "update_invoice_item (moment 2 5 10 9) demo_r ''ram'' 5 4 demo_item_db = Inr db'"
    using demo_update [OF demo_row demo_item_facts(3)] by blast
  have "db' = demo_lowered"
    using update_invoice_item_changed [OF run demo_rows(1) demo_period demo_row demo_item_facts(3) demo_quantity]
    by (simp add: demo_lowered_def demo_lowered_item_def demo_plan_of_def)
  then show ?thesis using run by simp
qed

lemma demo_lowered_row:
  "get_row (billed_on demo_r (demo_plan_of PER_MONTH demo_c) ''ram'' 5) (bd_items demo_lowered) = Inr demo_lowered_item"
  unfolding demo_lowered_def
  by (rule get_row_save [OF demo_row demo_keys]) (simp_all add: demo_lowered_item_def demo_item_facts(4))

lemma demo_lowered_periods:
  "\<exists>p q. bi_limit_periods demo_lowered_item = Some [p, q] \<and> lp_quantity q = 4"
  by (simp add: demo_lowered_item_def prorated_def Let_def split: prod.split)

lemma demo_restored_run: "update_invoice_item (moment 2 5 10 15) demo_r ''ram'' 5 10 demo_lowered = Inr demo_restored"
proof -
  obtain p q where ps: "bi_limit_periods demo_lowered_item = Some [p, q]" "lp_quantity q = 4"
    using demo_lowered_periods by blast
  obtain db' where run: "update_invoice_item (moment 2 5 10 15) demo_r ''ram'' 5 10 demo_lowered = Inr db'"
    using demo_update [OF demo_lowered_row ps(1)] by blast
  have "db' = demo_restored"
    using update_invoice_item_changed [OF run demo_rows(1) demo_period demo_lowered_row ps(1) demo_quantity] ps
    by (simp add: demo_restored_def demo_plan_of_def Let_def)
  then show ?thesis using run by simp
qed

lemma demo_days: "get_full_days (moment 2 5 3 12) demo_stop = 29"
  unfolding whole_days [OF demo_valid(3,4)]
  by (simp add: moment_def demo_stop_def month_end_def ordinal_def to_ordinal_def days_in_month_def Let_def)


theorem restored_limit_overcharged_witness:
  "\<exists>j\<in>set (bd_items demo_restored). bi_pk j = 11 \<and> bi_quantity j = 10 + 6 / 29"
proof -
  have "\<exists>j\<in>set (bd_items demo_restored). bi_pk j = bi_pk demo_item \<and>
     bi_quantity j = (let n = of_int (get_full_days (bi_start demo_item) demo_stop)
                      in if bp_unit (demo_plan_of PER_MONTH demo_c) = PER_DAY then 10 * n + (10 - 4) else 10 + (10 - 4) / n)"
    by (rule restored_limit_overcharged [OF demo_rows(1) demo_keys demo_row _ _ _ _ _ demo_quantity demo_quantity _
          demo_valid(1,2) _ demo_period demo_period demo_lowered_run demo_restored_run])
       (simp_all add: demo_item_facts demo_valid demo_days, simp add: moment_def)
  then show ?thesis by (simp add: demo_item_facts demo_days demo_plan_of_def Let_def) (simp add: demo_item_def)
qed

subsection \<open>Annual limits\<close>

text \<open>
  The year of a component with an annual limit is charged twice.  The invoice of the month the resource
  was created in bills the year that begins at its creation; the invoice opened on the first day of the
  anniversary month bills the same year again, with the same start, end, price and quantity, because the
  anniversary of that month has not come yet.
\<close>

theorem annual_period_billed_twice:
  assumes component: "bc_component pc = Some c" "ef_billing_type (resolve_for p c) = LIMIT"
      "ef_limit_period (resolve_for p c) = ANNUAL" "has_limit r c"
    and created: "valid_datetime (rs_created r)" "\<not> leap_day (rs_created r)" "rs_created r \<noteq> month_start (dt_date (rs_created r))"
    and start: "cd_year (dt_date start) = cd_year (dt_date (rs_created r))"
      "cd_month (dt_date start) = cd_month (dt_date (rs_created r))" "\<not> before start (rs_created r)"
    and invoices: "invoice \<noteq> later" "items_of db (rs_pk r) (oc_type c) = []"
  shows "rbind (process_creation r p pc c invoice start stop kind db)
           (process_creation r p pc c later (next_anniversary_month (rs_created r)) stop' kind') =
         Inr (add_item (limit_item r p pc c later (rs_created r) (anniversary_end (rs_created r)))
               (add_item (limit_item r p pc c invoice (rs_created r) (anniversary_end (rs_created r))) db))"
proof -
  let ?s = "rs_created r"
  let ?first = "limit_item r p pc c invoice ?s (anniversary_end ?s)"
  have limited: "is_limited p c" using component by (simp add: is_limited_def)
  have "closed_items db (rs_pk r) p (oc_type c) invoice ?s = []"
    using invoices(2) by (simp add: closed_items_def)
  note one = limit_item_created [OF component(1) limited component(4) this, of "anniversary_end ?s"]
  have "closed_items (add_item ?first db) (rs_pk r) p (oc_type c) later ?s = []"
    using invoices by (simp add: closed_items_def items_of_add) (simp add: limit_item_def Let_def)
  note two = limit_item_created [OF component(1) limited component(4) this, of "anniversary_end ?s"]
  show ?thesis
    using component start one two first_annual_period [OF created(1,2) start(1,3)] second_annual_period [OF created]
    by (simp add: process_creation_def should_process_billing_def get_billing_period_def next_anniversary_month_def
        month_start_def Let_def)
qed

definition demo_annual :: offering_component where
  "demo_annual = demo_oc ''ram'' ANNUAL"

theorem annual_period_billed_twice_witness:
  "\<exists>db. rbind (process_creation (demo_resource PER_MONTH demo_annual 10) (demo_plan_of PER_MONTH demo_annual)
        (demo_bc 1 demo_annual) demo_annual 5 (moment 2 5 3 12) (moment 2 6 1 0) (Some CREATE) (demo_db PER_MONTH demo_annual []))
      (process_creation (demo_resource PER_MONTH demo_annual 10) (demo_plan_of PER_MONTH demo_annual)
        (demo_bc 1 demo_annual) demo_annual 6 (moment 3 5 1 0) (moment 3 6 1 0) None) = Inr db \<and>
    map (\<lambda>i. (bi_invoice i, bi_start i, bi_quantity i)) (bd_items db) = [(5, moment 2 5 3 12, 10), (6, moment 2 5 3 12, 10)]"
proof -
  have created: "rs_created (demo_resource PER_MONTH demo_annual 10) = moment 2 5 3 12"
    by (simp add: demo_resource_def)
  have "next_anniversary_month (moment 2 5 3 12) = moment 3 5 1 0"
    by (simp add: next_anniversary_month_def month_start_def moment_def)
  note twice = annual_period_billed_twice [of "demo_bc 1 demo_annual" demo_annual "demo_plan_of PER_MONTH demo_annual"
      "demo_resource PER_MONTH demo_annual 10" "moment 2 5 3 12" 5 6 "demo_db PER_MONTH demo_annual []"
      "moment 2 6 1 0" "Some CREATE" "moment 3 6 1 0" None, unfolded created this]
  show ?thesis
    by (subst twice)
       (simp_all add: demo_bc_def demo_annual_def demo_oc_def resolve_for_def resolve_component_def own_values_def
         demo_plan_of_def has_limit_def get_default_def demo_resource_def moment_def valid_datetime_def valid_date_def
         days_in_month_def day_us_def leap_day_def month_start_def before_def items_of_def demo_db_def
         add_item_def limit_item_def get_total_quantity_def convert_quantity_def SLURM_OFFERING_def
         OPENSTACK_TENANT_OFFERING_def Let_def)
qed

subsection \<open>Total limits\<close>

text \<open>
  Changing a total limit bills exactly the difference: at most one item is added, and the signed
  quantities recorded for the component then sum to the new limit, for an increase and a decrease alike.
\<close>

theorem total_limit_bills_difference:
  assumes "create_total_item clock r invoice t new_quantity c db = Inr db'" and "rs_state r = RES_OK"
    and "rs_plan r = Some p" "get_row (component_of_type t) (bp_components p) = Inr pc" "0 < bc_price pc"
  shows "billed_total db' (rs_pk r) t = new_quantity \<and>
     (\<exists>new. bd_items db' = bd_items db @ new \<and>
        length new = (if billed_total db (rs_pk r) t = new_quantity then 0 else 1))"
proof (cases "billed_total db (rs_pk r) t = new_quantity")
  case True
  then show ?thesis using assms by (simp add: create_total_item_def Let_def)
next
  case False
  let ?diff = "new_quantity - billed_total db (rs_pk r) t"
  from False assms obtain stop where "db' = add_item (difference_item clock stop r p pc invoice t ?diff) db"
    by (auto simp: create_total_item_def Let_def rbind_eq_Inr)
  then show ?thesis
    using False difference_billed [OF assms(5)] by (simp add: add_item_def)
qed

definition demo_total :: offering_component where
  "demo_total = demo_oc ''ram'' TOTAL"

definition demo_total_r :: billing_resource where
  "demo_total_r = demo_resource PER_MONTH demo_total 12"

definition demo_total_item :: billing_item where
  "demo_total_item = (limit_item (demo_resource PER_MONTH demo_total 10) (demo_plan_of PER_MONTH demo_total) (demo_bc 1 demo_total)
     demo_total 5 (moment 2 5 3 12) demo_stop)\<lparr>bi_pk := 11\<rparr>"

definition demo_total_db :: billing_db where
  "demo_total_db = demo_db PER_MONTH demo_total [demo_total_item]"

lemma demo_total_rows: "rs_state demo_total_r = RES_OK" "rs_plan demo_total_r = Some (demo_plan_of PER_MONTH demo_total)"
  "rs_pk demo_total_r = 7"
  "get_row (component_of_type ''ram'') (bp_components (demo_plan_of PER_MONTH demo_total)) = Inr (demo_bc 1 demo_total)"
  "0 < bc_price (demo_bc 1 demo_total)" "limit_period_for demo_total demo_total_r = TOTAL"
  by (simp_all add: demo_total_r_def demo_resource_def get_row_def demo_plan_of_def component_of_type_def demo_bc_def
      demo_total_def demo_oc_def limit_period_for_def resolve_component_def own_values_def)

lemma demo_total_item_facts: "bi_resource demo_total_item = Some 7" "bi_component_type demo_total_item = ''ram''"
  "\<not> bi_is_discount demo_total_item" "signed_quantity demo_total_item = 10"
  by (simp_all add: demo_total_item_def limit_item_def Let_def demo_resource_def demo_total_def demo_oc_def
      signed_quantity_def demo_bc_def convert_quantity_def get_default_def SLURM_OFFERING_def
      OPENSTACK_TENANT_OFFERING_def resolve_for_def resolve_component_def own_values_def demo_plan_of_def)

lemma demo_billed: "billed_total demo_total_db 7 ''ram'' = 10"
  using demo_total_item_facts by (simp add: billed_total_def items_of_def demo_total_db_def demo_db_def)

theorem total_limit_bills_difference_witness:
  "\<exists>db. create_total_item (moment 2 5 10 9) demo_total_r 5 ''ram'' 12 demo_total demo_total_db = Inr db \<and>
     billed_total db 7 ''ram'' = 12"
proof -
  obtain db where run: "create_total_item (moment 2 5 10 9) demo_total_r 5 ''ram'' 12 demo_total demo_total_db = Inr db"
    by (simp add: create_total_item_def demo_total_rows demo_billed Let_def get_billing_period_def)
  from total_limit_bills_difference [OF this demo_total_rows(1,2,4,5)] run show ?thesis
    by (simp add: demo_total_rows)
qed

text \<open>
  The compensations of an invoice count as negative quantities of a total limit.  They copy the details of the
  item they compensate and have a negative price, so after k of them the next change of any limit bills k
  units of the component again, at its price, although its limit has not changed.
\<close>

theorem compensations_recharge_total:
  assumes "rs_state r = RES_OK" "rs_plan r = Some p" "get_row (component_of_type t) (bp_components p) = Inr pc"
    and "limit_period_for c r = TOTAL" "0 < cost" "is \<noteq> []"
    and "\<And>i. i \<in> set is \<Longrightarrow> bi_resource i = Some (rs_pk r) \<and> bi_component_type i = t \<and> \<not> bi_is_discount i"
  shows "create_total_item clock r invoice t (billed_total db (rs_pk r) t) c (compensate_lines cost start stop is db) =
     Inr (add_item (difference_item clock (month_end (dt_date clock)) r p pc invoice t (of_nat (length is)))
           (compensate_lines cost start stop is db))"
  using assms(1-4,6) compensations_billed [OF assms(5,7), of "is" start stop db]
  by (simp add: create_total_item_def get_billing_period_def Let_def)

theorem compensations_recharge_total_witness:
  "\<exists>i. create_total_item (moment 2 6 10 9) demo_total_r 6 ''ram'' 10 demo_total
      (compensate_lines 100 (moment 2 5 1 0) demo_stop [demo_total_item] demo_total_db) =
    Inr (add_item i (compensate_lines 100 (moment 2 5 1 0) demo_stop [demo_total_item] demo_total_db)) \<and>
    bi_quantity i = 1 \<and> bi_unit_price i = 10"
  using compensations_recharge_total [OF demo_total_rows(1,2,4,6), of 100 "[demo_total_item]" "moment 2 6 10 9" 6
      demo_total_db "moment 2 5 1 0" demo_stop] demo_total_item_facts demo_billed
  by (intro exI [of _ "difference_item (moment 2 6 10 9) (month_end (dt_date (moment 2 6 10 9))) demo_total_r
        (demo_plan_of PER_MONTH demo_total) (demo_bc 1 demo_total) 6 ''ram'' 1"])
     (simp add: demo_total_rows, simp add: difference_item_def demo_bc_def)

subsection \<open>Switching back to a plan\<close>

text \<open>
  A resource that returns to a plan within the month continues the item the switch closed: no item is
  added, and with the same limit the item of a monthly plan charges the limit once, that of a daily plan
  the limit for the days of all its periods.
\<close>

theorem switch_back_continues_item:
  assumes "bc_component pc = Some c" "is_limited p c" "has_limit r c"
    and closed: "latest (closed_items db (rs_pk r) p (oc_type c) invoice start) = Some i" "bi_limit_periods i = Some ps"
    and same: "\<And>p. p \<in> set ps \<Longrightarrow> lp_quantity p = limit_quantity r c \<and> lp_total p = limit_quantity r c * of_int (period_days p)"
    and "0 < sum_list (map period_days ps) + get_full_days start stop"
  shows "map bi_pk (bd_items (create_limit_item r p pc invoice start stop db)) = map bi_pk (bd_items db) \<and>
     (\<exists>j\<in>set (bd_items (create_limit_item r p pc invoice start stop db)). bi_pk j = bi_pk i \<and> bi_end j = stop \<and>
        bi_quantity j = (if bi_unit i = PER_DAY
          then limit_quantity r c * of_int (sum_list (map period_days ps) + get_full_days start stop)
          else quantize_price (limit_quantity r c)))"
proof -
  let ?j = "reopened start stop (limit_quantity r c) i"
  have run: "create_limit_item r p pc invoice start stop db = save_item ?j db"
    by (rule limit_item_continued [OF assms(1-3) closed(1)])
  have "i \<in> set (bd_items db)" using latest_in [OF closed(1)] by (simp add: closed_items_def items_of_def)
  then have "?j \<in> set (bd_items (save_item ?j db))" by (auto simp: save_item_def set_update_rows)
  moreover have "map bi_pk (bd_items (save_item ?j db)) = map bi_pk (bd_items db)"
    by (simp add: save_item_def) (subst map_update_rows_same, simp_all)
  ultimately show ?thesis
    using reopened_quantity [OF closed(2) same assms(7)] by (auto simp: run intro!: bexI [of _ ?j])
qed

definition demo_closed :: billing_item where
  "demo_closed = demo_item\<lparr>bi_end := moment 2 5 10 9,
     bi_limit_periods := Some [serialize_resource_limit_period (moment 2 5 3 12) (moment 2 5 10 9) 10]\<rparr>"

theorem switch_back_continues_item_witness:
  "\<exists>j\<in>set (bd_items (create_limit_item demo_r (demo_plan_of PER_MONTH demo_c) (demo_bc 1 demo_c) 5 (moment 2 5 20 8)
       demo_stop (demo_db PER_MONTH demo_c [demo_closed]))). bi_pk j = 11 \<and> bi_quantity j = 10"
proof -
  let ?db = "demo_db PER_MONTH demo_c [demo_closed]" and ?p = "demo_plan_of PER_MONTH demo_c"
  have limited: "is_limited ?p demo_c" "has_limit demo_r demo_c" "limit_quantity demo_r demo_c = 10"
    "bc_component (demo_bc 1 demo_c) = Some demo_c" "oc_type demo_c = ''ram''"
    by (simp_all add: is_limited_def has_limit_def limit_quantity_def demo_c_def demo_oc_def demo_plan_of_def demo_r_def
        demo_resource_def demo_bc_def resolve_for_def resolve_component_def own_values_def get_default_def
        convert_quantity_def SLURM_OFFERING_def OPENSTACK_TENANT_OFFERING_def)
  have "before (moment 2 5 10 9) (moment 2 5 20 8)"
    by (simp add: before_def micros_def moment_def ordinal_def to_ordinal_def days_in_month_def day_us_def Let_def)
  then have closed: "latest (closed_items ?db (rs_pk demo_r) ?p (oc_type demo_c) 5 (moment 2 5 20 8)) = Some demo_closed"
    using demo_item_facts(4)
    by (simp add: closed_items_def items_of_def demo_db_def demo_closed_def billed_on_def limited)
  have days: "get_full_days (moment 2 5 20 8) demo_stop = 12" "get_full_days (moment 2 5 3 12) (moment 2 5 10 9) = 7"
    by (simp_all add: full_days_eq moment_def demo_stop_def month_end_def ordinal_def to_ordinal_def days_in_month_def
        day_us_def Let_def)
  have "bi_unit demo_closed = PER_MONTH" "bi_pk demo_closed = 11"
    by (simp_all add: demo_closed_def demo_item_def limit_item_def Let_def demo_plan_of_def resolve_for_def
        resolve_component_def own_values_def demo_c_def demo_oc_def)
  then show ?thesis
    using switch_back_continues_item [OF limited(4,1,2) closed, of "[serialize_resource_limit_period (moment 2 5 3 12) (moment 2 5 10 9) 10]" demo_stop]
    by (simp add: demo_closed_def limited days quantize_price_def) blast
qed

end
