(* ===== verification/Volume_Discount_Properties.thy ===== *)
theory Volume_Discount_Properties
  imports Volume_Discount_Facts Limit_Billing_Properties
begin

text \<open>
  The properties of volume discounts and of the formulas they are computed from, with witnesses over a
  platform whose floats are the rationals below the float range.
\<close>

subsection \<open>A pass as a list of lines\<close>

lemma subseq_mset: "subseq js is \<Longrightarrow> mset js \<subseteq># mset is"
proof (induction rule: list_emb.induct)
  case (list_emb_Cons xs ys y)
  then show ?case by (metis add_mset_add_single mset.simps(2) mset_subset_eq_add_left subset_mset.order_trans)
qed simp_all

lemma pass_lines:
  assumes "apply_aggregated_volume_discounts P v db = (Inr (), db')"
  obtains ls js where "db' = fold add_item ls (drop_discounts v db)"
    "all_lines P (discount_groups (main_items v (drop_discounts v db))) = Inr ls"
    "mset js \<subseteq># mset (filter (\<lambda>i. bi_invoice i = v) (bd_items (drop_discounts v db)))" "list_all2 line_of js ls"
proof -
  from assms obtain ls where ls: "db' = fold add_item ls (drop_discounts v db)"
      "all_lines P (discount_groups (main_items v (drop_discounts v db))) = Inr ls"
    by (auto simp: pass_run)
  from all_lines_of [OF ls(2)] obtain js where js:
      "subseq js (group_items (discount_groups (main_items v (drop_discounts v db))))" "list_all2 line_of js ls" by blast
  have "mset js \<subseteq># mset (filter (\<lambda>i. bi_invoice i = v) (bd_items (drop_discounts v db)))"
    using subseq_mset [OF js(1)] discount_groups_sub mset_main_items by (blast intro: subset_mset.order_trans)
  with ls js(2) show thesis using that by blast
qed

lemma line_of_fields:
  "line_of i l \<Longrightarrow> bi_is_discount l \<and> bi_invoice l = bi_invoice i \<and> bi_discount_usage l = None \<and>
     bi_discount_of l = Some (bi_pk i) \<and> bi_resource l = bi_resource i"
  by (auto simp: line_of_def)

lemma lines_fields:
  assumes "list_all2 line_of js ls" "\<And>j. j \<in> set js \<Longrightarrow> bi_invoice j = v"
  shows "\<forall>l\<in>set ls. bi_is_discount l \<and> bi_invoice l = v \<and> bi_discount_usage l = None"
  using assms by (induction rule: list_all2_induct) (auto dest: line_of_fields)

lemma submset_distinct: "mset xs \<subseteq># mset ys \<Longrightarrow> distinct ys \<Longrightarrow> distinct xs"
proof -
  assume sub: "mset xs \<subseteq># mset ys" and ys: "distinct ys"
  have "count (mset xs) a = (if a \<in> set xs then 1 else 0)" for a
  proof -
    have "count (mset xs) a \<le> count (mset ys) a" using sub by (rule mset_subset_eq_count)
    moreover have "count (mset ys) a \<le> 1" using ys by (simp add: distinct_count_atmost_1)
    moreover have "a \<in> set xs \<Longrightarrow> 1 \<le> count (mset xs) a" by (metis count_greater_eq_one_iff set_mset_mset)
    moreover have "a \<notin> set xs \<Longrightarrow> count (mset xs) a = 0" by (metis not_in_iff set_mset_mset)
    ultimately show ?thesis by (metis le_antisym le_trans)
  qed
  then show ?thesis by (simp add: distinct_count_atmost_1)
qed

lemma drop_discounts_mset: "mset (bd_items (drop_discounts v db)) \<subseteq># mset (bd_items db)"
  by (simp add: drop_discounts_def)

subsection \<open>Rebuilding\<close>

text \<open>
  C36. The volume discounts of an invoice are rebuilt, not added: a second pass over the same invoice
  returns as well and leaves the same items, up to the identifiers of the new lines.
\<close>

theorem discounts_rebuilt:
  assumes "apply_aggregated_volume_discounts P v db = (Inr (), db')"
  shows "\<exists>db''. apply_aggregated_volume_discounts P v db' = (Inr (), db'') \<and>
     map (\<lambda>i. i\<lparr>bi_pk := 0\<rparr>) (filter bi_is_discount (bd_items db'')) = map (\<lambda>i. i\<lparr>bi_pk := 0\<rparr>) (filter bi_is_discount (bd_items db')) \<and>
     filter (\<lambda>i. \<not> bi_is_discount i) (bd_items db'') = filter (\<lambda>i. \<not> bi_is_discount i) (bd_items db')"
proof -
  let ?s = "drop_discounts v db"
  from assms obtain ls js where run: "db' = fold add_item ls ?s"
      "all_lines P (discount_groups (main_items v ?s)) = Inr ls"
      "mset js \<subseteq># mset (filter (\<lambda>i. bi_invoice i = v) (bd_items ?s))" "list_all2 line_of js ls"
    by (rule pass_lines)
  have "bi_invoice j = v" if "j \<in> set js" for j using set_mset_mono [OF run(3)] that by auto
  then have ls: "\<forall>l\<in>set ls. bi_is_discount l \<and> bi_invoice l = v \<and> bi_discount_usage l = None"
    using lines_fields [OF run(4)] by blast
  have new: "\<forall>l\<in>set (numbered n ls). bi_is_discount l \<and> bi_invoice l = v" for n
    using numbered_members [of _ n ls] ls by fastforce
  let ?t = "drop_discounts v db'"
  have "filter (\<lambda>i. \<not> (bi_invoice i = v \<and> bi_is_discount i)) (numbered (bd_next ?s) ls) = []"
    using new by (auto simp: filter_empty_conv)
  then have items: "bd_items ?t = bd_items ?s"
    by (simp add: drop_discounts_def run(1) items_after_pass)
  have "bd_plans ?t = bd_plans ?s" by (simp add: drop_discounts_def run(1) fold_add_frame)
  then have "main_items v ?t = main_items v ?s" by (intro main_items_cong) (simp_all add: items)
  then have again: "apply_aggregated_volume_discounts P v db' = (Inr (), fold add_item ls ?t)"
    using run(2) by (simp add: pass_run)
  have discount: "filter bi_is_discount (numbered n ls) = numbered n ls" "filter (\<lambda>i. \<not> bi_is_discount i) (numbered n ls) = []" for n
    using new [of n] by (auto simp: filter_id_conv filter_empty_conv)
  have "map (\<lambda>i. i\<lparr>bi_pk := 0\<rparr>) (numbered n ls) = map (\<lambda>i. i\<lparr>bi_pk := 0\<rparr>) ls" for n
    by (rule numbered_map) simp
  then show ?thesis
    using again by (simp add: items_after_pass items [unfolded run(1)] run(1) discount)
qed

subsection \<open>Bounds\<close>

text \<open>
  C32. After a pass every discount line of the invoice belongs to one item of it, is worth more than nothing
  and at most the price of that item, and no item has two: a discount never makes an item cost less than
  nothing.
\<close>

theorem discounts_bounded:
  assumes "apply_aggregated_volume_discounts P v db = (Inr (), db')" "distinct (map bi_pk (bd_items db))"
  shows "(\<forall>l\<in>set (filter (\<lambda>i. bi_invoice i = v \<and> bi_is_discount i) (bd_items db')).
       \<exists>i\<in>set (bd_items db'). bi_discount_of l = Some (bi_pk i) \<and> bi_resource l = bi_resource i \<and>
         0 < - billed_price l \<and> - billed_price l \<le> billed_price i) \<and>
     distinct (map bi_discount_of (filter (\<lambda>i. bi_invoice i = v \<and> bi_is_discount i) (bd_items db')))"
proof -
  let ?s = "drop_discounts v db"
  from assms(1) obtain ls js where run: "db' = fold add_item ls ?s"
      "all_lines P (discount_groups (main_items v ?s)) = Inr ls"
      "mset js \<subseteq># mset (filter (\<lambda>i. bi_invoice i = v) (bd_items ?s))" "list_all2 line_of js ls"
    by (rule pass_lines)
  have js: "set js \<subseteq> set (bd_items ?s)" "\<And>j. j \<in> set js \<Longrightarrow> bi_invoice j = v"
    using set_mset_mono [OF run(3)] by auto
  have ls: "\<forall>l\<in>set ls. bi_is_discount l \<and> bi_invoice l = v \<and> bi_discount_usage l = None"
    by (rule lines_fields [OF run(4) js(2)])
  have new: "\<forall>l\<in>set (numbered n ls). bi_is_discount l \<and> bi_invoice l = v" for n
    using numbered_members [of _ n ls] ls by fastforce
  have discounts: "filter (\<lambda>i. bi_invoice i = v \<and> bi_is_discount i) (bd_items db') = numbered (bd_next ?s) ls"
    using new by (simp add: run(1) items_after_pass filter_id_conv) (auto simp: drop_discounts_def filter_empty_conv)
  have "\<exists>i\<in>set js. line_of i l" if "l \<in> set ls" for l
    using run(4) that by (induction rule: list_all2_induct) auto
  then have "\<exists>i\<in>set (bd_items db'). bi_discount_of k = Some (bi_pk i) \<and> bi_resource k = bi_resource i \<and>
         0 < - billed_price k \<and> - billed_price k \<le> billed_price i"
    if "k \<in> set (numbered (bd_next ?s) ls)" for k
    using numbered_members [OF that] js(1) line_price line_of_fields
    by (fastforce simp: run(1) items_after_pass billed_price_def)
  moreover have "map bi_discount_of ls = map (\<lambda>i. Some (bi_pk i)) js"
    using run(4) by (induction rule: list_all2_induct) (auto dest: line_of_fields)
  moreover have "distinct (map (\<lambda>i. Some (bi_pk i)) js)"
  proof -
    have "mset js \<subseteq># mset (bd_items (drop_discounts v db))"
      using run(3) by (rule subset_mset.order_trans) simp
    then have "mset js \<subseteq># mset (bd_items db)" using drop_discounts_mset by (rule subset_mset.order_trans)
    then have "mset (map bi_pk js) \<subseteq># mset (map bi_pk (bd_items db))" by (simp add: image_mset_subseteq_mono)
    then have "distinct (map bi_pk js)" using assms(2) by (rule submset_distinct)
    then show ?thesis by (simp add: distinct_map inj_on_def)
  qed
  moreover have "map bi_discount_of (numbered n ls) = map bi_discount_of ls" for n by (rule numbered_map) simp
  ultimately show ?thesis unfolding discounts by simp
qed

subsection \<open>A platform and an invoice\<close>

definition to_rat :: "int + rat \<Rightarrow> rat" where
  "to_rat a = (case a of Inl n \<Rightarrow> of_int n | Inr x \<Rightarrow> x)"

definition demo_operation :: "bin_op \<Rightarrow> rat \<Rightarrow> rat \<Rightarrow> (py_error, rat) result" where
  "demo_operation op x y =
     (case op of Add_op \<Rightarrow> Inr (x + y) | Sub_op \<Rightarrow> Inr (x - y) | Mult_op \<Rightarrow> Inr (x * y)
      | Div_op \<Rightarrow> if y = 0 then Inl ZeroDivisionError else Inr (x / y)
      | FloorDiv \<Rightarrow> if y = 0 then Inl ZeroDivisionError else Inr (of_int \<lfloor>x / y\<rfloor>)
      | Mod_op \<Rightarrow> if y = 0 then Inl ZeroDivisionError else Inr (x - y * of_int \<lfloor>x / y\<rfloor>)
      | Pow_op \<Rightarrow> if 0 \<le> y then Inr (x ^ nat \<lfloor>y\<rfloor>) else if x = 0 then Inl ZeroDivisionError else Inr (1 / x ^ nat \<lfloor>- y\<rfloor>)
      | Other_bin \<Rightarrow> Inl TypeError)"

fun demo_compare :: "cmp_op \<Rightarrow> rat \<Rightarrow> rat \<Rightarrow> bool" where
  "demo_compare Lt a b = (a < b)"
| "demo_compare LtE a b = (a \<le> b)"
| "demo_compare Gt a b = (b < a)"
| "demo_compare GtE a b = (b \<le> a)"
| "demo_compare Eq a b = (a = b)"
| "demo_compare _ a b = (a \<noteq> b)"

definition demo_floats :: "rat floats" where
  "demo_floats =
     \<lparr>fl_of_int = (\<lambda>n. if \<bar>n\<bar> < 2 ^ 1024 then Inr (of_int n) else Inl OverflowError),
      fl_bin = demo_operation,
      fl_int_quotient = (\<lambda>a b. if b = 0 then Inl ZeroDivisionError else Inr (of_int a / of_int b)),
      fl_int_power = (\<lambda>a b. if a = 0 then Inl ZeroDivisionError else Inr (1 / of_int a ^ nat (- b))),
      fl_compare = (\<lambda>op a b. Inr (demo_compare op (to_rat a) (to_rat b))),
      fl_negate = uminus, fl_abs = (\<lambda>x. Inr \<bar>x\<bar>), fl_floor = (\<lambda>x. Inr \<lfloor>x\<rfloor>), fl_ceil = (\<lambda>x. Inr \<lceil>x\<rceil>),
      fl_math = (\<lambda>_ _. Inl ValueError), fl_truth = (\<lambda>x. x \<noteq> 0), fl_is_float = (\<lambda>_. True),
      fl_is_finite = (\<lambda>_. True), fl_decimal = id\<rparr>"

definition demo_platform :: "rat formula_platform" where
  "demo_platform = (demo_floats, id, \<lambda>s. if s = ''10'' then Some (Constant (CInt 10)) else None)"

definition demo_discounted_plan :: billing_plan where
  "demo_discounted_plan = (demo_plan_of PER_MONTH demo_c)\<lparr>bp_components :=
     [(demo_bc 1 demo_c)\<lparr>bc_discount_formula := ''10'', bc_discount_aggregation := PER_CUSTOMER\<rparr>]\<rparr>"

definition demo_discount_db :: billing_db where
  "demo_discount_db = demo_item_db\<lparr>bd_plans := [demo_discounted_plan]\<rparr>"

lemma demo_item_values: "bi_pk demo_item = 11" "bi_invoice demo_item = 5" "\<not> bi_is_discount demo_item"
  "bi_plan_component demo_item = Some 1" "bi_resource demo_item = Some 7" "bi_discount_usage demo_item = Some 10"
  "bi_unit_price demo_item = 10" "bi_quantity demo_item = 10"
  by (simp_all add: demo_item_def limit_item_def Let_def demo_r_def demo_resource_def demo_c_def demo_oc_def
      demo_plan_of_def demo_bc_def convert_quantity_def get_default_def SLURM_OFFERING_def
      OPENSTACK_TENANT_OFFERING_def resolve_for_def resolve_component_def own_values_def get_total_quantity_def)

lemma demo_strip [simp]: "strip ''10'' = ''10''"
  by code_simp

lemma demo_percent: "evaluate_percent demo_platform ''10'' u = Inr 10"
  by (simp add: evaluate_percent_def demo_platform_def evaluate_def MAX_FORMULA_LENGTH_def
      MAX_NODE_COUNT_def demo_floats_def raising_def caught_def final_value_def)

lemma demo_dropped: "drop_discounts 5 demo_discount_db = demo_discount_db"
  using demo_item_values
  by (simp add: drop_discounts_def demo_discount_db_def demo_item_db_def demo_db_def)

lemma demo_main: "main_items 5 demo_discount_db =
    [((demo_bc 1 demo_c)\<lparr>bc_discount_formula := ''10'', bc_discount_aggregation := PER_CUSTOMER\<rparr>, demo_item)]"
  using demo_item_values
  by (simp add: main_items_def main_entry_def demo_discount_db_def demo_item_db_def demo_db_def find_plan_component_def
      demo_discounted_plan_def demo_plan_of_def demo_bc_def)

lemma demo_pass: "apply_aggregated_volume_discounts demo_platform 5 demo_discount_db =
    (Inr (), add_item (discount_item demo_item 10) demo_discount_db)"
proof -
  have "discount_amount demo_item 10 = 10"
    by (simp add: discount_amount_def demo_item_values quantize_price_def)
  then have "all_lines demo_platform (discount_groups (main_items 5 demo_discount_db)) = Inr [discount_item demo_item 10]"
    by (simp add: demo_main discount_groups_def buckets_def Let_def group_lines_def demo_percent create_discount_item_def)
  then show ?thesis by (simp add: pass_run demo_dropped)
qed

theorem discounts_rebuilt_witness:
  "\<exists>db''. apply_aggregated_volume_discounts demo_platform 5 (add_item (discount_item demo_item 10) demo_discount_db) = (Inr (), db'') \<and>
     length (filter bi_is_discount (bd_items db'')) = 1"
proof -
  from discounts_rebuilt [OF demo_pass] obtain db'' where again:
      "apply_aggregated_volume_discounts demo_platform 5 (add_item (discount_item demo_item 10) demo_discount_db) = (Inr (), db'')"
      "map (\<lambda>i. i\<lparr>bi_pk := 0\<rparr>) (filter bi_is_discount (bd_items db'')) =
       map (\<lambda>i. i\<lparr>bi_pk := 0\<rparr>) (filter bi_is_discount (bd_items (add_item (discount_item demo_item 10) demo_discount_db)))"
    by blast
  from arg_cong [OF again(2), of length] have "length (filter bi_is_discount (bd_items db'')) = 1"
    using demo_item_values by (simp add: add_item_def demo_discount_db_def demo_item_db_def demo_db_def)
  with again(1) show ?thesis by blast
qed

theorem discounts_bounded_witness:
  "\<exists>i\<in>set (bd_items (add_item (discount_item demo_item 10) demo_discount_db)).
     bi_discount_of (discount_item demo_item 10) = Some (bi_pk i) \<and> 10 \<le> billed_price i"
proof -
  have "distinct (map bi_pk (bd_items demo_discount_db))" by (simp add: demo_discount_db_def demo_item_db_def demo_db_def)
  from discounts_bounded [OF demo_pass this]
  have "\<exists>i\<in>set (bd_items (add_item (discount_item demo_item 10) demo_discount_db)).
      bi_discount_of ((discount_item demo_item 10)\<lparr>bi_pk := 20\<rparr>) = Some (bi_pk i) \<and>
      - billed_price ((discount_item demo_item 10)\<lparr>bi_pk := 20\<rparr>) \<le> billed_price i"
    using demo_item_values by (auto simp: add_item_def demo_discount_db_def demo_item_db_def demo_db_def)
  then show ?thesis
    by (simp add: billed_price_def discount_amount_def demo_item_values quantize_price_def)
qed

subsection \<open>Formulas\<close>

text \<open>
  C37. The kinds of formulas are sound: an expression that has a kind, over variables that are bound, never
  fails because of its syntax or names, and its value, when the arithmetic yields one, is of that kind.
  So a formula that is a comparison or a connective is refused by evaluate whatever the usage.
\<close>

theorem formula_kinds_sound:
  assumes "has_kind names e k" and "\<And>x. x \<in> names \<Longrightarrow> env x \<noteq> None"
  shows "(case eval_node F env e of Inl err \<Rightarrow> err \<noteq> FormulaError | Inr v \<Rightarrow> kind_of v = k) \<and>
     (k = Boolean \<longrightarrow> parse formula = Some e \<longrightarrow> evaluate F parse formula env = Inl FormulaError)"
proof -
  have s: "sound k (eval_node F env e)" using assms by (rule has_kind_sound)
  then have "final_value F v = Inl FormulaError" if "k = Boolean" "eval_node F env e = Inr v" for v
    using that by (cases v) (simp_all add: final_value_def)
  then show ?thesis
    using s by (auto simp: sound_def evaluate_def caught_def split: sum.splits)
qed

definition demo_threshold :: "rat expr" where
  "demo_threshold = Compare (Name ''usage'') [GtE] [Constant (CInt 100)]"

theorem formula_kinds_sound_witness:
  "evaluate demo_floats (\<lambda>_. Some demo_threshold) ''usage >= 100'' (\<lambda>n. if n = ''usage'' then Some 150 else None) = Inl FormulaError"
proof -
  have "has_kind {''usage''} demo_threshold Boolean"
    unfolding demo_threshold_def by (rule has_kind.comparison) (auto intro: has_kind.intros)
  from formula_kinds_sound [OF this, of "\<lambda>n. if n = ''usage'' then Some 150 else None" demo_floats "\<lambda>_. Some demo_threshold" "''usage >= 100''"]
  show ?thesis by simp
qed

text \<open>
  What is documented of the floats of the language, as far as the next property needs it: integers up to
  2^53 are exact, those below 2^1023 convert and those from 2^1024 on do not.
\<close>

definition float_laws :: "'x floats \<Rightarrow> bool" where
  "float_laws F \<longleftrightarrow>
     (\<forall>n. \<bar>n\<bar> \<le> 2 ^ 53 \<longrightarrow> (\<exists>x. fl_of_int F n = Inr x \<and> fl_floor F x = Inr n)) \<and>
     (\<forall>n. \<bar>n\<bar> < 2 ^ 1023 \<longrightarrow> (\<exists>x. fl_of_int F n = Inr x)) \<and>
     (\<forall>n. 2 ^ 1024 \<le> \<bar>n\<bar> \<longrightarrow> fl_of_int F n = Inl OverflowError)"

text \<open>\<open>FLOOR(usage) ** FLOOR(51)\<close>: an integer power of the rounded usage.\<close>

definition floor_power :: "'x expr" where
  "floor_power = BinOp (Call (Name ''FLOOR'') [Name ''usage''] 0) Pow_op (Call (Name ''FLOOR'') [Constant (CInt 51)] 0)"

lemma floor_named: "function_named F ''FLOOR'' = Some (rounded (fl_floor F))"
  by (simp add: function_named_def FUNCTIONS_def upper_char_def of_char_def)

lemma floor_power_value:
  assumes "float_laws F" "env ''usage'' = Some x" "fl_floor F x = Inr n"
  shows "eval_node F env floor_power = Inr (VInt (n ^ 51))"
proof -
  obtain y where "fl_of_int F 51 = Inr y" "fl_floor F y = Inr 51"
    using assms(1) by (auto simp: float_laws_def dest!: spec [of _ 51])
  then show ?thesis
    using assms(2,3)
    by (simp add: floor_power_def floor_named rounded_def number_def raising_def binary_def int_operation_def)
qed

lemma floor_power_evaluated:
  assumes "float_laws F" "parse formula = Some floor_power" "strip formula \<noteq> ''''" "length formula \<le> MAX_FORMULA_LENGTH"
    and "env ''usage'' = Some x" "fl_floor F x = Inr n"
  shows "evaluate F parse formula env = rbind (raising (fl_of_int F (n ^ 51))) (\<lambda>_. Inr (of_int (n ^ 51)))"
proof -
  have "1 + node_count (floor_power :: 'a expr) \<le> MAX_NODE_COUNT" by (simp add: floor_power_def MAX_NODE_COUNT_def)
  then show ?thesis
    using assms floor_power_value [where env = env, OF assms(1,5,6)]
    by (simp add: evaluate_def caught_def final_value_def)
qed

text \<open>
  A formula that passes the check at save time can stop the finalization of an invoice.  evaluate converts an
  integer result to a float outside of its own try, so for the formula FLOOR(usage) ** FLOOR(51) the
  validation accepts it, and a resource with a usage of ten million makes the discount pass raise
  OverflowError instead of skipping the group.
\<close>

theorem validated_formula_stops_invoice:
  assumes laws: "float_laws F" and exact: "\<And>n. \<bar>n\<bar> \<le> 2 ^ 53 \<Longrightarrow> fl_of_int F n = Inr (to_float (of_int n))"
    and formula: "parse formula = Some floor_power" "strip formula = formula" "formula \<noteq> ''''"
      "length formula \<le> MAX_FORMULA_LENGTH" "bc_discount_formula pc = formula"
    and invoice: "main_items v (drop_discounts v db) = [(pc, i)]" "bi_discount_usage i = Some 10000000"
  shows "validate F parse formula [''usage''] = Inr () \<and>
     fst (apply_aggregated_volume_discounts (F, to_float, parse) v db) = Inl OverflowError"
proof -
  have small: "fl_floor F (to_float (of_int n)) = Inr n" if "\<bar>n\<bar> \<le> 2 ^ 53" for n
    using laws exact [OF that] that by (auto simp: float_laws_def)
  have run: "evaluate F parse formula env = rbind (raising (fl_of_int F (n ^ 51))) (\<lambda>_. Inr (of_int (n ^ 51)))"
    if "env ''usage'' = Some (to_float (of_int n))" "\<bar>n\<bar> \<le> 2 ^ 53" for env n
    using floor_power_evaluated [where env = env and parse = parse and formula = formula, OF laws formula(1) _ formula(4) that(1) small [OF that(2)]] formula(2,3) by simp
  let ?accepts = "\<lambda>n. rbind (raising (fl_of_int F n)) (\<lambda>x.
      rbind (evaluate F parse formula (\<lambda>m. if m \<in> set [''usage''] then Some x else None)) (\<lambda>_. Inr ())) = Inr ()"
  have probe: "?accepts n" if "n \<in> {0, 1, 10, 1000, 1000000}" for n
  proof -
    have bound: "\<bar>n\<bar> \<le> 2 ^ 53" and "\<bar>n ^ 51\<bar> < 2 ^ 1023" using that by auto
    then obtain y where "fl_of_int F (n ^ 51) = Inr y" using laws by (auto simp: float_laws_def)
    then show ?thesis using run [OF _ bound] exact [OF bound] by simp
  qed
  have accepted: "validate F parse formula [''usage''] = Inr ()"
    using probe [of 0] probe [of 1] probe [of 10] probe [of 1000] probe [of 1000000]
    unfolding validate_def by simp
  have "fl_of_int F (10000000 ^ 51) = Inl OverflowError" using laws by (simp add: float_laws_def)
  then have "evaluate F parse formula (\<lambda>n. if n = ''usage'' then Some (to_float 10000000) else None) = Inl (Raised OverflowError)"
    using run [of "\<lambda>n. if n = ''usage'' then Some (to_float 10000000) else None" 10000000] by (simp add: raising_def)
  moreover have "total_usage [i] = 10000000" using invoice(2) by (simp add: total_usage_def)
  ultimately have "evaluate_percent (F, to_float, parse) formula (total_usage [i]) = Inl (Raised OverflowError)"
    by (simp only: evaluate_percent_def prod.case) simp
  then have "group_lines (F, to_float, parse) (pc, [i]) = Inl OverflowError"
    using formula by (simp add: group_lines_def)
  moreover have "discount_groups [(pc, i)] = [(pc, [i])]"
    using formula by (simp add: discount_groups_def buckets_def Let_def)
  ultimately show ?thesis
    using accepted invoice(1) by (simp add: pass_raised)
qed

definition power_text :: string where
  "power_text = ''FLOOR(usage) ** FLOOR(51)''"

lemma power_text_strip: "strip power_text = power_text"
  by code_simp

definition overflowing_item :: billing_item where
  "overflowing_item = demo_item\<lparr>bi_discount_usage := Some 10000000\<rparr>"

definition overflowing_component :: billed_component where
  "overflowing_component = (demo_bc 1 demo_c)\<lparr>bc_discount_formula := power_text\<rparr>"

definition overflowing_db :: billing_db where
  "overflowing_db = demo_item_db\<lparr>bd_plans := [(demo_plan_of PER_MONTH demo_c)\<lparr>bp_components := [overflowing_component]\<rparr>],
     bd_items := [overflowing_item]\<rparr>"

lemma overflowing_main: "main_items 5 (drop_discounts 5 overflowing_db) = [(overflowing_component, overflowing_item)]"
  using demo_item_values
  by (simp add: drop_discounts_def main_items_def main_entry_def overflowing_db_def overflowing_item_def
      overflowing_component_def find_plan_component_def demo_plan_of_def demo_bc_def demo_item_db_def)

lemma demo_laws: "float_laws demo_floats"
  by (auto simp: float_laws_def demo_floats_def)

theorem validated_formula_stops_invoice_witness:
  "validate demo_floats (\<lambda>_. Some floor_power) power_text [''usage''] = Inr () \<and>
   fst (apply_aggregated_volume_discounts (demo_floats, id, \<lambda>_. Some floor_power) 5 overflowing_db) = Inl OverflowError"
proof -
  have exact: "fl_of_int demo_floats n = Inr (id (of_int n))" if "\<bar>n\<bar> \<le> 2 ^ 53" for n
    using that by (simp add: demo_floats_def)
  have "power_text \<noteq> ''''" "length power_text \<le> MAX_FORMULA_LENGTH" "bi_discount_usage overflowing_item = Some 10000000"
      "bc_discount_formula overflowing_component = power_text"
    by (simp_all add: power_text_def MAX_FORMULA_LENGTH_def overflowing_item_def overflowing_component_def)
  with validated_formula_stops_invoice [OF demo_laws exact _ power_text_strip _ _ _ overflowing_main,
      where parse = "\<lambda>_. Some floor_power"]
  show ?thesis by blast
qed

end
