(* ===== verification/Usage_Billing.thy ===== *)
theory Usage_Billing
  imports Billing_Facts
begin

text \<open>
  Billing of reported usage, \<open>BillingUsageProcessor\<close> of \<^verbatim>\<open>marketplace/billing_usage.py\<close> with the task and the save
  handler that call it, and \<open>get_prepaid_balance\<close> of \<^verbatim>\<open>marketplace/models.py\<close>.  Reported usage and the periods of
  plans are rows that billing reads and does not write; the relative dates of \<open>relativedelta\<close> are arguments.  The
  policies the task triggers afterwards are not modelled.
\<close>

subsection \<open>Rows\<close>

record plan_period =
  pp_uuid :: nat
  pp_resource :: nat
  pp_plan :: billing_plan
  pp_start :: "datetime option"
  pp_end :: "datetime option"

record component_usage =
  cu_pk :: nat
  cu_resource :: nat
  cu_component :: offering_component
  cu_usage :: rat
  cu_date :: datetime
  cu_plan_period :: "nat option"
  cu_billing_period :: cdate

text \<open>
  \<open>months_since now created\<close> are the months of the years and months of \<open>relativedelta(now, created)\<close>, and
  \<open>add_months t n\<close> is \<open>t + relativedelta(months=n)\<close>, which the code also writes with twelve months as a year.
\<close>

record usage_world =
  uw_periods :: "plan_period list"
  uw_usages :: "component_usage list"
  uw_overage :: "offering_component \<Rightarrow> offering_component option"
  months_since :: "datetime \<Rightarrow> datetime \<Rightarrow> int"
  add_months :: "datetime \<Rightarrow> int \<Rightarrow> datetime"

subsection \<open>Prepaid balances\<close>

definition minus_microsecond :: "datetime \<Rightarrow> datetime" where
  "minus_microsecond t =
     (if 1 \<le> dt_us t then t\<lparr>dt_us := dt_us t - 1\<rparr> else \<lparr>dt_date = prev_day (dt_date t), dt_us = day_us - 1\<rparr>)"

text \<open>The months of a subscription period; a total has none.\<close>

definition period_months :: "limit_period \<Rightarrow> int" where
  "period_months lp = (case lp of MONTH \<Rightarrow> 1 | QUARTERLY \<Rightarrow> 3 | ANNUAL \<Rightarrow> 12 | TOTAL \<Rightarrow> 0)"

definition balance_window :: "usage_world \<Rightarrow> datetime \<Rightarrow> billing_resource \<Rightarrow> limit_period \<Rightarrow> datetime \<times> datetime" where
  "balance_window uw clock r lp =
     (if lp = TOTAL
      then (rs_created r, case rs_end_date r of None \<Rightarrow> clock | Some d \<Rightarrow> \<lparr>dt_date = d, dt_us = 0\<rparr>)
      else let n = period_months lp;
               start = add_months uw (rs_created r) (months_since uw clock (rs_created r) div n * n)
           in (start, minus_microsecond (add_months uw start n)))"

definition reported_in :: "usage_world \<Rightarrow> billing_resource \<Rightarrow> offering_component \<Rightarrow> datetime \<times> datetime \<Rightarrow> nat list \<Rightarrow> rat" where
  "reported_in uw r c window excluded =
     sum_list (map cu_usage (filter (\<lambda>u. cu_resource u = rs_pk r \<and> cu_component u = c \<and>
       \<not> before (cu_date u) (fst window) \<and> \<not> before (snd window) (cu_date u) \<and> cu_pk u \<notin> set excluded) (uw_usages uw)))"

text \<open>
  A limit that is not integral is a float, and a float minus a \<open>Decimal\<close> raises \<open>TypeError\<close>; a sum of zero is replaced
  by the integer.
\<close>

definition get_prepaid_balance ::
    "usage_world \<Rightarrow> datetime \<Rightarrow> billing_resource \<Rightarrow> offering_component \<Rightarrow> nat list \<Rightarrow> (billing_error, rat) result" where
  "get_prepaid_balance uw clock r c excluded =
     (let initial_quota = get_default (rs_limits r) (oc_type c) 0;
          total_usage = reported_in uw r c (balance_window uw clock r (oc_limit_period c)) excluded
      in if initial_quota \<le> 0 then Inr 0
         else if total_usage \<noteq> 0 \<and> of_int \<lfloor>initial_quota\<rfloor> \<noteq> initial_quota then Inl Mixed_arithmetic
         else Inr (max 0 (towards_zero (initial_quota - total_usage))))"

subsection \<open>The item of a plan in a month\<close>

definition periods_of_month :: "usage_world \<Rightarrow> plan_period \<Rightarrow> cdate \<Rightarrow> plan_period list" where
  "periods_of_month uw pp date =
     filter (\<lambda>q. pp_resource q = pp_resource pp \<and>
         (case pp_start q of None \<Rightarrow> True | Some s \<Rightarrow> \<not> before (month_end date) s) \<and>
         (case pp_end q of None \<Rightarrow> True | Some e \<Rightarrow> \<not> before e (month_start date))) (uw_periods uw)"

definition is_only_plan_period_of_month :: "usage_world \<Rightarrow> plan_period \<Rightarrow> cdate \<Rightarrow> bool" where
  "is_only_plan_period_of_month uw pp date \<longleftrightarrow> filter (\<lambda>q. pp_uuid q \<noteq> pp_uuid pp) (periods_of_month uw pp date) = []"

definition same_plan_periods :: "usage_world \<Rightarrow> plan_period \<Rightarrow> cdate \<Rightarrow> nat list" where
  "same_plan_periods uw pp date =
     map pp_uuid (filter (\<lambda>q. bp_uuid (pp_plan q) = bp_uuid (pp_plan pp)) (periods_of_month uw pp date))"

definition keyed_to :: "usage_world \<Rightarrow> plan_period \<Rightarrow> cdate \<Rightarrow> nat list" where
  "keyed_to uw pp date = (if same_plan_periods uw pp date = [] then [pp_uuid pp] else same_plan_periods uw pp date)"

definition usage_candidate :: "nat \<Rightarrow> nat \<Rightarrow> string \<Rightarrow> billing_item \<Rightarrow> bool" where
  "usage_candidate invoice resource t i \<longleftrightarrow>
     bi_invoice i = invoice \<and> bi_resource i = Some resource \<and> bi_component_type i = t \<and> 0 \<le> bi_unit_price i"

text \<open>Items without a plan period, which are older, are adopted, but for items of limits.\<close>

definition legacy_item :: "billing_item \<Rightarrow> bool" where
  "legacy_item i \<longleftrightarrow> bi_plan_period i = None \<and> bi_limit_periods i = None"

definition find_usage_item :: "usage_world \<Rightarrow> plan_period \<Rightarrow> cdate \<Rightarrow> billing_item list \<Rightarrow> billing_item option" where
  "find_usage_item uw pp date candidates =
     (case first_row (\<lambda>i. bi_plan_period i \<in> Some ` set (keyed_to uw pp date)) candidates of
        Some i \<Rightarrow> Some i
      | None \<Rightarrow>
          (case first_row (\<lambda>i. legacy_item i \<and> bi_plan_uuid i = Some (bp_uuid (pp_plan pp))) candidates of
             Some i \<Rightarrow> Some i
           | None \<Rightarrow> if is_only_plan_period_of_month uw pp date then first_row legacy_item candidates else None))"

definition usage_plan_component :: "billing_plan \<Rightarrow> offering_component \<Rightarrow> (billing_error, billed_component option) result" where
  "usage_plan_component p c =
     (case filter (\<lambda>pc. bc_component pc = Some c) (bp_components p) of
        [] \<Rightarrow> Inr None | [pc] \<Rightarrow> Inr (Some pc) | _ \<Rightarrow> Inl Several_rows)"

definition converted_usage :: "billing_resource \<Rightarrow> billing_plan \<Rightarrow> offering_component \<Rightarrow> rat \<Rightarrow> rat" where
  "converted_usage r p c usage =
     convert_quantity usage (bo_type (rs_offering r)) (oc_type c) (Some (ef_billing_type (resolve_for p c)))"

definition updated_usage_item :: "plan_period \<Rightarrow> billed_component option \<Rightarrow> bool \<Rightarrow> rat \<Rightarrow> billing_item \<Rightarrow> billing_item" where
  "updated_usage_item pp pc is_overage q i =
     i\<lparr>bi_quantity := q, bi_plan_period := Some (pp_uuid pp),
       bi_discount_usage := (if pc \<noteq> None \<and> \<not> is_overage then Some q else bi_discount_usage i)\<rparr>"

definition later :: "datetime \<Rightarrow> datetime \<Rightarrow> datetime" where
  "later s t = (if before s t then t else s)"

definition earlier :: "datetime \<Rightarrow> datetime \<Rightarrow> datetime" where
  "earlier s t = (if before t s then t else s)"

definition new_usage_item ::
    "billing_resource \<Rightarrow> plan_period \<Rightarrow> billed_component option \<Rightarrow> offering_component \<Rightarrow> nat \<Rightarrow> cdate \<Rightarrow> bool \<Rightarrow> rat \<Rightarrow> billing_item" where
  "new_usage_item r pp pc c invoice date is_overage q =
     \<lparr>bi_pk = 0, bi_invoice = invoice, bi_resource = Some (rs_pk r), bi_project = rs_project r,
      bi_plan_component = map_option bc_pk pc, bi_unit_price = (case pc of None \<Rightarrow> 0 | Some x \<Rightarrow> bc_price x),
      bi_unit = QUANTITY, bi_quantity = q, bi_measured_unit = ef_measured_unit (resolve_for (pp_plan pp) c),
      bi_start = (case pp_start pp of None \<Rightarrow> month_start date | Some s \<Rightarrow> later s (month_start date)),
      bi_end = (case pp_end pp of None \<Rightarrow> month_end date | Some e \<Rightarrow> earlier e (month_end date)),
      bi_plan_uuid = Some (bp_uuid (pp_plan pp)), bi_component_type = oc_type c,
      bi_limit_periods = None, bi_limit_total = False,
      bi_discount_usage = (if pc \<noteq> None \<and> \<not> is_overage then Some q else None),
      bi_is_discount = False, bi_is_compensation = False, bi_discount_of = None, bi_discount_percent = None,
      bi_supplementary = False, bi_campaign = None, bi_plan_period = Some (pp_uuid pp), bi_overage = is_overage\<rparr>"

definition write_usage_item ::
    "usage_world \<Rightarrow> billing_resource \<Rightarrow> offering_component \<Rightarrow> rat \<Rightarrow> cdate \<Rightarrow> plan_period \<Rightarrow> bool \<Rightarrow> nat
     \<Rightarrow> billing_db \<Rightarrow> (billing_error, billing_db) result" where
  "write_usage_item uw r c usage date pp is_overage invoice db =
     rbind (usage_plan_component (pp_plan pp) c) (\<lambda>pc.
       let q = converted_usage r (pp_plan pp) c usage
       in Inr (case find_usage_item uw pp date (filter (usage_candidate invoice (rs_pk r) (oc_type c)) (bd_items db)) of
                 Some i \<Rightarrow> save_item (updated_usage_item pp pc is_overage q i) db
               | None \<Rightarrow> add_item (new_usage_item r pp pc c invoice date is_overage q) db))"

definition create_or_update_usage_invoice_item ::
    "relative_delta \<Rightarrow> datetime \<Rightarrow> usage_world \<Rightarrow> billing_resource \<Rightarrow> offering_component \<Rightarrow> rat \<Rightarrow> cdate \<Rightarrow> plan_period
     \<Rightarrow> bool \<Rightarrow> unit billing" where
  "create_or_update_usage_invoice_item relativedelta clock uw r c usage date pp is_overage =
     ebind (get_or_create_invoice relativedelta clock (rs_customer r) (Day date) None) (\<lambda>(v, _).
       ewhen (bv_state v \<in> set MUTABLE_STATES)
         (estep (write_usage_item uw r c usage date pp is_overage (bv_pk v))))"

subsection \<open>A reported usage\<close>

definition process_prepaid_usage ::
    "relative_delta \<Rightarrow> datetime \<Rightarrow> usage_world \<Rightarrow> billing_resource \<Rightarrow> plan_period \<Rightarrow> component_usage \<Rightarrow> unit billing" where
  "process_prepaid_usage relativedelta clock uw r pp u =
     ebind (elift (get_prepaid_balance uw clock r (cu_component u) [cu_pk u])) (\<lambda>prepaid_balance.
       let reported_usage = towards_zero (cu_usage u)
       in if reported_usage \<le> prepaid_balance then ereturn ()
          else (case uw_overage uw (cu_component u) of
                  None \<Rightarrow> ereturn ()
                | Some overage_component \<Rightarrow>
                    create_or_update_usage_invoice_item relativedelta clock uw r overage_component
                      (reported_usage - prepaid_balance) (cu_billing_period u) pp True))"

definition period_of_usage :: "usage_world \<Rightarrow> component_usage \<Rightarrow> plan_period option" where
  "period_of_usage uw u =
     (case cu_plan_period u of None \<Rightarrow> None | Some k \<Rightarrow> first_row (\<lambda>q. pp_uuid q = k) (uw_periods uw))"

definition run_billing ::
    "relative_delta \<Rightarrow> datetime \<Rightarrow> usage_world \<Rightarrow> billing_resource \<Rightarrow> component_usage \<Rightarrow> unit billing" where
  "run_billing relativedelta clock uw r u =
     atomic (case period_of_usage uw u of
       None \<Rightarrow> ereturn ()
     | Some pp \<Rightarrow>
         let e = resolve_for (pp_plan pp) (cu_component u)
         in if ef_is_prepaid e then process_prepaid_usage relativedelta clock uw r pp u
            else ewhen (ef_billing_type e = USAGE)
                   (create_or_update_usage_invoice_item relativedelta clock uw r (cu_component u) (cu_usage u)
                      (cu_billing_period u) pp False))"

definition process_component_usage_billing ::
    "relative_delta \<Rightarrow> datetime \<Rightarrow> usage_world \<Rightarrow> nat \<Rightarrow> bool \<Rightarrow> unit billing" where
  "process_component_usage_billing relativedelta clock uw pk usage_changed =
     (case first_row (\<lambda>u. cu_pk u = pk) (uw_usages uw) of
        None \<Rightarrow> ereturn ()
      | Some u \<Rightarrow>
          ewhen usage_changed
            (ebind (eread (\<lambda>db. first_row (\<lambda>r. rs_pk r = cu_resource u) (bd_resources db))) (\<lambda>found.
              case found of None \<Rightarrow> eraise No_row | Some r \<Rightarrow> run_billing relativedelta clock uw r u)))"

text \<open>The save handler queues the task, with whether the usage has changed.\<close>

definition schedule_component_usage_billing :: "bool \<Rightarrow> bool \<Rightarrow> bool \<Rightarrow> component_usage \<Rightarrow> (nat \<times> bool) option" where
  "schedule_component_usage_billing skip created changed u =
     (if skip then None else Some (cu_pk u, created \<or> changed))"

subsection \<open>The books\<close>

lemma find_usage_item_in: "find_usage_item uw pp date is = Some i \<Longrightarrow> i \<in> set is"
  by (auto simp: find_usage_item_def dest!: first_row_Some split: option.splits if_splits)

lemma updated_line [simp]: "same_line i (updated_usage_item pp pc b q i)" "bi_resource (updated_usage_item pp pc b q i) = bi_resource i"
  by (simp_all add: same_line_def updated_usage_item_def)

lemma stays_usage_item: "stays (billed v {Some (rs_pk r)}) (estep (write_usage_item uw r c usage date pp b v))"
proof (rule books.stays_step)
  fix s t
  assume run: "write_usage_item uw r c usage date pp b v s = Inr t"
  have add: "billed v {Some (rs_pk r)} s (add_item (new_usage_item r pp pc c v date b q) s)" for pc q
    by (rule billed_add) (simp_all add: new_usage_item_def)
  have save: "billed v {Some (rs_pk r)} s (save_item (updated_usage_item pp pc b q i) s)"
    if "find_usage_item uw pp date (filter (usage_candidate v (rs_pk r) (oc_type c)) (bd_items s)) = Some i" for pc q i
    using find_usage_item_in [OF that]
    by (intro billed_save) (auto simp: usage_candidate_def intro: bexI [of _ i])
  show "billed v {Some (rs_pk r)} s t"
    using run add save by (auto simp: write_usage_item_def rbind_eq_Inr Let_def split: option.splits)
qed

lemma billed_wider: "billed v T s t \<Longrightarrow> T \<subseteq> U \<Longrightarrow> billed v U s t"
proof -
  assume b: "billed v T s t" and sub: "T \<subseteq> U"
  have less: "filter (\<lambda>i. bi_resource i \<notin> U) is = filter (\<lambda>i. bi_resource i \<notin> U) (filter (\<lambda>i. bi_resource i \<notin> T) is)" for "is"
    using sub by (auto intro!: filter_cong simp: subset_iff)
  show ?thesis using b unfolding billed_def by (subst (1 2) less) simp
qed

lemma usage_item_accounts:
  "accounts s (snd (create_or_update_usage_invoice_item rd clock uw r c usage date pp b s))"
  unfolding create_or_update_usage_invoice_item_def
proof (rule accounts_on_invoice)
  fix v created
  have "stays (billed (bv_pk v) UNIV) (estep (write_usage_item uw r c usage date pp b (bv_pk v)))"
    using stays_usage_item [of "bv_pk v" r uw c usage date pp b] unfolding stays_def by (blast intro: billed_wider)
  then show "stays (billed (bv_pk v) UNIV) (case (v, created) of (v, _) \<Rightarrow> ewhen (bv_state v \<in> set MUTABLE_STATES)
      (estep (write_usage_item uw r c usage date pp b (bv_pk v))))"
    by (simp add: books.stays_when)
qed

lemma run_billing_accounts: "accounts s (snd (run_billing rd clock uw r u s))"
proof -
  have prepaid: "accounts s (snd (process_prepaid_usage rd clock uw r pp u s))" for pp
    unfolding process_prepaid_usage_def
    by (rule accounts_bind) (auto simp: Let_def accounts.refl usage_item_accounts split: option.split)
  show ?thesis
    unfolding run_billing_def
    by (rule accounts_atomic) (auto simp: Let_def accounts.refl usage_item_accounts prepaid ewhen_def split: option.split)
qed

lemma usage_task_accounts: "accounts s (snd (process_component_usage_billing rd clock uw pk changed s))"
  by (auto simp: process_component_usage_billing_def ewhen_def ebind_def eread_def accounts.refl run_billing_accounts
      split: option.split)

subsection \<open>Running again\<close>

definition same_invoices :: "billing_db \<Rightarrow> billing_db \<Rightarrow> bool" where
  "same_invoices s t \<longleftrightarrow> bd_invoices t = bd_invoices s"

interpretation opened: state_order same_invoices
  by unfold_locales (simp_all add: same_invoices_def)

lemma same_invoices_item [simp]: "same_invoices s (add_item i s)" "same_invoices s (save_item i s)"
  by (simp_all add: same_invoices_def add_item_def save_item_def)

lemma same_invoices_create [simp]: "same_invoices s (create_limit_item r p pc v start stop s)"
  by (auto simp: create_limit_item_def reopen_closed_item_def Let_def opened.refl split: option.split)












subsection \<open>Examples\<close>

definition usage_day :: "nat \<Rightarrow> nat \<Rightarrow> datetime" where
  "usage_day m d = \<lparr>dt_date = \<lparr>cd_year = 2, cd_month = m, cd_day = d\<rparr>, dt_us = 0\<rparr>"

definition usage_month :: "nat \<Rightarrow> cdate" where
  "usage_month m = \<lparr>cd_year = 2, cd_month = m, cd_day = 1\<rparr>"

definition cpu_hours :: offering_component where
  "cpu_hours = \<lparr>oc_type = ''cpu'', oc_billing_type = USAGE, billed_per_plan = False, oc_is_prepaid = False, oc_limit_period = MONTH, oc_measured_unit = ''h''\<rparr>"

definition node_hours :: offering_component where
  "node_hours = \<lparr>oc_type = ''node'', oc_billing_type = ONE_TIME, billed_per_plan = False, oc_is_prepaid = True, oc_limit_period = TOTAL, oc_measured_unit = ''h''\<rparr>"

definition overage_hours :: offering_component where
  "overage_hours = \<lparr>oc_type = ''over'', oc_billing_type = USAGE, billed_per_plan = False, oc_is_prepaid = False, oc_limit_period = MONTH, oc_measured_unit = ''h''\<rparr>"

definition usage_plan :: billing_plan where
  "usage_plan = \<lparr>bp_uuid = 70, bp_offering_type = ''Support'', bp_mode = MODE_INHERIT, bp_unit = PER_MONTH,
     bp_components = [\<lparr>bc_pk = 71, bc_component = Some cpu_hours, bc_amount = 0, bc_price = 2, bc_discount_formula = [], bc_discount_aggregation = PER_RESOURCE\<rparr>,
       \<lparr>bc_pk = 72, bc_component = Some overage_hours, bc_amount = 0, bc_price = 3, bc_discount_formula = [], bc_discount_aggregation = PER_RESOURCE\<rparr>]\<rparr>"

definition usage_resource :: "rat \<Rightarrow> billing_resource" where
  "usage_resource limit = \<lparr>rs_pk = 7, rs_customer = 1, rs_project = 2,
     rs_offering = \<lparr>bo_pk = 4, bo_type = ''Support'', bo_billable = True, bo_components = [cpu_hours, node_hours, overage_hours], bo_factors = []\<rparr>,
     rs_plan = Some usage_plan, rs_limits = [(''node'', limit)], rs_state = RES_OK, rs_created = usage_day 1 10, rs_end_date = None, rs_coupon = None\<rparr>"

definition usage_report :: "nat \<Rightarrow> offering_component \<Rightarrow> rat \<Rightarrow> nat \<Rightarrow> nat \<Rightarrow> component_usage" where
  "usage_report pk c amount period m = \<lparr>cu_pk = pk, cu_resource = 7, cu_component = c, cu_usage = amount, cu_date = usage_day m 20,
     cu_plan_period = Some period, cu_billing_period = usage_month m\<rparr>"

text \<open>The plan is on from 10 January to 5 March, and again from 15 March.\<close>

definition usage_demo :: "component_usage list \<Rightarrow> usage_world" where
  "usage_demo reports = \<lparr>
     uw_periods = [\<lparr>pp_uuid = 81, pp_resource = 7, pp_plan = usage_plan, pp_start = Some (usage_day 1 10), pp_end = Some (usage_day 3 5)\<rparr>,
       \<lparr>pp_uuid = 82, pp_resource = 7, pp_plan = usage_plan, pp_start = Some (usage_day 3 15), pp_end = None\<rparr>],
     uw_usages = reports, uw_overage = (\<lambda>c. if c = node_hours then Some overage_hours else None),
     months_since = (\<lambda>_ _. 0), add_months = (\<lambda>t _. t)\<rparr>"

definition usage_books :: billing_db where
  "usage_books = \<lparr>bd_invoices = map (\<lambda>m. \<lparr>bv_pk = m, bv_customer = 1, bv_year = 2, bv_month = m, bv_state = PENDING_INVOICE\<rparr>) [1, 2, 3, 4],
     bd_items = [], bd_resources = [], bd_plans = [usage_plan], bd_campaigns = [], bd_discounted = [], bd_next = 90\<rparr>"

definition no_delta :: relative_delta where
  "no_delta = (\<lambda>_ _. (0, 0, 0))"

definition bill_report :: "rat \<Rightarrow> component_usage list \<Rightarrow> component_usage \<Rightarrow> billing_db \<Rightarrow> (billing_error, unit) result \<times> billing_db" where
  "bill_report limit reports u = run_billing no_delta (usage_day 3 28) (usage_demo reports) (usage_resource limit) u"


subsection \<open>Where usage is lost or billed twice\<close>

text \<open>
  Usage is reported per period of a plan, and an item stands for all periods of the plan in the month: of two
  reports for the two periods of March, five hours and seven, only the seven are billed.
\<close>

lemma second_period_overwrites:
  "let u = usage_report 61 cpu_hours 5 81 3; w = usage_report 62 cpu_hours 7 82 3
   in map bi_quantity (bd_items (snd (bill_report 0 [u, w] w (snd (bill_report 0 [u, w] u usage_books))))) = [7]"
  by code_simp

text \<open>
  Overage is what exceeds the balance the other reports leave.  Eight hours in January and five in February exceed ten
  by three; when January is corrected to nine, its task bills four more on the January invoice, and the three of February stay: seven for an
  overage of four.
\<close>

lemma overage_billed_twice:
  "let jan = usage_report 61 node_hours 8 81 1; feb = usage_report 62 node_hours 5 81 2; jan' = usage_report 61 node_hours 9 81 1;
       db1 = snd (bill_report 10 [jan] jan usage_books); db2 = snd (bill_report 10 [jan, feb] feb db1);
       db3 = snd (bill_report 10 [jan', feb] jan' db2)
   in map (\<lambda>i. (bi_invoice i, bi_quantity i, bi_overage i)) (bd_items db3) = [(2, 3, True), (1, 4, True)]"
  by code_simp

text \<open>A fractional limit is a float: with any other usage in the window its balance raises, and nothing is billed.\<close>

lemma fractional_limit_stops_billing:
  "let jan = usage_report 61 node_hours 1 81 1; feb = usage_report 62 node_hours 5 81 2
   in bill_report (5 / 2) [jan, feb] feb usage_books = (Inl Mixed_arithmetic, usage_books)"
  by code_simp

text \<open>Reported usage of a prepaid component is truncated: almost an hour above the balance is free.\<close>

lemma fraction_above_balance_is_free:
  "let u = usage_report 61 node_hours (1099 / 100) 81 1 in bill_report 10 [u] u usage_books = (Inr (), usage_books)"
  by code_simp

text \<open>
  A usage of a period that does not reach into its month, here April for the period that ended in March, gets an item
  which the next task does not find: the doc string of the task says that running again is safe.
\<close>

lemma rebilling_duplicates:
  "let u = usage_report 61 cpu_hours 5 81 4; db1 = snd (bill_report 0 [u] u usage_books)
   in map bi_quantity (bd_items (snd (bill_report 0 [u] u db1))) = [5, 5]"
  by code_simp

end
