(* ===== verification/Billing_Properties.thy ===== *)
theory Billing_Properties
  imports Volume_Discount_Properties Usage_Billing
begin

text \<open>
  Billing as a whole: everything that writes invoices as one step relation, with the properties of its
  runs, and what a registration, a termination and a campaign do to the items of a resource.
\<close>

subsection \<open>Runs\<close>

lemma discount_pass_inv:
  assumes "billing_inv db"
  shows "billing_inv (snd (apply_aggregated_volume_discounts P v db))"
proof -
  have drop: "billing_inv (drop_discounts v db)"
    using assms by (auto simp: billing_inv_def drop_discounts_def invoice_keys_def invoice_pks_def distinct_map_filter)
  have add: "billing_inv (fold add_item ls s)"
    if "billing_inv s" "\<forall>l\<in>set ls. bi_invoice l \<in> invoice_pks s" for ls s
    using that
  proof (induction ls arbitrary: s)
    case (Cons l ls)
    then have "billing_inv (add_item l s)"
      by (auto simp: billing_inv_def add_item_def invoice_keys_def invoice_pks_def less_Suc_eq)
    then show ?case using Cons by (simp add: add_item_def invoice_pks_def)
  qed simp
  let ?f = "\<lambda>g. ebind (elift (group_lines P g)) (\<lambda>lines. ewrite (fold add_item lines))"
  have run: "billing_inv (snd (eiter ?f gs s))"
    if "billing_inv s" "\<forall>g\<in>set gs. \<forall>i\<in>set (snd g). bi_invoice i \<in> invoice_pks s" for gs s
    using that
  proof (induction gs arbitrary: s)
    case (Cons g gs)
    show ?case
    proof (cases "group_lines P g")
      case (Inr ls)
      obtain pc "is" where g: "g = (pc, is)" by (cases g)
      have "\<exists>i\<in>set is. bi_invoice l = bi_invoice i" if "l \<in> set ls" for l
        using Inr that
        by (fastforce simp: g group_lines_def create_discount_item_def discount_item_def
            split: sum.splits formula_exn.splits if_splits)
      then have ls: "\<forall>l\<in>set ls. bi_invoice l \<in> invoice_pks s" using Cons.prems(2) g by fastforce
      have "billing_inv (snd (eiter ?f gs (fold add_item ls s)))"
        using Cons.prems add [OF Cons.prems(1) ls] by (intro Cons.IH) (simp_all add: invoice_pks_def fold_add_frame)
      then show ?thesis using Inr by (simp add: ethen_def ebind_def elift_def ewrite_def)
    qed (simp add: ethen_def ebind_def elift_def Cons.prems)
  qed simp
  have "\<forall>g\<in>set (discount_groups (main_items v (drop_discounts v db))). \<forall>i\<in>set (snd g). bi_invoice i \<in> invoice_pks (drop_discounts v db)"
  proof (intro ballI)
    fix g i
    assume "g \<in> set (discount_groups (main_items v (drop_discounts v db)))" "i \<in> set (snd g)"
    then have "i \<in> set (group_items (discount_groups (main_items v (drop_discounts v db))))"
      by (auto simp: group_items_def)
    then have "i \<in> set (bd_items (drop_discounts v db))"
      using set_mset_mono [OF discount_groups_sub] set_mset_mono [OF mset_main_items] by fastforce
    then show "bi_invoice i \<in> invoice_pks (drop_discounts v db)" using drop by (simp add: billing_inv_def)
  qed
  then show ?thesis
    using run [OF drop] by (simp add: apply_aggregated_volume_discounts_def ethen_def ebind_def ewrite_def eread_def)
qed

definition move_invoice :: "nat \<Rightarrow> invoice_state \<Rightarrow> billing_invoice \<Rightarrow> billing_invoice" where
  "move_invoice pk st v = (if bv_pk v = pk then v\<lparr>bv_state := st\<rparr> else v)"

lemma move_invoice_key [simp]: "bv_pk (move_invoice pk st v) = bv_pk v" "bv_customer (move_invoice pk st v) = bv_customer v"
  "bv_year (move_invoice pk st v) = bv_year v" "bv_month (move_invoice pk st v) = bv_month v"
  by (simp_all add: move_invoice_def)

lemma billing_inv_rows:
  "billing_inv (db\<lparr>bd_invoices := map (move_invoice pk st) (bd_invoices db)\<rparr>) = billing_inv db"
  "billing_inv (db\<lparr>bd_resources := rs, bd_plans := ps, bd_campaigns := cs\<rparr>) = billing_inv db"
  by (simp_all add: billing_inv_def invoice_keys_def invoice_pks_def comp_def image_image)

text \<open>
  Everything that bills: saves of resources, reported usage, invoices opened for a month, activated campaigns, limit
  changes, discount passes, an invoice moving to another state; and saves of the other rows.
\<close>

inductive billing_step :: "relative_delta \<Rightarrow> 'x formula_platform \<Rightarrow> billing_db \<Rightarrow> billing_db \<Rightarrow> bool" for rd P where
  resource_saved: "billing_step rd P db (snd (process_billing_on_resource_save rd clock h created skip previous
     new_plan new_limits r db))"
| usage_processed: "billing_step rd P db (snd (process_component_usage_billing rd clock uw pk changed db))"
| month_opened: "billing_step rd P db (snd (get_or_create_invoice rd clock customer date None db))"
| campaign_saved: "billing_step rd P db (snd (apply_campaign_to_pending_invoices clock created changed cm db))"
| discounts_applied: "billing_step rd P db (snd (apply_aggregated_volume_discounts P v db))"
| invoice_moved: "billing_step rd P db
     (db\<lparr>bd_invoices := map (move_invoice pk st) (bd_invoices db)\<rparr>)"
| rows_saved: "billing_step rd P db (db\<lparr>bd_resources := rs, bd_plans := ps, bd_campaigns := cs\<rparr>)"

inductive_cases billing_stepE: "billing_step rd P db db'"

lemma billing_inv_step: "billing_step rd P db db' \<Longrightarrow> billing_inv db \<Longrightarrow> billing_inv db'"
proof (erule billing_stepE)
qed (use resource_save_accounts usage_task_accounts get_or_create_accounts campaign_accounts in
  \<open>simp_all add: accounts_def discount_pass_inv billing_inv_rows\<close>)

interpretation billing: invariant_system "billing_step rd P" billing_inv for rd P
  by unfold_locales (rule billing_inv_step)

subsection \<open>The books of a customer\<close>

text \<open>
  C2. A customer has one invoice per month, and no item is lost between them: whatever sequence of resource
  saves, usage reports, opened months, activated campaigns, limit changes, discount passes and invoice state changes ran,
  raised exceptions included, the invoices of a customer differ in their month, the items in their
  identifier, and every item is on an invoice that exists.
\<close>

theorem one_invoice_per_month:
  assumes "(billing_step rd P)\<^sup>*\<^sup>* db db'" "billing_inv db"
  shows "distinct (map (\<lambda>v. (bv_customer v, bv_year v, bv_month v)) (bd_invoices db')) \<and>
     distinct (map bi_pk (bd_items db')) \<and> (\<forall>i\<in>set (bd_items db'). \<exists>v\<in>set (bd_invoices db'). bi_invoice i = bv_pk v)"
  using billing.inv_run [OF assms] by (auto simp: billing_inv_def invoice_keys_def invoice_pks_def)

subsection \<open>Registration\<close>

lemma register_on_invoice:
  assumes "first_row (invoice_of (rs_customer r) (dt_date clock)) (bd_invoices db) = Some v"
  shows "register rd clock r kind db = atomic (process_resource rd clock r v clock (month_end (dt_date clock)) kind) db"
  using assms by (simp add: register_def get_or_create_invoice_def atomic_def ebind_def eread_def day_of_def)

text \<open>
  Registering a resource in a month that has an invoice touches nothing else: the items of other
  resources and the invoices are as before, the items the resource had are still there, what it gets is on
  that invoice, and if anything raises nothing is written at all.
\<close>

theorem registration_is_local:
  assumes "billing_inv db" "first_row (invoice_of (rs_customer r) (dt_date clock)) (bd_invoices db) = Some v"
    and "register rd clock r kind db = (result, db')"
  shows "filter (\<lambda>i. bi_resource i \<noteq> Some (rs_pk r)) (bd_items db') = filter (\<lambda>i. bi_resource i \<noteq> Some (rs_pk r)) (bd_items db) \<and>
     (\<forall>i\<in>set (bd_items db). \<exists>j\<in>set (bd_items db'). same_line i j) \<and>
     (\<forall>e. result = Inl e \<longrightarrow> db' = db)"
proof -
  have "stays (billed (bv_pk v) {Some (rs_pk r)}) (atomic (process_resource rd clock r v clock (month_end (dt_date clock)) kind))"
    by (intro books.stays_atomic stays_resource) simp_all
  moreover have "db' = snd (atomic (process_resource rd clock r v clock (month_end (dt_date clock)) kind) db)"
    using assms(3) by (simp add: register_on_invoice [OF assms(2)])
  ultimately have "billed (bv_pk v) {Some (rs_pk r)} db db'" by (simp add: stays_def)
  moreover have "bv_pk v \<in> invoice_pks db" using first_row_Some [OF assms(2)] by (simp add: invoice_pks_def)
  ultimately have "kept db db' \<and> filter (\<lambda>i. bi_resource i \<notin> {Some (rs_pk r)}) (bd_items db') =
      filter (\<lambda>i. bi_resource i \<notin> {Some (rs_pk r)}) (bd_items db)"
    using assms(1) by (simp add: billed_def)
  moreover have "db' = db" if "result = Inl e" for e
    using assms(3) that unfolding register_on_invoice [OF assms(2)] by (simp add: atomic_raised)
  ultimately show ?thesis by (simp add: kept_def covered_def)
qed

lemma charged_item:
  assumes "process_simple_billing_component rd clock r p pc c w start stop kind s = (Inr (), t)"
    and "is_charged kind (resolve_for p c)"
  shows "\<exists>i\<in>set (bd_items t). bi_resource i = Some (rs_pk r) \<and> bi_component_type i = oc_type c \<and> bi_invoice i = bv_pk w \<and>
     bi_plan_component i = Some (bc_pk pc)"
proof -
  from assms obtain ch s1 d where "t = add_item (simple_item r p pc c (bv_pk w) start stop ch d) s1"
    by (auto simp: process_simple_billing_component_def estep_def rbind_eq_Inr elim!: ebind_returned ethen_returned
        split: sum.splits)
  then show ?thesis by (simp add: add_item_def simple_item_def)
qed

lemma processed_component:
  assumes "process_resource rd clock r w start stop kind s = (Inr (), t)" "bo_billable (rs_offering r)"
    and "rs_plan r = Some p" "pc \<in> set (bp_components p)" "bc_component pc = Some c"
    and "ef_billing_type (resolve_for p c) \<noteq> LIMIT"
  obtains s1 t1 where "billed (bv_pk w) UNIV s s1" "billed (bv_pk w) UNIV t1 t"
    "process_simple_billing_component rd clock r p pc c w start stop kind s1 = (Inr (), t1)"
proof -
  let ?f = "\<lambda>pc. case bc_component pc of
                None \<Rightarrow> ereturn ()
              | Some c \<Rightarrow>
                  if ef_billing_type (resolve_for p c) = LIMIT
                  then estep (process_creation r p pc c (bv_pk w) start stop kind)
                  else process_simple_billing_component rd clock r p pc c w start stop kind"
  have one: "stays (billed (bv_pk w) UNIV) (?f pc)" for pc
  proof -
    have "stays (billed (bv_pk w) UNIV) (estep (process_creation r p pc c (bv_pk w) start stop kind))" for c
      using billed_create [of r UNIV "bv_pk w"]
      by (intro books.stays_step) (auto simp: process_creation_def rbind_eq_Inr Let_def books.refl split: if_splits prod.splits)
    then show ?thesis by (auto intro!: books.stays_return stays_simple split: option.split)
  qed
  have "eiter ?f (bp_components p) s = (Inr (), t)" using assms(1-3) by (simp add: process_resource_def)
  from books.iter_reaches [OF one this assms(4)] obtain s1 t1 where
      "billed (bv_pk w) UNIV s s1" "?f pc s1 = (Inr (), t1)" "billed (bv_pk w) UNIV t1 t" .
  with assms(5,6) show thesis by (auto intro!: that)
qed

text \<open>
  The first registration of a month opens the invoice and processes every active resource of the customer
  as if it had just been created: a resource that has been running for months gets a new item for each of
  its one-time components.
\<close>

theorem first_registration_recharges:
  assumes "billing_inv db" "first_row (invoice_of (rs_customer r) (dt_date clock)) (bd_invoices db) = None"
    and "register rd clock r (Some CREATE) db = (Inr (), db')"
    and active: "other \<in> set (billed_resources (rs_customer r) db)" "rs_plan other = Some p" "pc \<in> set (bp_components p)"
      "bc_component pc = Some c" "ef_billing_type (resolve_for p c) = ONE_TIME"
  shows "\<exists>i\<in>set (bd_items db'). bi_pk i \<notin> bi_pk ` set (bd_items db) \<and> bi_resource i = Some (rs_pk other) \<and>
     bi_component_type i = oc_type c"
proof -
  let ?w = "new_invoice (rs_customer r) (dt_date clock) (bd_next db)"
  let ?s = "add_invoice ?w db"
  let ?process = "\<lambda>r. process_resource rd clock r ?w clock (month_end (dt_date clock)) (Some CREATE)"
  have pk: "bv_pk ?w = bd_next db" by (simp add: new_invoice_def)
  have run: "eiter ?process (billed_resources (rs_customer r) ?s) ?s = (Inr (), db')"
    using assms(2,3)
    by (auto simp: register_def get_or_create_invoice_def atomic_returned ebind_def ethen_def eread_def ewrite_def day_of_def
        split: prod.splits sum.splits)
  have each: "stays (billed (bd_next db) UNIV) (?process r)" for r by (rule stays_resource) (simp_all add: pk)
  have "other \<in> set (billed_resources (rs_customer r) ?s)"
    using active(1) by (simp add: billed_resources_def add_invoice_def)
  then obtain s1 t1 where r1: "billed (bd_next db) UNIV ?s s1" "?process other s1 = (Inr (), t1)" "billed (bd_next db) UNIV t1 db'"
    by (rule books.iter_reaches [OF each run])
  have "bo_billable (rs_offering other)" using active(1) by (simp add: billed_resources_def)
  moreover have "ef_billing_type (resolve_for p c) \<noteq> LIMIT" using active(5) by simp
  ultimately obtain s2 t2 where r2: "billed (bd_next db) UNIV s1 s2" "billed (bd_next db) UNIV t2 t1"
      "process_simple_billing_component rd clock other p pc c ?w clock (month_end (dt_date clock)) (Some CREATE) s2 = (Inr (), t2)"
    using processed_component [OF r1(2) _ active(2-4)] unfolding pk by blast
  have "billed (bd_next db) UNIV s2 t2"
    using staysD [OF stays_simple r2(3)] by (simp add: pk)
  with r1 r2 have before: "billed (bd_next db) UNIV ?s t2" and after: "billed (bd_next db) UNIV t2 db'" and all: "billed (bd_next db) UNIV ?s db'"
    using books.trans by metis+
  have inv: "billing_inv ?s" "bd_next db \<in> invoice_pks ?s" using add_invoice_accounts [OF assms(2,1)] by simp_all
  then have t2: "billing_inv t2" "bd_next db \<in> invoice_pks t2" using before kept_pks by (auto simp: billed_def)
  obtain i where i: "i \<in> set (bd_items t2)" "bi_resource i = Some (rs_pk other)" "bi_component_type i = oc_type c" "bi_invoice i = bd_next db"
    using charged_item [OF r2(3)] active(5) by (auto simp: is_charged_def pk)
  with t2 after obtain j where j: "j \<in> set (bd_items db')" "same_line i j" by (auto simp: billed_def kept_def covered_def)
  have "bi_pk k \<noteq> bi_pk j" if k: "k \<in> set (bd_items db)" for k
  proof
    assume same: "bi_pk k = bi_pk j"
    have "k \<in> set (bd_items ?s)" using k by (simp add: add_invoice_def)
    then obtain l where l: "l \<in> set (bd_items db')" "same_line k l"
      using all inv by (auto simp: billed_def kept_def covered_def)
    moreover have "distinct (map bi_pk (bd_items db'))" using all inv by (simp add: billed_def billing_inv_def)
    ultimately have "l = j" using j(1) same distinct_key_eq [of bi_pk "bd_items db'" l j] by (simp add: same_line_def)
    then have "bi_invoice k = bd_next db" using l(2) j(2) i(4) by (simp add: same_line_def)
    then show False using assms(1) k by (fastforce simp: billing_inv_def invoice_pks_def)
  qed
  then have "bi_pk j \<notin> bi_pk ` set (bd_items db)" by force
  then show ?thesis using i j by (intro bexI [of _ j]) (simp_all add: same_line_def)
qed

subsection \<open>Termination\<close>

lemma update_quantity_end: "update_quantity db i = Inr j \<Longrightarrow> bi_end j = bi_end i"
  by (auto simp: update_quantity_def split: option.splits if_splits prod.splits)

lemma terminate_item_end:
  assumes "terminate_item db stop i = Inr j"
  shows "bi_end j = stop"
proof -
  from assms obtain k where k: "update_quantity db (i\<lparr>bi_end := stop\<rparr>) = Inr k"
    by (auto simp: terminate_item_def rbind_eq_Inr)
  then have "bi_end j = bi_end k"
    using assms by (auto simp: terminate_item_def Let_def split: option.splits list.splits if_splits)
  then show ?thesis using update_quantity_end [OF k] by simp
qed

lemma termination_loop:
  assumes "eiter (\<lambda>i. estep (\<lambda>db. rbind (terminate_item db stop i) (\<lambda>j. Inr (save_item j db)))) is s = (Inr u, t)"
  shows "bd_invoices t = bd_invoices s \<and>
     (\<forall>k\<in>set (bd_items t). bi_end k = stop \<or> (k \<in> set (bd_items s) \<and> bi_pk k \<notin> bi_pk ` set is))"
  using assms
proof (induction "is" arbitrary: s)
  case (Cons i "is")
  from Cons.prems obtain j where j: "terminate_item s stop i = Inr j"
      and rest: "eiter (\<lambda>i. estep (\<lambda>db. rbind (terminate_item db stop i) (\<lambda>j. Inr (save_item j db)))) is (save_item j s) = (Inr u, t)"
    by (auto simp: estep_def rbind_eq_Inr elim!: ethen_returned split: sum.splits)
  have "bi_end j = stop" "bi_pk j = bi_pk i"
    using terminate_item_end [OF j] terminate_item_line [OF j] by (simp_all add: same_line_def)
  moreover have "bd_invoices (save_item j s) = bd_invoices s"
    "set (bd_items (save_item j s)) = (\<lambda>k. if bi_pk k = bi_pk j then j else k) ` set (bd_items s)"
    by (simp_all add: save_item_def set_update_rows)
  ultimately show ?case using Cons.IH [OF rest] by (fastforce split: if_splits)
qed simp

text \<open>
  Terminating a resource ends its billing: afterwards no item of the resource on an open invoice of the
  month runs to the end of the month, and no item that was on the books has gone.
\<close>

theorem termination_ends_items:
  assumes "billing_inv db" "terminate_billing rd clock r db = (Inr (), db')" "clock \<noteq> month_end (dt_date clock)"
  shows "running_items clock r db' = [] \<and> (\<forall>i\<in>set (bd_items db). \<exists>j\<in>set (bd_items db'). same_line i j)"
proof -
  from assms(2) obtain s where
      loop: "eiter (\<lambda>i. estep (\<lambda>db. rbind (terminate_item db clock i) (\<lambda>i. Inr (save_item i db)))) (running_items clock r s) s = (Inr (), db')"
    by (auto simp: terminate_billing_def atomic_returned eread_def ebind_def elim!: ethen_returned)
  have "i \<notin> set (running_items clock r db')" for i
  proof
    assume run: "i \<in> set (running_items clock r db')"
    then have "i \<in> set (bd_items db')" "bi_end i \<noteq> clock" using assms(3) by (simp_all add: running_items_def)
    then have "i \<in> set (bd_items s)" "bi_pk i \<notin> bi_pk ` set (running_items clock r s)" using termination_loop [OF loop] by auto
    moreover have "i \<in> set (running_items clock r s)"
      using run calculation(1) termination_loop [OF loop] by (simp add: running_items_def)
    ultimately show False by blast
  qed
  then have "running_items clock r db' = []" by (simp add: set_eq_iff flip: set_empty)
  moreover have "accounts db db'" using terminate_accounts [of db rd clock r] assms(2) by simp
  ultimately show ?thesis using assms(1) by (simp add: accounts_def kept_def covered_def)
qed

subsection \<open>Campaigns\<close>

text \<open>
  The price of a month under the one campaign a resource is linked to: the discount counts from the
  month of the link for the months of the campaign, if they end within the year of the link.  If they end
  later, the last month is asked of datetime.date as a month beyond 12, which raises: no price can be
  computed.  A campaign of 0 months, documented as indefinite, gives no month, and raises when the
  link was made in January.
\<close>

theorem campaign_price:
  assumes "filter (\<lambda>d. dr_resource d = resource) (bd_discounted db) = [dr]"
    and "find_campaign db (dr_campaign dr) = Inr cm"
  shows "get_discount_for_resource db resource (year, month) price =
     (let until = int (cd_month (dr_created dr)) + int (cm_months cm) - 1
      in if until < 1 \<or> 12 < until then Inl Invalid_date
         else if cd_year (dr_created dr) < year \<or> (cd_year (dr_created dr) = year \<and> until < int month)
           then Inr (None, price)
         else Inr (Some (cm_pk cm), get_discount_price cm price))"
proof (cases "discount_end cm dr")
  case (Inl e)
  then show ?thesis
    using assms by (auto simp: get_discount_for_resource_def discount_step_def discount_end_def Let_def split: if_splits)
next
  case (Inr until)
  then have "month_after (year, month) until \<longleftrightarrow> cd_year (dr_created dr) < year \<or>
      (cd_year (dr_created dr) = year \<and> int (cd_month (dr_created dr)) + int (cm_months cm) - 1 < int month)"
      and "1 \<le> int (cd_month (dr_created dr)) + int (cm_months cm) - 1" "int (cd_month (dr_created dr)) + int (cm_months cm) - 1 \<le> 12"
    by (auto simp: discount_end_def month_after_def Let_def split: if_splits)
  then show ?thesis using single_link_price [OF assms Inr] by (auto simp: Let_def)
qed

text \<open>Links are only added, campaigns are not changed.\<close>

definition tied :: "billing_db \<Rightarrow> billing_db \<Rightarrow> bool" where
  "tied s t \<longleftrightarrow> set (bd_discounted s) \<subseteq> set (bd_discounted t) \<and> bd_campaigns t = bd_campaigns s"

interpretation links: state_order tied
  by unfold_locales (auto simp: tied_def)

lemma tied_item [simp]: "tied s (add_item i s)" "tied s (save_item i s)"
  by (simp_all add: tied_def add_item_def save_item_def)

lemma tied_create [simp]: "tied s (create_limit_item r p pc v start stop s)"
  by (auto simp: create_limit_item_def reopen_closed_item_def Let_def links.refl split: option.split)

lemma activation_ties: "stays tied (create_discounted_resource_on_activation clock r)"
proof -
  have "tied s t" if "get_or_link clock cm k s = Inr t" for cm k s t
    using that by (auto simp: get_or_link_def link_resource_def tied_def split: sum.splits billing_error.splits)
  then show ?thesis
    unfolding create_discounted_resource_on_activation_def
    by (auto simp: rbind_eq_Inr links.refl split: option.split if_splits
        intro!: links.stays_return links.stays_bind links.stays_read links.stays_iter links.stays_step)
qed

lemma links_stay: "stays tied (process_simple_billing_component rd clock r p pc c w start stop kind)"
  unfolding process_simple_billing_component_def
  by (intro links.stays_when links.stays_bind links.stays_lift links.stays_then links.stays_step activation_ties)
     (auto simp: rbind_eq_Inr)

lemma late_link_has_no_price:
  assumes "dr \<in> set (bd_discounted db)" "dr_resource dr = resource" "find_campaign db (dr_campaign dr) = Inr cm"
    and "12 < cd_month (dr_created dr) + cm_months cm - 1"
  shows "get_discount_for_resource db resource month price \<noteq> Inr x"
proof -
  have bad: "discount_step db month acc dr = Inl Invalid_date" for acc
    using assms(3,4) by (auto simp: discount_step_def discount_end_def split: prod.split)
  have "rfold (discount_step db month) acc ds \<noteq> Inr y" if "dr \<in> set ds" for ds acc y
    using that
  proof (induction ds arbitrary: acc)
    case (Cons d ds)
    then show ?case by (cases "d = dr"; cases "discount_step db month acc d") (auto simp: bad)
  qed simp
  then show ?thesis using assms(1,2) by (simp add: get_discount_for_resource_def rbind_eq_Inr)
qed

text \<open>
  A campaign that ends in the next year stops the billing of the resources it is linked to: registering
  such a resource with a component that is charged always raises, and nothing of it is billed, the
  components processed before it included.
\<close>

theorem late_campaign_blocks_billing:
  assumes "first_row (invoice_of (rs_customer r) (dt_date clock)) (bd_invoices db) = Some v" "bo_billable (rs_offering r)"
    and charged: "rs_plan r = Some p" "pc \<in> set (bp_components p)" "bc_component pc = Some c" "is_charged kind (resolve_for p c)"
    and link: "dr \<in> set (bd_discounted db)" "dr_resource dr = rs_pk r" "find_campaign db (dr_campaign dr) = Inr cm"
      "12 < cd_month (dr_created dr) + cm_months cm - 1"
  shows "\<exists>e. register rd clock r kind db = (Inl e, db)"
proof -
  let ?finish = "month_end (dt_date clock)"
  let ?f = "\<lambda>pc. case bc_component pc of
                None \<Rightarrow> ereturn ()
              | Some c \<Rightarrow>
                  if ef_billing_type (resolve_for p c) = LIMIT
                  then estep (process_creation r p pc c (bv_pk v) clock ?finish kind)
                  else process_simple_billing_component rd clock r p pc c v clock ?finish kind"
  have each: "stays tied (?f pc)" for pc
    by (auto simp: process_creation_def rbind_eq_Inr Let_def links.refl split: option.split if_splits prod.splits
        intro!: links.stays_return links.stays_step links_stay)
  have "process_resource rd clock r v clock ?finish kind db \<noteq> (Inr u, t)" for u t
  proof
    assume "process_resource rd clock r v clock ?finish kind db = (Inr u, t)"
    then have run: "eiter ?f (bp_components p) db = (Inr u, t)" using assms(2) charged(1) by (simp add: process_resource_def)
    from links.iter_reaches [OF each run charged(2)] obtain s1 t1 where s1: "tied db s1" "?f pc s1 = (Inr (), t1)" .
    have "ef_billing_type (resolve_for p c) \<noteq> LIMIT" using charged(4) by (auto simp: is_charged_def)
    then have "process_simple_billing_component rd clock r p pc c v clock ?finish kind s1 = (Inr (), t1)"
      using s1(2) charged(3) by simp
    then obtain ch s2 where step: "create_discounted_resource_on_activation clock r s1 = (Inr (), s2)"
        "estep (\<lambda>db. rbind (get_discount_for_resource db (rs_pk r) (bv_year v, bv_month v) (ch_unit_price ch))
           (\<lambda>d. Inr (add_item (simple_item r p pc c (bv_pk v) clock ?finish ch d) db))) s2 = (Inr (), t1)"
      using charged(4) by (auto simp: process_simple_billing_component_def elim!: ebind_returned ethen_returned)
    then obtain x where s2: "create_discounted_resource_on_activation clock r s1 = (Inr (), s2)"
        "get_discount_for_resource s2 (rs_pk r) (bv_year v, bv_month v) (ch_unit_price ch) = Inr x"
      by (cases "get_discount_for_resource s2 (rs_pk r) (bv_year v, bv_month v) (ch_unit_price ch)") (auto simp: estep_def)
    have "tied s1 s2" using activation_ties s2(1) by (rule staysD)
    then have "dr \<in> set (bd_discounted s2)" "find_campaign s2 (dr_campaign dr) = Inr cm"
      using s1(1) link by (auto simp: tied_def find_campaign_def)
    then show False using late_link_has_no_price [OF _ link(2) _ link(4)] s2(2) by blast
  qed
  then show ?thesis
    unfolding register_on_invoice [OF assms(1)] atomic_def by (auto split: prod.split sum.split)
qed

subsection \<open>A customer with two resources\<close>

definition no_delta :: relative_delta where
  "no_delta = (\<lambda>_ _. (0, 0, 0))"

definition demo_fee :: offering_component where
  "demo_fee = (demo_oc ''setup'' MONTH)\<lparr>oc_billing_type := ONE_TIME\<rparr>"

definition demo_fee_plan :: billing_plan where
  "demo_fee_plan = demo_plan_of PER_MONTH demo_fee"

definition demo_fee_resource :: "nat \<Rightarrow> billing_resource" where
  "demo_fee_resource pk = (demo_resource PER_MONTH demo_fee 0)\<lparr>rs_pk := pk\<rparr>"

definition demo_invoice :: billing_invoice where
  "demo_invoice = new_invoice 1 (dt_date (moment 2 5 1 0)) 5"

definition demo_books :: "billing_invoice list \<Rightarrow> billing_db" where
  "demo_books vs = (demo_db PER_MONTH demo_fee [])\<lparr>bd_invoices := vs, bd_resources := [demo_fee_resource 7, demo_fee_resource 8]\<rparr>"

definition fee_item :: "nat \<Rightarrow> nat \<Rightarrow> datetime \<Rightarrow> billing_item" where
  "fee_item pk invoice start = simple_item (demo_fee_resource pk) demo_fee_plan (demo_bc 1 demo_fee) demo_fee invoice start
     (month_end (dt_date start)) \<lparr>ch_unit_price = 10, ch_unit = QUANTITY, ch_quantity = 1, ch_volume = 1\<rparr> (None, 10)"

lemma demo_fee_kind [simp]: "ef_billing_type (resolve_for demo_fee_plan demo_fee) = ONE_TIME" "bc_component (demo_bc 1 demo_fee) = Some demo_fee"
  "ef_is_prepaid (resolve_for demo_fee_plan demo_fee) = False" "bp_components demo_fee_plan = [demo_bc 1 demo_fee]"
  by (simp_all add: demo_fee_plan_def demo_fee_def demo_oc_def resolve_for_def resolve_component_def own_values_def
      demo_plan_of_def demo_bc_def)

lemmas demo_fee_component [simp] = demo_fee_kind(2) [unfolded One_nat_def]

lemma demo_fee_rows [simp]: "rs_plan (demo_fee_resource pk) = Some demo_fee_plan" "rs_customer (demo_fee_resource pk) = 1"
  "rs_pk (demo_fee_resource pk) = pk" "bo_billable (rs_offering (demo_fee_resource pk))" "rs_coupon (demo_fee_resource pk) = None"
  "rs_state (demo_fee_resource pk) = RES_OK"
  by (simp_all add: demo_fee_resource_def demo_resource_def demo_fee_plan_def)

lemma demo_fee_run:
  assumes "bd_discounted s = []"
  shows "process_resource no_delta clock (demo_fee_resource pk) w start (month_end (dt_date start)) (Some CREATE) s =
     (Inr (), add_item (fee_item pk (bv_pk w) start) s)"
  using assms
  by (simp add: process_resource_def process_simple_billing_component_def is_charged_def simple_charge_def
      create_discounted_resource_on_activation_def estep_def get_discount_for_resource_def fee_item_def demo_bc_def
      ethen_def ebind_def Let_def)

lemma demo_registered:
  "register no_delta (moment 2 5 3 12) (demo_fee_resource 7) (Some CREATE) (demo_books [demo_invoice]) =
     (Inr (), add_item (fee_item 7 5 (moment 2 5 3 12)) (demo_books [demo_invoice]))"
proof -
  have "first_row (invoice_of (rs_customer (demo_fee_resource 7)) (dt_date (moment 2 5 3 12))) (bd_invoices (demo_books [demo_invoice])) = Some demo_invoice"
    by (simp add: demo_books_def demo_invoice_def invoice_of_def new_invoice_def moment_def)
  then show ?thesis
    by (simp add: register_on_invoice atomic_def demo_fee_run demo_books_def demo_db_def) (simp add: demo_invoice_def new_invoice_def)
qed

lemma demo_books_inv: "billing_inv (demo_books [])" "billing_inv (demo_books [demo_invoice])"
  by (simp_all add: billing_inv_def demo_books_def demo_db_def demo_invoice_def new_invoice_def invoice_keys_def)

theorem one_invoice_per_month_witness:
  "map bv_pk (bd_invoices (add_item (fee_item 7 5 (moment 2 5 3 12)) (demo_books [demo_invoice]))) = [5] \<and>
   list_all (\<lambda>i. bi_invoice i = 5) (bd_items (add_item (fee_item 7 5 (moment 2 5 3 12)) (demo_books [demo_invoice])))"
proof -
  have "billing_step no_delta demo_platform (demo_books [demo_invoice]) (snd (process_billing_on_resource_save no_delta
      (moment 2 5 3 12) \<lparr>last_update = None, create_limits = [], tracked_limits = []\<rparr> False False RES_CREATING False False
      (demo_fee_resource 7) (demo_books [demo_invoice])))"
    by (rule billing_step.resource_saved)
  then have "(billing_step no_delta demo_platform)\<^sup>*\<^sup>* (demo_books [demo_invoice])
      (add_item (fee_item 7 5 (moment 2 5 3 12)) (demo_books [demo_invoice]))"
    by (simp add: process_billing_on_resource_save_def handle_resource_creation_def demo_registered ethen_def ebind_def r_into_rtranclp)
  from one_invoice_per_month [OF this demo_books_inv(2)] show ?thesis
    by (auto simp: list_all_iff add_item_def demo_books_def demo_invoice_def new_invoice_def)
qed

theorem registration_is_local_witness:
  "\<exists>db'. register no_delta (moment 2 5 3 12) (demo_fee_resource 7) (Some CREATE) (demo_books [demo_invoice]) = (Inr (), db') \<and>
     filter (\<lambda>i. bi_resource i \<noteq> Some 7) (bd_items db') = filter (\<lambda>i. bi_resource i \<noteq> Some 7) (bd_items (demo_books [demo_invoice]))"
proof -
  have "first_row (invoice_of (rs_customer (demo_fee_resource 7)) (dt_date (moment 2 5 3 12))) (bd_invoices (demo_books [demo_invoice])) = Some demo_invoice"
    by (simp add: demo_books_def demo_invoice_def invoice_of_def new_invoice_def moment_def)
  from registration_is_local [OF demo_books_inv(2) this demo_registered] demo_registered show ?thesis by simp
qed

theorem first_registration_recharges_witness:
  "\<exists>db'. register no_delta (moment 2 5 3 12) (demo_fee_resource 7) (Some CREATE) (demo_books []) = (Inr (), db') \<and>
     (\<exists>i\<in>set (bd_items db'). bi_resource i = Some 8 \<and> bi_component_type i = ''setup'')"
proof -
  let ?w = "new_invoice 1 (dt_date (moment 2 5 3 12)) 20"
  let ?db = "add_item (fee_item 8 20 (moment 2 5 3 12)) (add_item (fee_item 7 20 (moment 2 5 3 12)) (add_invoice ?w (demo_books [])))"
  have billed: "billed_resources 1 (add_invoice ?w (demo_books [])) = [demo_fee_resource 7, demo_fee_resource 8]"
    by (simp add: billed_resources_def add_invoice_def demo_books_def)
  have none: "first_row (invoice_of (rs_customer (demo_fee_resource 7)) (dt_date (moment 2 5 3 12))) (bd_invoices (demo_books [])) = None"
    by (simp add: demo_books_def)
  have "bd_next (demo_books []) = 20" "bd_discounted (add_invoice w (demo_books [])) = []"
    "bd_discounted (add_item i s) = bd_discounted s" "bv_pk ?w = 20" for w i s
    by (simp_all add: demo_books_def demo_db_def add_invoice_def add_item_def new_invoice_def)
  then have run: "register no_delta (moment 2 5 3 12) (demo_fee_resource 7) (Some CREATE) (demo_books []) = (Inr (), ?db)"
    using none billed
    by (simp add: register_def atomic_def get_or_create_invoice_def ebind_def ethen_def day_of_def Let_def demo_fee_run)
  have other: "demo_fee_resource 8 \<in> set (billed_resources (rs_customer (demo_fee_resource 7)) (demo_books []))"
    by (simp add: billed_resources_def demo_books_def)
  from first_registration_recharges [OF demo_books_inv(1) none run other, of demo_fee_plan "demo_bc 1 demo_fee" demo_fee]
  have "\<exists>i\<in>set (bd_items ?db). bi_resource i = Some 8 \<and> bi_component_type i = oc_type demo_fee"
    unfolding demo_fee_kind demo_fee_rows by (metis list.set_intros(1))
  with run show ?thesis by (simp add: demo_fee_def demo_oc_def)
qed

definition demo_running :: billing_db where
  "demo_running = add_item (fee_item 7 5 (moment 2 5 3 12)) (demo_books [demo_invoice])"

theorem termination_ends_items_witness:
  "\<exists>db'. terminate_billing no_delta (moment 2 5 10 9) (demo_fee_resource 7) demo_running = (Inr (), db') \<and>
     length (running_items (moment 2 5 10 9) (demo_fee_resource 7) demo_running) = 1 \<and>
     running_items (moment 2 5 10 9) (demo_fee_resource 7) db' = []"
proof -
  let ?i = "(fee_item 7 5 (moment 2 5 3 12))\<lparr>bi_pk := 20\<rparr>" and ?t = "moment 2 5 10 9"
  have item: "bd_items demo_running = [?i]" by (simp add: demo_running_def demo_books_def demo_db_def add_item_def)
  have found: "first_row (invoice_of (rs_customer (demo_fee_resource 7)) (dt_date ?t)) (bd_invoices demo_running) = Some demo_invoice"
    by (simp add: demo_running_def add_item_def demo_books_def demo_invoice_def invoice_of_def new_invoice_def moment_def)
  have "bi_resource ?i = Some 7" "bi_end ?i = month_end (dt_date ?t)" "bi_invoice ?i = 5" "bi_limit_periods ?i = None"
      "bi_plan_component ?i = Some 1"
    by (simp_all add: fee_item_def simple_item_def demo_bc_def month_end_def moment_def)
  note i = this
  have running: "running_items ?t (demo_fee_resource 7) demo_running = [?i]"
    using i by (simp add: running_items_def item) (simp add: demo_running_def add_item_def demo_books_def
        demo_invoice_def new_invoice_def invoice_of_def moment_def MUTABLE_STATES_def)
  have "find_plan_component demo_running 1 = Some (demo_fee_plan, demo_bc 1 demo_fee)"
    by (simp add: demo_running_def add_item_def demo_books_def demo_db_def find_plan_component_def demo_fee_plan_def
        demo_plan_of_def demo_bc_def)
  then have stop: "terminate_item demo_running ?t ?i = Inr (?i\<lparr>bi_end := ?t\<rparr>)"
    using i by (simp add: terminate_item_def update_quantity_def is_prorated_def)
  have run: "terminate_billing no_delta ?t (demo_fee_resource 7) demo_running = (Inr (), save_item (?i\<lparr>bi_end := ?t\<rparr>) demo_running)"
    using found running stop
    by (simp add: terminate_billing_def get_or_create_invoice_def atomic_def ebind_def ethen_def day_of_def estep_def)
  have "billing_inv demo_running"
    using i by (simp add: demo_running_def add_item_def demo_books_def demo_db_def billing_inv_def demo_invoice_def
        new_invoice_def invoice_keys_def invoice_pks_def)
  moreover have "?t \<noteq> month_end (dt_date ?t)" by (simp add: moment_def month_end_def day_us_def)
  ultimately have "running_items ?t (demo_fee_resource 7) (save_item (?i\<lparr>bi_end := ?t\<rparr>) demo_running) = []"
    using termination_ends_items [OF _ run] by blast
  with run running show ?thesis by simp
qed

definition demo_campaign :: "nat \<Rightarrow> campaign" where
  "demo_campaign months = \<lparr>cm_pk = 3, cm_start_date = dt_date (moment 2 1 1 0), cm_end_date = dt_date (moment 2 12 31 0),
     cm_coupon = '''', cm_discount_type = DISCOUNT, cm_discount = 50, cm_offerings = [1], cm_required_offerings = [],
     cm_stock = None, cm_months = months, cm_auto_apply = True, cm_state = ACTIVE_CAMPAIGN\<rparr>"

definition demo_linked :: "nat \<Rightarrow> nat \<Rightarrow> billing_db" where
  "demo_linked month months = (demo_books [demo_invoice])\<lparr>bd_campaigns := [demo_campaign months],
     bd_discounted := [\<lparr>dr_campaign = 3, dr_resource = 7, dr_created = dt_date (moment 2 month 5 0)\<rparr>]\<rparr>"

lemma demo_link: "find_campaign (demo_linked month months) 3 = Inr (demo_campaign months)"
  by (simp add: find_campaign_def get_row_def demo_linked_def demo_campaign_def)

theorem campaign_price_witness:
  "get_discount_for_resource (demo_linked 5 2) 7 (2, 6) 10 = Inr (Some 3, 5) \<and>
   get_discount_for_resource (demo_linked 5 2) 7 (2, 7) 10 = Inr (None, 10) \<and>
   get_discount_for_resource (demo_linked 11 3) 7 (2, 11) 10 = Inl Invalid_date"
proof -
  have link: "filter (\<lambda>d. dr_resource d = 7) (bd_discounted (demo_linked month months)) =
      [\<lparr>dr_campaign = 3, dr_resource = 7, dr_created = dt_date (moment 2 month 5 0)\<rparr>]" for month months
    by (simp add: demo_linked_def)
  have price: "cm_pk (demo_campaign n) = 3" "cm_months (demo_campaign n) = n" "get_discount_price (demo_campaign n) 10 = 5" for n
    by (simp_all add: demo_campaign_def get_discount_price_def)
  have date: "cd_month (dt_date (moment 2 m 5 0)) = m" "cd_year (dt_date (moment 2 m 5 0)) = 2" for m by (simp_all add: moment_def)
  show ?thesis
    using campaign_price [OF link, of 5 2 "demo_campaign 2" 2 6 10] campaign_price [OF link, of 5 2 "demo_campaign 2" 2 7 10]
      campaign_price [OF link, of 11 3 "demo_campaign 3" 2 11 10]
    by (simp add: demo_link price date)
qed

theorem late_campaign_blocks_billing_witness:
  "\<exists>e. register no_delta (moment 2 5 3 12) (demo_fee_resource 7) (Some CREATE) (demo_linked 11 3) = (Inl e, demo_linked 11 3)"
proof -
  let ?dr = "\<lparr>dr_campaign = 3, dr_resource = 7, dr_created = dt_date (moment 2 11 5 0)\<rparr>"
  have found: "first_row (invoice_of (rs_customer (demo_fee_resource 7)) (dt_date (moment 2 5 3 12))) (bd_invoices (demo_linked 11 3)) = Some demo_invoice"
    by (simp add: demo_linked_def demo_books_def demo_invoice_def invoice_of_def new_invoice_def moment_def)
  have link: "?dr \<in> set (bd_discounted (demo_linked 11 3))" "dr_resource ?dr = rs_pk (demo_fee_resource 7)"
    "find_campaign (demo_linked 11 3) (dr_campaign ?dr) = Inr (demo_campaign 3)"
    "12 < cd_month (dr_created ?dr) + cm_months (demo_campaign 3) - 1"
    by (simp_all add: demo_link) (simp_all add: demo_linked_def moment_def demo_campaign_def)
  have "is_charged (Some CREATE) (resolve_for demo_fee_plan demo_fee)" by (simp add: is_charged_def)
  from late_campaign_blocks_billing [OF found _ _ _ _ this link, of "demo_bc 1 demo_fee"] show ?thesis by simp
qed

end
