(* ===== verification/Limit_Formula.thy ===== *)
theory Limit_Formula
  imports Option_Visibility
begin

text \<open>
  The formulas of order forms, first half of \<^verbatim>\<open>marketplace/derived_limits.py\<close>: the tokenizer (the regular
  expression \<open>_TOKEN_RE\<close> applied from the left), the recursive descent parser and the exact evaluation.
  The position of the parser is the list of tokens still to read; its depth is an argument, since
  \<open>nested\<close> restores it.  Characters are those of the eight-bit range.
\<close>

subsection \<open>Tokens\<close>

datatype limit_error = Unexpected_character | Formula_is_empty | Unexpected_token | Missing_parenthesis
  | Ends_unexpectedly | Too_deep | Not_a_string | Too_long | Division_by_zero

datatype limit_token = Num_token rat | Input_token | Plus | Minus | Times | Divide | Open | Close

definition MAX_FORMULA_LENGTH_limits :: nat where
  "MAX_FORMULA_LENGTH_limits = 255"

definition MAX_FORMULA_DEPTH :: nat where
  "MAX_FORMULA_DEPTH = 32"

text \<open>The classes of the regular expression: \<open>\s\<close>, \<open>[0-9]\<close> and \<open>\w\<close> (for the word boundary after \<open>input\<close>).\<close>

definition re_space :: "char \<Rightarrow> bool" where
  "re_space c \<longleftrightarrow> (of_char c :: nat) \<in> {9, 10, 11, 12, 13, 28, 29, 30, 31, 32, 133, 160}"

definition re_digit :: "char \<Rightarrow> bool" where
  "re_digit c \<longleftrightarrow> (48 :: nat) \<le> of_char c \<and> of_char c \<le> (57 :: nat)"

definition re_word :: "char \<Rightarrow> bool" where
  "re_word c \<longleftrightarrow>
     (let n = of_char c :: nat
      in (48 \<le> n \<and> n \<le> 57) \<or> (65 \<le> n \<and> n \<le> 90) \<or> (97 \<le> n \<and> n \<le> 122) \<or>
         n \<in> {95, 170, 178, 179, 181, 185, 186, 188, 189, 190} \<or> (192 \<le> n \<and> n \<noteq> 215 \<and> n \<noteq> 247))"

text \<open>\<open>Fraction\<close> of the digits before and after the point.\<close>

definition fraction_value :: "string \<Rightarrow> string \<Rightarrow> rat" where
  "fraction_value whole decimals =
     of_nat (decimal_value whole) + of_nat (decimal_value decimals) / 10 ^ length decimals"

text \<open>\<open>[0-9]+(\.[0-9]+)?|\.[0-9]+\<close>: the number at the head of the text, and the rest.\<close>

definition match_number :: "string \<Rightarrow> (rat \<times> string) option" where
  "match_number s =
     (let whole = takeWhile re_digit s; rest = dropWhile re_digit s
      in case rest of
           CHR ''.'' # t \<Rightarrow>
             let decimals = takeWhile re_digit t
             in if decimals \<noteq> [] then Some (fraction_value whole decimals, dropWhile re_digit t)
                else if whole \<noteq> [] then Some (fraction_value whole [], rest) else None
         | _ \<Rightarrow> if whole \<noteq> [] then Some (fraction_value whole [], rest) else None)"

definition match_input :: "string \<Rightarrow> string option" where
  "match_input s =
     (if take 5 s = ''input'' \<and> (case drop 5 s of [] \<Rightarrow> True | c # _ \<Rightarrow> \<not> re_word c) then Some (drop 5 s) else None)"

definition match_operator :: "char \<Rightarrow> limit_token option" where
  "match_operator c =
     (if c = CHR ''-'' then Some Minus else if c = CHR ''+'' then Some Plus else if c = CHR ''*'' then Some Times
      else if c = CHR ''/'' then Some Divide else if c = CHR ''('' then Some Open else if c = CHR '')'' then Some Close
      else None)"

definition match_token :: "string \<Rightarrow> (limit_token \<times> string) option" where
  "match_token formula =
     (let s = dropWhile re_space formula
      in case match_number s of
           Some (q, rest) \<Rightarrow> Some (Num_token q, rest)
         | None \<Rightarrow>
             (case match_input s of
                Some rest \<Rightarrow> Some (Input_token, rest)
              | None \<Rightarrow> (case s of [] \<Rightarrow> None | c # rest \<Rightarrow> map_option (\<lambda>t. (t, rest)) (match_operator c))))"

lemma length_dropWhile: "length (dropWhile P xs) \<le> length xs"
  by (induction xs) auto

lemma takeWhile_dropWhile_length: "length (takeWhile P xs) + length (dropWhile P xs) = length xs"
  by (metis length_append takeWhile_dropWhile_id)

lemma match_number_shorter: "match_number s = Some (q, rest) \<Longrightarrow> length rest < length s"
proof -
  assume m: "match_number s = Some (q, rest)"
  let ?w = "takeWhile re_digit s" and ?r = "dropWhile re_digit s"
  have len: "length ?w + length ?r = length s" by (rule takeWhile_dropWhile_length)
  show ?thesis
  proof (cases "\<exists>t. ?r = CHR ''.'' # t \<and> takeWhile re_digit t \<noteq> []")
    case True
    then obtain t where t: "?r = CHR ''.'' # t" "takeWhile re_digit t \<noteq> []" by blast
    then have "rest = dropWhile re_digit t" using m by (simp add: match_number_def Let_def)
    then show ?thesis using len t(1) length_dropWhile [of re_digit t] by simp
  next
    case False
    then have "rest = ?r \<and> ?w \<noteq> []"
      using m by (auto simp: match_number_def Let_def split: list.splits char.splits bool.splits if_splits)
    then show ?thesis using len by (cases ?w) auto
  qed
qed

lemma match_token_shorter: "match_token formula = Some (t, rest) \<Longrightarrow> length rest < length formula"
proof -
  assume m: "match_token formula = Some (t, rest)"
  have "match_input s = Some r \<Longrightarrow> length r < length s" for s r
    by (cases s) (auto simp: match_input_def split: if_splits)
  then have "length rest < length (dropWhile re_space formula)"
    using m match_number_shorter
    by (auto simp: match_token_def Let_def split: option.splits list.splits)
  then show ?thesis using length_dropWhile [of re_space formula] by linarith
qed

function tokens_from :: "string \<Rightarrow> (limit_error, limit_token list) result" where
  "tokens_from formula =
     (if formula = [] then Inr []
      else case match_token formula of
             None \<Rightarrow> Inl Unexpected_character
           | Some (t, rest) \<Rightarrow> rbind (tokens_from rest) (\<lambda>ts. Inr (t # ts)))"
  by pat_completeness auto
termination
  by (relation "measure length") (auto dest: match_token_shorter)

declare tokens_from.simps [simp del]

definition rstrip :: "string \<Rightarrow> string" where
  "rstrip s = rev (dropWhile re_space (rev s))"

definition tokenize :: "string \<Rightarrow> (limit_error, limit_token list) result" where
  "tokenize formula = tokens_from (rstrip formula)"

subsection \<open>The parser\<close>

text \<open>
  The loops of \<open>expr\<close> and \<open>term\<close> are functions of their own, with the node built so far; \<open>nested\<close> checks
  the depth before it runs its rule.
\<close>

datatype limit_op = Add | Sub | Mul | Div

datatype limit_expr = Num rat | Input | Neg limit_expr | Bin limit_op limit_expr limit_expr

type_synonym parsed = "(limit_error, limit_expr \<times> limit_token list) result"

lemma rbind_cong [fundef_cong]:
  "m = m' \<Longrightarrow> (\<And>x. m' = Inr x \<Longrightarrow> f x = f' x) \<Longrightarrow> rbind m f = rbind m' f'"
  by (cases m') simp_all

function (domintros) parse_expr :: "nat \<Rightarrow> limit_token list \<Rightarrow> parsed"
  and expr_loop :: "nat \<Rightarrow> limit_expr \<Rightarrow> limit_token list \<Rightarrow> parsed"
  and parse_term :: "nat \<Rightarrow> limit_token list \<Rightarrow> parsed"
  and term_loop :: "nat \<Rightarrow> limit_expr \<Rightarrow> limit_token list \<Rightarrow> parsed"
  and parse_unary :: "nat \<Rightarrow> limit_token list \<Rightarrow> parsed"
  and parse_primary :: "nat \<Rightarrow> limit_token list \<Rightarrow> parsed"
where
  "parse_expr depth ts = rbind (parse_term depth ts) (\<lambda>p. expr_loop depth (fst p) (snd p))"
| "expr_loop depth node ts =
     (case ts of
        Plus # r \<Rightarrow> rbind (parse_term depth r) (\<lambda>p. expr_loop depth (Bin Add node (fst p)) (snd p))
      | Minus # r \<Rightarrow> rbind (parse_term depth r) (\<lambda>p. expr_loop depth (Bin Sub node (fst p)) (snd p))
      | _ \<Rightarrow> Inr (node, ts))"
| "parse_term depth ts = rbind (parse_unary depth ts) (\<lambda>p. term_loop depth (fst p) (snd p))"
| "term_loop depth node ts =
     (case ts of
        Times # r \<Rightarrow> rbind (parse_unary depth r) (\<lambda>p. term_loop depth (Bin Mul node (fst p)) (snd p))
      | Divide # r \<Rightarrow> rbind (parse_unary depth r) (\<lambda>p. term_loop depth (Bin Div node (fst p)) (snd p))
      | _ \<Rightarrow> Inr (node, ts))"
| "parse_unary depth ts =
     (case ts of
        Plus # r \<Rightarrow> if depth + 1 > MAX_FORMULA_DEPTH then Inl Too_deep else parse_unary (depth + 1) r
      | Minus # r \<Rightarrow>
          if depth + 1 > MAX_FORMULA_DEPTH then Inl Too_deep
          else rbind (parse_unary (depth + 1) r) (\<lambda>p. Inr (Neg (fst p), snd p))
      | _ \<Rightarrow> parse_primary depth ts)"
| "parse_primary depth ts =
     (case ts of
        Num_token q # r \<Rightarrow> Inr (Num q, r)
      | Input_token # r \<Rightarrow> Inr (Input, r)
      | Open # r \<Rightarrow>
          if depth + 1 > MAX_FORMULA_DEPTH then Inl Too_deep
          else rbind (parse_expr (depth + 1) r)
                 (\<lambda>p. case snd p of Close # r' \<Rightarrow> Inr (fst p, r') | _ \<Rightarrow> Inl Missing_parenthesis)
      | [] \<Rightarrow> Inl Ends_unexpectedly
      | _ \<Rightarrow> Inl Unexpected_token)"
  by pat_completeness auto

text \<open>What a rule returns is shorter than what it was given, and no loop gives tokens back.\<close>

definition consumes :: "parsed \<Rightarrow> limit_token list \<Rightarrow> bool" where
  "consumes r ts \<longleftrightarrow> (case r of Inl _ \<Rightarrow> True | Inr p \<Rightarrow> length (snd p) < length ts)"

definition keeps_up :: "parsed \<Rightarrow> limit_token list \<Rightarrow> bool" where
  "keeps_up r ts \<longleftrightarrow> (case r of Inl _ \<Rightarrow> True | Inr p \<Rightarrow> length (snd p) \<le> length ts)"

lemma consumes_bind:
  "consumes m ts \<Longrightarrow> (\<And>p. m = Inr p \<Longrightarrow> keeps_up (f p) (snd p)) \<Longrightarrow> consumes (rbind m f) ts"
  by (cases m) (force simp: consumes_def keeps_up_def split: sum.splits)+

lemma keeps_up_bind:
  "consumes m ts \<Longrightarrow> (\<And>p. m = Inr p \<Longrightarrow> keeps_up (f p) (snd p)) \<Longrightarrow> keeps_up (rbind m f) (t # ts)"
  by (cases m) (force simp: consumes_def keeps_up_def split: sum.splits)+

lemma keeps_up_self [simp]: "keeps_up (Inr (n, ts)) ts" "keeps_up (Inl e) ts" "consumes (Inl e) ts"
  by (simp_all add: keeps_up_def consumes_def)

lemmas parser_psimps = parse_expr.psimps expr_loop.psimps parse_term.psimps term_loop.psimps
  parse_unary.psimps parse_primary.psimps

lemmas parser_pinduct = parse_expr_expr_loop_parse_term_term_loop_parse_unary_parse_primary.pinduct

abbreviation parser_dom where
  "parser_dom \<equiv> parse_expr_expr_loop_parse_term_term_loop_parse_unary_parse_primary_dom"

lemma parser_consumes:
  "parser_dom (Inl (Inl (depth, ts))) \<Longrightarrow> consumes (parse_expr depth ts) ts"
  "parser_dom (Inl (Inr (Inl (depth, node, ts)))) \<Longrightarrow> keeps_up (expr_loop depth node ts) ts"
  "parser_dom (Inl (Inr (Inr (depth, ts)))) \<Longrightarrow> consumes (parse_term depth ts) ts"
  "parser_dom (Inr (Inl (depth, node, ts))) \<Longrightarrow> keeps_up (term_loop depth node ts) ts"
  "parser_dom (Inr (Inr (Inl (depth, ts)))) \<Longrightarrow> consumes (parse_unary depth ts) ts"
  "parser_dom (Inr (Inr (Inr (depth, ts)))) \<Longrightarrow> consumes (parse_primary depth ts) ts"
proof (induction depth ts and depth node ts and depth ts and depth node ts and depth ts and depth ts
    rule: parser_pinduct)
  case (1 depth ts)
  then show ?case by (auto simp: parse_expr.psimps intro!: consumes_bind)
next
  case (2 depth node ts)
  then show ?case
    by (auto simp: expr_loop.psimps intro!: keeps_up_bind split: list.split limit_token.split)
next
  case (3 depth ts)
  then show ?case by (auto simp: parse_term.psimps intro!: consumes_bind)
next
  case (4 depth node ts)
  then show ?case
    by (auto simp: term_loop.psimps intro!: keeps_up_bind split: list.split limit_token.split)
next
  case (5 depth ts)
  have step: "consumes r u \<Longrightarrow> consumes r (t # u)" for r u and t :: limit_token
    by (auto simp: consumes_def split: sum.splits)
  have negated: "consumes r u \<Longrightarrow> consumes (rbind r (\<lambda>p. Inr (Neg (fst p), snd p))) (t # u)"
    for r u and t :: limit_token
    by (auto simp: consumes_def rbind_def split: sum.splits)
  from 5 show ?case
    by (auto simp: parse_unary.psimps intro!: step negated split: list.split limit_token.split)
next
  case (6 depth ts)
  have closed: "consumes r u \<Longrightarrow>
      consumes (rbind r (\<lambda>p. case snd p of Close # r' \<Rightarrow> Inr (fst p, r') | _ \<Rightarrow> Inl Missing_parenthesis)) (t # u)"
    for r u and t :: limit_token
    by (auto simp: consumes_def rbind_def split: sum.splits list.splits limit_token.splits)
  from 6 show ?case
    by (auto simp: parse_primary.psimps intro!: closed split: list.split limit_token.split)
      (simp_all add: consumes_def)
qed

termination parse_expr
proof (relation "measures
    [\<lambda>x. case x of Inl (Inl (_, ts)) \<Rightarrow> length ts | Inl (Inr (Inl (_, _, ts))) \<Rightarrow> length ts
        | Inl (Inr (Inr (_, ts))) \<Rightarrow> length ts | Inr (Inl (_, _, ts)) \<Rightarrow> length ts
        | Inr (Inr (Inl (_, ts))) \<Rightarrow> length ts | Inr (Inr (Inr (_, ts))) \<Rightarrow> length ts,
     \<lambda>x. case x of Inl (Inl _) \<Rightarrow> 5 | Inl (Inr (Inl _)) \<Rightarrow> 4 | Inl (Inr (Inr _)) \<Rightarrow> 3
        | Inr (Inl _) \<Rightarrow> 2 | Inr (Inr (Inl _)) \<Rightarrow> 1 | Inr (Inr (Inr _)) \<Rightarrow> 0]")
qed (auto simp: consumes_def dest!: parser_consumes)

lemmas parser_simps = parse_expr.simps expr_loop.simps parse_term.simps term_loop.simps
  parse_unary.simps parse_primary.simps

lemmas parser_induct = parse_expr_expr_loop_parse_term_term_loop_parse_unary_parse_primary.induct

declare parser_simps [simp del]

definition parse_tokens :: "limit_token list \<Rightarrow> (limit_error, limit_expr) result" where
  "parse_tokens ts =
     (if ts = [] then Inl Formula_is_empty
      else rbind (parse_expr 0 ts) (\<lambda>p. if snd p \<noteq> [] then Inl Unexpected_token else Inr (fst p)))"

text \<open>The argument of \<open>parse_formula\<close> is whatever the option holds; only text has a formula.\<close>

definition parse_formula :: "json \<Rightarrow> (limit_error, limit_expr) result" where
  "parse_formula v =
     (case v of
        JStr formula \<Rightarrow>
          if length formula > MAX_FORMULA_LENGTH_limits then Inl Too_long
          else rbind (tokenize formula) parse_tokens
      | _ \<Rightarrow> Inl Not_a_string)"

fun evaluate_formula :: "limit_expr \<Rightarrow> rat \<Rightarrow> (limit_error, rat) result" where
  "evaluate_formula (Num q) value = Inr q"
| "evaluate_formula Input value = Inr value"
| "evaluate_formula (Neg n) value = rbind (evaluate_formula n value) (\<lambda>x. Inr (- x))"
| "evaluate_formula (Bin f a b) value =
     rbind (evaluate_formula a value) (\<lambda>left.
     rbind (evaluate_formula b value) (\<lambda>right.
       case f of
         Add \<Rightarrow> Inr (left + right)
       | Sub \<Rightarrow> Inr (left - right)
       | Mul \<Rightarrow> Inr (left * right)
       | Div \<Rightarrow> if right = 0 then Inl Division_by_zero else Inr (left / right)))"

end
