(* ===== verification/Limit_Grammar.thy ===== *)
theory Limit_Grammar
  imports Limit_Formula
begin

text \<open>
  The language of the formulas, as the doc string of \<open>_Parser\<close> writes it, and the proof that the parser of
  \<^verbatim>\<open>marketplace/derived_limits.py\<close> accepts exactly that language with exactly one tree per text.
  The grammar is left recursive, so that operators associate to the left; the parser is a loop over what
  follows a term, and the two meet in the continuation lemmas of \<open>grammar_parses\<close>.
\<close>

subsection \<open>The grammar\<close>

inductive derives_expr :: "nat \<Rightarrow> limit_token list \<Rightarrow> limit_expr \<Rightarrow> bool"
  and derives_term :: "nat \<Rightarrow> limit_token list \<Rightarrow> limit_expr \<Rightarrow> bool"
  and derives_unary :: "nat \<Rightarrow> limit_token list \<Rightarrow> limit_expr \<Rightarrow> bool"
  and derives_primary :: "nat \<Rightarrow> limit_token list \<Rightarrow> limit_expr \<Rightarrow> bool"
where
  expr_term: "derives_term d w n \<Longrightarrow> derives_expr d w n"
| expr_add: "derives_expr d u m \<Longrightarrow> derives_term d w n \<Longrightarrow> derives_expr d (u @ Plus # w) (Bin Add m n)"
| expr_sub: "derives_expr d u m \<Longrightarrow> derives_term d w n \<Longrightarrow> derives_expr d (u @ Minus # w) (Bin Sub m n)"
| term_unary: "derives_unary d w n \<Longrightarrow> derives_term d w n"
| term_mul: "derives_term d u m \<Longrightarrow> derives_unary d w n \<Longrightarrow> derives_term d (u @ Times # w) (Bin Mul m n)"
| term_div: "derives_term d u m \<Longrightarrow> derives_unary d w n \<Longrightarrow> derives_term d (u @ Divide # w) (Bin Div m n)"
| unary_plus: "derives_unary (Suc d) w n \<Longrightarrow> Suc d \<le> MAX_FORMULA_DEPTH \<Longrightarrow> derives_unary d (Plus # w) n"
| unary_minus: "derives_unary (Suc d) w n \<Longrightarrow> Suc d \<le> MAX_FORMULA_DEPTH \<Longrightarrow> derives_unary d (Minus # w) (Neg n)"
| unary_primary: "derives_primary d w n \<Longrightarrow> derives_unary d w n"
| primary_number: "derives_primary d [Num_token q] (Num q)"
| primary_input: "derives_primary d [Input_token] Input"
| primary_group: "derives_expr (Suc d) w n \<Longrightarrow> Suc d \<le> MAX_FORMULA_DEPTH \<Longrightarrow>
    derives_primary d (Open # w @ [Close]) n"

lemmas derives_induct = derives_expr_derives_term_derives_unary_derives_primary.inducts

subsection \<open>One step of each rule of the parser\<close>

definition sum_operator :: "limit_op \<Rightarrow> limit_token \<Rightarrow> bool" where
  "sum_operator f t \<longleftrightarrow> (f, t) \<in> {(Add, Plus), (Sub, Minus)}"

definition product_operator :: "limit_op \<Rightarrow> limit_token \<Rightarrow> bool" where
  "product_operator f t \<longleftrightarrow> (f, t) \<in> {(Mul, Times), (Div, Divide)}"

lemma expr_loop_go: "sum_operator f t \<Longrightarrow> expr_loop d node (t # r) =
    rbind (parse_term d r) (\<lambda>p. expr_loop d (Bin f node (fst p)) (snd p))"
  by (subst expr_loop.simps) (auto simp: sum_operator_def)

lemma expr_loop_stop: "ts = [] \<or> (\<forall>f. \<not> sum_operator f (hd ts)) \<Longrightarrow> expr_loop d node ts = Inr (node, ts)"
  by (subst expr_loop.simps) (auto simp: sum_operator_def split: list.split limit_token.split)

lemma term_loop_go: "product_operator f t \<Longrightarrow> term_loop d node (t # r) =
    rbind (parse_unary d r) (\<lambda>p. term_loop d (Bin f node (fst p)) (snd p))"
  by (subst term_loop.simps) (auto simp: product_operator_def)

lemma term_loop_stop: "ts = [] \<or> (\<forall>f. \<not> product_operator f (hd ts)) \<Longrightarrow> term_loop d node ts = Inr (node, ts)"
  by (subst term_loop.simps) (auto simp: product_operator_def split: list.split limit_token.split)

lemma primary_group_eq: "parse_primary d (Open # r) = Inr (n, rest) \<longleftrightarrow>
    Suc d \<le> MAX_FORMULA_DEPTH \<and> parse_expr (Suc d) r = Inr (n, Close # rest)"
proof -
  have closing: "(case u of Close # r' \<Rightarrow> Inr (m, r') | _ \<Rightarrow> Inl Missing_parenthesis) = Inr (n, rest) \<longleftrightarrow>
      m = n \<and> u = Close # rest" for m :: limit_expr and u
    by (simp split: list.split limit_token.split)
  show ?thesis by (subst parse_primary.simps) (auto simp: rbind_eq_Inr closing)
qed

lemma primary_simps: "parse_primary d (Num_token q # r) = Inr (Num q, r)"
    "parse_primary d (Input_token # r) = Inr (Input, r)"
  by (subst parse_primary.simps, simp)+

lemma primary_returns: "parse_primary d ts = Inr p \<Longrightarrow>
    ts \<noteq> [] \<and> (hd ts = Open \<or> hd ts = Input_token \<or> (\<exists>q. hd ts = Num_token q))"
  by (subst (asm) parse_primary.simps) (simp split: list.splits limit_token.splits)

lemma unary_primary_eq: "ts \<noteq> [] \<and> hd ts \<notin> {Plus, Minus} \<Longrightarrow> parse_unary d ts = parse_primary d ts"
  by (cases ts; cases "hd ts") (simp_all add: parse_unary.simps)

subsection \<open>What the parser accepts is derived\<close>

lemma derives_expr_chain:
  "(\<forall>u. derives_expr d u (Bin f m x) \<longrightarrow> derives_expr d (u @ w2) n) \<Longrightarrow>
   derives_term d w x \<Longrightarrow> sum_operator f t \<Longrightarrow>
   derives_expr d u m \<Longrightarrow> derives_expr d (u @ t # w @ w2) n"
  using expr_add [of d u m w x] expr_sub [of d u m w x] by (force simp: sum_operator_def)

lemma derives_term_chain:
  "(\<forall>u. derives_term d u (Bin f m x) \<longrightarrow> derives_term d (u @ w2) n) \<Longrightarrow>
   derives_unary d w x \<Longrightarrow> product_operator f t \<Longrightarrow>
   derives_term d u m \<Longrightarrow> derives_term d (u @ t # w @ w2) n"
  using term_mul [of d u m w x] term_div [of d u m w x] by (force simp: product_operator_def)

definition loop_derives where
  "loop_derives D d node ts n rest \<longleftrightarrow>
     (\<exists>w. ts = w @ rest \<and> (\<forall>u. D d u node \<longrightarrow> D d (u @ w) n))"
  for D :: "nat \<Rightarrow> limit_token list \<Rightarrow> limit_expr \<Rightarrow> bool"

lemma parser_sound:
  "(\<And>n rest. parse_expr depth ts = Inr (n, rest) \<Longrightarrow> \<exists>w. ts = w @ rest \<and> derives_expr depth w n)"
  "(\<And>n rest. expr_loop depth node ts = Inr (n, rest) \<Longrightarrow> loop_derives derives_expr depth node ts n rest)"
  "(\<And>n rest. parse_term depth ts = Inr (n, rest) \<Longrightarrow> \<exists>w. ts = w @ rest \<and> derives_term depth w n)"
  "(\<And>n rest. term_loop depth node ts = Inr (n, rest) \<Longrightarrow> loop_derives derives_term depth node ts n rest)"
  "(\<And>n rest. parse_unary depth ts = Inr (n, rest) \<Longrightarrow> \<exists>w. ts = w @ rest \<and> derives_unary depth w n)"
  "(\<And>n rest. parse_primary depth ts = Inr (n, rest) \<Longrightarrow> \<exists>w. ts = w @ rest \<and> derives_primary depth w n)"
proof (induction depth ts and depth node ts and depth ts and depth node ts and depth ts and depth ts
    rule: parser_induct)
  case (1 depth ts)
  from 1(3) obtain x r where t: "parse_term depth ts = Inr (x, r)" and l: "expr_loop depth x r = Inr (n, rest)"
    by (auto simp: parse_expr.simps rbind_eq_Inr)
  from 1(1) [OF t] obtain w where w: "ts = w @ r" "derives_term depth w x" by blast
  from 1(2) [OF t] l have "loop_derives derives_expr depth x r n rest" by simp
  then show ?case using w expr_term by (force simp: loop_derives_def)
next
  case (3 depth ts)
  from 3(3) obtain x r where t: "parse_unary depth ts = Inr (x, r)" and l: "term_loop depth x r = Inr (n, rest)"
    by (auto simp: parse_term.simps rbind_eq_Inr)
  from 3(1) [OF t] obtain w where w: "ts = w @ r" "derives_unary depth w x" by blast
  from 3(2) [OF t] l have "loop_derives derives_term depth x r n rest" by simp
  then show ?case using w term_unary by (force simp: loop_derives_def)
next
  case (2 depth node ts)
  show ?case
  proof (cases "\<exists>t r f. ts = t # r \<and> sum_operator f t")
    case True
    then obtain t r f where ts: "ts = t # r" and f: "sum_operator f t" by blast
    with 2(5) obtain x r' where t: "parse_term depth r = Inr (x, r')"
      and l: "expr_loop depth (Bin f node x) r' = Inr (n, rest)"
      by (auto simp: expr_loop_go rbind_eq_Inr)
    have "\<exists>w. r = w @ r' \<and> derives_term depth w x"
      using f 2(1) [OF ts _ t] 2(3) [OF ts _ t] by (auto simp: sum_operator_def)
    then obtain w where w: "r = w @ r'" "derives_term depth w x" by blast
    from f ts have "loop_derives derives_expr depth (Bin f node x) r' n rest"
      using 2(2) [OF ts _ t] 2(4) [OF ts _ t] l by (auto simp: sum_operator_def)
    then show ?thesis using derives_expr_chain [OF _ w(2) f] ts w(1)
      unfolding loop_derives_def by (metis append.assoc append_Cons)
  next
    case False
    then have "expr_loop depth node ts = Inr (node, ts)" by (intro expr_loop_stop) (metis list.collapse)
    then show ?thesis using 2(5) by (simp add: loop_derives_def)
  qed
next
  case (4 depth node ts)
  show ?case
  proof (cases "\<exists>t r f. ts = t # r \<and> product_operator f t")
    case True
    then obtain t r f where ts: "ts = t # r" and f: "product_operator f t" by blast
    with 4(5) obtain x r' where t: "parse_unary depth r = Inr (x, r')"
      and l: "term_loop depth (Bin f node x) r' = Inr (n, rest)"
      by (auto simp: term_loop_go rbind_eq_Inr)
    have "\<exists>w. r = w @ r' \<and> derives_unary depth w x"
      using f 4(1) [OF ts _ t] 4(3) [OF ts _ t] by (auto simp: product_operator_def)
    then obtain w where w: "r = w @ r'" "derives_unary depth w x" by blast
    from f ts have "loop_derives derives_term depth (Bin f node x) r' n rest"
      using 4(2) [OF ts _ t] 4(4) [OF ts _ t] l by (auto simp: product_operator_def)
    then show ?thesis using derives_term_chain [OF _ w(2) f] ts w(1)
      unfolding loop_derives_def by (metis append.assoc append_Cons)
  next
    case False
    then have "term_loop depth node ts = Inr (node, ts)" by (intro term_loop_stop) (metis list.collapse)
    then show ?thesis using 4(5) by (simp add: loop_derives_def)
  qed
next
  case (5 depth ts)
  consider (plus) r where "ts = Plus # r" | (minus) r where "ts = Minus # r"
    | (other) "parse_unary depth ts = parse_primary depth ts" "ts = [] \<or> hd ts \<notin> {Plus, Minus}"
    by (cases ts; cases "hd ts") (auto simp: parse_unary.simps)
  then show ?case
  proof cases
    case plus
    then show ?thesis using 5 unary_plus
      by (fastforce simp: parse_unary.simps split: if_splits)
  next
    case minus
    then show ?thesis using 5 unary_minus
      by (fastforce simp: parse_unary.simps rbind_eq_Inr split: if_splits)
  next
    case other
    have "\<exists>w. ts = w @ rest \<and> derives_primary depth w n"
      using other 5(10) 5(1-3) 5(6-9) by (cases ts; cases "hd ts") auto
    then show ?thesis using unary_primary by blast
  qed
next
  case (6 depth ts)
  consider (number) q r where "ts = Num_token q # r" | (inp) r where "ts = Input_token # r"
    | (group) r where "ts = Open # r"
    | (other) "\<And>p. parse_primary depth ts \<noteq> Inr p"
    using primary_returns by (cases ts; cases "hd ts") fastforce+
  then show ?case
  proof cases
    case group
    with 6(2) have d: "\<not> MAX_FORMULA_DEPTH < depth + 1"
      and e: "parse_expr (depth + 1) r = Inr (n, Close # rest)"
      by (simp_all add: primary_group_eq)
    from 6(1) [OF group refl d e] obtain w where "r = w @ Close # rest" "derives_expr (depth + 1) w n" by blast
    then show ?thesis using group d primary_group [of depth w n] by force
  next
    case number
    then show ?thesis using 6(2) primary_number by (auto simp: primary_simps)
  next
    case inp
    then show ?thesis using 6(2) primary_input by (auto simp: primary_simps)
  next
    case other
    then show ?thesis using 6(2) by blast
  qed
qed

subsection \<open>What the grammar derives is parsed\<close>

lemma grammar_parses:
  "derives_expr d w n \<Longrightarrow> ts = [] \<or> hd ts \<notin> {Times, Divide} \<Longrightarrow> parse_expr d (w @ ts) = expr_loop d n ts"
  "derives_term d w n \<Longrightarrow> parse_term d (w @ ts) = term_loop d n ts"
  "derives_unary d w n \<Longrightarrow> parse_unary d (w @ ts) = Inr (n, ts)"
  "derives_primary d w n \<Longrightarrow> parse_primary d (w @ ts) = Inr (n, ts) \<and> w \<noteq> [] \<and> hd w \<notin> {Plus, Minus}"
proof (induction d w n and d w n and d w n and d w n arbitrary: ts and ts and ts and ts rule: derives_induct)
  case (expr_term d w n)
  then have "term_loop d n ts = Inr (n, ts)"
    by (intro term_loop_stop) (auto simp: product_operator_def)
  then show ?case using expr_term by (simp add: parse_expr.simps)
next
  case (expr_add d u m w n)
  then have "term_loop d n ts = Inr (n, ts)"
    by (intro term_loop_stop) (auto simp: product_operator_def)
  moreover have "expr_loop d m (Plus # w @ ts) = rbind (parse_term d (w @ ts)) (\<lambda>p. expr_loop d (Bin Add m (fst p)) (snd p))"
    by (rule expr_loop_go) (simp add: sum_operator_def)
  ultimately show ?case using expr_add by simp
next
  case (expr_sub d u m w n)
  then have "term_loop d n ts = Inr (n, ts)"
    by (intro term_loop_stop) (auto simp: product_operator_def)
  moreover have "expr_loop d m (Minus # w @ ts) = rbind (parse_term d (w @ ts)) (\<lambda>p. expr_loop d (Bin Sub m (fst p)) (snd p))"
    by (rule expr_loop_go) (simp add: sum_operator_def)
  ultimately show ?case using expr_sub by simp
next
  case (term_unary d w n)
  then show ?case by (simp add: parse_term.simps)
next
  case (term_mul d u m w n)
  then show ?case by (simp add: term_loop_go [of Mul] product_operator_def)
next
  case (term_div d u m w n)
  then show ?case by (simp add: term_loop_go [of Div] product_operator_def)
next
  case (unary_plus d w n)
  then show ?case by (simp add: parse_unary.simps [of d])
next
  case (unary_minus d w n)
  then show ?case by (simp add: parse_unary.simps [of d])
next
  case (unary_primary d w n)
  then show ?case by (simp add: unary_primary_eq)
next
  case (primary_number d q)
  then show ?case by (simp add: primary_simps)
next
  case (primary_input d)
  then show ?case by (simp add: primary_simps)
next
  case (primary_group d w n)
  have "expr_loop (Suc d) n (Close # ts) = Inr (n, Close # ts)"
    by (rule expr_loop_stop) (simp add: sum_operator_def)
  then show ?case using primary_group by (simp add: primary_group_eq)
qed

lemma parse_expr_grammar: "parse_expr d ts = Inr (n, []) \<longleftrightarrow> derives_expr d ts n"
proof
  assume "parse_expr d ts = Inr (n, [])"
  from parser_sound(1) [OF this] show "derives_expr d ts n" by simp
next
  assume "derives_expr d ts n"
  from grammar_parses(1) [OF this, of "[]"] show "parse_expr d ts = Inr (n, [])"
    by (simp add: expr_loop_stop)
qed

lemma derives_nonempty:
  "derives_expr d w n \<Longrightarrow> w \<noteq> []" "derives_term d w n \<Longrightarrow> w \<noteq> []"
  "derives_unary d w n \<Longrightarrow> w \<noteq> []" "derives_primary d w n \<Longrightarrow> w \<noteq> []"
  by (induction d w n and d w n and d w n and d w n rule: derives_induct) simp_all

text \<open>C6. The parser of the formulas is the grammar its doc string states: a list of tokens is accepted, and with
  the tree \<open>n\<close>, exactly when the left recursive grammar derives it as \<open>n\<close> within 32 levels of parentheses and
  signs.  The grammar is therefore unambiguous, and every other list of tokens is refused with an error.\<close>

theorem parser_is_the_grammar: "parse_tokens ts = Inr n \<longleftrightarrow> derives_expr 0 ts n"
  using parse_expr_grammar [of 0 ts n] derives_nonempty(1) [of 0 ts n]
  by (auto simp: parse_tokens_def rbind_eq_Inr split: if_splits)

subsection \<open>Printing\<close>

definition group_if :: "bool \<Rightarrow> limit_token list \<Rightarrow> limit_token list" where
  "group_if b w = (if b then Open # w @ [Close] else w)"

text \<open>The least parentheses: level 0 is a sum, level 1 an operand of a sum, level 2 a factor.\<close>

fun print_tokens :: "nat \<Rightarrow> limit_expr \<Rightarrow> limit_token list" where
  "print_tokens l (Num q) = [Num_token q]"
| "print_tokens l Input = [Input_token]"
| "print_tokens l (Neg n) = Minus # print_tokens 2 n"
| "print_tokens l (Bin Add m n) = group_if (0 < l) (print_tokens 0 m @ Plus # print_tokens 1 n)"
| "print_tokens l (Bin Sub m n) = group_if (0 < l) (print_tokens 0 m @ Minus # print_tokens 1 n)"
| "print_tokens l (Bin Mul m n) = group_if (1 < l) (print_tokens 1 m @ Times # print_tokens 2 n)"
| "print_tokens l (Bin Div m n) = group_if (1 < l) (print_tokens 1 m @ Divide # print_tokens 2 n)"

text \<open>The levels of parentheses and signs a printed tree needs.\<close>

fun nesting :: "nat \<Rightarrow> limit_expr \<Rightarrow> nat" where
  "nesting l (Num q) = 0"
| "nesting l Input = 0"
| "nesting l (Neg n) = Suc (nesting 2 n)"
| "nesting l (Bin f m n) =
     (if f = Add \<or> f = Sub then (if 0 < l then 1 else 0) + max (nesting 0 m) (nesting 1 n)
      else (if 1 < l then 1 else 0) + max (nesting 1 m) (nesting 2 n))"

definition derives_at :: "nat \<Rightarrow> nat \<Rightarrow> limit_token list \<Rightarrow> limit_expr \<Rightarrow> bool" where
  "derives_at l d w n \<longleftrightarrow>
     (if l = 0 then derives_expr d w n else if l = 1 then derives_term d w n else derives_unary d w n)"

lemma derives_at_unary: "derives_unary d w n \<Longrightarrow> derives_at l d w n"
  using expr_term term_unary by (auto simp: derives_at_def)

lemma derives_at_group_expr:
  assumes "derives_expr (d + (if 0 < l then 1 else 0)) w n" and "d + (if 0 < l then 1 else 0) \<le> MAX_FORMULA_DEPTH"
  shows "derives_at l d (group_if (0 < l) w) n"
  using assms primary_group unary_primary derives_at_unary
  by (cases "0 < l") (auto simp: group_if_def derives_at_def)

lemma derives_at_group_term:
  assumes "derives_term (d + (if 1 < l then 1 else 0)) w n" and "d + (if 1 < l then 1 else 0) \<le> MAX_FORMULA_DEPTH"
  shows "derives_at l d (group_if (1 < l) w) n"
  using assms primary_group unary_primary derives_at_unary expr_term
  by (cases "1 < l") (auto simp: group_if_def derives_at_def)

lemma printed_derived: "d + nesting l n \<le> MAX_FORMULA_DEPTH \<Longrightarrow> derives_at l d (print_tokens l n) n"
proof (induction n arbitrary: l d)
  case (Num q)
  then show ?case by (simp add: derives_at_unary unary_primary primary_number)
next
  case Input
  then show ?case by (simp add: derives_at_unary unary_primary primary_input)
next
  case (Neg n)
  from Neg.IH [of "Suc d" 2] Neg.prems have "derives_unary (Suc d) (print_tokens 2 n) n"
    by (simp add: derives_at_def)
  then show ?case using Neg.prems by (simp add: derives_at_unary unary_minus)
next
  case (Bin f m n)
  show ?case
  proof (cases "f = Add \<or> f = Sub")
    case True
    let ?d = "d + (if 0 < l then 1 else 0)"
    have parts: "derives_expr ?d (print_tokens 0 m) m" "derives_term ?d (print_tokens 1 n) n"
      using Bin.IH(1) [of ?d 0] Bin.IH(2) [of ?d 1] Bin.prems True by (auto simp: derives_at_def split: if_splits)
    have "?d \<le> MAX_FORMULA_DEPTH" using Bin.prems True by (simp split: if_splits)
    then show ?thesis
      using True derives_at_group_expr [OF expr_add [OF parts]] derives_at_group_expr [OF expr_sub [OF parts]] by auto
  next
    case False
    let ?d = "d + (if 1 < l then 1 else 0)"
    have parts: "derives_term ?d (print_tokens 1 m) m" "derives_unary ?d (print_tokens 2 n) n"
      using Bin.IH(1) [of ?d 1] Bin.IH(2) [of ?d 2] Bin.prems False by (auto simp: derives_at_def split: if_splits)
    have "?d \<le> MAX_FORMULA_DEPTH" using Bin.prems False by (simp split: if_splits)
    then show ?thesis
      using False derives_at_group_term [OF term_mul [OF parts]] derives_at_group_term [OF term_div [OF parts]]
      by (cases f) auto
  qed
qed

text \<open>The text of a tree whose numbers are natural: one space before each token.\<close>

definition token_text :: "limit_token \<Rightarrow> string" where
  "token_text t =
     (case t of Num_token q \<Rightarrow> digits (nat \<lfloor>q\<rfloor>) | Input_token \<Rightarrow> ''input'' | Plus \<Rightarrow> ''+'' | Minus \<Rightarrow> ''-''
      | Times \<Rightarrow> ''*'' | Divide \<Rightarrow> ''/'' | Open \<Rightarrow> ''('' | Close \<Rightarrow> '')'')"

definition tokens_text :: "limit_token list \<Rightarrow> string" where
  "tokens_text ts = concat (map (\<lambda>t. CHR '' '' # token_text t) ts)"

definition natural_token :: "limit_token \<Rightarrow> bool" where
  "natural_token t \<longleftrightarrow> (case t of Num_token q \<Rightarrow> q = of_nat (nat \<lfloor>q\<rfloor>) | _ \<Rightarrow> True)"

fun natural_numbers :: "limit_expr \<Rightarrow> bool" where
  "natural_numbers (Num q) \<longleftrightarrow> q = of_nat (nat \<lfloor>q\<rfloor>)"
| "natural_numbers Input \<longleftrightarrow> True"
| "natural_numbers (Neg n) \<longleftrightarrow> natural_numbers n"
| "natural_numbers (Bin f m n) \<longleftrightarrow> natural_numbers m \<and> natural_numbers n"

definition formula_text :: "limit_expr \<Rightarrow> string" where
  "formula_text n = tokens_text (print_tokens 0 n)"

lemma re_digit_digit [simp]: "(k :: nat) < 10 \<Longrightarrow> re_digit (char_of (48 + k))"
  by (simp add: re_digit_def)

lemma digits_digits: "list_all re_digit (digits n) \<and> digits n \<noteq> []"
proof (induction n rule: digits.induct)
  case (1 n)
  then show ?case by (cases "n < 10") (simp_all add: digits.simps [of n])
qed

lemma take_digits:
  assumes "rest = [] \<or> \<not> re_digit (hd rest)" and "list_all re_digit ds"
  shows "takeWhile re_digit (ds @ rest) = ds" "dropWhile re_digit (ds @ rest) = rest"
  using assms by (induction ds) (cases rest; simp)+

definition separated :: "string \<Rightarrow> bool" where
  "separated rest \<longleftrightarrow> rest = [] \<or> hd rest = CHR '' ''"

lemma match_number_digits:
  assumes "separated rest"
  shows "match_number (digits n @ rest) = Some (of_nat n, rest)"
proof -
  have stop: "rest = [] \<or> \<not> re_digit (hd rest)"
    using assms by (auto simp: separated_def re_digit_def)
  have "match_number (digits n @ rest) = Some (fraction_value (digits n) [], rest)"
    using assms digits_digits [of n]
    unfolding match_number_def Let_def take_digits(1) [OF stop conjunct1 [OF digits_digits]]
      take_digits(2) [OF stop conjunct1 [OF digits_digits]]
    by (cases rest) (simp_all add: separated_def)
  then show ?thesis using digits_value [of n] by (simp add: fraction_value_def decimal_value_def)
qed

lemma first_digit_no_space: "dropWhile re_space (digits n @ rest) = digits n @ rest"
  using digits_digits [of n] by (cases "digits n") (auto simp: re_digit_def re_space_def)

lemma match_token_text:
  assumes "separated rest" and "natural_token t"
  shows "match_token (CHR '' '' # token_text t @ rest) = Some (t, rest)"
proof -
  have space: "re_space (CHR '' '')" by (simp add: re_space_def)
  show ?thesis
  proof (cases t)
    case (Num_token q)
    then show ?thesis using assms space match_number_digits [OF assms(1), of "nat \<lfloor>q\<rfloor>"]
      by (simp add: match_token_def token_text_def natural_token_def first_digit_no_space)
  next
    case Input_token
    have "match_number (''input'' @ rest) = None" by (simp add: match_number_def re_digit_def)
    moreover have "match_input (''input'' @ rest) = Some rest"
      using assms(1) by (cases rest) (auto simp: match_input_def separated_def re_word_def)
    ultimately show ?thesis using Input_token space
      by (simp add: match_token_def token_text_def re_space_def)
  qed (use space in \<open>simp_all add: match_token_def token_text_def re_space_def match_number_def re_digit_def
      match_input_def match_operator_def\<close>)
qed

lemma separated_text: "separated (tokens_text ts)"
  by (cases ts) (simp_all add: tokens_text_def separated_def)

lemma tokens_from_text: "list_all natural_token ts \<Longrightarrow> tokens_from (tokens_text ts) = Inr ts"
proof (induction ts)
  case Nil
  then show ?case by (simp add: tokens_text_def tokens_from.simps)
next
  case (Cons t ts)
  have "tokens_text (t # ts) = CHR '' '' # token_text t @ tokens_text ts" by (simp add: tokens_text_def)
  with Cons match_token_text [OF separated_text, of t ts] show ?case
    by (simp add: tokens_from.simps [of "CHR '' '' # _"])
qed

lemma digits_not_space: "list_all (\<lambda>c. \<not> re_space c) (digits n)"
proof -
  have "re_digit c \<Longrightarrow> \<not> re_space c" for c by (auto simp: re_digit_def re_space_def)
  then show ?thesis using digits_digits [of n] by (auto simp: list_all_iff)
qed

lemma tokens_text_last: "ts = [] \<or> \<not> re_space (last (tokens_text ts))"
proof (cases ts rule: rev_cases)
  case (snoc us t)
  have printed: "token_text t \<noteq> [] \<and> list_all (\<lambda>c. \<not> re_space c) (token_text t)"
    using digits_digits digits_not_space by (cases t) (simp_all add: token_text_def re_space_def)
  then have "last (tokens_text ts) \<in> set (token_text t)"
    using snoc by (simp add: tokens_text_def)
  then show ?thesis using printed by (auto simp: list_all_iff)
qed simp

lemma tokenize_text: "list_all natural_token ts \<Longrightarrow> tokenize (tokens_text ts) = Inr ts"
proof -
  assume natural: "list_all natural_token ts"
  have "rstrip (tokens_text ts) = tokens_text ts"
  proof (cases "rev (tokens_text ts)")
    case (Cons c cs)
    then have "last (tokens_text ts) = c" "ts \<noteq> []" by (auto simp: last_rev tokens_text_def hd_rev [symmetric])
    then have "\<not> re_space c" using tokens_text_last [of ts] by simp
    then show ?thesis using Cons by (simp add: rstrip_def rev_swap)
  qed (simp add: rstrip_def)
  then show ?thesis using tokens_from_text [OF natural] by (simp add: tokenize_def)
qed

lemma print_natural: "natural_numbers n \<Longrightarrow> list_all natural_token (print_tokens l n)"
proof (induction n arbitrary: l)
  case (Bin f m n)
  then show ?case by (cases f) (simp_all add: group_if_def natural_token_def)
qed (simp_all add: natural_token_def)

text \<open>C19. A formula written out is read back: the text of a tree of natural numbers, with the fewest parentheses
  that keep its shape, tokenizes and parses to the same tree, provided the text has at most 255 characters and
  its parentheses and signs nest at most 32 deep.\<close>

theorem formula_text_parses:
  assumes "natural_numbers n" and "nesting 0 n \<le> MAX_FORMULA_DEPTH"
    and "length (formula_text n) \<le> MAX_FORMULA_LENGTH_limits"
  shows "parse_formula (JStr (formula_text n)) = Inr n"
proof -
  have "derives_expr 0 (print_tokens 0 n) n"
    using printed_derived [of 0 0 n] assms(2) by (simp add: derives_at_def)
  then have "parse_tokens (print_tokens 0 n) = Inr n"
    using parse_expr_grammar [of 0] derives_nonempty(1) by (auto simp: parse_tokens_def rbind_eq_Inr)
  then show ?thesis using assms tokenize_text [OF print_natural [OF assms(1)]]
    by (simp add: parse_formula_def formula_text_def)
qed


lemma formula_text_parses_witness:
  "parse_formula (JStr (formula_text (Bin Mul (Bin Add Input (Num 2)) (Num 10)))) = Inr (Bin Mul (Bin Add Input (Num 2)) (Num 10))"
  by (rule formula_text_parses) code_simp+

end
