(* ===== verification/Derived_Limits.thy ===== *)
theory Derived_Limits
  imports Limit_Grammar Order_Callbacks
begin

text \<open>
  Limits computed from order-form options, second half of \<^verbatim>\<open>marketplace/derived_limits.py\<close>, and the functions
  of \<^verbatim>\<open>marketplace/utils.py\<close> that feed it.  Options are those the serializers accept: a formula is text, a sum
  has its configuration (\<open>ComponentSumConfigSerializer\<close> is required for it), bounds are integers.  Limits are
  numbers of any precision: \<open>_narrow\<close> turns a whole number to an \<open>int\<close> and another to a \<open>float\<close>, which is here
  the same number, and a \<open>float\<close> that comes in is the decimal Python prints for it.
\<close>

record derived_option =
  dopt_type :: string
  formula_targets :: "(string \<times> string) list"
  sum_target :: string
  sum_components :: "string list"
  dopt_default :: json
  dopt_min :: "int option"
  dopt_max :: "int option"

type_synonym derived_options = "(string, derived_option) dict"

datatype derived_error = Cycle_of_sums "string list" | Sums_into_itself string string
  | Derived_twice string string string | Not_a_limit_component string string | Only_an_order_option string
  | Needs_an_order_formula string | Number_required string | Below_minimum string int | Above_maximum string int
  | Cannot_calculate string string limit_error | Calculated_negative string string | Key_error string

definition FORMULA_TYPE :: string where
  "FORMULA_TYPE = ''component_formula''"

definition SUM_TYPE :: string where
  "SUM_TYPE = ''component_sum''"

definition setdefault :: "'k \<Rightarrow> 'v \<Rightarrow> ('k, 'v) dict \<Rightarrow> ('k, 'v) dict" where
  "setdefault k v d = (if k \<in> set (map fst d) then d else d @ [(k, v)])"

subsection \<open>Which components an option sets and reads\<close>

text \<open>The components an option derives; a sum without a target derives none.\<close>

definition targets_of :: "derived_option \<Rightarrow> string list" where
  "targets_of opt =
     (if dopt_type opt = FORMULA_TYPE then map fst (formula_targets opt)
      else if dopt_type opt = SUM_TYPE \<and> sum_target opt \<noteq> [] then [sum_target opt] else [])"

definition derived_components :: "derived_options \<Rightarrow> (string, string) dict" where
  "derived_components options =
     fold (\<lambda>(name, opt) d. fold (\<lambda>c. setdefault c name) (targets_of opt) d) options []"

definition references_of :: "derived_option \<Rightarrow> string list" where
  "references_of opt =
     (if dopt_type opt = FORMULA_TYPE then map fst (formula_targets opt)
      else if dopt_type opt = SUM_TYPE then sum_target opt # sum_components opt else [])"

definition referenced_components :: "derived_options \<Rightarrow> (string, string) dict" where
  "referenced_components options =
     fold (\<lambda>(name, opt) d. fold (\<lambda>c. setdefault c name) (references_of opt) d) options []"

subsection \<open>Resource options paired with order options\<close>

definition is_formula :: "derived_options \<Rightarrow> string \<Rightarrow> bool" where
  "is_formula options name \<longleftrightarrow>
     (case map_of options name of Some opt \<Rightarrow> dopt_type opt = FORMULA_TYPE | None \<Rightarrow> False)"

text \<open>The bounds of the order option, where it has them, and no configuration of its own.\<close>

definition paired_option :: "derived_option \<Rightarrow> derived_option \<Rightarrow> derived_option" where
  "paired_option opt order_opt =
     opt\<lparr>formula_targets := [], dopt_min := dopt_min order_opt, dopt_max := dopt_max order_opt\<rparr>"

definition pair_resource_options ::
    "derived_options \<Rightarrow> derived_options \<Rightarrow> (derived_error, derived_options) result" where
  "pair_resource_options resource_options order_options =
     rfold (\<lambda>paired (name, opt).
         if dopt_type opt = SUM_TYPE then Inl (Only_an_order_option name)
         else if dopt_type opt \<noteq> FORMULA_TYPE then Inr (paired @ [(name, opt)])
         else (case map_of order_options name of
                 None \<Rightarrow> Inl (Needs_an_order_formula name)
               | Some order_opt \<Rightarrow>
                   if dopt_type order_opt \<noteq> FORMULA_TYPE then Inl (Needs_an_order_formula name)
                   else Inr (paired @ [(name, paired_option opt order_opt)])))
       [] resource_options"

definition paired_resource_options :: "derived_options \<Rightarrow> derived_options \<Rightarrow> string list" where
  "paired_resource_options resource_options order_options =
     map fst (filter (\<lambda>(name, opt). dopt_type opt = FORMULA_TYPE \<and> is_formula order_options name) resource_options)"

subsection \<open>The order of the sums\<close>

type_synonym sum_table = "(string, string \<times> string list) dict"

definition note_sum :: "string \<times> derived_option \<Rightarrow> sum_table \<Rightarrow> sum_table" where
  "note_sum = (\<lambda>(name, opt) table.
     if dopt_type opt = SUM_TYPE then dict_set (sum_target opt) (name, sum_components opt) table else table)"

definition sums_of :: "derived_options \<Rightarrow> sum_table" where
  "sums_of options = fold note_sum options []"

datatype visit_state = Visiting | Visited

text \<open>
  \<open>visit\<close> of \<open>_sum_order\<close>, with \<open>state\<close> and \<open>ordered\<close> passed along; \<open>visit_sources\<close> is its loop.  The
  functions end because each call marks a target that was not marked.
\<close>

type_synonym visit_result = "(derived_error, (string \<rightharpoonup> visit_state) \<times> (string \<times> string list) list) result"

function (domintros) visit ::
    "sum_table \<Rightarrow> string \<Rightarrow> string list \<Rightarrow> (string \<rightharpoonup> visit_state) \<times> (string \<times> string list) list \<Rightarrow> visit_result"
  and visit_sources ::
    "sum_table \<Rightarrow> string list \<Rightarrow> string list \<Rightarrow> (string \<rightharpoonup> visit_state) \<times> (string \<times> string list) list \<Rightarrow> visit_result"
where
  "visit table target path (state, ordered) =
     (case state target of
        Some Visited \<Rightarrow> Inr (state, ordered)
      | Some Visiting \<Rightarrow> Inl (Cycle_of_sums (path @ [target]))
      | None \<Rightarrow>
          (case map_of table target of
             None \<Rightarrow> Inl (Key_error target)
           | Some (name, components) \<Rightarrow>
               rbind (visit_sources table components (path @ [target]) (state(target \<mapsto> Visiting), ordered))
                 (\<lambda>(state', ordered'). Inr (state'(target \<mapsto> Visited), ordered' @ [(target, components)]))))"
| "visit_sources table [] path s = Inr s"
| "visit_sources table (c # cs) path s =
     (if c \<in> set (map fst table)
      then rbind (visit table c path s) (\<lambda>s'. visit_sources table cs path s')
      else visit_sources table cs path s)"
  by pat_completeness auto

definition grows :: "(string \<rightharpoonup> visit_state) \<times> 'a \<Rightarrow> visit_result \<Rightarrow> bool" where
  "grows s r \<longleftrightarrow> (case r of Inl _ \<Rightarrow> True | Inr s' \<Rightarrow> dom (fst s) \<subseteq> dom (fst s'))"

lemma grows_bind: "grows s m \<Longrightarrow> (\<And>s'. m = Inr s' \<Longrightarrow> grows s' (f s')) \<Longrightarrow> grows s (rbind m f)"
  by (cases m; cases "rbind m f") (auto simp: grows_def split: sum.splits; blast)+

lemma visit_grows:
  "visit_visit_sources_dom (Inl (table, target, path, s)) \<Longrightarrow> grows s (visit table target path s)"
  "visit_visit_sources_dom (Inr (table, cs, path, s)) \<Longrightarrow> grows s (visit_sources table cs path s)"
proof (induction table target path s and table cs path s rule: visit_visit_sources.pinduct)
  case (1 table target path state ordered)
  show ?case
  proof (cases "state target = None \<and> map_of table target \<noteq> None")
    case True
    then obtain name cs where cs: "state target = None" "map_of table target = Some (name, cs)" by auto
    from 1(2) [OF cs refl] show ?thesis
      using cs 1(1)
      by (cases "visit_sources table cs (path @ [target]) (state(target \<mapsto> Visiting), ordered)")
        (auto simp: visit.psimps grows_def domI subset_iff domIff)
  qed (use 1(1) in \<open>auto simp: visit.psimps grows_def split: option.splits visit_state.splits\<close>)
next
  case (2 table path s)
  then show ?case by (simp add: visit_sources.psimps grows_def)
next
  case (3 table c cs path s)
  have "visit_sources table (c # cs) path s = (if c \<in> set (map fst table)
      then rbind (visit table c path s) (\<lambda>s'. visit_sources table cs path s') else visit_sources table cs path s)"
    by (rule visit_sources.psimps) (rule 3(1))
  then show ?case using 3(2-4) grows_bind [of s "visit table c path s"] by auto
qed

definition unmarked :: "sum_table \<Rightarrow> (string \<rightharpoonup> visit_state) \<Rightarrow> nat" where
  "unmarked table state = card (set (map fst table) - dom state)"

lemma unmarked_less:
  "map_of table t = Some x \<Longrightarrow> state t = None \<Longrightarrow> unmarked table (state(t \<mapsto> Visiting)) < unmarked table state"
  unfolding unmarked_def by (rule psubset_card_mono) (force dest: map_of_SomeD)+

lemma unmarked_mono: "dom s \<subseteq> dom t \<Longrightarrow> unmarked table t \<le> unmarked table s"
  unfolding unmarked_def by (rule card_mono) auto

termination visit
proof (relation "measures
    [\<lambda>x. case x of Inl (table, _, _, s) \<Rightarrow> unmarked table (fst s) | Inr (table, _, _, s) \<Rightarrow> unmarked table (fst s),
     \<lambda>x. case x of Inl _ \<Rightarrow> 0 | Inr (_, cs, _, _) \<Rightarrow> Suc (length cs)]", goal_cases)
  case (4 table c cs path s s')
  then have "dom (fst s) \<subseteq> dom (fst s')" using visit_grows(1) [of table c path s] by (simp add: grows_def)
  then show ?case using unmarked_mono [of "fst s" "fst s'" table] by (cases s; cases s') auto
qed (auto simp: unmarked_less)

definition sum_order :: "derived_options \<Rightarrow> (derived_error, (string \<times> string list) list) result" where
  "sum_order options =
     (let table = sums_of options
      in rbind (rfold (\<lambda>s (target, _). visit table target [] s) (Map.empty, []) table) (\<lambda>(state, ordered). Inr ordered))"
lemmas visit_induct = visit_visit_sources.induct

declare visit.simps [simp del]

subsection \<open>What saving an offering checks\<close>

definition claim_targets ::
    "string \<Rightarrow> string list \<Rightarrow> (string, string) dict \<Rightarrow> (derived_error, (string, string) dict) result" where
  "claim_targets name targets owners =
     rfold (\<lambda>owners c.
         case map_of owners c of
           Some first \<Rightarrow> Inl (Derived_twice c first name)
         | None \<Rightarrow> Inr (dict_set c name owners))
       owners targets"

definition claim_option ::
    "(string, string) dict \<Rightarrow> string \<times> derived_option \<Rightarrow> (derived_error, (string, string) dict) result" where
  "claim_option owners = (\<lambda>(name, opt).
     if dopt_type opt = FORMULA_TYPE then claim_targets name (map fst (formula_targets opt)) owners
     else if dopt_type opt = SUM_TYPE then
       if sum_target opt \<in> set (sum_components opt) then Inl (Sums_into_itself name (sum_target opt))
       else claim_targets name [sum_target opt] owners
     else Inr owners)"

definition validate_derived_options :: "derived_options \<Rightarrow> (derived_error, unit) result" where
  "validate_derived_options options =
     rbind (rfold claim_option [] options) (\<lambda>_. rbind (sum_order options) (\<lambda>_. Inr ()))"

definition validate_derived_components :: "derived_options \<Rightarrow> string list \<Rightarrow> (derived_error, unit) result" where
  "validate_derived_components options allowed =
     rfold (\<lambda>_ (name, opt).
         rfold (\<lambda>_ c. if c \<notin> set allowed then Inl (Not_a_limit_component name c) else Inr ())
           () (references_of opt))
       () options"

subsection \<open>Numbers\<close>

text \<open>\<open>Fraction\<close> of a text: a sign, then digits with a denominator, or with a decimal part and an exponent.\<close>

definition digits_or_nothing :: "string \<Rightarrow> nat option" where
  "digits_or_nothing s = (if s = [] then Some 0 else digit_groups False 0 s)"

definition digit_count :: "string \<Rightarrow> nat" where
  "digit_count s = length (filter re_digit s)"

definition exponent_of :: "string \<Rightarrow> int option" where
  "exponent_of s =
     (case s of
        CHR ''-'' # ds \<Rightarrow> map_option (\<lambda>n. - int n) (digit_groups False 0 ds)
      | CHR ''+'' # ds \<Rightarrow> map_option int (digit_groups False 0 ds)
      | ds \<Rightarrow> map_option int (digit_groups False 0 ds))"

definition scientific :: "nat \<Rightarrow> string \<Rightarrow> string \<Rightarrow> rat option" where
  "scientific whole decimals rest =
     (case digits_or_nothing decimals of
        None \<Rightarrow> None
      | Some d \<Rightarrow>
          (let q = of_nat whole + of_nat d / 10 ^ digit_count decimals
           in case rest of
                [] \<Rightarrow> Some q
              | e # s \<Rightarrow>
                  if e = CHR ''e'' \<or> e = CHR ''E''
                  then map_option (\<lambda>x. if 0 \<le> x then q * 10 ^ nat x else q / 10 ^ nat (- x)) (exponent_of s)
                  else None))"

definition unsigned_fraction :: "string \<Rightarrow> rat option" where
  "unsigned_fraction body =
     (let num = takeWhile (\<lambda>c. re_digit c \<or> c = CHR ''_'') body;
          rest = dropWhile (\<lambda>c. re_digit c \<or> c = CHR ''_'') body;
          slash = dropWhile re_space rest
      in case digits_or_nothing num of
           None \<Rightarrow> None
         | Some n \<Rightarrow>
             if slash \<noteq> [] \<and> hd slash = CHR ''/'' then
               if num = [] then None
               else (case digit_groups False 0 (dropWhile re_space (tl slash)) of
                       None \<Rightarrow> None | Some d \<Rightarrow> if d = 0 then None else Some (of_nat n / of_nat d))
             else if rest \<noteq> [] \<and> hd rest = CHR ''.'' then
               let decimals = takeWhile (\<lambda>c. re_digit c \<or> c = CHR ''_'') (tl rest)
               in if num = [] \<and> (decimals = [] \<or> hd decimals = CHR ''_'') then None
                  else scientific n decimals (dropWhile (\<lambda>c. re_digit c \<or> c = CHR ''_'') (tl rest))
             else if num = [] then None else scientific n [] rest)"

definition fraction_of_string :: "string \<Rightarrow> rat option" where
  "fraction_of_string s =
     (case rev (dropWhile re_space (rev (dropWhile re_space s))) of
        CHR ''-'' # body \<Rightarrow> map_option uminus (unsigned_fraction body)
      | CHR ''+'' # body \<Rightarrow> unsigned_fraction body
      | body \<Rightarrow> unsigned_fraction body)"

definition number_of_json :: "json \<Rightarrow> rat option" where
  "number_of_json v = (case v of JNum q \<Rightarrow> Some q | JStr s \<Rightarrow> fraction_of_string s | _ \<Rightarrow> None)"

text \<open>\<open>limit_decimal_places\<close> of each limit component of the plan; a missing component rounds to whole units.\<close>

type_synonym decimal_places = "(string, nat) dict"

definition round_up :: "rat \<Rightarrow> nat option \<Rightarrow> rat" where
  "round_up v places = (let scale = 10 ^ (case places of None \<Rightarrow> 0 | Some n \<Rightarrow> n) in of_int \<lceil>v * scale\<rceil> / scale)"

text \<open>The entered value, or the default, checked against the bounds; \<open>None\<close> when neither is there.\<close>

definition formula_input ::
    "string \<Rightarrow> derived_option \<Rightarrow> (string, json) dict \<Rightarrow> (derived_error, rat option) result" where
  "formula_input name opt attributes =
     (let entered = get_value attributes name;
          v = (if entered = JNull \<or> entered = JStr [] then dopt_default opt else entered)
      in if v = JNull \<or> v = JStr [] then Inr None
         else case number_of_json v of
                None \<Rightarrow> Inl (Number_required name)
              | Some q \<Rightarrow>
                  if (case dopt_min opt of Some m \<Rightarrow> q < of_int m | None \<Rightarrow> False)
                  then Inl (Below_minimum name (the (dopt_min opt)))
                  else if (case dopt_max opt of Some m \<Rightarrow> q > of_int m | None \<Rightarrow> False)
                  then Inl (Above_maximum name (the (dopt_max opt)))
                  else Inr (Some q))"

subsection \<open>The limits\<close>

type_synonym exact_limits = "(string, rat) dict"

definition derive_target ::
    "decimal_places \<Rightarrow> string \<Rightarrow> rat \<Rightarrow> exact_limits \<Rightarrow> string \<times> string \<Rightarrow> (derived_error, exact_limits) result" where
  "derive_target components name v exact = (\<lambda>(c, formula).
     case rbind (parse_formula (JStr formula)) (\<lambda>node. evaluate_formula node v) of
       Inl e \<Rightarrow> Inl (Cannot_calculate name c e)
     | Inr amount \<Rightarrow>
         if amount < 0 then Inl (Calculated_negative name c)
         else Inr (dict_set c (round_up amount (map_of components c)) exact))"

definition derive_formula ::
    "decimal_places \<Rightarrow> (string, json) dict \<Rightarrow> exact_limits \<Rightarrow> string \<times> derived_option \<Rightarrow>
       (derived_error, exact_limits) result" where
  "derive_formula components attributes exact = (\<lambda>(name, opt).
     if dopt_type opt \<noteq> FORMULA_TYPE then Inr exact
     else rbind (formula_input name opt attributes) (\<lambda>v.
       case v of
         None \<Rightarrow> Inr exact
       | Some q \<Rightarrow> rfold (derive_target components name q) exact (formula_targets opt)))"

definition keep_fallback :: "limits \<Rightarrow> exact_limits \<Rightarrow> string \<Rightarrow> exact_limits" where
  "keep_fallback fallback exact c =
     (if c \<notin> set (map fst exact) then (case map_of fallback c of Some q \<Rightarrow> dict_set c q exact | None \<Rightarrow> exact)
      else exact)"

definition present_values :: "exact_limits \<Rightarrow> string list \<Rightarrow> rat list" where
  "present_values exact sources = List.map_filter (map_of exact) sources"

definition add_sum :: "decimal_places \<Rightarrow> exact_limits \<Rightarrow> string \<times> string list \<Rightarrow> exact_limits" where
  "add_sum components exact = (\<lambda>(target, sources).
     let present = present_values exact sources
     in if present \<noteq> [] then dict_set target (round_up (sum_list present) (map_of components target)) exact
        else exact)"

definition exact_numbers :: "(string, json) dict \<Rightarrow> exact_limits" where
  "exact_numbers = List.map_filter (\<lambda>(k, v). case v of JNum q \<Rightarrow> Some (k, q) | _ \<Rightarrow> None)"

definition write_derived :: "exact_limits \<Rightarrow> (string, json) dict \<Rightarrow> string \<Rightarrow> (string, json) dict" where
  "write_derived exact out c = (case map_of exact c of Some q \<Rightarrow> dict_set c (JNum q) out | None \<Rightarrow> out)"

definition compute_derived_limits ::
    "derived_options \<Rightarrow> (string, json) dict \<Rightarrow> (string, json) dict \<Rightarrow> decimal_places \<Rightarrow> limits \<Rightarrow>
       (derived_error, (string, json) dict) result" where
  "compute_derived_limits options attributes requested components fallback =
     (let derived = derived_components options
      in if derived = [] then Inr requested
         else case List.find (\<lambda>(c, name). c \<notin> set (map fst components)) derived of
                Some (c, name) \<Rightarrow> Inl (Not_a_limit_component name c)
              | None \<Rightarrow>
                  (let kept = filter (\<lambda>(k, _). k \<notin> set (map fst derived)) requested
                   in rbind (rfold (derive_formula components attributes) (exact_numbers kept) options) (\<lambda>exact.
                      let exact' = foldl (keep_fallback fallback) exact (map fst derived)
                      in rbind (sum_order options) (\<lambda>ordered.
                         let exact'' = foldl (add_sum components) exact' ordered
                         in Inr (foldl (write_derived exact'') kept (map fst derived))))))"

end
