(* ===== verification/Derived_Limit_Order.thy ===== *)
theory Derived_Limit_Order
  imports Derived_Limits
begin

text \<open>
  The depth-first search of \<open>_sum_order\<close>: it succeeds exactly when no sum reads itself through others, and
  then lists every sum once, after the sums it reads.  \<open>reads\<close> is the graph, \<open>search_ok\<close> the invariant of the
  search, \<open>sources_first\<close> what the list promises to the fold that computes the sums.
\<close>

definition reads :: "sum_table \<Rightarrow> (string \<times> string) set" where
  "reads table = {(t, c). \<exists>name cs. map_of table t = Some (name, cs) \<and> c \<in> set cs \<and> c \<in> set (map fst table)}"

fun sources_first :: "sum_table \<Rightarrow> string list \<Rightarrow> (string \<times> string list) list \<Rightarrow> bool" where
  "sources_first table seen [] \<longleftrightarrow> True"
| "sources_first table seen ((t, cs) # rest) \<longleftrightarrow>
     map_option snd (map_of table t) = Some cs \<and> t \<notin> set seen \<and>
     list_all (\<lambda>c. c \<in> set (map fst table) \<longrightarrow> c \<in> set seen) cs \<and> sources_first table (t # seen) rest"

lemma sources_first_append:
  "sources_first table seen (xs @ ys) \<longleftrightarrow>
     sources_first table seen xs \<and> sources_first table (rev (map fst xs) @ seen) ys"
proof (induction xs arbitrary: seen)
  case (Cons p xs)
  then show ?case by (cases p) simp
qed simp

lemma table_key: "map_of table t = Some x \<Longrightarrow> t \<in> set (map fst table)"
  by (metis map_of_eq_None_iff option.distinct(1) set_map)

text \<open>The names a list of entries has, kept folded in the search's invariant.\<close>

definition listed :: "(string \<times> 'a) list \<Rightarrow> string set" where
  "listed xs = set (map fst xs)"

lemma listed_simps [simp]: "listed [] = {}" "listed (xs @ [p]) = insert (fst p) (listed xs)"
  by (simp_all add: listed_def)

definition search_ok :: "sum_table \<Rightarrow> string list \<Rightarrow> (string \<rightharpoonup> visit_state) \<times> (string \<times> string list) list \<Rightarrow> bool" where
  "search_ok table path s \<longleftrightarrow>
     sources_first table [] (snd s) \<and>
     (\<forall>t. (fst s t = Some Visited \<longleftrightarrow> t \<in> listed (snd s)) \<and> (fst s t = Some Visiting \<longleftrightarrow> t \<in> set path))"

definition later :: "(string \<rightharpoonup> visit_state) \<times> 'a \<Rightarrow> (string \<rightharpoonup> visit_state) \<times> 'a \<Rightarrow> bool" where
  "later s s' \<longleftrightarrow> (\<forall>t. fst s t = Some Visited \<longrightarrow> fst s' t = Some Visited)"

lemma search_mark:
  assumes "search_ok table path (state, ordered)" and "state t = None"
  shows "t \<notin> set path \<and> search_ok table (path @ [t]) (state(t \<mapsto> Visiting), ordered)"
proof -
  have "t \<notin> listed ordered" "t \<notin> set path" using assms unfolding search_ok_def by (metis fst_conv option.distinct(1) snd_conv)+
  then show ?thesis using assms by (auto simp: search_ok_def)
qed

lemma visited_entry:
  assumes "search_ok table (path @ [t]) (st, ordered)" and "map_of table t = Some (name, cs)" and "t \<notin> set path"
    and seen: "\<And>c. c \<in> set cs \<Longrightarrow> c \<in> set (map fst table) \<Longrightarrow> st c = Some Visited"
  shows "search_ok table path (st(t \<mapsto> Visited), ordered @ [(t, cs)])"
proof -
  have marks: "st x = Some Visited \<longleftrightarrow> x \<in> listed ordered" for x using assms(1) by (simp add: search_ok_def)
  have "st t = Some Visiting" using assms(1) by (simp add: search_ok_def)
  then have fresh: "t \<notin> set (map fst ordered)" using marks [of t] by (simp add: listed_def)
  have "list_all (\<lambda>c. c \<in> set (map fst table) \<longrightarrow> c \<in> set (rev (map fst ordered))) cs"
    using seen marks by (auto simp: list_all_iff listed_def)
  then have "sources_first table [] (ordered @ [(t, cs)])"
    using fresh assms(1,2) by (simp add: sources_first_append search_ok_def)
  then show ?thesis using assms(1,3) by (auto simp: search_ok_def)
qed

lemma visit_finds:
  "search_ok table path s \<Longrightarrow> visit table t path s = Inr s' \<Longrightarrow>
     search_ok table path s' \<and> later s s' \<and> fst s' t = Some Visited"
  "search_ok table path s \<Longrightarrow> visit_sources table cs path s = Inr s' \<Longrightarrow>
     search_ok table path s' \<and> later s s' \<and> (\<forall>c \<in> set cs. c \<in> set (map fst table) \<longrightarrow> fst s' c = Some Visited)"
proof (induction table t path s and table cs path s arbitrary: s' and s' rule: visit_induct)
  case (1 table t path state ordered)
  show ?case
  proof (cases "state t = None \<and> map_of table t \<noteq> None")
    case True
    then obtain name cs where cs: "state t = None" "map_of table t = Some (name, cs)" by auto
    then obtain st' ord' where inner:
        "visit_sources table cs (path @ [t]) (state(t \<mapsto> Visiting), ordered) = Inr (st', ord')"
      and s': "s' = (st'(t \<mapsto> Visited), ord' @ [(t, cs)])"
      using "1.prems"(2) by (auto simp: visit.simps rbind_eq_Inr)
    note ok = conjunct2 [OF search_mark [OF "1.prems"(1) cs(1)]]
    note result = "1.IH" [OF cs refl ok inner]
    have "t \<notin> set path" using search_mark [OF "1.prems"(1) cs(1)] by simp
    then have "search_ok table path s'"
      unfolding s' using result cs(2) by (intro visited_entry) auto
    moreover have "later (state, ordered) s'" using result cs(1) s' by (auto simp: later_def)
    ultimately show ?thesis using s' by simp
  next
    case False
    then show ?thesis using "1.prems"
      by (auto simp: visit.simps later_def split: option.splits visit_state.splits)
  qed
next
  case (2 table path s)
  then show ?case by (simp add: later_def)
next
  case (3 table c cs path s)
  show ?case
  proof (cases "c \<in> set (map fst table)")
    case True
    with "3.prems"(2) obtain s1 where s1: "visit table c path s = Inr s1" "visit_sources table cs path s1 = Inr s'"
      by (auto simp: rbind_eq_Inr)
    note first = "3.IH"(1) [OF True "3.prems"(1) s1(1)]
    with "3.IH"(2) [OF True s1(1) _ s1(2)] show ?thesis by (auto simp: later_def)
  qed (use 3 in auto)
qed

lemma visit_fails:
  "t \<in> set (map fst table) \<Longrightarrow> search_ok table path s \<Longrightarrow> \<forall>x \<in> set path. (x, t) \<in> (reads table)\<^sup>+ \<Longrightarrow>
     visit table t path s = Inl e \<Longrightarrow> \<exists>p x. e = Cycle_of_sums (p @ [x]) \<and> (x, x) \<in> (reads table)\<^sup>+"
  "search_ok table path s \<Longrightarrow> \<forall>x \<in> set path. \<forall>c \<in> set cs. c \<in> set (map fst table) \<longrightarrow> (x, c) \<in> (reads table)\<^sup>+ \<Longrightarrow>
     visit_sources table cs path s = Inl e \<Longrightarrow> \<exists>p x. e = Cycle_of_sums (p @ [x]) \<and> (x, x) \<in> (reads table)\<^sup>+"
proof (induction table t path s and table cs path s rule: visit_induct)
  case (1 table t path state ordered)
  obtain name cs where cs: "map_of table t = Some (name, cs)"
    using "1.prems"(1) by (metis map_of_eq_None_iff not_None_eq surj_pair set_map)
  show ?case
  proof (cases "state t")
    case None
    then have inner: "visit_sources table cs (path @ [t]) (state(t \<mapsto> Visiting), ordered) = Inl e"
      using "1.prems"(4) cs by (auto simp: visit.simps rbind_eq_Inl)
    note ok = conjunct2 [OF search_mark [OF "1.prems"(2) None]]
    have step: "(t, c) \<in> reads table" if "c \<in> set cs" "c \<in> set (map fst table)" for c
      using that cs by (auto simp: reads_def)
    have "\<forall>x \<in> set (path @ [t]). \<forall>c \<in> set cs. c \<in> set (map fst table) \<longrightarrow> (x, c) \<in> (reads table)\<^sup>+"
      using "1.prems"(3) step by (auto intro: trancl_into_trancl)
    from "1.IH" [OF None cs refl ok this inner] show ?thesis .
  next
    case (Some v)
    then show ?thesis using "1.prems"
      by (cases v) (auto simp: visit.simps search_ok_def)
  qed
next
  case (3 table c cs path s)
  show ?case
  proof (cases "c \<in> set (map fst table)")
    case True
    show ?thesis
    proof (cases "visit table c path s")
      case (Inl e')
      then show ?thesis using 3 True by auto
    next
      case (Inr s1)
      have "search_ok table path s1" using visit_finds(1) [OF "3.prems"(1) Inr] by simp
      then show ?thesis using "3.IH"(2) [OF True Inr] "3.prems" True Inr by auto
    qed
  qed (use 3 in auto)
qed simp

lemma search_starts: "search_ok table [] (Map.empty, [])"
  by (simp add: search_ok_def)

lemma visit_all:
  "search_ok table [] s \<Longrightarrow> rfold (\<lambda>s (t, _). visit table t [] s) s ts = Inr s' \<Longrightarrow>
     search_ok table [] s' \<and> later s s' \<and> (\<forall>t \<in> set (map fst ts). fst s' t = Some Visited)"
proof (induction ts arbitrary: s)
  case (Cons p ts)
  then obtain s1 where s1: "visit table (fst p) [] s = Inr s1" "rfold (\<lambda>s (t, _). visit table t [] s) s1 ts = Inr s'"
    by (auto simp: rbind_eq_Inr split: prod.splits)
  from visit_finds(1) [OF Cons.prems(1) s1(1)] Cons.IH [OF _ s1(2)] show ?case by (auto simp: later_def)
qed (simp add: later_def)

lemma visit_all_fails:
  "search_ok table [] s \<Longrightarrow> set (map fst ts) \<subseteq> set (map fst table) \<Longrightarrow>
   rfold (\<lambda>s (t, _). visit table t [] s) s ts = Inl e \<Longrightarrow>
     \<exists>p x. e = Cycle_of_sums (p @ [x]) \<and> (x, x) \<in> (reads table)\<^sup>+"
proof (induction ts arbitrary: s)
  case (Cons p ts)
  show ?case
  proof (cases "visit table (fst p) [] s")
    case (Inl e')
    then show ?thesis using Cons.prems visit_fails(1) [of "fst p" table "[]" s e'] by (auto split: prod.splits)
  next
    case (Inr s1)
    then show ?thesis using Cons.prems Cons.IH [of s1] visit_finds(1) [OF Cons.prems(1) Inr] by (auto split: prod.splits)
  qed
qed simp

lemma visited_only_sums:
  "sources_first table seen ord \<Longrightarrow> set (map fst ord) \<subseteq> set (map fst table)"
proof (induction ord arbitrary: seen)
  case (Cons p ord)
  from Cons.prems have "map_of table (fst p) \<noteq> None" "sources_first table (fst p # seen) ord" by (cases p; auto)+
  then show ?case using Cons.IH [of "fst p # seen"] table_key [of table "fst p"] by auto
qed simp

lemma sum_order_lists:
  assumes "sum_order options = Inr ord"
  shows "sources_first (sums_of options) [] ord" "set (map fst ord) = set (map fst (sums_of options))"
proof -
  let ?table = "sums_of options"
  from assms obtain st where run: "rfold (\<lambda>s (t, _). visit ?table t [] s) (Map.empty, []) ?table = Inr (st, ord)"
    by (auto simp: sum_order_def Let_def rbind_eq_Inr)
  note swept = visit_all [OF search_starts run]
  from swept show "sources_first ?table [] ord" by (simp add: search_ok_def)
  then show "set (map fst ord) = set (map fst ?table)"
    using swept visited_only_sums [of ?table "[]" ord] unfolding search_ok_def listed_def by auto
qed

lemma sum_order_cycle:
  assumes "sum_order options = Inl e"
  shows "\<exists>p x. e = Cycle_of_sums (p @ [x]) \<and> (x, x) \<in> (reads (sums_of options))\<^sup>+"
  using assms visit_all_fails [OF search_starts, of "sums_of options" "sums_of options" e]
  by (auto simp: sum_order_def Let_def rbind_eq_Inl)

definition place :: "(string \<times> string list) list \<Rightarrow> string \<Rightarrow> nat" where
  "place ord t = length (takeWhile (\<lambda>p. fst p \<noteq> t) ord)"

lemma place_earlier:
  "sources_first table seen ord \<Longrightarrow> t \<in> set (map fst ord) \<Longrightarrow> map_of table t = Some (name, cs) \<Longrightarrow>
   c \<in> set cs \<Longrightarrow> c \<in> set (map fst table) \<Longrightarrow> c \<notin> set seen \<Longrightarrow> place ord c < place ord t"
proof (induction ord arbitrary: seen)
  case (Cons p ord)
  have later: "place (p # ord) x = Suc (place ord x)" if "x \<noteq> fst p" for x
    using that by (simp add: place_def)
  obtain u us where p: "p = (u, us)" by (cases p)
  show ?case
  proof (cases "u = t")
    case True
    then have "c \<in> set seen" using Cons.prems p by (auto simp: list_all_iff)
    then show ?thesis using Cons.prems(6) by simp
  next
    case False
    then have "c = u \<or> place ord c < place ord t"
      using Cons.prems p Cons.IH [of "u # seen"] by auto
    then show ?thesis using False p later by (cases "c = u") (auto simp: place_def)
  qed
qed simp

lemma ordered_acyclic:
  assumes "sources_first table [] ord" and "set (map fst ord) = set (map fst table)"
  shows "acyclic (reads table)"
proof (rule acyclicI_order [where f = "place ord"])
  fix t c assume "(t, c) \<in> reads table"
  then obtain name cs where "map_of table t = Some (name, cs)" "c \<in> set cs" "c \<in> set (map fst table)"
    by (auto simp: reads_def)
  moreover from this have "t \<in> set (map fst table)" using table_key by fast
  ultimately show "place ord c < place ord t" using place_earlier [OF assms(1)] assms(2) by simp
qed

text \<open>C8. The sums of an offering can be ordered exactly when none reads itself, directly or through other sums;
  the search then lists each sum once and after every sum it reads, and otherwise it reports a cycle that is
  really there.\<close>

theorem sums_ordered_unless_cyclic:
  "case sum_order options of
     Inr ord \<Rightarrow> acyclic (reads (sums_of options)) \<and> sources_first (sums_of options) [] ord \<and>
       set (map fst ord) = set (map fst (sums_of options))
   | Inl e \<Rightarrow> (\<exists>p x. e = Cycle_of_sums (p @ [x]) \<and> (x, x) \<in> (reads (sums_of options))\<^sup>+)"
  using sum_order_cycle [of options] sum_order_lists [of options] ordered_acyclic
  by (auto split: sum.split)

end
