(* ===== verification/Derived_Limit_Facts.thy ===== *)
theory Derived_Limit_Facts
  imports Derived_Limit_Order
begin

text \<open>
  The computation of derived limits, phase by phase: the client's numbers, the formulas, the kept values, the
  sums and the final write, each with what it leaves alone.  \<open>number_in\<close> reads a number from the limits that are
  returned; \<open>computed\<close> unfolds a successful run into its phases.
\<close>

definition number_in :: "(string, json) dict \<Rightarrow> string \<Rightarrow> rat option" where
  "number_in limits c = (case map_of limits c of Some (JNum q) \<Rightarrow> Some q | _ \<Rightarrow> None)"

definition claimed :: "derived_option \<Rightarrow> string list" where
  "claimed opt =
     (if dopt_type opt = FORMULA_TYPE then map fst (formula_targets opt)
      else if dopt_type opt = SUM_TYPE then [sum_target opt] else [])"

definition all_claimed :: "derived_options \<Rightarrow> string list" where
  "all_claimed options = concat (map (claimed \<circ> snd) options)"

text \<open>What the serializers guarantee of the options of a saved offering.\<close>

definition saved_options :: "derived_options \<Rightarrow> bool" where
  "saved_options options \<longleftrightarrow>
     validate_derived_options options = Inr () \<and>
     list_all (\<lambda>(_, opt). dopt_type opt = SUM_TYPE \<longrightarrow> sum_target opt \<noteq> []) options"

lemma types_differ [simp]: "FORMULA_TYPE \<noteq> SUM_TYPE" "SUM_TYPE \<noteq> FORMULA_TYPE"
  by (simp_all add: FORMULA_TYPE_def SUM_TYPE_def)

subsection \<open>Every component has one option\<close>

lemma claim_targets_distinct:
  "claim_targets name cs owners = Inr owners' \<Longrightarrow>
     distinct cs \<and> set cs \<inter> dom (map_of owners) = {} \<and> dom (map_of owners') = dom (map_of owners) \<union> set cs"
  unfolding claim_targets_def
proof (induction cs arbitrary: owners)
  case (Cons c cs)
  then have "map_of owners c = None"
    "rfold (\<lambda>owners c. case map_of owners c of Some first \<Rightarrow> Inl (Derived_twice c first name)
        | None \<Rightarrow> Inr (dict_set c name owners)) (dict_set c name owners) cs = Inr owners'"
    by (auto split: option.splits)
  with Cons.IH [OF this(2)] show ?case by auto
qed simp

lemma claim_option_claims:
  "claim_option owners (name, opt) = Inr owners' \<Longrightarrow>
     distinct (claimed opt) \<and> set (claimed opt) \<inter> dom (map_of owners) = {} \<and>
     dom (map_of owners') = dom (map_of owners) \<union> set (claimed opt)"
  using claim_targets_distinct [of name "claimed opt" owners owners']
  by (auto simp: claim_option_def claimed_def split: if_splits)

lemma claims_distinct:
  "rfold claim_option owners options = Inr owners' \<Longrightarrow>
     distinct (all_claimed options) \<and> set (all_claimed options) \<inter> dom (map_of owners) = {}"
proof (induction options arbitrary: owners)
  case (Cons p options)
  then obtain o1 where o1: "claim_option owners p = Inr o1" "rfold claim_option o1 options = Inr owners'"
    by (auto simp: rbind_eq_Inr)
  from claim_option_claims [of owners "fst p" "snd p" o1] o1(1) Cons.IH [OF o1(2)]
  show ?case by (auto simp: all_claimed_def)
qed (simp add: all_claimed_def)

lemma saved_claims: "saved_options options \<Longrightarrow> distinct (all_claimed options)"
  using claims_distinct by (auto simp: saved_options_def validate_derived_options_def rbind_eq_Inr)

lemma saved_orders: "saved_options options \<Longrightarrow> \<exists>ord. sum_order options = Inr ord"
  by (auto simp: saved_options_def validate_derived_options_def rbind_eq_Inr)

lemma claimed_listed: "(name, opt) \<in> set options \<Longrightarrow> set (claimed opt) \<subseteq> set (all_claimed options)"
  by (force simp: all_claimed_def)

lemma one_claimant:
  assumes "saved_options options" and "(n, opt) \<in> set options" and "(n', opt') \<in> set options"
    and "c \<in> set (claimed opt)" and "c \<in> set (claimed opt')"
  shows "(n, opt) = (n', opt')"
proof -
  have "distinct (all_claimed options) \<Longrightarrow> (n, opt) \<in> set options \<Longrightarrow> (n', opt') \<in> set options \<Longrightarrow> (n, opt) = (n', opt')"
  proof (induction options)
    case (Cons p options)
    have "c \<in> set (all_claimed options)" if "(m, x) \<in> set options" "c \<in> set (claimed x)" for m x
      using claimed_listed [OF that(1)] that(2) by blast
    with Cons assms(4,5) show ?case by (auto simp: all_claimed_def)
  qed simp
  with saved_claims assms show ?thesis by blast
qed

lemma keys_setdefault [simp]: "set (map fst (setdefault c name d)) = insert c (set (map fst d))"
  by (auto simp: setdefault_def)

lemma keys_setdefaults: "set (map fst (fold (\<lambda>c. setdefault c name) cs d)) = set cs \<union> set (map fst d)"
proof (induction cs arbitrary: d)
  case (Cons c cs)
  show ?case unfolding fold_Cons comp_apply Cons.IH keys_setdefault by auto
qed simp

lemma derived_keys:
  "set (map fst (derived_components options)) = set (concat (map (targets_of \<circ> snd) options))"
proof -
  have "set (map fst (fold (\<lambda>(name, opt) d. fold (\<lambda>c. setdefault c name) (targets_of opt) d) options d)) =
      set (concat (map (targets_of \<circ> snd) options)) \<union> set (map fst d)" for d
  proof (induction options arbitrary: d)
    case (Cons p options)
    show ?case unfolding fold_Cons comp_apply Cons.IH by (cases p) (auto simp: keys_setdefaults [unfolded set_map] split: prod.splits)
  qed simp
  then show ?thesis by (simp add: derived_components_def)
qed

lemma saved_derived: "saved_options options \<Longrightarrow> set (map fst (derived_components options)) = set (all_claimed options)"
proof -
  assume "saved_options options"
  then have "(name, opt) \<in> set options \<Longrightarrow> targets_of opt = claimed opt" for name opt
    by (auto simp: saved_options_def list_all_iff targets_of_def claimed_def)
  then show ?thesis unfolding derived_keys by (auto simp: all_claimed_def)
qed

subsection \<open>The table of the sums\<close>

lemma map_of_note_sum:
  "map_of (note_sum (name, opt) table) =
     (if dopt_type opt = SUM_TYPE then (map_of table)(sum_target opt \<mapsto> (name, sum_components opt)) else map_of table)"
  by (simp add: note_sum_def)

lemma sums_of_fold_other: "t \<notin> set (all_claimed options) \<Longrightarrow> map_of (fold note_sum options d) t = map_of d t"
proof (induction options arbitrary: d)
  case (Cons p options)
  then show ?case by (cases p) (auto simp: all_claimed_def claimed_def map_of_note_sum split: if_splits)
qed simp

lemma sums_of_lookup:
  "distinct (all_claimed options) \<Longrightarrow> (name, opt) \<in> set options \<Longrightarrow> dopt_type opt = SUM_TYPE \<Longrightarrow>
   map_of (fold note_sum options d) (sum_target opt) = Some (name, sum_components opt)"
proof (induction options arbitrary: d)
  case (Cons p options)
  show ?case
  proof (cases "(name, opt) \<in> set options")
    case True
    then show ?thesis using Cons by (simp add: all_claimed_def)
  next
    case False
    then have p: "p = (name, opt)" using Cons.prems(2) by auto
    then have "sum_target opt \<notin> set (all_claimed options)"
      using Cons.prems(1,3) by (simp add: all_claimed_def claimed_def)
    then show ?thesis using p Cons.prems(3) by (simp add: sums_of_fold_other map_of_note_sum)
  qed
qed simp

lemma sums_of_option:
  "saved_options options \<Longrightarrow> (name, opt) \<in> set options \<Longrightarrow> dopt_type opt = SUM_TYPE \<Longrightarrow>
   map_of (sums_of options) (sum_target opt) = Some (name, sum_components opt)"
  unfolding sums_of_def by (rule sums_of_lookup) (simp_all add: saved_claims)

lemma sums_of_claims:
  assumes "map_of (sums_of options) t = Some x"
  shows "\<exists>name opt. (name, opt) \<in> set options \<and> dopt_type opt = SUM_TYPE \<and> sum_target opt = t"
proof -
  have "map_of (fold note_sum options d) t = Some x \<Longrightarrow>
      map_of d t = Some x \<or> (\<exists>name opt. (name, opt) \<in> set options \<and> dopt_type opt = SUM_TYPE \<and> sum_target opt = t)" for d
  proof (induction options arbitrary: d)
    case (Cons p options)
    from Cons.prems have "map_of (fold note_sum options (note_sum p d)) t = Some x" by simp
    from Cons.IH [OF this] show ?case by (cases p) (auto simp: map_of_note_sum split: if_splits)
  qed simp
  from this [of "[]"] assms show ?thesis by (simp add: sums_of_def)
qed

subsection \<open>The phases of the computation\<close>

lemma foldl_untouched:
  "(\<And>e x. x \<in> set xs \<Longrightarrow> map_of (f e x) k = map_of e k) \<Longrightarrow> map_of (foldl f e xs) k = map_of e k"
  for f :: "('k, 'v) dict \<Rightarrow> 'a \<Rightarrow> ('k, 'v) dict"
  by (induction xs arbitrary: e) auto

lemma rfold_untouched:
  "(\<And>e x e'. x \<in> set xs \<Longrightarrow> f e x = Inr e' \<Longrightarrow> map_of e' k = map_of e k) \<Longrightarrow>
   rfold f e xs = Inr e' \<Longrightarrow> map_of e' k = map_of e k"
  for f :: "('k, 'v) dict \<Rightarrow> 'a \<Rightarrow> ('e, ('k, 'v) dict) result"
proof (induction xs arbitrary: e)
  case (Cons x xs)
  then obtain e1 where "f e x = Inr e1" "rfold f e1 xs = Inr e'" by (auto simp: rbind_eq_Inr)
  with Cons show ?case by (metis list.set_intros(1,2))
qed simp

lemma exact_numbers_Cons:
  "exact_numbers ((c, v) # d) = (case v of JNum q \<Rightarrow> (c, q) # exact_numbers d | _ \<Rightarrow> exact_numbers d)"
  by (cases v) (simp_all add: exact_numbers_def map_filter_simps)

lemma exact_numbers_absent: "c \<notin> set (map fst d) \<Longrightarrow> map_of (exact_numbers d) c = None"
proof (induction d)
  case (Cons p d)
  then show ?case by (cases p) (auto simp: exact_numbers_Cons split: json.splits)
qed (simp add: exact_numbers_def map_filter_simps)

lemma exact_numbers_lookup: "distinct (map fst d) \<Longrightarrow> map_of (exact_numbers d) k = number_in d k"
proof (induction d)
  case (Cons p d)
  obtain c v where p: "p = (c, v)" by (cases p)
  show ?case using Cons p exact_numbers_absent [of c d]
    by (auto simp: exact_numbers_Cons number_in_def split: json.splits)
qed (simp add: exact_numbers_def number_in_def map_filter_simps)

lemma number_in_filter: "P k \<Longrightarrow> number_in (filter (\<lambda>(k, _). P k) d) k = number_in d k"
  by (induction d) (auto simp: number_in_def split: if_splits)

lemma derive_target_other: "derive_target comps name v e x = Inr e' \<Longrightarrow> k \<noteq> fst x \<Longrightarrow> map_of e' k = map_of e k"
  by (auto simp: derive_target_def split: prod.splits sum.splits if_splits)

lemma derive_target_sets:
  "derive_target comps name v e (c, formula) = Inr e' \<Longrightarrow>
     \<exists>node amount. parse_formula (JStr formula) = Inr node \<and> evaluate_formula node v = Inr amount \<and> 0 \<le> amount \<and>
       map_of e' c = Some (round_up amount (map_of comps c))"
  by (auto simp: derive_target_def rbind_eq_Inr split: sum.splits if_splits)

lemma derive_targets_set:
  "rfold (derive_target comps name v) e targets = Inr e' \<Longrightarrow> distinct (map fst targets) \<Longrightarrow> (c, formula) \<in> set targets \<Longrightarrow>
     \<exists>node amount. parse_formula (JStr formula) = Inr node \<and> evaluate_formula node v = Inr amount \<and> 0 \<le> amount \<and>
       map_of e' c = Some (round_up amount (map_of comps c))"
proof (induction targets arbitrary: e)
  case (Cons x targets)
  then obtain e1 where e1: "derive_target comps name v e x = Inr e1" "rfold (derive_target comps name v) e1 targets = Inr e'"
    by (auto simp: rbind_eq_Inr)
  show ?case
  proof (cases "(c, formula) \<in> set targets")
    case True
    with Cons.IH [OF e1(2)] Cons.prems(2) show ?thesis by simp
  next
    case False
    then have x: "x = (c, formula)" using Cons.prems(3) by auto
    have "c \<notin> set (map fst targets)" using Cons.prems(2) x by simp
    then have "map_of e' c = map_of e1 c"
      using rfold_untouched [OF _ e1(2), of c] derive_target_other by (metis image_eqI set_map)
    then show ?thesis using derive_target_sets e1(1) x by metis
  qed
qed simp

lemma derive_formula_other:
  assumes run: "derive_formula comps attributes e p = Inr e'"
    and other: "dopt_type (snd p) \<noteq> FORMULA_TYPE \<or> k \<notin> set (claimed (snd p))"
  shows "map_of e' k = map_of e k"
proof (cases "dopt_type (snd p) = FORMULA_TYPE")
  case True
  then obtain v where "e' = e \<or> rfold (derive_target comps (fst p) v) e (formula_targets (snd p)) = Inr e'"
    using run by (cases p) (auto simp: derive_formula_def rbind_eq_Inr split: option.splits)
  moreover have "k \<noteq> fst x" if "x \<in> set (formula_targets (snd p))" for x
    using that other True by (auto simp: claimed_def)
  ultimately show ?thesis
    using rfold_untouched [of "formula_targets (snd p)" "derive_target comps (fst p) v" k e e'] derive_target_other
    by metis
qed (use run in \<open>cases p; simp add: derive_formula_def\<close>)

lemma derive_formulas_set:
  "rfold (derive_formula comps attributes) e options = Inr e' \<Longrightarrow> distinct (all_claimed options) \<Longrightarrow>
   (name, opt) \<in> set options \<Longrightarrow> dopt_type opt = FORMULA_TYPE \<Longrightarrow> (c, formula) \<in> set (formula_targets opt) \<Longrightarrow>
   formula_input name opt attributes = Inr (Some v) \<Longrightarrow>
     \<exists>node amount. parse_formula (JStr formula) = Inr node \<and> evaluate_formula node v = Inr amount \<and> 0 \<le> amount \<and>
       map_of e' c = Some (round_up amount (map_of comps c))"
proof (induction options arbitrary: e)
  case (Cons p options)
  then obtain e1 where e1: "derive_formula comps attributes e p = Inr e1"
      "rfold (derive_formula comps attributes) e1 options = Inr e'"
    by (auto simp: rbind_eq_Inr)
  show ?case
  proof (cases "(name, opt) \<in> set options")
    case True
    with Cons.IH [OF e1(2)] Cons.prems show ?thesis by (simp add: all_claimed_def)
  next
    case False
    then have p: "p = (name, opt)" using Cons.prems(3) by auto
    have c: "c \<in> set (claimed opt)" using Cons.prems(4,5) by (force simp: claimed_def)
    then have "c \<notin> set (all_claimed options)" using Cons.prems(2) p by (auto simp: all_claimed_def)
    then have "c \<notin> set (claimed (snd q))" if "q \<in> set options" for q
      using that claimed_listed [of "fst q" "snd q" options] by auto
    then have "map_of e' c = map_of e1 c"
      using rfold_untouched [OF _ e1(2), of c] derive_formula_other by metis
    moreover have "rfold (derive_target comps name v) e (formula_targets opt) = Inr e1"
      using e1(1) p Cons.prems(4,6) by (simp add: derive_formula_def)
    moreover have "distinct (map fst (formula_targets opt))"
      using Cons.prems(2,4) p by (simp add: all_claimed_def claimed_def)
    ultimately show ?thesis using derive_targets_set [of comps name v e "formula_targets opt" e1 c formula] Cons.prems(5) by simp
  qed
qed simp

lemma keep_fallback_keeps: "map_of e c = Some q \<Longrightarrow> map_of (foldl (keep_fallback fb) e cs) c = Some q"
proof (induction cs arbitrary: e)
  case (Cons d cs)
  have "map_of (keep_fallback fb e d) c = Some q"
    using Cons.prems by (auto simp: keep_fallback_def weak_map_of_SomeI split: option.splits dest: map_of_SomeD)
      (metis fst_conv image_eqI map_of_SomeD)
  then show ?case using Cons.IH by simp
qed simp

lemma keep_fallback_other: "k \<noteq> c \<Longrightarrow> map_of (keep_fallback fb e c) k = map_of e k"
  by (auto simp: keep_fallback_def split: option.splits)

lemma add_sum_other: "k \<noteq> fst x \<Longrightarrow> map_of (add_sum comps e x) k = map_of e k"
  by (auto simp: add_sum_def Let_def split: prod.splits)

lemma add_sums_other: "k \<notin> set (map fst ord) \<Longrightarrow> map_of (foldl (add_sum comps) e ord) k = map_of e k"
  by (rule foldl_untouched) (metis add_sum_other image_eqI set_map)

lemma sources_first_split:
  assumes "sources_first table [] (xs @ (t, cs) # ys)"
  shows "map_option snd (map_of table t) = Some cs" "t \<notin> set (map fst xs)" "t \<notin> set (map fst ys)"
    "\<And>c. c \<in> set cs \<Longrightarrow> c \<notin> insert t (set (map fst ys)) \<or> c \<notin> set (map fst table)"
    "t \<notin> set cs"
proof -
  have fresh: "sources_first table seen ord \<Longrightarrow> set (map fst ord) \<inter> set seen = {}" for seen ord
  proof (induction ord arbitrary: seen)
    case (Cons p ord)
    then show ?case using Cons.IH [of "fst p # seen"] by (cases p) auto
  qed simp
  let ?seen = "rev (map fst xs)"
  have parts: "map_option snd (map_of table t) = Some cs" "t \<notin> set ?seen"
    "list_all (\<lambda>c. c \<in> set (map fst table) \<longrightarrow> c \<in> set ?seen) cs" "sources_first table (t # ?seen) ys"
    using assms unfolding sources_first_append by simp_all
  show "map_option snd (map_of table t) = Some cs" by (rule parts(1))
  show t: "t \<notin> set (map fst xs)" using parts(2) by simp
  have ys: "set (map fst ys) \<inter> insert t (set (map fst xs)) = {}" using fresh [OF parts(4)] by simp
  then show "t \<notin> set (map fst ys)" by auto
  show sources: "c \<notin> insert t (set (map fst ys)) \<or> c \<notin> set (map fst table)" if "c \<in> set cs" for c
    using that parts(3) t ys by (auto simp: list_all_iff simp del: set_map)
  show "t \<notin> set cs" using sources [of t] table_key [of table t] parts(1) by auto
qed

lemma present_values_same: "(\<And>c. c \<in> set cs \<Longrightarrow> map_of e c = map_of e' c) \<Longrightarrow> present_values e cs = present_values e' cs"
  unfolding present_values_def by (induction cs) (auto simp: map_filter_simps split: option.splits)

lemma add_sums_set:
  assumes order: "sources_first table [] ord" and keys: "set (map fst ord) = set (map fst table)"
    and entry: "(t, cs) \<in> set ord" and "present_values (foldl (add_sum comps) e ord) cs \<noteq> []"
  shows "map_of (foldl (add_sum comps) e ord) t =
    Some (round_up (sum_list (present_values (foldl (add_sum comps) e ord) cs)) (map_of comps t))"
proof -
  obtain xs ys where ord: "ord = xs @ (t, cs) # ys" using entry by (auto simp: in_set_conv_decomp)
  note split = sources_first_split [OF order [unfolded ord]]
  let ?before = "foldl (add_sum comps) e xs" and ?after = "foldl (add_sum comps) e ord"
  have "map_of ?before c = map_of ?after c" if "c \<in> set cs" for c
  proof -
    have "c \<notin> set (map fst ((t, cs) # ys))"
      using split(4) [OF that] keys ord by auto
    then have "map_of (foldl (add_sum comps) ?before ((t, cs) # ys)) c = map_of ?before c" by (rule add_sums_other)
    then show ?thesis using ord by simp
  qed
  then have same: "present_values ?before cs = present_values ?after cs" by (rule present_values_same)
  have "map_of ?after t = map_of (add_sum comps ?before (t, cs)) t"
    using add_sums_other [OF split(3), of comps "add_sum comps ?before (t, cs)"] ord by simp
  also have "\<dots> = Some (round_up (sum_list (present_values ?after cs)) (map_of comps t))"
    using assms(4) same by (simp add: add_sum_def Let_def)
  finally show ?thesis .
qed

subsection \<open>A successful run\<close>

definition client_part :: "derived_options \<Rightarrow> (string, json) dict \<Rightarrow> (string, json) dict" where
  "client_part options requested = filter (\<lambda>(k, _). k \<notin> set (map fst (derived_components options))) requested"

lemma computed:
  assumes "compute_derived_limits options attributes requested comps fallback = Inr out"
    and "derived_components options \<noteq> []"
  obtains exact ord where
    "rfold (derive_formula comps attributes) (exact_numbers (client_part options requested)) options = Inr exact"
    "sum_order options = Inr ord"
    "out = foldl (write_derived (foldl (add_sum comps)
        (foldl (keep_fallback fallback) exact (map fst (derived_components options))) ord))
      (client_part options requested) (map fst (derived_components options))"
  using assms
  by (auto simp: compute_derived_limits_def Let_def rbind_eq_Inr client_part_def split: option.splits)

lemma write_derived_lookup:
  "map_of (foldl (write_derived exact) d cs) k =
     (if k \<in> set cs \<and> map_of exact k \<noteq> None then map_option JNum (map_of exact k) else map_of d k)"
proof (induction cs arbitrary: d)
  case (Cons c cs)
  then show ?case by (auto simp: write_derived_def split: option.splits)
qed simp

lemma client_part_lookup:
  "map_of (client_part options requested) k =
     (if k \<in> set (map fst (derived_components options)) then None else map_of requested k)"
  unfolding client_part_def map_of_filter_keys by simp

lemma number_in_client_part:
  "number_in (client_part options requested) k =
     (if k \<in> set (map fst (derived_components options)) then None else number_in requested k)"
  by (simp add: number_in_def client_part_lookup)

lemma distinct_client_part: "distinct (map fst requested) \<Longrightarrow> distinct (map fst (client_part options requested))"
  by (simp add: client_part_def distinct_map_filter)

text \<open>What the returned limits hold is what the last phase computed.\<close>

lemma computed_numbers:
  assumes saved: "saved_options options" and keys: "distinct (map fst requested)"
    and formulas: "rfold (derive_formula comps attributes) (exact_numbers (client_part options requested)) options = Inr exact"
    and ord: "sum_order options = Inr ord"
    and final: "final = foldl (add_sum comps)
        (foldl (keep_fallback fallback) exact (map fst (derived_components options))) ord"
    and out: "out = foldl (write_derived final) (client_part options requested) (map fst (derived_components options))"
  shows "number_in out k = map_of final k"
proof (cases "k \<in> set (map fst (derived_components options))")
  case True
  then show ?thesis
    by (cases "map_of final k") (simp_all add: out number_in_def write_derived_lookup client_part_lookup del: set_map)
next
  case False
  then have unclaimed: "k \<notin> set (all_claimed options)" using saved_derived [OF saved] by simp
  have "map_of exact k = map_of (exact_numbers (client_part options requested)) k"
  proof (rule rfold_untouched [OF _ formulas])
    fix e p e' assume "p \<in> set options" and run: "derive_formula comps attributes e p = Inr e'"
    then have "k \<notin> set (claimed (snd p))" using unclaimed claimed_listed [of "fst p" "snd p" options] by auto
    then show "map_of e' k = map_of e k" using derive_formula_other [OF run] by blast
  qed
  moreover have "map_of (foldl (keep_fallback fallback) exact (map fst (derived_components options))) k = map_of exact k"
    by (rule foldl_untouched) (use False keep_fallback_other in metis)
  moreover have "k \<notin> set (map fst ord)"
  proof
    assume "k \<in> set (map fst ord)"
    then have "k \<in> set (map fst (sums_of options))" using sum_order_lists(2) [OF ord] by simp
    then obtain x where "map_of (sums_of options) k = Some x" by (metis map_of_eq_None_iff not_None_eq set_map)
    from sums_of_claims [OF this] obtain name opt where
      opt: "(name, opt) \<in> set options" "dopt_type opt = SUM_TYPE" "sum_target opt = k" by blast
    then have "k \<in> set (all_claimed options)" using claimed_listed [OF opt(1)] by (auto simp: claimed_def)
    with unclaimed show False by simp
  qed
  ultimately have "map_of final k = number_in (client_part options requested) k"
    using add_sums_other exact_numbers_lookup [OF distinct_client_part [OF keys]] by (metis final)
  then show ?thesis using False by (simp add: out number_in_def write_derived_lookup client_part_lookup del: set_map)
qed

text \<open>The client's part is all the computation reads of the limits it is given.\<close>

lemma compute_reads_client_part:
  assumes "derived_components options \<noteq> []" and "client_part options r = client_part options r'"
  shows "compute_derived_limits options attributes r comps fallback = compute_derived_limits options attributes r' comps fallback"
  unfolding compute_derived_limits_def Let_def
  by (simp only: assms(1) assms(2) [unfolded client_part_def] if_False)

lemma client_part_set:
  "c \<in> set (map fst (derived_components options)) \<Longrightarrow> client_part options (dict_set c v d) = client_part options d"
  unfolding client_part_def by (induction c v d rule: dict_set.induct) (simp_all del: set_map)

lemma client_part_idem: "client_part options (client_part options d) = client_part options d"
  by (simp add: client_part_def)

lemma client_part_written:
  "set cs \<subseteq> set (map fst (derived_components options)) \<Longrightarrow>
     client_part options (foldl (write_derived exact) d cs) = client_part options d"
proof (induction cs arbitrary: d)
  case (Cons c cs)
  have "client_part options (write_derived exact d c) = client_part options d"
    using Cons.prems by (simp add: write_derived_def client_part_set del: set_map split: option.split)
  then show ?case using Cons by simp
qed simp

lemma nothing_derived: "derived_components options = [] \<Longrightarrow>
    compute_derived_limits options attributes requested comps fallback = Inr requested"
  by (simp add: compute_derived_limits_def)

end
