(* ===== verification/Derived_Limit_Properties.thy ===== *)
theory Derived_Limit_Properties
  imports Derived_Limit_Facts
begin

text \<open>
  The claims about derived limits: the server owns them, a sum is the rounded sum of what is returned, a formula
  is evaluated and rounded up, and computing again changes nothing.  The last section is what
  \<^verbatim>\<open>marketplace/utils.py\<close> builds on them for a resource.
\<close>

lemma computed_again:
  assumes "compute_derived_limits options attributes requested comps fallback = Inr out"
  shows "compute_derived_limits options attributes out comps fallback = Inr out"
proof (cases "derived_components options = []")
  case True
  then show ?thesis by (simp add: nothing_derived)
next
  case False
  from computed [OF assms False] obtain e where
    "out = foldl (write_derived e) (client_part options requested) (map fst (derived_components options))" by metis
  then have "client_part options out = client_part options requested"
    using client_part_written client_part_idem by (metis subset_refl)
  with compute_reads_client_part [OF False this] assms show ?thesis by simp
qed

lemma sum_computed:
  assumes saved: "saved_options options" and keys: "distinct (map fst requested)"
    and run: "compute_derived_limits options attributes requested comps fallback = Inr out"
    and opt: "(name, opt) \<in> set options" "dopt_type opt = SUM_TYPE"
    and present: "List.map_filter (number_in out) (sum_components opt) \<noteq> []"
  shows "number_in out (sum_target opt) =
    Some (round_up (sum_list (List.map_filter (number_in out) (sum_components opt))) (map_of comps (sum_target opt)))"
proof -
  have "sum_target opt \<in> set (all_claimed options)"
    using claimed_listed [OF opt(1)] opt(2) by (auto simp: claimed_def)
  then have "derived_components options \<noteq> []" using saved_derived [OF saved] by auto
  from computed [OF run this] obtain exact ord where
    phases: "rfold (derive_formula comps attributes) (exact_numbers (client_part options requested)) options = Inr exact"
      "sum_order options = Inr ord"
      "out = foldl (write_derived (foldl (add_sum comps)
        (foldl (keep_fallback fallback) exact (map fst (derived_components options))) ord))
        (client_part options requested) (map fst (derived_components options))" .
  let ?e = "foldl (keep_fallback fallback) exact (map fst (derived_components options))"
  have numbers: "number_in out = map_of (foldl (add_sum comps) ?e ord)"
    using computed_numbers [OF saved keys phases(1,2) refl phases(3)] by (rule ext)
  note order = sum_order_lists [OF phases(2)]
  have entry: "(sum_target opt, sum_components opt) \<in> set ord"
  proof -
    note row = sums_of_option [OF saved opt]
    then have "sum_target opt \<in> set (map fst ord)" using order(2) table_key by metis
    then obtain cs where cs: "(sum_target opt, cs) \<in> set ord" by auto
    then obtain xs ys where "ord = xs @ (sum_target opt, cs) # ys" by (auto simp: in_set_conv_decomp)
    then have "cs = sum_components opt" using sources_first_split(1) order(1) row by fastforce
    with cs show ?thesis by simp
  qed
  from add_sums_set [OF order entry, of comps ?e] present show ?thesis
    unfolding numbers present_values_def .
qed


lemma client_limits_kept:
  assumes "compute_derived_limits options attributes requested comps fallback = Inr out"
    and "k \<notin> set (map fst (derived_components options))"
  shows "map_of out k = map_of requested k"
proof (cases "derived_components options = []")
  case True
  then show ?thesis using assms(1) by (simp add: nothing_derived)
next
  case False
  from computed [OF assms(1) False] obtain e where
    "out = foldl (write_derived e) (client_part options requested) (map fst (derived_components options))" by metis
  then show ?thesis using assms(2) by (simp only: write_derived_lookup client_part_lookup) simp
qed


subsection \<open>An offering with a formula and a sum\<close>

definition seats_option :: derived_option where
  "seats_option = \<lparr>dopt_type = FORMULA_TYPE, formula_targets = [(''cpu'', ''input * 2''), (''ram'', ''(input + 1) / 8'')],
     sum_target = [], sum_components = [], dopt_default = JNull, dopt_min = Some 1, dopt_max = Some 100\<rparr>"

definition units_option :: derived_option where
  "units_option = \<lparr>dopt_type = SUM_TYPE, formula_targets = [], sum_target = ''units'',
     sum_components = [''cpu'', ''ram'', ''gpu''], dopt_default = JNull, dopt_min = None, dopt_max = None\<rparr>"

definition lab_options :: derived_options where
  "lab_options = [(''seats'', seats_option), (''units'', units_option)]"

definition lab_places :: decimal_places where
  "lab_places = [(''cpu'', 0), (''ram'', 1), (''gpu'', 0), (''units'', 0)]"

definition lab_limits :: "(string, json) dict" where
  "lab_limits = [(''gpu'', JNum 1), (''cpu'', JNum 99)]"

lemma lab_saved: "saved_options lab_options"
  by code_simp

lemma lab_computed:
  "compute_derived_limits lab_options [(''seats'', JNum 3)] lab_limits lab_places [] =
     Inr [(''gpu'', JNum 1), (''cpu'', JNum 6), (''ram'', JNum (1 / 2)), (''units'', JNum 8)]"
  by code_simp

text \<open>C16. A client cannot set a derived limit: whatever it sends for a component that an option derives, the
  computation behaves, on success and on every error, as if nothing had been sent for it.\<close>

theorem client_cannot_set_derived:
  assumes "c \<in> set (map fst (derived_components options))"
  shows "compute_derived_limits options attributes (dict_set c v requested) comps fallback =
    compute_derived_limits options attributes requested comps fallback"
proof (rule compute_reads_client_part)
  show "derived_components options \<noteq> []" using assms by auto
qed (rule client_part_set [OF assms])

theorem client_cannot_set_derived_witness:
  "compute_derived_limits lab_options [(''seats'', JNum 3)] (dict_set ''cpu'' (JNum 0) lab_limits) lab_places [] =
     Inr [(''gpu'', JNum 1), (''cpu'', JNum 6), (''ram'', JNum (1 / 2)), (''units'', JNum 8)]"
proof -
  have "''cpu'' \<in> set (map fst (derived_components lab_options))" by code_simp
  from client_cannot_set_derived [OF this] show ?thesis using lab_computed by simp
qed

text \<open>C17. What is returned adds up: when the options were saved through the serializers and a run succeeds,
  the value of a sum's component is the sum, rounded up to the component's decimals, of the numbers returned for
  the components it reads, whether the client chose them, a formula or another sum set them, or they were kept;
  what no option derives is returned as it came, and computing again from the result returns it unchanged.\<close>

theorem returned_limits_add_up:
  assumes "saved_options options" and "distinct (map fst requested)"
    and "compute_derived_limits options attributes requested comps fallback = Inr out"
    and "(name, opt) \<in> set options" and "dopt_type opt = SUM_TYPE"
    and "List.map_filter (number_in out) (sum_components opt) \<noteq> []"
    and "k \<notin> set (map fst (derived_components options))"
  shows "number_in out (sum_target opt) = Some (round_up
      (sum_list (List.map_filter (number_in out) (sum_components opt))) (map_of comps (sum_target opt))) \<and>
    map_of out k = map_of requested k \<and>
    compute_derived_limits options attributes out comps fallback = Inr out"
  using sum_computed [OF assms(1-6)] computed_again [OF assms(3)] client_limits_kept [OF assms(3,7)] by auto

theorem returned_limits_add_up_witness:
  "number_in [(''gpu'', JNum 1), (''cpu'', JNum 6), (''ram'', JNum (1 / 2)), (''units'', JNum 8)] ''units'' =
     Some (round_up (6 + 1 / 2 + 1) (Some 0))"
proof -
  let ?out = "[(''gpu'', JNum 1), (''cpu'', JNum 6), (''ram'', JNum (1 / 2)), (''units'', JNum 8)]"
  have numbers: "List.map_filter (number_in ?out) (sum_components units_option) = [6, 1 / 2, 1]" by code_simp
  have option: "(''units'', units_option) \<in> set lab_options" "dopt_type units_option = SUM_TYPE" "distinct (map fst lab_limits)"
    "sum_target units_option = ''units''" "''gpu'' \<notin> set (map fst (derived_components lab_options))"
    "map_of lab_places ''units'' = Some 0"
    by code_simp+
  have some: "List.map_filter (number_in ?out) (sum_components units_option) \<noteq> []" using numbers by simp
  from returned_limits_add_up [OF lab_saved option(3) lab_computed option(1,2) some option(5)]
  show ?thesis using numbers option(4,6) by (simp add: add.assoc)
qed



subsection \<open>A resource's inputs\<close>

text \<open>The form of an offering as \<^verbatim>\<open>marketplace/utils.py\<close> reads it.\<close>

record order_form =
  form_order_options :: derived_options
  form_resource_options :: derived_options

definition take_named :: "string list \<Rightarrow> (string, json) dict \<Rightarrow> (string, json) dict \<Rightarrow> (string, json) dict" where
  "take_named names given inputs =
     fold (\<lambda>name d. case map_of given name of Some v \<Rightarrow> dict_set name v d | None \<Rightarrow> d) names inputs"

definition derived_limit_inputs :: "order_form \<Rightarrow> resource \<Rightarrow> (string, json) dict \<Rightarrow> (string, json) dict" where
  "derived_limit_inputs form r new_options =
     (let paired = paired_resource_options (form_resource_options form) (form_order_options form)
      in take_named paired new_options (take_named paired (res_options r) (res_attributes r)))"

definition copy_order_attributes_to_resource :: "order \<Rightarrow> resource \<Rightarrow> resource" where
  "copy_order_attributes_to_resource o1 r = r\<lparr>res_attributes := order_attributes o1\<rparr>"

text \<open>\<open>limit_decimal_places\<close> of a component is an argument; the limit components are those of the plan's mode.\<close>

definition apply_derived_limits ::
    "order_form \<Rightarrow> offering_data \<Rightarrow> (string \<Rightarrow> nat) \<Rightarrow> (string, json) dict \<Rightarrow> (string, json) dict \<Rightarrow> plan option \<Rightarrow> limits \<Rightarrow>
       (derived_error, (string, json) dict) result" where
  "apply_derived_limits form off limit_decimal_places requested attributes p fallback =
     (let options = form_order_options form
      in if derived_components options = [] then Inr requested
         else compute_derived_limits options attributes requested
           (map (\<lambda>(c, _). (c, limit_decimal_places c))
             (limit_components (case p of Some q \<Rightarrow> resolve_plan off q | None \<Rightarrow> resolve_offering off)))
           fallback)"

lemma take_named_lookup:
  "map_of (take_named names given inputs) k =
     (if k \<in> set names \<and> map_of given k \<noteq> None then map_of given k else map_of inputs k)"
  unfolding take_named_def
proof (induction names arbitrary: inputs)
  case (Cons n names)
  then show ?case by (auto split: option.splits)
qed simp

text \<open>The inputs of a resource's formulas come from where they were last decided: for a formula option the
  customer may change, from the order's change, else from the resource's options, else from what was ordered;
  for any other name only from what was ordered, so an option edited without an order cannot move a limit.\<close>

theorem inputs_come_from_orders:
  "map_of (derived_limit_inputs form r new_options) k =
     (if k \<in> set (paired_resource_options (form_resource_options form) (form_order_options form))
      then (case map_of new_options k of
              Some v \<Rightarrow> Some v
            | None \<Rightarrow> (case map_of (res_options r) k of Some v \<Rightarrow> Some v | None \<Rightarrow> map_of (res_attributes r) k))
      else map_of (res_attributes r) k)"
  by (auto simp: derived_limit_inputs_def Let_def take_named_lookup split: option.split)

end
