(* ===== verification/Workflow_Model.thy ===== *)
theory Workflow_Model
  imports Effects
begin

text \<open>
  The review workflow of a proposal, \<^verbatim>\<open>waldur_mastermind/proposal/workflow_service.py\<close>, with the catalogue of
  steps and outcomes of \<open>enums.py\<close>, the ledger of notifications of \<open>notification_rules.py\<close> and the guard of
  \<open>allocate_proposal\<close> in \<open>utils.py\<close>.  The state is one proposal with its step instances, reviews and checklist
  completions, the projects created for it and the mail queued.  What the proposal reads live from its call
  (steps, notification rules) and the clock are an argument, so that every operation may see another
  configuration.  A raise leaves the state as it was: every operation runs in a transaction.
\<close>

subsection \<open>The catalogue\<close>

datatype step_id = ADMINISTRATIVE_CHECK | TECHNICAL_ASSESSMENT | EXPERT_REVIEW | PANEL_REVIEW
  | ALLOCATION_DECISION | AWARD_RESPONSE

definition WORKFLOW_STEPS :: "step_id list" where
  "WORKFLOW_STEPS = [ADMINISTRATIVE_CHECK, TECHNICAL_ASSESSMENT, EXPERT_REVIEW, PANEL_REVIEW, ALLOCATION_DECISION,
     AWARD_RESPONSE]"

datatype step_status = STEP_PENDING | STEP_ACTIVE | STEP_COMPLETED | STEP_EXPIRED | STEP_SKIPPED

datatype step_outcome = ELIGIBLE | INELIGIBLE | FEASIBLE | INFEASIBLE | REVIEWED | APPROVED | DECLINED | ACCEPTED_AWARD
  | OUT_REJECTED | OUT_EXPIRED

definition SYSTEM_RESERVED :: "step_outcome list" where
  "SYSTEM_RESERVED = [OUT_REJECTED, OUT_EXPIRED]"

definition NEGATIVE_OUTCOMES :: "step_outcome list" where
  "NEGATIVE_OUTCOMES = [INELIGIBLE, INFEASIBLE, DECLINED]"

fun STEP_ALLOW_LIST :: "step_id \<Rightarrow> step_outcome list" where
  "STEP_ALLOW_LIST ADMINISTRATIVE_CHECK = [ELIGIBLE, INELIGIBLE]"
| "STEP_ALLOW_LIST TECHNICAL_ASSESSMENT = [FEASIBLE, INFEASIBLE]"
| "STEP_ALLOW_LIST EXPERT_REVIEW = [REVIEWED]"
| "STEP_ALLOW_LIST PANEL_REVIEW = [APPROVED, DECLINED]"
| "STEP_ALLOW_LIST ALLOCATION_DECISION = [APPROVED, DECLINED]"
| "STEP_ALLOW_LIST AWARD_RESPONSE = [ACCEPTED_AWARD, DECLINED]"

datatype proposal_state = PROP_DRAFT | PROP_SUBMITTED | PROP_IN_REVIEW | PROP_ACCEPTED | PROP_REJECTED | PROP_CANCELED

datatype step_trigger = STEP_STARTED | STEP_DONE | STEP_REJECTED | STEP_LAPSED

datatype transition_mode = AUTOMATIC_ON_COMPLETION | MANUAL

datatype responsible_role = ROLE_CALL_MANAGER | ROLE_OFFERING_MANAGER | ROLE_REVIEWER | ROLE_PANEL_MEMBER | ROLE_APPLICANT

subsection \<open>Rows\<close>

text \<open>\<open>CallWorkflowStep\<close>: the configuration of a step in a call.\<close>

record call_step =
  cs_step :: step_id
  cs_is_enabled :: bool
  cs_duration_in_days :: "nat option"
  cs_checklist :: "nat option"
  cs_checklist_required :: bool
  cs_min_reviewers :: "nat option"
  cs_min_score_threshold :: "rat option"
  cs_transition_mode :: transition_mode
  cs_responsible_role :: "responsible_role option"
  cs_include_award_response :: bool

text \<open>\<open>ProposalWorkflowStepInstance\<close>; times are seconds, users and rows are named by their numbers.\<close>

record step_instance =
  si_uuid :: nat
  si_step :: step_id
  si_status :: step_status
  si_outcome :: "step_outcome option"
  si_outcome_reason :: string
  si_started_at :: "int option"
  si_completed_at :: "int option"
  si_completed_by :: "nat option"
  si_deadline :: "int option"
  si_sent_notifications :: "step_trigger list"
  si_internal_notes :: string

datatype review_state = REV_IN_REVIEW | REV_SUBMITTED | REV_REJECTED

record review =
  rev_state :: review_state
  rev_summary_score :: "rat option"

text \<open>A completion of a checklist holds how many of its required questions are still unanswered.\<close>

record proposal =
  prop_state :: proposal_state
  prop_workflow_step :: "step_id option"
  prop_project :: "nat option"
  prop_approved_by :: "nat option"
  prop_created_by :: "nat option"
  prop_submitted_at :: "int option"
  prop_instances :: "step_instance list"
  prop_reviews :: "review list"
  prop_completions :: "(nat \<times> nat) list"

record review_world =
  the_proposal :: proposal
  projects_created :: "nat list"
  mail_queue :: "(nat \<times> step_trigger) list"

record call_config =
  cc_steps :: "call_step list"
  cc_rules :: "(step_id \<times> step_trigger) list"
  cc_evaluates_on_submission :: bool
  cc_required_questions :: "nat \<Rightarrow> nat"
  cc_robot :: nat
  cc_now :: int

datatype workflow_error = Value_error string | Integrity_error | Conflict string | Bad_request string | Denied

type_synonym 'a reviewing = "review_world \<Rightarrow> (workflow_error, 'a \<times> review_world) result"

subsection \<open>Reading and writing\<close>

definition call_step_of :: "call_config \<Rightarrow> step_id \<Rightarrow> call_step option" where
  "call_step_of call s = List.find (\<lambda>cs. cs_step cs = s) (cc_steps call)"

definition instances_of :: "review_world \<Rightarrow> step_instance list" where
  "instances_of w = prop_instances (the_proposal w)"

definition instance_of :: "review_world \<Rightarrow> step_id \<Rightarrow> step_instance option" where
  "instance_of w s = List.find (\<lambda>i. si_step i = s) (instances_of w)"

definition set_proposal :: "(proposal \<Rightarrow> proposal) \<Rightarrow> review_world \<Rightarrow> review_world" where
  "set_proposal f w = w\<lparr>the_proposal := f (the_proposal w)\<rparr>"

text \<open>
  \<open>instance.save\<close> writes the fields back to the row of the instance's step (the pair of proposal and step is
  unique); a second active row of the proposal violates \<open>unique_active_workflow_step_per_proposal\<close>.
\<close>

definition write_instance :: "step_instance \<Rightarrow> review_world \<Rightarrow> review_world" where
  "write_instance i =
     set_proposal (\<lambda>p. p\<lparr>prop_instances := map (\<lambda>j. if si_step j = si_step i then i else j) (prop_instances p)\<rparr>)"

definition save_instance :: "step_instance \<Rightarrow> review_world \<Rightarrow> (workflow_error, review_world) result" where
  "save_instance i w =
     (let w' = write_instance i w
      in if length (filter (\<lambda>j. si_status j = STEP_ACTIVE) (instances_of w')) > 1 then Inl Integrity_error else Inr w')"

definition merge_notes :: "string \<Rightarrow> string \<Rightarrow> string" where
  "merge_notes existing addition =
     (if existing = [] then addition else existing @ [CHR 0x0A, CHR 0x0A] @ addition)"

definition add_notes :: "string \<Rightarrow> step_instance \<Rightarrow> step_instance" where
  "add_notes notes i =
     (if notes = [] then i else i\<lparr>si_internal_notes := merge_notes (si_internal_notes i) notes\<rparr>)"

text \<open>\<open>dispatch_step_event\<close>: nothing without a rule, nothing twice.  The mail is queued on commit.\<close>

definition dispatch_step_event :: "call_config \<Rightarrow> step_id \<Rightarrow> step_trigger \<Rightarrow> review_world \<Rightarrow> review_world" where
  "dispatch_step_event call s trigger w =
     (case instance_of w s of
        None \<Rightarrow> w
      | Some i \<Rightarrow>
          if (s, trigger) \<notin> set (cc_rules call) then w
          else if trigger \<in> set (si_sent_notifications i) then w
          else (write_instance (i\<lparr>si_sent_notifications := si_sent_notifications i @ [trigger]\<rparr>) w)
                 \<lparr>mail_queue := mail_queue w @ [(si_uuid i, trigger)]\<rparr>)"

subsection \<open>Moving along the catalogue\<close>

definition pending_steps :: "review_world \<Rightarrow> step_id list" where
  "pending_steps w = map si_step (filter (\<lambda>i. si_status i = STEP_PENDING) (instances_of w))"

definition next_enabled_step :: "review_world \<Rightarrow> step_id \<Rightarrow> step_id option" where
  "next_enabled_step w current =
     List.find (\<lambda>s. s \<in> set (pending_steps w)) (tl (dropWhile (\<lambda>s. s \<noteq> current) WORKFLOW_STEPS))"

definition first_pending_step :: "review_world \<Rightarrow> step_id option" where
  "first_pending_step w = List.find (\<lambda>s. s \<in> set (pending_steps w)) WORKFLOW_STEPS"

definition ensure_completion :: "call_config \<Rightarrow> nat \<Rightarrow> review_world \<Rightarrow> review_world" where
  "ensure_completion call c w =
     (if c \<in> set (map fst (prop_completions (the_proposal w))) then w
      else set_proposal (\<lambda>p. p\<lparr>prop_completions := prop_completions p @ [(c, cc_required_questions call c)]\<rparr>) w)"

definition started_instance :: "call_config \<Rightarrow> step_instance \<Rightarrow> step_instance" where
  "started_instance call i =
     (let j = i\<lparr>si_status := STEP_ACTIVE, si_started_at := Some (cc_now call)\<rparr>
      in case call_step_of call (si_step i) of
           None \<Rightarrow> j
         | Some cs \<Rightarrow>
             (case cs_duration_in_days cs of
                None \<Rightarrow> j
              | Some d \<Rightarrow> if d = 0 then j else j\<lparr>si_deadline := Some (cc_now call + 86400 * int d)\<rparr>))"

definition activate_next_step :: "call_config \<Rightarrow> step_id \<Rightarrow> review_world \<Rightarrow> (workflow_error, review_world) result" where
  "activate_next_step call s w =
     (case instance_of w s of
        None \<Rightarrow> Inl (Value_error ''DoesNotExist'')
      | Some i \<Rightarrow>
          (let w1 = (case call_step_of call s of
                       None \<Rightarrow> w
                     | Some cs \<Rightarrow> (case cs_checklist cs of None \<Rightarrow> w | Some c \<Rightarrow> ensure_completion call c w))
           in rbind (save_instance (started_instance call i) w1)
                (\<lambda>w2. Inr (dispatch_step_event call s STEP_STARTED w2))))"

definition enabled_step :: "call_config \<Rightarrow> step_id \<Rightarrow> bool" where
  "enabled_step call s \<longleftrightarrow> list_ex (\<lambda>cs. cs_step cs = s \<and> cs_is_enabled cs) (cc_steps call)"

text \<open>\<open>uuids\<close> are the identifiers the new rows get, one per step of the catalogue.\<close>

definition new_instance :: "call_config \<Rightarrow> step_id \<Rightarrow> nat \<Rightarrow> step_instance" where
  "new_instance call s u =
     \<lparr>si_uuid = u, si_step = s, si_status = (if enabled_step call s then STEP_PENDING else STEP_SKIPPED),
      si_outcome = None, si_outcome_reason = [], si_started_at = None, si_completed_at = None, si_completed_by = None,
      si_deadline = None, si_sent_notifications = [], si_internal_notes = []\<rparr>"

definition create_step_instances :: "call_config \<Rightarrow> (step_id \<Rightarrow> nat) \<Rightarrow> review_world \<Rightarrow> (workflow_error, review_world) result" where
  "create_step_instances call uuids w =
     (if list_ex (\<lambda>s. instance_of w s \<noteq> None) WORKFLOW_STEPS then Inl Integrity_error
      else Inr (set_proposal (\<lambda>p. p\<lparr>prop_instances := prop_instances p @
             map (\<lambda>s. new_instance call s (uuids s)) WORKFLOW_STEPS\<rparr>) w))"

definition activate_first_step :: "call_config \<Rightarrow> review_world \<Rightarrow> (workflow_error, step_id option \<times> review_world) result" where
  "activate_first_step call w =
     (case first_pending_step w of
        None \<Rightarrow> Inr (None, w)
      | Some s \<Rightarrow>
          rbind (activate_next_step call s w) (\<lambda>w1.
            Inr (Some s, set_proposal (\<lambda>p. p\<lparr>prop_state := PROP_IN_REVIEW, prop_workflow_step := Some s\<rparr>) w1)))"

subsection \<open>Allocation and the next step\<close>

text \<open>
  \<open>allocate_proposal\<close>, as far as the workflow sees it: nothing for a proposal that has a project; otherwise a
  new project, whose number is given, and the approver.  The resources and orders it places are not modelled.
\<close>

definition allocate_proposal :: "nat \<Rightarrow> nat \<Rightarrow> review_world \<Rightarrow> review_world" where
  "allocate_proposal project approver w =
     (if prop_project (the_proposal w) \<noteq> None then w
      else (set_proposal (\<lambda>p. p\<lparr>prop_project := Some project, prop_approved_by := Some approver\<rparr>) w)
             \<lparr>projects_created := projects_created w @ [project]\<rparr>)"

definition close_proposal :: "proposal_state \<Rightarrow> review_world \<Rightarrow> review_world" where
  "close_proposal st = set_proposal (\<lambda>p. p\<lparr>prop_state := st, prop_workflow_step := None\<rparr>)"

definition advance_to_next :: "call_config \<Rightarrow> nat \<Rightarrow> step_id \<Rightarrow> nat option \<Rightarrow> step_id option reviewing" where
  "advance_to_next call project from_step acting_user w =
     (case next_enabled_step w from_step of
        None \<Rightarrow>
          (let approver = (case acting_user of Some u \<Rightarrow> u | None \<Rightarrow> cc_robot call);
               w1 = (if prop_project (the_proposal w) = None then allocate_proposal project approver w else w)
           in Inr (None, close_proposal PROP_ACCEPTED (set_proposal (\<lambda>p. p\<lparr>prop_approved_by := Some approver\<rparr>) w1)))
      | Some s \<Rightarrow>
          rbind (activate_next_step call s (set_proposal (\<lambda>p. p\<lparr>prop_workflow_step := Some s\<rparr>) w))
            (\<lambda>w1. Inr (Some s, w1)))"

subsection \<open>Completing, rejecting, expiring\<close>

definition submitted_reviews :: "review_world \<Rightarrow> review list" where
  "submitted_reviews w = filter (\<lambda>r. rev_state r = REV_SUBMITTED) (prop_reviews (the_proposal w))"

text \<open>The average over the submitted reviews that have a score, as SQL's \<open>AVG\<close>; \<open>None\<close> when there are none.\<close>

definition average_score :: "review_world \<Rightarrow> rat option" where
  "average_score w =
     (let scores = List.map_filter rev_summary_score (submitted_reviews w)
      in if scores = [] then None else Some (sum_list scores / of_nat (length scores)))"

definition unanswered_questions :: "call_config \<Rightarrow> nat \<Rightarrow> review_world \<Rightarrow> nat" where
  "unanswered_questions call c w =
     (case map_of (prop_completions (the_proposal w)) c of None \<Rightarrow> cc_required_questions call c | Some n \<Rightarrow> n)"

definition enforce_step_gates :: "call_config \<Rightarrow> step_outcome \<Rightarrow> call_step option \<Rightarrow> review_world \<Rightarrow> (workflow_error, unit) result" where
  "enforce_step_gates call outcome step w =
     (case step of
        None \<Rightarrow> Inr ()
      | Some cs \<Rightarrow>
          if outcome = DECLINED then Inr ()
          else if (case cs_checklist cs of None \<Rightarrow> False
                   | Some c \<Rightarrow> cs_checklist_required cs \<and> unanswered_questions call c w \<noteq> 0)
          then Inl (Value_error ''required checklist questions are unanswered'')
          else if (case cs_min_reviewers cs of None \<Rightarrow> False | Some n \<Rightarrow> length (submitted_reviews w) < n)
          then Inl (Value_error ''required reviews have not been submitted'')
          else if (case cs_min_score_threshold cs of None \<Rightarrow> False
                   | Some t \<Rightarrow> (case average_score w of None \<Rightarrow> True | Some a \<Rightarrow> a < t))
          then Inl (Value_error ''the average review score is below the required minimum'')
          else Inr ())"

definition completed_instance ::
    "call_config \<Rightarrow> step_outcome \<Rightarrow> string \<Rightarrow> nat \<Rightarrow> string \<Rightarrow> step_instance \<Rightarrow> step_instance" where
  "completed_instance call outcome reason user notes i =
     add_notes notes (i\<lparr>si_status := STEP_COMPLETED, si_outcome := Some outcome, si_outcome_reason := reason,
       si_completed_at := Some (cc_now call), si_completed_by := Some user\<rparr>)"

definition complete_step ::
    "call_config \<Rightarrow> nat \<Rightarrow> step_instance \<Rightarrow> step_outcome \<Rightarrow> string \<Rightarrow> nat \<Rightarrow> string \<Rightarrow> step_id option reviewing" where
  "complete_step call project i outcome reason user notes w =
     (let step = call_step_of call (si_step i)
      in rbind (enforce_step_gates call outcome step w) (\<lambda>_.
         rbind (save_instance (completed_instance call outcome reason user notes i) w) (\<lambda>w1.
         let w2 = dispatch_step_event call (si_step i)
               (if outcome \<in> set NEGATIVE_OUTCOMES then STEP_REJECTED else STEP_DONE) w1
         in if outcome \<in> set NEGATIVE_OUTCOMES then
              Inr (None, close_proposal
                (if outcome = DECLINED \<and> si_step i = AWARD_RESPONSE then PROP_CANCELED else PROP_REJECTED) w2)
            else if (case step of None \<Rightarrow> False | Some cs \<Rightarrow> cs_transition_mode cs = MANUAL) then Inr (None, w2)
            else advance_to_next call project (si_step i) (Some user) w2)))"

definition is_awaiting_manual_advance :: "call_config \<Rightarrow> review_world \<Rightarrow> bool" where
  "is_awaiting_manual_advance call w =
     (case prop_workflow_step (the_proposal w) of
        None \<Rightarrow> False
      | Some s \<Rightarrow>
          (case instance_of w s of
             None \<Rightarrow> False
           | Some i \<Rightarrow> si_status i = STEP_COMPLETED \<and>
               (case call_step_of call s of None \<Rightarrow> False | Some cs \<Rightarrow> cs_transition_mode cs = MANUAL)))"

definition advance_step :: "call_config \<Rightarrow> nat \<Rightarrow> nat option \<Rightarrow> step_id option reviewing" where
  "advance_step call project acting_user w =
     (if \<not> is_awaiting_manual_advance call w then Inl (Value_error ''Workflow is not awaiting manual advance.'')
      else advance_to_next call project (the (prop_workflow_step (the_proposal w))) acting_user w)"

definition reject_at_step ::
    "call_config \<Rightarrow> step_instance \<Rightarrow> string \<Rightarrow> nat \<Rightarrow> string \<Rightarrow> review_world \<Rightarrow> (workflow_error, review_world) result" where
  "reject_at_step call i reason user notes w =
     rbind (save_instance (completed_instance call OUT_REJECTED reason user notes i) w) (\<lambda>w1.
       Inr (close_proposal PROP_REJECTED (dispatch_step_event call (si_step i) STEP_REJECTED w1)))"

definition expire_step :: "call_config \<Rightarrow> step_instance \<Rightarrow> step_id option reviewing" where
  "expire_step call i w =
     rbind (save_instance (i\<lparr>si_status := STEP_EXPIRED, si_outcome := Some OUT_EXPIRED,
         si_completed_at := Some (cc_now call)\<rparr>) w) (\<lambda>w1.
       let w2 = dispatch_step_event call (si_step i) STEP_LAPSED w1
       in case next_enabled_step w2 (si_step i) of
            None \<Rightarrow> Inr (None, close_proposal PROP_REJECTED w2)
          | Some s \<Rightarrow>
              rbind (activate_next_step call s (set_proposal (\<lambda>p. p\<lparr>prop_workflow_step := Some s\<rparr>) w2))
                (\<lambda>w3. Inr (Some s, w3)))"

end
