(* ===== verification/Workflow_Endpoints.thy ===== *)
theory Workflow_Endpoints
  imports Workflow_Model
begin

text \<open>
  Who drives the workflow: the endpoints \<open>submit\<close>, \<open>complete_workflow_step\<close>, \<open>reject_workflow_step\<close> and
  \<open>advance_workflow_step\<close> of \<^verbatim>\<open>proposal/views.py\<close> with the permission checks of \<open>permissions.py\<close>, and the two
  periodic tasks of \<open>tasks.py\<close>.  Requests take the proposal's row lock, so they are steps one after the other;
  \<open>workflow_step\<close> is the relation of all of them, each with any configuration of the call at that moment and
  any change of the reviews and checklist answers in between.
\<close>

record actor =
  act_pk :: nat
  act_is_staff :: bool
  act_call_roles :: "responsible_role list"
  act_manages_requested_offering :: bool

subsection \<open>Permissions\<close>

definition active_instance :: "review_world \<Rightarrow> step_instance option" where
  "active_instance w = List.find (\<lambda>i. si_status i = STEP_ACTIVE) (instances_of w)"

definition user_can_act_on_active_step :: "call_config \<Rightarrow> actor \<Rightarrow> review_world \<Rightarrow> bool" where
  "user_can_act_on_active_step call u w =
     (if act_is_staff u then True
      else case active_instance w of
             None \<Rightarrow> True
           | Some i \<Rightarrow>
               (case call_step_of call (si_step i) of
                  None \<Rightarrow> True
                | Some cs \<Rightarrow>
                    (case cs_responsible_role cs of
                       None \<Rightarrow> True
                     | Some role \<Rightarrow>
                         if role = ROLE_APPLICANT then prop_created_by (the_proposal w) = Some (act_pk u)
                         else if ROLE_CALL_MANAGER \<in> set (act_call_roles u) then True
                         else if role = ROLE_OFFERING_MANAGER then act_manages_requested_offering u
                         else role \<in> set (act_call_roles u))))"

definition user_can_view_internal_notes :: "actor \<Rightarrow> review_world \<Rightarrow> bool" where
  "user_can_view_internal_notes u w =
     (if act_is_staff u then True
      else if Some (act_pk u) = prop_created_by (the_proposal w) then False
      else act_call_roles u \<noteq> [])"

definition can_advance_workflow_step :: "actor \<Rightarrow> bool" where
  "can_advance_workflow_step u \<longleftrightarrow> act_is_staff u \<or> ROLE_CALL_MANAGER \<in> set (act_call_roles u)"

subsection \<open>Endpoints\<close>

text \<open>\<open>ready\<close>: the round is open and details, amounts and purchase orders are there; \<open>team\<close>: somebody has a role.\<close>

definition submit :: "call_config \<Rightarrow> (step_id \<Rightarrow> nat) \<Rightarrow> actor \<Rightarrow> bool \<Rightarrow> bool \<Rightarrow> unit reviewing" where
  "submit call uuids u ready team w =
     (if \<not> (act_is_staff u \<or> prop_created_by (the_proposal w) = Some (act_pk u)) then Inl Denied
      else if prop_state (the_proposal w) \<noteq> PROP_DRAFT then Inl (Conflict ''incorrect state'')
      else if \<not> ready then Inl (Bad_request ''proposal is not ready'')
      else if \<not> team then Inl (Bad_request ''Proposal must have a project team before submission.'')
      else rbind (create_step_instances call uuids
             (set_proposal (\<lambda>p. p\<lparr>prop_submitted_at := Some (cc_now call)\<rparr>) w)) (\<lambda>w1.
           rbind (if cc_evaluates_on_submission call then activate_first_step call w1 else Inr (None, w1)) (\<lambda>(started, w2).
             Inr ((), if started = None then set_proposal (\<lambda>p. p\<lparr>prop_state := PROP_SUBMITTED\<rparr>) w2 else w2))))"

text \<open>The instance the client means: of the current step, active, with its identifier.\<close>

definition locked_instance :: "review_world \<Rightarrow> nat \<Rightarrow> step_instance option" where
  "locked_instance w uuid =
     List.find (\<lambda>i. Some (si_step i) = prop_workflow_step (the_proposal w) \<and> si_status i = STEP_ACTIVE \<and> si_uuid i = uuid)
       (instances_of w)"

definition as_bad_request :: "(workflow_error, 'a) result \<Rightarrow> (workflow_error, 'a) result" where
  "as_bad_request r = (case r of Inl (Value_error m) \<Rightarrow> Inl (Bad_request m) | _ \<Rightarrow> r)"

definition as_conflict :: "(workflow_error, 'a) result \<Rightarrow> (workflow_error, 'a) result" where
  "as_conflict r = (case r of Inl (Value_error m) \<Rightarrow> Inl (Conflict m) | _ \<Rightarrow> r)"

definition valid_outcome :: "step_id \<Rightarrow> step_outcome \<Rightarrow> bool" where
  "valid_outcome s outcome \<longleftrightarrow> outcome \<notin> set SYSTEM_RESERVED \<and> outcome \<in> set (STEP_ALLOW_LIST s)"

definition complete_workflow_step ::
    "call_config \<Rightarrow> nat \<Rightarrow> actor \<Rightarrow> nat \<Rightarrow> step_outcome \<Rightarrow> string \<Rightarrow> string \<Rightarrow> step_id option reviewing" where
  "complete_workflow_step call project u uuid outcome reason notes w =
     (if \<not> user_can_act_on_active_step call u w then Inl Denied
      else if prop_state (the_proposal w) \<noteq> PROP_IN_REVIEW then Inl (Conflict ''Proposal must be in review state.'')
      else case prop_workflow_step (the_proposal w) of
             None \<Rightarrow> Inl (Bad_request ''Proposal has no active workflow step.'')
           | Some s \<Rightarrow>
               if \<not> valid_outcome s outcome then Inl (Bad_request ''not a valid outcome'')
               else case locked_instance w uuid of
                      None \<Rightarrow> Inl (Conflict ''Workflow step has changed; refresh and retry.'')
                    | Some i \<Rightarrow>
                        as_bad_request (complete_step call project i outcome reason (act_pk u)
                          (if user_can_view_internal_notes u w then notes else []) w))"

definition reject_workflow_step :: "call_config \<Rightarrow> actor \<Rightarrow> nat \<Rightarrow> string \<Rightarrow> string \<Rightarrow> unit reviewing" where
  "reject_workflow_step call u uuid reason notes w =
     (if \<not> user_can_act_on_active_step call u w then Inl Denied
      else if reason = [] then Inl (Bad_request ''reason'')
      else if prop_state (the_proposal w) \<noteq> PROP_IN_REVIEW then Inl (Conflict ''Proposal must be in review state.'')
      else case locked_instance w uuid of
             None \<Rightarrow> Inl (Conflict ''Workflow step has changed; refresh and retry.'')
           | Some i \<Rightarrow>
               rbind (reject_at_step call i reason (act_pk u)
                 (if user_can_view_internal_notes u w then notes else []) w) (\<lambda>w'. Inr ((), w')))"

definition advance_workflow_step :: "call_config \<Rightarrow> nat \<Rightarrow> actor \<Rightarrow> step_id option reviewing" where
  "advance_workflow_step call project u w =
     (if \<not> can_advance_workflow_step u then Inl Denied
      else if prop_state (the_proposal w) \<noteq> PROP_IN_REVIEW then Inl (Conflict ''Proposal must be in review state.'')
      else as_conflict (advance_step call project (Some (act_pk u)) w))"

subsection \<open>Tasks\<close>

definition keep_on_error :: "review_world \<Rightarrow> (workflow_error, 'a \<times> review_world) result \<Rightarrow> review_world" where
  "keep_on_error w r = (case r of Inl _ \<Rightarrow> w | Inr (_, w') \<Rightarrow> w')"

definition start_evaluation_for_closed_rounds :: "call_config \<Rightarrow> int \<Rightarrow> review_world \<Rightarrow> review_world" where
  "start_evaluation_for_closed_rounds call cutoff w =
     (if prop_state (the_proposal w) = PROP_SUBMITTED \<and> cutoff \<le> cc_now call \<and> pending_steps w \<noteq> [] \<and>
         active_instance w = None
      then keep_on_error w (activate_first_step call w) else w)"

definition is_overdue :: "call_config \<Rightarrow> step_instance \<Rightarrow> bool" where
  "is_overdue call i \<longleftrightarrow> si_status i = STEP_ACTIVE \<and> (case si_deadline i of None \<Rightarrow> False | Some d \<Rightarrow> d < cc_now call)"

definition expire_overdue :: "call_config \<Rightarrow> step_id \<Rightarrow> review_world \<Rightarrow> review_world" where
  "expire_overdue call s w =
     (case instance_of w s of
        Some i \<Rightarrow> if is_overdue call i then keep_on_error w (expire_step call i w) else w
      | None \<Rightarrow> w)"

definition mark_expired_workflow_steps :: "call_config \<Rightarrow> review_world \<Rightarrow> review_world" where
  "mark_expired_workflow_steps call w =
     fold (expire_overdue call) (map si_step (filter (is_overdue call) (instances_of w))) w"

subsection \<open>Everything that happens\<close>

text \<open>Reviews and checklist answers change outside the workflow; the workflow only reads them.\<close>

definition reviewers_at_work :: "review list \<Rightarrow> (nat \<times> nat) list \<Rightarrow> review_world \<Rightarrow> review_world" where
  "reviewers_at_work revs answers = set_proposal (\<lambda>p. p\<lparr>prop_reviews := revs, prop_completions := answers\<rparr>)"

inductive workflow_step :: "review_world \<Rightarrow> review_world \<Rightarrow> bool" where
  submitted: "submit call uuids u ready team w = Inr (x, w') \<Longrightarrow> workflow_step w w'"
| completed: "complete_workflow_step call project u uuid outcome reason notes w = Inr (y, w') \<Longrightarrow> workflow_step w w'"
| rejected: "reject_workflow_step call u uuid reason notes w = Inr (x, w') \<Longrightarrow> workflow_step w w'"
| advanced: "advance_workflow_step call project u w = Inr (y, w') \<Longrightarrow> workflow_step w w'"
| started: "workflow_step w (start_evaluation_for_closed_rounds call cutoff w)"
| lapsed: "workflow_step w (expire_overdue call s w)"
| reviewed: "workflow_step w (reviewers_at_work revs answers w)"

text \<open>A draft: nothing started, nothing allocated.\<close>

definition is_draft :: "review_world \<Rightarrow> bool" where
  "is_draft w \<longleftrightarrow> prop_state (the_proposal w) = PROP_DRAFT \<and> prop_workflow_step (the_proposal w) = None \<and>
     prop_project (the_proposal w) = None \<and> prop_instances (the_proposal w) = [] \<and> projects_created w = []"

end
