(* ===== verification/Workflow_Facts.thy ===== *)
theory Workflow_Facts
  imports Workflow_Endpoints
begin

text \<open>
  What the workflow does to the path of a proposal.  \<open>cores\<close> are the step, status and outcome of every instance;
  all other fields, the mail and the checklists do not move the path.  \<open>review_ok\<close> is the invariant: before the
  current step everything has ended, after it everything waits; a project exists exactly when the proposal is
  accepted, and at most one was created.  Every operation keeps it (\<open>workflow_step_ok\<close>).
\<close>

type_synonym core = "step_id \<times> step_status \<times> step_outcome option"

definition core :: "step_instance \<Rightarrow> core" where
  "core i = (si_step i, si_status i, si_outcome i)"

definition cores :: "review_world \<Rightarrow> core list" where
  "cores w = map core (instances_of w)"

definition put :: "core \<Rightarrow> core list \<Rightarrow> core list" where
  "put c = map (\<lambda>d. if fst d = fst c then c else d)"

subsection \<open>Operations on the path\<close>

lemma set_proposal_simps [simp]:
  "the_proposal (set_proposal f w) = f (the_proposal w)" "projects_created (set_proposal f w) = projects_created w"
  "mail_queue (set_proposal f w) = mail_queue w"
  by (simp_all add: set_proposal_def)

lemma write_instance_simps [simp]:
  "prop_state (the_proposal (write_instance i w)) = prop_state (the_proposal w)"
  "prop_workflow_step (the_proposal (write_instance i w)) = prop_workflow_step (the_proposal w)"
  "prop_project (the_proposal (write_instance i w)) = prop_project (the_proposal w)"
  "projects_created (write_instance i w) = projects_created w"
  by (simp_all add: write_instance_def)

lemma cores_write: "cores (write_instance i w) = put (core i) (cores w)"
  by (simp add: cores_def instances_of_def write_instance_def put_def core_def)

lemma find_instance: "instance_of w s = Some i \<Longrightarrow> i \<in> set (instances_of w) \<and> si_step i = s"
  by (auto simp: instance_of_def find_Some_iff)

lemma instance_core: "instance_of w s = Some i \<Longrightarrow> core i \<in> set (cores w)"
  using find_instance by (fastforce simp: cores_def)

lemma put_same: "distinct (map fst cs) \<Longrightarrow> c \<in> set cs \<Longrightarrow> put c cs = cs"
  unfolding put_def by (rule map_idI) (metis eq_key_imp_eq_value prod.collapse)

definition path_ok :: "core list \<Rightarrow> bool" where
  "path_ok cs \<longleftrightarrow> map fst cs = WORKFLOW_STEPS"

lemma distinct_steps: "distinct WORKFLOW_STEPS"
  by (simp add: WORKFLOW_STEPS_def)

lemma all_steps: "set WORKFLOW_STEPS = UNIV"
  by (auto simp: WORKFLOW_STEPS_def intro: step_id.exhaust)

lemma path_distinct: "path_ok cs \<Longrightarrow> distinct (map fst cs)"
  by (simp add: path_ok_def distinct_steps)

lemma put_path [simp]: "map fst (put c cs) = map fst cs"
  by (simp add: put_def comp_def if_distrib cong: map_cong)

lemma put_absent: "fst c \<notin> set (map fst cs) \<Longrightarrow> put c cs = cs"
  by (induction cs) (auto simp: put_def)

lemma put_append: "put c (xs @ ys) = put c xs @ put c ys"
  by (simp add: put_def)

lemma put_decomposed:
  "distinct (map fst (xs @ (s, st, x) # ys)) \<Longrightarrow> put (s, st', x') (xs @ (s, st, x) # ys) = xs @ (s, st', x') # ys"
  using put_absent [of "(s, st', x')" xs] put_absent [of "(s, st', x')" ys]
  by (simp add: put_append) (simp add: put_def)

text \<open>What does not move the path: mail, ledger, checklists, and the fields of the proposal.\<close>

definition same_path :: "review_world \<Rightarrow> review_world \<Rightarrow> bool" where
  "same_path w w' \<longleftrightarrow> cores w' = cores w \<and> prop_state (the_proposal w') = prop_state (the_proposal w) \<and>
     prop_workflow_step (the_proposal w') = prop_workflow_step (the_proposal w) \<and>
     prop_project (the_proposal w') = prop_project (the_proposal w) \<and> projects_created w' = projects_created w"

lemma dispatch_path: "distinct (map fst (cores w)) \<Longrightarrow> same_path w (dispatch_step_event call s t w)"
proof (cases "instance_of w s")
  case (Some i)
  assume d: "distinct (map fst (cores w))"
  have "put (core i) (cores w) = cores w" by (rule put_same [OF d instance_core [OF Some]])
  moreover have "core (i\<lparr>si_sent_notifications := x\<rparr>) = core i" for x by (simp add: core_def)
  ultimately have "cores (write_instance (i\<lparr>si_sent_notifications := x\<rparr>) w) = cores w" for x by (simp add: cores_write)
  then show ?thesis using Some
    by (simp add: same_path_def dispatch_step_event_def cores_def instances_of_def)
qed (simp add: same_path_def dispatch_step_event_def)

lemma ensure_path: "same_path w (ensure_completion call c w)"
  by (simp add: same_path_def ensure_completion_def cores_def instances_of_def)

lemma cores_set_proposal: "(\<And>p. prop_instances (f p) = prop_instances p) \<Longrightarrow> cores (set_proposal f w) = cores w"
  by (simp add: cores_def instances_of_def)

lemma pending_cores: "pending_steps w = map fst (filter (\<lambda>c. fst (snd c) = STEP_PENDING) (cores w))"
  by (simp add: pending_steps_def cores_def filter_map comp_def core_def)

lemma core_started: "core (started_instance call i) = (si_step i, STEP_ACTIVE, si_outcome i)"
  by (simp add: started_instance_def Let_def core_def split: option.split)

lemma core_completed: "core (completed_instance call x reason u notes i) = (si_step i, STEP_COMPLETED, Some x)"
  by (simp add: completed_instance_def add_notes_def core_def)

lemma saved: "save_instance i w = Inr w' \<Longrightarrow> w' = write_instance i w"
  by (simp add: save_instance_def Let_def split: if_splits)

text \<open>Activating a step puts it on the path as active and leaves the rest.\<close>

lemma activated:
  assumes "activate_next_step call s w = Inr w'" and "path_ok (cores w)"
  obtains x where "(s, STEP_PENDING, x) \<in> set (cores w) \<or> (\<exists>st. (s, st, x) \<in> set (cores w))"
    "cores w' = put (s, STEP_ACTIVE, x) (cores w)"
    "prop_state (the_proposal w') = prop_state (the_proposal w)"
    "prop_workflow_step (the_proposal w') = prop_workflow_step (the_proposal w)"
    "prop_project (the_proposal w') = prop_project (the_proposal w)" "projects_created w' = projects_created w"
proof -
  obtain i where i: "instance_of w s = Some i" using assms(1) by (auto simp: activate_next_step_def split: option.splits)
  define w1 where "w1 = (case call_step_of call s of None \<Rightarrow> w
      | Some cs \<Rightarrow> (case cs_checklist cs of None \<Rightarrow> w | Some c \<Rightarrow> ensure_completion call c w))"
  have w1: "same_path w w1" unfolding w1_def using ensure_path by (auto simp: same_path_def split: option.split)
  let ?w2 = "write_instance (started_instance call i) w1"
  have w': "w' = dispatch_step_event call s STEP_STARTED ?w2"
    using assms(1) i saved by (auto simp: activate_next_step_def w1_def [symmetric] rbind_eq_Inr)
  have "core (started_instance call i) = (s, STEP_ACTIVE, si_outcome i)"
    using find_instance [OF i] by (simp add: core_started)
  then have c2: "cores ?w2 = put (s, STEP_ACTIVE, si_outcome i) (cores w)"
    using w1 by (simp add: cores_write same_path_def)
  then have "distinct (map fst (cores ?w2))" using path_distinct [OF assms(2)] by simp
  from dispatch_path [OF this, of call s STEP_STARTED] have last: "same_path ?w2 w'" by (simp add: w')
  have "(s, si_status i, si_outcome i) \<in> set (cores w)"
    using instance_core [OF i] find_instance [OF i] by (simp add: core_def)
  with that [of "si_outcome i"] c2 last w1 show thesis by (auto simp: same_path_def)
qed

subsection \<open>The shape of the path\<close>

definition ended :: "core \<Rightarrow> bool" where
  "ended = (\<lambda>(s, st, x). st = STEP_SKIPPED \<or> st = STEP_EXPIRED \<or>
     (st = STEP_COMPLETED \<and> (\<exists>y. x = Some y \<and> y \<notin> set NEGATIVE_OUTCOMES \<and> y \<notin> set SYSTEM_RESERVED)))"

definition waiting :: "core \<Rightarrow> bool" where
  "waiting = (\<lambda>(s, st, x). st = STEP_PENDING \<or> st = STEP_SKIPPED)"

text \<open>The proposal stands at step \<open>s\<close>: everything before it has ended, everything after it waits.\<close>

definition stands_at :: "core list \<Rightarrow> step_id \<Rightarrow> bool" where
  "stands_at cs s \<longleftrightarrow> path_ok cs \<and>
     (\<exists>xs st x ys. cs = xs @ (s, st, x) # ys \<and> list_all ended xs \<and> list_all waiting ys \<and>
        (st = STEP_ACTIVE \<or> (st = STEP_COMPLETED \<and> ended (s, st, x))))"

definition review_ok :: "review_world \<Rightarrow> bool" where
  "review_ok w \<longleftrightarrow>
     (case prop_state (the_proposal w) of
        PROP_DRAFT \<Rightarrow> prop_instances (the_proposal w) = [] \<and> prop_workflow_step (the_proposal w) = None
      | PROP_SUBMITTED \<Rightarrow> path_ok (cores w) \<and> list_all waiting (cores w) \<and> prop_workflow_step (the_proposal w) = None
      | PROP_IN_REVIEW \<Rightarrow> (\<exists>s. prop_workflow_step (the_proposal w) = Some s \<and> stands_at (cores w) s)
      | PROP_ACCEPTED \<Rightarrow> path_ok (cores w) \<and> list_all ended (cores w) \<and> prop_workflow_step (the_proposal w) = None
      | _ \<Rightarrow> path_ok (cores w) \<and> prop_workflow_step (the_proposal w) = None \<and>
          list_all (\<lambda>c. fst (snd c) \<noteq> STEP_ACTIVE) (cores w)) \<and>
     (prop_project (the_proposal w) \<noteq> None \<longleftrightarrow> prop_state (the_proposal w) = PROP_ACCEPTED) \<and>
     projects_created w = (case prop_project (the_proposal w) of None \<Rightarrow> [] | Some p \<Rightarrow> [p])"

lemma same_path_ok: "same_path w w' \<Longrightarrow> review_ok w \<Longrightarrow> prop_instances (the_proposal w') = [] \<longleftrightarrow> prop_instances (the_proposal w) = []
    \<Longrightarrow> review_ok w'"
  by (auto simp: same_path_def review_ok_def split: proposal_state.splits)

lemma waiting_next:
  assumes "path_ok cs" and "cs = xs @ (s, st, x) # ys" and "list_all ended xs" and "st \<noteq> STEP_PENDING" and "cores w = cs"
  shows "next_enabled_step w s = List.find (\<lambda>t. t \<in> set (map fst (filter (\<lambda>c. fst (snd c) = STEP_PENDING) ys))) (map fst ys)"
proof -
  have steps: "WORKFLOW_STEPS = map fst xs @ s # map fst ys" using assms(1,2) by (simp add: path_ok_def)
  have "s \<notin> set (map fst xs)" using distinct_steps [unfolded steps] by simp
  then have "dropWhile (\<lambda>t. t \<noteq> s) WORKFLOW_STEPS = s # map fst ys"
    unfolding steps by (subst dropWhile_append2) auto
  moreover have "filter (\<lambda>c. fst (snd c) = STEP_PENDING) xs = []"
    using assms(3) by (auto simp: filter_empty_conv list_all_iff ended_def)
  ultimately show ?thesis using assms(2,4,5) by (simp add: next_enabled_step_def pending_cores)
qed

lemma find_waiting:
  "distinct (map fst ys) \<Longrightarrow> list_all waiting ys \<Longrightarrow>
   (case List.find (\<lambda>t. t \<in> set (map fst (filter (\<lambda>c. fst (snd c) = STEP_PENDING) ys))) (map fst ys) of
      None \<Rightarrow> list_all ended ys
    | Some t \<Rightarrow> \<exists>us x vs. ys = us @ (t, STEP_PENDING, x) # vs \<and> list_all ended us)"
proof (induction ys)
  case (Cons c ys)
  obtain s st x where c: "c = (s, st, x)" by (cases c)
  show ?case
  proof (cases "st = STEP_PENDING")
    case True
    then show ?thesis using c by (auto intro: exI [of _ "[]"])
  next
    case False
    let ?p = "\<lambda>t. t \<in> set (map fst (filter (\<lambda>c. fst (snd c) = STEP_PENDING) ys))"
    have skipped: "ended c" using Cons.prems(2) False c by (simp add: waiting_def ended_def)
    have "\<not> ?p s" using Cons.prems(1) c by auto
    then have find: "List.find (\<lambda>t. t \<in> set (map fst (filter (\<lambda>c. fst (snd c) = STEP_PENDING) (c # ys)))) (map fst (c # ys)) =
        List.find ?p (map fst ys)"
      using False c by simp
    show ?thesis
    proof (cases "List.find ?p (map fst ys)")
      case None
      then show ?thesis using Cons skipped unfolding find by simp
    next
      case (Some t)
      then obtain us y vs where "ys = us @ (t, STEP_PENDING, y) # vs" "list_all ended us" using Cons by auto
      then have "c # ys = (c # us) @ (t, STEP_PENDING, y) # vs" "list_all ended (c # us)" using skipped by simp_all
      then show ?thesis unfolding find Some by (simp only: option.case) blast
    qed
  qed
qed simp

subsection \<open>Leaving a step\<close>

text \<open>The step \<open>s\<close> has ended and nothing after it has started.\<close>

definition left_step :: "core list \<Rightarrow> step_id \<Rightarrow> bool" where
  "left_step cs s \<longleftrightarrow> path_ok cs \<and>
     (\<exists>xs st x ys. cs = xs @ (s, st, x) # ys \<and> list_all ended xs \<and> ended (s, st, x) \<and> list_all waiting ys)"

lemma ended_not_pending: "ended (s, st, x) \<Longrightarrow> st \<noteq> STEP_PENDING \<and> st \<noteq> STEP_ACTIVE"
  by (auto simp: ended_def)

lemma left_step_next:
  assumes "left_step (cores w) s"
  shows "case next_enabled_step w s of
     None \<Rightarrow> list_all ended (cores w)
   | Some t \<Rightarrow> \<exists>us x vs. cores w = us @ (t, STEP_PENDING, x) # vs \<and> list_all ended us \<and> list_all waiting vs"
proof -
  from assms obtain xs st x ys where cs: "path_ok (cores w)" "cores w = xs @ (s, st, x) # ys" "list_all ended xs"
    "ended (s, st, x)" "list_all waiting ys" by (auto simp: left_step_def)
  have "distinct (map fst ys)" using path_distinct [OF cs(1)] cs(2) by simp
  from find_waiting [OF this cs(5)]
  show ?thesis
    unfolding waiting_next [OF cs(1,2,3) conjunct1 [OF ended_not_pending [OF cs(4)]] refl]
  proof (cases "List.find (\<lambda>t. t \<in> set (map fst (filter (\<lambda>c. fst (snd c) = STEP_PENDING) ys))) (map fst ys)")
    case (Some t)
    with find_waiting [OF \<open>distinct (map fst ys)\<close> cs(5)] obtain us y vs where
      ys: "ys = us @ (t, STEP_PENDING, y) # vs" "list_all ended us" by auto
    then have "cores w = (xs @ (s, st, x) # us) @ (t, STEP_PENDING, y) # vs" "list_all ended (xs @ (s, st, x) # us)"
      "list_all waiting vs" using cs by simp_all
    then show "case List.find (\<lambda>t. t \<in> set (map fst (filter (\<lambda>c. fst (snd c) = STEP_PENDING) ys))) (map fst ys) of
        None \<Rightarrow> list_all ended (cores w)
      | Some t \<Rightarrow> \<exists>us x vs. cores w = us @ (t, STEP_PENDING, x) # vs \<and> list_all ended us \<and> list_all waiting vs"
      unfolding Some by (simp only: option.case) blast
  qed (use cs in simp)
qed

lemma stands_after:
  assumes "path_ok (cores w)" and "cores w = us @ (t, STEP_PENDING, x) # vs" and "list_all ended us" and "list_all waiting vs"
    and "activate_next_step call t w1 = Inr w'" and "cores w1 = cores w"
  shows "stands_at (cores w') t"
proof -
  from assms(5) obtain y where c: "cores w' = put (t, STEP_ACTIVE, y) (cores w1)"
    by (rule activated) (use assms(1,6) in simp)
  have d: "distinct (map fst (us @ (t, STEP_PENDING, x) # vs))" using path_distinct [OF assms(1)] assms(2) by simp
  have w': "cores w' = us @ (t, STEP_ACTIVE, y) # vs"
    unfolding c assms(6) assms(2) by (rule put_decomposed [OF d])
  have "map fst (cores w') = map fst (cores w)" using c assms(6) by simp
  then have "path_ok (cores w')" using assms(1) by (simp add: path_ok_def)
  then show ?thesis using w' assms(3,4) unfolding stands_at_def by blast
qed

lemma activated_rest:
  assumes "activate_next_step call t w1 = Inr w'" and "path_ok (cores w1)"
  shows "prop_state (the_proposal w') = prop_state (the_proposal w1) \<and>
    prop_workflow_step (the_proposal w') = prop_workflow_step (the_proposal w1) \<and>
    prop_project (the_proposal w') = prop_project (the_proposal w1) \<and> projects_created w' = projects_created w1"
  by (rule activated [OF assms]) blast

lemma left_to_next:
  assumes "left_step (cores w) s" and "next_enabled_step w s = Some t"
    and "activate_next_step call t (set_proposal (\<lambda>p. p\<lparr>prop_workflow_step := Some t\<rparr>) w) = Inr w'"
  shows "stands_at (cores w') t \<and> prop_workflow_step (the_proposal w') = Some t \<and>
    prop_state (the_proposal w') = prop_state (the_proposal w) \<and> prop_project (the_proposal w') = prop_project (the_proposal w) \<and>
    projects_created w' = projects_created w"
proof -
  let ?w1 = "set_proposal (\<lambda>p. p\<lparr>prop_workflow_step := Some t\<rparr>) w"
  have ok: "path_ok (cores w)" using assms(1) by (simp add: left_step_def)
  have c1: "cores ?w1 = cores w" by (rule cores_set_proposal) simp
  from left_step_next [OF assms(1)] assms(2) obtain us x vs where
    "cores w = us @ (t, STEP_PENDING, x) # vs" "list_all ended us" "list_all waiting vs" by auto
  from stands_after [OF ok this assms(3) c1] activated_rest [OF assms(3)] ok c1 show ?thesis by simp
qed

lemma advanced_ok:
  assumes run: "advance_to_next call project s user w = Inr (y, w')" and left: "left_step (cores w) s"
    and st: "prop_state (the_proposal w) = PROP_IN_REVIEW" and none: "prop_project (the_proposal w) = None"
    and created: "projects_created w = []"
  shows "review_ok w' \<and> (y = None \<longleftrightarrow> prop_state (the_proposal w') = PROP_ACCEPTED)"
proof (cases "next_enabled_step w s")
  case None
  then have w': "w' = close_proposal PROP_ACCEPTED (set_proposal (\<lambda>p. p\<lparr>prop_approved_by :=
      Some (case user of Some u \<Rightarrow> u | None \<Rightarrow> cc_robot call)\<rparr>)
      (allocate_proposal project (case user of Some u \<Rightarrow> u | None \<Rightarrow> cc_robot call) w))" "y = None"
    using run none by (auto simp: advance_to_next_def Let_def)
  have "cores w' = cores w"
    by (simp add: w' close_proposal_def allocate_proposal_def cores_def instances_of_def)
  moreover have "list_all ended (cores w)" using left_step_next [OF left] None by simp
  moreover have "path_ok (cores w)" using left by (simp add: left_step_def)
  ultimately show ?thesis using none created w'
    by (simp add: review_ok_def close_proposal_def allocate_proposal_def)
next
  case (Some t)
  then have next_run: "activate_next_step call t (set_proposal (\<lambda>p. p\<lparr>prop_workflow_step := Some t\<rparr>) w) = Inr w'"
    "y = Some t" using run by (auto simp: advance_to_next_def rbind_eq_Inr)
  from left_to_next [OF left Some next_run(1)] show ?thesis
    using st none created next_run(2) by (simp add: review_ok_def)
qed

subsection \<open>The operations keep the invariant\<close>

lemma locked: "locked_instance w u = Some i \<Longrightarrow>
    i \<in> set (instances_of w) \<and> prop_workflow_step (the_proposal w) = Some (si_step i) \<and> si_status i = STEP_ACTIVE"
  by (auto simp: locked_instance_def find_Some_iff)

lemma in_review:
  assumes "review_ok w" and "prop_state (the_proposal w) = PROP_IN_REVIEW"
  shows "prop_project (the_proposal w) = None" "projects_created w = []"
    "prop_workflow_step (the_proposal w) = Some s \<Longrightarrow> stands_at (cores w) s"
  using assms by (auto simp: review_ok_def)

text \<open>The row of the current step changes status and outcome; everything else of the path stays.\<close>

lemma closing_step:
  assumes "stands_at (cores w) s" and "core i = (s, st, x)"
  shows "\<exists>xs ys. put (core i) (cores w) = xs @ (s, st, x) # ys \<and> list_all ended xs \<and> list_all waiting ys \<and>
    path_ok (put (core i) (cores w))"
proof -
  from assms(1) obtain xs st' x' ys where cs: "path_ok (cores w)" "cores w = xs @ (s, st', x') # ys"
    "list_all ended xs" "list_all waiting ys" by (auto simp: stands_at_def)
  have "put (core i) (cores w) = xs @ (s, st, x) # ys"
    unfolding assms(2) cs(2) by (rule put_decomposed) (use path_distinct [OF cs(1)] cs(2) in simp)
  moreover have "path_ok (put (core i) (cores w))" using cs(1) by (simp add: path_ok_def)
  ultimately show ?thesis using cs by blast
qed

lemma no_active: "list_all ended xs \<Longrightarrow> list_all waiting ys \<Longrightarrow> st \<noteq> STEP_ACTIVE \<Longrightarrow>
    list_all (\<lambda>c. fst (snd c) \<noteq> STEP_ACTIVE) (xs @ (s, st, x) # ys)"
  by (auto simp: list_all_iff ended_def waiting_def)

lemma closed_ok:
  assumes "path_ok (cores w)" and "list_all (\<lambda>c. fst (snd c) \<noteq> STEP_ACTIVE) (cores w)"
    and "prop_project (the_proposal w) = None" and "projects_created w = []" and "st = PROP_REJECTED \<or> st = PROP_CANCELED"
  shows "review_ok (close_proposal st w)"
proof -
  have "cores (close_proposal st w) = cores w" by (simp add: close_proposal_def cores_def instances_of_def)
  then show ?thesis using assms by (auto simp: review_ok_def close_proposal_def)
qed

lemma complete_step_ok:
  assumes ok: "review_ok w" and st: "prop_state (the_proposal w) = PROP_IN_REVIEW" and i: "locked_instance w u = Some i"
    and outcome: "outcome \<notin> set SYSTEM_RESERVED" and run: "complete_step call project i outcome reason user ns w = Inr (y, w')"
  shows "review_ok w'"
proof -
  let ?i = "completed_instance call outcome reason user ns i" and ?s = "si_step i"
  define w2 where "w2 = dispatch_step_event call ?s (if outcome \<in> set NEGATIVE_OUTCOMES then STEP_REJECTED else STEP_DONE)
    (write_instance ?i w)"
  have stands: "stands_at (cores w) ?s" using in_review(3) [OF ok st] locked [OF i] by blast
  from closing_step [OF stands core_completed [of call outcome reason user ns i]] obtain xs ys where
    cs: "put (core ?i) (cores w) = xs @ (?s, STEP_COMPLETED, Some outcome) # ys" "list_all ended xs" "list_all waiting ys"
      "path_ok (put (core ?i) (cores w))" by blast
  have "same_path (write_instance ?i w) w2"
    unfolding w2_def by (rule dispatch_path) (use path_distinct [OF cs(4)] in \<open>simp add: cores_write\<close>)
  then have w2: "cores w2 = xs @ (?s, STEP_COMPLETED, Some outcome) # ys" "path_ok (cores w2)"
    "prop_state (the_proposal w2) = PROP_IN_REVIEW" "prop_project (the_proposal w2) = None" "projects_created w2 = []"
    "prop_workflow_step (the_proposal w2) = Some ?s"
    using cs st in_review(1,2) [OF ok st] locked [OF i] by (simp_all add: same_path_def cores_write)
  consider (negative) "outcome \<in> set NEGATIVE_OUTCOMES"
      "w' = close_proposal (if outcome = DECLINED \<and> ?s = AWARD_RESPONSE then PROP_CANCELED else PROP_REJECTED) w2"
    | (parked) "outcome \<notin> set NEGATIVE_OUTCOMES" "w' = w2"
    | (automatic) "outcome \<notin> set NEGATIVE_OUTCOMES" "advance_to_next call project ?s (Some user) w2 = Inr (y, w')"
    using run saved unfolding w2_def
    by (auto simp: complete_step_def Let_def rbind_eq_Inr split: if_splits)
  then show ?thesis
  proof cases
    case negative
    have "list_all (\<lambda>c. fst (snd c) \<noteq> STEP_ACTIVE) (cores w2)"
      unfolding w2(1) by (rule no_active [OF cs(2,3)]) simp
    from closed_ok [OF w2(2) this w2(4,5)] show ?thesis unfolding negative(2) by simp
  next
    case parked
    have "stands_at (cores w2) ?s"
      using w2(1,2) cs(2,3) parked(1) outcome unfolding stands_at_def by (fastforce simp: ended_def)
    then show ?thesis using w2 parked(2) by (simp add: review_ok_def)
  next
    case automatic
    have "left_step (cores w2) ?s"
      using w2(1,2) cs(2,3) automatic(1) outcome unfolding left_step_def by (fastforce simp: ended_def)
    from advanced_ok [OF automatic(2) this w2(3,4,5)] show ?thesis by simp
  qed
qed

lemma reject_at_step_ok:
  assumes ok: "review_ok w" and st: "prop_state (the_proposal w) = PROP_IN_REVIEW" and i: "locked_instance w u = Some i"
    and run: "reject_at_step call i reason user ns w = Inr w'"
  shows "review_ok w' \<and> prop_state (the_proposal w') = PROP_REJECTED"
proof -
  let ?i = "completed_instance call OUT_REJECTED reason user ns i" and ?s = "si_step i"
  define w2 where "w2 = dispatch_step_event call ?s STEP_REJECTED (write_instance ?i w)"
  have stands: "stands_at (cores w) ?s" using in_review(3) [OF ok st] locked [OF i] by blast
  from closing_step [OF stands core_completed [of call OUT_REJECTED reason user ns i]] obtain xs ys where
    cs: "put (core ?i) (cores w) = xs @ (?s, STEP_COMPLETED, Some OUT_REJECTED) # ys" "list_all ended xs" "list_all waiting ys"
      "path_ok (put (core ?i) (cores w))" by blast
  have "same_path (write_instance ?i w) w2"
    unfolding w2_def by (rule dispatch_path) (use path_distinct [OF cs(4)] in \<open>simp add: cores_write\<close>)
  then have w2: "cores w2 = xs @ (?s, STEP_COMPLETED, Some OUT_REJECTED) # ys" "path_ok (cores w2)"
    "prop_project (the_proposal w2) = None" "projects_created w2 = []"
    using cs in_review(1,2) [OF ok st] by (simp_all add: same_path_def cores_write)
  have "list_all (\<lambda>c. fst (snd c) \<noteq> STEP_ACTIVE) (cores w2)" unfolding w2(1) by (rule no_active [OF cs(2,3)]) simp
  moreover have "w' = close_proposal PROP_REJECTED w2"
    using run saved by (auto simp: reject_at_step_def rbind_eq_Inr w2_def)
  ultimately show ?thesis using closed_ok [OF w2(2) _ w2(3,4), of PROP_REJECTED] by (simp add: close_proposal_def)
qed

lemma overdue_instance:
  assumes "review_ok w" and "instance_of w s = Some i" and "si_status i = STEP_ACTIVE"
  shows "prop_state (the_proposal w) = PROP_IN_REVIEW \<and> stands_at (cores w) s \<and> prop_workflow_step (the_proposal w) = Some s"
proof -
  have mem: "(s, STEP_ACTIVE, si_outcome i) \<in> set (cores w)"
    using instance_core [OF assms(2)] find_instance [OF assms(2)] assms(3) by (simp add: core_def)
  have "prop_state (the_proposal w) = PROP_IN_REVIEW"
  proof (rule ccontr)
    assume "prop_state (the_proposal w) \<noteq> PROP_IN_REVIEW"
    then have "list_all (\<lambda>c. fst (snd c) \<noteq> STEP_ACTIVE) (cores w)"
      using assms(1) by (cases "prop_state (the_proposal w)")
        (auto simp: review_ok_def list_all_iff waiting_def ended_def cores_def instances_of_def)
    then show False using mem by (auto simp: list_all_iff)
  qed
  moreover then obtain r where r: "prop_workflow_step (the_proposal w) = Some r" "stands_at (cores w) r"
    using assms(1) by (auto simp: review_ok_def)
  moreover from r(2) mem have "r = s" unfolding stands_at_def by (auto simp: list_all_iff ended_def waiting_def)
  ultimately show ?thesis by simp
qed

lemma expire_step_ok:
  assumes ok: "review_ok w" and i: "instance_of w s = Some i" and active: "si_status i = STEP_ACTIVE"
    and run: "expire_step call i w = Inr (y, w')"
  shows "review_ok w' \<and> (y = None \<longleftrightarrow> prop_state (the_proposal w') = PROP_REJECTED) \<and>
    prop_state (the_proposal w') \<in> {PROP_IN_REVIEW, PROP_REJECTED}"
proof -
  let ?i = "i\<lparr>si_status := STEP_EXPIRED, si_outcome := Some OUT_EXPIRED, si_completed_at := Some (cc_now call)\<rparr>"
  define w2 where "w2 = dispatch_step_event call s STEP_LAPSED (write_instance ?i w)"
  note here = overdue_instance [OF ok i active]
  have step: "si_step i = s" using find_instance [OF i] by simp
  have "core ?i = (s, STEP_EXPIRED, Some OUT_EXPIRED)" using step by (simp add: core_def)
  from closing_step [OF _ this] here obtain xs ys where
    cs: "put (core ?i) (cores w) = xs @ (s, STEP_EXPIRED, Some OUT_EXPIRED) # ys" "list_all ended xs" "list_all waiting ys"
      "path_ok (put (core ?i) (cores w))" by blast
  have "same_path (write_instance ?i w) w2"
    unfolding w2_def by (rule dispatch_path) (use path_distinct [OF cs(4)] in \<open>simp add: cores_write\<close>)
  then have w2: "cores w2 = xs @ (s, STEP_EXPIRED, Some OUT_EXPIRED) # ys" "path_ok (cores w2)"
    "prop_state (the_proposal w2) = PROP_IN_REVIEW" "prop_project (the_proposal w2) = None" "projects_created w2 = []"
    using cs here in_review(1,2) [OF ok] by (simp_all add: same_path_def cores_write)
  have left: "left_step (cores w2) s"
    using w2(1,2) cs(2,3) unfolding left_step_def by (fastforce simp: ended_def)
  show ?thesis
  proof (cases "next_enabled_step w2 s")
    case None
    then have w': "w' = close_proposal PROP_REJECTED w2" "y = None"
      using run saved step by (auto simp: expire_step_def rbind_eq_Inr Let_def w2_def)
    have "list_all (\<lambda>c. fst (snd c) \<noteq> STEP_ACTIVE) (cores w2)" unfolding w2(1) by (rule no_active [OF cs(2,3)]) simp
    from closed_ok [OF w2(2) this w2(4,5)] show ?thesis unfolding w' by (simp add: close_proposal_def)
  next
    case (Some t)
    then have next_run: "activate_next_step call t (set_proposal (\<lambda>p. p\<lparr>prop_workflow_step := Some t\<rparr>) w2) = Inr w'" "y = Some t"
      using run saved step by (auto simp: expire_step_def rbind_eq_Inr Let_def w2_def)
    from left_to_next [OF left Some next_run(1)] show ?thesis
      using w2(3,4,5) next_run(2) by (simp add: review_ok_def)
  qed
qed

lemma activate_first_ok:
  assumes ok: "path_ok (cores w)" "list_all waiting (cores w)" "prop_project (the_proposal w) = None" "projects_created w = []"
    "prop_workflow_step (the_proposal w) = None"
    and run: "activate_first_step call w = Inr (y, w')"
  shows "if y = None then w' = w else review_ok w' \<and> prop_state (the_proposal w') = PROP_IN_REVIEW"
proof (cases "first_pending_step w")
  case None
  then show ?thesis using run by (simp add: activate_first_step_def)
next
  case (Some s)
  then obtain w1 where w1: "activate_next_step call s w = Inr w1" "y = Some s"
    "w' = set_proposal (\<lambda>p. p\<lparr>prop_state := PROP_IN_REVIEW, prop_workflow_step := Some s\<rparr>) w1"
    using run by (auto simp: activate_first_step_def rbind_eq_Inr)
  have "first_pending_step w =
      List.find (\<lambda>t. t \<in> set (map fst (filter (\<lambda>c. fst (snd c) = STEP_PENDING) (cores w)))) (map fst (cores w))"
    using ok(1) by (simp add: first_pending_step_def pending_cores path_ok_def)
  with find_waiting [OF path_distinct [OF ok(1)] ok(2)] Some obtain us x vs where
    parts: "cores w = us @ (s, STEP_PENDING, x) # vs" "list_all ended us" by auto
  then have "list_all waiting vs" using ok(2) by simp
  from stands_after [OF ok(1) parts this w1(1) refl] have "stands_at (cores w1) s" .
  moreover have "cores w' = cores w1" using w1(3) by (simp add: cores_set_proposal)
  ultimately show ?thesis using w1 activated_rest [OF w1(1) ok(1)] ok(3,4) by (simp add: review_ok_def)
qed

lemma submit_parts:
  assumes "submit call uuids u ready team w = Inr (x, w')"
  obtains w1 begun w2 where "prop_state (the_proposal w) = PROP_DRAFT"
    "create_step_instances call uuids (set_proposal (\<lambda>p. p\<lparr>prop_submitted_at := Some (cc_now call)\<rparr>) w) = Inr w1"
    "(if cc_evaluates_on_submission call then activate_first_step call w1 else Inr (None, w1)) = Inr (begun, w2)"
    "w' = (if begun = None then set_proposal (\<lambda>p. p\<lparr>prop_state := PROP_SUBMITTED\<rparr>) w2 else w2)"
proof -
  have guards: "act_is_staff u \<or> prop_created_by (the_proposal w) = Some (act_pk u)"
    "prop_state (the_proposal w) = PROP_DRAFT" ready team
    using assms by (auto simp: submit_def split: if_split_asm)
  then show thesis
    using assms that unfolding submit_def rbind_eq_Inr by (simp only: if_True if_False not_not simp_thms rbind_eq_Inr) force
qed

lemma submit_ok:
  assumes ok: "review_ok w" and run: "submit call uuids u ready team w = Inr (x, w')"
  shows "review_ok w' \<and> prop_state (the_proposal w') \<in> {PROP_SUBMITTED, PROP_IN_REVIEW}"
proof -
  let ?w0 = "set_proposal (\<lambda>p. p\<lparr>prop_submitted_at := Some (cc_now call)\<rparr>) w"
  from run obtain w1 started w2 where draft: "prop_state (the_proposal w) = PROP_DRAFT" and
    w1: "create_step_instances call uuids ?w0 = Inr w1" and
    w2: "(if cc_evaluates_on_submission call then activate_first_step call w1 else Inr (None, w1)) = Inr (started, w2)" and
    w': "w' = (if started = None then set_proposal (\<lambda>p. p\<lparr>prop_state := PROP_SUBMITTED\<rparr>) w2 else w2)"
    by (rule submit_parts)
  from draft have d: "prop_instances (the_proposal w) = []" "prop_workflow_step (the_proposal w) = None"
    "prop_project (the_proposal w) = None" "projects_created w = []" using ok by (auto simp: review_ok_def)
  have created: "w1 = set_proposal (\<lambda>p. p\<lparr>prop_instances := prop_instances p @
        map (\<lambda>s. new_instance call s (uuids s)) WORKFLOW_STEPS\<rparr>) ?w0"
    using w1 by (auto simp: create_step_instances_def split: if_splits)
  then have c1: "cores w1 = map (\<lambda>s. core (new_instance call s (uuids s))) WORKFLOW_STEPS"
    using d(1) by (simp add: cores_def instances_of_def comp_def)
  have path: "path_ok (cores w1)" unfolding path_ok_def c1 by (simp add: comp_def core_def new_instance_def)
  have wait: "list_all waiting (cores w1)" unfolding c1 by (auto simp: list_all_iff core_def new_instance_def waiting_def)
  have rest: "prop_project (the_proposal w1) = None" "projects_created w1 = []" "prop_workflow_step (the_proposal w1) = None"
    using created d by simp_all
  show ?thesis
  proof (cases started)
    case None
    then have "w2 = w1" using w2 activate_first_ok [OF path wait rest, of call started w2] by (auto split: if_splits)
    then have "cores w' = cores w1" using w' None by (simp add: cores_set_proposal)
    then show ?thesis using None w' \<open>w2 = w1\<close> path wait rest by (simp add: review_ok_def)
  next
    case (Some s)
    then have "activate_first_step call w1 = Inr (started, w2)" using w2 by (auto split: if_splits)
    from activate_first_ok [OF path wait rest this] show ?thesis using Some w' by simp
  qed
qed

lemma advance_step_ok:
  assumes ok: "review_ok w" and st: "prop_state (the_proposal w) = PROP_IN_REVIEW"
    and run: "advance_step call project user w = Inr (y, w')"
  shows "review_ok w'"
proof -
  from run have await: "is_awaiting_manual_advance call w" by (auto simp: advance_step_def split: if_splits)
  then obtain s i where s: "prop_workflow_step (the_proposal w) = Some s" "instance_of w s = Some i" "si_status i = STEP_COMPLETED"
    by (auto simp: is_awaiting_manual_advance_def split: option.splits)
  have "advance_to_next call project s user w = Inr (y, w')" using run await s(1) by (simp add: advance_step_def)
  moreover have "left_step (cores w) s"
  proof -
    from in_review(3) [OF ok st s(1)] obtain xs stt x ys where cs: "path_ok (cores w)" "cores w = xs @ (s, stt, x) # ys"
      "list_all ended xs" "list_all waiting ys" "stt = STEP_ACTIVE \<or> ended (s, stt, x)"
      by (auto simp: stands_at_def)
    have "core i \<in> set (cores w)" "fst (core i) = s" "fst (snd (core i)) = STEP_COMPLETED"
      using instance_core [OF s(2)] find_instance [OF s(2)] s(3) by (simp_all add: core_def)
    then have "stt = STEP_COMPLETED"
      using path_distinct [OF cs(1)] cs(2) by (metis eq_key_imp_eq_value fst_conv in_set_conv_decomp prod.collapse snd_conv)
    then show ?thesis using cs unfolding left_step_def by auto
  qed
  ultimately show ?thesis using advanced_ok st in_review(1,2) [OF ok st] by blast
qed

lemma review_work_ok: "review_ok w \<Longrightarrow> review_ok (reviewers_at_work revs answers w)"
  by (rule same_path_ok [of w]) (simp_all add: same_path_def reviewers_at_work_def cores_set_proposal)

lemma start_evaluation_ok:
  assumes ok: "review_ok w"
  shows "review_ok (start_evaluation_for_closed_rounds call cutoff w)"
proof (cases "activate_first_step call w")
  case (Inr r)
  obtain y w' where r: "r = (y, w')" by (cases r)
  show ?thesis
  proof (cases "prop_state (the_proposal w) = PROP_SUBMITTED")
    case True
    then have "if y = None then w' = w else review_ok w'"
      using activate_first_ok [of w call y w'] ok Inr r by (auto simp: review_ok_def split: if_splits option.splits)
    then show ?thesis using ok Inr r by (auto simp: start_evaluation_for_closed_rounds_def keep_on_error_def split: if_splits)
  qed (use ok in \<open>simp add: start_evaluation_for_closed_rounds_def\<close>)
qed (use ok in \<open>simp add: start_evaluation_for_closed_rounds_def keep_on_error_def\<close>)

lemma expire_overdue_ok:
  assumes ok: "review_ok w"
  shows "review_ok (expire_overdue call s w)"
proof (cases "instance_of w s")
  case (Some i)
  show ?thesis
  proof (cases "is_overdue call i")
    case True
    then have active: "si_status i = STEP_ACTIVE" by (simp add: is_overdue_def)
    show ?thesis using expire_step_ok [OF ok Some active] ok True Some
      by (cases "expire_step call i w") (auto simp: expire_overdue_def keep_on_error_def)
  qed (use ok Some in \<open>simp add: expire_overdue_def\<close>)
qed (use ok in \<open>simp add: expire_overdue_def\<close>)

lemma bad_request_Inr: "as_bad_request r = Inr x \<longleftrightarrow> r = Inr x" and conflict_Inr: "as_conflict r = Inr x \<longleftrightarrow> r = Inr x"
  by (auto simp: as_bad_request_def as_conflict_def split: sum.splits workflow_error.splits)

lemma complete_workflow_step_runs:
  assumes "complete_workflow_step call project u uuid outcome reason ns w = Inr (y, w')"
  obtains i ns' where "prop_state (the_proposal w) = PROP_IN_REVIEW" "locked_instance w uuid = Some i"
    "outcome \<in> set (STEP_ALLOW_LIST (si_step i))" "outcome \<notin> set SYSTEM_RESERVED"
    "complete_step call project i outcome reason (act_pk u) ns' w = Inr (y, w')"
proof -
  from assms obtain s i where "prop_state (the_proposal w) = PROP_IN_REVIEW" "prop_workflow_step (the_proposal w) = Some s"
    "locked_instance w uuid = Some i" "valid_outcome s outcome"
    "complete_step call project i outcome reason (act_pk u) (if user_can_view_internal_notes u w then ns else []) w = Inr (y, w')"
    by (auto simp: complete_workflow_step_def bad_request_Inr split: if_splits option.splits)
  moreover from this have "si_step i = s" using locked by fastforce
  ultimately show thesis using that by (auto simp: valid_outcome_def)
qed

lemma workflow_step_ok: "workflow_step w w' \<Longrightarrow> review_ok w \<Longrightarrow> review_ok w'"
proof (induction rule: workflow_step.induct)
  case (submitted call uuids u ready team w x w')
  then show ?case using submit_ok by blast
next
  case (completed call project u uuid outcome reason ns w y w')
  then show ?case using complete_step_ok by (metis complete_workflow_step_runs)
next
  case (rejected call u uuid reason ns w x w')
  then obtain i where i: "prop_state (the_proposal w) = PROP_IN_REVIEW" "locked_instance w uuid = Some i"
    "reject_at_step call i reason (act_pk u) (if user_can_view_internal_notes u w then ns else []) w = Inr w'"
    by (auto simp: reject_workflow_step_def rbind_eq_Inr split: if_splits option.splits)
  from reject_at_step_ok [OF rejected(2) i] show ?case by simp
next
  case (advanced call project u w y w')
  then have "prop_state (the_proposal w) = PROP_IN_REVIEW" "advance_step call project (Some (act_pk u)) w = Inr (y, w')"
    by (auto simp: advance_workflow_step_def conflict_Inr split: if_splits)
  then show ?case using advance_step_ok advanced(2) by blast
next
  case (started w call cutoff)
  then show ?case by (rule start_evaluation_ok)
next
  case (lapsed w call s)
  then show ?case by (rule expire_overdue_ok)
next
  case (reviewed w revs answers)
  then show ?case by (rule review_work_ok)
qed

lemma draft_ok: "is_draft w \<Longrightarrow> review_ok w"
  by (simp add: is_draft_def review_ok_def)

interpretation reviews: invariant_system workflow_step review_ok
  by unfold_locales (rule workflow_step_ok)

end
