(* ===== verification/Workflow_Refinement.thy ===== *)
theory Workflow_Refinement
  imports Workflow_Facts
begin

text \<open>
  What the workflow promises, as a machine on paths alone (\<open>path_step\<close>: state of the proposal, and step, status
  and outcome of its instances), and the proof that every operation either leaves the path alone or makes one
  move of that machine.  The machine explains the rest: moves spend \<open>path_rank\<close>, so that a proposal is decided
  after finitely many, and a closed proposal has none left.
\<close>

subsection \<open>The abstract machine\<close>

definition wide_open :: "core \<Rightarrow> bool" where
  "wide_open c \<longleftrightarrow> fst (snd c) = STEP_ACTIVE"

inductive path_step :: "proposal_state \<times> core list \<Rightarrow> proposal_state \<times> core list \<Rightarrow> bool" where
  hold: "path_ok cs \<Longrightarrow> list_all waiting cs \<Longrightarrow> path_step (PROP_DRAFT, []) (PROP_SUBMITTED, cs)"
| open_at_once: "path_ok (us @ (t, STEP_PENDING, x) # vs) \<Longrightarrow> list_all ended us \<Longrightarrow> list_all waiting vs \<Longrightarrow>
    path_step (PROP_DRAFT, []) (PROP_IN_REVIEW, us @ (t, STEP_ACTIVE, y) # vs)"
| open_held: "list_all ended us \<Longrightarrow>
    path_step (PROP_SUBMITTED, us @ (t, STEP_PENDING, x) # vs) (PROP_IN_REVIEW, us @ (t, STEP_ACTIVE, y) # vs)"
| park: "ended (s, STEP_COMPLETED, x') \<Longrightarrow> list_all ended xs \<Longrightarrow> list_all waiting ys \<Longrightarrow>
    path_step (PROP_IN_REVIEW, xs @ (s, STEP_ACTIVE, x) # ys) (PROP_IN_REVIEW, xs @ (s, STEP_COMPLETED, x') # ys)"
| pass_on: "st = STEP_ACTIVE \<or> (st = STEP_COMPLETED \<and> st' = st \<and> x' = x) \<Longrightarrow> ended (s, st', x') \<Longrightarrow>
    list_all ended (xs @ us) \<Longrightarrow> list_all waiting vs \<Longrightarrow>
    path_step (PROP_IN_REVIEW, xs @ (s, st, x) # us @ (t, STEP_PENDING, y) # vs)
      (PROP_IN_REVIEW, xs @ (s, st', x') # us @ (t, STEP_ACTIVE, z) # vs)"
| accept: "st = STEP_ACTIVE \<or> (st = STEP_COMPLETED \<and> x' = x) \<Longrightarrow> ended (s, STEP_COMPLETED, x') \<Longrightarrow>
    list_all (\<lambda>c. fst (snd c) = STEP_SKIPPED) ys \<Longrightarrow>
    path_step (PROP_IN_REVIEW, xs @ (s, st, x) # ys) (PROP_ACCEPTED, xs @ (s, STEP_COMPLETED, x') # ys)"
| refuse: "out \<in> set NEGATIVE_OUTCOMES \<and> final = (if out = DECLINED \<and> s = AWARD_RESPONSE then PROP_CANCELED else PROP_REJECTED)
      \<or> out = OUT_REJECTED \<and> final = PROP_REJECTED \<Longrightarrow>
    path_step (PROP_IN_REVIEW, xs @ (s, STEP_ACTIVE, x) # ys) (final, xs @ (s, STEP_COMPLETED, Some out) # ys)"
| lapse: "list_all (\<lambda>c. fst (snd c) = STEP_SKIPPED) ys \<Longrightarrow>
    path_step (PROP_IN_REVIEW, xs @ (s, STEP_ACTIVE, x) # ys) (PROP_REJECTED, xs @ (s, STEP_EXPIRED, Some OUT_EXPIRED) # ys)"

definition path_of :: "review_world \<Rightarrow> proposal_state \<times> core list" where
  "path_of w = (prop_state (the_proposal w), cores w)"

lemma find_waiting_skipped:
  "distinct (map fst ys) \<Longrightarrow> list_all waiting ys \<Longrightarrow>
   List.find (\<lambda>t. t \<in> set (map fst (filter (\<lambda>c. fst (snd c) = STEP_PENDING) ys))) (map fst ys) = None \<Longrightarrow>
   list_all (\<lambda>c. fst (snd c) = STEP_SKIPPED) ys"
  by (force simp: find_None_iff list_all_iff waiting_def)

subsection \<open>Every operation refines it\<close>

lemma advance_refines:
  assumes run: "advance_to_next call project s user w = Inr (y, w')" and path: "path_ok (cores w)"
    and cs: "cores w = xs @ (s, st, x) # ys" "list_all ended xs" "ended (s, st, x)" "list_all waiting ys"
  shows "(\<exists>us t b vs z. ys = us @ (t, STEP_PENDING, b) # vs \<and> list_all ended us \<and>
       path_of w' = (prop_state (the_proposal w), xs @ (s, st, x) # us @ (t, STEP_ACTIVE, z) # vs)) \<or>
     (list_all (\<lambda>c. fst (snd c) = STEP_SKIPPED) ys \<and> path_of w' = (PROP_ACCEPTED, cores w))"
proof -
  have d: "distinct (map fst ys)" using path_distinct [OF path] cs(1) by simp
  note where_next = waiting_next [OF path cs(1,2) conjunct1 [OF ended_not_pending [OF cs(3)]] refl]
  show ?thesis
  proof (cases "next_enabled_step w s")
    case None
    then have "path_of w' = (PROP_ACCEPTED, cores w)"
      using run by (auto simp: advance_to_next_def Let_def close_proposal_def allocate_proposal_def path_of_def cores_def
          instances_of_def)
    moreover have "list_all (\<lambda>c. fst (snd c) = STEP_SKIPPED) ys"
      by (rule find_waiting_skipped [OF d cs(4)]) (use None where_next in simp)
    ultimately show ?thesis by simp
  next
    case (Some t)
    then have run': "activate_next_step call t (set_proposal (\<lambda>p. p\<lparr>prop_workflow_step := Some t\<rparr>) w) = Inr w'"
      using run by (auto simp: advance_to_next_def rbind_eq_Inr)
    from find_waiting [OF d cs(4)] Some where_next obtain us b vs where
      ys: "ys = us @ (t, STEP_PENDING, b) # vs" "list_all ended us" by auto
    let ?w1 = "set_proposal (\<lambda>p. p\<lparr>prop_workflow_step := Some t\<rparr>) w"
    have c1: "cores ?w1 = cores w" by (rule cores_set_proposal) simp
    from run' obtain z where z: "cores w' = put (t, STEP_ACTIVE, z) (cores w)"
      "prop_state (the_proposal w') = prop_state (the_proposal w)"
      by (rule activated) (use path c1 in simp_all)
    have eq: "cores w = (xs @ (s, st, x) # us) @ (t, STEP_PENDING, b) # vs" using cs(1) ys(1) by simp
    have "put (t, STEP_ACTIVE, z) (cores w) = (xs @ (s, st, x) # us) @ (t, STEP_ACTIVE, z) # vs"
      unfolding eq by (rule put_decomposed) (use path_distinct [OF path] eq in simp)
    then have "path_of w' = (prop_state (the_proposal w), xs @ (s, st, x) # us @ (t, STEP_ACTIVE, z) # vs)"
      using z by (simp add: path_of_def)
    with ys show ?thesis by blast
  qed
qed

lemma first_refines:
  assumes run: "activate_first_step call w = Inr (Some t, w')" and path: "path_ok (cores w)" and wait: "list_all waiting (cores w)"
  shows "\<exists>us x vs y. cores w = us @ (t, STEP_PENDING, x) # vs \<and> list_all ended us \<and> list_all waiting vs \<and>
    path_of w' = (PROP_IN_REVIEW, us @ (t, STEP_ACTIVE, y) # vs)"
proof -
  obtain w1 where w1: "first_pending_step w = Some t" "activate_next_step call t w = Inr w1"
    "w' = set_proposal (\<lambda>p. p\<lparr>prop_state := PROP_IN_REVIEW, prop_workflow_step := Some t\<rparr>) w1"
    using run by (auto simp: activate_first_step_def rbind_eq_Inr split: option.splits)
  have "first_pending_step w =
      List.find (\<lambda>t. t \<in> set (map fst (filter (\<lambda>c. fst (snd c) = STEP_PENDING) (cores w)))) (map fst (cores w))"
    using path by (simp add: first_pending_step_def pending_cores path_ok_def)
  with find_waiting [OF path_distinct [OF path] wait] w1(1) obtain us x vs where
    parts: "cores w = us @ (t, STEP_PENDING, x) # vs" "list_all ended us" by auto
  from w1(2) obtain y where y: "cores w1 = put (t, STEP_ACTIVE, y) (cores w)" by (rule activated) (use path in simp)
  have "put (t, STEP_ACTIVE, y) (cores w) = us @ (t, STEP_ACTIVE, y) # vs"
    unfolding parts(1) by (rule put_decomposed) (use path_distinct [OF path] parts(1) in simp)
  then have "path_of w' = (PROP_IN_REVIEW, us @ (t, STEP_ACTIVE, y) # vs)"
    using w1(3) y by (simp add: path_of_def cores_set_proposal)
  then show ?thesis using parts wait by auto
qed

text \<open>The row of the current step after it was written and its mail dispatched.\<close>

lemma written:
  assumes "stands_at (cores w) s" and "core i = (s, st, x)" and "(s, STEP_ACTIVE, a) \<in> set (cores w)"
    and w2: "w2 = dispatch_step_event call s trigger (write_instance i w)"
  obtains xs b ys where "cores w = xs @ (s, STEP_ACTIVE, b) # ys" "list_all ended xs" "list_all waiting ys"
    "cores w2 = xs @ (s, st, x) # ys" "path_ok (cores w2)" "prop_state (the_proposal w2) = prop_state (the_proposal w)"
proof -
  from assms(1) obtain xs st' b ys where cs: "path_ok (cores w)" "cores w = xs @ (s, st', b) # ys"
    "list_all ended xs" "list_all waiting ys" by (auto simp: stands_at_def)
  have active: "st' = STEP_ACTIVE"
    using path_distinct [OF cs(1)] cs(2) assms(3) by (metis eq_key_imp_eq_value in_set_conv_decomp prod.inject)
  have "put (core i) (cores w) = xs @ (s, st, x) # ys"
    unfolding assms(2) cs(2) by (rule put_decomposed) (use path_distinct [OF cs(1)] cs(2) in simp)
  then have c: "cores (write_instance i w) = xs @ (s, st, x) # ys" by (simp add: cores_write)
  have p: "path_ok (cores (write_instance i w))" using cs(1) by (simp add: cores_write path_ok_def)
  have "same_path (write_instance i w) w2" unfolding w2 by (rule dispatch_path [OF path_distinct [OF p]])
  with that cs active c p show thesis by (simp add: same_path_def)
qed

lemma active_core: "locked_instance w u = Some i \<Longrightarrow> (si_step i, STEP_ACTIVE, si_outcome i) \<in> set (cores w)"
  using locked [of w u i] by (force simp: cores_def core_def)

lemma complete_refines:
  assumes ok: "review_ok w" and st: "prop_state (the_proposal w) = PROP_IN_REVIEW" and i: "locked_instance w u = Some i"
    and outcome: "outcome \<notin> set SYSTEM_RESERVED" and run: "complete_step call project i outcome reason user ns w = Inr (y, w')"
  shows "path_step (path_of w) (path_of w')"
proof -
  let ?i = "completed_instance call outcome reason user ns i" and ?s = "si_step i"
  define w2 where "w2 = dispatch_step_event call ?s (if outcome \<in> set NEGATIVE_OUTCOMES then STEP_REJECTED else STEP_DONE)
    (write_instance ?i w)"
  have stands: "stands_at (cores w) ?s" using in_review(3) [OF ok st] locked [OF i] by blast
  from written [OF stands core_completed active_core [OF i] w2_def] obtain xs b ys where
    cs: "cores w = xs @ (?s, STEP_ACTIVE, b) # ys" "list_all ended xs" "list_all waiting ys"
    "cores w2 = xs @ (?s, STEP_COMPLETED, Some outcome) # ys" "path_ok (cores w2)"
    "prop_state (the_proposal w2) = PROP_IN_REVIEW" using st by metis
  have before: "path_of w = (PROP_IN_REVIEW, xs @ (?s, STEP_ACTIVE, b) # ys)" using st cs(1) by (simp add: path_of_def)
  consider (negative) "outcome \<in> set NEGATIVE_OUTCOMES"
      "w' = close_proposal (if outcome = DECLINED \<and> ?s = AWARD_RESPONSE then PROP_CANCELED else PROP_REJECTED) w2"
    | (parked) "outcome \<notin> set NEGATIVE_OUTCOMES" "w' = w2"
    | (automatic) "outcome \<notin> set NEGATIVE_OUTCOMES" "advance_to_next call project ?s (Some user) w2 = Inr (y, w')"
    using run saved unfolding w2_def
    by (auto simp: complete_step_def Let_def rbind_eq_Inr split: if_splits)
  then show ?thesis
  proof cases
    case negative
    then have "path_of w' = (if outcome = DECLINED \<and> ?s = AWARD_RESPONSE then PROP_CANCELED else PROP_REJECTED,
        xs @ (?s, STEP_COMPLETED, Some outcome) # ys)"
      using cs(4) by (simp add: path_of_def close_proposal_def cores_set_proposal)
    then show ?thesis unfolding before using negative(1) by (simp add: refuse)
  next
    case parked
    then have "ended (?s, STEP_COMPLETED, Some outcome)" using outcome by (simp add: ended_def)
    moreover have "path_of w' = (PROP_IN_REVIEW, xs @ (?s, STEP_COMPLETED, Some outcome) # ys)"
      using cs(4,6) parked(2) by (simp add: path_of_def)
    ultimately show ?thesis unfolding before using park cs(2,3) by simp
  next
    case automatic
    then have e: "ended (?s, STEP_COMPLETED, Some outcome)" using outcome by (simp add: ended_def)
    from advance_refines [OF automatic(2) cs(5,4,2) e cs(3)] show ?thesis
      unfolding before cs(4,6) using pass_on [OF _ e] accept [OF _ e] cs(2,3) by fastforce
  qed
qed

lemma reject_refines:
  assumes ok: "review_ok w" and st: "prop_state (the_proposal w) = PROP_IN_REVIEW" and i: "locked_instance w u = Some i"
    and run: "reject_at_step call i reason user ns w = Inr w'"
  shows "path_step (path_of w) (path_of w')"
proof -
  let ?i = "completed_instance call OUT_REJECTED reason user ns i" and ?s = "si_step i"
  define w2 where "w2 = dispatch_step_event call ?s STEP_REJECTED (write_instance ?i w)"
  have stands: "stands_at (cores w) ?s" using in_review(3) [OF ok st] locked [OF i] by blast
  from written [OF stands core_completed active_core [OF i] w2_def] obtain xs b ys where
    cs: "cores w = xs @ (?s, STEP_ACTIVE, b) # ys" "cores w2 = xs @ (?s, STEP_COMPLETED, Some OUT_REJECTED) # ys" by metis
  have "w' = close_proposal PROP_REJECTED w2"
    using run saved by (auto simp: reject_at_step_def rbind_eq_Inr w2_def)
  then have "path_of w' = (PROP_REJECTED, xs @ (?s, STEP_COMPLETED, Some OUT_REJECTED) # ys)"
    using cs(2) by (simp add: path_of_def close_proposal_def cores_set_proposal)
  moreover have "path_of w = (PROP_IN_REVIEW, xs @ (?s, STEP_ACTIVE, b) # ys)" using st cs(1) by (simp add: path_of_def)
  ultimately show ?thesis using refuse by auto
qed
lemma parked_path:
  assumes "stands_at (cores w) s" and "(s, STEP_COMPLETED, a) \<in> set (cores w)"
  obtains xs ys where "path_ok (cores w)" "cores w = xs @ (s, STEP_COMPLETED, a) # ys" "list_all ended xs"
    "ended (s, STEP_COMPLETED, a)" "list_all waiting ys"
proof -
  from assms(1) obtain xs st b ys where cs: "path_ok (cores w)" "cores w = xs @ (s, st, b) # ys"
    "list_all ended xs" "list_all waiting ys" "st = STEP_ACTIVE \<or> (st = STEP_COMPLETED \<and> ended (s, st, b))"
    by (auto simp: stands_at_def)
  have "(st, b) = (STEP_COMPLETED, a)"
    using path_distinct [OF cs(1)] cs(2) assms(2) by (metis eq_key_imp_eq_value in_set_conv_decomp)
  with cs that show thesis by auto
qed

lemma advance_step_refines:
  assumes ok: "review_ok w" and st: "prop_state (the_proposal w) = PROP_IN_REVIEW"
    and run: "advance_step call project user w = Inr (y, w')"
  shows "path_step (path_of w) (path_of w')"
proof -
  from run have await: "is_awaiting_manual_advance call w" by (auto simp: advance_step_def split: if_splits)
  then obtain s i where s: "prop_workflow_step (the_proposal w) = Some s" "instance_of w s = Some i" "si_status i = STEP_COMPLETED"
    by (auto simp: is_awaiting_manual_advance_def split: option.splits)
  have run': "advance_to_next call project s user w = Inr (y, w')" using run await s(1) by (simp add: advance_step_def)
  have "(s, STEP_COMPLETED, si_outcome i) \<in> set (cores w)"
    using instance_core [OF s(2)] find_instance [OF s(2)] s(3) by (simp add: core_def)
  from parked_path [OF in_review(3) [OF ok st s(1)] this] obtain xs ys where
    cs: "path_ok (cores w)" "cores w = xs @ (s, STEP_COMPLETED, si_outcome i) # ys" "list_all ended xs"
      "ended (s, STEP_COMPLETED, si_outcome i)" "list_all waiting ys" .
  have before: "path_of w = (PROP_IN_REVIEW, xs @ (s, STEP_COMPLETED, si_outcome i) # ys)" using st cs(2) by (simp add: path_of_def)
  from advance_refines [OF run' cs] show ?thesis
    unfolding before st cs(2) using pass_on [OF _ cs(4)] accept [OF _ cs(4)] cs(3,5) by fastforce
qed

lemma expire_refines:
  assumes ok: "review_ok w" and i: "instance_of w s = Some i" and active: "si_status i = STEP_ACTIVE"
    and run: "expire_step call i w = Inr (y, w')"
  shows "path_step (path_of w) (path_of w')"
proof -
  let ?i = "i\<lparr>si_status := STEP_EXPIRED, si_outcome := Some OUT_EXPIRED, si_completed_at := Some (cc_now call)\<rparr>"
  define w2 where "w2 = dispatch_step_event call s STEP_LAPSED (write_instance ?i w)"
  note here = overdue_instance [OF ok i active]
  have step: "si_step i = s" using find_instance [OF i] by simp
  have "core ?i = (s, STEP_EXPIRED, Some OUT_EXPIRED)" using step by (simp add: core_def)
  moreover have "(s, STEP_ACTIVE, si_outcome i) \<in> set (cores w)"
    using instance_core [OF i] step active by (simp add: core_def)
  ultimately obtain xs b ys where
    cs: "cores w = xs @ (s, STEP_ACTIVE, b) # ys" "list_all ended xs" "list_all waiting ys"
    "cores w2 = xs @ (s, STEP_EXPIRED, Some OUT_EXPIRED) # ys" "path_ok (cores w2)"
    "prop_state (the_proposal w2) = PROP_IN_REVIEW" using written [of w s ?i _ _ _ w2 call] w2_def here by metis
  have before: "path_of w = (PROP_IN_REVIEW, xs @ (s, STEP_ACTIVE, b) # ys)" using here cs(1) by (simp add: path_of_def)
  have e: "ended (s, STEP_EXPIRED, Some OUT_EXPIRED)" by (simp add: ended_def)
  have d: "distinct (map fst ys)" using path_distinct [OF cs(5)] cs(4) by simp
  note where_next = waiting_next [OF cs(5,4,2) _ refl]
  show ?thesis
  proof (cases "next_enabled_step w2 s")
    case None
    then have "w' = close_proposal PROP_REJECTED w2"
      using run saved step by (auto simp: expire_step_def rbind_eq_Inr Let_def w2_def)
    then have "path_of w' = (PROP_REJECTED, xs @ (s, STEP_EXPIRED, Some OUT_EXPIRED) # ys)"
      using cs(4) by (simp add: path_of_def close_proposal_def cores_set_proposal)
    moreover have "list_all (\<lambda>c. fst (snd c) = STEP_SKIPPED) ys"
      by (rule find_waiting_skipped [OF d cs(3)]) (use None where_next in simp)
    ultimately show ?thesis unfolding before by (simp add: lapse)
  next
    case (Some t)
    then have run': "advance_to_next call 0 s None w2 = Inr (Some t, w')"
      using run saved step by (auto simp: expire_step_def advance_to_next_def rbind_eq_Inr Let_def w2_def)
    from advance_refines [OF run' cs(5,4,2) e cs(3)] show ?thesis
    proof
      assume "list_all (\<lambda>c. fst (snd c) = STEP_SKIPPED) ys \<and> path_of w' = (PROP_ACCEPTED, cores w2)"
      then have "list_all (\<lambda>c. fst (snd c) = STEP_SKIPPED) ys" by simp
      then have "List.find (\<lambda>t. t \<in> set (map fst (filter (\<lambda>c. fst (snd c) = STEP_PENDING) ys))) (map fst ys) = None"
        by (auto simp: find_None_iff list_all_iff)
      with Some where_next show ?thesis by simp
    qed (use pass_on [OF _ e] cs(2,3) in \<open>unfold before cs(6), fastforce\<close>)
  qed
qed

lemma submit_refines:
  assumes ok: "review_ok w" and run: "submit call uuids u ready team w = Inr (x, w')"
  shows "path_step (path_of w) (path_of w')"
proof -
  let ?w0 = "set_proposal (\<lambda>p. p\<lparr>prop_submitted_at := Some (cc_now call)\<rparr>) w"
  from run obtain w1 begun w2 where draft: "prop_state (the_proposal w) = PROP_DRAFT" and
    w1: "create_step_instances call uuids ?w0 = Inr w1" and
    w2: "(if cc_evaluates_on_submission call then activate_first_step call w1 else Inr (None, w1)) = Inr (begun, w2)" and
    w': "w' = (if begun = None then set_proposal (\<lambda>p. p\<lparr>prop_state := PROP_SUBMITTED\<rparr>) w2 else w2)"
    by (rule submit_parts)
  from draft ok have d: "prop_instances (the_proposal w) = []" by (auto simp: review_ok_def)
  have before: "path_of w = (PROP_DRAFT, [])" using draft d by (simp add: path_of_def cores_def instances_of_def)
  have "w1 = set_proposal (\<lambda>p. p\<lparr>prop_instances := prop_instances p @
        map (\<lambda>s. new_instance call s (uuids s)) WORKFLOW_STEPS\<rparr>) ?w0"
    using w1 by (auto simp: create_step_instances_def split: if_splits)
  then have c1: "cores w1 = map (\<lambda>s. core (new_instance call s (uuids s))) WORKFLOW_STEPS"
    using d by (simp add: cores_def instances_of_def comp_def)
  have path: "path_ok (cores w1)" unfolding path_ok_def c1 by (simp add: comp_def core_def new_instance_def)
  have wait: "list_all waiting (cores w1)" unfolding c1 by (auto simp: list_all_iff core_def new_instance_def waiting_def)
  show ?thesis
  proof (cases begun)
    case None
    have "w2 = w1" using w2 None by (auto simp: activate_first_step_def rbind_eq_Inr split: if_splits option.splits)
    then have "path_of w' = (PROP_SUBMITTED, cores w1)" using w' None by (simp add: path_of_def cores_set_proposal)
    then show ?thesis unfolding before using hold [OF path wait] by simp
  next
    case (Some t)
    then have "activate_first_step call w1 = Inr (Some t, w2)" using w2 by (auto split: if_splits)
    from first_refines [OF this path wait] obtain us x vs y where
      "cores w1 = us @ (t, STEP_PENDING, x) # vs" "list_all ended us" "list_all waiting vs"
      "path_of w' = (PROP_IN_REVIEW, us @ (t, STEP_ACTIVE, y) # vs)" using Some w' by auto
    then show ?thesis unfolding before using open_at_once [of us t x vs y] path by simp
  qed
qed

lemma start_evaluation_refines:
  assumes ok: "review_ok w"
  shows "path_of (start_evaluation_for_closed_rounds call cutoff w) = path_of w \<or>
    path_step (path_of w) (path_of (start_evaluation_for_closed_rounds call cutoff w))"
proof (cases "prop_state (the_proposal w) = PROP_SUBMITTED")
  case True
  then have path: "path_ok (cores w)" "list_all waiting (cores w)" using ok by (auto simp: review_ok_def)
  show ?thesis
  proof (cases "activate_first_step call w")
    case (Inr r)
    obtain y w' where r: "r = (y, w')" by (cases r)
    show ?thesis
    proof (cases y)
      case None
      then have "w' = w" using Inr r by (auto simp: activate_first_step_def rbind_eq_Inr split: option.splits)
      then show ?thesis using Inr r by (simp add: start_evaluation_for_closed_rounds_def keep_on_error_def)
    next
      case (Some t)
      with first_refines [OF _ path] Inr r obtain us x vs z where "cores w = us @ (t, STEP_PENDING, x) # vs"
        "list_all ended us" "path_of w' = (PROP_IN_REVIEW, us @ (t, STEP_ACTIVE, z) # vs)" by blast
      then have "path_step (path_of w) (path_of w')" using True open_held by (simp add: path_of_def [of w])
      then show ?thesis using Inr r by (simp add: start_evaluation_for_closed_rounds_def keep_on_error_def)
    qed
  qed (simp add: start_evaluation_for_closed_rounds_def keep_on_error_def)
qed (simp add: start_evaluation_for_closed_rounds_def)

lemma expire_overdue_refines:
  assumes ok: "review_ok w"
  shows "path_of (expire_overdue call s w) = path_of w \<or> path_step (path_of w) (path_of (expire_overdue call s w))"
proof (cases "instance_of w s")
  case (Some i)
  show ?thesis
  proof (cases "is_overdue call i")
    case True
    then have active: "si_status i = STEP_ACTIVE" by (simp add: is_overdue_def)
    show ?thesis using expire_refines [OF ok Some active] True Some
      by (cases "expire_step call i w") (auto simp: expire_overdue_def keep_on_error_def)
  qed (simp add: expire_overdue_def Some)
qed (simp add: expire_overdue_def)

lemma workflow_refines:
  "workflow_step w w' \<Longrightarrow> review_ok w \<Longrightarrow> path_of w' = path_of w \<or> path_step (path_of w) (path_of w')"
proof (induction rule: workflow_step.induct)
  case (submitted call uuids u ready team w x w')
  then show ?case using submit_refines by blast
next
  case (completed call project u uuid outcome reason ns w y w')
  then show ?case using complete_refines by (metis complete_workflow_step_runs)
next
  case (rejected call u uuid reason ns w x w')
  then obtain i where i: "prop_state (the_proposal w) = PROP_IN_REVIEW" "locked_instance w uuid = Some i"
    "reject_at_step call i reason (act_pk u) (if user_can_view_internal_notes u w then ns else []) w = Inr w'"
    by (auto simp: reject_workflow_step_def rbind_eq_Inr split: if_splits option.splits)
  from reject_refines [OF rejected(2) i] show ?case by simp
next
  case (advanced call project u w y w')
  then have "prop_state (the_proposal w) = PROP_IN_REVIEW" "advance_step call project (Some (act_pk u)) w = Inr (y, w')"
    by (auto simp: advance_workflow_step_def conflict_Inr split: if_splits)
  then show ?case using advance_step_refines advanced(2) by blast
next
  case (started w call cutoff)
  then show ?case by (rule start_evaluation_refines)
next
  case (lapsed w call s)
  then show ?case by (rule expire_overdue_refines)
next
  case (reviewed w revs answers)
  then show ?case by (simp add: path_of_def reviewers_at_work_def cores_set_proposal)
qed

subsection \<open>The machine stops\<close>

definition path_rank :: "proposal_state \<times> core list \<Rightarrow> nat" where
  "path_rank = (\<lambda>(st, cs).
     let waits = length (filter (\<lambda>c. fst (snd c) = STEP_PENDING) cs) in
     case st of
       PROP_DRAFT \<Rightarrow> 14
     | PROP_SUBMITTED \<Rightarrow> 2 * waits + 1
     | PROP_IN_REVIEW \<Rightarrow> 2 * waits + (if list_ex wide_open cs then 2 else 1)
     | _ \<Rightarrow> 0)"

lemma ended_counts:
  "list_all ended cs \<Longrightarrow> filter (\<lambda>c. fst (snd c) = STEP_PENDING) cs = []" "list_all ended cs \<Longrightarrow> \<not> list_ex wide_open cs"
  by (induction cs) (auto simp: ended_def wide_open_def)

lemma path_length: "path_ok cs \<Longrightarrow> length cs = 6"
proof -
  assume "path_ok cs"
  then have "length (map fst cs) = length WORKFLOW_STEPS" by (simp only: path_ok_def)
  then show ?thesis by (simp add: WORKFLOW_STEPS_def)
qed

lemma waiting_counts: "list_all waiting ys \<Longrightarrow> \<not> list_ex wide_open ys"
  by (induction ys) (auto simp: waiting_def wide_open_def)

lemma skipped_counts: "list_all (\<lambda>c. fst (snd c) = STEP_SKIPPED) ys \<Longrightarrow> filter (\<lambda>c. fst (snd c) = STEP_PENDING) ys = []"
  by (induction ys) auto

lemma path_step_decreases: "path_step p q \<Longrightarrow> path_rank q < path_rank p"
proof (induction rule: path_step.induct)
  case (hold cs)
  have "length (filter (\<lambda>c. fst (snd c) = STEP_PENDING) cs) \<le> 6" by (metis length_filter_le path_length [OF hold(1)])
  then show ?case by (simp add: path_rank_def Let_def)
next
  case (open_at_once us t x vs y)
  have "length us + length vs = 5" using path_length [OF open_at_once(1)] by simp
  moreover have "length (filter (\<lambda>c. fst (snd c) = STEP_PENDING) vs) \<le> length vs" by (rule length_filter_le)
  ultimately have "length (filter (\<lambda>c. fst (snd c) = STEP_PENDING) vs) \<le> 5" by linarith
  then show ?case by (simp add: path_rank_def Let_def wide_open_def ended_counts [OF open_at_once(2)])
qed (auto simp: path_rank_def Let_def wide_open_def ended_counts skipped_counts waiting_counts dest: ended_not_pending)

end
