(* ===== verification/Workflow_Properties.thy ===== *)
theory Workflow_Properties
  imports Workflow_Refinement
begin

text \<open>
  The claims about the review workflow: the shape of every reachable proposal, the machine its operations
  refine, that it is decided after boundedly many moves, what acceptance requires, what later edits of the call
  can and cannot do.  The last section is a call on which the claims are evaluated.
\<close>

interpretation review_moves: ranked_system workflow_step review_ok path_of path_rank
  by unfold_locales (use workflow_refines path_step_decreases in blast)

subsection \<open>The shape of a proposal\<close>

lemma stands_one_active:
  "stands_at cs s \<Longrightarrow> length (filter wide_open cs) \<le> 1 \<and> (\<exists>st x. (s, st, x) \<in> set cs \<and> st \<in> {STEP_ACTIVE, STEP_COMPLETED})"
proof -
  assume "stands_at cs s"
  then obtain xs st x ys where cs: "cs = xs @ (s, st, x) # ys" "list_all ended xs" "list_all waiting ys"
    "st = STEP_ACTIVE \<or> st = STEP_COMPLETED" by (auto simp: stands_at_def)
  have "filter wide_open xs = []" "filter wide_open ys = []"
    using ended_counts(2) [OF cs(2)] waiting_counts [OF cs(3)] by (simp_all add: filter_empty_conv list_ex_iff)
  then show ?thesis using cs by auto
qed

lemma closed_none_active: "list_all (\<lambda>c. fst (snd c) \<noteq> STEP_ACTIVE) cs \<Longrightarrow> filter wide_open cs = []"
  by (auto simp: filter_empty_conv list_all_iff wide_open_def)

lemma review_ok_shape:
  assumes "review_ok w"
  shows "length (filter wide_open (cores w)) \<le> 1"
    "prop_state (the_proposal w) = PROP_IN_REVIEW \<longleftrightarrow> prop_workflow_step (the_proposal w) \<noteq> None"
    "prop_workflow_step (the_proposal w) = Some s \<Longrightarrow> \<exists>st x. (s, st, x) \<in> set (cores w) \<and> st \<in> {STEP_ACTIVE, STEP_COMPLETED}"
proof -
  have "length (filter wide_open (cores w)) \<le> 1 \<and>
      (prop_state (the_proposal w) = PROP_IN_REVIEW \<longleftrightarrow> prop_workflow_step (the_proposal w) \<noteq> None) \<and>
      (\<forall>s. prop_workflow_step (the_proposal w) = Some s \<longrightarrow>
        (\<exists>st x. (s, st, x) \<in> set (cores w) \<and> st \<in> {STEP_ACTIVE, STEP_COMPLETED}))"
  proof (cases "prop_state (the_proposal w)")
    case PROP_IN_REVIEW
    then show ?thesis using assms stands_one_active by (auto simp: review_ok_def)
  next
    case PROP_DRAFT
    then show ?thesis using assms by (simp add: review_ok_def cores_def instances_of_def)
  next
    case PROP_SUBMITTED
    then have "filter wide_open (cores w) = []"
      using assms waiting_counts [of "cores w"] by (simp add: review_ok_def filter_empty_conv list_ex_iff)
    then show ?thesis using PROP_SUBMITTED assms by (simp add: review_ok_def)
  next
    case PROP_ACCEPTED
    then have "filter wide_open (cores w) = []"
      using assms ended_counts(2) [of "cores w"] by (simp add: review_ok_def filter_empty_conv list_ex_iff)
    then show ?thesis using PROP_ACCEPTED assms by (simp add: review_ok_def)
  qed (use assms closed_none_active in \<open>simp_all add: review_ok_def\<close>)
  then show "length (filter wide_open (cores w)) \<le> 1"
    "prop_state (the_proposal w) = PROP_IN_REVIEW \<longleftrightarrow> prop_workflow_step (the_proposal w) \<noteq> None"
    "prop_workflow_step (the_proposal w) = Some s \<Longrightarrow> \<exists>st x. (s, st, x) \<in> set (cores w) \<and> st \<in> {STEP_ACTIVE, STEP_COMPLETED}"
    by blast+
qed

text \<open>An accepted proposal: nothing waits, and what ended it was a completed step.\<close>

definition accepted_ok :: "review_world \<Rightarrow> bool" where
  "accepted_ok w \<longleftrightarrow> review_ok w \<and> (prop_state (the_proposal w) = PROP_ACCEPTED \<longrightarrow>
     (\<exists>xs s x ys. cores w = xs @ (s, STEP_COMPLETED, x) # ys \<and> ended (s, STEP_COMPLETED, x) \<and>
        list_all (\<lambda>c. fst (snd c) = STEP_SKIPPED) ys))"

inductive_cases to_accepted: "path_step p (PROP_ACCEPTED, cs)"

lemma accepted_step: "accepted_ok w \<Longrightarrow> workflow_step w w' \<Longrightarrow> accepted_ok w'"
proof -
  assume ok: "accepted_ok w" and step: "workflow_step w w'"
  then have "review_ok w" by (simp add: accepted_ok_def)
  with step have moves: "path_of w' = path_of w \<or> path_step (path_of w) (path_of w')" and ok': "review_ok w'"
    using workflow_refines workflow_step_ok by blast+
  have "\<exists>xs s x ys. cores w' = xs @ (s, STEP_COMPLETED, x) # ys \<and> ended (s, STEP_COMPLETED, x) \<and>
      list_all (\<lambda>c. fst (snd c) = STEP_SKIPPED) ys" if acc: "prop_state (the_proposal w') = PROP_ACCEPTED"
    using moves
  proof
    assume "path_of w' = path_of w"
    then show ?thesis using ok acc by (simp add: path_of_def accepted_ok_def)
  next
    assume "path_step (path_of w) (path_of w')"
    then show ?thesis unfolding path_of_def acc by (elim to_accepted) (auto split: if_splits)
  qed
  with ok' show ?thesis by (simp add: accepted_ok_def)
qed

interpretation acceptances: invariant_system workflow_step accepted_ok
  by unfold_locales (rule accepted_step)

lemma draft_accepted_ok: "is_draft w \<Longrightarrow> accepted_ok w"
  using draft_ok by (simp add: accepted_ok_def is_draft_def)

subsection \<open>Closed proposals\<close>

definition is_closed :: "review_world \<Rightarrow> bool" where
  "is_closed w \<longleftrightarrow> prop_state (the_proposal w) \<in> {PROP_ACCEPTED, PROP_REJECTED, PROP_CANCELED}"

lemma closed_step:
  assumes "workflow_step w w'" and "review_ok w" and closed: "is_closed w"
  shows "same_path w w'"
  using assms(1)
proof cases
  case (submitted call uuids u ready team x)
  then show ?thesis using closed by (auto simp: submit_def is_closed_def split: if_splits)
next
  case (completed call project u uuid outcome reason ns y)
  then show ?thesis using closed by (auto simp: complete_workflow_step_def is_closed_def split: if_splits)
next
  case (rejected call u uuid reason ns x)
  then show ?thesis using closed by (auto simp: reject_workflow_step_def is_closed_def split: if_splits)
next
  case (advanced call project u y)
  then show ?thesis using closed by (auto simp: advance_workflow_step_def is_closed_def split: if_splits)
next
  case (started call cutoff)
  then show ?thesis using closed by (auto simp: start_evaluation_for_closed_rounds_def is_closed_def same_path_def)
next
  case (lapsed call s)
  have "expire_overdue call s w = w"
  proof (cases "instance_of w s")
    case (Some i)
    then have "si_status i \<noteq> STEP_ACTIVE" using overdue_instance [OF assms(2) Some] closed by (auto simp: is_closed_def)
    then show ?thesis using Some by (simp add: expire_overdue_def is_overdue_def)
  qed (simp add: expire_overdue_def)
  then show ?thesis using lapsed by (simp add: same_path_def)
next
  case (reviewed revs answers)
  then show ?thesis by (simp add: same_path_def reviewers_at_work_def cores_set_proposal)
qed

lemma closed_run: "workflow_step\<^sup>*\<^sup>* w w' \<Longrightarrow> review_ok w \<Longrightarrow> is_closed w \<Longrightarrow> same_path w w' \<and> review_ok w'"
proof (induction rule: rtranclp_induct)
  case base
  then show ?case by (simp add: same_path_def)
next
  case (step v u)
  then have "same_path w v" "review_ok v" by simp_all
  moreover from this step.prems have "is_closed v" by (simp add: is_closed_def same_path_def)
  ultimately show ?case using closed_step [OF step.hyps(2)] workflow_step_ok [OF step.hyps(2)] by (simp add: same_path_def)
qed

subsection \<open>A call with three steps\<close>

definition demo_step :: "step_id \<Rightarrow> nat option \<Rightarrow> transition_mode \<Rightarrow> responsible_role \<Rightarrow> call_step" where
  "demo_step s days mode role = \<lparr>cs_step = s, cs_is_enabled = True, cs_duration_in_days = days, cs_checklist = None,
     cs_checklist_required = True, cs_min_reviewers = None, cs_min_score_threshold = None, cs_transition_mode = mode,
     cs_responsible_role = Some role, cs_include_award_response = False\<rparr>"

definition demo_call :: "transition_mode \<Rightarrow> int \<Rightarrow> call_config" where
  "demo_call mode time = \<lparr>cc_steps = [demo_step ADMINISTRATIVE_CHECK None mode ROLE_CALL_MANAGER,
       demo_step ALLOCATION_DECISION (Some 10) AUTOMATIC_ON_COMPLETION ROLE_CALL_MANAGER,
       demo_step AWARD_RESPONSE (Some 10) AUTOMATIC_ON_COMPLETION ROLE_APPLICANT],
     cc_rules = [(AWARD_RESPONSE, STEP_STARTED)], cc_evaluates_on_submission = True, cc_required_questions = (\<lambda>_. 0),
     cc_robot = 1, cc_now = time\<rparr>"

definition demo_draft :: review_world where
  "demo_draft = \<lparr>the_proposal = \<lparr>prop_state = PROP_DRAFT, prop_workflow_step = None, prop_project = None,
       prop_approved_by = None, prop_created_by = Some 7, prop_submitted_at = None, prop_instances = [],
       prop_reviews = [], prop_completions = []\<rparr>, projects_created = [], mail_queue = []\<rparr>"

definition demo_manager :: actor where
  "demo_manager = \<lparr>act_pk = 5, act_is_staff = False, act_call_roles = [ROLE_CALL_MANAGER], act_manages_requested_offering = False\<rparr>"

definition demo_applicant :: actor where
  "demo_applicant = \<lparr>act_pk = 7, act_is_staff = False, act_call_roles = [], act_manages_requested_offering = False\<rparr>"

fun demo_uuid :: "step_id \<Rightarrow> nat" where
  "demo_uuid ADMINISTRATIVE_CHECK = 11"
| "demo_uuid ALLOCATION_DECISION = 15"
| "demo_uuid AWARD_RESPONSE = 16"
| "demo_uuid s = 12"

definition world_after :: "(workflow_error, 'a \<times> review_world) result \<Rightarrow> review_world" where
  "world_after = keep_on_error demo_draft"

definition demo_submitted :: "transition_mode \<Rightarrow> review_world" where
  "demo_submitted mode = world_after (submit (demo_call mode 0) demo_uuid demo_applicant True True demo_draft)"

definition demo_checked :: "transition_mode \<Rightarrow> review_world" where
  "demo_checked mode = world_after
     (complete_workflow_step (demo_call mode 60) 900 demo_manager 11 ELIGIBLE [] [] (demo_submitted mode))"

definition demo_lapsed :: review_world where
  "demo_lapsed = expire_overdue (demo_call AUTOMATIC_ON_COMPLETION 1000000) ALLOCATION_DECISION
     (demo_checked AUTOMATIC_ON_COMPLETION)"

definition demo_awarded :: review_world where
  "demo_awarded = world_after (complete_workflow_step (demo_call AUTOMATIC_ON_COMPLETION 1000060) 900 demo_applicant 16
     ACCEPTED_AWARD [] [] demo_lapsed)"

lemma world_after_step:
  "(\<And>x w'. r = Inr (x, w') \<Longrightarrow> workflow_step w w') \<Longrightarrow> (case r of Inl _ \<Rightarrow> False | Inr _ \<Rightarrow> True) \<Longrightarrow> workflow_step w (world_after r)"
  by (cases r) (auto simp: world_after_def keep_on_error_def)

lemma demo_is_draft: "is_draft demo_draft"
  by code_simp

lemma demo_reach_submitted: "workflow_step demo_draft (demo_submitted AUTOMATIC_ON_COMPLETION)"
  "workflow_step demo_draft (demo_submitted MANUAL)"
  unfolding demo_submitted_def by (rule world_after_step, erule submitted, code_simp)+

lemma demo_reach_checked: "workflow_step (demo_submitted AUTOMATIC_ON_COMPLETION) (demo_checked AUTOMATIC_ON_COMPLETION)"
  "workflow_step (demo_submitted MANUAL) (demo_checked MANUAL)"
  unfolding demo_checked_def by (rule world_after_step, erule completed, code_simp)+

lemma demo_reach_lapsed: "workflow_step (demo_checked AUTOMATIC_ON_COMPLETION) demo_lapsed"
  unfolding demo_lapsed_def by (rule lapsed)

lemma demo_reach_awarded: "workflow_step demo_lapsed demo_awarded"
  unfolding demo_awarded_def by (rule world_after_step, erule completed, code_simp)

lemma demo_runs: "workflow_step\<^sup>*\<^sup>* demo_draft demo_awarded" "workflow_step\<^sup>*\<^sup>* demo_draft (demo_checked MANUAL)"
  "workflow_step\<^sup>*\<^sup>* demo_draft (demo_checked AUTOMATIC_ON_COMPLETION)"
  using demo_reach_submitted demo_reach_checked demo_reach_lapsed demo_reach_awarded
  by (meson rtranclp.rtrancl_into_rtrancl rtranclp.rtrancl_refl)+

lemma demo_outcome:
  "prop_state (the_proposal demo_awarded) = PROP_ACCEPTED" "prop_project (the_proposal demo_awarded) = Some 900"
  "cores demo_awarded = [(ADMINISTRATIVE_CHECK, STEP_COMPLETED, Some ELIGIBLE), (TECHNICAL_ASSESSMENT, STEP_SKIPPED, None),
     (EXPERT_REVIEW, STEP_SKIPPED, None), (PANEL_REVIEW, STEP_SKIPPED, None),
     (ALLOCATION_DECISION, STEP_EXPIRED, Some OUT_EXPIRED), (AWARD_RESPONSE, STEP_COMPLETED, Some ACCEPTED_AWARD)]"
  by code_simp+

subsection \<open>Claims\<close>

lemma active_instances: "length (filter (\<lambda>i. si_status i = STEP_ACTIVE) (instances_of w)) = length (filter wide_open (cores w))"
  by (simp add: cores_def filter_map comp_def wide_open_def core_def)

lemma core_instance: "(s, st, x) \<in> set (cores w) \<Longrightarrow> \<exists>i \<in> set (instances_of w). si_step i = s \<and> si_status i = st"
  by (auto simp: cores_def core_def)

text \<open>C5. Whatever requests, tasks, reviews and changes of the call's configuration happen to a proposal from its
  draft on, in any order: at most one of its steps is active; it is in review exactly when it points to a step, and
  that step is active or completed and waiting to be advanced; it has a project exactly when it is accepted, and
  never more than one was created.\<close>

theorem workflow_shape:
  assumes "is_draft w0" and "workflow_step\<^sup>*\<^sup>* w0 w"
  shows "length (filter (\<lambda>i. si_status i = STEP_ACTIVE) (instances_of w)) \<le> 1 \<and>
    (prop_state (the_proposal w) = PROP_IN_REVIEW \<longleftrightarrow> prop_workflow_step (the_proposal w) \<noteq> None) \<and>
    (case prop_workflow_step (the_proposal w) of
       None \<Rightarrow> True
     | Some s \<Rightarrow> \<exists>i \<in> set (instances_of w). si_step i = s \<and> (si_status i = STEP_ACTIVE \<or> si_status i = STEP_COMPLETED)) \<and>
    (prop_project (the_proposal w) \<noteq> None \<longleftrightarrow> prop_state (the_proposal w) = PROP_ACCEPTED) \<and>
    projects_created w = (case prop_project (the_proposal w) of None \<Rightarrow> [] | Some p \<Rightarrow> [p])"
proof -
  have ok: "review_ok w" by (rule reviews.inv_run [OF assms(2) draft_ok [OF assms(1)]])
  note shape = review_ok_shape [OF ok]
  have "case prop_workflow_step (the_proposal w) of None \<Rightarrow> True
      | Some s \<Rightarrow> \<exists>i \<in> set (instances_of w). si_step i = s \<and> (si_status i = STEP_ACTIVE \<or> si_status i = STEP_COMPLETED)"
  proof (cases "prop_workflow_step (the_proposal w)")
    case (Some s)
    from shape(3) [OF Some] show ?thesis using Some core_instance by fastforce
  qed simp
  then show ?thesis using shape(1,2) ok unfolding active_instances by (simp add: review_ok_def)
qed

theorem workflow_shape_witness:
  "length (filter (\<lambda>i. si_status i = STEP_ACTIVE) (instances_of (demo_checked MANUAL))) \<le> 1 \<and>
   projects_created demo_awarded = [900]"
  using workflow_shape [OF demo_is_draft demo_runs(2)] workflow_shape [OF demo_is_draft demo_runs(1)] demo_outcome(2)
  by simp

text \<open>C11. The workflow service is the machine of its paths: every request, task and outside change either leaves the
  proposal's state and the statuses and outcomes of its steps as they were, or makes exactly one move of the
  abstract machine \<open>path_step\<close> (hold or open on submission, park, pass on, accept, refuse, lapse).\<close>

theorem workflow_refines_paths:
  assumes "is_draft w0" and "workflow_step\<^sup>*\<^sup>* w0 w" and "workflow_step w w'"
  shows "path_of w' = path_of w \<or> path_step (path_of w) (path_of w')"
  using workflow_refines [OF assms(3) reviews.inv_run [OF assms(2) draft_ok [OF assms(1)]]] .

theorem workflow_refines_paths_witness:
  "path_of (demo_submitted MANUAL) = path_of demo_draft \<or> path_step (path_of demo_draft) (path_of (demo_submitted MANUAL))"
  by (rule workflow_refines_paths [OF demo_is_draft rtranclp.rtrancl_refl demo_reach_submitted(2)])

text \<open>C22. A proposal is decided after boundedly many moves: along any sequence of requests, tasks and changes from a
  draft, however long, its path changes at most fourteen times (one submission, one start, and each of the six
  steps completed and advanced).\<close>

theorem workflow_ends:
  assumes "is_draft w0" and "successively workflow_step (w0 # ws)"
  shows "length (remdups_adj (map path_of (w0 # ws))) \<le> 15"
proof -
  have "path_rank (path_of w0) = 14" using assms(1) by (simp add: is_draft_def path_of_def path_rank_def)
  with review_moves.changes_bounded [OF assms(2) draft_ok [OF assms(1)]] show ?thesis by simp
qed

theorem workflow_ends_witness:
  "length (remdups_adj (map path_of [demo_draft, demo_submitted MANUAL, demo_checked MANUAL])) \<le> 15"
proof -
  have "successively workflow_step [demo_draft, demo_submitted MANUAL, demo_checked MANUAL]"
    using demo_reach_submitted(2) demo_reach_checked(2) by simp
  from workflow_ends [OF demo_is_draft this] show ?thesis .
qed

text \<open>C20. An accepted proposal has earned it: none of its steps waits any more, every step was skipped by the call,
  expired, or completed with an outcome that is neither negative nor reserved for the system, the last step that
  was not skipped was completed and did not expire, and from then on nothing changes its path or its project.\<close>

theorem accepted_path:
  assumes "is_draft w0" and "workflow_step\<^sup>*\<^sup>* w0 w" and "prop_state (the_proposal w) = PROP_ACCEPTED"
    and "workflow_step\<^sup>*\<^sup>* w w'"
  shows "list_all ended (cores w) \<and>
    (\<exists>xs s x ys. cores w = xs @ (s, STEP_COMPLETED, x) # ys \<and> list_all (\<lambda>c. fst (snd c) = STEP_SKIPPED) ys) \<and>
    path_of w' = path_of w \<and> projects_created w' = projects_created w"
proof -
  have acc: "accepted_ok w" by (rule acceptances.inv_run [OF assms(2) draft_accepted_ok [OF assms(1)]])
  then have ok: "review_ok w" by (simp add: accepted_ok_def)
  have "same_path w w'" using closed_run [OF assms(4) ok] assms(3) by (simp add: is_closed_def)
  then show ?thesis using acc assms(3) by (auto simp: accepted_ok_def review_ok_def same_path_def path_of_def)
qed

theorem accepted_path_witness: "list_all ended (cores demo_awarded)"
  using accepted_path [OF demo_is_draft demo_runs(1) demo_outcome(1) rtranclp.rtrancl_refl] by blast


text \<open>A completed step that waits for its manual advance is lost when the call's step stops being manual (its mode
  is switched, or its row deleted): under such a configuration no endpoint and no task moves the proposal any
  more; completing and rejecting need an active step, advancing needs the manual mode, and only active steps expire.\<close>

theorem parked_proposal_is_stuck:
  assumes "review_ok w" and "prop_state (the_proposal w) = PROP_IN_REVIEW" and "prop_workflow_step (the_proposal w) = Some s"
    and "instance_of w s = Some i" and "si_status i = STEP_COMPLETED"
    and "case call_step_of call s of None \<Rightarrow> True | Some cs \<Rightarrow> cs_transition_mode cs = AUTOMATIC_ON_COMPLETION"
  shows "(\<exists>e. complete_workflow_step call project u uuid outcome reason internal w = Inl e) \<and>
    (\<exists>e. reject_workflow_step call u uuid reason internal w = Inl e) \<and>
    (\<exists>e. advance_workflow_step call project u w = Inl e) \<and>
    (\<exists>e. submit call uuids u ready team w = Inl e) \<and>
    expire_overdue call t w = w \<and> start_evaluation_for_closed_rounds call cutoff w = w"
proof -
  have member: "(s, STEP_COMPLETED, si_outcome i) \<in> set (cores w)"
    using instance_core [OF assms(4)] find_instance [OF assms(4)] assms(5) by (simp add: core_def)
  from parked_path [OF in_review(3) [OF assms(1-3)] member] obtain xs ys where
    cs: "cores w = xs @ (s, STEP_COMPLETED, si_outcome i) # ys" "list_all ended xs" "list_all waiting ys" by blast
  have none: "list_all (\<lambda>c. fst (snd c) \<noteq> STEP_ACTIVE) (cores w)" unfolding cs(1) by (rule no_active [OF cs(2,3)]) simp
  then have idle: "si_status j \<noteq> STEP_ACTIVE" if "j \<in> set (instances_of w)" for j
    using that by (auto simp: cores_def core_def list_all_iff)
  then have "locked_instance w uuid = None" by (auto simp: locked_instance_def find_None_iff)
  moreover have "\<not> is_awaiting_manual_advance call w"
    using assms(3,4,6) by (auto simp: is_awaiting_manual_advance_def split: option.splits)
  moreover have "expire_overdue call t w = w"
    using idle find_instance by (fastforce simp: expire_overdue_def is_overdue_def split: option.split)
  ultimately show ?thesis using assms(2,3)
    by (auto simp: complete_workflow_step_def reject_workflow_step_def advance_workflow_step_def advance_step_def
        as_conflict_def submit_def start_evaluation_for_closed_rounds_def)
qed

theorem parked_proposal_is_stuck_witness:
  "\<exists>e. advance_workflow_step (demo_call AUTOMATIC_ON_COMPLETION 120) 900 demo_manager (demo_checked MANUAL) = Inl e"
proof -
  have parked: "review_ok (demo_checked MANUAL)"
    by (rule reviews.inv_run [OF demo_runs(2) draft_ok [OF demo_is_draft]])
  have here: "prop_state (the_proposal (demo_checked MANUAL)) = PROP_IN_REVIEW"
    "prop_workflow_step (the_proposal (demo_checked MANUAL)) = Some ADMINISTRATIVE_CHECK"
    "si_status (the (instance_of (demo_checked MANUAL) ADMINISTRATIVE_CHECK)) = STEP_COMPLETED"
    "instance_of (demo_checked MANUAL) ADMINISTRATIVE_CHECK \<noteq> None"
    "case call_step_of (demo_call AUTOMATIC_ON_COMPLETION 120) ADMINISTRATIVE_CHECK of None \<Rightarrow> True
       | Some cs \<Rightarrow> cs_transition_mode cs = AUTOMATIC_ON_COMPLETION"
    by code_simp+
  then obtain i where "instance_of (demo_checked MANUAL) ADMINISTRATIVE_CHECK = Some i" "si_status i = STEP_COMPLETED" by auto
  from parked_proposal_is_stuck [OF parked here(1,2) this here(5)] show ?thesis by blast
qed

subsection \<open>What later edits of the call do not change\<close>

text \<open>Another choice of enabled steps, everything else of the call as it was.\<close>

definition with_enabled :: "(step_id \<Rightarrow> bool) \<Rightarrow> call_config \<Rightarrow> call_config" where
  "with_enabled enabled call = call\<lparr>cc_steps := map (\<lambda>cs. cs\<lparr>cs_is_enabled := enabled (cs_step cs)\<rparr>) (cc_steps call)\<rparr>"

lemma call_step_with_enabled:
  "call_step_of (with_enabled f call) s = map_option (\<lambda>cs. cs\<lparr>cs_is_enabled := f (cs_step cs)\<rparr>) (call_step_of call s)"
proof -
  have "List.find (\<lambda>cs. cs_step cs = s) (map (\<lambda>cs. cs\<lparr>cs_is_enabled := f (cs_step cs)\<rparr>) css) =
      map_option (\<lambda>cs. cs\<lparr>cs_is_enabled := f (cs_step cs)\<rparr>) (List.find (\<lambda>cs. cs_step cs = s) css)" for css
    by (induction css) auto
  then show ?thesis by (simp add: call_step_of_def with_enabled_def)
qed

lemma with_enabled_fields [simp]:
  "cc_rules (with_enabled f call) = cc_rules call" "cc_now (with_enabled f call) = cc_now call"
  "cc_robot (with_enabled f call) = cc_robot call" "cc_required_questions (with_enabled f call) = cc_required_questions call"
  by (simp_all add: with_enabled_def)

lemma started_with_enabled: "started_instance (with_enabled f call) i = started_instance call i"
  by (simp add: started_instance_def call_step_with_enabled Let_def split: option.split)

lemma dispatch_with_enabled: "dispatch_step_event (with_enabled f call) = dispatch_step_event call"
  by (intro ext) (simp only: dispatch_step_event_def with_enabled_fields)

lemma ensure_with_enabled: "ensure_completion (with_enabled f call) = ensure_completion call"
  by (intro ext) (simp only: ensure_completion_def with_enabled_fields)

lemma activate_with_enabled: "activate_next_step (with_enabled f call) = activate_next_step call"
  by (intro ext) (simp add: activate_next_step_def call_step_with_enabled started_with_enabled ensure_with_enabled
      dispatch_with_enabled Let_def split: option.split)

lemma advance_with_enabled: "advance_to_next (with_enabled f call) = advance_to_next call"
  by (intro ext) (simp only: advance_to_next_def activate_with_enabled with_enabled_fields)

lemma completed_with_enabled: "completed_instance (with_enabled f call) = completed_instance call"
  by (intro ext) (simp only: completed_instance_def with_enabled_fields)

lemma unanswered_with_enabled: "unanswered_questions (with_enabled f call) = unanswered_questions call"
  by (intro ext) (simp only: unanswered_questions_def with_enabled_fields)

lemma gates_with_enabled:
  "enforce_step_gates (with_enabled f call) outcome (call_step_of (with_enabled f call) s) w =
     enforce_step_gates call outcome (call_step_of call s) w"
  by (cases "call_step_of call s")
    (auto simp: enforce_step_gates_def call_step_with_enabled unanswered_with_enabled split: option.split)

lemma mode_with_enabled:
  "(case call_step_of (with_enabled f call) s of None \<Rightarrow> False | Some cs \<Rightarrow> cs_transition_mode cs = MANUAL) =
     (case call_step_of call s of None \<Rightarrow> False | Some cs \<Rightarrow> cs_transition_mode cs = MANUAL)"
  by (cases "call_step_of call s") (simp_all add: call_step_with_enabled)

lemma complete_with_enabled: "complete_step (with_enabled f call) = complete_step call"
  by (intro ext) (simp only: complete_step_def Let_def gates_with_enabled mode_with_enabled completed_with_enabled
      dispatch_with_enabled advance_with_enabled)

lemma awaiting_with_enabled: "is_awaiting_manual_advance (with_enabled f call) = is_awaiting_manual_advance call"
  by (intro ext) (simp only: is_awaiting_manual_advance_def mode_with_enabled)

text \<open>C27. The path is fixed at submission: enabling or disabling steps in the call afterwards makes no difference to
  completing, rejecting, advancing, expiring or starting the evaluation of a proposal that has its instances.\<close>

theorem path_is_fixed_at_submission:
  "complete_workflow_step (with_enabled f call) project u uuid outcome reason internal w =
     complete_workflow_step call project u uuid outcome reason internal w \<and>
   reject_workflow_step (with_enabled f call) u uuid reason internal w = reject_workflow_step call u uuid reason internal w \<and>
   advance_workflow_step (with_enabled f call) project u w = advance_workflow_step call project u w \<and>
   expire_overdue (with_enabled f call) s w = expire_overdue call s w \<and>
   start_evaluation_for_closed_rounds (with_enabled f call) cutoff w = start_evaluation_for_closed_rounds call cutoff w"
proof -
  have act: "user_can_act_on_active_step (with_enabled f call) u w = user_can_act_on_active_step call u w"
    by (simp add: user_can_act_on_active_step_def call_step_with_enabled split: option.split)
  have rej: "reject_at_step (with_enabled f call) = reject_at_step call"
    by (intro ext) (simp only: reject_at_step_def completed_with_enabled dispatch_with_enabled)
  have adv: "advance_step (with_enabled f call) = advance_step call"
    by (intro ext) (simp only: advance_step_def awaiting_with_enabled advance_with_enabled)
  have exp: "expire_step (with_enabled f call) = expire_step call"
    by (intro ext) (simp only: expire_step_def activate_with_enabled dispatch_with_enabled with_enabled_fields)
  have first: "activate_first_step (with_enabled f call) = activate_first_step call"
    by (intro ext) (simp only: activate_first_step_def activate_with_enabled)
  have due: "is_overdue (with_enabled f call) = is_overdue call"
    by (intro ext) (simp only: is_overdue_def with_enabled_fields)
  show ?thesis
    unfolding complete_workflow_step_def reject_workflow_step_def advance_workflow_step_def expire_overdue_def
      start_evaluation_for_closed_rounds_def act rej adv exp first due complete_with_enabled with_enabled_fields
    by simp
qed

end
