(* ===== verification/Call_Workflow.thy ===== *)
theory Call_Workflow
  imports Workflow_Properties
begin

text \<open>
  The configuration of a call's workflow: \<open>CallWorkflowStep.clean\<close> of \<^verbatim>\<open>proposal/models.py\<close>, what the
  serializer of steps checks and synchronises, the deletion of a step, the seeding of a new call
  (\<^verbatim>\<open>handlers.py\<close>) and the checks of \<open>activate\<close> that concern steps.  A call is the list of its steps; the pair
  of call and step is unique.
\<close>

fun default_responsible_role :: "step_id \<Rightarrow> responsible_role" where
  "default_responsible_role ADMINISTRATIVE_CHECK = ROLE_CALL_MANAGER"
| "default_responsible_role TECHNICAL_ASSESSMENT = ROLE_OFFERING_MANAGER"
| "default_responsible_role EXPERT_REVIEW = ROLE_REVIEWER"
| "default_responsible_role PANEL_REVIEW = ROLE_PANEL_MEMBER"
| "default_responsible_role ALLOCATION_DECISION = ROLE_CALL_MANAGER"
| "default_responsible_role AWARD_RESPONSE = ROLE_APPLICANT"

definition MANDATORY_STEPS :: "step_id list" where
  "MANDATORY_STEPS = [ALLOCATION_DECISION]"

definition step_dependencies :: "step_id \<Rightarrow> step_id list" where
  "step_dependencies s = (if s = PANEL_REVIEW then [EXPERT_REVIEW] else [])"

datatype config_error = Step_is_mandatory step_id | Step_requires step_id step_id | Not_added_directly
  | Only_on_allocation_decision | Not_unique | No_enabled_step | Mandatory_missing "step_id list" | Does_not_exist

definition enabled_steps :: "call_step list \<Rightarrow> step_id list" where
  "enabled_steps rows = map cs_step (filter cs_is_enabled rows)"

text \<open>\<open>clean\<close> of a step whose row is excluded from the enabled ones.\<close>

definition clean_step :: "call_step list \<Rightarrow> step_id \<Rightarrow> bool \<Rightarrow> (config_error, unit) result" where
  "clean_step rows s enabled =
     (if \<not> enabled \<and> s \<in> set MANDATORY_STEPS then Inl (Step_is_mandatory s)
      else if enabled
      then (case List.find (\<lambda>d. d \<notin> set (enabled_steps (filter (\<lambda>r. cs_step r \<noteq> s) rows))) (step_dependencies s) of
              None \<Rightarrow> Inr () | Some d \<Rightarrow> Inl (Step_requires s d))
      else Inr ())"

definition with_default_role :: "call_step \<Rightarrow> call_step" where
  "with_default_role r =
     (if cs_responsible_role r = None then r\<lparr>cs_responsible_role := Some (default_responsible_role (cs_step r))\<rparr> else r)"

definition blank_step :: "step_id \<Rightarrow> bool \<Rightarrow> call_step" where
  "blank_step s enabled = with_default_role \<lparr>cs_step = s, cs_is_enabled = enabled, cs_duration_in_days = None,
     cs_checklist = None, cs_checklist_required = True, cs_min_reviewers = None, cs_min_score_threshold = None,
     cs_transition_mode = AUTOMATIC_ON_COMPLETION, cs_responsible_role = None, cs_include_award_response = False\<rparr>"

text \<open>\<open>_sync_award_response_step\<close> after a step was saved.\<close>

definition sync_award_response_step :: "call_step \<Rightarrow> call_step list \<Rightarrow> call_step list" where
  "sync_award_response_step r rows =
     (if cs_step r \<noteq> ALLOCATION_DECISION then rows
      else if cs_include_award_response r
      then (if AWARD_RESPONSE \<in> set (map cs_step rows)
            then map (\<lambda>q. if cs_step q = AWARD_RESPONSE then q\<lparr>cs_is_enabled := True\<rparr> else q) rows
            else rows @ [blank_step AWARD_RESPONSE True])
      else map (\<lambda>q. if cs_step q = AWARD_RESPONSE then q\<lparr>cs_is_enabled := False\<rparr> else q) rows)"

definition create_call_step :: "call_step \<Rightarrow> call_step list \<Rightarrow> (config_error, call_step list) result" where
  "create_call_step r rows =
     (if cs_step r = AWARD_RESPONSE then Inl Not_added_directly
      else if cs_include_award_response r \<and> cs_step r \<noteq> ALLOCATION_DECISION then Inl Only_on_allocation_decision
      else rbind (clean_step rows (cs_step r) (cs_is_enabled r)) (\<lambda>_.
        if cs_step r \<in> set (map cs_step rows) then Inl Not_unique
        else Inr (sync_award_response_step r (rows @ [with_default_role r]))))"

definition update_call_step :: "step_id \<Rightarrow> call_step \<Rightarrow> call_step list \<Rightarrow> (config_error, call_step list) result" where
  "update_call_step s r rows =
     (if s \<notin> set (map cs_step rows) then Inl Does_not_exist
      else if cs_include_award_response r \<and> s \<noteq> ALLOCATION_DECISION then Inl Only_on_allocation_decision
      else rbind (clean_step rows s (cs_is_enabled r)) (\<lambda>_.
        let saved = with_default_role (r\<lparr>cs_step := s\<rparr>)
        in Inr (sync_award_response_step saved (map (\<lambda>q. if cs_step q = s then saved else q) rows))))"

definition delete_call_step :: "step_id \<Rightarrow> call_step list \<Rightarrow> (config_error, call_step list) result" where
  "delete_call_step s rows =
     (if s \<notin> set (map cs_step rows) then Inl Does_not_exist else Inr (filter (\<lambda>q. cs_step q \<noteq> s) rows))"

definition seed_workflow_steps :: "call_step list" where
  "seed_workflow_steps =
     map (\<lambda>s. blank_step s (default_responsible_role s = ROLE_CALL_MANAGER)) (filter (\<lambda>s. s \<noteq> AWARD_RESPONSE) WORKFLOW_STEPS)"

definition check_activation :: "call_step list \<Rightarrow> (config_error, unit) result" where
  "check_activation rows =
     (let missing = filter (\<lambda>s. s \<notin> set (enabled_steps rows)) MANDATORY_STEPS
      in if enabled_steps rows = [] then Inl No_enabled_step
         else if missing \<noteq> [] then Inl (Mandatory_missing missing) else Inr ())"

subsection \<open>What holds and what does not\<close>

lemma seeded_call_activates: "check_activation seed_workflow_steps = Inr ()"
  by code_simp

text \<open>A saved step never leaves the mandatory one disabled.\<close>

lemma update_keeps_mandatory:
  assumes "update_call_step s r rows = Inr rows'" and "s \<in> set MANDATORY_STEPS"
  shows "s \<in> set (enabled_steps rows')"
proof -
  let ?saved = "with_default_role (r\<lparr>cs_step := s\<rparr>)"
  have s: "s = ALLOCATION_DECISION" using assms(2) by (simp add: MANDATORY_STEPS_def)
  have e: "cs_is_enabled r" "s \<in> set (map cs_step rows)"
    "rows' = sync_award_response_step ?saved (map (\<lambda>q. if cs_step q = s then ?saved else q) rows)"
    using assms by (auto simp: update_call_step_def clean_step_def rbind_eq_Inr Let_def split: if_splits)
  have saved: "cs_is_enabled ?saved" "cs_step ?saved = s" using e(1) by (auto simp: with_default_role_def)
  have "?saved \<in> set (map (\<lambda>q. if cs_step q = s then ?saved else q) rows)" using e(2) by force
  then have "?saved \<in> set rows'"
    unfolding e(3) sync_award_response_step_def using saved(2) s by (auto simp: image_iff intro!: bexI)
  then show ?thesis using saved by (force simp: enabled_steps_def)
qed

text \<open>
  But the row of the mandatory step can be deleted: \<open>workflow_step_detail\<close> only asks that the call is not archived,
  and proposals submitted afterwards have no allocation decision on their path.
\<close>

lemma mandatory_step_can_be_deleted:
  "delete_call_step ALLOCATION_DECISION seed_workflow_steps = Inr (filter (\<lambda>r. cs_step r \<noteq> ALLOCATION_DECISION) seed_workflow_steps) \<and>
   check_activation (filter (\<lambda>r. cs_step r \<noteq> ALLOCATION_DECISION) seed_workflow_steps) = Inl (Mandatory_missing [ALLOCATION_DECISION])"
  by code_simp

text \<open>And a step another one requires can be disabled: \<open>clean\<close> looks only at what the saved step itself requires.\<close>

lemma required_step_can_be_disabled:
  "\<exists>rows rows'. clean_step rows PANEL_REVIEW True = Inr () \<and> PANEL_REVIEW \<in> set (enabled_steps rows) \<and>
     update_call_step EXPERT_REVIEW (blank_step EXPERT_REVIEW False) rows = Inr rows' \<and>
     PANEL_REVIEW \<in> set (enabled_steps rows') \<and> clean_step rows' PANEL_REVIEW True = Inl (Step_requires PANEL_REVIEW EXPERT_REVIEW)"
proof -
  let ?rows = "[blank_step EXPERT_REVIEW True, blank_step PANEL_REVIEW True]"
  let ?rows' = "[blank_step EXPERT_REVIEW False, blank_step PANEL_REVIEW True]"
  have "clean_step ?rows PANEL_REVIEW True = Inr () \<and> PANEL_REVIEW \<in> set (enabled_steps ?rows) \<and>
     update_call_step EXPERT_REVIEW (blank_step EXPERT_REVIEW False) ?rows = Inr ?rows' \<and>
     PANEL_REVIEW \<in> set (enabled_steps ?rows') \<and> clean_step ?rows' PANEL_REVIEW True = Inl (Step_requires PANEL_REVIEW EXPERT_REVIEW)"
    by code_simp
  then show ?thesis by blast
qed

end
