(* ===== verification/Role_Model.thy ===== *)
theory Role_Model
  imports Effects
begin

text \<open>
  Roles and who may do what: the tables of \<^verbatim>\<open>waldur_core/permissions/models.py\<close>, the scopes they are about, and
  the questions \<^verbatim>\<open>permissions/utils.py\<close> answers from them: ancestors of a scope, the ceiling a personal
  access token puts on its user, \<open>has_permission\<close> and its variants, \<open>has_user\<close> and the lookup tables.  A scope is
  named by its model and primary key, which is what a content type and an object identifier are.
\<close>

type_synonym entity = "string \<times> nat"
type_synonym perm = string

subsection \<open>Rows\<close>

text \<open>An account, with what the restrictions of a scope look at.\<close>

record account =
  acc_pk :: nat
  acc_is_active :: bool
  acc_is_staff :: bool
  acc_is_support :: bool
  acc_is_admin_deactivated :: bool
  acc_email :: string
  acc_affiliations :: "string list"
  acc_identity_source :: string
  acc_nationality :: string
  acc_nationalities :: "string list"
  acc_organization_type :: string
  acc_assurance :: "string list"

record role_row =
  ro_pk :: nat
  ro_name :: string
  ro_is_system :: bool
  ro_is_active :: bool
  ro_content_type :: string
  ro_template :: "nat option"

text \<open>\<open>UserRole\<close>.\<close>

record grant =
  g_pk :: nat
  g_user :: nat
  g_role :: nat
  g_scope :: entity
  g_created_by :: "nat option"
  g_revoked_by :: "nat option"
  g_reason :: string
  g_source :: string
  g_expiration :: "int option"
  g_active :: bool

datatype role_event = Role_granted nat string | Role_revoked nat string | Role_updated nat string

subsection \<open>Scopes\<close>

text \<open>
  What an attribute of a scope is: missing (\<open>hasattr\<close> is false), \<open>None\<close>, or another scope.  \<open>scope_tree\<close> holds
  what the operations on roles read of the scopes: their attributes, the customer of \<open>_get_customer\<close>, the
  restrictions on members, and a few flags; \<open>sharing\<close> is the attribute \<open>shared\<close>, which only offerings have.
\<close>

datatype attribute = Missing | Null | To entity

record member_rules =
  mr_email_patterns :: "string list"
  mr_affiliations :: "string list"
  mr_identity_sources :: "string list"
  mr_nationalities :: "string list"
  mr_organization_types :: "string list"
  mr_assurance_levels :: "string list"

record scope_tree =
  attribute_of :: "entity \<Rightarrow> string \<Rightarrow> attribute"
  customer_of :: "entity \<Rightarrow> entity option"
  rules_of :: "entity \<Rightarrow> member_rules option"
  unavailable :: "entity \<Rightarrow> bool"
  removed_projects :: "nat list"
  sharing :: "entity \<Rightarrow> bool option"
  slug_of :: "entity \<Rightarrow> string"
  still_exists :: "entity \<Rightarrow> bool"

record roles_db =
  rd_accounts :: "account list"
  rd_roles :: "role_row list"
  rd_permissions :: "(nat \<times> perm) list"
  rd_availability :: "(nat \<times> entity) list"
  rd_concealments :: "(nat \<times> entity) list"
  rd_grants :: "grant list"
  rd_next :: nat
  rd_events :: "role_event list"

definition CUSTOMER_MODEL :: string where
  "CUSTOMER_MODEL = ''customer''"

definition PROJECT_MODEL :: string where
  "PROJECT_MODEL = ''project''"

definition USER_MODEL :: string where
  "USER_MODEL = ''user''"

definition parent :: "scope_tree \<Rightarrow> entity option \<Rightarrow> string \<Rightarrow> attribute" where
  "parent st e a = (case e of None \<Rightarrow> Missing | Some x \<Rightarrow> attribute_of st x a)"

definition reached :: "attribute \<Rightarrow> entity option" where
  "reached a = (case a of To e \<Rightarrow> Some e | _ \<Rightarrow> None)"

text \<open>The entries \<open>get_scope_ancestors\<close> appends for one attribute, \<open>None\<close> included.\<close>

definition ancestors_by :: "scope_tree \<Rightarrow> entity option \<Rightarrow> string \<Rightarrow> (entity option \<Rightarrow> entity option list) \<Rightarrow> entity option list" where
  "ancestors_by st e a further =
     (if parent st e a = Missing then [] else reached (parent st e a) # further (reached (parent st e a)))"

definition get_scope_ancestors :: "scope_tree \<Rightarrow> entity \<Rightarrow> entity list" where
  "get_scope_ancestors st scope =
     (if fst scope = USER_MODEL then [scope]
      else scope # List.map_filter id
        (ancestors_by st (Some scope) ''resource'' (\<lambda>r.
           ancestors_by st r ''offering'' (\<lambda>_. []) @
           ancestors_by st r ''project'' (\<lambda>p. ancestors_by st p ''customer'' (\<lambda>_. []))) @
         ancestors_by st (Some scope) ''offering'' (\<lambda>_. []) @
         ancestors_by st (Some scope) ''project'' (\<lambda>p. ancestors_by st p ''customer'' (\<lambda>_. [])) @
         ancestors_by st (Some scope) ''customer'' (\<lambda>_. [])))"

subsection \<open>Callers\<close>

text \<open>
  A check is made for a user object or for a request; a request made with a personal access token carries the
  token's permissions and its entity bindings, where \<open>None\<close> is an entry of the stored list that is not a pair of
  identifiers.
\<close>

record access_token =
  pat_scopes :: "perm list"
  pat_allowed_scopes :: "entity option list"

datatype caller = By_user account | By_request account "access_token option"

primrec user_of :: "caller \<Rightarrow> account" where
  "user_of (By_user u) = u"
| "user_of (By_request u _) = u"

primrec token_of :: "caller \<Rightarrow> access_token option" where
  "token_of (By_user u) = None"
| "token_of (By_request _ t) = t"

definition pat_allowed_pairs :: "access_token \<Rightarrow> entity list" where
  "pat_allowed_pairs t = List.map_filter id (pat_allowed_scopes t)"

definition pat_entity_check :: "scope_tree \<Rightarrow> access_token \<Rightarrow> entity option \<Rightarrow> bool" where
  "pat_entity_check st t scope =
     (if pat_allowed_pairs t = [] then True
      else case scope of
             None \<Rightarrow> False
           | Some s \<Rightarrow> list_ex (\<lambda>a. a \<in> set (pat_allowed_pairs t)) (get_scope_ancestors st s))"

text \<open>\<open>Some False\<close> refuses at once, \<open>None\<close> goes on.\<close>

definition pat_scope_check :: "scope_tree \<Rightarrow> caller \<Rightarrow> perm \<Rightarrow> entity option \<Rightarrow> bool option" where
  "pat_scope_check st c p scope =
     (case token_of c of
        None \<Rightarrow> None
      | Some t \<Rightarrow>
          if p \<notin> set (pat_scopes t) then Some False
          else if \<not> pat_entity_check st t scope then Some False else None)"

definition STAFF_ACCESS :: perm where
  "STAFF_ACCESS = ''STAFF.ACCESS''"

definition SUPPORT_ACCESS :: perm where
  "SUPPORT_ACCESS = ''SUPPORT.ACCESS''"

definition check_pat_staff_scope :: "caller \<Rightarrow> bool" where
  "check_pat_staff_scope c = (case token_of c of None \<Rightarrow> True | Some t \<Rightarrow> STAFF_ACCESS \<in> set (pat_scopes t))"

definition check_pat_support_scope :: "caller \<Rightarrow> bool" where
  "check_pat_support_scope c =
     (case token_of c of None \<Rightarrow> True
      | Some t \<Rightarrow> STAFF_ACCESS \<in> set (pat_scopes t) \<or> SUPPORT_ACCESS \<in> set (pat_scopes t))"

subsection \<open>Permission checks\<close>

type_synonym role_index = "(perm \<times> entity, bool) dict"

definition role_holds :: "roles_db \<Rightarrow> nat \<Rightarrow> perm \<Rightarrow> bool" where
  "role_holds db r p \<longleftrightarrow> (r, p) \<in> set (rd_permissions db)"

definition holds_role_with :: "roles_db \<Rightarrow> nat \<Rightarrow> perm \<Rightarrow> entity \<Rightarrow> bool" where
  "holds_role_with db u p scope =
     list_ex (\<lambda>g. g_user g = u \<and> g_active g \<and> g_scope g = scope \<and> role_holds db (g_role g) p) (rd_grants db)"

definition has_permission_in ::
    "scope_tree \<Rightarrow> roles_db \<Rightarrow> caller \<Rightarrow> perm \<Rightarrow> entity option \<Rightarrow> role_index option \<Rightarrow> bool" where
  "has_permission_in st db c p scope index =
     (if pat_scope_check st c p scope = Some False then False
      else if \<not> acc_is_active (user_of c) then False
      else if acc_is_staff (user_of c) then True
      else case scope of
             None \<Rightarrow> False
           | Some s \<Rightarrow>
               (case (case index of None \<Rightarrow> None | Some ix \<Rightarrow> map_of ix (p, s)) of
                  Some cached \<Rightarrow> cached
                | None \<Rightarrow> holds_role_with db (acc_pk (user_of c)) p s))"

definition has_any_permission :: "scope_tree \<Rightarrow> roles_db \<Rightarrow> caller \<Rightarrow> perm list \<Rightarrow> entity option \<Rightarrow> bool" where
  "has_any_permission st db c ps scope =
     (let carried = (case token_of c of None \<Rightarrow> ps | Some t \<Rightarrow> filter (\<lambda>p. p \<in> set (pat_scopes t)) ps);
          stopped = (case token_of c of None \<Rightarrow> False | Some t \<Rightarrow> carried = [] \<or> \<not> pat_entity_check st t scope)
      in if stopped then False
         else if \<not> acc_is_active (user_of c) then False
         else if acc_is_staff (user_of c) then True
         else case scope of
                None \<Rightarrow> False
              | Some s \<Rightarrow>
                  list_ex (\<lambda>g. g_user g = acc_pk (user_of c) \<and> g_active g \<and> g_scope g = s \<and>
                      list_ex (role_holds db (g_role g)) carried) (rd_grants db))"

definition has_all_permissions :: "scope_tree \<Rightarrow> roles_db \<Rightarrow> caller \<Rightarrow> perm list \<Rightarrow> entity option \<Rightarrow> bool" where
  "has_all_permissions st db c ps scope = list_all (\<lambda>p. has_permission_in st db c p scope None) ps"

text \<open>
  Source paths: \<open>[]\<close> stands for \<open>"*"\<close>, the scope itself.  A part that is missing, also on \<open>None\<close>, is an
  \<open>AttributeError\<close>, here \<open>None\<close>; the source reached may itself be \<open>None\<close>.
\<close>

fun follow_path :: "scope_tree \<Rightarrow> entity option \<Rightarrow> string list \<Rightarrow> entity option option" where
  "follow_path st e [] = Some e"
| "follow_path st e (a # path) =
     (case parent st e a of Missing \<Rightarrow> None | Null \<Rightarrow> follow_path st None path | To x \<Rightarrow> follow_path st (Some x) path)"

datatype role_error = Attribute_error | Permission_denied | Validation string | Multiple_objects | Not_found

fun any_source ::
    "(entity option \<Rightarrow> bool) \<Rightarrow> scope_tree \<Rightarrow> entity \<Rightarrow> nat \<Rightarrow> nat \<Rightarrow> string list list \<Rightarrow> (role_error, bool) result" where
  "any_source check st scope errors n [] = (if errors = n then Inl Attribute_error else Inr False)"
| "any_source check st scope errors n (path # paths) =
     (case follow_path st (Some scope) path of
        None \<Rightarrow> any_source check st scope (Suc errors) n paths
      | Some source \<Rightarrow> if check source then Inr True else any_source check st scope errors n paths)"

definition has_permission_on_any_source ::
    "scope_tree \<Rightarrow> roles_db \<Rightarrow> caller \<Rightarrow> perm \<Rightarrow> entity option \<Rightarrow> string list list \<Rightarrow> (role_error, bool) result" where
  "has_permission_on_any_source st db c p scope sources =
     (case scope of
        None \<Rightarrow> Inr False
      | Some s \<Rightarrow>
          if sources = [] then Inr (has_permission_in st db c p scope None)
          else any_source (\<lambda>source. has_permission_in st db c p source None) st s 0 (length sources) sources)"

definition permission_factory ::
    "perm \<Rightarrow> string list list \<Rightarrow> scope_tree \<Rightarrow> roles_db \<Rightarrow> caller \<Rightarrow> entity option \<Rightarrow> (role_error, unit) result" where
  "permission_factory p sources st db c scope =
     (if scope = None then Inr ()
      else rbind (has_permission_on_any_source st db c p scope sources) (\<lambda>b.
        if b then Inr () else Inl Permission_denied))"

subsection \<open>Lookup tables\<close>

definition scope_keys_for :: "scope_tree \<Rightarrow> entity \<Rightarrow> entity list" where
  "scope_keys_for st scope = get_scope_ancestors st scope"

text \<open>The disjunction over no key at all is the query that holds of every row.\<close>

definition scope_keys_q :: "entity list \<Rightarrow> entity \<Rightarrow> bool" where
  "scope_keys_q keys scope \<longleftrightarrow> keys = [] \<or> scope \<in> set keys"

definition index_permission :: "roles_db \<Rightarrow> nat \<Rightarrow> role_index \<Rightarrow> perm \<times> entity list \<Rightarrow> role_index" where
  "index_permission db u index = (\<lambda>(p, keys).
     fold (\<lambda>k ix. dict_set (p, k) True ix)
       (map g_scope (filter (\<lambda>g. g_user g = u \<and> g_active g \<and> role_holds db (g_role g) p \<and> scope_keys_q keys (g_scope g))
          (rd_grants db)))
       (fold (\<lambda>k ix. dict_set (p, k) False ix) keys index))"

definition add_scope_key :: "perm option \<times> entity option \<Rightarrow> (perm, entity list) dict \<Rightarrow> (perm, entity list) dict" where
  "add_scope_key pair d =
     (case pair of
        (Some p, Some s) \<Rightarrow>
          (let held = (case map_of d p of None \<Rightarrow> [] | Some ks \<Rightarrow> ks)
           in dict_set p (if s \<in> set held then held else held @ [s]) d)
      | _ \<Rightarrow> d)"

definition build_role_index :: "roles_db \<Rightarrow> nat \<Rightarrow> (perm option \<times> entity option) list \<Rightarrow> role_index" where
  "build_role_index db u pairs = foldl (index_permission db u) [] (fold add_scope_key pairs [])"

definition users_with_role_on_any_scope_key :: "roles_db \<Rightarrow> nat list \<Rightarrow> entity list \<Rightarrow> nat list" where
  "users_with_role_on_any_scope_key db users keys =
     (if users = [] \<or> keys = [] then []
      else remdups (map g_user (filter (\<lambda>g. g_active g \<and> g_user g \<in> set users \<and> scope_keys_q keys (g_scope g)) (rd_grants db))))"

definition holds_any_role_on_scope_or_ancestor :: "scope_tree \<Rightarrow> roles_db \<Rightarrow> account \<Rightarrow> entity \<Rightarrow> bool" where
  "holds_any_role_on_scope_or_ancestor st db u scope =
     (if \<not> acc_is_active u then False
      else if acc_is_staff u \<or> acc_is_support u then True
      else if fst scope = USER_MODEL then snd scope = acc_pk u
      else if scope_keys_for st scope = [] then False
      else list_ex (\<lambda>g. g_user g = acc_pk u \<and> g_active g \<and> scope_keys_q (scope_keys_for st scope) (g_scope g)) (rd_grants db))"

subsection \<open>Members\<close>

definition role_of :: "roles_db \<Rightarrow> nat \<Rightarrow> role_row option" where
  "role_of db r = first_row (\<lambda>x. ro_pk x = r) (rd_roles db)"

definition account_of :: "roles_db \<Rightarrow> nat \<Rightarrow> account option" where
  "account_of db u = first_row (\<lambda>x. acc_pk x = u) (rd_accounts db)"

definition template_of :: "roles_db \<Rightarrow> nat \<Rightarrow> nat option" where
  "template_of db r = (case role_of db r of None \<Rightarrow> None | Some x \<Rightarrow> ro_template x)"

datatype expiry_filter = Any_expiry | Permanent | Valid_at int

definition expiry_matches :: "expiry_filter \<Rightarrow> int option \<Rightarrow> bool" where
  "expiry_matches f e =
     (case f of Any_expiry \<Rightarrow> True | Permanent \<Rightarrow> e = None
      | Valid_at t \<Rightarrow> (case e of None \<Rightarrow> True | Some x \<Rightarrow> t \<le> x))"

definition role_holder :: "roles_db \<Rightarrow> entity \<Rightarrow> nat \<Rightarrow> nat option \<Rightarrow> expiry_filter \<Rightarrow> bool \<Rightarrow> bool" where
  "role_holder db scope u role expiry match_clones =
     list_ex (\<lambda>g. g_active g \<and> g_user g = u \<and> g_scope g = scope \<and>
         (case role of None \<Rightarrow> True
          | Some r \<Rightarrow> g_role g = r \<or> match_clones \<and> template_of db (g_role g) = Some r) \<and>
         expiry_matches expiry (g_expiration g)) (rd_grants db)"

definition get_permissions :: "roles_db \<Rightarrow> entity \<Rightarrow> nat option \<Rightarrow> grant list" where
  "get_permissions db scope user =
     filter (\<lambda>g. g_scope g = scope \<and> g_active g \<and>
         (case account_of db (g_user g) of None \<Rightarrow> False | Some a \<Rightarrow> acc_is_active a) \<and>
         (case user of None \<Rightarrow> True | Some u \<Rightarrow> g_user g = u)) (rd_grants db)"

definition count_users :: "roles_db \<Rightarrow> entity \<Rightarrow> nat" where
  "count_users db scope = length (remdups (map g_user (filter (\<lambda>g. g_active g \<and> g_scope g = scope) (rd_grants db))))"

definition exclude_removed_project_roles :: "scope_tree \<Rightarrow> grant list \<Rightarrow> grant list" where
  "exclude_removed_project_roles st gs =
     filter (\<lambda>g. \<not> (fst (g_scope g) = PROJECT_MODEL \<and> snd (g_scope g) \<in> set (removed_projects st))) gs"

definition get_active_roles :: "scope_tree \<Rightarrow> roles_db \<Rightarrow> nat \<Rightarrow> grant list" where
  "get_active_roles st db u = exclude_removed_project_roles st (filter (\<lambda>g. g_user g = u \<and> g_active g) (rd_grants db))"

end
