(* ===== verification/Role_Grants.thy ===== *)
theory Role_Grants
  imports Role_Model
begin

text \<open>
  Granting, revoking and expiring roles: the policy checks and write primitives of \<^verbatim>\<open>permissions/utils.py\<close>, the
  methods of \<open>UserRole\<close>, the signal handlers that deactivate and reactivate accounts, and the tasks of
  \<^verbatim>\<open>permissions/tasks.py\<close>.  \<open>email_matches\<close> is the regular expression matcher of Python's library, \<open>course_ok\<close>
  whether a user has a course account in order in a project that is not removed, \<open>expiration_exempt\<close> the guards that
  other applications register against expiry.  \<open>membership_control\<close> is there when the feature \<open>enforce_allowed_domains\<close> is on, and says, as
  \<open>project_email_allowed\<close> does for addresses, what the checks of \<^verbatim>\<open>waldur_openportal\<close> let pass; \<open>ip_allows\<close> is the
  filter of the caller's own grants by address.
\<close>

record role_settings =
  scopes :: scope_tree
  only_one_project_manager :: bool
  disable_multiple_roles :: bool
  deactivate_if_no_roles :: bool
  course_ok :: "nat \<Rightarrow> bool"
  email_matches :: "string \<Rightarrow> string \<Rightarrow> bool"
  expiration_exempt :: "grant \<Rightarrow> bool"
  membership_control :: "(entity \<Rightarrow> string \<Rightarrow> bool) option"
  project_email_allowed :: "entity \<Rightarrow> string \<Rightarrow> bool"
  ip_allows :: "grant \<Rightarrow> bool"

definition PROJECT_MANAGER :: string where
  "PROJECT_MANAGER = ''PROJECT.MANAGER''"

subsection \<open>Policy\<close>

definition available_at :: "role_settings \<Rightarrow> roles_db \<Rightarrow> nat \<Rightarrow> entity \<Rightarrow> bool" where
  "available_at cf db r scope = list_ex (\<lambda>a. (r, a) \<in> set (rd_availability db)) (get_scope_ancestors (scopes cf) scope)"

definition has_availability :: "roles_db \<Rightarrow> nat \<Rightarrow> bool" where
  "has_availability db r \<longleftrightarrow> r \<in> set (map fst (rd_availability db))"

definition concealed_at :: "role_settings \<Rightarrow> roles_db \<Rightarrow> nat \<Rightarrow> entity \<Rightarrow> bool" where
  "concealed_at cf db r scope = list_ex (\<lambda>a. (r, a) \<in> set (rd_concealments db)) (get_scope_ancestors (scopes cf) scope)"

definition check_grant_policy :: "role_settings \<Rightarrow> roles_db \<Rightarrow> entity \<Rightarrow> nat \<Rightarrow> (role_error, unit) result" where
  "check_grant_policy cf db scope r =
     (if has_availability db r \<and> \<not> available_at cf db r scope then Inl (Validation ''Role is not available for this scope.'')
      else if concealed_at cf db r scope then Inl (Validation ''Role is concealed for this organization.'')
      else Inr ())"

definition validate_scope_available :: "role_settings \<Rightarrow> entity \<Rightarrow> (role_error, unit) result" where
  "validate_scope_available cf scope =
     guard_result (sharing (scopes cf) scope \<noteq> Some False) (Validation ''Offering is not available.'')"

definition validate_single_role_per_scope :: "role_settings \<Rightarrow> roles_db \<Rightarrow> entity \<Rightarrow> nat \<Rightarrow> (role_error, unit) result" where
  "validate_single_role_per_scope cf db scope u =
     guard_result (\<not> (disable_multiple_roles cf \<and> role_holder db scope u None Any_expiry True))
       (Validation ''User already has role within this scope.'')"

definition is_manager_role :: "roles_db \<Rightarrow> nat \<Rightarrow> bool" where
  "is_manager_role db r =
     (case role_of db r of
        None \<Rightarrow> False
      | Some x \<Rightarrow> ro_name x = PROJECT_MANAGER \<or>
          (case ro_template x of None \<Rightarrow> False
           | Some t \<Rightarrow> (case role_of db t of None \<Rightarrow> False | Some y \<Rightarrow> ro_name y = PROJECT_MANAGER)))"

definition count_active_project_managers :: "roles_db \<Rightarrow> int \<Rightarrow> entity \<Rightarrow> nat" where
  "count_active_project_managers db t project =
     length (filter (\<lambda>g. g_scope g = project \<and> g_active g \<and>
         (case account_of db (g_user g) of None \<Rightarrow> False | Some a \<Rightarrow> acc_is_active a) \<and>
         is_manager_role db (g_role g) \<and> expiry_matches (Valid_at t) (g_expiration g)) (rd_grants db))"

definition validate_only_one_project_manager ::
    "role_settings \<Rightarrow> roles_db \<Rightarrow> int \<Rightarrow> entity \<Rightarrow> nat \<Rightarrow> (role_error, unit) result" where
  "validate_only_one_project_manager cf db t scope r =
     (if \<not> only_one_project_manager cf then Inr ()
      else if fst scope \<noteq> PROJECT_MODEL then Inr ()
      else if \<not> is_manager_role db r then Inr ()
      else guard_result (count_active_project_managers db t scope = 0)
             (Validation ''Project already has an active project manager.''))"

text \<open>The restrictions of one level; an empty restriction does not restrict.\<close>

definition basic_match :: "role_settings \<Rightarrow> member_rules \<Rightarrow> account \<Rightarrow> bool" where
  "basic_match cf mr a =
     (if mr_email_patterns mr = [] \<and> mr_affiliations mr = [] \<and> mr_identity_sources mr = [] then True
      else list_ex (\<lambda>x. x \<in> set (mr_affiliations mr)) (acc_affiliations a) \<or>
        list_ex (\<lambda>p. email_matches cf p (acc_email a)) (mr_email_patterns mr) \<or>
        acc_identity_source a \<noteq> [] \<and> acc_identity_source a \<in> set (mr_identity_sources mr))"

definition meets_rules :: "role_settings \<Rightarrow> member_rules \<Rightarrow> account \<Rightarrow> (role_error, unit) result" where
  "meets_rules cf mr a =
     (if \<not> basic_match cf mr a then Inl (Validation ''User email, affiliation, or identity source does not match'')
      else if mr_nationalities mr \<noteq> [] \<and>
          \<not> list_ex (\<lambda>n. n \<noteq> [] \<and> n \<in> set (mr_nationalities mr)) (acc_nationality a # acc_nationalities a)
      then Inl (Validation ''User nationality does not match'')
      else if mr_organization_types mr \<noteq> [] \<and> acc_organization_type a \<notin> set (mr_organization_types mr)
      then Inl (Validation ''User organization type does not match'')
      else if \<not> list_all (\<lambda>x. x \<in> set (acc_assurance a)) (mr_assurance_levels mr)
      then Inl (Validation ''User assurance level does not match'')
      else Inr ())"

text \<open>Only projects have both restrictions and a customer, and a customer has no customer: the recursion is one deep.\<close>

definition validate_user_restrictions :: "role_settings \<Rightarrow> entity \<Rightarrow> account \<Rightarrow> (role_error, unit) result" where
  "validate_user_restrictions cf scope a =
     (case rules_of (scopes cf) scope of
        None \<Rightarrow> Inr ()
      | Some mr \<Rightarrow>
          rbind (case attribute_of (scopes cf) scope ''customer'' of
                   To c \<Rightarrow> (case rules_of (scopes cf) c of None \<Rightarrow> Inr () | Some cr \<Rightarrow> meets_rules cf cr a)
                 | _ \<Rightarrow> Inr ()) (\<lambda>_. meets_rules cf mr a))"

definition validate_role_grant ::
    "role_settings \<Rightarrow> roles_db \<Rightarrow> int \<Rightarrow> entity \<Rightarrow> account \<Rightarrow> role_row \<Rightarrow> (role_error, unit) result" where
  "validate_role_grant cf db t scope a r =
     (if role_holder db scope (acc_pk a) (Some (ro_pk r)) Any_expiry False
      then Inl (Validation ''User has already the same role in this scope.'')
      else if fst scope \<noteq> ro_content_type r then Inl (Validation ''Role is not valid for this scope.'')
      else if \<not> ro_is_active r then Inl (Validation ''Role is not active.'')
      else rbind (validate_scope_available cf scope) (\<lambda>_.
           rbind (check_grant_policy cf db scope (ro_pk r)) (\<lambda>_.
           rbind (validate_single_role_per_scope cf db scope (acc_pk a)) (\<lambda>_.
           rbind (validate_only_one_project_manager cf db t scope (ro_pk r)) (\<lambda>_.
           validate_user_restrictions cf scope a)))))"

subsection \<open>Accounts follow their roles\<close>

definition set_active :: "nat \<Rightarrow> bool \<Rightarrow> roles_db \<Rightarrow> roles_db" where
  "set_active u b db = db\<lparr>rd_accounts := update_rows (\<lambda>a. acc_pk a = u) (\<lambda>a. a\<lparr>acc_is_active := b\<rparr>) (rd_accounts db)\<rparr>"

definition get_deactivation_reason :: "role_settings \<Rightarrow> roles_db \<Rightarrow> account \<Rightarrow> bool" where
  "get_deactivation_reason cf db a =
     (if \<not> deactivate_if_no_roles cf then False
      else if \<not> acc_is_active a \<or> acc_is_staff a \<or> acc_is_support a then False
      else if get_active_roles (scopes cf) db (acc_pk a) \<noteq> [] then False
      else \<not> course_ok cf (acc_pk a))"

definition should_reactivate_user :: "role_settings \<Rightarrow> roles_db \<Rightarrow> account \<Rightarrow> bool" where
  "should_reactivate_user cf db a =
     (if \<not> deactivate_if_no_roles cf then False
      else if acc_is_active a \<or> acc_is_staff a \<or> acc_is_support a then False
      else if acc_is_admin_deactivated a then False
      else if get_active_roles (scopes cf) db (acc_pk a) \<noteq> [] then True
      else course_ok cf (acc_pk a))"

definition deactivate_user_if_no_roles :: "role_settings \<Rightarrow> nat \<Rightarrow> roles_db \<Rightarrow> roles_db" where
  "deactivate_user_if_no_roles cf u db =
     (case account_of db u of None \<Rightarrow> db | Some a \<Rightarrow> if get_deactivation_reason cf db a then set_active u False db else db)"

definition reactivate_user_if_gaining_roles :: "role_settings \<Rightarrow> nat \<Rightarrow> roles_db \<Rightarrow> roles_db" where
  "reactivate_user_if_gaining_roles cf u db =
     (case account_of db u of None \<Rightarrow> db | Some a \<Rightarrow> if should_reactivate_user cf db a then set_active u True db else db)"

text \<open>The signals: the event is logged and the account follows.\<close>

definition log_event :: "role_event \<Rightarrow> roles_db \<Rightarrow> roles_db" where
  "log_event e db = db\<lparr>rd_events := rd_events db @ [e]\<rparr>"

definition role_granted :: "role_settings \<Rightarrow> grant \<Rightarrow> string \<Rightarrow> roles_db \<Rightarrow> roles_db" where
  "role_granted cf g reason db = reactivate_user_if_gaining_roles cf (g_user g) (log_event (Role_granted (g_pk g) reason) db)"

definition role_revoked :: "role_settings \<Rightarrow> grant \<Rightarrow> string \<Rightarrow> roles_db \<Rightarrow> roles_db" where
  "role_revoked cf g reason db = deactivate_user_if_no_roles cf (g_user g) (log_event (Role_revoked (g_pk g) reason) db)"

subsection \<open>Writing grants\<close>

definition set_grant :: "grant \<Rightarrow> roles_db \<Rightarrow> roles_db" where
  "set_grant g db = db\<lparr>rd_grants := update_rows (\<lambda>x. g_pk x = g_pk g) (\<lambda>_. g) (rd_grants db)\<rparr>"

definition set_expiration_time :: "int option \<Rightarrow> string \<Rightarrow> grant \<Rightarrow> roles_db \<Rightarrow> roles_db" where
  "set_expiration_time e reason g db = log_event (Role_updated (g_pk g) reason) (set_grant (g\<lparr>g_expiration := e\<rparr>) db)"

definition revoke_grant :: "role_settings \<Rightarrow> int \<Rightarrow> nat option \<Rightarrow> string \<Rightarrow> grant \<Rightarrow> roles_db \<Rightarrow> roles_db" where
  "revoke_grant cf t by_user reason g db =
     (if \<not> g_active g then db
      else role_revoked cf g reason
             (set_grant (g\<lparr>g_active := False, g_expiration := Some t, g_revoked_by := by_user, g_reason := reason\<rparr>) db))"

definition restore_grant :: "role_settings \<Rightarrow> string \<Rightarrow> grant \<Rightarrow> roles_db \<Rightarrow> roles_db" where
  "restore_grant cf reason g db =
     (if g_active g then db
      else role_granted cf g reason
             (set_grant (g\<lparr>g_active := True, g_expiration := None, g_revoked_by := None, g_reason := []\<rparr>) db))"

definition add_user ::
    "role_settings \<Rightarrow> entity \<Rightarrow> nat \<Rightarrow> nat \<Rightarrow> nat option \<Rightarrow> int option \<Rightarrow> bool \<Rightarrow> string \<Rightarrow> string \<Rightarrow> roles_db \<Rightarrow> (role_error, grant \<times> roles_db) result" where
  "add_user cf scope u r by_user expiration force source reason db =
     rbind (if force then Inr () else check_grant_policy cf db scope r) (\<lambda>_.
       let g = \<lparr>g_pk = rd_next db, g_user = u, g_role = r, g_scope = scope, g_created_by = by_user, g_revoked_by = None,
                g_reason = [], g_source = source, g_expiration = expiration, g_active = True\<rparr>
       in Inr (g, role_granted cf g reason (db\<lparr>rd_grants := rd_grants db @ [g], rd_next := Suc (rd_next db)\<rparr>)))"

definition add_user_or_skip ::
    "role_settings \<Rightarrow> entity \<Rightarrow> nat \<Rightarrow> nat \<Rightarrow> nat option \<Rightarrow> int option \<Rightarrow> string \<Rightarrow> string \<Rightarrow> roles_db \<Rightarrow> grant option \<times> roles_db" where
  "add_user_or_skip cf scope u r by_user expiration source reason db =
     (case add_user cf scope u r by_user expiration False source reason db of
        Inl _ \<Rightarrow> (None, db)
      | Inr (g, db') \<Rightarrow> (Some g, db'))"

text \<open>\<open>objects.get\<close>: \<open>None\<close> for no row, an exception for more than one.\<close>

definition get_active_grant :: "entity \<Rightarrow> nat \<Rightarrow> nat \<Rightarrow> roles_db \<Rightarrow> (role_error, grant option) result" where
  "get_active_grant scope u r db =
     (case filter (\<lambda>g. g_user g = u \<and> g_role g = r \<and> g_scope g = scope \<and> g_active g) (rd_grants db) of
        [] \<Rightarrow> Inr None
      | [g] \<Rightarrow> Inr (Some g)
      | _ \<Rightarrow> Inl Multiple_objects)"

definition update_user ::
    "entity \<Rightarrow> nat \<Rightarrow> nat \<Rightarrow> int option \<Rightarrow> string \<Rightarrow> roles_db \<Rightarrow> (role_error, bool \<times> roles_db) result" where
  "update_user scope u r expiration reason db =
     rbind (get_active_grant scope u r db) (\<lambda>found.
       Inr (case found of None \<Rightarrow> (False, db) | Some g \<Rightarrow> (True, set_expiration_time expiration reason g db)))"

definition removal_reason :: "nat option \<Rightarrow> string \<Rightarrow> string" where
  "removal_reason by_user reason =
     (if reason \<noteq> [] then reason
      else if by_user \<noteq> None then ''Manual user removal via API'' else ''System-initiated user removal'')"

definition delete_user ::
    "role_settings \<Rightarrow> int \<Rightarrow> entity \<Rightarrow> nat \<Rightarrow> nat \<Rightarrow> nat option \<Rightarrow> string \<Rightarrow> roles_db \<Rightarrow> (role_error, bool \<times> roles_db) result" where
  "delete_user cf t scope u r by_user reason db =
     rbind (get_active_grant scope u r db) (\<lambda>found.
       Inr (case found of
              None \<Rightarrow> (False, db)
            | Some g \<Rightarrow> (True, revoke_grant cf t by_user (removal_reason by_user reason) g db)))"

subsection \<open>Tasks\<close>

definition check_expired_permissions :: "role_settings \<Rightarrow> int \<Rightarrow> roles_db \<Rightarrow> roles_db" where
  "check_expired_permissions cf t db =
     fold (\<lambda>g d. if expiration_exempt cf g then d else revoke_grant cf t None ''Automatic expiration cleanup task'' g d)
       (filter (\<lambda>g. (case g_expiration g of None \<Rightarrow> False | Some e \<Rightarrow> e < t) \<and> g_active g) (rd_grants db)) db"

definition revoke_user_roles_outside_availability :: "role_settings \<Rightarrow> int \<Rightarrow> nat \<Rightarrow> roles_db \<Rightarrow> roles_db" where
  "revoke_user_roles_outside_availability cf t r db =
     (if \<not> has_availability db r then db
      else fold (\<lambda>g d. if \<not> still_exists (scopes cf) (g_scope g) then d
                        else if available_at cf d r (g_scope g) then d
                        else revoke_grant cf t None ''Role availability removed'' g d)
             (filter (\<lambda>g. g_role g = r \<and> g_active g) (rd_grants db)) db)"

definition reconcile_user_roles_for_role :: "role_settings \<Rightarrow> int \<Rightarrow> nat \<Rightarrow> roles_db \<Rightarrow> roles_db" where
  "reconcile_user_roles_for_role cf t r db =
     (if role_of db r = None then db else revoke_user_roles_outside_availability cf t r db)"

definition reconcile_user_roles_against_availability :: "role_settings \<Rightarrow> int \<Rightarrow> roles_db \<Rightarrow> roles_db" where
  "reconcile_user_roles_against_availability cf t db =
     fold (revoke_user_roles_outside_availability cf t)
       (filter (\<lambda>r. r \<in> set (map fst (rd_availability db))) (map ro_pk (rd_roles db))) db"

text \<open>The periodic synchronisation asks the database, not the handlers.\<close>

definition has_active_role :: "role_settings \<Rightarrow> roles_db \<Rightarrow> nat \<Rightarrow> bool" where
  "has_active_role cf db u =
     list_ex (\<lambda>g. g_user g = u) (exclude_removed_project_roles (scopes cf) (filter g_active (rd_grants db)))"

definition sync_user_deactivation_status :: "role_settings \<Rightarrow> roles_db \<Rightarrow> roles_db" where
  "sync_user_deactivation_status cf db =
     (if \<not> deactivate_if_no_roles cf then db
      else let candidates = filter (\<lambda>a. \<not> acc_is_staff a \<and> \<not> acc_is_support a) (rd_accounts db);
               to_deactivate = filter (\<lambda>a. acc_is_active a \<and> \<not> has_active_role cf db (acc_pk a) \<and> \<not> course_ok cf (acc_pk a)) candidates;
               after = fold (\<lambda>a. set_active (acc_pk a) False) to_deactivate db;
               to_reactivate = filter (\<lambda>a. \<not> acc_is_active a \<and> \<not> acc_is_admin_deactivated a \<and>
                   (has_active_role cf after (acc_pk a) \<or> course_ok cf (acc_pk a)))
                 (filter (\<lambda>a. \<not> acc_is_staff a \<and> \<not> acc_is_support a) (rd_accounts after))
           in fold (\<lambda>a. set_active (acc_pk a) True) to_reactivate after)"

end
