(* ===== verification/Role_Endpoints.thy ===== *)
theory Role_Endpoints
  imports Role_Grants
begin

text \<open>
  Who manages roles: the serializers and endpoints of \<^verbatim>\<open>permissions/serializers.py\<close> and \<^verbatim>\<open>permissions/views.py\<close>
  that grant, change, revoke and restore roles, and those of the staff that clone, conceal, enable, disable and
  delete role definitions.  The scope an endpoint is called on has been found; the check that
  \<^verbatim>\<open>waldur_openportal\<close> adds when its feature is on is an argument.  \<open>role_step\<close> is the relation of all of them and
  of the tasks, one request after the other.
\<close>

subsection \<open>Which permission manages the roles of a scope\<close>

definition CREATE_PERMISSIONS :: "(string, perm) dict" where
  "CREATE_PERMISSIONS =
     [(''customer'', ''CUSTOMER.CREATE_PERMISSION''), (''project'', ''PROJECT.CREATE_PERMISSION''),
      (''offering'', ''OFFERING.CREATE_PERMISSION''), (''call'', ''CALL.CREATE_PERMISSION''),
      (''proposal'', ''PROPOSAL.MANAGE''), (''callmanagingorganisation'', ''CALL.CREATE_PERMISSION''),
      (''service_provider'', ''CUSTOMER.CREATE_PERMISSION''), (''resource'', ''RESOURCE.CREATE_PERMISSION''),
      (''resourceproject'', ''RESOURCE_PROJECT.CREATE_PERMISSION'')]"

definition UPDATE_PERMISSIONS :: "(string, perm) dict" where
  "UPDATE_PERMISSIONS =
     [(''customer'', ''CUSTOMER.UPDATE_PERMISSION''), (''project'', ''PROJECT.UPDATE_PERMISSION''),
      (''offering'', ''OFFERING.UPDATE_PERMISSION''), (''call'', ''CALL.UPDATE_PERMISSION''),
      (''proposal'', ''PROPOSAL.UPDATE_PERMISSION''), (''callmanagingorganisation'', ''CALL.UPDATE_PERMISSION''),
      (''service_provider'', ''CUSTOMER.UPDATE_PERMISSION''), (''resource'', ''RESOURCE.UPDATE_PERMISSION''),
      (''resourceproject'', ''RESOURCE_PROJECT.UPDATE_PERMISSION'')]"

definition DELETE_PERMISSIONS :: "(string, perm) dict" where
  "DELETE_PERMISSIONS =
     [(''customer'', ''CUSTOMER.DELETE_PERMISSION''), (''project'', ''PROJECT.DELETE_PERMISSION''),
      (''offering'', ''OFFERING.DELETE_PERMISSION''), (''call'', ''CALL.DELETE_PERMISSION''),
      (''proposal'', ''PROPOSAL.DELETE_PERMISSION''), (''callmanagingorganisation'', ''CALL.DELETE_PERMISSION''),
      (''service_provider'', ''CUSTOMER.DELETE_PERMISSION''), (''resource'', ''RESOURCE.DELETE_PERMISSION''),
      (''resourceproject'', ''RESOURCE_PROJECT.DELETE_PERMISSION'')]"

text \<open>The tables are keyed by model name.\<close>

definition get_create_permission :: "entity \<Rightarrow> perm option" where
  "get_create_permission scope = map_of CREATE_PERMISSIONS (fst scope)"

definition get_update_permission :: "entity \<Rightarrow> perm option" where
  "get_update_permission scope = map_of UPDATE_PERMISSIONS (fst scope)"

definition get_delete_permission :: "entity \<Rightarrow> perm option" where
  "get_delete_permission scope = map_of DELETE_PERMISSIONS (fst scope)"

text \<open>
  \<open>has_permission\<close> with what the tables return.  For \<open>None\<close> a token check fails on \<open>permission.value\<close>, and the query
  for the permission \<open>None\<close> is one for rows without a permission: it finds the grants of roles that have none.
\<close>

definition holds_empty_role :: "roles_db \<Rightarrow> nat \<Rightarrow> entity \<Rightarrow> bool" where
  "holds_empty_role db u scope =
     list_ex (\<lambda>g. g_user g = u \<and> g_active g \<and> g_scope g = scope \<and> g_role g \<notin> set (map fst (rd_permissions db))) (rd_grants db)"

definition may :: "scope_tree \<Rightarrow> roles_db \<Rightarrow> caller \<Rightarrow> perm option \<Rightarrow> entity \<Rightarrow> (role_error, bool) result" where
  "may st db c p scope =
     (case p of
        Some q \<Rightarrow> Inr (has_permission_in st db c q (Some scope) None)
      | None \<Rightarrow>
          if token_of c \<noteq> None then Inl Attribute_error
          else Inr (acc_is_active (user_of c) \<and>
            (acc_is_staff (user_of c) \<or> holds_empty_role db (acc_pk (user_of c)) scope)))"

subsection \<open>The team of a scope\<close>

definition validate_scope_not_soft_deleted :: "role_settings \<Rightarrow> entity \<Rightarrow> (role_error, unit) result" where
  "validate_scope_not_soft_deleted cf scope =
     guard_result (\<not> (fst scope = PROJECT_MODEL \<and> snd scope \<in> set (removed_projects (scopes cf))))
       (Validation ''Cannot manage team members for terminated projects.'')"

definition check_control :: "role_settings \<Rightarrow> entity \<Rightarrow> string \<Rightarrow> (role_error, unit) result" where
  "check_control cf scope what =
     (case membership_control cf of
        None \<Rightarrow> Inr ()
      | Some controls \<Rightarrow> guard_result (controls scope what) (Validation ''membership is controlled elsewhere''))"

text \<open>\<open>UserRoleMutateSerializer\<close>: the fields, then who asks.\<close>

definition mutate_checks ::
    "role_settings \<Rightarrow> roles_db \<Rightarrow> int \<Rightarrow> caller \<Rightarrow> perm option \<Rightarrow> entity \<Rightarrow> nat \<Rightarrow> int option \<Rightarrow> (role_error, unit) result" where
  "mutate_checks cf db t c p scope u expiration =
     rbind (guard_result (case expiration of None \<Rightarrow> True | Some e \<Rightarrow> t \<le> e)
              (Validation ''Expiration time should be greater than current time.'')) (\<lambda>_.
     rbind (validate_scope_available cf scope) (\<lambda>_.
       case customer_of (scopes cf) scope of
         None \<Rightarrow> Inl Attribute_error
       | Some customer \<Rightarrow>
           if unavailable (scopes cf) customer then Inl (Validation ''Customer is not available.'')
           else rbind (may (scopes cf) db c p customer) (\<lambda>by_customer.
             if by_customer then Inr ()
             else rbind (may (scopes cf) db c p scope) (\<lambda>by_scope.
               if \<not> by_scope then Inl Permission_denied
               else guard_result (\<not> (u = acc_pk (user_of c) \<and> scope \<noteq> customer))
                      (Validation ''User can not manage own role.'')))))"

definition add_user_checks ::
    "role_settings \<Rightarrow> roles_db \<Rightarrow> int \<Rightarrow> caller \<Rightarrow> entity \<Rightarrow> nat \<Rightarrow> nat \<Rightarrow> int option \<Rightarrow> (role_error, unit) result" where
  "add_user_checks cf db t c scope u r expiration =
     rbind (validate_scope_not_soft_deleted cf scope) (\<lambda>_.
       case (role_of db r, account_of db u) of
         (Some ro, Some a) \<Rightarrow>
           rbind (mutate_checks cf db t c (get_create_permission scope) scope u expiration) (\<lambda>_.
           rbind (guard_result (acc_is_active a \<or> acc_is_staff (user_of c))
                    (Validation ''Only staff users can assign roles to deactivated users.'')) (\<lambda>_.
           rbind (validate_role_grant cf db t scope a ro) (\<lambda>_.
           rbind (check_control cf scope ''membership'') (\<lambda>_.
             guard_result (membership_control cf = None \<or> project_email_allowed cf scope (acc_email a))
               (Validation ''email is not allowed'')))))
       | _ \<Rightarrow> Inl (Validation ''not found''))"

definition add_user_endpoint ::
    "role_settings \<Rightarrow> int \<Rightarrow> caller \<Rightarrow> entity \<Rightarrow> nat \<Rightarrow> nat \<Rightarrow> int option \<Rightarrow> roles_db \<Rightarrow> (role_error, roles_db) result" where
  "add_user_endpoint cf t c scope u r expiration db =
     rbind (add_user_checks cf db t c scope u r expiration) (\<lambda>_.
     rbind (add_user cf scope u r (Some (acc_pk (user_of c))) expiration False [] [] db) (\<lambda>(g, db'). Inr db'))"

text \<open>The response of an update reads \<open>expiration_time\<close> of what \<open>update_user\<close> returned, which may be \<open>False\<close>.\<close>

definition update_user_endpoint ::
    "role_settings \<Rightarrow> int \<Rightarrow> caller \<Rightarrow> entity \<Rightarrow> nat \<Rightarrow> nat \<Rightarrow> int option \<Rightarrow> roles_db \<Rightarrow> (role_error, roles_db) result" where
  "update_user_endpoint cf t c scope u r expiration db =
     rbind (validate_scope_not_soft_deleted cf scope) (\<lambda>_.
     rbind (check_control cf scope ''roles'') (\<lambda>_.
     if role_of db r = None \<or> account_of db u = None then Inl (Validation ''not found'')
     else rbind (mutate_checks cf db t c (get_update_permission scope) scope u expiration) (\<lambda>_.
     rbind (update_user scope u r expiration ''Manual role update via API'' db) (\<lambda>(found, db').
       if found then Inr db' else Inl Attribute_error))))"

definition delete_user_endpoint ::
    "role_settings \<Rightarrow> int \<Rightarrow> caller \<Rightarrow> entity \<Rightarrow> nat \<Rightarrow> nat \<Rightarrow> roles_db \<Rightarrow> (role_error, roles_db) result" where
  "delete_user_endpoint cf t c scope u r db =
     rbind (validate_scope_not_soft_deleted cf scope) (\<lambda>_.
     rbind (check_control cf scope ''membership'') (\<lambda>_.
     if role_of db r = None \<or> account_of db u = None then Inl (Validation ''not found'')
     else rbind (mutate_checks cf db t c (get_delete_permission scope) scope u None) (\<lambda>_.
     rbind (delete_user cf t scope u r (Some (acc_pk (user_of c))) ''Manual user removal via delete_user API endpoint'' db)
       (\<lambda>(_, db'). Inr db'))))"

subsection \<open>Single grants\<close>

definition visible_grant :: "role_settings \<Rightarrow> caller \<Rightarrow> grant \<Rightarrow> bool" where
  "visible_grant cf c g \<longleftrightarrow> acc_is_staff (user_of c) \<or> acc_is_support (user_of c) \<or>
     g_user g = acc_pk (user_of c) \<and> g_active g \<and> ip_allows cf g"

definition check_action_permission ::
    "role_settings \<Rightarrow> roles_db \<Rightarrow> caller \<Rightarrow> (entity \<Rightarrow> perm option) \<Rightarrow> grant \<Rightarrow> (role_error, unit) result" where
  "check_action_permission cf db c permission_getter g =
     (if \<not> still_exists (scopes cf) (g_scope g) then Inl (Validation ''Role scope is not available.'')
      else rbind (case customer_of (scopes cf) (g_scope g) of
                    None \<Rightarrow> Inr False
                  | Some customer \<Rightarrow> may (scopes cf) db c (permission_getter (g_scope g)) customer) (\<lambda>by_customer.
           if by_customer then Inr ()
           else rbind (may (scopes cf) db c (permission_getter (g_scope g)) (g_scope g)) (\<lambda>by_scope.
             guard_result by_scope Permission_denied)))"

definition revoke_endpoint :: "role_settings \<Rightarrow> int \<Rightarrow> caller \<Rightarrow> nat \<Rightarrow> string \<Rightarrow> roles_db \<Rightarrow> (role_error, roles_db) result" where
  "revoke_endpoint cf t c pk reason db =
     (case first_row (\<lambda>g. g_pk g = pk \<and> visible_grant cf c g) (rd_grants db) of
        None \<Rightarrow> Inl Not_found
      | Some g \<Rightarrow>
          rbind (check_action_permission cf db c get_delete_permission g) (\<lambda>_.
            if \<not> g_active g then Inl (Validation ''Role is already revoked.'')
            else Inr (revoke_grant cf t (Some (acc_pk (user_of c)))
                   (if reason = [] then ''Manual role removal via API'' else reason) g db)))"

definition restore_endpoint :: "role_settings \<Rightarrow> caller \<Rightarrow> nat \<Rightarrow> string \<Rightarrow> roles_db \<Rightarrow> (role_error, roles_db) result" where
  "restore_endpoint cf c pk reason db =
     (case first_row (\<lambda>g. g_pk g = pk \<and> visible_grant cf c g) (rd_grants db) of
        None \<Rightarrow> Inl Not_found
      | Some g \<Rightarrow>
          rbind (check_action_permission cf db c get_create_permission g) (\<lambda>_.
          rbind (validate_scope_not_soft_deleted cf (g_scope g)) (\<lambda>_.
            if g_active g then Inl (Validation ''Role is already active.'')
            else if list_ex (\<lambda>h. g_user h = g_user g \<and> g_role h = g_role g \<and> g_scope h = g_scope g \<and> g_active h) (rd_grants db)
            then Inl (Validation ''An active grant for this role already exists.'')
            else Inr (restore_grant cf (if reason = [] then ''Manual role restore via API'' else reason) g db))))"

subsection \<open>Definitions of roles\<close>

definition is_admin :: "caller \<Rightarrow> bool" where
  "is_admin c \<longleftrightarrow> acc_is_staff (user_of c) \<and> check_pat_staff_scope c"

definition build_org_role_name :: "role_row \<Rightarrow> string \<Rightarrow> string" where
  "build_org_role_name template slug =
     (let before = takeWhile (\<lambda>x. x \<noteq> CHR ''.'') (ro_name template);
          rest = dropWhile (\<lambda>x. x \<noteq> CHR ''.'') (ro_name template)
      in if rest \<noteq> [] then before @ ''.'' @ slug @ ''.'' @ tl rest
         else map (\<lambda>x. if 97 \<le> (of_char x :: nat) \<and> of_char x \<le> (122 :: nat) then char_of (of_char x - (32 :: nat)) else x)
                (ro_content_type template) @ ''.'' @ slug @ ''.'' @ ro_name template)"

definition numbered :: "string \<Rightarrow> nat \<Rightarrow> string" where
  "numbered name k = name @ ''-'' @ digits k"

lemma numbered_inj: "inj (numbered name)"
  using digits_inj by (auto simp: inj_def numbered_def)

function next_free_name :: "string list \<Rightarrow> string \<Rightarrow> nat \<Rightarrow> string" where
  "next_free_name names name k =
     (if numbered name k \<in> set names then next_free_name names name (Suc k) else numbered name k)"
  by pat_completeness auto

termination next_free_name
proof (relation "measure (\<lambda>(names, name, k). card {j. k \<le> j \<and> numbered name j \<in> set names})", simp, clarsimp)
  fix names :: "string list" and name k
  assume taken: "numbered name k \<in> set names"
  have fin: "finite {j. k \<le> j \<and> numbered name j \<in> set names}"
    using finite_vimageI [OF finite_set [of names] numbered_inj [of name]] by (rule rev_finite_subset) auto
  show "card {j. Suc k \<le> j \<and> numbered name j \<in> set names} < card {j. k \<le> j \<and> numbered name j \<in> set names}"
  proof (rule psubset_card_mono [OF fin])
    have "k \<in> {j. k \<le> j \<and> numbered name j \<in> set names}" using taken by simp
    moreover have "k \<notin> {j. Suc k \<le> j \<and> numbered name j \<in> set names}" by simp
    moreover have "{j. Suc k \<le> j \<and> numbered name j \<in> set names} \<subseteq> {j. k \<le> j \<and> numbered name j \<in> set names}" by auto
    ultimately show "{j. Suc k \<le> j \<and> numbered name j \<in> set names} \<subset> {j. k \<le> j \<and> numbered name j \<in> set names}"
      by blast
  qed
qed

declare next_free_name.simps [simp del]

definition ensure_unique_role_name :: "string list \<Rightarrow> string \<Rightarrow> string" where
  "ensure_unique_role_name names name = (if name \<notin> set names then name else next_free_name names name 2)"

definition save_allowed :: "roles_db \<Rightarrow> role_row \<Rightarrow> bool" where
  "save_allowed db ro \<longleftrightarrow> ro_content_type ro \<in> {''resource'', ''resourceproject''} \<or>
     \<not> list_ex (\<lambda>x. ro_name x = ro_name ro \<and> ro_content_type x = ro_content_type ro \<and> ro_pk x \<noteq> ro_pk ro) (rd_roles db)"

definition validate_concealment_allowed :: "roles_db \<Rightarrow> entity \<Rightarrow> role_row \<Rightarrow> (role_error, unit) result" where
  "validate_concealment_allowed db customer ro =
     (case map_of CREATE_PERMISSIONS (ro_content_type ro) of
        None \<Rightarrow> Inr ()
      | Some p \<Rightarrow>
          if \<not> role_holds db (ro_pk ro) p then Inr ()
          else guard_result (list_ex (\<lambda>x. ro_content_type x = ro_content_type ro \<and> ro_is_active x \<and> role_holds db (ro_pk x) p \<and>
                   ro_pk x \<noteq> ro_pk ro \<and> (ro_pk x, customer) \<notin> set (rd_concealments db) \<and>
                   (\<not> has_availability db (ro_pk x) \<or> (ro_pk x, customer) \<in> set (rd_availability db))) (rd_roles db))
                 (Validation ''Cannot conceal the last role that can grant access for this organization.''))"

definition conceal :: "nat \<Rightarrow> entity \<Rightarrow> roles_db \<Rightarrow> roles_db" where
  "conceal r customer db =
     (if (r, customer) \<in> set (rd_concealments db) then db
      else db\<lparr>rd_concealments := rd_concealments db @ [(r, customer)]\<rparr>)"

definition clone_row :: "roles_db \<Rightarrow> role_settings \<Rightarrow> entity \<Rightarrow> role_row \<Rightarrow> role_row" where
  "clone_row db cf customer template =
     \<lparr>ro_pk = rd_next db,
      ro_name = ensure_unique_role_name (map ro_name (rd_roles db)) (build_org_role_name template (slug_of (scopes cf) customer)),
      ro_is_system = False, ro_is_active = True, ro_content_type = ro_content_type template, ro_template = Some (ro_pk template)\<rparr>"

definition with_clone :: "role_row \<Rightarrow> role_row \<Rightarrow> entity \<Rightarrow> roles_db \<Rightarrow> roles_db" where
  "with_clone ro template customer db =
     db\<lparr>rd_roles := rd_roles db @ [ro], rd_next := Suc (rd_next db),
        rd_permissions := rd_permissions db @ map (\<lambda>(_, p). (ro_pk ro, p)) (filter (\<lambda>(r, _). r = ro_pk template) (rd_permissions db)),
        rd_availability := rd_availability db @ [(ro_pk ro, customer)]\<rparr>"

definition clone_role_for_customer ::
    "role_settings \<Rightarrow> role_row \<Rightarrow> entity \<Rightarrow> bool \<Rightarrow> roles_db \<Rightarrow> (role_error, role_row \<times> roles_db) result" where
  "clone_role_for_customer cf template customer conceal_template db =
     (if ro_content_type template \<notin> {CUSTOMER_MODEL, PROJECT_MODEL}
      then Inl (Validation ''Only customer and project roles can be cloned into an organization.'')
      else if ro_template template \<noteq> None then Inl (Validation ''A clone cannot be cloned. Clone the original role instead.'')
      else if list_ex (\<lambda>x. ro_template x = Some (ro_pk template) \<and> (ro_pk x, customer) \<in> set (rd_availability db)) (rd_roles db)
      then Inl (Validation ''This template has already been cloned into this organization.'')
      else let ro = clone_row db cf customer template
           in if \<not> save_allowed db ro then Inl (Validation ''This template has already been cloned into this organization.'')
              else let db1 = with_clone ro template customer db
                   in if conceal_template
                      then rbind (validate_concealment_allowed db1 customer template) (\<lambda>_. Inr (ro, conceal (ro_pk template) customer db1))
                      else Inr (ro, db1))"

definition clone_to_customer ::
    "role_settings \<Rightarrow> caller \<Rightarrow> nat \<Rightarrow> entity \<Rightarrow> bool \<Rightarrow> roles_db \<Rightarrow> (role_error, roles_db) result" where
  "clone_to_customer cf c r customer conceal_template db =
     (if \<not> is_admin c then Inl Permission_denied
      else case role_of db r of
             None \<Rightarrow> Inl Not_found
           | Some template \<Rightarrow> rbind (clone_role_for_customer cf template customer conceal_template db) (\<lambda>(_, db'). Inr db'))"

definition conceal_endpoint :: "caller \<Rightarrow> nat \<Rightarrow> entity \<Rightarrow> roles_db \<Rightarrow> (role_error, roles_db) result" where
  "conceal_endpoint c r customer db =
     (if \<not> is_admin c then Inl Permission_denied
      else case role_of db r of
             None \<Rightarrow> Inl Not_found
           | Some ro \<Rightarrow>
               if ro_content_type ro \<notin> {CUSTOMER_MODEL, PROJECT_MODEL}
               then Inl (Validation ''Only customer and project roles can be concealed for an organization.'')
               else if has_availability db r \<and> (r, customer) \<notin> set (rd_availability db)
               then Inl (Validation ''Role is not available in this organization.'')
               else rbind (validate_concealment_allowed db customer ro) (\<lambda>_. Inr (conceal r customer db)))"

definition reveal_endpoint :: "caller \<Rightarrow> nat \<Rightarrow> entity \<Rightarrow> roles_db \<Rightarrow> (role_error, roles_db) result" where
  "reveal_endpoint c r customer db =
     (if \<not> is_admin c then Inl Permission_denied
      else if (r, customer) \<notin> set (rd_concealments db) then Inl Not_found
      else Inr (db\<lparr>rd_concealments := filter (\<lambda>x. x \<noteq> (r, customer)) (rd_concealments db)\<rparr>))"

text \<open>
  Removing a row of the availability queues the reconciliation of its role, which is returned.  The endpoint is open
  to those who see the rows, staff: it has no permission class of its own, so that of a token is not asked.
\<close>

definition delete_availability :: "caller \<Rightarrow> nat \<Rightarrow> entity \<Rightarrow> roles_db \<Rightarrow> (role_error, roles_db \<times> nat) result" where
  "delete_availability c r scope db =
     (if \<not> acc_is_staff (user_of c) \<or> (r, scope) \<notin> set (rd_availability db) then Inl Not_found
      else Inr (db\<lparr>rd_availability := filter (\<lambda>x. x \<noteq> (r, scope)) (rd_availability db)\<rparr>, r))"

definition set_role_activity :: "bool \<Rightarrow> caller \<Rightarrow> nat \<Rightarrow> roles_db \<Rightarrow> (role_error, roles_db) result" where
  "set_role_activity b c r db =
     (if \<not> is_admin c then Inl Permission_denied
      else case role_of db r of
             None \<Rightarrow> Inl Not_found
           | Some ro \<Rightarrow>
               if ro_is_active ro = b then Inr db
               else if \<not> save_allowed db ro then Inl (Validation ''A role with this name already exists for this scope type.'')
               else Inr (db\<lparr>rd_roles := update_rows (\<lambda>x. ro_pk x = r) (\<lambda>x. x\<lparr>ro_is_active := b\<rparr>) (rd_roles db)\<rparr>))"

definition can_destroy_role :: "roles_db \<Rightarrow> role_row \<Rightarrow> (role_error, unit) result" where
  "can_destroy_role db ro =
     (if ro_is_system ro then Inl (Validation ''Destroying of system role is not available.'')
      else if list_ex (\<lambda>g. g_active g \<and> g_role g = ro_pk ro) (rd_grants db) then Inl (Validation ''Role is still used.'')
      else Inr ())"

text \<open>What the database removes with a role; its clones lose their template.\<close>

definition destroy_role :: "caller \<Rightarrow> nat \<Rightarrow> roles_db \<Rightarrow> (role_error, roles_db) result" where
  "destroy_role c r db =
     (if \<not> is_admin c then Inl Permission_denied
      else case role_of db r of
             None \<Rightarrow> Inl Not_found
           | Some ro \<Rightarrow> rbind (can_destroy_role db ro) (\<lambda>_. Inr (db\<lparr>
               rd_roles := map (\<lambda>x. if ro_template x = Some r then x\<lparr>ro_template := None\<rparr> else x)
                             (filter (\<lambda>x. ro_pk x \<noteq> r) (rd_roles db)),
               rd_permissions := filter (\<lambda>x. fst x \<noteq> r) (rd_permissions db),
               rd_availability := filter (\<lambda>x. fst x \<noteq> r) (rd_availability db),
               rd_concealments := filter (\<lambda>x. fst x \<noteq> r) (rd_concealments db),
               rd_grants := filter (\<lambda>g. g_role g \<noteq> r) (rd_grants db)\<rparr>)))"

subsection \<open>Everything that happens\<close>

inductive role_step :: "role_settings \<Rightarrow> roles_db \<Rightarrow> roles_db \<Rightarrow> bool" for cf where
  added: "add_user_endpoint cf t c scope u r expiration db = Inr db' \<Longrightarrow> role_step cf db db'"
| updated: "update_user_endpoint cf t c scope u r expiration db = Inr db' \<Longrightarrow> role_step cf db db'"
| removed: "delete_user_endpoint cf t c scope u r db = Inr db' \<Longrightarrow> role_step cf db db'"
| revoked: "revoke_endpoint cf t c pk reason db = Inr db' \<Longrightarrow> role_step cf db db'"
| restored: "restore_endpoint cf c pk reason db = Inr db' \<Longrightarrow> role_step cf db db'"
| cloned: "clone_to_customer cf c r customer b db = Inr db' \<Longrightarrow> role_step cf db db'"
| concealed: "conceal_endpoint c r customer db = Inr db' \<Longrightarrow> role_step cf db db'"
| revealed: "reveal_endpoint c r customer db = Inr db' \<Longrightarrow> role_step cf db db'"
| unbound: "delete_availability c r scope db = Inr (db', queued) \<Longrightarrow> role_step cf db db'"
| reconciled_role: "role_step cf db (reconcile_user_roles_for_role cf t r db)"
| switched: "set_role_activity b c r db = Inr db' \<Longrightarrow> role_step cf db db'"
| destroyed: "destroy_role c r db = Inr db' \<Longrightarrow> role_step cf db db'"
| expired: "role_step cf db (check_expired_permissions cf t db)"
| reconciled: "role_step cf db (reconcile_user_roles_against_availability cf t db)"
| synchronised: "role_step cf db (sync_user_deactivation_status cf db)"

end
