(* ===== verification/Role_Checks.thy ===== *)
theory Role_Checks
  imports Role_Model
begin

text \<open>
  What the permission checks decide.  \<open>allowed\<close> is the rule: the account is active and staff, or holds an active
  grant on the scope itself of a role with the permission; a personal access token must carry the permission and,
  when it is bound to entities, one of them must be the scope or an ancestor.  Every check of \<open>permissions/utils.py\<close>
  is shown to follow it, with or without a lookup table.
\<close>

definition token_allows :: "scope_tree \<Rightarrow> caller \<Rightarrow> perm \<Rightarrow> entity option \<Rightarrow> bool" where
  "token_allows st c p scope \<longleftrightarrow>
     (case token_of c of
        None \<Rightarrow> True
      | Some t \<Rightarrow> p \<in> set (pat_scopes t) \<and>
          (pat_allowed_pairs t = [] \<or>
           (\<exists>s. scope = Some s \<and> set (get_scope_ancestors st s) \<inter> set (pat_allowed_pairs t) \<noteq> {})))"

definition allowed :: "scope_tree \<Rightarrow> roles_db \<Rightarrow> caller \<Rightarrow> perm \<Rightarrow> entity option \<Rightarrow> bool" where
  "allowed st db c p scope \<longleftrightarrow> token_allows st c p scope \<and> acc_is_active (user_of c) \<and>
     (acc_is_staff (user_of c) \<or>
      (\<exists>s g. scope = Some s \<and> g \<in> set (rd_grants db) \<and> g_user g = acc_pk (user_of c) \<and> g_active g \<and> g_scope g = s \<and>
         (g_role g, p) \<in> set (rd_permissions db)))"

lemma entity_check_allows:
  "pat_entity_check st t scope \<longleftrightarrow> pat_allowed_pairs t = [] \<or>
     (\<exists>s. scope = Some s \<and> set (get_scope_ancestors st s) \<inter> set (pat_allowed_pairs t) \<noteq> {})"
  by (cases scope) (auto simp: pat_entity_check_def list_ex_iff)

lemma scope_check_allows: "pat_scope_check st c p scope = Some False \<longleftrightarrow> \<not> token_allows st c p scope"
  by (auto simp: pat_scope_check_def token_allows_def entity_check_allows split: option.split)

lemma has_permission_allowed: "has_permission_in st db c p scope None = allowed st db c p scope"
  by (cases scope)
    (auto simp: has_permission_in_def scope_check_allows allowed_def holds_role_with_def role_holds_def list_ex_iff)

subsection \<open>Lookup tables\<close>

lemma index_falses:
  "map_of (fold (\<lambda>k ix. dict_set (p, k) b ix) keys index) (q, s) =
     (if q = p \<and> s \<in> set keys then Some b else map_of index (q, s))"
  by (induction keys arbitrary: index) auto

lemma index_permission_lookup:
  assumes "keys \<noteq> []"
  shows "map_of (index_permission db u index (p, keys)) (q, s) =
     (if q = p \<and> s \<in> set keys then Some (holds_role_with db u p s) else map_of index (q, s))"
proof -
  have "s \<in> set (map g_scope (filter (\<lambda>g. g_user g = u \<and> g_active g \<and> role_holds db (g_role g) p \<and>
      scope_keys_q keys (g_scope g)) (rd_grants db))) \<longleftrightarrow> s \<in> set keys \<and> holds_role_with db u p s"
    using assms by (auto simp: scope_keys_q_def holds_role_with_def list_ex_iff)
  then show ?thesis by (auto simp: index_permission_def index_falses)
qed

lemma index_permissions_lookup:
  assumes "distinct (map fst d)" and "list_all (\<lambda>(_, ks). ks \<noteq> []) d"
  shows "map_of (foldl (index_permission db u) index d) (p, s) =
     (case map_of d p of
        Some ks \<Rightarrow> if s \<in> set ks then Some (holds_role_with db u p s) else map_of index (p, s)
      | None \<Rightarrow> map_of index (p, s))"
  using assms
proof (induction d arbitrary: index)
  case (Cons e d)
  obtain q ks where e: "e = (q, ks)" by (cases e)
  have rest: "map_of d q = None" using Cons.prems(1) e by (simp add: map_of_eq_None_iff)
  have "map_of (foldl (index_permission db u) (index_permission db u index (q, ks)) d) (p, s) =
    (case map_of d p of
        Some ks' \<Rightarrow> if s \<in> set ks' then Some (holds_role_with db u p s) else map_of (index_permission db u index (q, ks)) (p, s)
      | None \<Rightarrow> map_of (index_permission db u index (q, ks)) (p, s))"
    using Cons by (simp add: e)
  then show ?case
    using Cons.prems(2) rest by (cases "p = q") (auto simp: e index_permission_lookup split: option.split)
qed simp


lemma set_dict_set: "set (dict_set k v d) \<subseteq> insert (k, v) (set d)"
  by (induction k v d rule: dict_set.induct) auto

lemma add_scope_key_cases:
  fixes x :: "perm option \<times> entity option" and d :: "(perm, entity list) dict"
  obtains (skips) "add_scope_key x d = d" "\<And>p s. x \<noteq> (Some p, Some s)"
  | (adds) p s ks where "x = (Some p, Some s)" "add_scope_key x d = dict_set p ks d"
      "set ks = insert s (case map_of d p of None \<Rightarrow> {} | Some held \<Rightarrow> set held)"
proof (cases "\<exists>p s. x = (Some p, Some s)")
  case True
  then obtain p s where x: "x = (Some p, Some s)" by blast
  let ?held = "case map_of d p of None \<Rightarrow> [] | Some ks \<Rightarrow> ks"
  have "add_scope_key x d = dict_set p (if s \<in> set ?held then ?held else ?held @ [s]) d"
    by (simp add: x add_scope_key_def Let_def)
  then show thesis by (rule adds [OF x]) (auto split: option.split)
next
  case False
  then show thesis by (intro skips) (auto simp: add_scope_key_def split: prod.split option.split)
qed

lemma add_scope_key_ok:
  assumes "distinct (map fst d)" and "list_all (\<lambda>(_, ks). ks \<noteq> []) d"
  shows "distinct (map fst (add_scope_key x d)) \<and> list_all (\<lambda>(_, ks). ks \<noteq> []) (add_scope_key x d)"
proof (cases rule: add_scope_key_cases [of x d])
  case (adds p s ks)
  then have "ks \<noteq> []" by auto
  then show ?thesis
    using assms adds(2) set_dict_set [of p ks d] by (auto simp: distinct_dict_set list_all_iff)
qed (use assms in simp)

definition collected :: "(perm, entity list) dict \<Rightarrow> perm \<Rightarrow> entity \<Rightarrow> bool" where
  "collected d p s \<longleftrightarrow> (\<exists>ks. map_of d p = Some ks \<and> s \<in> set ks)"

lemma add_scope_key_collects: "collected (add_scope_key x d) p s \<longleftrightarrow> x = (Some p, Some s) \<or> collected d p s"
proof (cases rule: add_scope_key_cases [of x d])
  case (adds q t ks)
  then show ?thesis by (cases "map_of d q") (auto simp: collected_def)
qed auto

lemma scope_keys_ok:
  assumes "distinct (map fst d)" and "list_all (\<lambda>(_, ks). ks \<noteq> []) d"
  shows "distinct (map fst (fold add_scope_key pairs d)) \<and> list_all (\<lambda>(_, ks). ks \<noteq> []) (fold add_scope_key pairs d)"
  using assms add_scope_key_ok by (induction pairs arbitrary: d) auto

lemma scope_keys_collected: "collected (fold add_scope_key pairs d) p s \<longleftrightarrow> (Some p, Some s) \<in> set pairs \<or> collected d p s"
  by (induction pairs arbitrary: d) (auto simp: add_scope_key_collects)

lemma role_index_lookup:
  "map_of (build_role_index db u pairs) (p, s) =
     (if (Some p, Some s) \<in> set pairs then Some (holds_role_with db u p s) else None)"
proof -
  have "map_of (build_role_index db u pairs) (p, s) =
    (if collected (fold add_scope_key pairs []) p s then Some (holds_role_with db u p s) else None)"
    using scope_keys_ok [of "[]" pairs]
    by (auto simp: build_role_index_def index_permissions_lookup collected_def split: option.split simp del: map_of_eq_Some_iff)
  moreover have "\<not> collected [] p s" by (simp add: collected_def)
  ultimately show ?thesis by (simp add: scope_keys_collected)
qed

text \<open>C13. A lookup table gives the answers of the queries it replaces: built for any collection of pairs, it holds for
  each of them, and for nothing else, whether the user holds the permission on the scope, and a check made with it
  comes out as without it, for tokens, inactive accounts and staff too.\<close>

theorem role_index_exact:
  "has_permission_in st db c p scope (Some (build_role_index db (acc_pk (user_of c)) pairs)) =
     has_permission_in st db c p scope None \<and>
   map_of (build_role_index db u pairs) (q, s) =
     (if (Some q, Some s) \<in> set pairs then Some (holds_role_with db u q s) else None)"
  by (auto simp: has_permission_in_def role_index_lookup split: option.split)

subsection \<open>Checks made of other checks\<close>

text \<open>
  A narrower way to ask: whatever it grants, the wider one grants as well.  The composed checks inherit the order.
\<close>

locale narrower_check =
  fixes narrow wide :: "perm \<Rightarrow> entity option \<Rightarrow> bool"
  assumes narrow_wide: "narrow p s \<Longrightarrow> wide p s"
begin

lemma all_narrow: "list_all (\<lambda>p. narrow p s) ps \<Longrightarrow> list_all (\<lambda>p. wide p s) ps"
  by (auto simp: list_all_iff narrow_wide)

lemma any_source_narrow: "any_source (narrow p) st s e n paths = Inr True \<Longrightarrow> any_source (wide p) st s e n paths = Inr True"
  by (induction paths arbitrary: e) (auto simp: narrow_wide split: option.splits if_splits)

end

interpretation token_check: narrower_check
  "\<lambda>p s. has_permission_in st db (By_request u t) p s None" "\<lambda>p s. has_permission_in st db (By_user u) p s None"
  for st db u t
  by unfold_locales (auto simp: has_permission_allowed allowed_def token_allows_def)


text \<open>
  Where a check with source paths ends: at the first source it holds for, or at the error when every path is
  missing.  \<open>e\<close> errors have been counted before \<open>paths\<close>, out of \<open>n\<close> paths.
\<close>

lemma any_source_decides:
  "e + length paths \<le> n \<Longrightarrow> any_source check st s e n paths =
    (if list_ex check (List.map_filter (follow_path st (Some s)) paths) then Inr True
     else if e + length paths = n \<and> List.map_filter (follow_path st (Some s)) paths = [] then Inl Attribute_error
     else Inr False)"
  by (induction paths arbitrary: e) (auto simp: List.map_filter_simps split: option.split)

definition sources_of :: "scope_tree \<Rightarrow> entity \<Rightarrow> string list list \<Rightarrow> entity option list" where
  "sources_of st s sources = (if sources = [] then [Some s] else List.map_filter (follow_path st (Some s)) sources)"

text \<open>C12. What a permission guard of an endpoint decides: it lets a caller pass exactly when the rule allows the
  permission on one of the sources its paths reach, the token's permissions and bindings included for each of
  them; it is a server error exactly when none of its paths exists, and refuses otherwise.\<close>

theorem guard_decides:
  "permission_factory p sources st db c (Some s) =
     (if list_ex (allowed st db c p) (sources_of st s sources) then Inr ()
      else if sources_of st s sources = [] then Inl Attribute_error else Inl Permission_denied)"
  by (simp add: permission_factory_def has_permission_on_any_source_def sources_of_def has_permission_allowed
      any_source_decides)

text \<open>A token narrows its user, through every check.\<close>

lemma token_narrows:
  assumes "allowed st db (By_request u (Some t)) p scope"
  shows "allowed st db (By_user u) p scope" "p \<in> set (pat_scopes t)"
  using assms by (auto simp: allowed_def token_allows_def)

lemma token_guard_narrows:
  assumes "permission_factory p sources st db (By_request u t) scope = Inr ()"
  shows "permission_factory p sources st db (By_user u) scope = Inr ()"
  using assms token_check.narrow_wide [of st db u t p] token_check.any_source_narrow [of st db u t p]
  by (cases scope)
    (auto simp: permission_factory_def has_permission_on_any_source_def rbind_eq_Inr split: if_splits)

lemma token_all_narrows:
  "has_all_permissions st db (By_request u t) ps scope \<Longrightarrow> has_all_permissions st db (By_user u) ps scope"
  unfolding has_all_permissions_def by (rule token_check.all_narrow)

lemma any_permission_allowed:
  "has_any_permission st db c ps scope \<longleftrightarrow>
     list_ex (\<lambda>p. allowed st db c p scope) ps \<or>
     ps = [] \<and> token_of c = None \<and> acc_is_active (user_of c) \<and> acc_is_staff (user_of c)"
proof (cases "token_of c")
  case None
  then show ?thesis
    by (cases scope; cases ps) (auto simp: has_any_permission_def allowed_def token_allows_def list_ex_iff role_holds_def)
next
  case (Some t)
  have "filter (\<lambda>p. p \<in> set (pat_scopes t)) ps = [] \<longleftrightarrow> (\<forall>p \<in> set ps. p \<notin> set (pat_scopes t))"
    by (simp add: filter_empty_conv)
  with Some show ?thesis
    by (cases scope)
      (auto simp: has_any_permission_def allowed_def token_allows_def list_ex_iff role_holds_def entity_check_allows Let_def)
qed

lemma all_permissions_allowed: "has_all_permissions st db c ps scope \<longleftrightarrow> list_all (\<lambda>p. allowed st db c p scope) ps"
  by (simp add: has_all_permissions_def has_permission_allowed)

text \<open>
  Malformed bindings are skipped so that a bad row cannot break authentication; a token all of whose bindings are
  malformed is therefore bound to nothing and acts everywhere its user may.
\<close>

lemma malformed_bindings_unbind:
  assumes "list_all (\<lambda>b. b = None) (pat_allowed_scopes t)" and "p \<in> set (pat_scopes t)"
  shows "has_permission_in st db (By_request u (Some t)) p scope None = has_permission_in st db (By_user u) p scope None"
proof -
  have "pat_allowed_pairs t = []"
    using assms(1) by (auto simp: pat_allowed_pairs_def List.map_filter_def list_all_iff filter_empty_conv)
  then show ?thesis using assms(2) by (simp add: has_permission_allowed allowed_def token_allows_def)
qed

end
