(* ===== verification/Role_Invariants.thy ===== *)
theory Role_Invariants
  imports Role_Endpoints Role_Checks
begin

text \<open>
  The tables of roles along the endpoints and tasks of \<open>role_step\<close>: what each write leaves alone, the sweep over
  grants that tasks make, and the first invariant, \<open>grants_ok\<close>, that no user holds a role twice on a scope.  The
  second, that accounts follow their roles, is in \<open>Role_Accounts\<close>.
\<close>

subsection \<open>What the writes touch\<close>

named_theorems role_simps \<open>fields of the tables after a write\<close>

lemma set_active_fields [role_simps]:
  "rd_grants (set_active u b db) = rd_grants db" "rd_next (set_active u b db) = rd_next db"
  "rd_roles (set_active u b db) = rd_roles db" "rd_permissions (set_active u b db) = rd_permissions db"
  "rd_availability (set_active u b db) = rd_availability db" "rd_concealments (set_active u b db) = rd_concealments db"
  "rd_accounts (set_active u b db) = update_rows (\<lambda>a. acc_pk a = u) (\<lambda>a. a\<lparr>acc_is_active := b\<rparr>) (rd_accounts db)"
  by (simp_all add: set_active_def)

lemma role_granted_fields [role_simps]:
  "rd_grants (role_granted cf g reason db) = rd_grants db" "rd_next (role_granted cf g reason db) = rd_next db"
  "rd_roles (role_granted cf g reason db) = rd_roles db" "rd_permissions (role_granted cf g reason db) = rd_permissions db"
  "rd_availability (role_granted cf g reason db) = rd_availability db"
  "rd_concealments (role_granted cf g reason db) = rd_concealments db"
  by (simp_all add: role_granted_def reactivate_user_if_gaining_roles_def log_event_def role_simps split: option.split)

lemma role_revoked_fields [role_simps]:
  "rd_grants (role_revoked cf g reason db) = rd_grants db" "rd_next (role_revoked cf g reason db) = rd_next db"
  "rd_roles (role_revoked cf g reason db) = rd_roles db" "rd_permissions (role_revoked cf g reason db) = rd_permissions db"
  "rd_availability (role_revoked cf g reason db) = rd_availability db"
  "rd_concealments (role_revoked cf g reason db) = rd_concealments db"
  by (simp_all add: role_revoked_def deactivate_user_if_no_roles_def log_event_def role_simps split: option.split)

lemma set_grant_fields [role_simps]:
  "rd_grants (set_grant g db) = update_rows (\<lambda>x. g_pk x = g_pk g) (\<lambda>_. g) (rd_grants db)"
  "rd_next (set_grant g db) = rd_next db" "rd_roles (set_grant g db) = rd_roles db"
  "rd_permissions (set_grant g db) = rd_permissions db" "rd_availability (set_grant g db) = rd_availability db"
  "rd_concealments (set_grant g db) = rd_concealments db" "rd_accounts (set_grant g db) = rd_accounts db"
  by (simp_all add: set_grant_def)

lemma log_event_fields [role_simps]:
  "rd_grants (log_event e db) = rd_grants db" "rd_next (log_event e db) = rd_next db"
  "rd_roles (log_event e db) = rd_roles db" "rd_permissions (log_event e db) = rd_permissions db"
  "rd_availability (log_event e db) = rd_availability db" "rd_concealments (log_event e db) = rd_concealments db"
  "rd_accounts (log_event e db) = rd_accounts db"
  by (simp_all add: log_event_def)

definition revoked_row :: "int \<Rightarrow> nat option \<Rightarrow> string \<Rightarrow> grant \<Rightarrow> grant" where
  "revoked_row t by_user reason g =
     g\<lparr>g_active := False, g_expiration := Some t, g_revoked_by := by_user, g_reason := reason\<rparr>"

lemma revoked_row_fields [simp]:
  "g_pk (revoked_row t b r g) = g_pk g" "g_user (revoked_row t b r g) = g_user g" "g_role (revoked_row t b r g) = g_role g"
  "g_scope (revoked_row t b r g) = g_scope g" "\<not> g_active (revoked_row t b r g)"
  by (simp_all add: revoked_row_def)

lemma revoke_grant_fields [role_simps]:
  "rd_next (revoke_grant cf t b r g db) = rd_next db" "rd_roles (revoke_grant cf t b r g db) = rd_roles db"
  "rd_permissions (revoke_grant cf t b r g db) = rd_permissions db"
  "rd_availability (revoke_grant cf t b r g db) = rd_availability db"
  "rd_concealments (revoke_grant cf t b r g db) = rd_concealments db"
  by (simp_all add: revoke_grant_def role_simps)

lemma revoke_grant_rows:
  "rd_grants (revoke_grant cf t b r g db) =
     (if g_active g then update_rows (\<lambda>x. g_pk x = g_pk g) (\<lambda>_. revoked_row t b r g) (rd_grants db) else rd_grants db)"
  by (simp add: revoke_grant_def role_simps revoked_row_def)

text \<open>Replacing a row by one with the same key: rows of other keys stay, and keys stay distinct.\<close>

lemma replace_row_keys: "g_pk g' = g_pk g \<Longrightarrow> map g_pk (update_rows (\<lambda>x. g_pk x = g_pk g) (\<lambda>_. g') rows) = map g_pk rows"
  by (rule map_update_rows_same) simp

lemma replace_row_map:
  assumes "distinct (map g_pk rows)" and "g \<in> set rows"
  shows "update_rows (\<lambda>x. g_pk x = g_pk g) (\<lambda>_. f g) rows = map (\<lambda>x. if x = g then f x else x) rows"
  using distinct_key_eq [OF assms(1) _ assms(2)] assms(2) by (auto simp: update_rows_def)

subsection \<open>Sweeps\<close>

text \<open>
  A task reads the rows once and revokes those a condition on the row and the availability table does not spare.
  The rows still to come are untouched by the revocations before them.
\<close>

definition sweep ::
    "role_settings \<Rightarrow> int \<Rightarrow> string \<Rightarrow> (grant \<Rightarrow> (nat \<times> entity) list \<Rightarrow> bool) \<Rightarrow> grant list \<Rightarrow> roles_db \<Rightarrow> roles_db" where
  "sweep cf t reason spared gs db =
     fold (\<lambda>g d. if spared g (rd_availability d) then d else revoke_grant cf t None reason g d) gs db"

lemma sweep_fields [role_simps]:
  "rd_next (sweep cf t reason spared gs db) = rd_next db" "rd_roles (sweep cf t reason spared gs db) = rd_roles db"
  "rd_permissions (sweep cf t reason spared gs db) = rd_permissions db"
  "rd_availability (sweep cf t reason spared gs db) = rd_availability db"
  "rd_concealments (sweep cf t reason spared gs db) = rd_concealments db"
  unfolding sweep_def by (induction gs arbitrary: db) (simp_all add: role_simps)

lemma sweep_invariant:
  assumes "P db" and "distinct (map g_pk (rd_grants db))" and "distinct (map g_pk gs)" and "set gs \<subseteq> set (rd_grants db)"
    and revoke: "\<And>g d. P d \<Longrightarrow> distinct (map g_pk (rd_grants d)) \<Longrightarrow> g \<in> set (rd_grants d) \<Longrightarrow> P (revoke_grant cf t None reason g d)"
  shows "P (sweep cf t reason spared gs db)"
  using assms(1-4) unfolding sweep_def
proof (induction gs arbitrary: db)
  case (Cons g gs)
  let ?d = "revoke_grant cf t None reason g db"
  have keys: "map g_pk (rd_grants ?d) = map g_pk (rd_grants db)"
    by (simp add: revoke_grant_rows replace_row_keys)
  have "x \<in> set (rd_grants ?d)" if "x \<in> set gs" for x
  proof -
    have "g_pk x \<noteq> g_pk g" using that Cons.prems(3) by (auto simp: image_iff)
    then show ?thesis using that Cons.prems(4) by (force simp: revoke_grant_rows set_update_rows)
  qed
  moreover have "P ?d" by (rule revoke) (use Cons.prems in auto)
  ultimately show ?case using Cons keys by (auto simp: subset_iff)
qed simp

lemma sweep_rows:
  assumes "distinct (map g_pk (rd_grants db))" and "distinct (map g_pk gs)" and "set gs \<subseteq> set (rd_grants db)"
    and "list_all g_active gs"
  shows "rd_grants (sweep cf t reason spared gs db) =
    map (\<lambda>x. if x \<in> set gs \<and> \<not> spared x (rd_availability db) then revoked_row t None reason x else x) (rd_grants db)"
  using assms
proof (induction gs arbitrary: db)
  case Nil
  then show ?case by (simp add: sweep_def)
next
  case (Cons g gs)
  let ?rev = "revoked_row t None reason"
  define d where "d = (if spared g (rd_availability db) then db else revoke_grant cf t None reason g db)"
  have av: "rd_availability d = rd_availability db" by (simp add: d_def role_simps)
  have rows: "rd_grants d = map (\<lambda>x. if x = g \<and> \<not> spared x (rd_availability db) then ?rev x else x) (rd_grants db)"
    using Cons.prems replace_row_map [of "rd_grants db" g ?rev]
    by (simp add: d_def revoke_grant_rows cong: conj_cong)
  have keys: "map g_pk (rd_grants d) = map g_pk (rd_grants db)" by (auto simp: rows)
  have other: "x \<noteq> g" if "x \<in> set gs" for x using that Cons.prems(2) by auto
  have "set gs \<subseteq> set (rd_grants d)" using Cons.prems(3) other by (force simp: rows)
  then have "rd_grants (sweep cf t reason spared gs d) =
    map (\<lambda>x. if x \<in> set gs \<and> \<not> spared x (rd_availability d) then ?rev x else x) (rd_grants d)"
    using Cons by (simp add: keys)
  moreover have "?rev g \<notin> set gs" using Cons.prems(4) by (auto simp: list_all_iff)
  ultimately have "rd_grants (sweep cf t reason spared gs d) =
    map (\<lambda>x. if x \<in> set (g # gs) \<and> \<not> spared x (rd_availability db) then ?rev x else x) (rd_grants db)"
    by (auto simp: rows av)
  then show ?case by (simp add: sweep_def d_def)
qed

lemma expiry_is_sweep:
  "check_expired_permissions cf t db =
     sweep cf t ''Automatic expiration cleanup task'' (\<lambda>g _. expiration_exempt cf g)
       (filter (\<lambda>g. (case g_expiration g of None \<Rightarrow> False | Some e \<Rightarrow> e < t) \<and> g_active g) (rd_grants db)) db"
  by (simp add: check_expired_permissions_def sweep_def)

definition covered :: "role_settings \<Rightarrow> nat \<Rightarrow> grant \<Rightarrow> (nat \<times> entity) list \<Rightarrow> bool" where
  "covered cf r g av \<longleftrightarrow> \<not> still_exists (scopes cf) (g_scope g) \<or>
     list_ex (\<lambda>a. (r, a) \<in> set av) (get_scope_ancestors (scopes cf) (g_scope g))"

lemma reconciliation_is_sweep:
  "revoke_user_roles_outside_availability cf t r db =
     (if has_availability db r
      then sweep cf t ''Role availability removed'' (covered cf r) (filter (\<lambda>g. g_role g = r \<and> g_active g) (rd_grants db)) db
      else db)"
proof -
  have "(\<lambda>g d. if \<not> still_exists (scopes cf) (g_scope g) then d
          else if available_at cf d r (g_scope g) then d else revoke_grant cf t None ''Role availability removed'' g d) =
    (\<lambda>g d. if covered cf r g (rd_availability d) then d else revoke_grant cf t None ''Role availability removed'' g d)"
    by (intro ext) (simp add: covered_def available_at_def)
  then show ?thesis by (simp add: revoke_user_roles_outside_availability_def sweep_def)
qed

subsection \<open>No role twice\<close>

definition grant_key :: "grant \<Rightarrow> nat \<times> nat \<times> entity" where
  "grant_key g = (g_user g, g_role g, g_scope g)"

definition grants_ok :: "roles_db \<Rightarrow> bool" where
  "grants_ok db \<longleftrightarrow> distinct (map g_pk (rd_grants db)) \<and> list_all (\<lambda>g. g_pk g < rd_next db) (rd_grants db) \<and>
     distinct (map grant_key (filter g_active (rd_grants db)))"

lemma grants_ok_same:
  "rd_grants db' = rd_grants db \<Longrightarrow> rd_next db \<le> rd_next db' \<Longrightarrow> grants_ok db \<Longrightarrow> grants_ok db'"
  by (auto simp: grants_ok_def list_all_iff)

lemma grants_ok_filter:
  assumes "grants_ok db" and "rd_grants db' = filter P (rd_grants db)" and "rd_next db' = rd_next db"
  shows "grants_ok db'"
proof -
  have "filter g_active (filter P (rd_grants db)) = filter P (filter g_active (rd_grants db))"
    by (simp add: conj_commute)
  then show ?thesis using assms by (simp add: grants_ok_def distinct_map_filter list_all_iff del: filter_filter)
qed

lemma grants_ok_replace:
  assumes "grants_ok db" and "g \<in> set (rd_grants db)" and "g_pk g' = g_pk g" and "grant_key g' = grant_key g"
    and "rd_grants db' = update_rows (\<lambda>x. g_pk x = g_pk g) (\<lambda>_. g') (rd_grants db)" and "rd_next db' = rd_next db"
    and "g_active g' \<Longrightarrow> \<not> g_active g \<Longrightarrow> grant_key g \<notin> set (map grant_key (filter g_active (rd_grants db)))"
  shows "grants_ok db'"
proof -
  have d: "distinct (map g_pk (rd_grants db))" using assms(1) by (simp add: grants_ok_def)
  have rows: "rd_grants db' = map (\<lambda>x. if x = g then g' else x) (rd_grants db)"
    using replace_row_map [OF d assms(2), of "\<lambda>_. g'"] assms(5) by simp
  obtain xs ys where split: "rd_grants db = xs @ g # ys" "g \<notin> set xs" "g \<notin> set ys"
  proof -
    have "distinct (rd_grants db)" using d by (simp add: distinct_map)
    moreover obtain xs ys where "rd_grants db = xs @ g # ys" using assms(2) by (meson split_list)
    ultimately show thesis by (intro that) auto
  qed
  have "rd_grants db' = xs @ g' # ys" using split by (auto simp: rows intro: map_idI)
  then show ?thesis
    using assms(1,3,4,6,7) split(1) unfolding grants_ok_def by (cases "g_active g"; cases "g_active g'") (auto simp: list_all_iff)
qed

lemma revoke_grants_ok:
  assumes "grants_ok db" and "g \<in> set (rd_grants db)"
  shows "grants_ok (revoke_grant cf t b r g db)"
proof (cases "g_active g")
  case True
  show ?thesis
    by (rule grants_ok_replace [OF assms, of "revoked_row t b r g"])
      (simp_all add: grant_key_def revoke_grant_rows role_simps True)
qed (simp add: assms(1) revoke_grant_def)

lemma sweep_grants_ok:
  assumes "grants_ok db" and "distinct (map g_pk gs)" and "set gs \<subseteq> set (rd_grants db)"
  shows "grants_ok (sweep cf t reason spared gs db)"
  by (rule sweep_invariant) (use assms revoke_grants_ok in \<open>auto simp: grants_ok_def\<close>)

lemma filtered_rows: "grants_ok db \<Longrightarrow> distinct (map g_pk (filter P (rd_grants db))) \<and> set (filter P (rd_grants db)) \<subseteq> set (rd_grants db)"
  by (auto simp: grants_ok_def distinct_map_filter)

lemma reconcile_grants_ok:
  "grants_ok db \<Longrightarrow> grants_ok (revoke_user_roles_outside_availability cf t r db)"
  using filtered_rows sweep_grants_ok by (simp add: reconciliation_is_sweep)

lemma add_user_rows:
  assumes "add_user cf scope u r b e force source reason db = Inr (g, db')"
  shows "rd_grants db' = rd_grants db @ [g]" "rd_next db' = Suc (rd_next db)" "g_pk g = rd_next db"
    "grant_key g = (u, r, scope)" "g_active g" "\<not> force \<Longrightarrow> check_grant_policy cf db scope r = Inr ()"
  using assms by (auto simp: add_user_def rbind_eq_Inr Let_def role_simps grant_key_def)

lemma add_user_grants_ok:
  assumes "grants_ok db" and "\<not> role_holder db scope u (Some r) Any_expiry False"
    and "add_user cf scope u r b e force source reason db = Inr (g, db')"
  shows "grants_ok db'"
proof -
  note rows = add_user_rows [OF assms(3)]
  have "grant_key g \<notin> set (map grant_key (filter g_active (rd_grants db)))"
    using assms(2) rows(4) by (auto simp: role_holder_def list_ex_iff grant_key_def expiry_matches_def)
  then show ?thesis using assms(1) rows by (auto simp: grants_ok_def list_all_iff)
qed

lemma role_of_pk: "role_of db r = Some ro \<Longrightarrow> ro \<in> set (rd_roles db) \<and> ro_pk ro = r"
  unfolding role_of_def by (drule first_row_Some) simp

lemma account_of_pk: "account_of db u = Some a \<Longrightarrow> a \<in> set (rd_accounts db) \<and> acc_pk a = u"
  unfolding account_of_def by (drule first_row_Some) simp

lemma add_user_checked:
  assumes "add_user_checks cf db t c scope u r e = Inr ()"
  obtains ro a where "role_of db r = Some ro" "account_of db u = Some a" "ro_pk ro = r" "acc_pk a = u"
    "validate_scope_not_soft_deleted cf scope = Inr ()"
    "mutate_checks cf db t c (get_create_permission scope) scope u e = Inr ()"
    "acc_is_active a \<or> acc_is_staff (user_of c)" "validate_role_grant cf db t scope a ro = Inr ()"
proof -
  obtain ro a where found: "role_of db r = Some ro" "account_of db u = Some a"
    using assms by (auto simp: add_user_checks_def rbind_eq_Inr split: option.splits)
  then show thesis
    using assms role_of_pk [OF found(1)] account_of_pk [OF found(2)]
    by (intro that [of ro a]) (auto simp: add_user_checks_def rbind_eq_Inr)
qed

lemma granted_role:
  assumes "validate_role_grant cf db t scope a ro = Inr ()"
  shows "\<not> role_holder db scope (acc_pk a) (Some (ro_pk ro)) Any_expiry False" "fst scope = ro_content_type ro" "ro_is_active ro"
    "check_grant_policy cf db scope (ro_pk ro) = Inr ()"
  using assms by (auto simp: validate_role_grant_def rbind_eq_Inr split: if_splits)

lemma checked_not_held:
  assumes "add_user_checks cf db t c scope u r e = Inr ()"
  shows "\<not> role_holder db scope u (Some r) Any_expiry False"
  using add_user_checked [OF assms] granted_role(1) by metis

lemma active_grant_found:
  "get_active_grant scope u r db = Inr (Some g) \<Longrightarrow> g \<in> set (rd_grants db) \<and> g_active g \<and> grant_key g = (u, r, scope)"
proof -
  assume found: "get_active_grant scope u r db = Inr (Some g)"
  have "g \<in> set (filter (\<lambda>g. g_user g = u \<and> g_role g = r \<and> g_scope g = scope \<and> g_active g) (rd_grants db))"
    using found unfolding get_active_grant_def
    by (cases "filter (\<lambda>g. g_user g = u \<and> g_role g = r \<and> g_scope g = scope \<and> g_active g) (rd_grants db)")
      (auto split: list.splits)
  then show ?thesis by (simp add: grant_key_def)
qed

lemma update_user_grants_ok:
  assumes "grants_ok db" and "update_user scope u r e reason db = Inr (b, db')"
  shows "grants_ok db'"
proof -
  consider "db' = db" | g where "get_active_grant scope u r db = Inr (Some g)" "db' = set_expiration_time e reason g db"
    using assms(2) by (auto simp: update_user_def rbind_eq_Inr split: option.splits)
  then show ?thesis
  proof cases
    case 2
    note found = active_grant_found [OF 2(1)]
    show ?thesis
      by (rule grants_ok_replace [OF assms(1), of g "g\<lparr>g_expiration := e\<rparr>"])
        (use found in \<open>simp_all add: 2(2) set_expiration_time_def role_simps grant_key_def\<close>)
  qed (simp add: assms(1))
qed

lemma delete_user_grants_ok:
  assumes "grants_ok db" and "delete_user cf t scope u r by_user reason db = Inr (b, db')"
  shows "grants_ok db'"
proof -
  consider "db' = db" | g where "get_active_grant scope u r db = Inr (Some g)" "db' = revoke_grant cf t by_user (removal_reason by_user reason) g db"
    using assms(2) by (auto simp: delete_user_def rbind_eq_Inr split: option.splits)
  then show ?thesis
  proof cases
    case 2
    then show ?thesis using revoke_grants_ok [OF assms(1)] active_grant_found [OF 2(1)] by simp
  qed (simp add: assms(1))
qed

lemma restore_grants_ok:
  assumes "grants_ok db" and "g \<in> set (rd_grants db)" and "\<not> g_active g"
    and "\<not> list_ex (\<lambda>h. g_user h = g_user g \<and> g_role h = g_role g \<and> g_scope h = g_scope g \<and> g_active h) (rd_grants db)"
  shows "grants_ok (restore_grant cf reason g db)"
proof -
  have "grant_key g \<notin> set (map grant_key (filter g_active (rd_grants db)))"
    using assms(4) by (auto simp: grant_key_def list_ex_iff)
  then show ?thesis
    by (intro grants_ok_replace [OF assms(1,2), of "g\<lparr>g_active := True, g_expiration := None, g_revoked_by := None, g_reason := []\<rparr>"])
      (simp_all add: grant_key_def restore_grant_def role_simps assms(3))
qed

lemma revoke_endpoint_done:
  assumes "revoke_endpoint cf t c pk reason db = Inr db'"
  obtains g why where "g \<in> set (rd_grants db)" "g_pk g = pk" "g_active g" "visible_grant cf c g"
    "check_action_permission cf db c get_delete_permission g = Inr ()"
    "db' = revoke_grant cf t (Some (acc_pk (user_of c))) why g db"
proof -
  obtain g where g: "first_row (\<lambda>g. g_pk g = pk \<and> visible_grant cf c g) (rd_grants db) = Some g"
    using assms by (cases "first_row (\<lambda>g. g_pk g = pk \<and> visible_grant cf c g) (rd_grants db)") (simp_all add: revoke_endpoint_def)
  show thesis
    by (rule that [of g "if reason = [] then ''Manual role removal via API'' else reason"])
      (use assms g first_row_Some [OF g] in \<open>simp_all add: revoke_endpoint_def rbind_eq_Inr split: if_splits\<close>)
qed

lemma restore_endpoint_done:
  assumes "restore_endpoint cf c pk reason db = Inr db'"
  obtains g why where "g \<in> set (rd_grants db)" "g_pk g = pk" "\<not> g_active g"
    "check_action_permission cf db c get_create_permission g = Inr ()"
    "\<not> list_ex (\<lambda>h. g_user h = g_user g \<and> g_role h = g_role g \<and> g_scope h = g_scope g \<and> g_active h) (rd_grants db)"
    "db' = restore_grant cf why g db"
proof -
  obtain g where g: "first_row (\<lambda>g. g_pk g = pk \<and> visible_grant cf c g) (rd_grants db) = Some g"
    using assms by (cases "first_row (\<lambda>g. g_pk g = pk \<and> visible_grant cf c g) (rd_grants db)") (simp_all add: restore_endpoint_def)
  show thesis
    by (rule that [of g "if reason = [] then ''Manual role restore via API'' else reason"])
      (use assms g first_row_Some [OF g] in \<open>simp_all add: restore_endpoint_def rbind_eq_Inr split: if_splits\<close>)
qed

lemma add_user_endpoint_done:
  assumes "add_user_endpoint cf t c scope u r e db = Inr db'"
  obtains g where "add_user_checks cf db t c scope u r e = Inr ()"
    "add_user cf scope u r (Some (acc_pk (user_of c))) e False [] [] db = Inr (g, db')"
  using assms by (auto simp: add_user_endpoint_def rbind_eq_Inr)

lemma update_user_endpoint_done:
  assumes "update_user_endpoint cf t c scope u r e db = Inr db'"
  obtains why where "update_user scope u r e why db = Inr (True, db')"
  using assms by (auto simp: update_user_endpoint_def rbind_eq_Inr split: if_splits)

lemma delete_user_endpoint_done:
  assumes "delete_user_endpoint cf t c scope u r db = Inr db'"
  obtains b why where "delete_user cf t scope u r (Some (acc_pk (user_of c))) why db = Inr (b, db')"
  using assms by (auto simp: delete_user_endpoint_def rbind_eq_Inr split: if_splits)

lemma fold_set_active_fields:
  "rd_grants (fold (\<lambda>a. set_active (acc_pk a) b) as db) = rd_grants db"
  "rd_next (fold (\<lambda>a. set_active (acc_pk a) b) as db) = rd_next db"
  by (induction as arbitrary: db) (simp_all add: role_simps)

lemma grants_ok_step: "role_step cf db db' \<Longrightarrow> grants_ok db \<Longrightarrow> grants_ok db'"
proof (induction rule: role_step.induct)
  case (added t c scope u r expiration db db')
  from added(1) show ?case
    by (rule add_user_endpoint_done) (rule add_user_grants_ok [OF added(2) checked_not_held])
next
  case (updated t c scope u r expiration db db')
  from updated(1) show ?case by (rule update_user_endpoint_done) (rule update_user_grants_ok [OF updated(2)])
next
  case (removed t c scope u r db db')
  from removed(1) show ?case by (rule delete_user_endpoint_done) (rule delete_user_grants_ok [OF removed(2)])
next
  case (revoked t c pk reason db db')
  from revoked(1) show ?case by (rule revoke_endpoint_done) (simp add: revoke_grants_ok revoked(2))
next
  case (restored c pk reason db db')
  from restored(1) show ?case by (rule restore_endpoint_done) (simp add: restore_grants_ok restored(2))
next
  case (cloned c r customer b db db')
  then show ?case
    by (intro grants_ok_same [of db' db])
      (auto simp: clone_to_customer_def clone_role_for_customer_def with_clone_def conceal_def rbind_eq_Inr Let_def
        split: option.splits if_splits)
next
  case (concealed c r customer db db')
  then show ?case
    by (intro grants_ok_same [of db' db])
      (auto simp: conceal_endpoint_def conceal_def rbind_eq_Inr split: option.splits if_splits)
next
  case (revealed c r customer db db')
  then show ?case by (intro grants_ok_same [of db' db]) (auto simp: reveal_endpoint_def split: if_splits)
next
  case (unbound c r scope db db' queued)
  then show ?case by (intro grants_ok_same [of db' db]) (auto simp: delete_availability_def split: if_splits)
next
  case (reconciled_role db t r)
  then show ?case using reconcile_grants_ok by (simp add: reconcile_user_roles_for_role_def)
next
  case (switched b c r db db')
  then show ?case by (intro grants_ok_same [of db' db]) (auto simp: set_role_activity_def split: option.splits if_splits)
next
  case (destroyed c r db db')
  then show ?case
    by (intro grants_ok_filter [of db db' "\<lambda>g. g_role g \<noteq> r"])
      (auto simp: destroy_role_def rbind_eq_Inr split: option.splits if_splits)
next
  case (expired db t)
  then show ?case using filtered_rows sweep_grants_ok by (simp add: expiry_is_sweep)
next
  case (reconciled db t)
  have "grants_ok (fold (revoke_user_roles_outside_availability cf t) rs db)" for rs
    using reconciled by (induction rs arbitrary: db) (simp_all add: reconcile_grants_ok)
  then show ?case by (simp add: reconcile_user_roles_against_availability_def)
next
  case (synchronised db)
  show ?case
    by (rule grants_ok_same [OF _ _ synchronised]) (simp_all add: sync_user_deactivation_status_def Let_def fold_set_active_fields)
qed

interpretation single_grants: invariant_system "role_step cf" grants_ok for cf
  by unfold_locales (rule grants_ok_step)

end
