(* ===== verification/Role_Accounts.thy ===== *)
theory Role_Accounts
  imports Role_Invariants
begin

text \<open>
  Accounts follow their roles: with \<open>DEACTIVATE_USER_IF_NO_ROLES\<close> on, the periodic synchronisation establishes
  that activity and entitlement agree, and every endpoint and task keeps it so, because each grant and each
  revocation is followed by its signal.
\<close>

definition counts :: "role_settings \<Rightarrow> grant \<Rightarrow> bool" where
  "counts cf g \<longleftrightarrow> g_active g \<and> \<not> (fst (g_scope g) = PROJECT_MODEL \<and> snd (g_scope g) \<in> set (removed_projects (scopes cf)))"

definition entitled :: "role_settings \<Rightarrow> roles_db \<Rightarrow> nat \<Rightarrow> bool" where
  "entitled cf db u \<longleftrightarrow> (\<exists>g \<in> set (rd_grants db). g_user g = u \<and> counts cf g) \<or> course_ok cf u"

definition account_ok :: "role_settings \<Rightarrow> roles_db \<Rightarrow> account \<Rightarrow> bool" where
  "account_ok cf db a \<longleftrightarrow> acc_is_staff a \<or> acc_is_support a \<or>
     (acc_is_active a \<longrightarrow> entitled cf db (acc_pk a)) \<and>
     (entitled cf db (acc_pk a) \<and> \<not> acc_is_admin_deactivated a \<longrightarrow> acc_is_active a)"

definition accounts_ok :: "role_settings \<Rightarrow> roles_db \<Rightarrow> bool" where
  "accounts_ok cf db \<longleftrightarrow> distinct (map acc_pk (rd_accounts db)) \<and> (\<forall>a \<in> set (rd_accounts db). account_ok cf db a)"

lemma active_roles_entitle: "(get_active_roles (scopes cf) db u \<noteq> [] \<or> course_ok cf u) = entitled cf db u"
  by (auto simp: get_active_roles_def exclude_removed_project_roles_def filter_empty_conv entitled_def counts_def)

lemma deactivation_reason:
  "get_deactivation_reason cf db a \<longleftrightarrow> deactivate_if_no_roles cf \<and> acc_is_active a \<and> \<not> acc_is_staff a \<and> \<not> acc_is_support a \<and>
     \<not> entitled cf db (acc_pk a)"
  by (auto simp: get_deactivation_reason_def active_roles_entitle [symmetric])

lemma reactivation:
  "should_reactivate_user cf db a \<longleftrightarrow> deactivate_if_no_roles cf \<and> \<not> acc_is_active a \<and> \<not> acc_is_staff a \<and> \<not> acc_is_support a \<and>
     \<not> acc_is_admin_deactivated a \<and> entitled cf db (acc_pk a)"
  by (auto simp: should_reactivate_user_def active_roles_entitle [symmetric])

lemma entitled_same: "rd_grants db' = rd_grants db \<Longrightarrow> entitled cf db' = entitled cf db"
  by (auto simp: entitled_def fun_eq_iff)

lemma entitled_of_counted:
  assumes "{g \<in> set (rd_grants db'). counts cf g} = {g \<in> set (rd_grants db). counts cf g}"
  shows "entitled cf db' = entitled cf db"
proof -
  have "entitled cf d u \<longleftrightarrow> (\<exists>g \<in> {g \<in> set (rd_grants d). counts cf g}. g_user g = u) \<or> course_ok cf u" for d u
    by (auto simp: entitled_def)
  then show ?thesis by (intro ext) (simp only: assms)
qed

lemma account_ok_same: "entitled cf db' = entitled cf db \<Longrightarrow> account_ok cf db' = account_ok cf db"
  by (intro ext) (simp add: account_ok_def)

lemma accounts_ok_same:
  "accounts_ok cf db \<Longrightarrow> rd_accounts db' = rd_accounts db \<Longrightarrow> entitled cf db' = entitled cf db \<Longrightarrow> accounts_ok cf db'"
  using account_ok_same [of cf db' db] by (simp add: accounts_ok_def)

subsection \<open>The signals restore the agreement\<close>

lemma account_of_unique:
  assumes "distinct (map acc_pk (rd_accounts db))" and "a \<in> set (rd_accounts db)"
  shows "account_of db (acc_pk a) = Some a"
  unfolding account_of_def by (rule first_row_key [OF assms])

lemma set_active_ok:
  assumes "distinct (map acc_pk (rd_accounts db))" and "account_of db u = Some a"
    and "\<And>x. x \<in> set (rd_accounts db) \<Longrightarrow> acc_pk x \<noteq> u \<Longrightarrow> account_ok cf db x" and "account_ok cf db (a\<lparr>acc_is_active := b\<rparr>)"
  shows "accounts_ok cf (set_active u b db)"
proof -
  have same: "account_ok cf (set_active u b db) = account_ok cf db"
    by (rule account_ok_same [OF entitled_same]) (simp add: role_simps)
  have "x = a" if "x \<in> set (rd_accounts db)" "acc_pk x = u" for x
    using account_of_unique [OF assms(1) that(1)] assms(2) that(2) by simp
  then show ?thesis
    using assms by (auto simp: accounts_ok_def same role_simps set_update_rows map_update_rows_same)
qed

lemma reactivate_ok:
  assumes "distinct (map acc_pk (rd_accounts db))" and "deactivate_if_no_roles cf"
    and "\<And>x. x \<in> set (rd_accounts db) \<Longrightarrow> acc_pk x \<noteq> u \<Longrightarrow> account_ok cf db x"
    and "\<And>x. x \<in> set (rd_accounts db) \<Longrightarrow> acc_pk x = u \<Longrightarrow> \<not> acc_is_staff x \<Longrightarrow> \<not> acc_is_support x \<Longrightarrow> acc_is_active x \<Longrightarrow> entitled cf db u"
  shows "accounts_ok cf (reactivate_user_if_gaining_roles cf u db)"
proof (cases "account_of db u")
  case None
  then have "acc_pk x \<noteq> u" if "x \<in> set (rd_accounts db)" for x
    using account_of_unique [OF assms(1) that] by auto
  then show ?thesis using None assms(1,3) by (simp add: reactivate_user_if_gaining_roles_def accounts_ok_def)
next
  case (Some a)
  note pk = account_of_pk [OF Some]
  show ?thesis
  proof (cases "should_reactivate_user cf db a")
    case True
    then show ?thesis
      using set_active_ok [OF assms(1) Some assms(3), of True] Some pk
      by (simp add: reactivate_user_if_gaining_roles_def reactivation account_ok_def)
  next
    case False
    have "account_ok cf db x" if "x \<in> set (rd_accounts db)" for x
    proof (cases "acc_pk x = u")
      case True
      then have "x = a" using account_of_unique [OF assms(1) that] Some by simp
      then show ?thesis using False assms(2,4) pk True by (auto simp: account_ok_def reactivation)
    qed (use assms(3) that in blast)
    then show ?thesis using False Some assms(1) by (simp add: reactivate_user_if_gaining_roles_def accounts_ok_def)
  qed
qed

lemma deactivate_ok:
  assumes "distinct (map acc_pk (rd_accounts db))" and "deactivate_if_no_roles cf"
    and "\<And>x. x \<in> set (rd_accounts db) \<Longrightarrow> acc_pk x \<noteq> u \<Longrightarrow> account_ok cf db x"
    and "\<And>x. x \<in> set (rd_accounts db) \<Longrightarrow> acc_pk x = u \<Longrightarrow> \<not> acc_is_staff x \<Longrightarrow> \<not> acc_is_support x \<Longrightarrow> \<not> acc_is_active x \<Longrightarrow>
        \<not> entitled cf db u \<or> acc_is_admin_deactivated x"
  shows "accounts_ok cf (deactivate_user_if_no_roles cf u db)"
proof (cases "account_of db u")
  case None
  then have "acc_pk x \<noteq> u" if "x \<in> set (rd_accounts db)" for x
    using account_of_unique [OF assms(1) that] by auto
  then show ?thesis using None assms(1,3) by (simp add: deactivate_user_if_no_roles_def accounts_ok_def)
next
  case (Some a)
  note pk = account_of_pk [OF Some]
  show ?thesis
  proof (cases "get_deactivation_reason cf db a")
    case True
    then show ?thesis
      using set_active_ok [OF assms(1) Some assms(3), of False] Some pk
      by (simp add: deactivate_user_if_no_roles_def deactivation_reason account_ok_def)
  next
    case False
    have "account_ok cf db x" if "x \<in> set (rd_accounts db)" for x
    proof (cases "acc_pk x = u")
      case True
      then have "x = a" using account_of_unique [OF assms(1) that] Some by simp
      then show ?thesis using False assms(2,4) pk True by (auto simp: account_ok_def deactivation_reason)
    qed (use assms(3) that in blast)
    then show ?thesis using False Some assms(1) by (simp add: deactivate_user_if_no_roles_def accounts_ok_def)
  qed
qed

text \<open>After a grant only its user can have gained, after a revocation only its user can have lost.\<close>

lemma granted_ok:
  assumes "accounts_ok cf db" and "deactivate_if_no_roles cf" and "rd_accounts d = rd_accounts db"
    and "\<And>u. u \<noteq> g_user g \<Longrightarrow> entitled cf d u = entitled cf db u" and "entitled cf db (g_user g) \<Longrightarrow> entitled cf d (g_user g)"
  shows "accounts_ok cf (role_granted cf g reason d)"
proof -
  let ?d = "log_event (Role_granted (g_pk g) reason) d"
  have e: "entitled cf ?d = entitled cf d" by (rule entitled_same) (simp add: role_simps)
  have "accounts_ok cf (reactivate_user_if_gaining_roles cf (g_user g) ?d)"
  proof (rule reactivate_ok)
    fix x assume "x \<in> set (rd_accounts ?d)" "acc_pk x \<noteq> g_user g"
    then show "account_ok cf ?d x" using assms(1,3,4) by (auto simp: accounts_ok_def account_ok_def e role_simps)
  next
    fix x assume "x \<in> set (rd_accounts ?d)" "acc_pk x = g_user g" "\<not> acc_is_staff x" "\<not> acc_is_support x" "acc_is_active x"
    then show "entitled cf ?d (g_user g)" using assms(1,3,5) by (auto simp: accounts_ok_def account_ok_def e role_simps)
  qed (use assms in \<open>simp_all add: accounts_ok_def role_simps\<close>)
  then show ?thesis by (simp add: role_granted_def)
qed

lemma revoked_ok:
  assumes "accounts_ok cf db" and "deactivate_if_no_roles cf" and "rd_accounts d = rd_accounts db"
    and "\<And>u. u \<noteq> g_user g \<Longrightarrow> entitled cf d u = entitled cf db u" and "entitled cf d (g_user g) \<Longrightarrow> entitled cf db (g_user g)"
  shows "accounts_ok cf (role_revoked cf g reason d)"
proof -
  let ?d = "log_event (Role_revoked (g_pk g) reason) d"
  have e: "entitled cf ?d = entitled cf d" by (rule entitled_same) (simp add: role_simps)
  have "accounts_ok cf (deactivate_user_if_no_roles cf (g_user g) ?d)"
  proof (rule deactivate_ok)
    fix x assume "x \<in> set (rd_accounts ?d)" "acc_pk x \<noteq> g_user g"
    then show "account_ok cf ?d x" using assms(1,3,4) by (auto simp: accounts_ok_def account_ok_def e role_simps)
  next
    fix x assume "x \<in> set (rd_accounts ?d)" "acc_pk x = g_user g" "\<not> acc_is_staff x" "\<not> acc_is_support x" "\<not> acc_is_active x"
    then show "\<not> entitled cf ?d (g_user g) \<or> acc_is_admin_deactivated x"
      using assms(1,3,5) by (auto simp: accounts_ok_def account_ok_def e role_simps)
  qed (use assms in \<open>simp_all add: accounts_ok_def role_simps\<close>)
  then show ?thesis by (simp add: role_revoked_def)
qed


subsection \<open>Every step keeps it\<close>

text \<open>Replacing a row of one user by another of the same user changes nobody else's entitlement.\<close>

lemma entitled_replaced:
  assumes "distinct (map g_pk (rd_grants db))" and "g \<in> set (rd_grants db)" and "g_user g' = g_user g"
    and "rd_grants d = update_rows (\<lambda>x. g_pk x = g_pk g) (\<lambda>_. g') (rd_grants db)" and "u \<noteq> g_user g"
  shows "entitled cf d u = entitled cf db u"
proof -
  have "rd_grants d = map (\<lambda>x. if x = g then g' else x) (rd_grants db)"
    using replace_row_map [OF assms(1,2), of "\<lambda>_. g'"] assms(4) by simp
  then show ?thesis using assms(2,3,5) by (fastforce simp: entitled_def)
qed

lemma entitled_less:
  assumes "distinct (map g_pk (rd_grants db))" and "g \<in> set (rd_grants db)" and "counts cf g' \<Longrightarrow> counts cf g"
    and "g_user g' = g_user g" and "rd_grants d = update_rows (\<lambda>x. g_pk x = g_pk g) (\<lambda>_. g') (rd_grants db)" and "entitled cf d u"
  shows "entitled cf db u"
proof -
  have "rd_grants d = map (\<lambda>x. if x = g then g' else x) (rd_grants db)"
    using replace_row_map [OF assms(1,2), of "\<lambda>_. g'"] assms(5) by simp
  then show ?thesis using assms(2,3,4,6) by (auto simp: entitled_def split: if_splits)
qed

lemma entitled_more:
  assumes "distinct (map g_pk (rd_grants db))" and "g \<in> set (rd_grants db)" and "counts cf g \<Longrightarrow> counts cf g'"
    and "g_user g' = g_user g" and "rd_grants d = update_rows (\<lambda>x. g_pk x = g_pk g) (\<lambda>_. g') (rd_grants db)" and "entitled cf db u"
  shows "entitled cf d u"
proof -
  have "rd_grants d = map (\<lambda>x. if x = g then g' else x) (rd_grants db)"
    using replace_row_map [OF assms(1,2), of "\<lambda>_. g'"] assms(5) by simp
  then show ?thesis using assms(2,3,4,6) by (fastforce simp: entitled_def)
qed

lemma counts_revoked [simp]: "\<not> counts cf (revoked_row t b r g)"
  by (simp add: counts_def)

lemma revoke_accounts_ok:
  assumes "accounts_ok cf db" and "deactivate_if_no_roles cf" and "distinct (map g_pk (rd_grants db))" and "g \<in> set (rd_grants db)"
  shows "accounts_ok cf (revoke_grant cf t b r g db)"
proof (cases "g_active g")
  case True
  let ?d = "set_grant (revoked_row t b r g) db"
  have "accounts_ok cf (role_revoked cf g r ?d)"
    by (rule revoked_ok [OF assms(1,2)])
      (use entitled_replaced [OF assms(3,4), of "revoked_row t b r g" ?d]
        entitled_less [OF assms(3,4), of cf "revoked_row t b r g" ?d] in \<open>simp_all add: role_simps\<close>)
  then show ?thesis using True by (simp add: revoke_grant_def revoked_row_def)
qed (simp add: assms(1) revoke_grant_def)

lemma restore_accounts_ok:
  assumes "accounts_ok cf db" and "deactivate_if_no_roles cf" and "distinct (map g_pk (rd_grants db))" and "g \<in> set (rd_grants db)"
    and "\<not> g_active g"
  shows "accounts_ok cf (restore_grant cf reason g db)"
proof -
  let ?g = "g\<lparr>g_active := True, g_expiration := None, g_revoked_by := None, g_reason := []\<rparr>"
  let ?d = "set_grant ?g db"
  have c: "counts cf g \<Longrightarrow> counts cf ?g" by (simp add: counts_def)
  have "accounts_ok cf (role_granted cf g reason ?d)"
    by (rule granted_ok [OF assms(1,2)])
      (use entitled_replaced [OF assms(3,4), of ?g ?d] entitled_more [OF assms(3,4) c, of ?d] in \<open>simp_all add: role_simps\<close>)
  then show ?thesis using assms(5) by (simp add: restore_grant_def)
qed

lemma add_user_accounts_ok:
  assumes "accounts_ok cf db" and "deactivate_if_no_roles cf"
    and "add_user cf scope u r b e force source reason db = Inr (g, db')"
  shows "accounts_ok cf db'"
proof -
  define d where "d = db\<lparr>rd_grants := rd_grants db @ [g], rd_next := Suc (rd_next db)\<rparr>"
  have "db' = role_granted cf g reason d" using assms(3) by (auto simp: add_user_def rbind_eq_Inr Let_def d_def)
  moreover have "entitled cf d x = entitled cf db x" if "x \<noteq> g_user g" for x
    using that by (auto simp: entitled_def d_def)
  moreover have "entitled cf db x \<Longrightarrow> entitled cf d x" for x by (auto simp: entitled_def d_def)
  ultimately show ?thesis using granted_ok [OF assms(1,2), of d g] by (simp add: d_def)
qed

lemma update_user_accounts_ok:
  assumes "accounts_ok cf db" and "distinct (map g_pk (rd_grants db))" and "update_user scope u r e reason db = Inr (b, db')"
  shows "accounts_ok cf db'"
proof -
  consider "db' = db" | g where "get_active_grant scope u r db = Inr (Some g)" "db' = set_expiration_time e reason g db"
    using assms(3) by (auto simp: update_user_def rbind_eq_Inr split: option.splits)
  then show ?thesis
  proof cases
    case 2
    let ?g = "g\<lparr>g_expiration := e\<rparr>"
    have g: "g \<in> set (rd_grants db)" using active_grant_found [OF 2(1)] by blast
    have rows: "rd_grants db' = update_rows (\<lambda>x. g_pk x = g_pk g) (\<lambda>_. ?g) (rd_grants db)"
      by (simp add: 2(2) set_expiration_time_def role_simps)
    have "entitled cf db' x = entitled cf db x" for x
      using entitled_less [OF assms(2) g _ _ rows, of cf x] entitled_more [OF assms(2) g _ _ rows, of cf x]
      by (auto simp: counts_def)
    then show ?thesis using assms(1)
      by (intro accounts_ok_same [OF assms(1)]) (auto simp: 2(2) set_expiration_time_def role_simps)
  qed (simp add: assms(1))
qed

lemma delete_user_accounts_ok:
  assumes "accounts_ok cf db" and "deactivate_if_no_roles cf" and "distinct (map g_pk (rd_grants db))"
    and "delete_user cf t scope u r by_user reason db = Inr (b, db')"
  shows "accounts_ok cf db'"
proof -
  consider "db' = db" | g where "get_active_grant scope u r db = Inr (Some g)" "db' = revoke_grant cf t by_user (removal_reason by_user reason) g db"
    using assms(4) by (auto simp: delete_user_def rbind_eq_Inr split: option.splits)
  then show ?thesis
  proof cases
    case 2
    then show ?thesis using revoke_accounts_ok [OF assms(1-3)] active_grant_found [OF 2(1)] by simp
  qed (simp add: assms(1))
qed

lemma sweep_accounts_ok:
  assumes "accounts_ok cf db" and "deactivate_if_no_roles cf" and "grants_ok db" and "distinct (map g_pk gs)"
    and "set gs \<subseteq> set (rd_grants db)"
  shows "accounts_ok cf (sweep cf t reason spared gs db)"
proof -
  have d: "distinct (map g_pk (rd_grants db))" using assms(3) by (simp add: grants_ok_def)
  show ?thesis
    by (rule sweep_invariant [where P = "accounts_ok cf", OF assms(1) d assms(4,5)]) (rule revoke_accounts_ok [OF _ assms(2)])
qed

lemma reconcile_accounts_ok:
  assumes "accounts_ok cf db" and "deactivate_if_no_roles cf" and "grants_ok db"
  shows "accounts_ok cf (revoke_user_roles_outside_availability cf t r db)"
  using filtered_rows [OF assms(3)] sweep_accounts_ok [OF assms] assms(1) by (simp add: reconciliation_is_sweep)

lemma destroyed_entitlement:
  assumes "\<not> list_ex (\<lambda>g. g_active g \<and> g_role g = r) (rd_grants db)" and "rd_grants d = filter (\<lambda>g. g_role g \<noteq> r) (rd_grants db)"
  shows "entitled cf d = entitled cf db"
  by (rule entitled_of_counted) (use assms in \<open>auto simp: list_ex_iff counts_def\<close>)


subsection \<open>The synchronisation\<close>

lemma has_active_role_entitles: "has_active_role cf db u \<or> course_ok cf u \<longleftrightarrow> entitled cf db u"
  by (auto simp: has_active_role_def exclude_removed_project_roles_def list_ex_iff entitled_def counts_def)

lemma set_active_all:
  "rd_accounts (fold (\<lambda>a. set_active (acc_pk a) b) as db) =
     map (\<lambda>x. if acc_pk x \<in> set (map acc_pk as) then x\<lparr>acc_is_active := b\<rparr> else x) (rd_accounts db)"
  by (induction as arbitrary: db) (auto simp: role_simps update_rows_def)

lemma same_account:
  "distinct (map acc_pk as) \<Longrightarrow> x \<in> set as \<Longrightarrow> acc_pk x \<in> set (map acc_pk (filter P as)) \<longleftrightarrow> P x"
  using distinct_key_eq [of acc_pk as x] by (auto simp: image_iff)

lemma sync_accounts:
  assumes "distinct (map acc_pk (rd_accounts db))" and "deactivate_if_no_roles cf"
  shows "rd_accounts (sync_user_deactivation_status cf db) =
    map (\<lambda>x. if acc_is_staff x \<or> acc_is_support x then x
             else if acc_is_active x \<and> \<not> entitled cf db (acc_pk x) then x\<lparr>acc_is_active := False\<rparr>
             else if \<not> acc_is_active x \<and> \<not> acc_is_admin_deactivated x \<and> entitled cf db (acc_pk x) then x\<lparr>acc_is_active := True\<rparr>
             else x) (rd_accounts db)"
proof -
  let ?off = "\<lambda>a. \<not> acc_is_staff a \<and> \<not> acc_is_support a \<and> acc_is_active a \<and> \<not> entitled cf db (acc_pk a)"
  let ?on = "\<lambda>a. \<not> acc_is_staff a \<and> \<not> acc_is_support a \<and> \<not> acc_is_active a \<and> \<not> acc_is_admin_deactivated a \<and> entitled cf db (acc_pk a)"
  define d where "d = fold (\<lambda>a. set_active (acc_pk a) False) (filter ?off (rd_accounts db)) db"
  have rows: "rd_accounts d = map (\<lambda>x. if ?off x then x\<lparr>acc_is_active := False\<rparr> else x) (rd_accounts db)"
    unfolding d_def set_active_all by (rule map_cong [OF refl]) (simp add: same_account [OF assms(1)] del: set_map)
  have pks: "map acc_pk (rd_accounts d) = map acc_pk (rd_accounts db)" by (auto simp: rows)
  have e: "entitled cf d = entitled cf db" by (rule entitled_same) (simp add: d_def fold_set_active_fields)
  have "sync_user_deactivation_status cf db = fold (\<lambda>a. set_active (acc_pk a) True) (filter ?on (rd_accounts d)) d"
  proof -
    have off: "filter (\<lambda>a. acc_is_active a \<and> \<not> has_active_role cf db (acc_pk a) \<and> \<not> course_ok cf (acc_pk a))
        (filter (\<lambda>a. \<not> acc_is_staff a \<and> \<not> acc_is_support a) (rd_accounts db)) = filter ?off (rd_accounts db)"
      using has_active_role_entitles [of cf db] by (auto intro!: filter_cong)
    have on: "filter (\<lambda>a. \<not> acc_is_active a \<and> \<not> acc_is_admin_deactivated a \<and> (has_active_role cf d (acc_pk a) \<or> course_ok cf (acc_pk a)))
        (filter (\<lambda>a. \<not> acc_is_staff a \<and> \<not> acc_is_support a) (rd_accounts d)) = filter ?on (rd_accounts d)"
      by (auto simp: has_active_role_entitles e intro!: filter_cong)
    show ?thesis using assms(2) by (simp only: sync_user_deactivation_status_def off Let_def d_def [symmetric] on) simp
  qed
  moreover have "rd_accounts (fold (\<lambda>a. set_active (acc_pk a) True) (filter ?on (rd_accounts d)) d) =
      map (\<lambda>x. if ?on x then x\<lparr>acc_is_active := True\<rparr> else x) (rd_accounts d)"
    unfolding set_active_all
    by (rule map_cong [OF refl]) (simp add: same_account [of "rd_accounts d"] pks assms(1) del: set_map)
  ultimately have "rd_accounts (sync_user_deactivation_status cf db) =
      map (\<lambda>x. if ?on x then x\<lparr>acc_is_active := True\<rparr> else x) (rd_accounts d)" by simp
  then show ?thesis by (simp add: rows comp_def cong: map_cong)
qed


lemma sync_establishes:
  assumes "distinct (map acc_pk (rd_accounts db))" and "deactivate_if_no_roles cf"
  shows "accounts_ok cf (sync_user_deactivation_status cf db)"
proof -
  let ?d = "sync_user_deactivation_status cf db"
  note rows = sync_accounts [OF assms]
  have "rd_grants ?d = rd_grants db"
    by (simp add: sync_user_deactivation_status_def Let_def fold_set_active_fields)
  then have e: "entitled cf ?d = entitled cf db" by (rule entitled_same)
  have pks: "map acc_pk (rd_accounts ?d) = map acc_pk (rd_accounts db)" by (auto simp: rows)
  have "account_ok cf ?d a" if "a \<in> set (rd_accounts ?d)" for a
    using that unfolding account_ok_def e by (auto simp: rows split: if_splits)
  then show ?thesis using assms(1) unfolding accounts_ok_def pks by blast
qed

lemma accounts_ok_unchanged:
  "accounts_ok cf db \<Longrightarrow> rd_accounts db' = rd_accounts db \<Longrightarrow> rd_grants db' = rd_grants db \<Longrightarrow> accounts_ok cf db'"
  by (erule (1) accounts_ok_same, erule entitled_same)

definition roles_ok :: "role_settings \<Rightarrow> roles_db \<Rightarrow> bool" where
  "roles_ok cf db \<longleftrightarrow> grants_ok db \<and> (deactivate_if_no_roles cf \<longrightarrow> accounts_ok cf db)"

lemma accounts_ok_step:
  "role_step cf db db' \<Longrightarrow> deactivate_if_no_roles cf \<Longrightarrow> grants_ok db \<Longrightarrow> accounts_ok cf db \<Longrightarrow> accounts_ok cf db'"
proof (induction rule: role_step.induct)
  case (added t c scope u r expiration db db')
  from added(1) show ?case
    by (rule add_user_endpoint_done) (rule add_user_accounts_ok [OF added(4,2)])
next
  case (updated t c scope u r expiration db db')
  from updated(1) show ?case
    by (rule update_user_endpoint_done) (rule update_user_accounts_ok [OF updated(4)], use updated(3) in \<open>auto simp: grants_ok_def\<close>)
next
  case (removed t c scope u r db db')
  from removed(1) show ?case
    by (rule delete_user_endpoint_done) (rule delete_user_accounts_ok [OF removed(4,2)], use removed(3) in \<open>auto simp: grants_ok_def\<close>)
next
  case (revoked t c pk reason db db')
  from revoked(1) show ?case
    by (rule revoke_endpoint_done) (use revoked in \<open>simp add: revoke_accounts_ok grants_ok_def\<close>)
next
  case (restored c pk reason db db')
  from restored(1) show ?case
    by (rule restore_endpoint_done) (use restored in \<open>simp add: restore_accounts_ok grants_ok_def\<close>)
next
  case (cloned c r customer b db db')
  show ?case
    by (rule accounts_ok_unchanged [OF cloned(4)])
      (use cloned(1) in \<open>auto simp: clone_to_customer_def clone_role_for_customer_def with_clone_def conceal_def rbind_eq_Inr Let_def
        split: option.splits if_splits\<close>)
next
  case (concealed c r customer db db')
  show ?case
    by (rule accounts_ok_unchanged [OF concealed(4)])
      (use concealed(1) in \<open>auto simp: conceal_endpoint_def conceal_def rbind_eq_Inr split: option.splits if_splits\<close>)
next
  case (revealed c r customer db db')
  show ?case
    by (rule accounts_ok_unchanged [OF revealed(4)]) (use revealed(1) in \<open>auto simp: reveal_endpoint_def split: if_splits\<close>)
next
  case (unbound c r scope db db' queued)
  show ?case
    by (rule accounts_ok_unchanged [OF unbound(4)]) (use unbound(1) in \<open>auto simp: delete_availability_def split: if_splits\<close>)
next
  case (reconciled_role db t r)
  then show ?case using reconcile_accounts_ok by (simp add: reconcile_user_roles_for_role_def)
next
  case (switched b c r db db')
  show ?case
    by (rule accounts_ok_unchanged [OF switched(4)])
      (use switched(1) in \<open>auto simp: set_role_activity_def split: option.splits if_splits\<close>)
next
  case (destroyed c r db db')
  have "can_destroy_role db ro = Inr ()" "ro_pk ro = r" if "role_of db r = Some ro" for ro
    using destroyed(1) that role_of_pk [OF that] by (auto simp: destroy_role_def rbind_eq_Inr split: if_splits)
  then have unused: "\<not> list_ex (\<lambda>g. g_active g \<and> g_role g = r) (rd_grants db)"
    using destroyed(1) by (fastforce simp: destroy_role_def can_destroy_role_def split: if_splits option.splits)
  have rows: "rd_grants db' = filter (\<lambda>g. g_role g \<noteq> r) (rd_grants db)" "rd_accounts db' = rd_accounts db"
    using destroyed(1) by (auto simp: destroy_role_def rbind_eq_Inr split: option.splits if_splits)
  show ?case by (rule accounts_ok_same [OF destroyed(4) rows(2) destroyed_entitlement [OF unused rows(1)]])
next
  case (expired db t)
  then show ?case using filtered_rows sweep_accounts_ok by (simp add: expiry_is_sweep)
next
  case (reconciled db t)
  have "grants_ok (fold (revoke_user_roles_outside_availability cf t) rs db) \<and>
      accounts_ok cf (fold (revoke_user_roles_outside_availability cf t) rs db)" for rs
    using reconciled by (induction rs arbitrary: db) (simp_all add: reconcile_grants_ok reconcile_accounts_ok)
  then show ?case by (simp add: reconcile_user_roles_against_availability_def)
next
  case (synchronised db)
  then show ?case using sync_establishes by (simp add: accounts_ok_def)
qed

interpretation role_runs: invariant_system "role_step cf" "roles_ok cf" for cf
  by unfold_locales (auto simp: roles_ok_def intro: grants_ok_step accounts_ok_step)

end
