(* ===== verification/Role_Properties.thy ===== *)
theory Role_Properties
  imports Role_Accounts
begin

text \<open>
  The claims about roles: they are held once, granted by those who may, concealed without locking an organisation
  out, cloned and reconciled as the policy says; and where the endpoints depart from what they promise, on the
  small organisation of \<open>demo_roles\<close>.
\<close>

subsection \<open>An example\<close>

definition demo_attribute :: "entity \<Rightarrow> string \<Rightarrow> attribute" where
  "demo_attribute e a =
     (if e = (''project'', 2) \<and> a = ''customer'' then To (''customer'', 1)
      else if e = (''serviceprovider'', 3) \<and> a = ''customer'' then To (''customer'', 1)
      else Missing)"

definition demo_tree :: scope_tree where
  "demo_tree = \<lparr>attribute_of = demo_attribute,
     customer_of = (\<lambda>e. if e \<in> {(''customer'', 1), (''project'', 2), (''serviceprovider'', 3)} then Some (''customer'', 1) else None),
     rules_of = (\<lambda>_. None), unavailable = (\<lambda>_. False), removed_projects = [], sharing = (\<lambda>_. None),
     slug_of = (\<lambda>_. ''acme''), still_exists = (\<lambda>_. True)\<rparr>"

definition demo_settings :: role_settings where
  "demo_settings = \<lparr>scopes = demo_tree, only_one_project_manager = False, disable_multiple_roles = False,
     deactivate_if_no_roles = True, course_ok = (\<lambda>_. False), email_matches = (\<lambda>_ _. False), expiration_exempt = (\<lambda>_. False),
     membership_control = None, project_email_allowed = (\<lambda>_ _. True), ip_allows = (\<lambda>_. True)\<rparr>"

definition demo_account :: "nat \<Rightarrow> bool \<Rightarrow> bool \<Rightarrow> account" where
  "demo_account pk active staff = \<lparr>acc_pk = pk, acc_is_active = active, acc_is_staff = staff, acc_is_support = False,
     acc_is_admin_deactivated = False, acc_email = [], acc_affiliations = [], acc_identity_source = [], acc_nationality = [],
     acc_nationalities = [], acc_organization_type = [], acc_assurance = []\<rparr>"

definition demo_role :: "nat \<Rightarrow> string \<Rightarrow> string \<Rightarrow> role_row" where
  "demo_role pk name ct = \<lparr>ro_pk = pk, ro_name = name, ro_is_system = True, ro_is_active = True, ro_content_type = ct, ro_template = None\<rparr>"

definition demo_grant :: "nat \<Rightarrow> nat \<Rightarrow> nat \<Rightarrow> entity \<Rightarrow> bool \<Rightarrow> grant" where
  "demo_grant pk u r scope active = \<lparr>g_pk = pk, g_user = u, g_role = r, g_scope = scope, g_created_by = None, g_revoked_by = None,
     g_reason = [], g_source = [], g_expiration = None, g_active = active\<rparr>"

text \<open>An owner (10), staff (11), a project manager (12) and a reader of the organisation (13) whose role has no permission.\<close>

definition demo_roles :: roles_db where
  "demo_roles = \<lparr>
     rd_accounts = [demo_account 10 True False, demo_account 11 True True, demo_account 12 True False, demo_account 13 True False,
       demo_account 14 False False],
     rd_roles = [demo_role 1 ''CUSTOMER.OWNER'' ''customer'', demo_role 2 ''PROJECT.MANAGER'' ''project'',
       demo_role 3 ''CUSTOMER.READER'' ''customer'', demo_role 4 ''SERVICE_PROVIDER.AGENT'' ''serviceprovider'',
       demo_role 5 ''CUSTOMER.DEPUTY'' ''customer''],
     rd_permissions = [(1, ''CUSTOMER.CREATE_PERMISSION''), (1, ''PROJECT.CREATE_PERMISSION''), (1, ''CUSTOMER.DELETE_PERMISSION''),
       (2, ''PROJECT.DELETE_PERMISSION''), (2, ''PROJECT.CREATE_PERMISSION''), (4, ''OFFERING.UPDATE''),
       (5, ''CUSTOMER.CREATE_PERMISSION'')],
     rd_availability = [], rd_concealments = [],
     rd_grants = [demo_grant 20 10 1 (''customer'', 1) True, demo_grant 21 12 2 (''project'', 2) True,
       demo_grant 22 13 3 (''customer'', 1) True, demo_grant 23 14 2 (''project'', 2) False],
     rd_next = 30, rd_events = []\<rparr>"

definition demo_owner :: caller where
  "demo_owner = By_request (demo_account 10 True False) None"

definition demo_staff :: caller where
  "demo_staff = By_request (demo_account 11 True True) None"

lemma demo_grants_ok: "grants_ok demo_roles"
  by code_simp

subsection \<open>Held once\<close>

text \<open>C9. Nobody holds a role twice: along any sequence of requests and tasks, one after the other, a user has at most
  one active grant of a role on a scope, so the lookups of \<open>update_user\<close> and \<open>delete_user\<close>, which expect at most
  one, never fail, and find a grant exactly when the user holds the role.\<close>

theorem one_active_grant:
  assumes "grants_ok db0" and "(role_step cf)\<^sup>*\<^sup>* db0 db"
  shows "\<exists>found. get_active_grant scope u r db = Inr found \<and>
    (found \<noteq> None \<longleftrightarrow> role_holder db scope u (Some r) Any_expiry False) \<and>
    (\<exists>b db'. delete_user cf t scope u r by_user reason db = Inr (b, db'))"
proof -
  define rows where "rows = filter (\<lambda>g. g_user g = u \<and> g_role g = r \<and> g_scope g = scope \<and> g_active g) (rd_grants db)"
  have ok: "grants_ok db" by (rule single_grants.inv_run [OF assms(2,1)])
  have "distinct (map grant_key (filter (\<lambda>g. grant_key g = (u, r, scope)) (filter g_active (rd_grants db))))"
    by (rule distinct_map_filter) (use ok in \<open>simp add: grants_ok_def\<close>)
  moreover have "filter (\<lambda>g. grant_key g = (u, r, scope)) (filter g_active (rd_grants db)) = rows"
    by (auto simp: grant_key_def rows_def intro!: filter_cong)
  ultimately have once: "distinct (map grant_key rows)" by simp
  have keys: "grant_key g = (u, r, scope)" if "g \<in> set rows" for g using that by (auto simp: grant_key_def rows_def)
  have found: "get_active_grant scope u r db = (case rows of [] \<Rightarrow> Inr None | [g] \<Rightarrow> Inr (Some g) | _ \<Rightarrow> Inl Multiple_objects)"
    by (simp add: get_active_grant_def rows_def)
  have holds: "role_holder db scope u (Some r) Any_expiry False \<longleftrightarrow> rows \<noteq> []"
    by (auto simp: role_holder_def list_ex_iff filter_empty_conv expiry_matches_def rows_def)
  consider "rows = []" | g where "rows = [g]" | g h gs where "rows = g # h # gs" by (metis list.exhaust)
  then show ?thesis
  proof cases
    case 3
    then show ?thesis using once keys [of g] keys [of h] by simp
  qed (auto simp: found holds delete_user_def)
qed

text \<open>The owner grants the project's manager role to the staff member, and the project manager is found once.\<close>

definition demo_granted :: roles_db where
  "demo_granted = (case add_user_endpoint demo_settings 100 demo_owner (''project'', 2) 11 2 None demo_roles of
     Inr db \<Rightarrow> db | Inl _ \<Rightarrow> demo_roles)"

lemma demo_granted_owner:
  "add_user_endpoint demo_settings 100 demo_owner (''project'', 2) 11 2 None demo_roles = Inr demo_granted"
  by code_simp

lemma demo_grant_step: "role_step demo_settings demo_roles demo_granted"
  by (rule role_step.added [OF demo_granted_owner])

lemma one_active_grant_witness:
  "\<exists>found. get_active_grant (''project'', 2) 11 2 demo_granted = Inr found \<and>
    (found \<noteq> None \<longleftrightarrow> role_holder demo_granted (''project'', 2) 11 (Some 2) Any_expiry False) \<and>
    (\<exists>b db'. delete_user demo_settings 100 (''project'', 2) 11 2 None [] demo_granted = Inr (b, db'))"
  by (rule one_active_grant [OF demo_grants_ok, of demo_settings]) (rule r_into_rtranclp, rule demo_grant_step)

subsection \<open>Accounts\<close>







subsection \<open>Who grants\<close>

text \<open>C24. Only those who may grant do, and only what the policy lets through: an accepted request appends exactly one
  active grant, of the role to the user, in the name of the caller, and leaves the others; the caller was allowed the permission the
  kind of scope calls for, on the organisation, or on the scope itself and then not for themselves; and the role was
  of that kind, active, available there, not concealed and not held already.\<close>

theorem grant_is_authorised:
  assumes "add_user_endpoint cf t c scope u r expiration db = Inr db'" and "get_create_permission scope = Some p"
  shows "\<exists>g customer. rd_grants db' = rd_grants db @ [g] \<and>
    g_user g = u \<and> g_role g = r \<and> g_scope g = scope \<and> g_active g \<and> g_created_by g = Some (acc_pk (user_of c)) \<and>
    customer_of (scopes cf) scope = Some customer \<and> \<not> unavailable (scopes cf) customer \<and>
    (allowed (scopes cf) db c p (Some customer) \<or>
     allowed (scopes cf) db c p (Some scope) \<and> (u \<noteq> acc_pk (user_of c) \<or> scope = customer)) \<and>
    \<not> role_holder db scope u (Some r) Any_expiry False \<and> check_grant_policy cf db scope r = Inr () \<and>
    (\<exists>ro. role_of db r = Some ro \<and> ro_is_active ro \<and> ro_content_type ro = fst scope)"
proof -
  obtain g where checks: "add_user_checks cf db t c scope u r expiration = Inr ()"
    and add: "add_user cf scope u r (Some (acc_pk (user_of c))) expiration False [] [] db = Inr (g, db')"
    by (rule add_user_endpoint_done [OF assms(1)])
  obtain ro a where ok: "role_of db r = Some ro" "ro_pk ro = r" "acc_pk a = u"
    "mutate_checks cf db t c (get_create_permission scope) scope u expiration = Inr ()"
    "validate_role_grant cf db t scope a ro = Inr ()"
    by (rule add_user_checked [OF checks])
  obtain customer where "customer_of (scopes cf) scope = Some customer" "\<not> unavailable (scopes cf) customer"
    "allowed (scopes cf) db c p (Some customer) \<or>
     allowed (scopes cf) db c p (Some scope) \<and> (u \<noteq> acc_pk (user_of c) \<or> scope = customer)"
    using ok(4) assms(2)
    by (auto simp: mutate_checks_def rbind_eq_Inr may_def has_permission_allowed split: option.splits if_splits)
  moreover have "g_created_by g = Some (acc_pk (user_of c))" using add by (auto simp: add_user_def rbind_eq_Inr Let_def)
  ultimately show ?thesis
    using add_user_rows [OF add] granted_role [OF ok(5)] ok(1-3)
    by (intro exI [of _ g] exI [of _ customer]) (auto simp: grant_key_def)
qed

lemma grant_is_authorised_witness: "length (rd_grants demo_granted) = Suc (length (rd_grants demo_roles))"
proof -
  have "get_create_permission (''project'', 2) = Some ''PROJECT.CREATE_PERMISSION''" by code_simp
  from grant_is_authorised [OF demo_granted_owner this] show ?thesis by auto
qed

subsection \<open>Policy\<close>

lemma reconciled_rows:
  assumes "grants_ok db"
  shows "rd_grants (revoke_user_roles_outside_availability cf t r db) =
      map (\<lambda>g. if g_role g = r \<and> g_active g \<and> has_availability db r \<and> still_exists (scopes cf) (g_scope g) \<and>
                    \<not> available_at cf db r (g_scope g)
               then revoked_row t None ''Role availability removed'' g else g) (rd_grants db)"
proof (cases "has_availability db r")
  case True
  have "list_all g_active (filter (\<lambda>g. g_role g = r \<and> g_active g) (rd_grants db))" by (simp add: list_all_iff)
  then show ?thesis
    using True assms filtered_rows [OF assms]
    by (auto simp: reconciliation_is_sweep sweep_rows grants_ok_def covered_def available_at_def)
qed (simp add: reconciliation_is_sweep)

lemma added_policy:
  assumes "add_user cf scope u r b expiration False source reason db0 = Inr (g, db)"
  shows "has_availability db r \<Longrightarrow> available_at cf db r scope"
  using assms by (auto simp: add_user_def rbind_eq_Inr Let_def role_simps check_grant_policy_def has_availability_def
      available_at_def split: if_splits)

text \<open>C25. The reconciliation of a role is exact: after a grant that the checked \<open>add_user\<close> made, the task for its role
  revokes every active grant of the role on a scope that exists and for which neither the scope nor an ancestor of it
  is in the role's availability, in the system's name and at the time of the task, and changes no other row; the new
  grant survives.\<close>

theorem reconciliation_revokes_outside:
  assumes "add_user cf scope u r b expiration False source reason db0 = Inr (g, db)" and "grants_ok db"
  shows "rd_grants (revoke_user_roles_outside_availability cf t r db) =
      map (\<lambda>x. if g_role x = r \<and> g_active x \<and> has_availability db r \<and> still_exists (scopes cf) (g_scope x) \<and>
                    \<not> available_at cf db r (g_scope x)
               then x\<lparr>g_active := False, g_expiration := Some t, g_revoked_by := None, g_reason := ''Role availability removed''\<rparr>
               else x) (rd_grants db0) @ [g]"
  using reconciled_rows [OF assms(2), of cf t r] added_policy [OF assms(1)] add_user_rows [OF assms(1)]
  by (auto simp: revoked_row_def grant_key_def has_availability_def available_at_def)

text \<open>The manager's role is bound to another organisation: a grant there survives, the one of user 12 is revoked.\<close>

definition demo_bound :: roles_db where
  "demo_bound = demo_roles\<lparr>rd_availability := [(2, (''customer'', 7))]\<rparr>"

definition demo_bound_granted :: "grant \<times> roles_db" where
  "demo_bound_granted = (case add_user demo_settings (''customer'', 7) 13 2 None None False [] [] demo_bound of
     Inr x \<Rightarrow> x | Inl _ \<Rightarrow> (demo_grant 0 0 0 (''customer'', 7) False, demo_bound))"

lemma reconciliation_revokes_outside_witness:
  "map g_active (rd_grants (revoke_user_roles_outside_availability demo_settings 100 2 (snd demo_bound_granted))) =
     [True, False, True, False, True]"
proof -
  have add: "add_user demo_settings (''customer'', 7) 13 2 None None False [] [] demo_bound =
      Inr (fst demo_bound_granted, snd demo_bound_granted)" by code_simp
  have "grants_ok (snd demo_bound_granted)" by code_simp
  note reconciliation_revokes_outside [OF add this, of 100]
  then show ?thesis by (simp only:) code_simp
qed

text \<open>The scopes under an organisation as the tables see them: it is an ancestor, and the only organisation among them.\<close>

definition under :: "role_settings \<Rightarrow> entity \<Rightarrow> entity \<Rightarrow> bool" where
  "under cf customer scope \<longleftrightarrow> customer \<in> set (get_scope_ancestors (scopes cf) scope) \<and>
     fst customer = CUSTOMER_MODEL \<and>
     list_all (\<lambda>e. fst e \<noteq> CUSTOMER_MODEL \<or> e = customer) (get_scope_ancestors (scopes cf) scope)"

lemma under_concealed:
  assumes "under cf customer scope" and "list_all (\<lambda>(_, e). fst e = CUSTOMER_MODEL) (rd_concealments db)"
  shows "concealed_at cf db r scope \<longleftrightarrow> (r, customer) \<in> set (rd_concealments db)"
proof -
  have only: "a \<in> set (get_scope_ancestors (scopes cf) scope) \<and> fst a = CUSTOMER_MODEL \<longleftrightarrow> a = customer" for a
    using assms(1) by (auto simp: under_def list_all_iff)
  have "fst a = CUSTOMER_MODEL" if "(r, a) \<in> set (rd_concealments db)" for a
    using that assms(2) by (auto simp: list_all_iff)
  then show ?thesis unfolding concealed_at_def list_ex_iff using only by metis
qed

text \<open>C26. Concealing roles does not lock an organisation out: when staff concealed a role that may grant roles on its
  kind of scope, another active role of the kind with that permission is left, and on every scope under the
  organisation the policy still lets it be granted; the concealed one it does not.\<close>

theorem concealment_leaves_grantor:
  assumes "conceal_endpoint c r customer db = Inr db'" and "role_of db r = Some ro"
    and "map_of CREATE_PERMISSIONS (ro_content_type ro) = Some p" and "role_holds db r p"
    and "under cf customer scope" and "list_all (\<lambda>(_, e). fst e = CUSTOMER_MODEL) (rd_concealments db)"
  shows "list_ex (\<lambda>x. ro_pk x \<noteq> r \<and> ro_is_active x \<and> ro_content_type x = ro_content_type ro \<and> role_holds db' (ro_pk x) p \<and>
      check_grant_policy cf db' scope (ro_pk x) = Inr ()) (rd_roles db') \<and>
    check_grant_policy cf db' scope r \<noteq> Inr ()"
proof -
  note pk = role_of_pk [OF assms(2), THEN conjunct2]
  have valid: "validate_concealment_allowed db customer ro = Inr ()" and db': "db' = conceal r customer db"
    using assms(1,2) by (auto simp: conceal_endpoint_def rbind_eq_Inr split: if_splits)
  obtain x where x: "x \<in> set (rd_roles db)" "ro_content_type x = ro_content_type ro" "ro_is_active x" "role_holds db (ro_pk x) p"
    "ro_pk x \<noteq> r" "(ro_pk x, customer) \<notin> set (rd_concealments db)"
    "has_availability db (ro_pk x) \<Longrightarrow> (ro_pk x, customer) \<in> set (rd_availability db)"
    using valid assms(3,4) by (auto simp: validate_concealment_allowed_def pk list_ex_iff)
  have fields: "rd_roles db' = rd_roles db" "rd_availability db' = rd_availability db" "rd_permissions db' = rd_permissions db"
    "set (rd_concealments db') = insert (r, customer) (set (rd_concealments db))"
    by (auto simp: db' conceal_def)
  have "list_all (\<lambda>(_, e). fst e = CUSTOMER_MODEL) (rd_concealments db')"
    using assms(5,6) fields(4) by (auto simp: list_all_iff under_def)
  note concealed = under_concealed [OF assms(5) this]
  have "check_grant_policy cf db' scope (ro_pk x) = Inr ()"
    using x assms(5) fields
    by (auto simp: check_grant_policy_def concealed has_availability_def available_at_def list_ex_iff under_def)
  moreover have "check_grant_policy cf db' scope r \<noteq> Inr ()" by (simp add: check_grant_policy_def concealed fields)
  ultimately show ?thesis using x fields by (auto simp: list_ex_iff role_holds_def)
qed

definition demo_concealed :: roles_db where
  "demo_concealed = conceal 1 (''customer'', 1) demo_roles"

lemma concealment_leaves_grantor_witness:
  "list_ex (\<lambda>x. ro_pk x \<noteq> 1 \<and> check_grant_policy demo_settings demo_concealed (''customer'', 1) (ro_pk x) = Inr ()) (rd_roles demo_concealed) \<and>
   check_grant_policy demo_settings demo_concealed (''customer'', 1) 1 \<noteq> Inr ()"
proof -
  have "list_ex (\<lambda>x. ro_pk x \<noteq> 1 \<and> ro_is_active x \<and> ro_content_type x = ro_content_type (demo_role 1 ''CUSTOMER.OWNER'' ''customer'') \<and>
      role_holds demo_concealed (ro_pk x) ''CUSTOMER.CREATE_PERMISSION'' \<and>
      check_grant_policy demo_settings demo_concealed (''customer'', 1) (ro_pk x) = Inr ()) (rd_roles demo_concealed) \<and>
    check_grant_policy demo_settings demo_concealed (''customer'', 1) 1 \<noteq> Inr ()"
    by (rule concealment_leaves_grantor [where c = demo_staff and customer = "(''customer'', 1)" and db = demo_roles]) code_simp+
  then show ?thesis by (auto simp: list_ex_iff)
qed

lemma first_row_append: "list_all (\<lambda>r. \<not> p r) rows \<Longrightarrow> first_row p (rows @ rest) = first_row p rest"
  by (induction rows) auto

lemma next_free_name_free: "next_free_name names name k \<notin> set names"
  by (induction names name k rule: next_free_name.induct) (simp add: next_free_name.simps)

text \<open>Every key in use is below the next one.\<close>

definition fresh_keys :: "roles_db \<Rightarrow> bool" where
  "fresh_keys db \<longleftrightarrow> list_all (\<lambda>x. ro_pk x < rd_next db) (rd_roles db) \<and> list_all (\<lambda>x. fst x < rd_next db) (rd_permissions db) \<and>
     list_all (\<lambda>x. fst x < rd_next db) (rd_availability db) \<and> list_all (\<lambda>x. fst x < rd_next db) (rd_concealments db)"

lemma grantable_iff:
  "check_grant_policy cf db scope r = Inr () \<longleftrightarrow>
     (\<not> has_availability db r \<or> available_at cf db r scope) \<and> \<not> concealed_at cf db r scope"
  by (simp add: check_grant_policy_def)

lemma cloned_fields:
  assumes "clone_role_for_customer cf template customer True db = Inr (ro, db')"
  shows "ro = clone_row db cf customer template" "rd_roles db' = rd_roles db @ [ro]"
    "set (rd_permissions db') = set (rd_permissions db) \<union> {(ro_pk ro, p) |p. role_holds db (ro_pk template) p}"
    "set (rd_availability db') = insert (ro_pk ro, customer) (set (rd_availability db))"
    "set (rd_concealments db') = insert (ro_pk template, customer) (set (rd_concealments db))"
proof -
  note cloned = assms [unfolded clone_role_for_customer_def Let_def, simplified, unfolded rbind_eq_Inr]
  show "ro = clone_row db cf customer template" "rd_roles db' = rd_roles db @ [ro]"
    "set (rd_permissions db') = set (rd_permissions db) \<union> {(ro_pk ro, p) |p. role_holds db (ro_pk template) p}"
    "set (rd_availability db') = insert (ro_pk ro, customer) (set (rd_availability db))"
    "set (rd_concealments db') = insert (ro_pk template, customer) (set (rd_concealments db))"
    using cloned by (auto simp: rbind_eq_Inr conceal_def with_clone_def role_holds_def split: if_splits)
qed

text \<open>C23. A clone takes over from its template, in one organisation: cloned and concealed for it, the template leaves a
  new role under a name nobody has, with exactly its permissions and kind, which the policy lets be granted on the
  organisation and the scopes under it and nowhere else; there the template may no longer be granted, and elsewhere
  exactly where it could before.\<close>

theorem clone_supersedes_template:
  assumes "clone_role_for_customer cf template customer True db = Inr (ro, db')" and "fresh_keys db" and "template \<in> set (rd_roles db)"
  shows "role_of db' (ro_pk ro) = Some ro \<and> ro_is_active ro \<and> ro_content_type ro = ro_content_type template \<and>
    ro_template ro = Some (ro_pk template) \<and> ro_name ro \<notin> set (map ro_name (rd_roles db)) \<and>
    role_holds db' (ro_pk ro) = role_holds db (ro_pk template) \<and>
    (check_grant_policy cf db' scope (ro_pk ro) = Inr () \<longleftrightarrow> customer \<in> set (get_scope_ancestors (scopes cf) scope)) \<and>
    (check_grant_policy cf db' scope (ro_pk template) = Inr () \<longleftrightarrow>
       customer \<notin> set (get_scope_ancestors (scopes cf) scope) \<and> check_grant_policy cf db scope (ro_pk template) = Inr ())"
proof -
  note fields = cloned_fields [OF assms(1)]
  have pk: "ro_pk ro = rd_next db" by (simp add: fields(1) clone_row_def)
  have new: "x \<in> set (rd_roles db) \<Longrightarrow> ro_pk x \<noteq> rd_next db" "(rd_next db, e) \<notin> set (rd_availability db)"
    "(rd_next db, e) \<notin> set (rd_concealments db)" "(rd_next db, p) \<notin> set (rd_permissions db)" for x e p
    using assms(2) by (fastforce simp: fresh_keys_def list_all_iff)+
  have "ro_name ro \<notin> set (map ro_name (rd_roles db))"
    using next_free_name_free by (auto simp: fields(1) clone_row_def ensure_unique_role_name_def simp del: set_map)
  moreover have "role_of db' (ro_pk ro) = Some ro"
    using new(1) pk by (simp add: role_of_def fields(2) first_row_append list_all_iff)
  moreover have "role_holds db' (ro_pk ro) = role_holds db (ro_pk template)"
    using new(4) by (auto simp: role_holds_def fields(3) pk fun_eq_iff)
  moreover have "check_grant_policy cf db' scope (ro_pk ro) = Inr () \<longleftrightarrow> customer \<in> set (get_scope_ancestors (scopes cf) scope)"
    using new(1) [OF assms(3)] new(2,3)
    by (auto simp: grantable_iff has_availability_def available_at_def concealed_at_def fields(4,5) pk list_ex_iff)
  moreover have "check_grant_policy cf db' scope (ro_pk template) = Inr () \<longleftrightarrow>
       customer \<notin> set (get_scope_ancestors (scopes cf) scope) \<and> check_grant_policy cf db scope (ro_pk template) = Inr ()"
    using new(1) [OF assms(3)]
    by (auto simp: grantable_iff has_availability_def available_at_def concealed_at_def fields(4,5) pk list_ex_iff)
  ultimately show ?thesis by (simp add: fields(1) clone_row_def)
qed

definition demo_cloned :: "role_row \<times> roles_db" where
  "demo_cloned = (case clone_role_for_customer demo_settings (demo_role 2 ''PROJECT.MANAGER'' ''project'') (''customer'', 1) True demo_roles of
     Inr x \<Rightarrow> x | Inl _ \<Rightarrow> (demo_role 0 [] [], demo_roles))"

lemma clone_supersedes_template_witness:
  "ro_name (fst demo_cloned) = ''PROJECT.acme.MANAGER'' \<and>
   check_grant_policy demo_settings (snd demo_cloned) (''project'', 2) 30 = Inr () \<and>
   check_grant_policy demo_settings (snd demo_cloned) (''project'', 2) 2 \<noteq> Inr ()"
proof -
  have cloned: "clone_role_for_customer demo_settings (demo_role 2 ''PROJECT.MANAGER'' ''project'') (''customer'', 1) True demo_roles =
    Inr (fst demo_cloned, snd demo_cloned)" by code_simp
  have "fresh_keys demo_roles" by code_simp
  moreover have "demo_role 2 ''PROJECT.MANAGER'' ''project'' \<in> set (rd_roles demo_roles)" by code_simp
  moreover have "(''customer'', 1) \<in> set (get_scope_ancestors (scopes demo_settings) (''project'', 2))" by code_simp
  moreover have "ro_pk (fst demo_cloned) = 30" "ro_name (fst demo_cloned) = ''PROJECT.acme.MANAGER''" by code_simp+
  ultimately show ?thesis
    using clone_supersedes_template [OF cloned, of "(''project'', 2)"] by (simp add: demo_role_def)
qed

subsection \<open>Where the endpoints depart\<close>

text \<open>
  Restoring a grant asks only for the permission and for no active duplicate: the checks of a new grant (is the role
  active, available on the scope, not concealed) are not made, so staff and support bring back through the grant
  what the organisation's endpoint refuses.
\<close>

definition demo_disabled :: roles_db where
  "demo_disabled = demo_roles\<lparr>rd_roles := update_rows (\<lambda>x. ro_pk x = 2) (\<lambda>x. x\<lparr>ro_is_active := False\<rparr>) (rd_roles demo_roles),
     rd_concealments := [(2, (''customer'', 1))]\<rparr>"

lemma restore_skips_policy:
  "add_user_endpoint demo_settings 100 demo_staff (''project'', 2) 14 2 None demo_disabled = Inl (Validation ''Role is not active.'') \<and>
   check_grant_policy demo_settings demo_disabled (''project'', 2) 2 \<noteq> Inr () \<and>
   (case restore_endpoint demo_settings demo_staff 23 [] demo_disabled of
      Inl _ \<Rightarrow> False | Inr db \<Rightarrow> role_holder db (''project'', 2) 14 (Some 2) Any_expiry False)"
  by code_simp

text \<open>
  The checks of a request and its write are two steps without a lock.  Two requests that grant the same role, both
  checked before either writes, leave two active grants; from then on updating and removing the role by user fail.
\<close>

lemma racing_grants_strand_the_role:
  "add_user_checks demo_settings demo_roles 100 demo_owner (''project'', 2) 11 2 None = Inr () \<and>
   (case add_user demo_settings (''project'', 2) 11 2 (Some 10) None False [] [] demo_granted of
      Inl _ \<Rightarrow> False
    | Inr (_, db) \<Rightarrow>
        delete_user_endpoint demo_settings 100 demo_staff (''project'', 2) 11 2 db = Inl Multiple_objects \<and>
        update_user_endpoint demo_settings 100 demo_staff (''project'', 2) 11 2 None db = Inl Multiple_objects)"
  by code_simp

text \<open>An update of a role the user does not hold is a server error, not a refusal.\<close>

lemma update_of_missing_role_crashes:
  "update_user_endpoint demo_settings 100 demo_staff (''project'', 2) 13 2 None demo_roles = Inl Attribute_error"
  by code_simp

text \<open>
  The endpoint of a scope refuses to let a member remove the own role; the endpoint of the grant does it.
\<close>

definition demo_manager :: caller where
  "demo_manager = By_request (demo_account 12 True False) None"

lemma own_role_removed_by_the_other_door:
  "delete_user_endpoint demo_settings 100 demo_manager (''project'', 2) 12 2 demo_roles =
     Inl (Validation ''User can not manage own role.'') \<and>
   (case revoke_endpoint demo_settings 100 demo_manager 21 [] demo_roles of
      Inl _ \<Rightarrow> False | Inr db \<Rightarrow> \<not> role_holder db (''project'', 2) 12 None Any_expiry False)"
  by code_simp

text \<open>
  The tables of permissions know service providers by a name that is not the model's, so no permission is found for
  them: a holder of a role without any permission passes, and every token, staff's too, is a server error.
\<close>

lemma provider_roles_need_no_permission:
  "get_create_permission (''serviceprovider'', 3) = None \<and>
   add_user_checks demo_settings demo_roles 100 demo_owner (''serviceprovider'', 3) 12 4 None = Inl Permission_denied \<and>
   add_user_checks demo_settings demo_roles 100 (By_request (demo_account 13 True False) None) (''serviceprovider'', 3) 12 4 None = Inr () \<and>
   add_user_checks demo_settings demo_roles 100 (By_request (demo_account 11 True True) (Some \<lparr>pat_scopes = [''CUSTOMER.CREATE_PERMISSION'', STAFF_ACCESS], pat_allowed_scopes = []\<rparr>))
     (''serviceprovider'', 3) 12 4 None = Inl Attribute_error"
  by code_simp

text \<open>Disabling a role does not look at who can still grant: after a concealment the last such role can be disabled.\<close>

lemma last_grantor_can_be_disabled:
  "(case conceal_endpoint demo_staff 1 (''customer'', 1) demo_roles of
      Inl _ \<Rightarrow> False
    | Inr db \<Rightarrow> (case set_role_activity False demo_staff 5 db of
        Inl _ \<Rightarrow> False
      | Inr db' \<Rightarrow> list_all (\<lambda>x. \<not> (ro_is_active x \<and> role_holds db' (ro_pk x) ''CUSTOMER.CREATE_PERMISSION'' \<and>
            check_grant_policy demo_settings db' (''customer'', 1) (ro_pk x) = Inr ())) (rd_roles db')))"
  by code_simp

text \<open>
  Every endpoint on role definitions asks a token for the staff scope, but for the one that deletes a row of the
  availability: any token of a staff account passes, and the reconciliation it queues revokes the grants.
\<close>

definition demo_token :: caller where
  "demo_token = By_request (demo_account 11 True True) (Some \<lparr>pat_scopes = [], pat_allowed_scopes = []\<rparr>)"

definition demo_offices :: roles_db where
  "demo_offices = demo_roles\<lparr>rd_availability := [(2, (''customer'', 1)), (2, (''customer'', 7))]\<rparr>"

lemma any_staff_token_unbinds:
  "conceal_endpoint demo_token 2 (''customer'', 1) demo_offices = Inl Permission_denied \<and>
   (case delete_availability demo_token 2 (''customer'', 1) demo_offices of
      Inl _ \<Rightarrow> False
    | Inr (db, r) \<Rightarrow> \<not> role_holder (reconcile_user_roles_for_role demo_settings 100 r db) (''project'', 2) 12 (Some 2) Any_expiry False)"
  by code_simp

end
