(* ===== verification/Spec2Isabelle.thy ===== *)
theory Spec2Isabelle
  imports Circuit_Breaker Posix_Properties Posix_Guarantees Posix_Lifecycle Posix_Collapse
    Option_Visibility Plan_Billing_Properties Order_Findings Quotas_Properties Credit_Examples Billing_Properties
    Derived_Limit_Properties Call_Workflow Role_Properties
begin

text \<open>
  Waldur is a marketplace for cloud and research resources.  Providers publish offerings with plans;
  members of projects, which belong to organisations (customers), order resources of an offering;
  orders are approved by the consumer's and the provider's side, executed by a plugin, and change the
  resource; usage is counted in quotas and billed on monthly invoices, which credits may pay.  This
  development models the parts that decide: who may do what and when, which numbers are handed out,
  which proposal gets resources, what is owed.  Paths below are relative to \<^verbatim>\<open>src/src\<close>.

  \<^bold>\<open>Parts and how they meet.\<close>  An order carries attributes, limits and a plan; its form may hide options
  (Conditional options); its estimate and the cost of the resource come from the plan (Plan billing);
  limits bought through a formula are computed (Derived limits); its state machine, approval, routing and
  completion are the Orders; accounts of users on the resource get UNIX numbers (POSIX identifiers);
  objects created and deleted move Quotas; a resource is registered on the invoice of its month, whose
  items are priced, discounted and resized (Billing) and at last paid from Credits; resources may also be
  asked for in a proposal, which a call reviews step by step (Proposal workflow).  Roles decide who may do
  any of this (Permissions); events are published through a STOMP connection guarded by the circuit
  breaker.  A database table is a list of rows in primary-key order, a transaction that raises leaves
  the database as it was, and time is an argument or a field of the state.

  \<^bold>\<open>Theories.\<close>
  \<open>Prelude\<close>: results with exceptions, tables, dates, the locales \<open>invariant_system\<close> and \<open>monotone_system\<close>
  that every step relation interprets.  \<open>Effects\<close>: handlers as state-and-exception computations where a
  raise keeps earlier writes unless it leaves a transaction, the locale \<open>state_order\<close> for relations
  between states that such a computation respects, and Python dictionaries.

  POSIX identifiers, \<^verbatim>\<open>waldur_mastermind/marketplace\<close> (\<open>posix_ids.py\<close>, \<open>posix_maintenance.py\<close>,
  \<open>project_groups.py\<close>, parts of \<open>models.py\<close>, \<open>serializers.py\<close>, \<open>handlers.py\<close>, \<open>views.py\<close>):
  \<open>Posix_Model\<close> has the pool and identity rows with their database constraints, \<open>Posix_Store\<close> the
  tables and pool resolution, \<open>Posix_Alloc\<close> the allocator, \<open>Posix_Ops\<close> pool administration, pins,
  releases and statistics, \<open>Posix_Maintenance\<close> collapse and re-point.  \<open>Posix_Alloc_Facts\<close> and
  \<open>Posix_Alloc_Spec\<close> prove one allocation totally correct and interpret the locale \<open>id_registry\<close> of
  \<open>Id_Registry\<close>; \<open>Posix_Provider\<close> and \<open>Posix_Steps\<close> give the invariant across the pools of a provider
  along the step relation \<open>posix_step\<close>; \<open>Posix_Withheld\<close> that withheld numbers stay withheld;
  \<open>Posix_Concurrency\<close> the interleavings of concurrent calls; \<open>Posix_Properties\<close>, \<open>Posix_Guarantees\<close>,
  \<open>Posix_Lifecycle\<close> and \<open>Posix_Collapse\<close> hold the claims, on the databases of \<open>Posix_Examples\<close>.

  Circuit breaker, \<^verbatim>\<open>waldur_core/logging/circuit_breaker.py\<close>: \<open>Circuit_Breaker\<close>, the class, its step
  relation and its claims.

  Conditional options, \<^verbatim>\<open>waldur_mastermind/common/serializers.py\<close>: \<open>Option_Visibility\<close>, the memoised
  search with its cycle guard, refined to the inductive meaning of the rules.

  Plan billing, \<^verbatim>\<open>waldur_mastermind/marketplace/billing_mode.py\<close> and the price methods of \<open>Plan\<close>:
  \<open>Plan_Billing\<close> has the resolver, the filters, estimates and fees, \<open>Plan_Billing_Properties\<close> the
  agreement of filters and resolver, the estimate as a sum and what an accepted mode keeps.

  Orders, \<^verbatim>\<open>waldur_mastermind/marketplace\<close> (\<open>models.py\<close>, \<open>handlers.py\<close>, \<open>callbacks.py\<close>,
  \<open>order_approval.py\<close>, \<open>permissions.py\<close>, \<open>utils.py\<close>, \<open>tasks.py\<close>, \<open>views.py\<close>) and the permission checks
  of \<^verbatim>\<open>waldur_core\<close>: \<open>Order_Model\<close> has rows, guarded transitions and save handlers, \<open>Order_Callbacks\<close>
  the completion callbacks, \<open>Order_Approval\<close> who approves and where an order goes, \<open>Order_Actions\<close> the
  endpoints.  \<open>Order_Facts\<close> holds equations for the building blocks, \<open>Order_Outcome\<close> the outcome of
  \<open>sync_order_state\<close> for every kind of order and final state, \<open>Order_Update\<close> all-or-nothing updates,
  \<open>Order_Guarantees\<close> routing, automatic approval and final decisions, \<open>Order_Findings\<close> where the
  workflow departs from its names and comments, on the marketplace of \<open>Order_Examples\<close>.

  Quotas, \<^verbatim>\<open>waldur_core/quotas\<close>: \<open>Quotas\<close> has limits, the log of usage deltas and its signal handlers,
  \<open>Quotas_Facts\<close> the rows and totals of one delta, \<open>Quotas_Aggregates\<close> the invariant of aggregating
  quotas along \<open>quota_step\<close>, \<open>Quotas_Properties\<close> the claims: aggregates are sums, the log refines
  counters, release undoes reservation, validated changes fit.

  Credits, \<^verbatim>\<open>waldur_mastermind/invoices\<close> (\<open>models.py\<close>, \<open>ledger.py\<close>, \<open>compensations.py\<close>,
  \<open>handlers.py\<close>, \<open>tasks.py\<close>): \<open>Credit_Model\<close> has invoices, credits, what saving validates and the
  ledger, \<open>Compensations\<close> the monthly run and its roll-back, \<open>Credit_Operations\<close> expiry, removal,
  affiliate fees and finalization.  \<open>Credit_Ledger\<close> proves that the ledger explains every balance along
  \<open>credit_step\<close>, \<open>Compensation_Facts\<close> what a run takes, saves and returns, \<open>Credit_Properties\<close> the
  claims, evaluated in \<open>Credit_Examples\<close>.

  Billing, \<^verbatim>\<open>waldur_mastermind/invoices\<close>, \<^verbatim>\<open>waldur_mastermind/promotions\<close> and \<^verbatim>\<open>waldur_mastermind/marketplace\<close>
  (\<open>billing.py\<close>, \<open>billing_limit.py\<close>, \<open>billing_usage.py\<close>, \<open>billing_discount.py\<close>): \<open>Billing_Time\<close> has the bounds of months and
  quarters, \<open>Billing_Model\<close> invoices, items and their quantities and prices, \<open>Limit_Billing\<close> the processor of
  limits, with its facts in \<open>Limit_Billing_Facts\<close> and \<open>Limit_Billing_Outcomes\<close> and its claims in
  \<open>Limit_Billing_Properties\<close>, \<open>Promotions\<close> the campaigns, \<open>Billing_Service\<close> the registration of resources,
  \<open>Usage_Billing\<close> the items of reported usage and of overage.
  \<open>Billing_Facts\<close> is what every operation respects, \<open>Billing_Properties\<close> the step relation of all of them
  with the invariant of invoices and items.  \<open>Pricing_Formula\<close>
  (\<^verbatim>\<open>waldur_mastermind/common/formula.py\<close>) is the evaluator of price formulas, \<open>Formula_Facts\<close> a sound
  system of kinds for it; \<open>Volume_Discounts\<close> the discount pass over an invoice, \<open>Volume_Discount_Facts\<close> and
  \<open>Volume_Discount_Properties\<close> that its lines are bounded and rebuilt alike.

  Derived limits, \<^verbatim>\<open>waldur_mastermind/marketplace/derived_limits.py\<close>: \<open>Limit_Formula\<close> has tokenizer, parser and
  evaluator, \<open>Limit_Grammar\<close> the documented grammar, the equivalence of the parser with it and the round
  trip through text, \<open>Derived_Limits\<close> validation and computation, \<open>Derived_Limit_Order\<close> the depth first
  search over sums, \<open>Derived_Limit_Facts\<close> the phases of the computation, \<open>Derived_Limit_Properties\<close> the
  claims.

  Proposal workflow, \<^verbatim>\<open>waldur_mastermind/proposal\<close> (\<open>workflow_service.py\<close>, parts of \<open>models.py\<close>, \<open>views.py\<close>,
  \<open>permissions.py\<close>, \<open>tasks.py\<close>, \<open>serializers.py\<close>): \<open>Workflow_Model\<close> is the service, \<open>Workflow_Endpoints\<close> who
  drives it and the step relation, \<open>Workflow_Facts\<close> what its calls do to the path of a proposal,
  \<open>Workflow_Refinement\<close> the abstract machine on paths it implements, \<open>Workflow_Properties\<close> the claims,
  \<open>Call_Workflow\<close> the configuration of the steps of a call.

  Permissions, \<^verbatim>\<open>waldur_core/permissions\<close>: \<open>Role_Model\<close> has roles, grants, scopes, tokens and the checks,
  \<open>Role_Checks\<close> the rule they follow; \<open>Role_Grants\<close> the policy of grants, the write primitives, the signals
  and the tasks; \<open>Role_Endpoints\<close> the endpoints and the step relation \<open>role_step\<close>; \<open>Role_Invariants\<close> and
  \<open>Role_Accounts\<close> its two invariants, \<open>Role_Properties\<close> the claims and where endpoints depart from them.  The
  orders keep the narrower tables they need of roles (\<open>Order_Approval\<close>).

  \<^bold>\<open>Bounds and recursion.\<close>  No fuel is chosen anywhere.  \<open>get_ancestors\<close> of the quotas counts down from ten,
  the limit of the code itself, and the parser of limits refuses beyond the depth the code allows; the searches of
  \<open>is_visible\<close> and \<open>_sum_order\<close>, the parsers (by the tokens left), the loops of the POSIX allocator and the
  search for a free role name (by the names taken) are total functions with a measure; the loop over
  quarters, which the code does not bound, is a \<open>partial_function\<close> with a proof that it returns; loops over
  rows are folds.  POSIX numbers are unbounded integers with the range checks of the code.  Money and
  limits are rational: they round as the code rounds them, the 28 digits of the decimal context and the
  widths of database columns are not modelled.  Times are UTC; characters are those of eight bits.

  \<^bold>\<open>Parameters.\<close>  \<open>relativedelta\<close>, its sums with datetimes, the plugin registry with the decimal places of limits, the parsing of booleans
  by the REST framework, \<open>uuid4\<close>, the parser, the floats and the mathematics library of price formulas, the
  matcher of e-mail patterns, the filter of grants by address, the state of course accounts and the checks of
  \<^verbatim>\<open>waldur_openportal\<close> are arguments of the definitions that use them.

  \<^bold>\<open>Concurrency.\<close>  Allocations of POSIX numbers are interleaved call by call (\<open>Posix_Concurrency\<close>).  Requests on
  one proposal are serialised by the lock of its row, as in the code.  Requests on roles, which take no lock, run one after the other, and
  \<open>racing_grants_strand_the_role\<close> shows what is lost otherwise; the other components are modelled one operation at a time.

  \<^bold>\<open>Not modelled.\<close>  Usage reports, rows which serializers write from what providers send; plugin processors, which call remote systems; the lifecycle and merging of
  offerings; policies on cost and usage and price estimates, which are sums over rows of other components;
  rounds, reviews and reviewer matching of calls, and the resources and orders an allocated proposal places; the
  tree of organisations and projects, checklists.  Names and article codes of invoice items are left out.
  Authentication, serializers without a rule of their own, filters, e-mail, event records, cloud drivers, remote
  synchronisation, chat, migrations and management commands are input, output or glue around services
  the repository does not contain.  The manifest lists every component with its reason.
\<close>

end
